(* ===== verification/Prelude.thy ===== *)
theory Prelude
  imports Main "HOL-Library.Word"
begin

text \<open>
  What every component of the development shares: the machine integers of the
  Rust sources (\<open>u64\<close>, \<open>u32\<close>) as words with Rust's checked and saturating
  additions, Rust strings as lists of UTF-8 bytes with the byte classes and the
  hexadecimal tests the sources use, the interfaces (locales) several components
  implement, and the collections of simplification rules the component theories
  fill.
\<close>

section \<open>Collections\<close>

text \<open>
  \<open>reducer_defs\<close> collects the equations that unfold a job reducer into its
  branches, \<open>wire_defs\<close> those of the text encodings kept in the database,
  \<open>actor_defs\<close> those of the device actor.
\<close>

named_theorems reducer_defs
named_theorems wire_defs
named_theorems actor_defs

section \<open>Machine integers\<close>

type_synonym u64 = "64 word"
type_synonym u32 = "32 word"

text \<open>
  Rust's \<open>checked_add\<close> is \<^term>\<open>None\<close> on overflow, \<open>saturating_add\<close> stops at the
  largest value. A plain \<open>+\<close> of the sources is the wrapping \<open>+\<close> of the word type
  (what a release build computes; a debug build panics instead).
\<close>

definition checked_add :: "'a::len word \<Rightarrow> 'a word \<Rightarrow> 'a word option" where
  "checked_add a b =
     (if unat a + unat b < 2 ^ LENGTH('a) then Some (a + b) else None)"

definition checked_mul :: "'a::len word \<Rightarrow> 'a word \<Rightarrow> 'a word option" where
  "checked_mul a b =
     (if unat a * unat b < 2 ^ LENGTH('a) then Some (a * b) else None)"

definition saturating_add :: "'a::len word \<Rightarrow> 'a word \<Rightarrow> 'a word" where
  "saturating_add a b =
     (if unat a + unat b < 2 ^ LENGTH('a) then a + b else - 1)"

lemma checked_add_SomeD:
  fixes a b c :: "'a::len word"
  assumes "checked_add a b = Some c"
  shows "unat c = unat a + unat b" and "c = a + b"
  using assms by (auto simp: checked_add_def unat_word_ariths split: if_splits)

lemma checked_mul_SomeD:
  fixes a b c :: "'a::len word"
  assumes "checked_mul a b = Some c"
  shows "unat c = unat a * unat b" and "c = a * b"
  using assms by (auto simp: checked_mul_def unat_word_ariths split: if_splits)

lemma unat_max_word: "unat (- 1 :: 'a::len word) = 2 ^ LENGTH('a) - 1"
  by (simp add: unsigned_minus_1_eq_mask mask_eq_exp_minus_1)

lemma unat_saturating_add:
  fixes a b :: "'a::len word"
  shows "unat (saturating_add a b) = min (unat a + unat b) (2 ^ LENGTH('a) - 1)"
  by (auto simp: saturating_add_def unat_word_ariths unat_max_word min_def)

lemma saturating_add_ge:
  fixes a b :: "'a::len word"
  shows "a \<le> saturating_add a b"
proof -
  have "unat a < 2 ^ LENGTH('a)" by (rule unsigned_less)
  then have "unat a \<le> 2 ^ LENGTH('a) - 1" by linarith
  then show ?thesis by (simp add: word_le_nat_alt unat_saturating_add)
qed

text \<open>
  SQLite keeps integers as \<open>i64\<close>: \<open>checked_i64\<close> of the stores refuses a larger
  value. Its successful results are exactly the \<open>u64\<close> values below \<open>2 ^ 63\<close>.
\<close>

definition fits_i64 :: "u64 \<Rightarrow> bool" where
  "fits_i64 v \<longleftrightarrow> unat v < 2 ^ 63"

section \<open>Rust strings\<close>

text \<open>
  A Rust \<open>String\<close> is its sequence of UTF-8 bytes, here a list of 8-bit
  characters, so \<^term>\<open>length\<close> is Rust's byte length \<open>len()\<close>.
\<close>

definition is_ascii_digit :: "char \<Rightarrow> bool" where
  "is_ascii_digit c \<longleftrightarrow> of_char c \<ge> (48::nat) \<and> of_char c \<le> (57::nat)"

definition is_lower_hex_letter :: "char \<Rightarrow> bool" where
  "is_lower_hex_letter c \<longleftrightarrow> of_char c \<ge> (97::nat) \<and> of_char c \<le> (102::nat)"

definition is_upper_hex_letter :: "char \<Rightarrow> bool" where
  "is_upper_hex_letter c \<longleftrightarrow> of_char c \<ge> (65::nat) \<and> of_char c \<le> (70::nat)"

definition is_lower_hex_char :: "char \<Rightarrow> bool" where
  "is_lower_hex_char c \<longleftrightarrow> is_ascii_digit c \<or> is_lower_hex_letter c"

definition is_ascii_hexdigit :: "char \<Rightarrow> bool" where
  "is_ascii_hexdigit c \<longleftrightarrow>
     is_ascii_digit c \<or> is_lower_hex_letter c \<or> is_upper_hex_letter c"

definition to_ascii_lower :: "char \<Rightarrow> char" where
  "to_ascii_lower c =
     (if of_char c \<ge> (65::nat) \<and> of_char c \<le> (90::nat)
      then char_of (of_char c + (32::nat)) else c)"

definition to_ascii_upper :: "char \<Rightarrow> char" where
  "to_ascii_upper c =
     (if of_char c \<ge> (97::nat) \<and> of_char c \<le> (122::nat)
      then char_of (of_char c - (32::nat)) else c)"

text \<open>Rust's \<open>strip_prefix\<close>.\<close>

fun strip_prefix :: "string \<Rightarrow> string \<Rightarrow> string option" where
  "strip_prefix [] s = Some s"
| "strip_prefix (p # ps) [] = None"
| "strip_prefix (p # ps) (c # cs) = (if p = c then strip_prefix ps cs else None)"

lemma strip_prefix_append [simp]: "strip_prefix p (p @ s) = Some s"
  by (induction p) auto

lemma strip_prefix_SomeD: "strip_prefix p s = Some r \<Longrightarrow> s = p @ r"
  by (induction p s rule: strip_prefix.induct) (auto split: if_splits)

section \<open>Text encodings\<close>

locale text_codec =
  fixes enc :: "'a \<Rightarrow> string" and dec :: "string \<Rightarrow> 'a option" and valid :: "'a \<Rightarrow> bool"
  assumes dec_enc: "valid x \<Longrightarrow> dec (enc x) = Some x"
begin

lemma enc_inj: "valid x \<Longrightarrow> valid y \<Longrightarrow> enc x = enc y \<longleftrightarrow> x = y"
  by (metis dec_enc option.inject)

lemma enc_inj_on: "inj_on enc {x. valid x}"
  by (auto simp: inj_on_def enc_inj)

lemma dec_unique: "valid x \<Longrightarrow> dec (enc x) = Some y \<Longrightarrow> y = x"
  by (simp add: dec_enc)

end

end
