(* ===== verification/Transfer_State.thy ===== *)
theory Transfer_State
  imports Prelude
begin

text \<open>
  The vocabulary of a transfer job: its failure codes and states
  (\<open>transfer/mod.rs\<close>), the one transition graph over them
  (\<open>transfer/aggregate.rs\<close>), the database's tags with their own copy of that graph
  (\<open>persistence/schema.rs\<close>), and the conversions between the two
  (\<open>transfer/queue.rs\<close>). The interface \<open>state_graph\<close>, a transition graph whose
  terminal states are sinks, starts here.
\<close>

section \<open>A transition graph with terminal sinks\<close>

locale state_graph =
  fixes edge :: "'s \<Rightarrow> 's \<Rightarrow> bool" and terminal :: "'s \<Rightarrow> bool"
  assumes terminal_sink: "terminal s \<Longrightarrow> \<not> edge s t"
begin

text \<open>
  A chain of compare-and-swap commits from state \<open>s\<close> at version \<open>v\<close>: each commit
  names the version it was decided against and moves along one edge.
\<close>

fun chain :: "'s \<Rightarrow> u64 \<Rightarrow> (u64 \<times> 's) list \<Rightarrow> bool" where
  "chain s v [] = True"
| "chain s v ((e, t) # cs) = (e = v \<and> edge s t \<and> chain t (v + 1) cs)"

lemma terminal_stuck: "edge\<^sup>*\<^sup>* s t \<Longrightarrow> terminal s \<Longrightarrow> t = s"
  by (induction rule: converse_rtranclp_induct) (auto simp: terminal_sink)

lemma chain_path: "chain s v cs \<Longrightarrow> edge\<^sup>*\<^sup>* s (last (s # map snd cs))"
  by (induction s v cs rule: chain.induct) (auto intro: converse_rtranclp_into_rtranclp)

lemma chain_terminal: "chain s v cs \<Longrightarrow> terminal s \<Longrightarrow> cs = []"
  by (cases cs) (auto simp: terminal_sink)

lemma chain_nth:
  "chain s v cs \<Longrightarrow> i < length cs \<Longrightarrow> fst (cs ! i) = v + of_nat i"
proof (induction s v cs arbitrary: i rule: chain.induct)
  case (2 s v e t cs)
  then show ?case by (cases i) (auto simp: add.assoc add.commute)
qed simp

lemma chain_only_last_terminal:
  "chain s v cs \<Longrightarrow> c \<in> set (butlast cs) \<Longrightarrow> \<not> terminal (snd c)"
proof (induction s v cs rule: chain.induct)
  case (2 s v e t cs)
  then show ?case by (cases cs) (auto simp: terminal_sink)
qed simp

end

section \<open>States of a transfer job\<close>

datatype failure_code =
    Network | DiskFull | HashMismatch | ObjectStoreRejected | DeviceHeartbeatFailed
  | Other string

datatype transfer_job_state =
    Queued | WaitingForDevice | WaitingForPairing | PausedCaptureActive | Preparing
  | Transferring | Verifying | Committing | RetryWait | Cancelling | Succeeded
  | Failed failure_code bool
  | Cancelled

fun is_terminal :: "transfer_job_state \<Rightarrow> bool" where
  "is_terminal Succeeded = True"
| "is_terminal (Failed code retryable) = True"
| "is_terminal Cancelled = True"
| "is_terminal _ = False"

text \<open>
  The legal edges, in the order of the source's \<open>matches!\<close>; a terminal source
  state is refused first.
\<close>

definition is_legal_transition :: "transfer_job_state \<Rightarrow> transfer_job_state \<Rightarrow> bool" where
  "is_legal_transition s t \<longleftrightarrow>
     \<not> is_terminal s \<and>
     (case (s, t) of
        (Queued, WaitingForDevice) \<Rightarrow> True
      | (Queued, WaitingForPairing) \<Rightarrow> True
      | (Queued, Preparing) \<Rightarrow> True
      | (Queued, Cancelling) \<Rightarrow> True
      | (WaitingForDevice, Queued) \<Rightarrow> True
      | (WaitingForDevice, Preparing) \<Rightarrow> True
      | (WaitingForDevice, PausedCaptureActive) \<Rightarrow> True
      | (WaitingForDevice, Cancelling) \<Rightarrow> True
      | (WaitingForPairing, Queued) \<Rightarrow> True
      | (WaitingForPairing, Preparing) \<Rightarrow> True
      | (WaitingForPairing, Cancelling) \<Rightarrow> True
      | (PausedCaptureActive, Queued) \<Rightarrow> True
      | (PausedCaptureActive, Preparing) \<Rightarrow> True
      | (PausedCaptureActive, Cancelling) \<Rightarrow> True
      | (Preparing, Transferring) \<Rightarrow> True
      | (Preparing, WaitingForDevice) \<Rightarrow> True
      | (Preparing, Failed _ _) \<Rightarrow> True
      | (Preparing, Cancelling) \<Rightarrow> True
      | (Transferring, Verifying) \<Rightarrow> True
      | (Transferring, RetryWait) \<Rightarrow> True
      | (Transferring, PausedCaptureActive) \<Rightarrow> True
      | (Transferring, Failed _ _) \<Rightarrow> True
      | (Transferring, Cancelling) \<Rightarrow> True
      | (Verifying, Committing) \<Rightarrow> True
      | (Verifying, RetryWait) \<Rightarrow> True
      | (Verifying, Failed _ _) \<Rightarrow> True
      | (Verifying, Cancelling) \<Rightarrow> True
      | (Committing, Succeeded) \<Rightarrow> True
      | (Committing, RetryWait) \<Rightarrow> True
      | (Committing, Failed _ _) \<Rightarrow> True
      | (Committing, Cancelling) \<Rightarrow> True
      | (RetryWait, Queued) \<Rightarrow> True
      | (RetryWait, Preparing) \<Rightarrow> True
      | (RetryWait, Cancelling) \<Rightarrow> True
      | (RetryWait, Failed _ _) \<Rightarrow> True
      | (Cancelling, Cancelled) \<Rightarrow> True
      | (Cancelling, Failed _ _) \<Rightarrow> True
      | _ \<Rightarrow> False)"

definition all_states :: "transfer_job_state list" where
  "all_states =
     [Queued, WaitingForDevice, WaitingForPairing, PausedCaptureActive, Preparing,
      Transferring, Verifying, Committing, RetryWait, Cancelling, Succeeded,
      Failed Network True, Cancelled]"

fun state_name :: "transfer_job_state \<Rightarrow> string" where
  "state_name Queued = ''queued''"
| "state_name WaitingForDevice = ''waiting_for_device''"
| "state_name WaitingForPairing = ''waiting_for_pairing''"
| "state_name PausedCaptureActive = ''paused_capture_active''"
| "state_name Preparing = ''preparing''"
| "state_name Transferring = ''transferring''"
| "state_name Verifying = ''verifying''"
| "state_name Committing = ''committing''"
| "state_name RetryWait = ''retry_wait''"
| "state_name Cancelling = ''cancelling''"
| "state_name Succeeded = ''succeeded''"
| "state_name (Failed _ _) = ''failed''"
| "state_name Cancelled = ''cancelled''"

text \<open>
  \<open>route\<close>: the durable commits that lead from one state to another, directly or with
  one hop through \<open>queued\<close>.
\<close>

definition route ::
    "transfer_job_state \<Rightarrow> transfer_job_state \<Rightarrow> transfer_job_state list option" where
  "route s t =
     (if s = t then Some []
      else if is_legal_transition s t then Some [t]
      else if is_legal_transition s Queued \<and> is_legal_transition Queued t
      then Some [Queued, t]
      else None)"

section \<open>The database's tags\<close>

datatype job_state_tag =
    TagQueued | TagWaitingForDevice | TagWaitingForPairing | TagPausedCaptureActive
  | TagPreparing | TagTransferring | TagVerifying | TagCommitting | TagRetryWait
  | TagCancelling | TagSucceeded | TagFailed | TagCancelled

fun tag_as_db_str :: "job_state_tag \<Rightarrow> string" where
  "tag_as_db_str TagQueued = ''queued''"
| "tag_as_db_str TagWaitingForDevice = ''waiting_for_device''"
| "tag_as_db_str TagWaitingForPairing = ''waiting_for_pairing''"
| "tag_as_db_str TagPausedCaptureActive = ''paused_capture_active''"
| "tag_as_db_str TagPreparing = ''preparing''"
| "tag_as_db_str TagTransferring = ''transferring''"
| "tag_as_db_str TagVerifying = ''verifying''"
| "tag_as_db_str TagCommitting = ''committing''"
| "tag_as_db_str TagRetryWait = ''retry_wait''"
| "tag_as_db_str TagCancelling = ''cancelling''"
| "tag_as_db_str TagSucceeded = ''succeeded''"
| "tag_as_db_str TagFailed = ''failed''"
| "tag_as_db_str TagCancelled = ''cancelled''"

definition tag_from_db_str :: "string \<Rightarrow> job_state_tag option" where
  "tag_from_db_str s =
     (if s = ''queued'' then Some TagQueued
      else if s = ''waiting_for_device'' then Some TagWaitingForDevice
      else if s = ''waiting_for_pairing'' then Some TagWaitingForPairing
      else if s = ''paused_capture_active'' then Some TagPausedCaptureActive
      else if s = ''preparing'' then Some TagPreparing
      else if s = ''transferring'' then Some TagTransferring
      else if s = ''verifying'' then Some TagVerifying
      else if s = ''committing'' then Some TagCommitting
      else if s = ''retry_wait'' then Some TagRetryWait
      else if s = ''cancelling'' then Some TagCancelling
      else if s = ''succeeded'' then Some TagSucceeded
      else if s = ''failed'' then Some TagFailed
      else if s = ''cancelled'' then Some TagCancelled
      else None)"

fun tag_is_terminal :: "job_state_tag \<Rightarrow> bool" where
  "tag_is_terminal TagSucceeded = True"
| "tag_is_terminal TagFailed = True"
| "tag_is_terminal TagCancelled = True"
| "tag_is_terminal _ = False"

text \<open>The database's own copy of the transition graph.\<close>

definition is_valid_transition :: "job_state_tag \<Rightarrow> job_state_tag \<Rightarrow> bool" where
  "is_valid_transition s t \<longleftrightarrow>
     \<not> tag_is_terminal s \<and>
     (s, t) \<in> set
       [(TagQueued, TagWaitingForDevice), (TagQueued, TagWaitingForPairing),
        (TagQueued, TagPreparing), (TagQueued, TagCancelling),
        (TagWaitingForDevice, TagQueued), (TagWaitingForDevice, TagPreparing),
        (TagWaitingForDevice, TagPausedCaptureActive), (TagWaitingForDevice, TagCancelling),
        (TagWaitingForPairing, TagQueued), (TagWaitingForPairing, TagPreparing),
        (TagWaitingForPairing, TagCancelling),
        (TagPausedCaptureActive, TagQueued), (TagPausedCaptureActive, TagPreparing),
        (TagPausedCaptureActive, TagCancelling),
        (TagPreparing, TagTransferring), (TagPreparing, TagWaitingForDevice),
        (TagPreparing, TagFailed), (TagPreparing, TagCancelling),
        (TagTransferring, TagVerifying), (TagTransferring, TagRetryWait),
        (TagTransferring, TagPausedCaptureActive), (TagTransferring, TagFailed),
        (TagTransferring, TagCancelling),
        (TagVerifying, TagCommitting), (TagVerifying, TagRetryWait),
        (TagVerifying, TagFailed), (TagVerifying, TagCancelling),
        (TagCommitting, TagSucceeded), (TagCommitting, TagRetryWait),
        (TagCommitting, TagFailed), (TagCommitting, TagCancelling),
        (TagRetryWait, TagQueued), (TagRetryWait, TagPreparing),
        (TagRetryWait, TagCancelling), (TagRetryWait, TagFailed),
        (TagCancelling, TagCancelled), (TagCancelling, TagFailed)]"

section \<open>Conversions between states and rows\<close>

fun failure_code_to_db :: "failure_code \<Rightarrow> string" where
  "failure_code_to_db Network = ''network''"
| "failure_code_to_db DiskFull = ''disk_full''"
| "failure_code_to_db HashMismatch = ''hash_mismatch''"
| "failure_code_to_db ObjectStoreRejected = ''object_store_rejected''"
| "failure_code_to_db DeviceHeartbeatFailed = ''device_heartbeat_failed''"
| "failure_code_to_db (Other msg) = ''other:'' @ msg"

definition failure_code_from_db :: "string \<Rightarrow> failure_code" where
  "failure_code_from_db s =
     (if s = ''network'' then Network
      else if s = ''disk_full'' then DiskFull
      else if s = ''hash_mismatch'' then HashMismatch
      else if s = ''object_store_rejected'' then ObjectStoreRejected
      else if s = ''device_heartbeat_failed'' then DeviceHeartbeatFailed
      else Other (case strip_prefix ''other:'' s of None \<Rightarrow> s | Some r \<Rightarrow> r))"

fun state_to_tag :: "transfer_job_state \<Rightarrow> job_state_tag \<times> (string \<times> bool) option" where
  "state_to_tag Queued = (TagQueued, None)"
| "state_to_tag WaitingForDevice = (TagWaitingForDevice, None)"
| "state_to_tag WaitingForPairing = (TagWaitingForPairing, None)"
| "state_to_tag PausedCaptureActive = (TagPausedCaptureActive, None)"
| "state_to_tag Preparing = (TagPreparing, None)"
| "state_to_tag Transferring = (TagTransferring, None)"
| "state_to_tag Verifying = (TagVerifying, None)"
| "state_to_tag Committing = (TagCommitting, None)"
| "state_to_tag RetryWait = (TagRetryWait, None)"
| "state_to_tag Cancelling = (TagCancelling, None)"
| "state_to_tag Succeeded = (TagSucceeded, None)"
| "state_to_tag (Failed code retryable) =
     (TagFailed, Some (failure_code_to_db code, retryable))"
| "state_to_tag Cancelled = (TagCancelled, None)"

text \<open>\<open>tag_to_state\<close> panics (here \<^term>\<open>None\<close>) on a failed row without error columns.\<close>

fun tag_to_state ::
    "job_state_tag \<Rightarrow> (string \<times> bool) option \<Rightarrow> transfer_job_state option" where
  "tag_to_state TagQueued e = Some Queued"
| "tag_to_state TagWaitingForDevice e = Some WaitingForDevice"
| "tag_to_state TagWaitingForPairing e = Some WaitingForPairing"
| "tag_to_state TagPausedCaptureActive e = Some PausedCaptureActive"
| "tag_to_state TagPreparing e = Some Preparing"
| "tag_to_state TagTransferring e = Some Transferring"
| "tag_to_state TagVerifying e = Some Verifying"
| "tag_to_state TagCommitting e = Some Committing"
| "tag_to_state TagRetryWait e = Some RetryWait"
| "tag_to_state TagCancelling e = Some Cancelling"
| "tag_to_state TagSucceeded e = Some Succeeded"
| "tag_to_state TagFailed None = None"
| "tag_to_state TagFailed (Some (code, retryable)) =
     Some (Failed (failure_code_from_db code) retryable)"
| "tag_to_state TagCancelled e = Some Cancelled"

section \<open>The graphs as state graphs\<close>

lemma legal_not_terminal: "is_legal_transition s t \<Longrightarrow> \<not> is_terminal s"
  by (simp add: is_legal_transition_def)

interpretation job_graph: state_graph is_legal_transition is_terminal
  by unfold_locales (simp add: is_legal_transition_def)

interpretation tag_graph: state_graph is_valid_transition tag_is_terminal
  by unfold_locales (simp add: is_valid_transition_def)

lemma tag_terminal_iff: "tag_is_terminal (fst (state_to_tag s)) \<longleftrightarrow> is_terminal s"
  by (cases s) auto

lemma state_to_tag_error: "snd (state_to_tag s) \<noteq> None \<longleftrightarrow> fst (state_to_tag s) = TagFailed"
  by (cases s) auto

section \<open>The encodings as text codecs\<close>

lemma failure_code_from_to_db: "failure_code_from_db (failure_code_to_db c) = c"
  by (cases c) (auto simp: failure_code_from_db_def)

interpretation tag_codec: text_codec tag_as_db_str tag_from_db_str "\<lambda>_. True"
proof
  fix x show "tag_from_db_str (tag_as_db_str x) = Some x"
    by (cases x) (auto simp: tag_from_db_str_def)
qed

interpretation failure_codec:
  text_codec failure_code_to_db "\<lambda>s. Some (failure_code_from_db s)" "\<lambda>_. True"
  by unfold_locales (simp add: failure_code_from_to_db)

lemma tag_to_state_to_tag:
  "tag_to_state (fst (state_to_tag s)) (snd (state_to_tag s)) = Some s"
  by (cases s) (auto simp: failure_code_from_to_db)

lemma legal_iff_valid_tag:
  "is_legal_transition s t \<longleftrightarrow> is_valid_transition (fst (state_to_tag s)) (fst (state_to_tag t))"
  by (cases s; cases t) (simp_all add: is_legal_transition_def is_valid_transition_def)

lemma route_chain:
  assumes "route s t = Some hops"
  shows "job_graph.chain s v (map (\<lambda>(i, hop). (v + of_nat i, hop)) (enumerate 0 hops))"
  using assms by (auto simp: route_def split: if_splits)

lemma route_last:
  "route s t = Some hops \<Longrightarrow> last (s # hops) = t"
  by (auto simp: route_def split: if_splits)

lemma route_empty: "route s t = Some [] \<longleftrightarrow> s = t"
  by (simp add: route_def)

section \<open>Properties\<close>

lemma state_name_tag: "tag_as_db_str (fst (state_to_tag s)) = state_name s"
  by (cases s) simp_all

text \<open>
  A job row is a faithful encoding of the job's state: the tag written to the database
  is the state's name, the decoder of the tag column reads it back, the decoded tag with the
  row's error columns gives the state itself (failure code and retryability included), and
  two states with the same row are equal.
\<close>
theorem row_encodes_state:
  "tag_as_db_str (fst (state_to_tag s)) = state_name s
   \<and> tag_from_db_str (state_name s) = Some (fst (state_to_tag s))
   \<and> tag_to_state (fst (state_to_tag s)) (snd (state_to_tag s)) = Some s
   \<and> (state_to_tag s = state_to_tag t) = (s = t)"
  using tag_to_state_to_tag [of s] tag_to_state_to_tag [of t] state_name_tag [of s]
    tag_codec.dec_enc [of "fst (state_to_tag s)"]
  by (metis option.inject)

text \<open>
  The reducer and the database enforce the same state machine: an edge is legal for the
  aggregate exactly when the database accepts the transition between the two tags, the two
  agree on which states are terminal, and every live state can be cancelled.
\<close>
theorem graphs_agree:
  "is_legal_transition s t = is_valid_transition (fst (state_to_tag s)) (fst (state_to_tag t))
   \<and> is_terminal s = tag_is_terminal (fst (state_to_tag s))
   \<and> (is_terminal s = (\<nexists>u. is_legal_transition s u))
   \<and> is_terminal s = (s \<noteq> Cancelling \<and> \<not> is_legal_transition s Cancelling)"
proof -
  have "\<exists>u. is_legal_transition s u" if "\<not> is_terminal s"
  proof (cases "s = Cancelling")
    case True
    then show ?thesis by (intro exI [of _ Cancelled]) (simp add: is_legal_transition_def)
  next
    case False
    with that show ?thesis
      by (intro exI [of _ Cancelling]) (cases s; simp add: is_legal_transition_def)
  qed
  moreover have "is_terminal s = (s \<noteq> Cancelling \<and> \<not> is_legal_transition s Cancelling)"
    by (cases s) (simp_all add: is_legal_transition_def)
  ultimately show ?thesis
    using legal_iff_valid_tag tag_terminal_iff legal_not_terminal by blast
qed

text \<open>
  \<open>route\<close> is the shortest legal way the aggregate may take by itself: when it
  gives a list of commits they are at most two legal steps that end in the target, it gives
  none exactly when the job is there, and it fails only if neither the target nor
  \<open>queued\<close> leads on.
\<close>
theorem route_sound:
  assumes "route s t = Some hops"
  shows "length hops \<le> 2 \<and> last (s # hops) = t \<and> (hops = [] \<longleftrightarrow> s = t)
       \<and> job_graph.chain s v (map (\<lambda>(i, hop). (v + of_nat i, hop)) (enumerate 0 hops))
       \<and> (length hops = 2 \<longrightarrow> \<not> is_legal_transition s t \<and> hops = [Queued, t])"
proof -
  have "hops = [] \<or> hops = [t] \<and> is_legal_transition s t
      \<or> hops = [Queued, t] \<and> \<not> is_legal_transition s t"
    and "hops = [] \<longleftrightarrow> s = t"
    using assms by (auto simp: route_def split: if_splits)
  then show ?thesis
    using route_chain [OF assms, of v] route_last [OF assms] by auto
qed

theorem route_sound_witness:
  "route WaitingForPairing WaitingForDevice = Some [Queued, WaitingForDevice]
   \<and> last [WaitingForPairing, Queued, WaitingForDevice] = WaitingForDevice"
  using route_sound [of WaitingForPairing WaitingForDevice "[Queued, WaitingForDevice]" 1]
  by (simp add: route_def is_legal_transition_def)

end
