(* ===== verification/Device_Types.thy ===== *)
theory Device_Types
  imports Prelude
begin

text \<open>
  The three independent state axes of a capture device (\<open>device/mod.rs\<close>): how it is
  discovered, how the client is connected to it, and what it is capturing. Identifiers
  (\<open>DeviceId\<close>, \<open>SessionId\<close>, \<open>FileId\<close>, \<open>JobId\<close>) are newtypes over strings.
\<close>

type_synonym device_id = string
type_synonym session_id = string
type_synonym file_id = string
type_synonym job_id = string

datatype discovery_state = Online | DiscoveryStale | Offline

datatype pairing_phase =
  PhasePending | PhaseAllowed | PhaseRejected | PhaseExpired | PhaseCancelled

datatype connection_state =
    Disconnected
  | Pairing (conn_attempt: string) (conn_phase: pairing_phase)
  | Connected (conn_id: string) (conn_epoch: u64)
  | Expired (conn_reason: string)

datatype capture_activity_state =
  Idle | Starting | Recording | Stopping | CaptureError | Unknown

record device =
  dev_id :: device_id
  dev_name :: string
  dev_tls_fingerprint :: string
  dev_discovery :: discovery_state
  dev_connection :: connection_state
  dev_capture_activity :: capture_activity_state

end
