(* ===== verification/Job_Control.thy ===== *)
theory Job_Control
  imports Device_Types
begin

text \<open>
  What the coordinator and a worker share about one running job: the interrupt
  channel and the single-worker claim (\<open>JobControl\<close>, \<open>ActiveLease\<close> in
  \<open>transfer/queue.rs\<close>), the cancel-against-publication race
  (\<open>DownloadCommitControl\<close> in \<open>transfer/commit.rs\<close>), and the registry of targets
  with at most one writer (\<open>TargetLeases\<close> in \<open>transfer/aggregate.rs\<close>). Each
  operation runs under the object's own mutex or is one atomic instruction, so it is
  one function on the state.
\<close>

section \<open>The interrupt channel\<close>

datatype interrupt_reason = CapturePause | UserPause | CancelInterrupt | DeviceLost | Shutdown

record job_control =
  ctl_active :: bool
  ctl_interrupt_flag :: bool
  ctl_interrupt_reason :: "interrupt_reason option"
  ctl_checkpoint_fault :: "string option"

definition new_job_control :: job_control where
  "new_job_control =
     \<lparr>ctl_active = False, ctl_interrupt_flag = False, ctl_interrupt_reason = None,
      ctl_checkpoint_fault = None\<rparr>"

text \<open>\<open>try_claim\<close> is a compare-exchange of \<open>active\<close>; dropping the lease clears it.\<close>

definition try_claim :: "job_control \<Rightarrow> job_control option" where
  "try_claim c = (if ctl_active c then None else Some (c\<lparr>ctl_active := True\<rparr>))"

definition drop_active_lease :: "job_control \<Rightarrow> job_control" where
  "drop_active_lease c = c\<lparr>ctl_active := False\<rparr>"

definition request_interrupt :: "interrupt_reason \<Rightarrow> job_control \<Rightarrow> job_control" where
  "request_interrupt r c = c\<lparr>ctl_interrupt_reason := Some r, ctl_interrupt_flag := True\<rparr>"

definition clear_interrupt :: "job_control \<Rightarrow> job_control" where
  "clear_interrupt c = c\<lparr>ctl_interrupt_flag := False, ctl_interrupt_reason := None\<rparr>"

text \<open>Only the first checkpoint fault is kept, until it is taken.\<close>

definition record_checkpoint_fault :: "string \<Rightarrow> job_control \<Rightarrow> job_control" where
  "record_checkpoint_fault detail c =
     (case ctl_checkpoint_fault c of
        None \<Rightarrow> c\<lparr>ctl_checkpoint_fault := Some detail\<rparr>
      | Some _ \<Rightarrow> c)"

definition take_checkpoint_fault :: "job_control \<Rightarrow> string option \<times> job_control" where
  "take_checkpoint_fault c = (ctl_checkpoint_fault c, c\<lparr>ctl_checkpoint_fault := None\<rparr>)"

section \<open>Cancel against canonical publication\<close>

datatype commit_control = Cancellable | CancelRequested | Irreversible

datatype cancel_outcome = CancelAccepted | CancelAlreadyRequested | CancelTooLate

fun request_cancel :: "commit_control \<Rightarrow> cancel_outcome \<times> commit_control" where
  "request_cancel Cancellable = (CancelAccepted, CancelRequested)"
| "request_cancel CancelRequested = (CancelAlreadyRequested, CancelRequested)"
| "request_cancel Irreversible = (CancelTooLate, Irreversible)"

definition is_cancel_requested :: "commit_control \<Rightarrow> bool" where
  "is_cancel_requested c \<longleftrightarrow> c = CancelRequested"

text \<open>\<open>begin_irreversible\<close>: \<^term>\<open>True\<close> is \<open>Ok(())\<close>, \<^term>\<open>False\<close> the cancelled failure.\<close>

fun begin_irreversible :: "commit_control \<Rightarrow> bool \<times> commit_control" where
  "begin_irreversible Cancellable = (True, Irreversible)"
| "begin_irreversible CancelRequested = (False, CancelRequested)"
| "begin_irreversible Irreversible = (True, Irreversible)"

text \<open>The two sides of the race, in whatever order their calls reach the mutex.\<close>

datatype commit_call = CallCancel | CallPublish

fun run_commit_calls :: "commit_control \<Rightarrow> commit_call list \<Rightarrow>
    cancel_outcome list \<times> bool list \<times> commit_control" where
  "run_commit_calls c [] = ([], [], c)"
| "run_commit_calls c (CallCancel # ks) =
     (let (o1, c1) = request_cancel c; (os, bs, c2) = run_commit_calls c1 ks
      in (o1 # os, bs, c2))"
| "run_commit_calls c (CallPublish # ks) =
     (let (b1, c1) = begin_irreversible c; (os, bs, c2) = run_commit_calls c1 ks
      in (os, b1 # bs, c2))"

lemma run_from_irreversible:
  "run_commit_calls Irreversible ks = (os, bs, c) \<Longrightarrow>
     c = Irreversible \<and> set os \<subseteq> {CancelTooLate} \<and> set bs \<subseteq> {True}"
proof (induction ks arbitrary: os bs c)
  case (Cons k ks)
  then show ?case by (cases k) (fastforce split: prod.splits)+
qed simp

lemma run_from_cancelled:
  "run_commit_calls CancelRequested ks = (os, bs, c) \<Longrightarrow>
     c = CancelRequested \<and> set os \<subseteq> {CancelAlreadyRequested} \<and> set bs \<subseteq> {False}"
proof (induction ks arbitrary: os bs c)
  case (Cons k ks)
  then show ?case by (cases k) (fastforce split: prod.splits)+
qed simp

lemma run_from_cancellable:
  "run_commit_calls Cancellable ks = (os, bs, c) \<Longrightarrow>
     (ks = [] \<and> os = [] \<and> bs = [] \<and> c = Cancellable)
   \<or> (hd ks = CallCancel \<and> CancelAccepted \<in> set os \<and> c = CancelRequested \<and> set bs \<subseteq> {False})
   \<or> (hd ks = CallPublish \<and> CancelAccepted \<notin> set os \<and> c = Irreversible \<and> True \<in> set bs)"
  by (cases ks rule: list.exhaust; cases "hd ks")
     (auto split: prod.splits dest!: run_from_irreversible run_from_cancelled)

text \<open>
  Cancelling a download and publishing it exclude each other, whatever the order in
  which their calls reach the mutex: the first call decides. A cancel was accepted
  exactly when the job ends in \<open>CancelRequested\<close>, a publication was let through exactly
  when it ends in \<open>Irreversible\<close>, and never both.
\<close>

theorem cancel_and_publication_exclusive:
  assumes "run_commit_calls Cancellable calls = (cancels, publishes, final)"
  shows "(CancelAccepted \<in> set cancels \<longleftrightarrow> final = CancelRequested)
       \<and> (True \<in> set publishes \<longleftrightarrow> final = Irreversible)
       \<and> \<not> (CancelAccepted \<in> set cancels \<and> True \<in> set publishes)"
  using run_from_cancellable [OF assms] by auto

theorem cancel_and_publication_exclusive_witness:
  "run_commit_calls Cancellable [CallPublish, CallCancel, CallPublish]
     = ([CancelTooLate], [True, True], Irreversible)
   \<and> (True \<in> set [True, True] \<longleftrightarrow> Irreversible = Irreversible)"
proof -
  have run: "run_commit_calls Cancellable [CallPublish, CallCancel, CallPublish]
     = ([CancelTooLate], [True, True], Irreversible)" by simp
  show ?thesis using run cancel_and_publication_exclusive [OF run] by simp
qed

section \<open>Target leases\<close>

subsection \<open>Interface: a registry with one holder per target\<close>

datatype ('k, 'j) registry_call = CallAcquire 'k 'j | CallRelease 'k

locale exclusive_registry =
  fixes acquire :: "'h \<Rightarrow> 'k \<Rightarrow> 'j \<Rightarrow> 'h option"
    and holds :: "'h \<Rightarrow> 'k \<Rightarrow> 'j option"
    and free :: "'h \<Rightarrow> 'k \<Rightarrow> 'h"
  assumes acquire_None: "acquire h k j = None \<longleftrightarrow> holds h k \<noteq> None"
    and acquire_Some: "acquire h k j = Some h' \<Longrightarrow> holds h' = (holds h)(k := Some j)"
    and free_holds: "holds (free h k) = (holds h)(k := None)"
begin

text \<open>A call that is refused leaves the registry as it was.\<close>

fun call :: "'h \<Rightarrow> ('k, 'j) registry_call \<Rightarrow> 'h" where
  "call h (CallAcquire k j) = (case acquire h k j of None \<Rightarrow> h | Some h' \<Rightarrow> h')"
| "call h (CallRelease k) = free h k"

lemma holder_stays:
  "holds h k = Some j \<Longrightarrow> CallRelease k \<notin> set calls \<Longrightarrow> holds (foldl call h calls) k = Some j"
proof (induction calls arbitrary: h)
  case (Cons c calls)
  have "holds (call h c) k = Some j"
  proof (cases c)
    case (CallAcquire k' j')
    show ?thesis
    proof (cases "acquire h k' j'")
      case (Some h')
      then have "holds h k' = None" using acquire_None [of h k' j'] by auto
      then show ?thesis using CallAcquire Cons.prems Some acquire_Some [OF Some] by auto
    qed (use CallAcquire Cons.prems in simp)
  next
    case (CallRelease k')
    with Cons.prems show ?thesis by (auto simp: free_holds)
  qed
  with Cons show ?case by simp
qed simp

lemma refused_while_held:
  assumes "acquire h k j = Some h'" and "CallRelease k \<notin> set calls"
  shows "acquire (foldl call h' calls) k j' = None"
  using assms holder_stays [of h' k j calls]
  by (auto simp: acquire_None acquire_Some)

lemma reacquire_after_release:
  "\<exists>h'. acquire (free h k) k j = Some h' \<and> holds h' k = Some j"
proof -
  have "acquire (free h k) k j \<noteq> None" by (simp add: acquire_None free_holds)
  then show ?thesis using acquire_Some by fastforce
qed

end

subsection \<open>The coordinator's target registry\<close>

record target_key =
  tk_device :: device_id
  tk_session :: session_id

type_synonym target_leases = "target_key \<rightharpoonup> job_id"

definition try_acquire :: "target_leases \<Rightarrow> target_key \<Rightarrow> job_id \<Rightarrow> target_leases option" where
  "try_acquire held target job =
     (case held target of Some _ \<Rightarrow> None | None \<Rightarrow> Some (held(target \<mapsto> job)))"

definition holder :: "target_leases \<Rightarrow> target_key \<Rightarrow> job_id option" where
  "holder held target = held target"

definition release :: "target_leases \<Rightarrow> target_key \<Rightarrow> target_leases" where
  "release held target = held(target := None)"

interpretation leases: exclusive_registry try_acquire holder release
  by unfold_locales
     (auto simp: try_acquire_def holder_def release_def split: option.splits)

text \<open>
  At most one writer per target: from the moment a job has taken the lease of a
  (device, session) target and until that target is released, every acquisition of it
  is refused, whoever asks (the holder included) and whatever happens to the other
  targets in between.
\<close>

theorem target_lease_exclusive:
  assumes "try_acquire held target job = Some held'"
    and "CallRelease target \<notin> set calls"
  shows "try_acquire (foldl leases.call held' calls) target other = None
       \<and> holder (foldl leases.call held' calls) target = Some job"
  using leases.refused_while_held [OF assms] leases.holder_stays [OF _ assms(2), of held' job]
    leases.acquire_Some [OF assms(1)]
  by simp

theorem target_lease_exclusive_witness:
  "let t = \<lparr>tk_device = ''d1'', tk_session = ''s1''\<rparr>;
       u = \<lparr>tk_device = ''d1'', tk_session = ''s2''\<rparr>;
       calls = [CallAcquire u ''job-2'', CallAcquire t ''job-3'', CallRelease u]
   in try_acquire (foldl leases.call [t \<mapsto> ''job-1''] calls) t ''job-2'' = None"
proof -
  let ?t = "\<lparr>tk_device = ''d1'', tk_session = ''s1''\<rparr>"
  let ?u = "\<lparr>tk_device = ''d1'', tk_session = ''s2''\<rparr>"
  have "try_acquire Map.empty ?t ''job-1'' = Some [?t \<mapsto> ''job-1'']"
    by (simp add: try_acquire_def)
  from target_lease_exclusive [OF this,
      of "[CallAcquire ?u ''job-2'', CallAcquire ?t ''job-3'', CallRelease ?u]"]
  show ?thesis by (simp add: Let_def)
qed

end
