(* ===== verification/Transfer_Job.thy ===== *)
theory Transfer_Job
  imports Transfer_State Job_Control
begin

text \<open>
  The pure reducer of one transfer job (\<open>JobAggregate::decide\<close> in
  \<open>transfer/aggregate.rs\<close>): a state, its version, the user's desired run state and the
  last device observation acted on, and one command; the result is an outcome and the
  ordered effects someone else performs. Every branch of every handler is here, refusals
  included.
\<close>

section \<open>Device readiness\<close>

datatype device_readiness = Ready | WaitDevice | WaitPairing | CapturePaused

record device_snapshot =
  snap_version :: u64
  snap_connection :: connection_state
  snap_capture :: capture_activity_state

definition readiness :: "device_snapshot \<Rightarrow> device_readiness" where
  "readiness d =
     (case snap_connection d of
        Connected _ _ \<Rightarrow>
          (case snap_capture d of
             Recording \<Rightarrow> CapturePaused
           | Starting \<Rightarrow> CapturePaused
           | Stopping \<Rightarrow> CapturePaused
           | Idle \<Rightarrow> Ready
           | CaptureError \<Rightarrow> Ready
           | Unknown \<Rightarrow> Ready)
      | Pairing _ _ \<Rightarrow> WaitPairing
      | Disconnected \<Rightarrow> WaitDevice
      | Expired _ \<Rightarrow> WaitDevice)"

definition is_ready :: "device_snapshot \<Rightarrow> bool" where
  "is_ready d \<longleftrightarrow> readiness d = Ready"

section \<open>Commands, effects, decisions\<close>

text \<open>\<open>DownloadCommitOutcome\<close> is a unit struct: \<open>CommitComplete\<close> carries nothing.\<close>

datatype worker_report =
    Prepared
  | PreparationFailed failure_code bool
  | TransferComplete
  | TransferFailed failure_code bool
  | WorkerPanicked string
  | Interrupted interrupt_reason
  | Verified
  | CommitComplete
  | CommitFailed failure_code bool

fun expected_state :: "worker_report \<Rightarrow> transfer_job_state option" where
  "expected_state Prepared = Some Preparing"
| "expected_state (PreparationFailed _ _) = Some Preparing"
| "expected_state TransferComplete = Some Transferring"
| "expected_state (TransferFailed _ _) = Some Transferring"
| "expected_state (Interrupted _) = Some Transferring"
| "expected_state (WorkerPanicked _) = None"
| "expected_state Verified = Some Verifying"
| "expected_state CommitComplete = Some Committing"
| "expected_state (CommitFailed _ _) = Some Committing"

datatype desired_run_state = Run | Paused

datatype job_command =
    Transition transfer_job_state
  | Pause
  | Resume
  | Cancel
  | FinalizeCancel
  | Retry
  | Dismiss
  | DeviceObserved device_snapshot
  | Worker worker_report

datatype effect =
    Commit u64 transfer_job_state
  | SetDesiredRunState desired_run_state
  | RequestInterrupt interrupt_reason
  | ClearInterrupt
  | AwaitWorkerRelease
  | Dispatch
  | RecordDeviceVersion u64
  | SpawnRetryJob
  | RemoveJob

datatype reject_reason =
    AlreadyTerminal
  | NotTerminal
  | NotFailed
  | IllegalTransition transfer_job_state transfer_job_state

datatype command_outcome = Accepted | NoOp | Rejected reject_reason

definition is_rejected :: "command_outcome \<Rightarrow> bool" where
  "is_rejected r \<longleftrightarrow> (case r of Rejected _ \<Rightarrow> True | _ \<Rightarrow> False)"

record decision =
  outcome :: command_outcome
  effects :: "effect list"

definition accepted :: "effect list \<Rightarrow> decision" where
  "accepted es = \<lparr>outcome = Accepted, effects = es\<rparr>"

definition no_op :: decision where
  "no_op = \<lparr>outcome = NoOp, effects = []\<rparr>"

definition rejected :: "reject_reason \<Rightarrow> decision" where
  "rejected r = \<lparr>outcome = Rejected r, effects = []\<rparr>"

text \<open>
  The durable commits among the effects, and \<open>final_state\<close>: the target of the last one
  (the source searches the reversed list), or the current state.
\<close>

fun commits_of :: "effect list \<Rightarrow> (u64 \<times> transfer_job_state) list" where
  "commits_of [] = []"
| "commits_of (Commit v t # es) = (v, t) # commits_of es"
| "commits_of (_ # es) = commits_of es"

definition final_state :: "decision \<Rightarrow> transfer_job_state \<Rightarrow> transfer_job_state" where
  "final_state d current =
     (case find (\<lambda>e. case e of Commit _ _ \<Rightarrow> True | _ \<Rightarrow> False) (rev (effects d)) of
        Some (Commit _ to) \<Rightarrow> to
      | _ \<Rightarrow> current)"

section \<open>The reducer\<close>

record job_aggregate =
  ja_state :: transfer_job_state
  ja_version :: u64
  ja_desired_run_state :: desired_run_state
  ja_observed_device_version :: u64

definition new_job_aggregate :: "transfer_job_state \<Rightarrow> job_aggregate" where
  "new_job_aggregate s =
     \<lparr>ja_state = s, ja_version = 1, ja_desired_run_state = Run,
      ja_observed_device_version = 0\<rparr>"

definition commit :: "job_aggregate \<Rightarrow> transfer_job_state \<Rightarrow> effect" where
  "commit a to = Commit (ja_version a) to"

definition commits_towards :: "job_aggregate \<Rightarrow> transfer_job_state \<Rightarrow> effect list option" where
  "commits_towards a to =
     (case route (ja_state a) to of
        None \<Rightarrow> None
      | Some hops \<Rightarrow>
          Some (map (\<lambda>(i, hop). Commit (ja_version a + of_nat i) hop) (enumerate 0 hops)))"

definition parked :: "transfer_job_state \<Rightarrow> bool" where
  "parked s \<longleftrightarrow>
     s = Queued \<or> s = WaitingForDevice \<or> s = WaitingForPairing \<or> s = PausedCaptureActive
     \<or> s = RetryWait"

text \<open>
  What one reading means for a job that may act on it: \<open>Inl\<close> interrupts the active
  transfer (an early return of the source), \<open>Inr\<close> names the state to commit, if any.
\<close>

definition observation_target ::
    "transfer_job_state \<Rightarrow> device_readiness \<Rightarrow> interrupt_reason + transfer_job_state option" where
  "observation_target s r =
     (if parked s then
        (case r of
           Ready \<Rightarrow> Inr (Some Preparing)
         | WaitDevice \<Rightarrow> Inr (Some WaitingForDevice)
         | WaitPairing \<Rightarrow> Inr (Some WaitingForPairing)
         | CapturePaused \<Rightarrow> Inr (Some PausedCaptureActive))
      else if s = Preparing then
        (if r = Ready then Inr None else Inr (Some WaitingForDevice))
      else if s = Transferring then
        (case r of
           Ready \<Rightarrow> Inr None
         | CapturePaused \<Rightarrow> Inl CapturePause
         | WaitDevice \<Rightarrow> Inl DeviceLost
         | WaitPairing \<Rightarrow> Inl DeviceLost)
      else Inr None)"

definition target_commits :: "job_aggregate \<Rightarrow> transfer_job_state option \<Rightarrow> effect list" where
  "target_commits a target =
     (case Option.bind target (commits_towards a) of None \<Rightarrow> [] | Some cs \<Rightarrow> cs)"

definition decide_device_observed :: "job_aggregate \<Rightarrow> device_snapshot \<Rightarrow> decision" where
  "decide_device_observed a d =
     (if snap_version d < ja_observed_device_version a then no_op
      else if is_terminal (ja_state a) \<or> ja_state a = Cancelling then no_op
      else if ja_desired_run_state a = Paused then no_op
      else case observation_target (ja_state a) (readiness d) of
        Inl reason \<Rightarrow>
          accepted [RecordDeviceVersion (snap_version d), RequestInterrupt reason]
      | Inr target \<Rightarrow>
          let commits = target_commits a target
          in if commits = [] then
               (if snap_version d > ja_observed_device_version a
                then accepted [RecordDeviceVersion (snap_version d)] else no_op)
             else accepted (RecordDeviceVersion (snap_version d) # commits))"

definition decide_worker_panic :: "job_aggregate \<Rightarrow> string \<Rightarrow> decision" where
  "decide_worker_panic a detail =
     (let failed = Failed (Other detail) False;
          through_cancelling =
            (if is_legal_transition (ja_state a) Cancelling \<and> is_legal_transition Cancelling failed
             then accepted [commit a Cancelling, Commit (ja_version a + 1) failed]
             else rejected (IllegalTransition (ja_state a) failed))
      in case commits_towards a failed of
           Some commits \<Rightarrow> if commits \<noteq> [] then accepted commits else through_cancelling
         | None \<Rightarrow> through_cancelling)"

definition decide_finalize_cancel :: "job_aggregate \<Rightarrow> decision" where
  "decide_finalize_cancel a =
     (if ja_state a = Cancelled then no_op
      else if is_terminal (ja_state a) then rejected AlreadyTerminal
      else if ja_state a = Cancelling then accepted [commit a Cancelled, ClearInterrupt]
      else if \<not> is_legal_transition (ja_state a) Cancelling
      then rejected (IllegalTransition (ja_state a) Cancelling)
      else accepted [commit a Cancelling, Commit (ja_version a + 1) Cancelled, ClearInterrupt])"

definition decide_interrupted :: "job_aggregate \<Rightarrow> interrupt_reason \<Rightarrow> decision" where
  "decide_interrupted a reason =
     (if ja_state a = Cancelling \<and> reason \<noteq> CancelInterrupt then no_op
      else
        let valid_state =
              (if reason = CancelInterrupt
               then ja_state a = Transferring \<or> ja_state a = Committing \<or> ja_state a = Cancelling
               else ja_state a = Transferring)
        in if \<not> valid_state then rejected (IllegalTransition (ja_state a) (ja_state a))
           else case reason of
             CancelInterrupt \<Rightarrow> decide_finalize_cancel a
           | Shutdown \<Rightarrow> no_op
           | DeviceLost \<Rightarrow> accepted [ClearInterrupt, commit a (Failed Network True)]
           | _ \<Rightarrow>
               let target = (if reason = CapturePause then PausedCaptureActive else RetryWait)
               in case commits_towards a target of
                    None \<Rightarrow> no_op
                  | Some commits \<Rightarrow>
                      if commits = [] then no_op else accepted (ClearInterrupt # commits))"

text \<open>
  The two arms of the source that its \<open>unreachable!\<close> marks (\<open>WorkerPanicked\<close> and
  \<open>Interrupted\<close> after their early returns) are \<^term>\<open>None\<close> here.
\<close>

fun report_target :: "worker_report \<Rightarrow> transfer_job_state option" where
  "report_target Prepared = Some Transferring"
| "report_target TransferComplete = Some Verifying"
| "report_target Verified = Some Committing"
| "report_target CommitComplete = Some Succeeded"
| "report_target (PreparationFailed code retryable) = Some (Failed code retryable)"
| "report_target (TransferFailed code retryable) = Some (Failed code retryable)"
| "report_target (CommitFailed code retryable) = Some (Failed code retryable)"
| "report_target (WorkerPanicked _) = None"
| "report_target (Interrupted _) = None"

definition decide_worker :: "job_aggregate \<Rightarrow> worker_report \<Rightarrow> decision" where
  "decide_worker a report =
     (if is_terminal (ja_state a) then rejected AlreadyTerminal
      else case report of
        WorkerPanicked detail \<Rightarrow> decide_worker_panic a detail
      | Interrupted reason \<Rightarrow> decide_interrupted a reason
      | _ \<Rightarrow>
          if ja_state a = Cancelling then no_op
          else case expected_state report of
            None \<Rightarrow> no_op
          | Some expected \<Rightarrow>
              if ja_state a \<noteq> expected
              then rejected (IllegalTransition (ja_state a) expected)
              else case report_target report of
                None \<Rightarrow> no_op
              | Some to \<Rightarrow> accepted [Commit (ja_version a) to])"

definition decide_transition :: "job_aggregate \<Rightarrow> transfer_job_state \<Rightarrow> decision" where
  "decide_transition a to =
     (if ja_state a = to then no_op
      else if is_terminal (ja_state a) then rejected AlreadyTerminal
      else if \<not> is_legal_transition (ja_state a) to
      then rejected (IllegalTransition (ja_state a) to)
      else accepted [commit a to])"

definition decide_pause :: "job_aggregate \<Rightarrow> decision" where
  "decide_pause a =
     (if is_terminal (ja_state a) then rejected AlreadyTerminal
      else accepted [SetDesiredRunState Paused, RequestInterrupt UserPause,
                     AwaitWorkerRelease, ClearInterrupt])"

definition decide_resume :: "job_aggregate \<Rightarrow> decision" where
  "decide_resume a =
     (if is_terminal (ja_state a) then rejected AlreadyTerminal
      else if ja_state a = Cancelling then rejected (IllegalTransition Cancelling Queued)
      else accepted ([SetDesiredRunState Run]
             @ (if ja_state a = RetryWait then [commit a Queued] else [])
             @ [Dispatch]))"

definition decide_cancel :: "job_aggregate \<Rightarrow> decision" where
  "decide_cancel a =
     (if is_terminal (ja_state a) then rejected AlreadyTerminal
      else if ja_state a = Cancelling
      then accepted [RequestInterrupt CancelInterrupt, Dispatch, AwaitWorkerRelease]
      else if \<not> is_legal_transition (ja_state a) Cancelling
      then rejected (IllegalTransition (ja_state a) Cancelling)
      else accepted [RequestInterrupt CancelInterrupt, commit a Cancelling, Dispatch,
                     AwaitWorkerRelease])"

definition decide_retry :: "job_aggregate \<Rightarrow> decision" where
  "decide_retry a =
     (case ja_state a of
        Failed _ _ \<Rightarrow> accepted [SpawnRetryJob]
      | _ \<Rightarrow> rejected NotFailed)"

definition decide_dismiss :: "job_aggregate \<Rightarrow> decision" where
  "decide_dismiss a =
     (if \<not> is_terminal (ja_state a) then rejected NotTerminal
      else accepted [AwaitWorkerRelease, RemoveJob])"

fun decide :: "job_aggregate \<Rightarrow> job_command \<Rightarrow> decision" where
  "decide a (Transition to) = decide_transition a to"
| "decide a Pause = decide_pause a"
| "decide a Resume = decide_resume a"
| "decide a Cancel = decide_cancel a"
| "decide a FinalizeCancel = decide_finalize_cancel a"
| "decide a Retry = decide_retry a"
| "decide a Dismiss = decide_dismiss a"
| "decide a (DeviceObserved d) = decide_device_observed a d"
| "decide a (Worker report) = decide_worker a report"

lemmas decision_defs [reducer_defs] = accepted_def no_op_def rejected_def
lemmas handler_defs [reducer_defs] =
  decide_transition_def decide_pause_def decide_resume_def decide_cancel_def
  decide_finalize_cancel_def decide_retry_def decide_dismiss_def
  decide_device_observed_def decide_worker_def decide_worker_panic_def
  decide_interrupted_def commit_def

section \<open>Every decision is one legal chain of commits\<close>

lemma commits_of_append [simp]: "commits_of (es @ fs) = commits_of es @ commits_of fs"
  by (induction es rule: commits_of.induct) auto

lemma commits_of_commits [simp]:
  "commits_of (map (\<lambda>(i, hop). Commit (f i) hop) xs) = map (\<lambda>(i, hop). (f i, hop)) xs"
  by (induction xs) auto

lemma find_rev_commit:
  "(case find (\<lambda>e. case e of Commit _ _ \<Rightarrow> True | _ \<Rightarrow> False) (rev es) of
      Some (Commit _ to) \<Rightarrow> to | _ \<Rightarrow> s) = last (s # map snd (commits_of es))"
proof (induction es rule: rev_induct)
  case (snoc e es)
  then show ?case by (cases e) auto
qed simp

text \<open>\<open>final_state\<close> in terms of the chain: the last committed state, if any.\<close>

lemma final_state_last: "final_state d s = last (s # map snd (commits_of (effects d)))"
  by (simp only: final_state_def find_rev_commit)

lemma final_state_simps [simp]:
  "final_state (accepted es) s = last (s # map snd (commits_of es))"
  "final_state no_op s = s"
  "final_state (rejected r) s = s"
  by (simp_all add: final_state_last accepted_def no_op_def rejected_def)

lemma effects_simps [simp]:
  "effects (accepted es) = es" "effects no_op = []" "effects (rejected r) = []"
  "outcome (accepted es) = Accepted" "outcome no_op = NoOp" "outcome (rejected r) = Rejected r"
  by (simp_all add: accepted_def no_op_def rejected_def)

lemma commits_towards_commits_of:
  "commits_towards a t = Some es \<longleftrightarrow>
     (\<exists>hops. route (ja_state a) t = Some hops
       \<and> es = map (\<lambda>(i, hop). Commit (ja_version a + of_nat i) hop) (enumerate 0 hops))"
  by (auto simp: commits_towards_def split: option.splits)

lemma commits_towards_chain:
  assumes "commits_towards a t = Some es"
  shows "job_graph.chain (ja_state a) (ja_version a) (commits_of es)"
    and "last (ja_state a # map snd (commits_of es)) = t"
proof -
  obtain hops where hops: "route (ja_state a) t = Some hops"
    and es: "es = map (\<lambda>(i, hop). Commit (ja_version a + of_nat i) hop) (enumerate 0 hops)"
    using assms by (auto simp: commits_towards_commits_of)
  have "map snd (commits_of es) = hops"
    unfolding es commits_of_commits map_map by (simp add: comp_def case_prod_beta)
  then show "last (ja_state a # map snd (commits_of es)) = t"
    using route_last [OF hops] by simp
  show "job_graph.chain (ja_state a) (ja_version a) (commits_of es)"
    unfolding es commits_of_commits by (rule route_chain [OF hops])
qed

lemma commits_towards_only_commits:
  "commits_towards a t = Some es \<Longrightarrow> commits_of es = [] \<longleftrightarrow> es = []"
  by (auto simp: commits_towards_commits_of)

text \<open>The three shapes a device observation takes.\<close>

lemma device_observed_cases:
  obtains (quiet) "commits_of (effects (decide_device_observed a d)) = []"
  | (moved) t es where "commits_towards a t = Some es"
      and "observation_target (ja_state a) (readiness d) = Inr (Some t)"
      and "effects (decide_device_observed a d) = RecordDeviceVersion (snap_version d) # es"
proof (cases "commits_of (effects (decide_device_observed a d)) = []")
  case False
  then obtain target where "target_commits a target \<noteq> []"
    and "observation_target (ja_state a) (readiness d) = Inr target"
    and "effects (decide_device_observed a d)
         = RecordDeviceVersion (snap_version d) # target_commits a target"
    by (cases "observation_target (ja_state a) (readiness d)")
       (simp_all add: decide_device_observed_def Let_def split: if_split_asm)
  then show thesis
    by (auto simp: target_commits_def split: option.splits bind_splits intro: moved)
qed (rule quiet)

lemma through_cancelling_legal [simp]:
  "is_legal_transition Cancelling (Failed code b)" "is_legal_transition Cancelling Cancelled"
  by (simp_all add: is_legal_transition_def)

lemma finalize_cancel_chain:
  "job_graph.chain (ja_state a) (ja_version a) (commits_of (effects (decide_finalize_cancel a)))"
  by (simp add: decide_finalize_cancel_def commit_def)

lemma worker_panic_chain:
  "job_graph.chain (ja_state a) (ja_version a) (commits_of (effects (decide_worker_panic a detail)))"
  by (auto simp: decide_worker_panic_def Let_def commit_def
      split: option.splits dest: commits_towards_chain)

lemma interrupted_chain:
  "job_graph.chain (ja_state a) (ja_version a) (commits_of (effects (decide_interrupted a reason)))"
  using finalize_cancel_chain [of a]
  by (cases reason)
     (auto simp: decide_interrupted_def Let_def commit_def is_legal_transition_def
       split: option.splits dest: commits_towards_chain)

lemma report_target_legal:
  "expected_state r = Some s \<Longrightarrow> report_target r = Some t \<Longrightarrow> is_legal_transition s t"
  by (cases r) (auto simp: is_legal_transition_def)

lemma worker_chain:
  "job_graph.chain (ja_state a) (ja_version a) (commits_of (effects (decide_worker a r)))"
  using worker_panic_chain interrupted_chain
  by (cases r) (simp_all add: decide_worker_def is_legal_transition_def)

lemma decide_chain:
  "job_graph.chain (ja_state a) (ja_version a) (commits_of (effects (decide a c)))"
proof (cases c)
  case (DeviceObserved d)
  then show ?thesis
    by (cases rule: device_observed_cases [of a d]) (auto dest: commits_towards_chain)
next
  case Resume
  then show ?thesis by (simp add: decide_resume_def commit_def is_legal_transition_def)
next
  case Retry
  then show ?thesis by (simp add: decide_retry_def split: transfer_job_state.splits)
qed (simp_all add: worker_chain finalize_cancel_chain decide_transition_def decide_pause_def
       decide_cancel_def decide_dismiss_def commit_def)

section \<open>What each handler may produce\<close>

lemma finalize_cancel_refusal:
  "outcome (decide_finalize_cancel a) = Accepted \<or> effects (decide_finalize_cancel a) = []"
  by (simp add: decide_finalize_cancel_def)

lemma worker_refusal:
  "outcome (decide_worker a r) = Accepted \<or> effects (decide_worker a r) = []"
proof (cases r)
  case (Interrupted reason)
  then show ?thesis
    using finalize_cancel_refusal [of a]
    by (cases reason) (auto simp: decide_worker_def decide_interrupted_def Let_def
        split: option.splits)
next
  case (WorkerPanicked detail)
  then show ?thesis
    by (simp add: decide_worker_def decide_worker_panic_def Let_def split: option.splits)
qed (simp_all add: decide_worker_def)

lemma decide_refusal_effects:
  "outcome (decide a c) = Accepted \<or> effects (decide a c) = []"
proof (cases c)
  case (DeviceObserved d)
  then show ?thesis
    by (cases "observation_target (ja_state a) (readiness d)")
       (simp_all add: decide_device_observed_def Let_def)
next
  case Retry
  then show ?thesis by (cases "ja_state a") (simp_all add: decide_retry_def)
qed (simp_all add: worker_refusal finalize_cancel_refusal decide_transition_def decide_pause_def
      decide_resume_def decide_cancel_def decide_dismiss_def)

lemma terminal_effects:
  assumes "is_terminal (ja_state a)"
  shows "effects (decide a c) \<in> {[], [SpawnRetryJob], [AwaitWorkerRelease, RemoveJob]}"
proof (cases c)
  case Retry
  then show ?thesis by (simp add: decide_retry_def split: transfer_job_state.splits)
next
  case (DeviceObserved d)
  with assms show ?thesis by (simp add: decide_device_observed_def)
qed (use assms in \<open>simp_all add: decide_transition_def decide_pause_def decide_resume_def
      decide_cancel_def decide_finalize_cancel_def decide_dismiss_def decide_worker_def\<close>)

text \<open>Commands that may end a cancellation.\<close>

fun ends_cancelling :: "job_command \<Rightarrow> bool" where
  "ends_cancelling FinalizeCancel = True"
| "ends_cancelling (Transition to) = (case to of Cancelled \<Rightarrow> True | Failed _ _ \<Rightarrow> True | _ \<Rightarrow> False)"
| "ends_cancelling (Worker (Interrupted CancelInterrupt)) = True"
| "ends_cancelling (Worker (WorkerPanicked _)) = True"
| "ends_cancelling _ = False"

lemma cancelling_edges:
  "is_legal_transition Cancelling t \<longleftrightarrow> t = Cancelled \<or> (\<exists>code b. t = Failed code b)"
  by (cases t) (simp_all add: is_legal_transition_def)

lemma cancelling_kept:
  assumes "ja_state a = Cancelling" and "\<not> ends_cancelling c"
  shows "commits_of (effects (decide a c)) = []"
proof (cases c)
  case (Worker r)
  with assms show ?thesis
  proof (cases r)
    case (Interrupted reason)
    with assms Worker show ?thesis
      by (cases reason) (simp_all add: decide_worker_def decide_interrupted_def)
  qed (simp_all add: decide_worker_def)
next
  case (Transition to)
  with assms show ?thesis
    by (cases to) (simp_all add: decide_transition_def cancelling_edges)
qed (use assms in \<open>simp_all add: decide_pause_def decide_resume_def
      decide_cancel_def decide_finalize_cancel_def decide_dismiss_def decide_retry_def
      decide_device_observed_def commit_def\<close>)

lemma panic_final:
  assumes "\<not> is_terminal (ja_state a)"
  shows "outcome (decide_worker_panic a detail) = Accepted
       \<and> final_state (decide_worker_panic a detail) (ja_state a) = Failed (Other detail) False"
  using assms
  by (cases "ja_state a")
     (simp_all add: decide_worker_panic_def Let_def commits_towards_def route_def
        is_legal_transition_def commit_def)

section \<open>Properties\<close>

text \<open>
  C2. Every decision of the job reducer is one legal chain of durable commits: the first
  names the version the aggregate was loaded at, each next one the version its predecessor
  leaves, every step is an edge of the transition graph, and no state but the last is
  terminal. The job reaches \<open>final_state\<close> along those edges.
\<close>
theorem decide_legal_chain:
  "let cs = commits_of (effects (decide a c)) in
     job_graph.chain (ja_state a) (ja_version a) cs
     \<and> map fst cs = map (\<lambda>i. ja_version a + of_nat i) [0..<length cs]
     \<and> {x \<in> set (butlast cs). is_terminal (snd x)} = {}
     \<and> is_legal_transition\<^sup>*\<^sup>* (ja_state a) (final_state (decide a c) (ja_state a))"
proof -
  let ?cs = "commits_of (effects (decide a c))"
  have "map fst ?cs = map (\<lambda>i. ja_version a + of_nat i) [0..<length ?cs]"
    by (rule nth_equalityI) (simp_all add: job_graph.chain_nth [OF decide_chain])
  moreover have "{x \<in> set (butlast ?cs). is_terminal (snd x)} = {}"
    using job_graph.chain_only_last_terminal [OF decide_chain] by blast
  ultimately show ?thesis
    using job_graph.chain_path [OF decide_chain] by (simp add: decide_chain final_state_last)
qed

text \<open>
  A terminal job is never left: no command commits anything from it, a retry only spawns
  a new job and a dismissal only waits for the worker and removes it; and a decision that is
  refused or a no-op has no effects at all.
\<close>
theorem terminal_job_inert:
  assumes "is_terminal (ja_state a) \<or> outcome (decide a c) \<noteq> Accepted"
  shows "final_state (decide a c) (ja_state a) = ja_state a
       \<and> effects (decide a c) \<in> {[], [SpawnRetryJob], [AwaitWorkerRelease, RemoveJob]}"
  using assms terminal_effects [of a c] decide_refusal_effects [of a c]
  by (auto simp: final_state_last)

theorem terminal_job_inert_witness:
  "let a = (new_job_aggregate (Failed DiskFull False))
   in final_state (decide a Retry) (ja_state a) = Failed DiskFull False
      \<and> effects (decide a Retry) = [SpawnRetryJob]"
  using terminal_job_inert [of "new_job_aggregate (Failed DiskFull False)" Retry]
  by (simp add: new_job_aggregate_def decide_retry_def Let_def)

text \<open>
  Cancellation wins: once a job is in \<open>cancelling\<close>, no command but the
  finalisation, a cancel interrupt, a worker panic or an explicit transition into
  \<open>cancelled\<close> or \<open>failed\<close> commits anything; whatever is committed is
  \<open>cancelled\<close> or \<open>failed\<close>; and the finalisation does reach \<open>cancelled\<close>.
\<close>
theorem cancelling_only_ends:
  assumes "ja_state a = Cancelling"
  shows "(ends_cancelling c \<or> commits_of (effects (decide a c)) = [])
       \<and> final_state (decide a c) Cancelling
           \<in> {Cancelling, Cancelled} \<union> {Failed code b |code b. True}
       \<and> final_state (decide a FinalizeCancel) Cancelling = Cancelled"
proof -
  have "final_state (decide a c) Cancelling
          \<in> {Cancelling, Cancelled} \<union> {Failed code b |code b. True}"
  proof (cases "commits_of (effects (decide a c))")
    case (Cons x cs)
    have "job_graph.chain Cancelling (ja_version a) (x # cs)"
      using decide_chain [of a c] Cons assms by simp
    moreover from this have "cs = []"
      by (cases x) (auto simp: cancelling_edges dest: job_graph.chain_terminal)
    ultimately show ?thesis
      using Cons by (cases x) (auto simp: final_state_last cancelling_edges)
  qed (simp add: final_state_last)
  then show ?thesis
    using cancelling_kept [OF assms] assms by (auto simp: decide_finalize_cancel_def commit_def)
qed

theorem cancelling_only_ends_witness:
  "final_state (decide (new_job_aggregate Cancelling) Resume) Cancelling
     \<in> {Cancelling, Cancelled} \<union> {Failed code b |code b. True}"
  using cancelling_only_ends [of "new_job_aggregate Cancelling" Resume]
  by (simp add: new_job_aggregate_def)

text \<open>
  A worker panic is never refused: from every live state the reducer accepts it and the
  job ends in the non-retryable failure that carries the panic's text.
\<close>
theorem worker_panic_converges:
  assumes "\<not> is_terminal (ja_state a)"
  shows "outcome (decide a (Worker (WorkerPanicked detail))) = Accepted
       \<and> final_state (decide a (Worker (WorkerPanicked detail))) (ja_state a)
           = Failed (Other detail) False"
  using panic_final [OF assms, of detail] assms by (simp add: decide_worker_def)

theorem worker_panic_converges_witness:
  "final_state (decide (new_job_aggregate Queued) (Worker (WorkerPanicked ''boom''))) Queued
     = Failed (Other ''boom'') False"
  using worker_panic_converges [of "new_job_aggregate Queued" "''boom''"]
  by (simp add: new_job_aggregate_def)

text \<open>
  A fresh device reading parks or releases a waiting job that the user has not paused:
  it is prepared exactly when the device is connected and not capturing, it waits for the
  device or for pairing as the connection says, and a capture in progress parks it only
  where the graph has that edge.
\<close>
theorem device_reading_parks_job:
  assumes "parked (ja_state a)" and "ja_desired_run_state a = Run"
    and "ja_observed_device_version a \<le> snap_version d"
  shows "final_state (decide a (DeviceObserved d)) (ja_state a) =
    (case readiness d of
       Ready \<Rightarrow> Preparing
     | WaitDevice \<Rightarrow> WaitingForDevice
     | WaitPairing \<Rightarrow> WaitingForPairing
     | CapturePaused \<Rightarrow>
         if ja_state a = WaitingForDevice then PausedCaptureActive else ja_state a)"
proof -
  have "\<not> snap_version d < ja_observed_device_version a"
    using assms by simp
  then show ?thesis
    using assms
    by (cases "readiness d")
       (auto simp: parked_def decide_device_observed_def observation_target_def target_commits_def
          commits_towards_def route_def is_legal_transition_def Let_def)
qed

theorem device_reading_parks_job_witness:
  "let d = \<lparr>snap_version = 4, snap_connection = Connected ''c'' 1,
            snap_capture = Idle\<rparr>;
       a = (new_job_aggregate WaitingForPairing)\<lparr>ja_observed_device_version := 3\<rparr>
   in final_state (decide a (DeviceObserved d)) WaitingForPairing = Preparing"
  using device_reading_parks_job
    [of "(new_job_aggregate WaitingForPairing)\<lparr>ja_observed_device_version := 3\<rparr>"
        "\<lparr>snap_version = 4, snap_connection = Connected ''c'' 1,
            snap_capture = Idle\<rparr>"]
  by (simp add: new_job_aggregate_def parked_def readiness_def Let_def)

text \<open>
  Only the end of the commit stage makes a job succeed: a decision that takes a live job
  to \<open>succeeded\<close> was taken in \<open>committing\<close>, on the worker's report that the
  publication is complete or on an explicit transition, and commits exactly that state.
\<close>
theorem success_only_from_committing:
  assumes "ja_state a \<noteq> Succeeded"
    and "final_state (decide a c) (ja_state a) = Succeeded"
  shows "ja_state a = Committing
       \<and> c \<in> {Worker CommitComplete, Transition Succeeded}
       \<and> effects (decide a c) = [Commit (ja_version a) Succeeded]"
proof -
  have ends: "t = Succeeded \<Longrightarrow> is_legal_transition s t \<Longrightarrow> s = Committing" for s t
    by (cases s) (simp_all add: is_legal_transition_def)
  have live: "\<not> is_terminal (ja_state a)"
    using assms terminal_effects [of a c] by (auto simp: final_state_last)
  show ?thesis
  proof (cases c)
    case (Worker r)
    have "\<nexists>reason. r = Interrupted reason"
    proof clarsimp
      fix reason assume "r = Interrupted reason"
      then show False
        using assms Worker live
        by (cases reason; cases "ja_state a")
           (simp_all add: decide_worker_def decide_interrupted_def decide_finalize_cancel_def
              commits_towards_def route_def is_legal_transition_def commit_def)
    qed
    then show ?thesis
      using assms Worker live panic_final [OF live]
      by (cases r) (auto simp: decide_worker_def split: if_splits)
  next
    case (DeviceObserved d)
    have False
    proof (cases rule: device_observed_cases [of a d])
      case quiet
      then show ?thesis using assms DeviceObserved by (simp add: final_state_last)
    next
      case (moved t es)
      then have "t = Succeeded"
        using assms DeviceObserved commits_towards_chain [OF moved(1)]
        by (simp add: final_state_last)
      with moved(2) show ?thesis
        by (simp add: observation_target_def split: if_split_asm device_readiness.split_asm)
    qed
    then show ?thesis ..
  next
    case Retry
    then show ?thesis using assms by (cases "ja_state a") (simp_all add: decide_retry_def)
  qed (use assms live ends in \<open>auto simp: decide_transition_def decide_pause_def decide_resume_def
        decide_cancel_def decide_finalize_cancel_def decide_dismiss_def commit_def split: if_splits\<close>)
qed

theorem success_only_from_committing_witness:
  "effects (decide (new_job_aggregate Committing) (Worker CommitComplete)) = [Commit 1 Succeeded]"
  using success_only_from_committing [of "new_job_aggregate Committing" "Worker CommitComplete"]
  by (simp add: new_job_aggregate_def decide_worker_def)

end
