(* ===== verification/Framing.thy ===== *)
theory Framing
  imports Prelude
begin

text \<open>
  Byte encodings whose end can be found without looking at what follows: the interface
  \<open>framing\<close>, decimal numbers, big-endian \<open>u64\<close>s, and the two length-prefixed
  encodings of the sources, \<open>len:bytes\<close> (natural keys) and
  \<open>u64 length + bytes\<close> (hash preimages). Concatenations of such frames are injective.
  Rust's \<open>?\<close> on a \<open>Result\<close> and its \<open>trim().is_empty()\<close> are here too.
\<close>

section \<open>Results\<close>

text \<open>Rust's \<open>Result\<close> as a sum, the error on the left; \<open>and_then\<close> is the operator \<open>?\<close>.\<close>

fun and_then :: "'e + 'a \<Rightarrow> ('a \<Rightarrow> 'e + 'b) \<Rightarrow> 'e + 'b" where
  "and_then (Inl e) f = Inl e"
| "and_then (Inr x) f = f x"

lemma and_then_Inr [simp]: "and_then r f = Inr y \<longleftrightarrow> (\<exists>x. r = Inr x \<and> f x = Inr y)"
  by (cases r) auto

lemma and_then_InrE:
  "and_then r f = Inr y \<Longrightarrow> (\<And>x. r = Inr x \<Longrightarrow> f x = Inr y \<Longrightarrow> P) \<Longrightarrow> P"
  by (cases r) auto

definition ensure :: "bool \<Rightarrow> 'e \<Rightarrow> 'e + unit" where
  "ensure b e = (if b then Inr () else Inl e)"

lemma ensure_Inr [simp]: "ensure b e = Inr u \<longleftrightarrow> b"
  by (simp add: ensure_def)

lemma ensure_InrD: "ensure b e = Inr u \<Longrightarrow> b"
  by simp

lemma ensure_Inl [simp]: "ensure b e = Inl e' \<longleftrightarrow> \<not> b \<and> e' = e"
  by (auto simp: ensure_def)

section \<open>Frames\<close>

locale framing =
  fixes enc :: "'a \<Rightarrow> 'b list" and dec :: "'b list \<Rightarrow> ('a \<times> 'b list) option"
    and valid :: "'a \<Rightarrow> bool"
  assumes dec_enc: "valid x \<Longrightarrow> dec (enc x @ r) = Some (x, r)"
begin

lemma append_eq: "valid x \<Longrightarrow> valid y \<Longrightarrow> enc x @ r = enc y @ s \<longleftrightarrow> x = y \<and> r = s"
  by (metis dec_enc option.inject prod.inject)

lemma enc_eq: "valid x \<Longrightarrow> valid y \<Longrightarrow> enc x = enc y \<longleftrightarrow> x = y"
  using append_eq [of x y "[]" "[]"] by simp

lemma concat_append_eq:
  "length xs = length ys \<Longrightarrow> list_all valid xs \<Longrightarrow> list_all valid ys \<Longrightarrow>
     concat (map enc xs) @ r = concat (map enc ys) @ s \<longleftrightarrow> xs = ys \<and> r = s"
  by (induction xs ys rule: list_induct2) (auto simp: append_eq)

end

section \<open>Decimal numbers\<close>

text \<open>\<open>usize::to_string\<close>.\<close>

fun decimal :: "nat \<Rightarrow> string" where
  "decimal n =
     (if n < 10 then [char_of (48 + n)] else decimal (n div 10) @ [char_of (48 + n mod 10)])"

declare decimal.simps [simp del]

fun decimal_value :: "nat \<Rightarrow> string \<Rightarrow> nat" where
  "decimal_value a [] = a"
| "decimal_value a (c # cs) = decimal_value (10 * a + (of_char c - 48)) cs"

lemma decimal_value_append: "decimal_value a (s @ t) = decimal_value (decimal_value a s) t"
  by (induction a s rule: decimal_value.induct) auto

lemma of_char_digit [simp]: "n < 10 \<Longrightarrow> of_char (char_of (48 + n) :: char) = (48 + n :: nat)"
  by (simp add: of_char_of)

lemma is_ascii_digit_of: "(n :: nat) < 10 \<Longrightarrow> is_ascii_digit (char_of (48 + n))"
  by (simp add: is_ascii_digit_def)

lemma decimal_digits: "list_all is_ascii_digit (decimal n)"
proof (induction n rule: decimal.induct)
  case (1 n)
  then show ?case by (simp add: decimal.simps [of n] is_ascii_digit_of)
qed

lemma decimal_value_decimal: "decimal_value 0 (decimal n) = n"
proof (induction n rule: decimal.induct)
  case (1 n)
  then show ?case by (simp add: decimal.simps [of n] decimal_value_append)
qed

section \<open>\<open>len:bytes\<close>\<close>

definition text_frame :: "string \<Rightarrow> string" where
  "text_frame part = decimal (length part) @ '':'' @ part"

definition read_text_frame :: "string \<Rightarrow> (string \<times> string) option" where
  "read_text_frame s =
     (let n = decimal_value 0 (takeWhile is_ascii_digit s)
      in case dropWhile is_ascii_digit s of
           [] \<Rightarrow> None
         | c # rest \<Rightarrow> if n \<le> length rest then Some (take n rest, drop n rest) else None)"

interpretation text_frames: framing text_frame read_text_frame "\<lambda>_. True"
proof
  fix x r
  have "\<not> is_ascii_digit (CHR '':'')"
    by (simp add: is_ascii_digit_def)
  then have "takeWhile is_ascii_digit (text_frame x @ r) = decimal (length x)"
    and "dropWhile is_ascii_digit (text_frame x @ r) = CHR '':'' # x @ r"
    using decimal_digits [of "length x"]
    by (simp_all add: text_frame_def takeWhile_append dropWhile_append list_all_iff
        takeWhile_eq_all_conv [THEN iffD2])
  then show "read_text_frame (text_frame x @ r) = Some (x, r)"
    by (simp add: read_text_frame_def decimal_value_decimal)
qed

section \<open>Big-endian \<open>u64\<close>\<close>

fun be_bytes :: "nat \<Rightarrow> nat \<Rightarrow> string" where
  "be_bytes 0 n = []"
| "be_bytes (Suc k) n = be_bytes k (n div 256) @ [char_of (n mod 256)]"

fun be_value :: "nat \<Rightarrow> string \<Rightarrow> nat" where
  "be_value a [] = a"
| "be_value a (c # cs) = be_value (256 * a + of_char c) cs"

lemma be_value_append: "be_value a (s @ t) = be_value (be_value a s) t"
  by (induction a s rule: be_value.induct) auto

lemma length_be_bytes [simp]: "length (be_bytes k n) = k"
  by (induction k arbitrary: n) auto

lemma be_value_be_bytes: "n < 256 ^ k \<Longrightarrow> be_value 0 (be_bytes k n) = n"
proof (induction k arbitrary: n)
  case (Suc k)
  then have "n div 256 < 256 ^ k"
    by (simp add: less_mult_imp_div_less mult.commute)
  with Suc.IH show ?case by (simp add: be_value_append of_char_of)
qed simp

text \<open>\<open>u64::to_be_bytes\<close>.\<close>

definition to_be_bytes :: "u64 \<Rightarrow> string" where
  "to_be_bytes w = be_bytes 8 (unat w)"

definition read_be_u64 :: "string \<Rightarrow> (u64 \<times> string) option" where
  "read_be_u64 s =
     (if length s < 8 then None else Some (of_nat (be_value 0 (take 8 s)), drop 8 s))"

lemma unat_less_be: "unat (w :: u64) < 256 ^ 8"
  using unsigned_less [of w] by simp

interpretation be_u64: framing to_be_bytes read_be_u64 "\<lambda>_. True"
proof
  fix x :: u64 and r
  show "read_be_u64 (to_be_bytes x @ r) = Some (x, r)"
    using be_value_be_bytes [OF unat_less_be [of x]] by (simp add: read_be_u64_def to_be_bytes_def)
qed

section \<open>\<open>u64\<close> length and bytes\<close>

text \<open>
  \<open>absorb\<close> of the digest: the length \<open>as u64\<close>, then the bytes. A length that a
  \<open>u64\<close> cannot hold would lose its high bits, so the frame is readable for strings
  shorter than \<open>2 ^ 64\<close> (every string of a 64-bit machine).
\<close>

definition absorb :: "string \<Rightarrow> string" where
  "absorb bytes = to_be_bytes (of_nat (length bytes)) @ bytes"

definition addressable :: "'a list \<Rightarrow> bool" where
  "addressable xs \<longleftrightarrow> length xs < 2 ^ 64"

definition read_absorbed :: "string \<Rightarrow> (string \<times> string) option" where
  "read_absorbed s =
     (case read_be_u64 s of
        None \<Rightarrow> None
      | Some (n, rest) \<Rightarrow>
          if unat n \<le> length rest then Some (take (unat n) rest, drop (unat n) rest) else None)"

lemma unat_of_nat_addressable:
  "addressable xs \<Longrightarrow> unat (of_nat (length xs) :: u64) = length xs"
  by (simp add: addressable_def unat_of_nat take_bit_nat_eq_self)

interpretation absorbed: framing absorb read_absorbed addressable
proof
  fix x r :: string
  assume "addressable x"
  then show "read_absorbed (absorb x @ r) = Some (x, r)"
    using be_u64.dec_enc [of "of_nat (length x)" "x @ r"] unat_of_nat_addressable [of x]
    by (simp add: read_absorbed_def absorb_def)
qed

section \<open>Blank strings\<close>

text \<open>
  \<open>trim().is_empty()\<close>: every character is Unicode white space (\<open>U+0009..U+000D\<close>,
  \<open>U+0020\<close>, \<open>U+0085\<close>, \<open>U+00A0\<close>, \<open>U+1680\<close>,
  \<open>U+2000..U+200A\<close>, \<open>U+2028\<close>, \<open>U+2029\<close>, \<open>U+202F\<close>,
  \<open>U+205F\<close>, \<open>U+3000\<close>), read in its UTF-8 bytes.
\<close>

definition white1 :: "char \<Rightarrow> bool" where
  "white1 c \<longleftrightarrow> (of_char c \<ge> (9::nat) \<and> of_char c \<le> (13::nat)) \<or> of_char c = (32::nat)"

definition white2 :: "char \<Rightarrow> char \<Rightarrow> bool" where
  "white2 c d \<longleftrightarrow> of_char c = (194::nat) \<and> (of_char d = (133::nat) \<or> of_char d = (160::nat))"

definition white3 :: "char \<Rightarrow> char \<Rightarrow> char \<Rightarrow> bool" where
  "white3 c d e \<longleftrightarrow>
     (of_char c, of_char d, of_char e) \<in> {(225::nat, 154::nat, 128::nat), (226, 129, 159), (227, 128, 128)}
     \<or> of_char c = (226::nat) \<and> of_char d = (128::nat)
        \<and> (of_char e \<ge> (128::nat) \<and> of_char e \<le> (138::nat)
           \<or> of_char e \<in> {168::nat, 169, 175})"

fun is_blank :: "string \<Rightarrow> bool" where
  "is_blank [] = True"
| "is_blank [c] = white1 c"
| "is_blank [c, d] = (white1 c \<and> white1 d \<or> white2 c d)"
| "is_blank (c # d # e # cs) =
     (if white1 c then is_blank (d # e # cs)
      else if white2 c d then is_blank (e # cs)
      else white3 c d e \<and> is_blank cs)"

end
