(* ===== verification/Job_Spec.thy ===== *)
theory Job_Spec
  imports Framing Device_Types
begin

text \<open>
  The immutable description of one transfer (\<open>domain/mod.rs\<close>): the natural key
  (device, session, revision), the signed inventory, the requested subset, the publication
  material, the validating constructors, and the preimage of the request digest. SHA-256 is
  a parameter; the preimage is the program's own.
\<close>

section \<open>Errors and checks\<close>

datatype job_spec_error =
    EmptyField string
  | NotSha256Hex string string
  | BadLength string nat nat
  | DuplicateInventoryFile file_id
  | DuplicateRequestedFile file_id
  | RequestedFileNotInInventory file_id
  | RevisionMismatch string string
  | IncompleteFullSession nat nat

definition require_non_empty :: "string \<Rightarrow> string \<Rightarrow> job_spec_error + unit" where
  "require_non_empty field value = ensure (\<not> is_blank value) (EmptyField field)"

definition is_sha256_hex :: "string \<Rightarrow> bool" where
  "is_sha256_hex value \<longleftrightarrow> length value = 64 \<and> list_all is_lower_hex_char value"

definition require_sha256_hex :: "string \<Rightarrow> string \<Rightarrow> job_spec_error + unit" where
  "require_sha256_hex field value = ensure (is_sha256_hex value) (NotSha256Hex field value)"

definition require_len :: "string \<Rightarrow> nat \<Rightarrow> nat \<Rightarrow> job_spec_error + unit" where
  "require_len field expected actual =
     ensure (expected = actual) (BadLength field expected actual)"

section \<open>Identity\<close>

record job_identity =
  ji_device_id :: device_id
  ji_session_id :: session_id
  ji_revision :: string

definition new_job_identity ::
    "device_id \<Rightarrow> session_id \<Rightarrow> string \<Rightarrow> job_spec_error + job_identity" where
  "new_job_identity device session revision =
     and_then (require_non_empty ''device_id'' device) (\<lambda>_.
     and_then (require_non_empty ''session_id'' session) (\<lambda>_.
     and_then (require_non_empty ''revision'' revision) (\<lambda>_.
     Inr \<lparr>ji_device_id = device, ji_session_id = session, ji_revision = revision\<rparr>)))"

definition natural_key :: "job_identity \<Rightarrow> string" where
  "natural_key i =
     concat (map text_frame [ji_device_id i, ji_session_id i, ji_revision i])"

section \<open>Files and publication\<close>

record job_file_spec =
  jf_file_id :: file_id
  jf_display_path :: string
  jf_size_bytes :: u64
  jf_sha256 :: string

definition new_job_file_spec ::
    "file_id \<Rightarrow> string \<Rightarrow> u64 \<Rightarrow> string \<Rightarrow> job_spec_error + job_file_spec" where
  "new_job_file_spec fid path sz sha =
     and_then (require_non_empty ''file_id'' fid) (\<lambda>_.
     and_then (require_non_empty ''display_path'' path) (\<lambda>_.
     and_then (require_sha256_hex ''sha256'' sha) (\<lambda>_.
     Inr \<lparr>jf_file_id = fid, jf_display_path = path, jf_size_bytes = sz, jf_sha256 = sha\<rparr>)))"

record publication_material =
  pm_revision :: string
  pm_payload :: string
  pm_signature :: string
  pm_public_key :: string

definition new_publication_material ::
    "string \<Rightarrow> string \<Rightarrow> string \<Rightarrow> string \<Rightarrow> job_spec_error + publication_material" where
  "new_publication_material revision payload signature public_key =
     and_then (require_non_empty ''publication.revision'' revision) (\<lambda>_.
     and_then (ensure (payload \<noteq> []) (EmptyField ''publication.payload'')) (\<lambda>_.
     and_then (require_len ''publication.signature'' 64 (length signature)) (\<lambda>_.
     and_then (require_len ''publication.public_key'' 32 (length public_key)) (\<lambda>_.
     Inr \<lparr>pm_revision = revision, pm_payload = payload, pm_signature = signature,
          pm_public_key = public_key\<rparr>))))"

section \<open>The job specification\<close>

text \<open>\<open>js_requested\<close> holds indices into \<open>js_session_files\<close>, in request order.\<close>

record job_spec =
  js_identity :: job_identity
  js_publication :: publication_material
  js_session_files :: "job_file_spec list"
  js_requested :: "nat list"
  js_full_session :: bool
  js_date_label :: string

text \<open>The two loops of \<open>JobSpec::new\<close>, with their accumulators.\<close>

fun index_inventory ::
    "(file_id \<times> nat) list \<Rightarrow> nat \<Rightarrow> job_file_spec list \<Rightarrow> job_spec_error + (file_id \<times> nat) list" where
  "index_inventory index_of position [] = Inr index_of"
| "index_inventory index_of position (file # files) =
     (let fid = jf_file_id file
      in if list_ex (\<lambda>(seen, _). seen = fid) index_of then Inl (DuplicateInventoryFile fid)
         else index_inventory (index_of @ [(fid, position)]) (position + 1) files)"

fun resolve_requested ::
    "(file_id \<times> nat) list \<Rightarrow> nat list \<Rightarrow> file_id list \<Rightarrow> job_spec_error + nat list" where
  "resolve_requested index_of requested [] = Inr requested"
| "resolve_requested index_of requested (fid # ids) =
     (case find (\<lambda>(seen, _). seen = fid) index_of of
        None \<Rightarrow> Inl (RequestedFileNotInInventory fid)
      | Some (_, position) \<Rightarrow>
          if List.member requested position then Inl (DuplicateRequestedFile fid)
          else resolve_requested index_of (requested @ [position]) ids)"

definition new_job_spec ::
    "job_identity \<Rightarrow> publication_material \<Rightarrow> job_file_spec list \<Rightarrow> file_id list \<Rightarrow> bool \<Rightarrow> string
     \<Rightarrow> job_spec_error + job_spec" where
  "new_job_spec identity publication session_files requested_file_ids full_session date_label =
     and_then (ensure (pm_revision publication = ji_revision identity)
                (RevisionMismatch (ji_revision identity) (pm_revision publication))) (\<lambda>_.
     and_then (ensure (session_files \<noteq> []) (EmptyField ''session_files'')) (\<lambda>_.
     and_then (ensure (requested_file_ids \<noteq> []) (EmptyField ''requested_file_ids'')) (\<lambda>_.
     and_then (index_inventory [] 0 session_files) (\<lambda>index_of.
     and_then (resolve_requested index_of [] requested_file_ids) (\<lambda>requested.
     and_then (ensure (\<not> (full_session \<and> length requested \<noteq> length session_files))
                (IncompleteFullSession (length session_files) (length requested))) (\<lambda>_.
     Inr \<lparr>js_identity = identity, js_publication = publication,
          js_session_files = session_files, js_requested = requested,
          js_full_session = full_session, js_date_label = date_label\<rparr>))))))"

definition requested_files :: "job_spec \<Rightarrow> job_file_spec list" where
  "requested_files s = map (\<lambda>i. js_session_files s ! i) (js_requested s)"

text \<open>\<open>Iterator::position\<close>: the first index whose element satisfies the test.\<close>

fun position :: "('a \<Rightarrow> bool) \<Rightarrow> 'a list \<Rightarrow> nat option" where
  "position P [] = None"
| "position P (x # xs) = (if P x then Some 0 else map_option Suc (position P xs))"

definition request_position :: "job_spec \<Rightarrow> file_id \<Rightarrow> nat option" where
  "request_position s fid =
     position (\<lambda>i. jf_file_id (js_session_files s ! i) = fid) (js_requested s)"

section \<open>The request digest\<close>

definition absorb_file :: "job_file_spec \<Rightarrow> string" where
  "absorb_file f =
     absorb (jf_file_id f) @ absorb (jf_display_path f) @ to_be_bytes (jf_size_bytes f)
       @ absorb (jf_sha256 f)"

text \<open>What \<open>request_digest\<close> feeds the hasher, in order.\<close>

definition request_preimage :: "job_spec \<Rightarrow> string" where
  "request_preimage s =
     ''ylx.job-spec.v1'' @ [char_of (0 :: nat)]
       @ absorb (ji_device_id (js_identity s))
       @ absorb (ji_session_id (js_identity s))
       @ absorb (ji_revision (js_identity s))
       @ absorb (pm_revision (js_publication s))
       @ absorb (pm_payload (js_publication s))
       @ absorb (pm_signature (js_publication s))
       @ absorb (pm_public_key (js_publication s))
       @ [char_of (of_bool (js_full_session s) :: nat)]
       @ to_be_bytes (of_nat (length (js_session_files s)))
       @ concat (map absorb_file (js_session_files s))
       @ to_be_bytes (of_nat (length (js_requested s)))
       @ concat (map (\<lambda>i. absorb (jf_file_id (js_session_files s ! i))) (js_requested s))"

definition request_digest :: "(string \<Rightarrow> string) \<Rightarrow> job_spec \<Rightarrow> string" where
  "request_digest sha256 s = sha256 (request_preimage s)"

section \<open>Hexadecimal digests\<close>

definition hex_digit :: "nat \<Rightarrow> char" where
  "hex_digit n = (if n < 10 then char_of (48 + n) else char_of (87 + n))"

definition hex_value :: "char \<Rightarrow> nat" where
  "hex_value c = (if is_ascii_digit c then of_char c - 48 else of_char c - 87)"

definition digest_to_hex :: "string \<Rightarrow> string" where
  "digest_to_hex bytes =
     concat (map (\<lambda>b. [hex_digit (of_char b div 16), hex_digit (of_char b mod 16)]) bytes)"

fun hex_pairs :: "string \<Rightarrow> string" where
  "hex_pairs (c # d # cs) = char_of (16 * hex_value c + hex_value d) # hex_pairs cs"
| "hex_pairs _ = []"

definition digest_from_hex :: "string \<Rightarrow> job_spec_error + string" where
  "digest_from_hex value =
     and_then (require_sha256_hex ''request_digest'' value) (\<lambda>_. Inr (hex_pairs value))"

section \<open>What the constructor guarantees\<close>

lemma list_ex_fst [simp]: "list_ex (\<lambda>(seen, _). seen = x) xs \<longleftrightarrow> x \<in> fst ` set xs"
  by (induction xs) auto

lemma index_inventory_Inr:
  "index_inventory acc n files = Inr idx \<Longrightarrow> distinct (map fst acc) \<Longrightarrow>
     idx = acc @ zip (map jf_file_id files) [n..<n + length files]
     \<and> distinct (map fst acc @ map jf_file_id files)"
proof (induction acc n files arbitrary: idx rule: index_inventory.induct)
  case (2 acc n f files)
  from 2(2) have fresh: "jf_file_id f \<notin> fst ` set acc"
    and rest: "index_inventory (acc @ [(jf_file_id f, n)]) (n + 1) files = Inr idx"
    by (simp_all add: Let_def split: if_split_asm)
  have "distinct (map fst (acc @ [(jf_file_id f, n)]))"
    using fresh 2(3) by simp
  from 2(1) [OF refl _ rest this] fresh show ?case
    by (simp add: upt_rec)
qed simp

lemma index_inventory_complete:
  "distinct (map fst acc @ map jf_file_id files) \<Longrightarrow>
     \<exists>idx. index_inventory acc n files = Inr idx"
proof (induction files arbitrary: acc n)
  case (Cons f files)
  then have "jf_file_id f \<notin> fst ` set acc"
    and "distinct (map fst (acc @ [(jf_file_id f, n)]) @ map jf_file_id files)"
    by auto
  then show ?case
    using Cons.IH [of "acc @ [(jf_file_id f, n)]" "n + 1"] by (simp add: Let_def)
qed simp

lemma find_zip_upt:
  "find (\<lambda>(seen, _). seen = fid) (zip ids [n..<n + length ids]) =
     (case position (\<lambda>x. x = fid) ids of None \<Rightarrow> None | Some k \<Rightarrow> Some (fid, n + k))"
proof (induction ids arbitrary: n)
  case (Cons x xs)
  from Cons [of "Suc n"] show ?case by (auto simp: upt_rec split: option.splits)
qed simp

lemma position_Some: "position P xs = Some k \<longleftrightarrow> k < length xs \<and> P (xs ! k) \<and> (\<forall>j<k. \<not> P (xs ! j))"
proof (induction xs arbitrary: k)
  case (Cons x xs)
  then show ?case by (cases k) (auto simp: less_Suc_eq_0_disj)
qed simp

lemma position_None: "position P xs = None \<longleftrightarrow> (\<forall>x\<in>set xs. \<not> P x)"
  by (induction xs) auto

lemma distinct_map_nth:
  "distinct (map f xs) \<Longrightarrow> i < length xs \<Longrightarrow> j < length xs \<Longrightarrow> f (xs ! i) = f (xs ! j) \<longleftrightarrow> i = j"
  using nth_eq_iff_index_eq [of "map f xs" i j] by simp

lemma position_distinct:
  "distinct (map f xs) \<Longrightarrow> k < length xs \<Longrightarrow> position (\<lambda>x. f x = f (xs ! k)) xs = Some k"
  by (auto simp: position_Some distinct_map_nth)

lemma resolve_requested_Inr:
  assumes "distinct ids"
  shows "resolve_requested (zip ids [0..<length ids]) acc wanted = Inr requested \<longleftrightarrow>
     (\<exists>new. requested = acc @ new \<and> map (\<lambda>i. ids ! i) new = wanted
        \<and> (\<forall>i\<in>set new. i < length ids) \<and> distinct new \<and> set acc \<inter> set new = {})"
proof (induction wanted arbitrary: acc)
  case Nil
  show ?case by auto
next
  case (Cons fid wanted)
  show ?case
  proof (cases "position (\<lambda>x. x = fid) ids")
    case None
    then have "find (\<lambda>(seen, _). seen = fid) (zip ids [0..<length ids]) = None"
      using find_zip_upt [of fid ids 0] by simp
    moreover have "fid \<notin> set ids"
      using None by (auto simp: position_None)
    ultimately show ?thesis
      by (auto simp: map_eq_Cons_conv)
  next
    case (Some k)
    then have k: "k < length ids" "ids ! k = fid" by (auto simp: position_Some)
    have only: "i < length ids \<Longrightarrow> ids ! i = fid \<longleftrightarrow> i = k" for i
      using assms k by (auto simp: nth_eq_iff_index_eq)
    have step: "resolve_requested (zip ids [0..<length ids]) acc (fid # wanted) =
        (if k \<in> set acc then Inl (DuplicateRequestedFile fid)
         else resolve_requested (zip ids [0..<length ids]) (acc @ [k]) wanted)"
      using find_zip_upt [of fid ids 0] Some by simp
    have split: "(\<exists>new. requested = acc @ new \<and> map (\<lambda>i. ids ! i) new = fid # wanted
        \<and> (\<forall>i\<in>set new. i < length ids) \<and> distinct new \<and> set acc \<inter> set new = {}) \<longleftrightarrow>
      k \<notin> set acc \<and> (\<exists>new. requested = (acc @ [k]) @ new \<and> map (\<lambda>i. ids ! i) new = wanted
        \<and> (\<forall>i\<in>set new. i < length ids) \<and> distinct new \<and> set (acc @ [k]) \<inter> set new = {})"
      (is "?R \<longleftrightarrow> ?S")
    proof
      assume ?R
      then obtain z zs where new: "requested = acc @ z # zs" "ids ! z = fid"
        "map (\<lambda>i. ids ! i) zs = wanted" "\<forall>i\<in>set (z # zs). i < length ids"
        "distinct (z # zs)" "set acc \<inter> set (z # zs) = {}"
        by (auto simp only: map_eq_Cons_conv)
      then have "z = k"
        using only [of z] by simp
      with new show ?S by auto
    next
      assume ?S
      then obtain zs where "k \<notin> set acc" "requested = acc @ k # zs"
        "map (\<lambda>i. ids ! i) zs = wanted" "\<forall>i\<in>set zs. i < length ids" "distinct zs"
        "set (acc @ [k]) \<inter> set zs = {}" by auto
      then show ?R using k by (intro exI [of _ "k # zs"]) auto
    qed
    show ?thesis
      unfolding step split by (simp add: Cons.IH)
  qed
qed

text \<open>
  Well-formed specifications: what every value built by the constructor satisfies.
\<close>

definition job_spec_ok :: "job_spec \<Rightarrow> bool" where
  "job_spec_ok s \<longleftrightarrow>
     pm_revision (js_publication s) = ji_revision (js_identity s)
     \<and> js_session_files s \<noteq> [] \<and> distinct (map jf_file_id (js_session_files s))
     \<and> js_requested s \<noteq> [] \<and> distinct (js_requested s)
     \<and> list_all (\<lambda>i. i < length (js_session_files s)) (js_requested s)
     \<and> \<not> (js_full_session s \<and> length (js_requested s) \<noteq> length (js_session_files s))"

lemma new_job_spec_Inr:
  "new_job_spec identity publication files wanted full label = Inr s \<longleftrightarrow>
     job_spec_ok s \<and> map jf_file_id (requested_files s) = wanted
     \<and> js_identity s = identity \<and> js_publication s = publication
     \<and> js_session_files s = files \<and> js_full_session s = full \<and> js_date_label s = label"
  (is "?lhs \<longleftrightarrow> ?rhs")
proof -
  let ?ids = "map jf_file_id files"
  have idx: "index_inventory [] 0 files = Inr idx \<longleftrightarrow>
      idx = zip ?ids [0..<length files] \<and> distinct ?ids" for idx
    using index_inventory_Inr [of "[]" 0 files] index_inventory_complete [of "[]" files 0] by auto
  have nth: "map (\<lambda>i. ?ids ! i) requested = wanted \<longleftrightarrow> map (\<lambda>i. jf_file_id (files ! i)) requested = wanted"
    if "\<forall>i\<in>set requested. i < length files" for requested
  proof -
    have "map (\<lambda>i. ?ids ! i) requested = map (\<lambda>i. jf_file_id (files ! i)) requested"
      using that by simp
    then show ?thesis by (simp only:)
  qed
  define P where "P requested \<longleftrightarrow> map (\<lambda>i. jf_file_id (files ! i)) requested = wanted
      \<and> (\<forall>i\<in>set requested. i < length files) \<and> distinct requested" for requested
  have res: "distinct ?ids \<Longrightarrow>
      resolve_requested (zip ?ids [0..<length files]) [] wanted = Inr requested \<longleftrightarrow> P requested"
    for requested
    using resolve_requested_Inr [of ?ids "[]" wanted requested] nth [of requested]
    by (auto simp only: P_def length_map append_Nil set_simps Int_empty_left simp_thms)
  have "?lhs \<longleftrightarrow> pm_revision publication = ji_revision identity \<and> files \<noteq> [] \<and> wanted \<noteq> []
      \<and> distinct ?ids \<and> (\<exists>requested. P requested \<and> \<not> (full \<and> length requested \<noteq> length files)
        \<and> s = \<lparr>js_identity = identity, js_publication = publication, js_session_files = files,
              js_requested = requested, js_full_session = full, js_date_label = label\<rparr>)"
    unfolding new_job_spec_def by (auto simp: idx res)
  then show ?thesis
    by (cases s) (auto simp: P_def job_spec_ok_def requested_files_def comp_def list_all_iff)
qed

lemma request_position_nth:
  assumes "job_spec_ok s" and "k < length (js_requested s)"
  shows "request_position s (jf_file_id (requested_files s ! k)) = Some k"
proof -
  let ?f = "\<lambda>i. jf_file_id (js_session_files s ! i)"
  have ids: "distinct (map jf_file_id (js_session_files s))"
    and "distinct (js_requested s)" and "\<forall>i\<in>set (js_requested s). i < length (js_session_files s)"
    using assms(1) by (simp_all add: job_spec_ok_def list_all_iff)
  then have "distinct (map ?f (js_requested s))"
    by (auto simp: distinct_map inj_on_def distinct_map_nth [OF ids])
  then show ?thesis
    using position_distinct [of ?f "js_requested s" k] assms(2)
    by (simp add: request_position_def requested_files_def)
qed

lemma full_session_all:
  assumes "job_spec_ok s" and "js_full_session s"
  shows "set (requested_files s) = set (js_session_files s)"
proof -
  let ?n = "length (js_session_files s)"
  have "set (js_requested s) \<subseteq> {..<?n}" and "card (set (js_requested s)) = ?n"
    using assms by (auto simp: job_spec_ok_def list_all_iff distinct_card)
  then have "set (js_requested s) = {..<?n}"
    by (intro card_subset_eq) simp_all
  then have "set (requested_files s) = (\<lambda>i. js_session_files s ! i) ` {..<?n}"
    by (simp add: requested_files_def)
  also have "\<dots> = set (js_session_files s)"
    by (simp add: lessThan_atLeast0 nth_image)
  finally show ?thesis .
qed

section \<open>The digest preimage is injective\<close>

definition file_addressable :: "job_file_spec \<Rightarrow> bool" where
  "file_addressable f \<longleftrightarrow>
     addressable (jf_file_id f) \<and> addressable (jf_display_path f) \<and> addressable (jf_sha256 f)"

definition spec_addressable :: "job_spec \<Rightarrow> bool" where
  "spec_addressable s \<longleftrightarrow>
     addressable (ji_device_id (js_identity s)) \<and> addressable (ji_session_id (js_identity s))
     \<and> addressable (ji_revision (js_identity s)) \<and> addressable (pm_revision (js_publication s))
     \<and> addressable (pm_payload (js_publication s)) \<and> addressable (pm_signature (js_publication s))
     \<and> addressable (pm_public_key (js_publication s))
     \<and> addressable (js_session_files s) \<and> list_all file_addressable (js_session_files s)
     \<and> addressable (js_requested s)"

definition read_file :: "string \<Rightarrow> (job_file_spec \<times> string) option" where
  "read_file s =
     Option.bind (read_absorbed s) (\<lambda>(fid, s).
     Option.bind (read_absorbed s) (\<lambda>(path, s).
     Option.bind (read_be_u64 s) (\<lambda>(sz, s).
     Option.bind (read_absorbed s) (\<lambda>(sha, s).
     Some (\<lparr>jf_file_id = fid, jf_display_path = path, jf_size_bytes = sz, jf_sha256 = sha\<rparr>, s)))))"

interpretation file_frames: framing absorb_file read_file file_addressable
proof
  fix x :: job_file_spec and r :: string
  assume "file_addressable x"
  then show "read_file (absorb_file x @ r) = Some (x, r)"
    by (simp add: file_addressable_def read_file_def absorb_file_def absorbed.dec_enc be_u64.dec_enc)
qed

lemma of_nat_length_eq:
  "addressable xs \<Longrightarrow> addressable ys \<Longrightarrow>
     (of_nat (length xs) :: u64) = of_nat (length ys) \<longleftrightarrow> length xs = length ys"
  by (metis unat_of_nat_addressable)

lemma flag_eq: "char_of (of_bool b :: nat) = char_of (of_bool c :: nat) \<longleftrightarrow> b = c"
  by (cases b; cases c) simp_all

lemma flag_append_eq:
  "[char_of (of_bool b :: nat)] @ r = [char_of (of_bool c :: nat)] @ s \<longleftrightarrow> b = c \<and> r = s"
  by (simp add: flag_eq)

lemma preimage_fields:
  assumes "request_preimage s = request_preimage t"
    and s: "spec_addressable s" and t: "spec_addressable t"
  shows "js_identity s = js_identity t" and "js_publication s = js_publication t"
    and "js_full_session s = js_full_session t" and "js_session_files s = js_session_files t"
    and "length (js_requested s) = length (js_requested t)"
    and "concat (map (\<lambda>i. absorb (jf_file_id (js_session_files s ! i))) (js_requested s))
       = concat (map (\<lambda>i. absorb (jf_file_id (js_session_files t ! i))) (js_requested t))"
proof -
  note eq = assms(1) [unfolded request_preimage_def same_append_eq]
  have fields: "ji_device_id (js_identity s) = ji_device_id (js_identity t)
      \<and> ji_session_id (js_identity s) = ji_session_id (js_identity t)
      \<and> ji_revision (js_identity s) = ji_revision (js_identity t)
      \<and> pm_revision (js_publication s) = pm_revision (js_publication t)
      \<and> pm_payload (js_publication s) = pm_payload (js_publication t)
      \<and> pm_signature (js_publication s) = pm_signature (js_publication t)
      \<and> pm_public_key (js_publication s) = pm_public_key (js_publication t)
      \<and> js_full_session s = js_full_session t
      \<and> length (js_session_files s) = length (js_session_files t)"
    and rest: "concat (map absorb_file (js_session_files s))
       @ to_be_bytes (of_nat (length (js_requested s)))
       @ concat (map (\<lambda>i. absorb (jf_file_id (js_session_files s ! i))) (js_requested s))
     = concat (map absorb_file (js_session_files t))
       @ to_be_bytes (of_nat (length (js_requested t)))
       @ concat (map (\<lambda>i. absorb (jf_file_id (js_session_files t ! i))) (js_requested t))"
    using eq s t
    by (simp_all only: spec_addressable_def absorbed.append_eq flag_append_eq be_u64.append_eq
        of_nat_length_eq simp_thms)
  from fields show "js_identity s = js_identity t" "js_publication s = js_publication t"
    "js_full_session s = js_full_session t"
    by (simp_all add: job_identity.equality publication_material.equality)
  have files: "js_session_files s = js_session_files t
      \<and> to_be_bytes (of_nat (length (js_requested s)))
         @ concat (map (\<lambda>i. absorb (jf_file_id (js_session_files s ! i))) (js_requested s))
       = to_be_bytes (of_nat (length (js_requested t)))
         @ concat (map (\<lambda>i. absorb (jf_file_id (js_session_files t ! i))) (js_requested t))"
    by (rule file_frames.concat_append_eq [THEN iffD1, OF _ _ _ rest])
       (use fields s t in \<open>simp_all add: spec_addressable_def\<close>)
  then show "js_session_files s = js_session_files t" ..
  have last: "of_nat (length (js_requested s)) = (of_nat (length (js_requested t)) :: u64)
      \<and> concat (map (\<lambda>i. absorb (jf_file_id (js_session_files s ! i))) (js_requested s))
       = concat (map (\<lambda>i. absorb (jf_file_id (js_session_files t ! i))) (js_requested t))"
    by (rule be_u64.append_eq [THEN iffD1, OF TrueI TrueI files [THEN conjunct2]])
  then show "concat (map (\<lambda>i. absorb (jf_file_id (js_session_files s ! i))) (js_requested s))
       = concat (map (\<lambda>i. absorb (jf_file_id (js_session_files t ! i))) (js_requested t))" ..
  have "addressable (js_requested s)" "addressable (js_requested t)"
    using s t by (simp_all add: spec_addressable_def)
  with last show "length (js_requested s) = length (js_requested t)"
    by (simp add: of_nat_length_eq)
qed

lemma requested_addressable:
  assumes "job_spec_ok s" and "spec_addressable s"
  shows "list_all addressable (map (\<lambda>i. jf_file_id (js_session_files s ! i)) (js_requested s))"
  using assms by (auto simp: job_spec_ok_def spec_addressable_def file_addressable_def list_all_iff)

lemma requested_eq:
  assumes "job_spec_ok s" "job_spec_ok t" and "js_session_files s = js_session_files t"
    and "map (\<lambda>i. jf_file_id (js_session_files s ! i)) (js_requested s)
       = map (\<lambda>i. jf_file_id (js_session_files t ! i)) (js_requested t)"
  shows "js_requested s = js_requested t"
proof (rule nth_equalityI)
  show len: "length (js_requested s) = length (js_requested t)"
    using assms(4) by (metis length_map)
  fix k assume k: "k < length (js_requested s)"
  have "jf_file_id (js_session_files s ! (js_requested s ! k))
      = jf_file_id (js_session_files s ! (js_requested t ! k))"
    using k len arg_cong [OF assms(4), of "\<lambda>xs. xs ! k"] assms(3) by simp
  moreover have "js_requested s ! k < length (js_session_files s)"
    "js_requested t ! k < length (js_session_files s)"
    "distinct (map jf_file_id (js_session_files s))"
    using assms k len by (simp_all add: job_spec_ok_def list_all_length)
  ultimately show "js_requested s ! k = js_requested t ! k"
    by (simp add: distinct_map_nth)
qed

section \<open>Hexadecimal round trips\<close>

lemma hex_value_digit [simp]: "n < 16 \<Longrightarrow> hex_value (hex_digit n) = n"
  by (auto simp: hex_value_def hex_digit_def is_ascii_digit_def of_char_of)

lemma hex_digit_lower: "n < 16 \<Longrightarrow> is_lower_hex_char (hex_digit n)"
  by (auto simp: hex_digit_def is_lower_hex_char_def is_lower_hex_letter_def is_ascii_digit_def
      of_char_of)

lemma hex_digit_value:
  assumes "is_lower_hex_char c"
  shows "hex_digit (hex_value c) = c" and "hex_value c < 16"
proof -
  have "char_of (of_char c :: nat) = c" by simp
  then show "hex_digit (hex_value c) = c" and "hex_value c < 16"
    using assms
    by (auto simp: is_lower_hex_char_def is_lower_hex_letter_def is_ascii_digit_def hex_value_def
        hex_digit_def)
qed

lemma of_char_div_mod: "char_of (16 * (of_char c div 16) + of_char c mod 16 :: nat) = c"
  by (simp only: mult_div_mod_eq char_of_char)

lemma of_char_div_16: "of_char c div 16 < (16 :: nat)"
proof -
  have "of_char c mod 256 = (of_char c :: nat)" by (rule of_char_mod_256)
  then have "of_char c < (256 :: nat)" by (metis mod_less_divisor zero_less_numeral)
  then show ?thesis by linarith
qed

lemma hex_pairs_to_hex: "hex_pairs (digest_to_hex d) = d"
  by (induction d) (simp_all add: digest_to_hex_def of_char_div_16 of_char_div_mod)

lemma digest_to_hex_lower: "list_all is_lower_hex_char (digest_to_hex d)"
  by (induction d) (simp_all add: digest_to_hex_def hex_digit_lower of_char_div_16)

lemma length_digest_to_hex [simp]: "length (digest_to_hex d) = 2 * length d"
  by (induction d) (simp_all add: digest_to_hex_def)

lemma to_hex_pairs:
  "list_all is_lower_hex_char v \<Longrightarrow> even (length v) \<Longrightarrow> digest_to_hex (hex_pairs v) = v"
proof (induction v rule: hex_pairs.induct)
  case (1 c d cs)
  have "16 * hex_value c + hex_value d < 256"
    using 1 hex_digit_value(2) [of c] hex_digit_value(2) [of d] by simp
  then have "of_char (char_of (16 * hex_value c + hex_value d) :: char)
      = 16 * hex_value c + hex_value d"
    by (simp add: of_char_of)
  with 1 show ?case
    using hex_digit_value [of c] hex_digit_value [of d] by (simp add: digest_to_hex_def)
qed (simp_all add: digest_to_hex_def)

interpretation digest_codec: text_codec digest_to_hex
  "\<lambda>v. case digest_from_hex v of Inl _ \<Rightarrow> None | Inr d \<Rightarrow> Some d" "\<lambda>d. length d = 32"
proof
  fix d :: string
  assume "length d = 32"
  then show "(case digest_from_hex (digest_to_hex d) of Inl _ \<Rightarrow> None | Inr d \<Rightarrow> Some d) = Some d"
    by (simp add: digest_from_hex_def require_sha256_hex_def is_sha256_hex_def ensure_def
        digest_to_hex_lower hex_pairs_to_hex)
qed

lemma length_hex_pairs: "length (hex_pairs v) = length v div 2"
  by (induction v rule: hex_pairs.induct) simp_all

lemma digest_from_hex_Inr:
  "digest_from_hex v = Inr d \<Longrightarrow> digest_to_hex d = v \<and> length d = 32"
  by (auto simp: digest_from_hex_def require_sha256_hex_def is_sha256_hex_def to_hex_pairs
      length_hex_pairs)

section \<open>Properties\<close>

text \<open>
  The natural key is collision-free: two identities have the same key exactly when they
  are the same (device, session, revision), whatever separators their parts contain.
\<close>
theorem natural_key_injective: "natural_key i = natural_key j \<longleftrightarrow> i = j"
proof
  assume "natural_key i = natural_key j"
  then have "[ji_device_id i, ji_session_id i, ji_revision i]
      = [ji_device_id j, ji_session_id j, ji_revision j]"
    using text_frames.concat_append_eq [of "[ji_device_id i, ji_session_id i, ji_revision i]"
        "[ji_device_id j, ji_session_id j, ji_revision j]" "[]" "[]"]
    by (simp add: natural_key_def)
  then show "i = j" by (simp add: job_identity.equality)
qed simp

text \<open>
  \<open>JobSpec::new\<close> accepts exactly the consistent plans: the publication names the
  job's revision, inventory and plan are not empty, no file is listed twice in either, every
  requested file is in the signed inventory, and a full-session job asks for all of it.
\<close>
theorem new_job_spec_accepts:
  "(\<exists>s. new_job_spec identity publication files wanted full label = Inr s) \<longleftrightarrow>
     pm_revision publication = ji_revision identity \<and> files \<noteq> [] \<and> wanted \<noteq> []
     \<and> distinct (map jf_file_id files) \<and> distinct wanted
     \<and> set wanted \<subseteq> jf_file_id ` set files
     \<and> \<not> (full \<and> length wanted \<noteq> length files)"
  (is "?ok \<longleftrightarrow> ?conds")
proof
  assume ?ok
  then obtain s where s: "job_spec_ok s" "map jf_file_id (requested_files s) = wanted"
    "js_identity s = identity" "js_publication s = publication" "js_session_files s = files"
    "js_full_session s = full"
    by (auto simp: new_job_spec_Inr)
  have ids: "distinct (map jf_file_id files)" and
    req: "distinct (js_requested s)" "\<forall>i\<in>set (js_requested s). i < length files"
    using s(1) unfolding s(5) job_spec_ok_def list_all_iff by blast+
  have "wanted = map (\<lambda>i. jf_file_id (files ! i)) (js_requested s)"
    using s by (auto simp: requested_files_def)
  moreover from this have "distinct wanted"
    using req by (auto simp: distinct_map inj_on_def distinct_map_nth [OF ids])
  ultimately show ?conds
    using s req ids by (auto simp: job_spec_ok_def)
next
  assume conds: ?conds
  let ?ids = "map jf_file_id files"
  have "\<forall>w\<in>set wanted. \<exists>k<length files. jf_file_id (files ! k) = w"
    using conds by (metis (no_types, lifting) imageE in_set_conv_nth subsetD)
  then obtain k where k: "w \<in> set wanted \<Longrightarrow> k w < length files \<and> jf_file_id (files ! k w) = w" for w
    by metis
  define s where "s = \<lparr>js_identity = identity, js_publication = publication,
      js_session_files = files, js_requested = map k wanted, js_full_session = full,
      js_date_label = label\<rparr>"
  have "inj_on k (set wanted)"
    using k by (metis inj_onI)
  then have "job_spec_ok s" and "map jf_file_id (requested_files s) = wanted"
    using conds k by (simp_all add: s_def job_spec_ok_def requested_files_def distinct_map
        list_all_iff comp_def map_idI)
  then show ?ok
    by (auto simp: new_job_spec_Inr s_def)
qed

text \<open>
  A specification that was built carries only signed files: its requested files are the
  wanted ones in the wanted order, each is an entry of the inventory (so it has the signed
  size and digest), \<open>request_position\<close> finds each at its place, and a full-session
  job requests the whole inventory.
\<close>
theorem new_job_spec_sound:
  assumes "new_job_spec identity publication files wanted full label = Inr s"
  shows "map jf_file_id (requested_files s) = wanted
       \<and> set (requested_files s) \<subseteq> set files
       \<and> map (request_position s) wanted = map Some [0..<length wanted]
       \<and> (full \<longrightarrow> set (requested_files s) = set files)"
proof -
  have ok: "job_spec_ok s" and wanted: "map jf_file_id (requested_files s) = wanted"
    and files: "js_session_files s = files" "js_full_session s = full"
    using assms by (simp_all add: new_job_spec_Inr)
  have len: "length (js_requested s) = length wanted"
    using arg_cong [OF wanted, of length] by (simp add: requested_files_def)
  have "map (request_position s) wanted = map Some [0..<length wanted]"
  proof (rule nth_equalityI)
    fix k assume "k < length (map (request_position s) wanted)"
    then have k: "k < length wanted" by simp
    then have "jf_file_id (requested_files s ! k) = wanted ! k"
      using len arg_cong [OF wanted, of "\<lambda>xs. xs ! k"] by (simp add: requested_files_def)
    then show "map (request_position s) wanted ! k = map Some [0..<length wanted] ! k"
      using request_position_nth [OF ok, of k] len k by simp
  qed simp
  moreover have "set (requested_files s) \<subseteq> set files"
    using ok unfolding job_spec_ok_def list_all_iff requested_files_def files(1) by auto
  ultimately show ?thesis
    using wanted files full_session_all [OF ok] by simp
qed

theorem new_job_spec_sound_witness:
  "let i = \<lparr>ji_device_id = ''d'', ji_session_id = ''s'', ji_revision = ''r''\<rparr>;
       p = \<lparr>pm_revision = ''r'', pm_payload = ''x'', pm_signature = [], pm_public_key = []\<rparr>;
       f = \<lparr>jf_file_id = ''a'', jf_display_path = ''a.mp4'', jf_size_bytes = 3, jf_sha256 = []\<rparr>;
       s = \<lparr>js_identity = i, js_publication = p, js_session_files = [f, f\<lparr>jf_file_id := ''b''\<rparr>],
            js_requested = [1, 0], js_full_session = True, js_date_label = []\<rparr>
   in new_job_spec i p [f, f\<lparr>jf_file_id := ''b''\<rparr>] [''b'', ''a''] True [] = Inr s
      \<and> map (request_position s) [''b'', ''a''] = [Some 0, Some 1]"
proof -
  let ?i = "\<lparr>ji_device_id = ''d'', ji_session_id = ''s'', ji_revision = ''r''\<rparr>"
  let ?p = "\<lparr>pm_revision = ''r'', pm_payload = ''x'', pm_signature = [], pm_public_key = []\<rparr>"
  let ?f = "\<lparr>jf_file_id = ''a'', jf_display_path = ''a.mp4'', jf_size_bytes = 3, jf_sha256 = []\<rparr>"
  let ?s = "\<lparr>js_identity = ?i, js_publication = ?p,
              js_session_files = [?f, ?f\<lparr>jf_file_id := ''b''\<rparr>],
              js_requested = [1, 0], js_full_session = True, js_date_label = []\<rparr>"
  have "new_job_spec ?i ?p [?f, ?f\<lparr>jf_file_id := ''b''\<rparr>] [''b'', ''a''] True [] = Inr ?s"
    by (simp add: new_job_spec_def ensure_def Let_def)
  from new_job_spec_sound [OF this] this show ?thesis by (simp add: Let_def)
qed

lemma request_preimage_eq_iff:
  assumes "job_spec_ok s" "job_spec_ok t" "spec_addressable s" "spec_addressable t"
  shows "request_preimage s = request_preimage t \<longleftrightarrow>
           s\<lparr>js_date_label := []\<rparr> = t\<lparr>js_date_label := []\<rparr>"
proof
  assume eq: "request_preimage s = request_preimage t"
  note fields = preimage_fields [OF eq assms(3,4)]
  let ?ids = "\<lambda>s. map (\<lambda>i. jf_file_id (js_session_files s ! i)) (js_requested s)"
  have "concat (map absorb (?ids s)) @ [] = concat (map absorb (?ids t)) @ []"
    using fields(6) by (simp add: comp_def)
  then have "?ids s = ?ids t"
    using absorbed.concat_append_eq [of "?ids s" "?ids t" "[]" "[]"] fields(5)
      requested_addressable assms by auto
  then have "js_requested s = js_requested t"
    using requested_eq assms fields(4) by blast
  with fields show "s\<lparr>js_date_label := []\<rparr> = t\<lparr>js_date_label := []\<rparr>"
    by (simp add: job_spec.equality)
next
  assume "s\<lparr>js_date_label := []\<rparr> = t\<lparr>js_date_label := []\<rparr>"
  then have "request_preimage (s\<lparr>js_date_label := []\<rparr>) = request_preimage (t\<lparr>js_date_label := []\<rparr>)"
    by simp
  then show "request_preimage s = request_preimage t"
    by (simp add: request_preimage_def)
qed

text \<open>
  The digest is taken over an injective encoding: two well-formed specifications have the
  same preimage exactly when they agree on everything but the cosmetic date label. Two
  specifications with equal digests and different content are therefore a SHA-256 collision.
\<close>
theorem request_preimage_injective:
  assumes "job_spec_ok s" "job_spec_ok t" "spec_addressable s" "spec_addressable t"
  shows "request_preimage s = request_preimage t \<longleftrightarrow>
           s\<lparr>js_date_label := []\<rparr> = t\<lparr>js_date_label := []\<rparr>"
  using assms by (rule request_preimage_eq_iff)

theorem request_preimage_injective_witness:
  "let i = \<lparr>ji_device_id = ''d'', ji_session_id = ''s'', ji_revision = ''r''\<rparr>;
       p = \<lparr>pm_revision = ''r'', pm_payload = ''x'', pm_signature = [], pm_public_key = []\<rparr>;
       f = \<lparr>jf_file_id = ''a'', jf_display_path = ''a.mp4'', jf_size_bytes = 3, jf_sha256 = []\<rparr>;
       s = \<lparr>js_identity = i, js_publication = p, js_session_files = [f], js_requested = [0],
            js_full_session = True, js_date_label = []\<rparr>
   in request_preimage s = request_preimage (s\<lparr>js_date_label := ''today''\<rparr>)
      \<and> request_preimage s \<noteq> request_preimage (s\<lparr>js_full_session := False\<rparr>)"
proof -
  let ?s = "\<lparr>js_identity = \<lparr>ji_device_id = ''d'', ji_session_id = ''s'', ji_revision = ''r''\<rparr>,
      js_publication = \<lparr>pm_revision = ''r'', pm_payload = ''x'', pm_signature = [],
                        pm_public_key = []\<rparr>,
      js_session_files = [\<lparr>jf_file_id = ''a'', jf_display_path = ''a.mp4'', jf_size_bytes = 3,
                          jf_sha256 = []\<rparr>],
      js_requested = [0], js_full_session = True, js_date_label = []\<rparr>"
  have ok: "job_spec_ok (?s\<lparr>js_full_session := b, js_date_label := l\<rparr>)"
    and adr: "spec_addressable (?s\<lparr>js_full_session := b, js_date_label := l\<rparr>)" for b l
    by (simp_all add: job_spec_ok_def spec_addressable_def file_addressable_def addressable_def)
  show ?thesis
    using request_preimage_injective [OF ok [where b = True and l = "[]"]
        ok [where b = True and l = "''today''"] adr [where b = True and l = "[]"]
        adr [where b = True and l = "''today''"]]
      request_preimage_injective [OF ok [where b = True and l = "[]"]
        ok [where b = False and l = "[]"] adr [where b = True and l = "[]"]
        adr [where b = False and l = "[]"]]
    by (simp add: Let_def)
qed

text \<open>
  The hexadecimal form of a digest is exact: reading accepts precisely the 64 lowercase
  hexadecimal characters that printing a 32-byte digest produces, and gives that digest.
\<close>
theorem digest_hex_exact:
  "digest_from_hex v = Inr d \<longleftrightarrow> length d = 32 \<and> v = digest_to_hex d"
  using digest_from_hex_Inr [of v d] digest_codec.dec_enc [of d]
  by (auto split: sum.splits)

end
