(* ===== verification/Transfer_Store.thy ===== *)
theory Transfer_Store
  imports Transfer_Job Job_Spec "HOL-Library.List_Lexorder" "HOL-Library.Char_ord"
begin

text \<open>
  The durable transfer authority (\<open>persistence/transfer_store.rs\<close>) as a value: each
  SQL table is the list of its decoded rows, each statement the list operation it performs,
  each transaction a function whose error result keeps the database it was given. Modelled
  are the job row and its versions, the file plan and the evidence ledger, the completion
  outbox with its acknowledgements, dismissal and deletion. Failures of SQLite itself and
  the texts of error details are left out; timestamps are arguments.
\<close>

section \<open>Rows\<close>

datatype operation_kind = Download | Upload

fun kind_as_db_str :: "operation_kind \<Rightarrow> string" where
  "kind_as_db_str Download = ''download''"
| "kind_as_db_str Upload = ''upload''"

definition kind_from_db_str :: "string \<Rightarrow> operation_kind option" where
  "kind_from_db_str s =
     (if s = ''download'' then Some Download else if s = ''upload'' then Some Upload else None)"

fun desired_run_state_db :: "desired_run_state \<Rightarrow> string" where
  "desired_run_state_db Run = ''run''"
| "desired_run_state_db Paused = ''paused''"

definition desired_run_state_from_db :: "string \<Rightarrow> desired_run_state option" where
  "desired_run_state_from_db s =
     (if s = ''run'' then Some Run else if s = ''paused'' then Some Paused else None)"

text \<open>\<open>sj_natural_key\<close> is a column of the row that the source does not read back.\<close>

record stored_job =
  sj_job_id :: job_id
  sj_kind :: operation_kind
  sj_natural_key :: string
  sj_identity :: job_identity
  sj_digest :: string
  sj_state :: job_state_tag
  sj_version :: u64
  sj_desired :: desired_run_state
  sj_error :: "(string \<times> bool) option"
  sj_created_at :: string
  sj_updated_at :: string
  sj_dismissed_at :: "string option"

datatype ledger_status = LedgerMissing | LedgerPartial | LedgerVerified | LedgerInvalid

fun ledger_as_db_str :: "ledger_status \<Rightarrow> string" where
  "ledger_as_db_str LedgerMissing = ''missing''"
| "ledger_as_db_str LedgerPartial = ''partial''"
| "ledger_as_db_str LedgerVerified = ''verified''"
| "ledger_as_db_str LedgerInvalid = ''invalid''"

definition ledger_from_db_str :: "string \<Rightarrow> ledger_status option" where
  "ledger_from_db_str s =
     (if s = ''missing'' then Some LedgerMissing
      else if s = ''partial'' then Some LedgerPartial
      else if s = ''verified'' then Some LedgerVerified
      else if s = ''invalid'' then Some LedgerInvalid else None)"

record ledger_row =
  lg_job_id :: job_id
  lg_file_id :: file_id
  lg_status :: ledger_status
  lg_bytes :: u64
  lg_sha256 :: "string option"
  lg_updated_at :: string

record file_row =
  fr_job_id :: job_id
  fr_request_index :: "nat option"
  fr_file :: job_file_spec

datatype terminal_outcome =
    OutcomeSucceeded
  | OutcomeFailed string bool
  | OutcomeCancelled

fun outcome_tag :: "terminal_outcome \<Rightarrow> job_state_tag" where
  "outcome_tag OutcomeSucceeded = TagSucceeded"
| "outcome_tag (OutcomeFailed _ _) = TagFailed"
| "outcome_tag OutcomeCancelled = TagCancelled"

fun error_columns :: "terminal_outcome \<Rightarrow> (string \<times> bool) option" where
  "error_columns (OutcomeFailed code retryable) = Some (code, retryable)"
| "error_columns _ = None"

text \<open>\<open>from_columns\<close>; its three error texts are \<^term>\<open>None\<close>.\<close>

definition outcome_from_columns ::
    "string \<Rightarrow> string option \<Rightarrow> bool option \<Rightarrow> terminal_outcome option" where
  "outcome_from_columns kind code retryable =
     (if kind = ''succeeded'' then Some OutcomeSucceeded
      else if kind = ''cancelled'' then Some OutcomeCancelled
      else if kind = ''failed'' then
        (case code of
           None \<Rightarrow> None
         | Some c \<Rightarrow> (case retryable of None \<Rightarrow> None | Some r \<Rightarrow> Some (OutcomeFailed c r)))
      else None)"

record completion_record =
  cr_sequence :: nat
  cr_job_id :: job_id
  cr_kind :: operation_kind
  cr_outcome :: terminal_outcome
  cr_version :: u64
  cr_recorded_at :: string
  cr_acknowledged_at :: "string option"

definition is_acknowledged :: "completion_record \<Rightarrow> bool" where
  "is_acknowledged c \<longleftrightarrow> cr_acknowledged_at c \<noteq> None"

record lineage_row =
  ln_child :: job_id
  ln_parent :: job_id
  ln_attempt :: nat
  ln_created_at :: string

text \<open>
  A pending multipart upload, as far as dismissal looks at it: the job it belongs to, or for
  a legacy row the transfer key and the library entry.
\<close>

record upload_row =
  up_job_id :: "job_id option"
  up_transfer_key :: string
  up_entry_key :: "string option"

record transfer_db =
  db_jobs :: "stored_job list"
  db_specs :: "(job_id \<times> job_spec) list"
  db_files :: "file_row list"
  db_ledger :: "ledger_row list"
  db_outbox :: "completion_record list"
  db_sequence :: nat
  db_lineage :: "lineage_row list"
  db_upload_specs :: "(job_id \<times> string) list"
  db_uploads :: "upload_row list"

definition empty_db :: transfer_db where
  "empty_db = \<lparr>db_jobs = [], db_specs = [], db_files = [], db_ledger = [], db_outbox = [],
     db_sequence = 0, db_lineage = [], db_upload_specs = [], db_uploads = []\<rparr>"

text \<open>
  The errors of the store, without their texts; \<open>ConstraintViolation\<close> is SQLite's refusal
  of a duplicate key.
\<close>

datatype persistence_error = Conflict | NotFound | Corrupt | ConstraintViolation

text \<open>\<open>UPDATE .. SET .. WHERE\<close> and \<open>SELECT .. WHERE\<close> on a key.\<close>

definition update_where :: "('r \<Rightarrow> bool) \<Rightarrow> ('r \<Rightarrow> 'r) \<Rightarrow> 'r list \<Rightarrow> 'r list" where
  "update_where P f rows = map (\<lambda>r. if P r then f r else r) rows"

definition find_job :: "transfer_db \<Rightarrow> job_id \<Rightarrow> stored_job option" where
  "find_job db j = find (\<lambda>r. sj_job_id r = j) (db_jobs db)"

definition find_completion :: "transfer_db \<Rightarrow> job_id \<Rightarrow> completion_record option" where
  "find_completion db j = find (\<lambda>c. cr_job_id c = j) (db_outbox db)"

definition checked_i64 :: "u64 \<Rightarrow> persistence_error + unit" where
  "checked_i64 v = ensure (fits_i64 v) Conflict"

section \<open>Job state\<close>

definition transition_job ::
    "transfer_db \<Rightarrow> job_id \<Rightarrow> u64 \<Rightarrow> job_state_tag \<Rightarrow> (string \<times> bool) option \<Rightarrow> string
     \<Rightarrow> persistence_error + (transfer_db \<times> u64)" where
  "transition_job db j expected to error now =
     and_then (ensure (\<not> tag_is_terminal to) Conflict) (\<lambda>_.
     and_then (ensure ((to = TagFailed) = (error \<noteq> None)) Conflict) (\<lambda>_.
     case checked_add expected 1 of
       None \<Rightarrow> Inl Conflict
     | Some next_version \<Rightarrow>
         and_then (checked_i64 next_version) (\<lambda>_.
         and_then (checked_i64 expected) (\<lambda>_.
         let matches = (\<lambda>r. sj_job_id r = j \<and> sj_version r = expected
                          \<and> \<not> tag_is_terminal (sj_state r))
         in if \<not> list_ex matches (db_jobs db) then Inl Conflict
            else Inr (db\<lparr>db_jobs := update_where matches
                        (\<lambda>r. r\<lparr>sj_state := to, sj_version := next_version, sj_error := error,
                             sj_updated_at := now\<rparr>) (db_jobs db)\<rparr>,
                      next_version)))))"

definition set_desired_run_state ::
    "transfer_db \<Rightarrow> job_id \<Rightarrow> desired_run_state \<Rightarrow> string \<Rightarrow> u64 option
     \<Rightarrow> persistence_error + transfer_db" where
  "set_desired_run_state db j desired now expected =
     and_then (case expected of None \<Rightarrow> Inr () | Some v \<Rightarrow> checked_i64 v) (\<lambda>_.
     let matches = (\<lambda>r. sj_job_id r = j
                      \<and> (case expected of None \<Rightarrow> True | Some v \<Rightarrow> sj_version r = v))
     in if \<not> list_ex matches (db_jobs db) then Inl Conflict
        else Inr (db\<lparr>db_jobs := update_where matches
                    (\<lambda>r. r\<lparr>sj_desired := desired, sj_updated_at := now\<rparr>) (db_jobs db)\<rparr>))"

section \<open>The evidence ledger\<close>

definition ledger_digest ::
    "ledger_status \<Rightarrow> string option \<Rightarrow> persistence_error + string option" where
  "ledger_digest status sha =
     (if status = LedgerVerified then
        (case sha of
           None \<Rightarrow> Inl Conflict
         | Some d \<Rightarrow> (case digest_from_hex d of Inl _ \<Rightarrow> Inl Conflict | Inr _ \<Rightarrow> Inr (Some d)))
      else if sha \<noteq> None then Inl Conflict
      else Inr None)"

text \<open>The guard against the stored row; \<open>Inr True\<close> when there is nothing to write.\<close>

definition ledger_guard ::
    "ledger_row \<Rightarrow> ledger_status \<Rightarrow> u64 \<Rightarrow> string option \<Rightarrow> persistence_error + bool" where
  "ledger_guard stored status bytes digest =
     (if lg_status stored = LedgerVerified
         \<and> (status \<noteq> LedgerVerified \<or> lg_sha256 stored \<noteq> digest) then Inl Conflict
      else if bytes < lg_bytes stored then Inl Conflict
      else Inr (lg_status stored = LedgerVerified \<and> lg_sha256 stored = digest
                \<and> bytes = lg_bytes stored))"

definition update_file_ledger ::
    "transfer_db \<Rightarrow> job_id \<Rightarrow> file_id \<Rightarrow> ledger_status \<Rightarrow> u64 \<Rightarrow> string option \<Rightarrow> string
     \<Rightarrow> persistence_error + transfer_db" where
  "update_file_ledger db j fid status bytes sha now =
     (case find (\<lambda>r. fr_job_id r = j \<and> jf_file_id (fr_file r) = fid) (db_files db) of
        None \<Rightarrow> Inl NotFound
      | Some r \<Rightarrow>
          and_then (ensure (\<not> bytes > jf_size_bytes (fr_file r)) Conflict) (\<lambda>_.
          and_then (ledger_digest status sha) (\<lambda>digest.
          let matches = (\<lambda>e. lg_job_id e = j \<and> lg_file_id e = fid)
          in and_then (case find matches (db_ledger db) of
                         None \<Rightarrow> Inr False
                       | Some stored \<Rightarrow> ledger_guard stored status bytes digest) (\<lambda>done.
             if done then Inr db
             else and_then (checked_i64 bytes) (\<lambda>_.
               Inr (db\<lparr>db_ledger := update_where matches
                 (\<lambda>e. e\<lparr>lg_status := status, lg_bytes := bytes, lg_sha256 := digest,
                       lg_updated_at := now\<rparr>) (db_ledger db)\<rparr>))))))"

section \<open>Creating a job\<close>

datatype create_job_outcome = JobCreated stored_job | JobExisting stored_job

datatype create_job_error =
    RequestDigestMismatch job_id
  | JobIdCollision job_id
  | CreatePersistence persistence_error

text \<open>\<open>ORDER BY created_at DESC, job_id DESC LIMIT 1\<close>, byte by byte.\<close>

fun newest :: "stored_job list \<Rightarrow> stored_job option" where
  "newest [] = None"
| "newest (r # rs) =
     (case newest rs of
        None \<Rightarrow> Some r
      | Some b \<Rightarrow>
          if sj_created_at b < sj_created_at r
             \<or> sj_created_at b = sj_created_at r \<and> sj_job_id b < sj_job_id r
          then Some r else Some b)"

definition latest_job_by_identity :: "transfer_db \<Rightarrow> job_identity \<Rightarrow> stored_job option" where
  "latest_job_by_identity db i = newest (filter (\<lambda>r. sj_identity r = i) (db_jobs db))"

definition file_rows :: "job_id \<Rightarrow> job_spec \<Rightarrow> file_row list" where
  "file_rows j spec =
     map (\<lambda>f. \<lparr>fr_job_id = j, fr_request_index = request_position spec (jf_file_id f),
               fr_file = f\<rparr>) (js_session_files spec)"

definition ledger_rows :: "job_id \<Rightarrow> job_spec \<Rightarrow> string \<Rightarrow> ledger_row list" where
  "ledger_rows j spec now =
     map (\<lambda>f. \<lparr>lg_job_id = j, lg_file_id = jf_file_id f, lg_status = LedgerMissing, lg_bytes = 0,
               lg_sha256 = None, lg_updated_at = now\<rparr>) (requested_files spec)"

definition insert_job ::
    "(string \<Rightarrow> string) \<Rightarrow> transfer_db \<Rightarrow> job_id \<Rightarrow> job_spec \<Rightarrow> string
     \<Rightarrow> create_job_error + (transfer_db \<times> create_job_outcome)" where
  "insert_job sha256 db j spec now =
     (let identity = js_identity spec;
          key = natural_key identity;
          digest = request_digest sha256 spec
      in case latest_job_by_identity db identity of
           Some existing \<Rightarrow>
             if sj_digest existing = digest then Inr (db, JobExisting existing)
             else Inl (RequestDigestMismatch (sj_job_id existing))
         | None \<Rightarrow>
             if find_job db j \<noteq> None then Inl (JobIdCollision j)
             else if list_ex (\<lambda>r. sj_natural_key r = key) (db_jobs db)
             then Inl (CreatePersistence ConstraintViolation)
             else if \<not> list_all (\<lambda>f. fits_i64 (jf_size_bytes f)) (js_session_files spec)
             then Inl (CreatePersistence Conflict)
             else
               let row = \<lparr>sj_job_id = j, sj_kind = Download, sj_natural_key = key,
                          sj_identity = identity, sj_digest = digest, sj_state = TagQueued,
                          sj_version = 1, sj_desired = Run, sj_error = None,
                          sj_created_at = now, sj_updated_at = now, sj_dismissed_at = None\<rparr>
               in Inr (db\<lparr>db_jobs := db_jobs db @ [row],
                          db_specs := db_specs db @ [(j, spec)],
                          db_files := db_files db @ file_rows j spec,
                          db_ledger := db_ledger db @ ledger_rows j spec now\<rparr>,
                       JobCreated row))"

section \<open>Completing a job\<close>

datatype complete_job_outcome = Recorded completion_record | AlreadyRecorded completion_record

datatype complete_job_error =
    CompleteUnknownJob job_id
  | CompleteAlreadyTerminal job_id terminal_outcome terminal_outcome
  | CompletePersistence persistence_error

datatype complete_job_abort = AfterStateUpdate | AfterOutboxRow

definition insert_outbox_row ::
    "transfer_db \<Rightarrow> job_id \<Rightarrow> terminal_outcome \<Rightarrow> u64 \<Rightarrow> string
     \<Rightarrow> complete_job_error + (transfer_db \<times> completion_record)" where
  "insert_outbox_row db j ending version now =
     (case find_job db j of
        None \<Rightarrow> Inl (CompletePersistence NotFound)
      | Some job \<Rightarrow>
          if \<not> fits_i64 version then Inl (CompletePersistence Conflict)
          else if find_completion db j \<noteq> None
          then Inl (CompletePersistence ConstraintViolation)
          else
            let record = \<lparr>cr_sequence = Suc (db_sequence db), cr_job_id = j, cr_kind = sj_kind job,
                          cr_outcome = ending, cr_version = version, cr_recorded_at = now,
                          cr_acknowledged_at = None\<rparr>
            in Inr (db\<lparr>db_outbox := db_outbox db @ [record],
                       db_sequence := Suc (db_sequence db)\<rparr>, record))"

text \<open>The outcome a terminal row itself records.\<close>

definition row_outcome :: "stored_job \<Rightarrow> terminal_outcome option" where
  "row_outcome job =
     (case (sj_state job, sj_error job) of
        (TagSucceeded, _) \<Rightarrow> Some OutcomeSucceeded
      | (TagCancelled, _) \<Rightarrow> Some OutcomeCancelled
      | (TagFailed, Some (code, retryable)) \<Rightarrow> Some (OutcomeFailed code retryable)
      | _ \<Rightarrow> None)"

definition abort_completion_if ::
    "complete_job_abort option \<Rightarrow> complete_job_abort \<Rightarrow> complete_job_error + unit" where
  "abort_completion_if abort stage = ensure (abort \<noteq> Some stage) (CompletePersistence Conflict)"

definition complete_job_inner ::
    "transfer_db \<Rightarrow> job_id \<Rightarrow> terminal_outcome \<Rightarrow> string \<Rightarrow> complete_job_abort option
     \<Rightarrow> complete_job_error + (transfer_db \<times> complete_job_outcome)" where
  "complete_job_inner db j ending now abort =
     (case find_job db j of
        None \<Rightarrow> Inl (CompleteUnknownJob j)
      | Some job \<Rightarrow>
      (case find_completion db j of
        Some existing \<Rightarrow>
          if cr_outcome existing = ending then Inr (db, AlreadyRecorded existing)
          else Inl (CompleteAlreadyTerminal j (cr_outcome existing) ending)
      | None \<Rightarrow>
          if tag_is_terminal (sj_state job) then
            (case row_outcome job of
               None \<Rightarrow> Inl (CompletePersistence Corrupt)
             | Some existing \<Rightarrow>
                 if existing = ending then
                   and_then (insert_outbox_row db j ending (sj_version job) now)
                     (\<lambda>(db', record). Inr (db', Recorded record))
                 else Inl (CompleteAlreadyTerminal j existing ending))
          else
            (case checked_add (sj_version job) 1 of
               None \<Rightarrow> Inl (CompletePersistence Conflict)
             | Some next_version \<Rightarrow>
                 and_then (ensure (fits_i64 next_version) (CompletePersistence Conflict)) (\<lambda>_.
                 let db' = db\<lparr>db_jobs := update_where (\<lambda>r. sj_job_id r = j)
                             (\<lambda>r. r\<lparr>sj_state := outcome_tag ending, sj_version := next_version,
                                   sj_error := error_columns ending, sj_updated_at := now\<rparr>)
                             (db_jobs db)\<rparr>
                 in and_then (abort_completion_if abort AfterStateUpdate) (\<lambda>_.
                    and_then (insert_outbox_row db' j ending next_version now) (\<lambda>(db'', record).
                    and_then (abort_completion_if abort AfterOutboxRow) (\<lambda>_.
                    Inr (db'', Recorded record))))))))"

definition complete_job ::
    "transfer_db \<Rightarrow> job_id \<Rightarrow> terminal_outcome \<Rightarrow> string
     \<Rightarrow> complete_job_error + (transfer_db \<times> complete_job_outcome)" where
  "complete_job db j ending now = complete_job_inner db j ending now None"

datatype ack_outcome =
    Acknowledged completion_record
  | AlreadyAcknowledged completion_record
  | UnknownCompletion

definition acknowledge_completion ::
    "transfer_db \<Rightarrow> job_id \<Rightarrow> string \<Rightarrow> persistence_error + (transfer_db \<times> ack_outcome)" where
  "acknowledge_completion db j now =
     (case find_completion db j of
        None \<Rightarrow> Inr (db, UnknownCompletion)
      | Some existing \<Rightarrow>
          if is_acknowledged existing then Inr (db, AlreadyAcknowledged existing)
          else
            let db' = db\<lparr>db_outbox := update_where (\<lambda>c. cr_job_id c = j)
                        (\<lambda>c. c\<lparr>cr_acknowledged_at := Some now\<rparr>) (db_outbox db)\<rparr>
            in case find_completion db' j of
                 None \<Rightarrow> Inl NotFound
               | Some c \<Rightarrow> Inr (db', Acknowledged c))"

text \<open>\<open>ORDER BY sequence\<close>: rows are appended with growing sequence numbers.\<close>

definition pending_completions :: "transfer_db \<Rightarrow> completion_record list" where
  "pending_completions db = filter (\<lambda>c. \<not> is_acknowledged c) (db_outbox db)"

section \<open>Dismissing and deleting\<close>

datatype dismiss_job_error =
    DismissUnknownJob job_id
  | DismissNotTerminal job_id
  | DismissUnacknowledged job_id
  | DismissPendingMultipart job_id

definition blocks_dismissal :: "job_id \<Rightarrow> string option \<Rightarrow> upload_row \<Rightarrow> bool" where
  "blocks_dismissal j entry u \<longleftrightarrow>
     up_job_id u = Some j
     \<or> up_job_id u = None
        \<and> (up_transfer_key u = j
           \<or> (case entry of None \<Rightarrow> False | Some e \<Rightarrow> e \<noteq> [] \<and> up_entry_key u = Some e))"

definition dismiss_job ::
    "transfer_db \<Rightarrow> job_id \<Rightarrow> string \<Rightarrow> dismiss_job_error + (transfer_db \<times> bool)" where
  "dismiss_job db j now =
     (case find_job db j of
        None \<Rightarrow> Inl (DismissUnknownJob j)
      | Some job \<Rightarrow>
          if sj_dismissed_at job \<noteq> None then Inr (db, False)
          else if \<not> tag_is_terminal (sj_state job) then Inl (DismissNotTerminal j)
          else (case find_completion db j of
            None \<Rightarrow> Inl (DismissUnacknowledged j)
          | Some completion \<Rightarrow>
              if \<not> is_acknowledged completion then Inl (DismissUnacknowledged j)
              else if sj_kind job = Upload
                      \<and> list_ex (blocks_dismissal j (map_of (db_upload_specs db) j)) (db_uploads db)
              then Inl (DismissPendingMultipart j)
              else
                Inr (db\<lparr>db_jobs := update_where (\<lambda>r. sj_job_id r = j \<and> sj_dismissed_at r = None)
                          (\<lambda>r. r\<lparr>sj_dismissed_at := Some now, sj_updated_at := now\<rparr>)
                          (db_jobs db)\<rparr>, True)))"

text \<open>
  \<open>DELETE\<close> with the schema's cascades: everything that hangs off the job goes with it; a
  job that is a lineage parent cannot be deleted (\<open>ON DELETE RESTRICT\<close>).
\<close>

definition delete_job :: "transfer_db \<Rightarrow> job_id \<Rightarrow> persistence_error + (transfer_db \<times> bool)" where
  "delete_job db j =
     (if (case find_completion db j of None \<Rightarrow> False | Some c \<Rightarrow> \<not> is_acknowledged c)
      then Inl Conflict
      else if find_job db j \<noteq> None \<and> list_ex (\<lambda>l. ln_parent l = j) (db_lineage db)
      then Inl ConstraintViolation
      else
        Inr (if find_job db j = None then db
             else db\<lparr>db_jobs := filter (\<lambda>r. sj_job_id r \<noteq> j) (db_jobs db),
                     db_specs := filter (\<lambda>(k, _). k \<noteq> j) (db_specs db),
                     db_files := filter (\<lambda>r. fr_job_id r \<noteq> j) (db_files db),
                     db_ledger := filter (\<lambda>e. lg_job_id e \<noteq> j) (db_ledger db),
                     db_outbox := filter (\<lambda>c. cr_job_id c \<noteq> j) (db_outbox db),
                     db_lineage := filter (\<lambda>l. ln_child l \<noteq> j) (db_lineage db),
                     db_upload_specs := filter (\<lambda>(k, _). k \<noteq> j) (db_upload_specs db),
                     db_uploads := filter (\<lambda>u. up_job_id u \<noteq> Some j) (db_uploads db)\<rparr>,
             find_job db j \<noteq> None))"

section \<open>How a statement changes what a lookup returns\<close>

lemma find_update_where:
  "(\<And>r. key (f r) = key r) \<Longrightarrow>
     find (\<lambda>r. key r = j) (update_where P f rows) =
       map_option (\<lambda>r. if P r then f r else r) (find (\<lambda>r. key r = j) rows)"
  by (induction rows) (auto simp: update_where_def)

lemma map_update_where:
  "(\<And>r. key (f r) = key r) \<Longrightarrow> map key (update_where P f rows) = map key rows"
  by (simp add: update_where_def comp_def if_distrib cong: if_cong)

lemma find_filter_ne:
  "find (\<lambda>r. key r = k) (filter (\<lambda>r. key r \<noteq> j) rows) =
     (if k = j then None else find (\<lambda>r. key r = k) rows)"
  by (induction rows) auto

lemma find_key_Some_iff:
  assumes "distinct (map key rows)"
  shows "find (\<lambda>r. key r = j) rows = Some r \<longleftrightarrow> r \<in> set rows \<and> key r = j"
  using assms by (induction rows) (auto simp: image_iff)

lemma find_key_None_iff: "find (\<lambda>r. key r = j) rows = None \<longleftrightarrow> j \<notin> key ` set rows"
  by (induction rows) auto

lemma find_key_SomeD: "find (\<lambda>r. key r = j) rows = Some r \<Longrightarrow> r \<in> set rows \<and> key r = j"
  by (auto simp: find_Some_iff)

lemma find_job_id: "find_job db j = Some r \<Longrightarrow> sj_job_id r = j"
  by (auto simp: find_job_def dest: find_key_SomeD)

lemma find_completion_id: "find_completion db j = Some c \<Longrightarrow> cr_job_id c = j"
  by (auto simp: find_completion_def dest: find_key_SomeD)

text \<open>One row per job and one outbox row per job: the schema's unique keys.\<close>

definition keys_ok :: "transfer_db \<Rightarrow> bool" where
  "keys_ok db \<longleftrightarrow>
     distinct (map sj_job_id (db_jobs db)) \<and> distinct (map cr_job_id (db_outbox db))"

lemma find_job_list_ex:
  assumes "keys_ok db"
  shows "list_ex (\<lambda>r. sj_job_id r = j \<and> P r) (db_jobs db) \<longleftrightarrow>
           (\<exists>r. find_job db j = Some r \<and> P r)"
  using assms by (auto simp: keys_ok_def find_job_def find_key_Some_iff list_ex_iff)

lemma find_job_update_where:
  assumes "\<And>r. sj_job_id (f r) = sj_job_id r" and "\<And>r. P r \<Longrightarrow> sj_job_id r = j"
    and "find_job db j = Some r" and "P r"
  shows "find_job (db\<lparr>db_jobs := update_where P f (db_jobs db)\<rparr>) = (find_job db)(j \<mapsto> f r)"
proof
  fix k
  have upd: "find_job (db\<lparr>db_jobs := update_where P f (db_jobs db)\<rparr>) k =
      map_option (\<lambda>r. if P r then f r else r) (find_job db k)"
    using find_update_where [of sj_job_id f k P "db_jobs db"] assms(1) by (simp add: find_job_def)
  show "find_job (db\<lparr>db_jobs := update_where P f (db_jobs db)\<rparr>) k = ((find_job db)(j \<mapsto> f r)) k"
  proof (cases "k = j")
    case True
    then show ?thesis using upd assms(3,4) by simp
  next
    case False
    then have "\<not> P r'" if "find_job db k = Some r'" for r'
      using that assms(2) find_job_id by blast
    then show ?thesis using upd False by (cases "find_job db k") simp_all
  qed
qed

lemma transition_delta:
  assumes "keys_ok db" and "transition_job db j v to e now = Inr (db', n)"
  obtains r where "find_job db j = Some r" and "sj_version r = v"
    and "\<not> tag_is_terminal (sj_state r)" and "\<not> tag_is_terminal to" and "e = None"
    and "n = v + 1" and "unat n = unat v + 1" and "fits_i64 n"
    and "find_job db' = (find_job db)(j \<mapsto>
           r\<lparr>sj_state := to, sj_version := n, sj_error := e, sj_updated_at := now\<rparr>)"
    and "db' = db\<lparr>db_jobs := db_jobs db'\<rparr>"
    and "map sj_job_id (db_jobs db') = map sj_job_id (db_jobs db)"
    and "map sj_natural_key (db_jobs db') = map sj_natural_key (db_jobs db)"
proof -
  let ?P = "\<lambda>r. sj_version r = v \<and> \<not> tag_is_terminal (sj_state r)"
  let ?m = "\<lambda>r. sj_job_id r = j \<and> ?P r"
  let ?f = "\<lambda>r. r\<lparr>sj_state := to, sj_version := n, sj_error := e, sj_updated_at := now\<rparr>"
  have ok: "\<not> tag_is_terminal to" "(to = TagFailed) = (e \<noteq> None)" "checked_add v 1 = Some n"
    "fits_i64 n" "list_ex ?m (db_jobs db)"
    and db': "db' = db\<lparr>db_jobs := update_where ?m ?f (db_jobs db)\<rparr>"
    using assms(2)
    by (auto simp: transition_job_def Let_def checked_i64_def split: option.splits if_splits)
  from ok(5) obtain r where r: "find_job db j = Some r" "?P r"
    using find_job_list_ex [OF assms(1), of j ?P] by blast
  have "find_job db' = (find_job db)(j \<mapsto> ?f r)"
    unfolding db' by (rule find_job_update_where) (use r find_job_id in simp_all)
  moreover have "e = None" using ok(1,2) by (cases e) auto
  ultimately show thesis
    using r ok(1,4) checked_add_SomeD [OF ok(3)]
    by (intro that [of r]) (simp_all add: db' map_update_where)
qed

lemma row_outcome_terminal: "row_outcome r = Some e \<Longrightarrow> sj_state r = outcome_tag e"
  by (auto simp: row_outcome_def split: job_state_tag.splits option.splits prod.splits)

lemma row_outcome_columns:
  "sj_state r = outcome_tag e \<Longrightarrow> sj_error r = error_columns e \<Longrightarrow> row_outcome r = Some e"
  by (cases e) (simp_all add: row_outcome_def)

lemma outcome_tag_terminal [simp]: "tag_is_terminal (outcome_tag e)"
  by (cases e) simp_all

lemma find_completion_append:
  assumes "db_outbox db' = db_outbox db @ [c]"
  shows "find_completion db' j =
     (case find_completion db j of
        Some d \<Rightarrow> Some d | None \<Rightarrow> if cr_job_id c = j then Some c else None)"
proof -
  have "find P (xs @ [y]) = (case find P xs of Some d \<Rightarrow> Some d | None \<Rightarrow> if P y then Some y else None)"
    for P and xs :: "completion_record list" and y
    by (induction xs) auto
  then show ?thesis by (simp add: find_completion_def assms)
qed

lemma insert_outbox_row_Inr:
  "insert_outbox_row db j e v now = Inr (db', c) \<longleftrightarrow>
     (\<exists>job. find_job db j = Some job \<and> fits_i64 v \<and> find_completion db j = None
        \<and> c = \<lparr>cr_sequence = Suc (db_sequence db), cr_job_id = j, cr_kind = sj_kind job,
               cr_outcome = e, cr_version = v, cr_recorded_at = now, cr_acknowledged_at = None\<rparr>
        \<and> db' = db\<lparr>db_outbox := db_outbox db @ [c], db_sequence := Suc (db_sequence db)\<rparr>)"
  by (auto simp: insert_outbox_row_def Let_def split: option.splits)

lemma insert_outbox_row_lookups:
  assumes "insert_outbox_row db j e v now = Inr (db', c)"
  shows "find_completion db' = (find_completion db)(j \<mapsto> c)" and "find_job db' = find_job db"
proof -
  have "db_outbox db' = db_outbox db @ [c]" "cr_job_id c = j" "find_completion db j = None"
    using assms by (auto simp: insert_outbox_row_Inr)
  then show "find_completion db' = (find_completion db)(j \<mapsto> c)"
    using find_completion_append [of db' db c] by (auto simp: fun_eq_iff split: option.splits)
  show "find_job db' = find_job db"
    using assms by (auto simp: insert_outbox_row_Inr find_job_def)
qed

text \<open>
  What a completed transaction did: the same outcome was already recorded, or one outbox row
  was appended whose version is that of the (now) terminal job row.
\<close>

lemma complete_delta:
  assumes "keys_ok db" and "complete_job_inner db j e now ab = Inr (db', res)"
  obtains (already) c where "find_completion db j = Some c" and "cr_outcome c = e"
      and "res = AlreadyRecorded c" and "db' = db"
  | (recorded) r r' c where "find_job db j = Some r" and "find_completion db j = None"
      and "res = Recorded c" and "cr_outcome c = e" and "cr_version c = sj_version r'"
      and "cr_job_id c = j" and "cr_sequence c = Suc (db_sequence db)" and "\<not> is_acknowledged c"
      and "row_outcome r' = Some e" and "fits_i64 (sj_version r')"
      and "if tag_is_terminal (sj_state r) then r' = r
           else unat (sj_version r') = unat (sj_version r) + 1
             \<and> r' = r\<lparr>sj_state := outcome_tag e, sj_version := sj_version r + 1,
                     sj_error := error_columns e, sj_updated_at := now\<rparr>"
      and "find_job db' = (find_job db)(j \<mapsto> r')"
      and "find_completion db' = (find_completion db)(j \<mapsto> c)"
      and "db' = db\<lparr>db_jobs := db_jobs db', db_outbox := db_outbox db @ [c],
                    db_sequence := Suc (db_sequence db)\<rparr>"
      and "map sj_job_id (db_jobs db') = map sj_job_id (db_jobs db)"
      and "map sj_natural_key (db_jobs db') = map sj_natural_key (db_jobs db)"
proof (cases "find_completion db j")
  case (Some c)
  then show ?thesis
    using assms(2) by (intro already [of c]) (auto simp: complete_job_inner_def split: option.splits if_splits)
next
  case None
  obtain r where r: "find_job db j = Some r"
    using assms(2) by (auto simp: complete_job_inner_def split: option.splits)
  show ?thesis
  proof (cases "tag_is_terminal (sj_state r)")
    case True
    then obtain c where out: "row_outcome r = Some e" and res: "res = Recorded c"
      and ins: "insert_outbox_row db j e (sj_version r) now = Inr (db', c)"
      using assms(2) r None by (auto simp: complete_job_inner_def split: option.splits if_splits)
    show ?thesis
      using ins None True out res r insert_outbox_row_lookups [OF ins]
      by (intro recorded [of r c r]) (auto simp: insert_outbox_row_Inr is_acknowledged_def fun_upd_idem)
  next
    case False
    let ?db = "\<lambda>n. db\<lparr>db_jobs := update_where (\<lambda>r. sj_job_id r = j)
        (\<lambda>r. r\<lparr>sj_state := outcome_tag e, sj_version := n, sj_error := error_columns e,
              sj_updated_at := now\<rparr>) (db_jobs db)\<rparr>"
    obtain n c where n: "checked_add (sj_version r) 1 = Some n" "fits_i64 n" and res: "res = Recorded c"
      and ins: "insert_outbox_row (?db n) j e n now = Inr (db', c)"
      using assms(2) r None False
      by (auto simp: complete_job_inner_def Let_def split: option.splits)
    have nv: "n = sj_version r + 1" "unat n = unat (sj_version r) + 1"
      using checked_add_SomeD [OF n(1)] by simp_all
    let ?r = "r\<lparr>sj_state := outcome_tag e, sj_version := n, sj_error := error_columns e,
              sj_updated_at := now\<rparr>"
    have job: "find_job (?db n) = (find_job db)(j \<mapsto> ?r)"
      by (rule find_job_update_where) (use r find_job_id in simp_all)
    have comp: "find_completion (?db n) = find_completion db"
      by (simp add: fun_eq_iff find_completion_def)
    have "find_completion db' = (find_completion db)(j \<mapsto> c)"
      and "find_job db' = (find_job db)(j \<mapsto> ?r)"
      using insert_outbox_row_lookups [OF ins] job comp by simp_all
    then show ?thesis
      using ins None False res r n(2) nv
      by (intro recorded [of r c ?r])
         (auto simp: insert_outbox_row_Inr is_acknowledged_def row_outcome_columns map_update_where)
  qed
qed

section \<open>The store's invariant\<close>

definition job_row_ok :: "stored_job \<Rightarrow> bool" where
  "job_row_ok r \<longleftrightarrow>
     (sj_state r = TagFailed) = (sj_error r \<noteq> None)
     \<and> 1 \<le> unat (sj_version r) \<and> fits_i64 (sj_version r)"

text \<open>An outbox row is the terminal outcome of its job, at the very version of the row.\<close>

definition outbox_ok :: "transfer_db \<Rightarrow> bool" where
  "outbox_ok db \<longleftrightarrow>
     (\<forall>j c. find_completion db j = Some c \<longrightarrow>
        (\<exists>r. find_job db j = Some r \<and> sj_version r = cr_version c
             \<and> row_outcome r = Some (cr_outcome c)))"

definition sequence_ok :: "transfer_db \<Rightarrow> bool" where
  "sequence_ok db \<longleftrightarrow>
     sorted_wrt (<) (map cr_sequence (db_outbox db))
     \<and> (\<forall>c\<in>set (db_outbox db). cr_sequence c \<le> db_sequence db)"

definition store_ok :: "transfer_db \<Rightarrow> bool" where
  "store_ok db \<longleftrightarrow>
     keys_ok db \<and> (\<forall>j r. find_job db j = Some r \<longrightarrow> job_row_ok r) \<and> outbox_ok db \<and> sequence_ok db"

lemma store_okI:
  assumes "keys_ok db" "\<And>j r. find_job db j = Some r \<Longrightarrow> job_row_ok r"
    "\<And>j c. find_completion db j = Some c \<Longrightarrow>
       \<exists>r. find_job db j = Some r \<and> sj_version r = cr_version c \<and> row_outcome r = Some (cr_outcome c)"
    "sequence_ok db"
  shows "store_ok db"
  using assms by (simp add: store_ok_def outbox_ok_def)

lemma store_okD:
  assumes "store_ok db"
  shows "keys_ok db" and "sequence_ok db"
    and "find_job db j = Some r \<Longrightarrow> job_row_ok r"
    and "find_completion db j = Some c \<Longrightarrow>
       \<exists>r. find_job db j = Some r \<and> sj_version r = cr_version c \<and> row_outcome r = Some (cr_outcome c)"
  using assms by (auto simp: store_ok_def outbox_ok_def)

lemma completed_terminal:
  assumes "store_ok db" "find_completion db j = Some c" "find_job db j = Some r"
  shows "tag_is_terminal (sj_state r)"
  using store_okD(4) [OF assms(1,2)] assms(3) row_outcome_terminal by fastforce

lemma find_completion_cong:
  "db_outbox db' = db_outbox db \<Longrightarrow> find_completion db' = find_completion db"
  by (simp add: fun_eq_iff find_completion_def)

lemma find_job_cong: "db_jobs db' = db_jobs db \<Longrightarrow> find_job db' = find_job db"
  by (simp add: fun_eq_iff find_job_def)

lemma store_ok_empty: "store_ok empty_db"
  by (simp add: store_ok_def keys_ok_def outbox_ok_def sequence_ok_def empty_db_def find_job_def
      find_completion_def)

lemma transition_store_ok:
  assumes ok: "store_ok db" and step: "transition_job db j v to e now = Inr (db', n)"
  shows "store_ok db'"
proof (rule transition_delta [OF store_okD(1) [OF ok] step])
  fix r :: stored_job
  let ?r = "r\<lparr>sj_state := to, sj_version := n, sj_error := e, sj_updated_at := now\<rparr>"
  assume r: "find_job db j = Some r" "sj_version r = v" "\<not> tag_is_terminal (sj_state r)"
    and new: "\<not> tag_is_terminal to" "e = None" "unat n = unat v + 1" "fits_i64 n"
    and job: "find_job db' = (find_job db)(j \<mapsto> ?r)"
    and db': "db' = db\<lparr>db_jobs := db_jobs db'\<rparr>"
    and ids: "map sj_job_id (db_jobs db') = map sj_job_id (db_jobs db)"
  have out: "db_outbox db' = db_outbox db" "db_sequence db' = db_sequence db"
    by (subst db', simp)+
  have comp: "find_completion db' = find_completion db"
    by (rule find_completion_cong [OF out(1)])
  have "job_row_ok ?r"
    using new by (cases to) (simp_all add: job_row_ok_def)
  then show ?thesis
    using store_okD [OF ok] completed_terminal [OF ok] r job comp out ids
    by (intro store_okI) (fastforce simp: keys_ok_def sequence_ok_def split: if_splits)+
qed

lemma set_desired_delta:
  assumes "keys_ok db" and "set_desired_run_state db j d now v = Inr db'"
  obtains r where "find_job db j = Some r" and "v = None \<or> v = Some (sj_version r)"
    and "find_job db' = (find_job db)(j \<mapsto> r\<lparr>sj_desired := d, sj_updated_at := now\<rparr>)"
    and "db' = db\<lparr>db_jobs := db_jobs db'\<rparr>"
    and "map sj_job_id (db_jobs db') = map sj_job_id (db_jobs db)"
    and "map sj_natural_key (db_jobs db') = map sj_natural_key (db_jobs db)"
proof -
  let ?P = "\<lambda>r. case v of None \<Rightarrow> True | Some v \<Rightarrow> sj_version r = v"
  let ?m = "\<lambda>r. sj_job_id r = j \<and> ?P r"
  let ?f = "\<lambda>r. r\<lparr>sj_desired := d, sj_updated_at := now\<rparr>"
  have ex: "list_ex ?m (db_jobs db)"
    and db': "db' = db\<lparr>db_jobs := update_where ?m ?f (db_jobs db)\<rparr>"
    using assms(2) by (auto simp: set_desired_run_state_def Let_def split: if_split_asm)
  from ex obtain r where r: "find_job db j = Some r" "?P r"
    using find_job_list_ex [OF assms(1), of j ?P] by blast
  have "find_job db' = (find_job db)(j \<mapsto> ?f r)"
    unfolding db' by (rule find_job_update_where) (use r find_job_id in simp_all)
  then show thesis
    using r by (intro that [of r]) (auto simp: db' map_update_where split: option.splits)
qed

lemma set_desired_store_ok:
  assumes ok: "store_ok db" and step: "set_desired_run_state db j d now v = Inr db'"
  shows "store_ok db'"
proof (rule set_desired_delta [OF store_okD(1) [OF ok] step])
  fix r :: stored_job
  let ?r = "r\<lparr>sj_desired := d, sj_updated_at := now\<rparr>"
  assume r: "find_job db j = Some r" and job: "find_job db' = (find_job db)(j \<mapsto> ?r)"
    and db': "db' = db\<lparr>db_jobs := db_jobs db'\<rparr>"
    and ids: "map sj_job_id (db_jobs db') = map sj_job_id (db_jobs db)"
  have out: "db_outbox db' = db_outbox db" "db_sequence db' = db_sequence db"
    by (subst db', simp)+
  have comp: "find_completion db' = find_completion db"
    by (rule find_completion_cong [OF out(1)])
  have "job_row_ok ?r" "row_outcome ?r = row_outcome r"
    using store_okD(3) [OF ok r] by (simp_all add: job_row_ok_def row_outcome_def)
  then show ?thesis
    using store_okD [OF ok] r job comp out ids
    by (intro store_okI) (fastforce simp: keys_ok_def sequence_ok_def split: if_splits)+
qed

lemma complete_store_ok:
  assumes ok: "store_ok db" and step: "complete_job_inner db j e now ab = Inr (db', res)"
  shows "store_ok db'"
  using store_okD(1) [OF ok] step
proof (cases rule: complete_delta)
  case (recorded r r' c)
  have row: "job_row_ok r'"
  proof (cases "tag_is_terminal (sj_state r)")
    case True
    then show ?thesis using recorded store_okD(3) [OF ok] by simp
  next
    case False
    then show ?thesis
      using recorded(10,11) by (cases e) (auto simp: job_row_ok_def)
  qed
  have out: "db_outbox db' = db_outbox db @ [c]" "db_sequence db' = Suc (db_sequence db)"
    by (subst recorded(14), simp)+
  have "cr_job_id c \<notin> cr_job_id ` set (db_outbox db)"
    using recorded(2,6) by (simp add: find_completion_def find_key_None_iff)
  then have "keys_ok db'" "sequence_ok db'"
    using store_okD(1,2) [OF ok] recorded(7,15) out
    by (auto simp: keys_ok_def sequence_ok_def sorted_wrt_append less_Suc_eq_le le_Suc_eq)
  then show ?thesis
    using store_okD(3,4) [OF ok] recorded(2,4,5,9,12,13) row
    by (intro store_okI) (auto split: if_splits)
qed (use ok in simp)

lemma insert_job_delta:
  assumes "insert_job sha db j spec now = Inr (db', res)"
  obtains (existing) r where "latest_job_by_identity db (js_identity spec) = Some r"
      and "sj_digest r = request_digest sha spec" and "res = JobExisting r" and "db' = db"
  | (created) r where "latest_job_by_identity db (js_identity spec) = None"
      and "find_job db j = None" and "res = JobCreated r" and "sj_job_id r = j"
      and "sj_identity r = js_identity spec" and "sj_natural_key r = natural_key (js_identity spec)"
      and "sj_digest r = request_digest sha spec" and "sj_kind r = Download"
      and "sj_state r = TagQueued" and "sj_version r = 1" and "sj_error r = None"
      and "db' = db\<lparr>db_jobs := db_jobs db @ [r], db_specs := db_specs db @ [(j, spec)],
              db_files := db_files db @ file_rows j spec,
              db_ledger := db_ledger db @ ledger_rows j spec now\<rparr>"
      and "find_job db' = (find_job db)(j \<mapsto> r)"
proof (cases "latest_job_by_identity db (js_identity spec)")
  case (Some r)
  with assms show ?thesis
    by (intro existing) (auto simp: insert_job_def Let_def split: if_splits)
next
  case None
  have app: "find P (xs @ [y]) = (case find P xs of Some d \<Rightarrow> Some d | None \<Rightarrow> if P y then Some y else None)"
    for P and xs :: "stored_job list" and y
    by (induction xs) auto
  from assms None show ?thesis
    by (intro created)
       (auto simp: insert_job_def Let_def find_job_def fun_eq_iff app split: if_splits option.splits)
qed

lemma insert_job_store_ok:
  assumes ok: "store_ok db" and step: "insert_job sha db j spec now = Inr (db', res)"
  shows "store_ok db'"
  using step
proof (cases rule: insert_job_delta)
  case (created r)
  have out: "db_outbox db' = db_outbox db" "db_sequence db' = db_sequence db"
    "db_jobs db' = db_jobs db @ [r]"
    using created(12) by simp_all
  have comp: "find_completion db' = find_completion db"
    by (rule find_completion_cong [OF out(1)])
  have row: "job_row_ok r"
    using created(9-11) by (simp add: job_row_ok_def fits_i64_def)
  have keep: "find_job db i = Some x \<Longrightarrow> find_job db' i = Some x" for i x
    using created(2,13) by (cases "i = j") auto
  show ?thesis
  proof (rule store_okI)
    show "keys_ok db'" "sequence_ok db'"
      using store_okD(1,2) [OF ok] out created(2,4)
      by (auto simp: keys_ok_def sequence_ok_def find_job_def find_key_None_iff)
    show "job_row_ok x" if "find_job db' i = Some x" for i x
      using that created(13) row store_okD(3) [OF ok] by (cases "i = j") auto
    show "\<exists>x. find_job db' i = Some x \<and> sj_version x = cr_version c
        \<and> row_outcome x = Some (cr_outcome c)" if "find_completion db' i = Some c" for i c
    proof -
      have "find_completion db i = Some c" using that comp by simp
      from store_okD(4) [OF ok this] show ?thesis using keep by blast
    qed
  qed
qed (use ok in simp)

lemma ack_delta:
  assumes "keys_ok db" and "acknowledge_completion db j now = Inr (db', res)"
  obtains (unchanged) "db' = db" and
      "res = UnknownCompletion \<and> find_completion db j = None
       \<or> (\<exists>c. res = AlreadyAcknowledged c \<and> find_completion db j = Some c \<and> is_acknowledged c)"
  | (stamped) c where "find_completion db j = Some c" and "\<not> is_acknowledged c"
      and "res = Acknowledged (c\<lparr>cr_acknowledged_at := Some now\<rparr>)"
      and "find_completion db' = (find_completion db)(j \<mapsto> c\<lparr>cr_acknowledged_at := Some now\<rparr>)"
      and "db' = db\<lparr>db_outbox := db_outbox db'\<rparr>"
      and "map cr_job_id (db_outbox db') = map cr_job_id (db_outbox db)"
      and "map cr_sequence (db_outbox db') = map cr_sequence (db_outbox db)"
proof (cases "find_completion db j")
  case None
  with assms(2) show ?thesis by (intro unchanged) (auto simp: acknowledge_completion_def)
next
  case (Some c)
  show ?thesis
  proof (cases "is_acknowledged c")
    case True
    with Some assms(2) show ?thesis by (intro unchanged) (auto simp: acknowledge_completion_def)
  next
    case False
    let ?f = "\<lambda>c. c\<lparr>cr_acknowledged_at := Some now\<rparr>"
    let ?db = "db\<lparr>db_outbox := update_where (\<lambda>c. cr_job_id c = j) ?f (db_outbox db)\<rparr>"
    have look: "find_completion ?db k =
        map_option (\<lambda>c. if cr_job_id c = j then ?f c else c) (find_completion db k)" for k
      by (simp add: find_completion_def find_update_where)
    have "find_completion ?db = (find_completion db)(j \<mapsto> ?f c)"
    proof
      fix k
      show "find_completion ?db k = ((find_completion db)(j \<mapsto> ?f c)) k"
      proof (cases "find_completion db k")
        case None
        then show ?thesis using look [of k] Some by auto
      next
        case (Some d)
        then show ?thesis
          using look [of k] \<open>find_completion db j = Some c\<close> find_completion_id [OF Some] by auto
      qed
    qed
    with Some False assms(2) show ?thesis
      by (intro stamped [of c])
         (auto simp: acknowledge_completion_def Let_def map_update_where)
  qed
qed

lemma ack_store_ok:
  assumes ok: "store_ok db" and step: "acknowledge_completion db j now = Inr (db', res)"
  shows "store_ok db'"
  using store_okD(1) [OF ok] step
proof (cases rule: ack_delta)
  case (stamped c)
  have out: "db_jobs db' = db_jobs db" "db_sequence db' = db_sequence db"
    by (subst stamped(5), simp)+
  have job: "find_job db' = find_job db"
    by (rule find_job_cong [OF out(1)])
  have "cr_sequence c' \<le> db_sequence db" if "c' \<in> set (db_outbox db')" for c'
  proof -
    have "cr_sequence c' \<in> set (map cr_sequence (db_outbox db'))" using that by simp
    then show ?thesis
      using store_okD(2) [OF ok] unfolding stamped(7) sequence_ok_def by auto
  qed
  then have "keys_ok db'" "sequence_ok db'"
    using store_okD(1,2) [OF ok] stamped(6,7) out by (auto simp: keys_ok_def sequence_ok_def)
  then show ?thesis
    using store_okD(3,4) [OF ok] stamped(1,4) job
    by (intro store_okI) (auto split: if_splits)
qed (use ok in simp)

lemma dismiss_delta:
  assumes "keys_ok db" and "dismiss_job db j now = Inr (db', res)"
  obtains (unchanged) "db' = db" and "\<not> res"
  | (dismissed) r c where "find_job db j = Some r" and "sj_dismissed_at r = None" and "res"
      and "tag_is_terminal (sj_state r)" and "find_completion db j = Some c" and "is_acknowledged c"
      and "find_job db' = (find_job db)(j \<mapsto> r\<lparr>sj_dismissed_at := Some now, sj_updated_at := now\<rparr>)"
      and "db' = db\<lparr>db_jobs := db_jobs db'\<rparr>"
      and "map sj_job_id (db_jobs db') = map sj_job_id (db_jobs db)"
proof (cases res)
  case False
  with assms(2) show ?thesis
    by (intro unchanged) (auto simp: dismiss_job_def split: option.splits if_splits)
next
  case True
  let ?m = "\<lambda>r. sj_job_id r = j \<and> sj_dismissed_at r = None"
  let ?f = "\<lambda>r. r\<lparr>sj_dismissed_at := Some now, sj_updated_at := now\<rparr>"
  from True obtain r c where r: "find_job db j = Some r" "sj_dismissed_at r = None"
      "tag_is_terminal (sj_state r)" "find_completion db j = Some c" "is_acknowledged c"
    and db': "db' = db\<lparr>db_jobs := update_where ?m ?f (db_jobs db)\<rparr>"
    using assms(2) by (auto simp: dismiss_job_def split: option.splits if_splits)
  have "find_job db' = (find_job db)(j \<mapsto> ?f r)"
    unfolding db' by (rule find_job_update_where) (use r find_job_id in simp_all)
  then show ?thesis
    using r True by (intro dismissed [of r c]) (auto simp: db' map_update_where)
qed

lemma dismiss_store_ok:
  assumes ok: "store_ok db" and step: "dismiss_job db j now = Inr (db', res)"
  shows "store_ok db'"
  using store_okD(1) [OF ok] step
proof (cases rule: dismiss_delta)
  case (dismissed r c)
  have out: "db_outbox db' = db_outbox db" "db_sequence db' = db_sequence db"
    by (subst dismissed(8), simp)+
  have comp: "find_completion db' = find_completion db"
    by (rule find_completion_cong [OF out(1)])
  let ?r = "r\<lparr>sj_dismissed_at := Some now, sj_updated_at := now\<rparr>"
  have "job_row_ok ?r" "row_outcome ?r = row_outcome r"
    using store_okD(3) [OF ok dismissed(1)] by (simp_all add: job_row_ok_def row_outcome_def)
  then show ?thesis
    using store_okD [OF ok] dismissed(1,7,9) comp out
    by (intro store_okI) (fastforce simp: keys_ok_def sequence_ok_def split: if_splits)+
qed (use ok in simp)

lemma delete_delta:
  assumes "delete_job db j = Inr (db', res)"
  obtains (unchanged) "find_job db j = None" and "db' = db" and "\<not> res"
  | (deleted) "find_job db j \<noteq> None" and "res"
      and "\<And>c. find_completion db j = Some c \<Longrightarrow> is_acknowledged c"
      and "find_job db' = (find_job db)(j := None)"
      and "find_completion db' = (find_completion db)(j := None)"
      and "db_jobs db' = filter (\<lambda>r. sj_job_id r \<noteq> j) (db_jobs db)"
      and "db_outbox db' = filter (\<lambda>c. cr_job_id c \<noteq> j) (db_outbox db)"
      and "db_sequence db' = db_sequence db"
proof (cases "find_job db j = None")
  case True
  with assms show ?thesis by (intro unchanged) (auto simp: delete_job_def split: if_splits)
next
  case False
  with assms show ?thesis
    by (intro deleted)
       (auto simp: delete_job_def fun_eq_iff find_job_def find_completion_def
          find_filter_ne [where key = sj_job_id] find_filter_ne [where key = cr_job_id]
          split: if_splits option.splits)
qed

lemma delete_store_ok:
  assumes ok: "store_ok db" and step: "delete_job db j = Inr (db', res)"
  shows "store_ok db'"
  using step
proof (cases rule: delete_delta)
  case deleted
  have "keys_ok db'" "sequence_ok db'"
    using store_okD(1,2) [OF ok] deleted(6-8)
    by (auto simp: keys_ok_def sequence_ok_def distinct_map_filter sorted_wrt_map sorted_wrt_filter)
  then show ?thesis
    using store_okD(3,4) [OF ok] deleted(4,5)
    by (intro store_okI) (auto split: if_splits)
qed (use ok in simp)

lemma ledger_other_tables:
  assumes "update_file_ledger db j fid st b sha now = Inr db'"
  shows "db' = db\<lparr>db_ledger := db_ledger db'\<rparr>"
  using assms by (auto simp: update_file_ledger_def Let_def split: option.splits if_splits)

lemma ledger_store_ok:
  assumes ok: "store_ok db" and step: "update_file_ledger db j fid st b sha now = Inr db'"
  shows "store_ok db'"
proof -
  have same: "db_jobs db' = db_jobs db" "db_outbox db' = db_outbox db" "db_sequence db' = db_sequence db"
    by (subst ledger_other_tables [OF step], simp)+
  then show ?thesis
    using ok find_job_cong [OF same(1)] find_completion_cong [OF same(2)]
    by (simp add: store_ok_def keys_ok_def outbox_ok_def sequence_ok_def)
qed

end
