(* ===== verification/Transfer_History.thy ===== *)
theory Transfer_History
  imports Transfer_Store
begin

text \<open>
  Histories of the durable store: any sequence of its operations, each either committed or
  refused with the database left alone. The invariants that hold along every history, and
  what survives it: terminal rows, recorded outcomes, ledger evidence.
\<close>

section \<open>Histories\<close>

datatype store_op =
    OpCreate job_id job_spec string
  | OpTransition job_id u64 job_state_tag "(string \<times> bool) option" string
  | OpSetDesired job_id desired_run_state string "u64 option"
  | OpLedger job_id file_id ledger_status u64 "string option" string
  | OpComplete job_id terminal_outcome string "complete_job_abort option"
  | OpAck job_id string
  | OpDismiss job_id string
  | OpDelete job_id

text \<open>A transaction that returns an error is rolled back.\<close>

fun committed :: "transfer_db \<Rightarrow> 'e + (transfer_db \<times> 'a) \<Rightarrow> transfer_db" where
  "committed db (Inl e) = db"
| "committed db (Inr (db', x)) = db'"

fun store_apply :: "(string \<Rightarrow> string) \<Rightarrow> transfer_db \<Rightarrow> store_op \<Rightarrow> transfer_db" where
  "store_apply sha db (OpCreate j spec now) = committed db (insert_job sha db j spec now)"
| "store_apply sha db (OpTransition j v to e now) = committed db (transition_job db j v to e now)"
| "store_apply sha db (OpSetDesired j d now v) =
     (case set_desired_run_state db j d now v of Inl _ \<Rightarrow> db | Inr db' \<Rightarrow> db')"
| "store_apply sha db (OpLedger j f st b d now) =
     (case update_file_ledger db j f st b d now of Inl _ \<Rightarrow> db | Inr db' \<Rightarrow> db')"
| "store_apply sha db (OpComplete j e now ab) = committed db (complete_job_inner db j e now ab)"
| "store_apply sha db (OpAck j now) = committed db (acknowledge_completion db j now)"
| "store_apply sha db (OpDismiss j now) = committed db (dismiss_job db j now)"
| "store_apply sha db (OpDelete j) = committed db (delete_job db j)"

definition run_store :: "(string \<Rightarrow> string) \<Rightarrow> transfer_db \<Rightarrow> store_op list \<Rightarrow> transfer_db" where
  "run_store sha = foldl (store_apply sha)"

lemma run_store_simps [simp]:
  "run_store sha db [] = db"
  "run_store sha db (x # xs) = run_store sha (store_apply sha db x) xs"
  by (simp_all add: run_store_def)

lemma committed_cases:
  "P db \<Longrightarrow> (\<And>db' x. r = Inr (db', x) \<Longrightarrow> P db') \<Longrightarrow> P (committed db r)"
  by (cases "(db, r)" rule: committed.cases) auto

lemma store_apply_ok:
  assumes "store_ok db"
  shows "store_ok (store_apply sha db x)"
proof -
  show ?thesis
  proof (cases x)
    case OpCreate
    then show ?thesis using insert_job_store_ok [OF assms]
      by (auto intro: committed_cases [where P = store_ok] assms)
  next
    case OpTransition
    then show ?thesis using transition_store_ok [OF assms]
      by (auto intro: committed_cases [where P = store_ok] assms)
  next
    case OpSetDesired
    then show ?thesis using set_desired_store_ok [OF assms] assms by (auto split: sum.splits)
  next
    case OpLedger
    then show ?thesis using ledger_store_ok [OF assms] assms by (auto split: sum.splits)
  next
    case OpComplete
    then show ?thesis using complete_store_ok [OF assms]
      by (auto intro: committed_cases [where P = store_ok] assms)
  next
    case OpAck
    then show ?thesis using ack_store_ok [OF assms]
      by (auto intro: committed_cases [where P = store_ok] assms)
  next
    case OpDismiss
    then show ?thesis using dismiss_store_ok [OF assms]
      by (auto intro: committed_cases [where P = store_ok] assms)
  next
    case OpDelete
    then show ?thesis using delete_store_ok [OF assms]
      by (auto intro: committed_cases [where P = store_ok] assms)
  qed
qed

lemma run_store_ok: "store_ok db \<Longrightarrow> store_ok (run_store sha db xs)"
  by (induction xs arbitrary: db) (auto simp: store_apply_ok)

section \<open>What one operation keeps\<close>

text \<open>A row is later the same job, no older; a terminal one keeps state, version and error.\<close>

definition row_later :: "stored_job \<Rightarrow> stored_job \<Rightarrow> bool" where
  "row_later r r' \<longleftrightarrow>
     unat (sj_version r) \<le> unat (sj_version r') \<and> sj_identity r' = sj_identity r
     \<and> sj_digest r' = sj_digest r
     \<and> (tag_is_terminal (sj_state r) \<longrightarrow>
          sj_state r' = sj_state r \<and> sj_version r' = sj_version r \<and> sj_error r' = sj_error r)"

lemma row_later_refl [simp]: "row_later r r"
  by (simp add: row_later_def)

lemma row_later_trans: "row_later r s \<Longrightarrow> row_later s t \<Longrightarrow> row_later r t"
  by (auto simp: row_later_def)

text \<open>An outbox row is later the same fact, possibly acknowledged since.\<close>

definition fact_later :: "completion_record \<Rightarrow> completion_record \<Rightarrow> bool" where
  "fact_later c c' \<longleftrightarrow>
     c'\<lparr>cr_acknowledged_at := None\<rparr> = c\<lparr>cr_acknowledged_at := None\<rparr>
     \<and> (is_acknowledged c \<longrightarrow> c' = c)"

lemma fact_later_refl [simp]: "fact_later c c"
  by (simp add: fact_later_def)

lemma fact_later_trans: "fact_later c d \<Longrightarrow> fact_later d e \<Longrightarrow> fact_later c e"
  by (auto simp: fact_later_def)

lemma apply_row_later:
  assumes ok: "store_ok db" and job: "find_job db j = Some r" and op: "x \<noteq> OpDelete j"
  shows "\<exists>r'. find_job (store_apply sha db x) j = Some r' \<and> row_later r r'"
proof (cases x)
  case (OpCreate k spec now)
  show ?thesis
    unfolding OpCreate store_apply.simps
  proof (rule committed_cases)
    fix db' y assume "insert_job sha db k spec now = Inr (db', y)"
    then show "\<exists>r'. find_job db' j = Some r' \<and> row_later r r'"
      by (cases rule: insert_job_delta) (use job in \<open>auto intro: row_later_refl\<close>)
  qed (use job in simp)
next
  case (OpTransition k v to e now)
  show ?thesis
    unfolding OpTransition store_apply.simps
  proof (rule committed_cases)
    fix db' y assume "transition_job db k v to e now = Inr (db', y)"
    show "\<exists>r'. find_job db' j = Some r' \<and> row_later r r'"
      by (rule transition_delta [OF store_okD(1) [OF ok] \<open>transition_job db k v to e now = Inr (db', y)\<close>],
          cases "j = k") (use job in \<open>auto simp: row_later_def\<close>)
  qed (use job in simp)
next
  case (OpSetDesired k d now v)
  show ?thesis
  proof (cases "set_desired_run_state db k d now v")
    case (Inr db')
    show ?thesis
      by (rule set_desired_delta [OF store_okD(1) [OF ok] Inr], cases "j = k")
         (use job Inr OpSetDesired in \<open>auto simp: row_later_def\<close>)
  qed (use job OpSetDesired in simp)
next
  case (OpLedger k f st b d now)
  show ?thesis
  proof (cases "update_file_ledger db k f st b d now")
    case (Inr db')
    have "db_jobs db' = db_jobs db" by (subst ledger_other_tables [OF Inr]) simp
    from find_job_cong [OF this] show ?thesis using Inr OpLedger job by simp
  qed (use job OpLedger in simp)
next
  case (OpComplete k e now ab)
  show ?thesis
    unfolding OpComplete store_apply.simps
  proof (rule committed_cases)
    fix db' y assume step: "complete_job_inner db k e now ab = Inr (db', y)"
    from store_okD(1) [OF ok] step show "\<exists>r'. find_job db' j = Some r' \<and> row_later r r'"
    proof (cases rule: complete_delta)
      case (recorded s s' c)
      show ?thesis
      proof (cases "j = k")
        case True
        then show ?thesis
          using recorded(1,11,12) job by (auto simp: row_later_def split: if_splits)
      qed (use recorded(12) job in simp)
    qed (use job in simp)
  qed (use job in simp)
next
  case (OpAck k now)
  show ?thesis
    unfolding OpAck store_apply.simps
  proof (rule committed_cases)
    fix db' y assume step: "acknowledge_completion db k now = Inr (db', y)"
    from store_okD(1) [OF ok] step show "\<exists>r'. find_job db' j = Some r' \<and> row_later r r'"
    proof (cases rule: ack_delta)
      case (stamped c)
      have "db_jobs db' = db_jobs db" by (subst stamped(5)) simp
      from find_job_cong [OF this] show ?thesis using job by simp
    qed (use job in simp)
  qed (use job in simp)
next
  case (OpDismiss k now)
  show ?thesis
    unfolding OpDismiss store_apply.simps
  proof (rule committed_cases)
    fix db' y assume step: "dismiss_job db k now = Inr (db', y)"
    from store_okD(1) [OF ok] step show "\<exists>r'. find_job db' j = Some r' \<and> row_later r r'"
    proof (cases rule: dismiss_delta)
      case (dismissed s c)
      then show ?thesis
        using job by (cases "j = k") (simp_all add: row_later_def)
    qed (use job in simp)
  qed (use job in simp)
next
  case (OpDelete k)
  show ?thesis
    unfolding OpDelete store_apply.simps
  proof (rule committed_cases)
    fix db' y assume "delete_job db k = Inr (db', y)"
    then show "\<exists>r'. find_job db' j = Some r' \<and> row_later r r'"
      by (cases rule: delete_delta) (use job op OpDelete in auto)
  qed (use job in simp)
qed

text \<open>
  An outbox row stays what it is under every operation, except that an acknowledgement may
  stamp it and, once stamped, a deletion of its job may remove it.
\<close>

definition fact_kept :: "store_op \<Rightarrow> job_id \<Rightarrow> completion_record \<Rightarrow> transfer_db \<Rightarrow> bool" where
  "fact_kept x j c db' \<longleftrightarrow>
     find_completion db' j = Some c
     \<or> (\<exists>now. x = OpAck j now \<and> \<not> is_acknowledged c
          \<and> find_completion db' j = Some (c\<lparr>cr_acknowledged_at := Some now\<rparr>))
     \<or> x = OpDelete j \<and> is_acknowledged c"

lemma fact_kept_same_outbox:
  "find_completion db j = Some c \<Longrightarrow> db_outbox db' = db_outbox db \<Longrightarrow> fact_kept x j c db'"
  by (simp add: fact_kept_def find_completion_def)

lemma apply_fact_kept:
  assumes ok: "store_ok db" and fact: "find_completion db j = Some c"
  shows "fact_kept x j c (store_apply sha db x)"
proof -
  note same = fact_kept_same_outbox [OF fact]
  have none: "fact_kept x j c db" by (rule same) simp
  show ?thesis
  proof (cases x)
    case (OpCreate k spec now)
    show ?thesis
      unfolding OpCreate store_apply.simps
    proof (rule committed_cases)
      fix db' y assume "insert_job sha db k spec now = Inr (db', y)"
      then show "fact_kept (OpCreate k spec now) j c db'"
        by (cases rule: insert_job_delta) (auto intro: same)
    qed (rule same, simp)
  next
    case (OpTransition k v to e now)
    show ?thesis
      unfolding OpTransition store_apply.simps
    proof (rule committed_cases)
      fix db' y assume "transition_job db k v to e now = Inr (db', y)"
      then have "db_outbox db' = db_outbox db"
        by (auto simp: transition_job_def Let_def split: option.splits if_splits)
      then show "fact_kept (OpTransition k v to e now) j c db'" by (rule same)
    qed (rule same, simp)
  next
    case (OpSetDesired k d now v)
    show ?thesis
    proof (cases "set_desired_run_state db k d now v")
      case (Inr db')
      have "db_outbox db' = db_outbox db"
        using Inr by (auto simp: set_desired_run_state_def Let_def split: if_splits)
      then show ?thesis using Inr OpSetDesired same by simp
    qed (use none OpSetDesired in simp)
  next
    case (OpLedger k f st b d now)
    show ?thesis
    proof (cases "update_file_ledger db k f st b d now")
      case (Inr db')
      have "db_outbox db' = db_outbox db" by (subst ledger_other_tables [OF Inr]) simp
      then show ?thesis using Inr OpLedger same by simp
    qed (use none OpLedger in simp)
  next
    case (OpComplete k e now ab)
    show ?thesis
      unfolding OpComplete store_apply.simps
    proof (rule committed_cases)
      fix db' y assume step: "complete_job_inner db k e now ab = Inr (db', y)"
      from store_okD(1) [OF ok] step show "fact_kept (OpComplete k e now ab) j c db'"
      proof (cases rule: complete_delta)
        case (recorded s s' d)
        then show ?thesis using fact by (auto simp: fact_kept_def)
      qed (auto intro: same)
    qed (rule same, simp)
  next
    case (OpAck k now)
    show ?thesis
      unfolding OpAck store_apply.simps
    proof (rule committed_cases)
      fix db' y assume step: "acknowledge_completion db k now = Inr (db', y)"
      from store_okD(1) [OF ok] step show "fact_kept (OpAck k now) j c db'"
      proof (cases rule: ack_delta)
        case (stamped d)
        show ?thesis
          using stamped(1,2,4) fact by (cases "j = k") (auto simp: fact_kept_def)
      qed (auto intro: same)
    qed (rule same, simp)
  next
    case (OpDismiss k now)
    show ?thesis
      unfolding OpDismiss store_apply.simps
    proof (rule committed_cases)
      fix db' y assume "dismiss_job db k now = Inr (db', y)"
      then have "db_outbox db' = db_outbox db"
        by (auto simp: dismiss_job_def split: option.splits if_splits)
      then show "fact_kept (OpDismiss k now) j c db'" by (rule same)
    qed (rule same, simp)
  next
    case (OpDelete k)
    show ?thesis
      unfolding OpDelete store_apply.simps
    proof (rule committed_cases)
      fix db' y assume "delete_job db k = Inr (db', y)"
      then show "fact_kept (OpDelete k) j c db'"
        by (cases rule: delete_delta) (use fact in \<open>auto simp: fact_kept_def\<close>)
    qed (rule same, simp)
  qed
qed

section \<open>The ledger along a history\<close>

definition find_ledger :: "transfer_db \<Rightarrow> job_id \<Rightarrow> file_id \<Rightarrow> ledger_row option" where
  "find_ledger db j f = find (\<lambda>e. lg_job_id e = j \<and> lg_file_id e = f) (db_ledger db)"

definition find_file :: "transfer_db \<Rightarrow> job_id \<Rightarrow> file_id \<Rightarrow> file_row option" where
  "find_file db j f = find (\<lambda>r. fr_job_id r = j \<and> jf_file_id (fr_file r) = f) (db_files db)"

definition evidence_later :: "ledger_row \<Rightarrow> ledger_row \<Rightarrow> bool" where
  "evidence_later e e' \<longleftrightarrow>
     lg_bytes e \<le> lg_bytes e'
     \<and> (lg_status e = LedgerVerified \<longrightarrow>
          lg_status e' = LedgerVerified \<and> lg_sha256 e' = lg_sha256 e)"

lemma evidence_later_refl [simp]: "evidence_later e e"
  by (simp add: evidence_later_def)

lemma evidence_later_trans: "evidence_later a b \<Longrightarrow> evidence_later b c \<Longrightarrow> evidence_later a c"
  unfolding evidence_later_def by (metis order_trans)

definition evidence_ok :: "ledger_row \<Rightarrow> bool" where
  "evidence_ok e \<longleftrightarrow>
     (case lg_sha256 e of
        None \<Rightarrow> lg_status e \<noteq> LedgerVerified
      | Some d \<Rightarrow> lg_status e = LedgerVerified \<and> is_sha256_hex d)"

definition ledger_ok :: "transfer_db \<Rightarrow> bool" where
  "ledger_ok db \<longleftrightarrow>
     (\<forall>j f e. find_ledger db j f = Some e \<longrightarrow>
        evidence_ok e
        \<and> (\<exists>r. find_file db j f = Some r \<and> lg_bytes e \<le> jf_size_bytes (fr_file r)))"

text \<open>What a checkpoint of the file \<open>(j, f)\<close> does to the rows a lookup finds.\<close>

lemma ledger_delta:
  assumes "update_file_ledger db j f st b sha now = Inr db'"
  obtains r where "find_file db j f = Some r" and "b \<le> jf_size_bytes (fr_file r)"
    and "db_files db' = db_files db"
    and "\<And>k g. (k, g) \<noteq> (j, f) \<Longrightarrow> find_ledger db' k g = find_ledger db k g"
    and "\<And>e. find_ledger db j f = Some e \<Longrightarrow>
           (\<exists>e'. find_ledger db' j f = Some e' \<and> evidence_later e e'
                 \<and> (e' = e \<or> evidence_ok e' \<and> lg_bytes e' = b))"
    and "find_ledger db j f = None \<Longrightarrow> find_ledger db' j f = None"
proof -
  let ?m = "\<lambda>e. lg_job_id e = j \<and> lg_file_id e = f"
  obtain r where r: "find_file db j f = Some r"
    using assms by (auto simp: update_file_ledger_def find_file_def split: option.split_asm)
  from assms obtain digest skip where size: "\<not> b > jf_size_bytes (fr_file r)"
    and dig: "ledger_digest st sha = Inr digest"
    and guard: "(case find ?m (db_ledger db) of None \<Rightarrow> Inr False
                 | Some e \<Rightarrow> ledger_guard e st b digest) = Inr skip"
    and rest: "(if skip then Inr db else and_then (checked_i64 b) (\<lambda>_.
       Inr (db\<lparr>db_ledger := update_where ?m
       (\<lambda>e. e\<lparr>lg_status := st, lg_bytes := b, lg_sha256 := digest, lg_updated_at := now\<rparr>)
       (db_ledger db)\<rparr>))) = Inr db'"
    unfolding update_file_ledger_def r [unfolded find_file_def] option.case Let_def
    by (elim and_then_InrE) (rule that, erule ensure_InrD, assumption+)
  have db': "db' = (if skip then db else db\<lparr>db_ledger := update_where ?m
       (\<lambda>e. e\<lparr>lg_status := st, lg_bytes := b, lg_sha256 := digest, lg_updated_at := now\<rparr>)
       (db_ledger db)\<rparr>)"
    using rest by (cases skip) auto
  let ?f = "\<lambda>e. e\<lparr>lg_status := st, lg_bytes := b, lg_sha256 := digest, lg_updated_at := now\<rparr>"
  have look: "find_ledger db' k g =
      (if skip then find_ledger db k g
       else map_option (\<lambda>e. if ?m e then ?f e else e) (find_ledger db k g))" for k g
    using find_update_where [of "\<lambda>e. (lg_job_id e, lg_file_id e)" ?f "(k, g)" ?m "db_ledger db"]
    by (simp add: db' find_ledger_def)
  have id: "find_ledger db k g = Some e \<Longrightarrow> lg_job_id e = k \<and> lg_file_id e = g" for k g e
    by (auto simp: find_ledger_def find_Some_iff)
  have ok: "evidence_ok (?f e)" for e
    using dig by (auto simp: ledger_digest_def evidence_ok_def digest_from_hex_def
        require_sha256_hex_def split: option.splits if_splits sum.splits)
  show thesis
  proof (rule that [OF r])
    show "b \<le> jf_size_bytes (fr_file r)" using size by simp
    show "db_files db' = db_files db" by (simp add: db')
    show "find_ledger db' k g = find_ledger db k g" if "(k, g) \<noteq> (j, f)" for k g
      using look [of k g] id [of k g] that by (cases "find_ledger db k g") auto
    show "find_ledger db' j f = None" if "find_ledger db j f = None"
      using look [of j f] that by simp
    show "\<exists>e'. find_ledger db' j f = Some e' \<and> evidence_later e e'
        \<and> (e' = e \<or> evidence_ok e' \<and> lg_bytes e' = b)" if e: "find_ledger db j f = Some e" for e
    proof (cases skip)
      case True
      then show ?thesis using look [of j f] e by simp
    next
      case False
      have "ledger_guard e st b digest = Inr False" using guard e False by (simp add: find_ledger_def)
      then have "evidence_later e (?f e)"
        by (auto simp: ledger_guard_def evidence_later_def split: if_splits)
      then show ?thesis using look [of j f] e id [OF e] ok [of e] False by simp
    qed
  qed
qed

fun touches_files :: "store_op \<Rightarrow> bool" where
  "touches_files (OpCreate _ _ _) = True"
| "touches_files (OpLedger _ _ _ _ _ _) = True"
| "touches_files (OpDelete _) = True"
| "touches_files _ = False"

lemma apply_same_files:
  assumes "\<not> touches_files x"
  shows "db_ledger (store_apply sha db x) = db_ledger db \<and> db_files (store_apply sha db x) = db_files db"
    (is "?same (store_apply sha db x)")
proof (cases x)
  case (OpTransition k v to e now)
  show ?thesis
    unfolding OpTransition store_apply.simps
    by (rule committed_cases, simp)
       (auto simp: transition_job_def Let_def split: option.splits if_splits)
next
  case (OpSetDesired k d now v)
  then show ?thesis
    by (auto simp: set_desired_run_state_def Let_def split: sum.splits if_splits)
next
  case (OpComplete k e now ab)
  have outbox: "insert_outbox_row d j e v now = Inr (d', c) \<Longrightarrow>
      db_ledger d' = db_ledger d \<and> db_files d' = db_files d" for d j e v now d' c
    by (auto simp: insert_outbox_row_Inr)
  show ?thesis
    unfolding OpComplete store_apply.simps
    by (rule committed_cases, simp)
       (auto simp: complete_job_inner_def Let_def dest!: outbox split: option.splits if_splits)
next
  case (OpAck k now)
  show ?thesis
    unfolding OpAck store_apply.simps
    by (rule committed_cases, simp)
       (auto simp: acknowledge_completion_def Let_def split: option.splits if_splits)
next
  case (OpDismiss k now)
  show ?thesis
    unfolding OpDismiss store_apply.simps
    by (rule committed_cases, simp) (auto simp: dismiss_job_def split: option.splits if_splits)
qed (use assms in simp_all)

lemma find_append_rows:
  "find P (xs @ ys) = (case find P xs of None \<Rightarrow> find P ys | Some x \<Rightarrow> Some x)"
  by (induction xs) auto

lemma find_pair_filter:
  "find (\<lambda>x. job x = j \<and> sub x = f) (filter (\<lambda>x. job x \<noteq> k) xs) =
     (if j = k then None else find (\<lambda>x. job x = j \<and> sub x = f) xs)"
  by (induction xs) auto

lemma delete_files:
  assumes "delete_job db k = Inr (db', y)"
  shows "db' = db \<or> db_ledger db' = filter (\<lambda>e. lg_job_id e \<noteq> k) (db_ledger db)
      \<and> db_files db' = filter (\<lambda>r. fr_job_id r \<noteq> k) (db_files db)"
  using assms by (auto simp: delete_job_def split: if_splits)

lemma insert_files:
  assumes "insert_job sha db k spec now = Inr (db', y)"
  shows "db' = db \<or> db_ledger db' = db_ledger db @ ledger_rows k spec now
      \<and> db_files db' = db_files db @ file_rows k spec"
  using assms by (cases rule: insert_job_delta) auto

lemma apply_evidence_later:
  assumes e: "find_ledger db j f = Some e" and op: "x \<noteq> OpDelete j"
  shows "\<exists>e'. find_ledger (store_apply sha db x) j f = Some e' \<and> evidence_later e e'"
proof (cases "touches_files x")
  case False
  then show ?thesis using apply_same_files [OF False] e by (auto simp: find_ledger_def)
next
  case True
  have same: "db_ledger db' = db_ledger db \<Longrightarrow> \<exists>e'. find_ledger db' j f = Some e' \<and> evidence_later e e'"
    for db' using e by (simp add: find_ledger_def)
  show ?thesis
  proof (cases x)
    case (OpCreate k spec now)
    show ?thesis
      unfolding OpCreate store_apply.simps
    proof (rule committed_cases)
      fix db' y assume "insert_job sha db k spec now = Inr (db', y)"
      from insert_files [OF this] show "\<exists>e'. find_ledger db' j f = Some e' \<and> evidence_later e e'"
        using e by (auto simp: find_ledger_def find_append_rows)
    qed (rule same, simp)
  next
    case (OpLedger k g st b d now)
    show ?thesis
    proof (cases "update_file_ledger db k g st b d now")
      case (Inr db')
      show ?thesis
        by (rule ledger_delta [OF Inr], cases "(j, f) = (k, g)")
           (use e Inr OpLedger in \<open>auto intro: evidence_later_refl\<close>)
    qed (use e OpLedger in simp)
  next
    case (OpDelete k)
    show ?thesis
      unfolding OpDelete store_apply.simps
    proof (rule committed_cases)
      fix db' y assume "delete_job db k = Inr (db', y)"
      from delete_files [OF this] show "\<exists>e'. find_ledger db' j f = Some e' \<and> evidence_later e e'"
      proof
        assume "db_ledger db' = filter (\<lambda>e. lg_job_id e \<noteq> k) (db_ledger db)
          \<and> db_files db' = filter (\<lambda>r. fr_job_id r \<noteq> k) (db_files db)"
        then show ?thesis
          using e op OpDelete by (simp add: find_ledger_def find_pair_filter)
      qed (simp add: same)
    qed (rule same, simp)
  qed (use True in simp_all)
qed

text \<open>The specifications handed to the store are those the constructor builds.\<close>

fun op_ok :: "store_op \<Rightarrow> bool" where
  "op_ok (OpCreate _ spec _) = job_spec_ok spec"
| "op_ok _ = True"

lemma created_rows_ok:
  assumes "job_spec_ok spec" and "find (\<lambda>e. lg_job_id e = j \<and> lg_file_id e = f) (ledger_rows k spec now) = Some e"
  shows "evidence_ok e \<and> lg_bytes e = 0
       \<and> (\<exists>r. find (\<lambda>r. fr_job_id r = j \<and> jf_file_id (fr_file r) = f) (file_rows k spec) = Some r)"
proof -
  obtain g where g: "g \<in> set (requested_files spec)" "e = \<lparr>lg_job_id = k, lg_file_id = jf_file_id g,
      lg_status = LedgerMissing, lg_bytes = 0, lg_sha256 = None, lg_updated_at = now\<rparr>"
    and key: "k = j" "jf_file_id g = f"
    using assms(2) by (force simp: find_Some_iff ledger_rows_def)
  have "g \<in> set (js_session_files spec)"
    using g(1) assms(1) by (auto simp: requested_files_def job_spec_ok_def list_all_iff)
  then have "find (\<lambda>r. fr_job_id r = j \<and> jf_file_id (fr_file r) = f) (file_rows k spec) \<noteq> None"
    using key by (auto simp: find_None_iff file_rows_def)
  then show ?thesis using g(2) by (auto simp: evidence_ok_def)
qed

lemma ledger_ok_cong:
  "db_ledger db' = db_ledger db \<Longrightarrow> db_files db' = db_files db \<Longrightarrow> ledger_ok db' = ledger_ok db"
  by (simp add: ledger_ok_def find_ledger_def find_file_def)

lemma apply_ledger_ok:
  assumes ok: "ledger_ok db" and op: "op_ok x"
  shows "ledger_ok (store_apply sha db x)"
proof (cases "touches_files x")
  case False
  then show ?thesis using apply_same_files [OF False] ok ledger_ok_cong by metis
next
  case True
  then show ?thesis
  proof (cases x)
    case (OpCreate k spec now)
    show ?thesis
      unfolding OpCreate store_apply.simps
    proof (rule committed_cases)
      fix db' y assume "insert_job sha db k spec now = Inr (db', y)"
      from insert_files [OF this] show "ledger_ok db'"
      proof
        assume new: "db_ledger db' = db_ledger db @ ledger_rows k spec now
          \<and> db_files db' = db_files db @ file_rows k spec"
        show ?thesis
          unfolding ledger_ok_def
        proof (intro allI impI)
          fix j f e assume e: "find_ledger db' j f = Some e"
          show "evidence_ok e
              \<and> (\<exists>r. find_file db' j f = Some r \<and> lg_bytes e \<le> jf_size_bytes (fr_file r))"
          proof (cases "find_ledger db j f")
            case (Some e0)
            then show ?thesis
              using e new ok by (fastforce simp: ledger_ok_def find_ledger_def find_file_def find_append_rows)
          next
            case None
            then have "find (\<lambda>e. lg_job_id e = j \<and> lg_file_id e = f) (ledger_rows k spec now) = Some e"
              using e new by (simp add: find_ledger_def find_append_rows)
            from created_rows_ok [OF _ this] op OpCreate new show ?thesis
              by (auto simp: find_file_def find_append_rows split: option.splits)
          qed
        qed
      qed (use ok in simp)
    qed (rule ok)
  next
    case (OpLedger k g st b d now)
    show ?thesis
    proof (cases "update_file_ledger db k g st b d now")
      case (Inr db')
      have "ledger_ok db'"
        unfolding ledger_ok_def
      proof (intro allI impI)
        fix j f e assume e: "find_ledger db' j f = Some e"
        show "evidence_ok e
            \<and> (\<exists>r. find_file db' j f = Some r \<and> lg_bytes e \<le> jf_size_bytes (fr_file r))"
        proof (rule ledger_delta [OF Inr])
          fix r
          assume r: "find_file db k g = Some r" "b \<le> jf_size_bytes (fr_file r)"
            and files: "db_files db' = db_files db"
            and other: "\<And>k' g'. (k', g') \<noteq> (k, g) \<Longrightarrow> find_ledger db' k' g' = find_ledger db k' g'"
            and here: "\<And>e. find_ledger db k g = Some e \<Longrightarrow>
               (\<exists>e'. find_ledger db' k g = Some e' \<and> evidence_later e e'
                     \<and> (e' = e \<or> evidence_ok e' \<and> lg_bytes e' = b))"
            and none: "find_ledger db k g = None \<Longrightarrow> find_ledger db' k g = None"
          have size: "find_file db' j f = find_file db j f"
            by (simp add: find_file_def files)
          show ?thesis
          proof (cases "(j, f) = (k, g)")
            case False
            then show ?thesis using other [OF False] e ok size by (simp add: ledger_ok_def)
          next
            case True
            then obtain e0 where e0: "find_ledger db k g = Some e0" using none e by fastforce
            then have "evidence_ok e0 \<and> lg_bytes e0 \<le> jf_size_bytes (fr_file r)"
              using ok r(1) by (fastforce simp: ledger_ok_def)
            then show ?thesis
              using here [OF e0] e True r size by auto
          qed
        qed
      qed
      then show ?thesis using Inr OpLedger by simp
    qed (use ok OpLedger in simp)
  next
    case (OpDelete k)
    show ?thesis
      unfolding OpDelete store_apply.simps
    proof (rule committed_cases)
      fix db' y assume "delete_job db k = Inr (db', y)"
      from delete_files [OF this] show "ledger_ok db'"
      proof
        assume new: "db_ledger db' = filter (\<lambda>e. lg_job_id e \<noteq> k) (db_ledger db)
          \<and> db_files db' = filter (\<lambda>r. fr_job_id r \<noteq> k) (db_files db)"
        then have "find_ledger db' j f = (if j = k then None else find_ledger db j f)"
          "find_file db' j f = (if j = k then None else find_file db j f)" for j f
          by (simp_all add: find_ledger_def find_file_def find_pair_filter
              find_pair_filter [where job = fr_job_id and sub = "\<lambda>r. jf_file_id (fr_file r)"])
        then show ?thesis using ok by (auto simp: ledger_ok_def)
      qed (use ok in simp)
    qed (rule ok)
  qed simp_all
qed

section \<open>Along a whole history\<close>

lemma run_row_later:
  "store_ok db \<Longrightarrow> find_job db j = Some r \<Longrightarrow> OpDelete j \<notin> set xs \<Longrightarrow>
     \<exists>r'. find_job (run_store sha db xs) j = Some r' \<and> row_later r r'"
proof (induction xs arbitrary: db r)
  case (Cons x xs)
  from Cons.prems apply_row_later [of db j r x sha] obtain s where
    s: "find_job (store_apply sha db x) j = Some s" "row_later r s" by auto
  from Cons.IH [OF store_apply_ok [OF Cons.prems(1)] s(1)] Cons.prems(3) s(2) show ?case
    by (auto intro: row_later_trans)
qed auto

lemma run_fact_pending:
  "store_ok db \<Longrightarrow> find_completion db j = Some c \<Longrightarrow> \<not> is_acknowledged c \<Longrightarrow>
     (\<And>now. OpAck j now \<notin> set xs) \<Longrightarrow> find_completion (run_store sha db xs) j = Some c"
proof (induction xs arbitrary: db)
  case (Cons x xs)
  have "fact_kept x j c (store_apply sha db x)"
    by (rule apply_fact_kept) (use Cons.prems in auto)
  then have "find_completion (store_apply sha db x) j = Some c"
    using Cons.prems(3,4) by (auto simp: fact_kept_def)
  from Cons.IH [OF store_apply_ok [OF Cons.prems(1)] this Cons.prems(3)] Cons.prems(4) show ?case
    by simp
qed simp

lemma run_evidence_later:
  "find_ledger db j f = Some e \<Longrightarrow> OpDelete j \<notin> set xs \<Longrightarrow>
     \<exists>e'. find_ledger (run_store sha db xs) j f = Some e' \<and> evidence_later e e'"
proof (induction xs arbitrary: db e)
  case (Cons x xs)
  from Cons.prems apply_evidence_later [of db j f e x sha] obtain e' where
    "find_ledger (store_apply sha db x) j f = Some e'" "evidence_later e e'" by auto
  with Cons.IH [OF this(1)] Cons.prems(2) show ?case
    by (auto intro: evidence_later_trans)
qed auto

lemma run_ledger_ok: "ledger_ok db \<Longrightarrow> list_all op_ok xs \<Longrightarrow> ledger_ok (run_store sha db xs)"
  by (induction xs arbitrary: db) (auto simp: apply_ledger_ok)

lemma ledger_ok_empty: "ledger_ok empty_db"
  by (simp add: ledger_ok_def find_ledger_def empty_db_def)

section \<open>Properties\<close>


text \<open>
  Jobs only move forward in the store: along any history that does not delete the job,
  its identity and request stay, its version never goes back, and once it is terminal its
  state, version and error never change again.
\<close>
theorem terminal_row_frozen:
  assumes "find_job (run_store sha empty_db past) j = Some r" and "OpDelete j \<notin> set future"
  shows "\<exists>r'. find_job (run_store sha empty_db (past @ future)) j = Some r'
       \<and> sj_identity r' = sj_identity r \<and> unat (sj_version r) \<le> unat (sj_version r')
       \<and> (tag_is_terminal (sj_state r) \<longrightarrow>
            sj_state r' = sj_state r \<and> sj_version r' = sj_version r \<and> sj_error r' = sj_error r)"
  using run_row_later [OF run_store_ok [OF store_ok_empty] assms(1,2)]
  by (simp add: run_store_def row_later_def) blast

text \<open>
  An outcome is never lost: a recorded outcome that has not been acknowledged stays in
  the outbox, unchanged and pending, through every history without its acknowledgement;
  in particular neither dismissing nor deleting the job can remove it.
\<close>
theorem unacknowledged_outcome_kept:
  assumes "find_completion (run_store sha empty_db past) j = Some c"
    and "\<not> is_acknowledged c" and "\<And>now. OpAck j now \<notin> set future"
  shows "find_completion (run_store sha empty_db (past @ future)) j = Some c
       \<and> c \<in> set (pending_completions (run_store sha empty_db (past @ future)))"
proof -
  have "find_completion (run_store sha empty_db (past @ future)) j = Some c"
    using run_fact_pending [OF run_store_ok [OF store_ok_empty] assms(1,2)] assms(3)
    by (simp add: run_store_def)
  then show ?thesis
    using assms(2) by (auto simp: pending_completions_def find_completion_def dest: find_key_SomeD)
qed

text \<open>
  C4. A job is completed exactly once: after a completion has committed, repeating it changes
  nothing and returns the very record, and completing with any other outcome is refused with
  both outcomes named.
\<close>
theorem complete_exactly_once:
  assumes "store_ok db" and "complete_job db j e now = Inr (db', res)" and "e' \<noteq> e"
  shows "(\<exists>c. (res = Recorded c \<or> res = AlreadyRecorded c) \<and> cr_outcome c = e
             \<and> find_completion db' j = Some c
             \<and> complete_job db' j e later = Inr (db', AlreadyRecorded c))
       \<and> complete_job db' j e' later = Inl (CompleteAlreadyTerminal j e e')"
proof -
  have step: "complete_job_inner db j e now None = Inr (db', res)"
    using assms(2) by (simp add: complete_job_def)
  obtain c r where c: "res = Recorded c \<or> res = AlreadyRecorded c" "cr_outcome c = e"
    "find_completion db' j = Some c" and r: "find_job db' j = Some r"
    using store_okD(1) [OF assms(1)] step
  proof (cases rule: complete_delta)
    case (already c)
    then show ?thesis using store_okD(4) [OF assms(1) already(1)] that by auto
  next
    case (recorded r r' c)
    then show ?thesis using that by simp
  qed
  then show ?thesis
    using assms(3) by (auto simp: complete_job_def complete_job_inner_def)
qed

text \<open>
  Transitions are compare-and-swap: a committed one advances the version by exactly one
  without wrapping, leaves a live row only, and makes every other attempt against the version
  it consumed a conflict.
\<close>
theorem transition_compare_and_swap:
  assumes "store_ok db" and "transition_job db j v to e now = Inr (db', n)"
  shows "unat n = unat v + 1 \<and> fits_i64 n
       \<and> (\<exists>r. find_job db j = Some r \<and> sj_version r = v \<and> \<not> tag_is_terminal (sj_state r)
            \<and> find_job db' j = Some (r\<lparr>sj_state := to, sj_version := n, sj_error := None,
                                       sj_updated_at := now\<rparr>))
       \<and> transition_job db' j v to' e' later = Inl Conflict"
proof (rule transition_delta [OF store_okD(1) [OF assms(1)] assms(2)])
  fix r :: stored_job
  let ?r = "r\<lparr>sj_state := to, sj_version := n, sj_error := e, sj_updated_at := now\<rparr>"
  assume r: "find_job db j = Some r" "sj_version r = v" "\<not> tag_is_terminal (sj_state r)" "e = None"
    and n: "unat n = unat v + 1" "fits_i64 n"
    and job: "find_job db' = (find_job db)(j \<mapsto> ?r)"
  have ok': "keys_ok db'"
    using transition_store_ok [OF assms] by (rule store_okD)
  have "n \<noteq> v" using n(1) by auto
  then have "\<not> list_ex (\<lambda>r. sj_job_id r = j \<and> sj_version r = v \<and> \<not> tag_is_terminal (sj_state r))
      (db_jobs db')"
    using find_job_list_ex [OF ok', of j "\<lambda>r. sj_version r = v \<and> \<not> tag_is_terminal (sj_state r)"] job
    by simp
  then have "transition_job db' j v to' e' later = Inl Conflict"
    by (auto simp: transition_job_def Let_def checked_i64_def ensure_def split: option.splits)
  then show ?thesis using r n job by simp
qed

text \<open>
  Evidence is monotone: along any history that keeps the job, the confirmed bytes of a
  file never go back, and a verified file stays verified with the digest it was verified
  with.
\<close>
theorem ledger_evidence_monotone:
  assumes "find_ledger (run_store sha empty_db past) j f = Some e" and "OpDelete j \<notin> set future"
  shows "\<exists>e'. find_ledger (run_store sha empty_db (past @ future)) j f = Some e'
       \<and> lg_bytes e \<le> lg_bytes e'
       \<and> (lg_status e = LedgerVerified \<longrightarrow>
            lg_status e' = LedgerVerified \<and> lg_sha256 e' = lg_sha256 e)"
  using run_evidence_later [OF assms(1,2), of sha]
  by (simp add: run_store_def evidence_later_def)

text \<open>
  Evidence stays inside the signed plan: in every reachable store a ledger row belongs to
  a file of the job's plan, never confirms more bytes than the signed size, and carries a
  SHA-256 exactly when it is verified.
\<close>
theorem ledger_within_plan:
  assumes "list_all op_ok ops" and "find_ledger (run_store sha empty_db ops) j f = Some e"
  shows "(\<exists>r. find_file (run_store sha empty_db ops) j f = Some r
            \<and> lg_bytes e \<le> jf_size_bytes (fr_file r))
       \<and> (lg_status e = LedgerVerified) = (lg_sha256 e \<noteq> None)
       \<and> (case lg_sha256 e of None \<Rightarrow> True | Some d \<Rightarrow> is_sha256_hex d)"
  using run_ledger_ok [OF ledger_ok_empty assms(1), of sha] assms(2)
  by (fastforce simp: ledger_ok_def evidence_ok_def split: option.splits)

lemma created_is_latest:
  assumes "insert_job sha db j spec now = Inr (db', JobCreated row)"
  shows "latest_job_by_identity db' (js_identity spec) = Some row"
    and "sj_job_id row = j" and "sj_digest row = request_digest sha spec"
  using assms
proof (atomize (full), cases rule: insert_job_delta)
  case (created r)
  have none: "newest rs = None \<longleftrightarrow> rs = []" for rs
    by (cases rs) (auto split: option.splits)
  have "filter (\<lambda>r. sj_identity r = js_identity spec) (db_jobs db) = []"
    using created(1) by (simp add: latest_job_by_identity_def none)
  then show "latest_job_by_identity db' (js_identity spec) = Some row \<and> sj_job_id row = j
      \<and> sj_digest row = request_digest sha spec"
    using created(3-5,7,12) by (simp add: latest_job_by_identity_def)
qed simp

text \<open>
  Enqueueing is idempotent on the natural key: once a job was created, enqueueing the same
  request again (under any job id) returns that row and writes nothing, and a different
  request for the same (device, session, revision) is refused and names the job in the way.
\<close>
theorem create_job_idempotent:
  assumes "insert_job sha db j spec now = Inr (db', JobCreated row)"
    and "js_identity other = js_identity spec"
    and "request_digest sha other \<noteq> request_digest sha spec"
  shows "insert_job sha db' k spec later = Inr (db', JobExisting row)
       \<and> insert_job sha db' k other later = Inl (RequestDigestMismatch j)"
  using created_is_latest [OF assms(1)] assms(2,3) by (simp add: insert_job_def Let_def)

section \<open>A concrete history\<close>

text \<open>
  One job with one file, with a constant in the place of SHA-256: the history the witnesses
  evaluate.
\<close>

definition sample_spec :: job_spec where
  "sample_spec =
     \<lparr>js_identity = \<lparr>ji_device_id = ''d'', ji_session_id = ''s'', ji_revision = ''r''\<rparr>,
      js_publication = \<lparr>pm_revision = ''r'', pm_payload = ''x'', pm_signature = [],
                        pm_public_key = []\<rparr>,
      js_session_files = [\<lparr>jf_file_id = ''f'', jf_display_path = ''f.mp4'', jf_size_bytes = 9,
                          jf_sha256 = []\<rparr>],
      js_requested = [0], js_full_session = True, js_date_label = []\<rparr>"

definition sample_past :: "store_op list" where
  "sample_past =
     [OpCreate ''j'' sample_spec ''t0'',
      OpLedger ''j'' ''f'' LedgerPartial 4 None ''t1'',
      OpComplete ''j'' (OutcomeFailed ''network'' True) ''t2'' None]"

abbreviation sample_db :: transfer_db where
  "sample_db \<equiv> run_store (\<lambda>_. []) empty_db sample_past"

lemmas sample_eval = sample_past_def sample_spec_def insert_job_def latest_job_by_identity_def
  find_job_def find_completion_def empty_db_def request_digest_def fits_i64_def file_rows_def
  ledger_rows_def requested_files_def request_position_def update_file_ledger_def ledger_digest_def
  ledger_guard_def checked_i64_def ensure_def update_where_def complete_job_inner_def
  insert_outbox_row_def abort_completion_if_def checked_add_def find_ledger_def Let_def

lemma sample_completion:
  "find_completion sample_db ''j'' =
     Some \<lparr>cr_sequence = 1, cr_job_id = ''j'', cr_kind = Download,
           cr_outcome = OutcomeFailed ''network'' True, cr_version = 2, cr_recorded_at = ''t2'',
           cr_acknowledged_at = None\<rparr>"
  by (simp add: sample_eval)

lemma sample_job:
  "map_option (\<lambda>r. (sj_state r, sj_version r)) (find_job sample_db ''j'') = Some (TagFailed, 2)"
  by (simp add: sample_eval)

lemma sample_ledger:
  "map_option (\<lambda>e. (lg_status e, lg_bytes e)) (find_ledger sample_db ''j'' ''f'')
     = Some (LedgerPartial, 4)"
  by (simp add: sample_eval)

abbreviation sample_db0 :: transfer_db where
  "sample_db0 \<equiv> run_store (\<lambda>_. []) empty_db [OpCreate ''j'' sample_spec ''t0'']"


theorem terminal_row_frozen_witness:
  "\<exists>r. find_job (run_store (\<lambda>_. []) empty_db (sample_past @
         [OpTransition ''j'' 2 TagQueued None ''t3'', OpComplete ''j'' OutcomeSucceeded ''t4'' None]))
         ''j'' = Some r \<and> sj_state r = TagFailed \<and> sj_version r = 2"
proof -
  obtain r where "find_job sample_db ''j'' = Some r" "sj_state r = TagFailed" "sj_version r = 2"
    using sample_job by auto
  then show ?thesis
    using terminal_row_frozen [of "\<lambda>_. []" sample_past "''j''" r
        "[OpTransition ''j'' 2 TagQueued None ''t3'', OpComplete ''j'' OutcomeSucceeded ''t4'' None]"]
    by auto
qed

theorem unacknowledged_outcome_kept_witness:
  "cr_outcome (the (find_completion (run_store (\<lambda>_. []) empty_db
      (sample_past @ [OpDelete ''j'', OpDismiss ''j'' ''t3''])) ''j'')) = OutcomeFailed ''network'' True"
  using unacknowledged_outcome_kept [OF sample_completion, of "[OpDelete ''j'', OpDismiss ''j'' ''t3'']"]
  by (simp add: is_acknowledged_def)

theorem complete_exactly_once_witness:
  "\<exists>db c. complete_job sample_db0 ''j'' OutcomeSucceeded ''t1'' = Inr (db, Recorded c)
     \<and> complete_job db ''j'' OutcomeSucceeded ''t2'' = Inr (db, AlreadyRecorded c)
     \<and> complete_job db ''j'' OutcomeCancelled ''t2''
         = Inl (CompleteAlreadyTerminal ''j'' OutcomeSucceeded OutcomeCancelled)"
proof -
  obtain db c where first: "complete_job sample_db0 ''j'' OutcomeSucceeded ''t1'' = Inr (db, Recorded c)"
    by (simp add: sample_eval complete_job_def)
  then show ?thesis
    using complete_exactly_once [OF run_store_ok [OF store_ok_empty] first, of OutcomeCancelled "''t2''"]
    by auto
qed

theorem transition_compare_and_swap_witness:
  "\<exists>db n. transition_job sample_db0 ''j'' 1 TagPreparing None ''t1'' = Inr (db, n)
     \<and> unat n = 2 \<and> transition_job db ''j'' 1 TagCancelling None ''t1'' = Inl Conflict"
proof -
  obtain db n where first: "transition_job sample_db0 ''j'' 1 TagPreparing None ''t1'' = Inr (db, n)"
    by (simp add: sample_eval transition_job_def)
  then show ?thesis
    using transition_compare_and_swap
        [OF run_store_ok [OF store_ok_empty] first, of TagCancelling None "''t1''"]
    by auto
qed

theorem ledger_evidence_monotone_witness:
  "\<exists>e. find_ledger (run_store (\<lambda>_. []) empty_db
        (sample_past @ [OpLedger ''j'' ''f'' LedgerPartial 3 None ''t3''])) ''j'' ''f'' = Some e
     \<and> 4 \<le> lg_bytes e"
proof -
  obtain e where "find_ledger sample_db ''j'' ''f'' = Some e" "lg_bytes e = 4"
    using sample_ledger by auto
  then show ?thesis
    using ledger_evidence_monotone [of "\<lambda>_. []" sample_past "''j''" "''f''" e
        "[OpLedger ''j'' ''f'' LedgerPartial 3 None ''t3'']"] by auto
qed

theorem ledger_within_plan_witness:
  "\<exists>r. find_file sample_db ''j'' ''f'' = Some r \<and> 4 \<le> jf_size_bytes (fr_file r)"
proof -
  obtain e where e: "find_ledger sample_db ''j'' ''f'' = Some e" "lg_bytes e = 4"
    using sample_ledger by auto
  have "list_all op_ok sample_past"
    by (simp add: sample_past_def sample_spec_def job_spec_ok_def)
  from ledger_within_plan [OF this e(1)] e(2) show ?thesis by auto
qed

theorem create_job_idempotent_witness:
  "let sha = (\<lambda>s. replicate (length s) (CHR ''x''));
       other = sample_spec\<lparr>js_publication := \<lparr>pm_revision = ''r'', pm_payload = ''xy'',
                 pm_signature = [], pm_public_key = []\<rparr>\<rparr>
   in \<exists>db row. insert_job sha empty_db ''j'' sample_spec ''t0'' = Inr (db, JobCreated row)
       \<and> insert_job sha db ''k'' sample_spec ''t1'' = Inr (db, JobExisting row)
       \<and> insert_job sha db ''k'' other ''t1'' = Inl (RequestDigestMismatch ''j'')"
proof -
  let ?sha = "\<lambda>s :: string. replicate (length s) (CHR ''x'')"
  let ?other = "sample_spec\<lparr>js_publication := \<lparr>pm_revision = ''r'', pm_payload = ''xy'',
                 pm_signature = [], pm_public_key = []\<rparr>\<rparr>"
  obtain db row where "insert_job ?sha empty_db ''j'' sample_spec ''t0'' = Inr (db, JobCreated row)"
    by (simp add: insert_job_def Let_def latest_job_by_identity_def find_job_def empty_db_def
        fits_i64_def sample_spec_def)
  moreover have "length (request_preimage ?other) \<noteq> length (request_preimage sample_spec)"
    by (simp add: request_preimage_def absorb_def to_be_bytes_def sample_spec_def)
  then have "request_digest ?sha ?other \<noteq> request_digest ?sha sample_spec"
    by (metis length_replicate request_digest_def)
  ultimately show ?thesis
    using create_job_idempotent [of ?sha empty_db "''j''" sample_spec "''t0''" db row ?other "''k''" "''t1''"]
    by (auto simp: Let_def)
qed

end
