(* ===== verification/Work_Queue.thy ===== *)
theory Work_Queue
  imports Device_Types
begin

text \<open>
  The bounded ready queue between the dispatcher and the workers
  (\<open>transfer/scheduler.rs\<close>): a FIFO of job ids that are scheduled at most once. Each
  operation runs under the queue's mutex and is one function on its state; the time a
  \<open>claim\<close> may wait is the list of states it finds the queue in when it wakes up.
\<close>

section \<open>The queue\<close>

datatype schedule_outcome = Scheduled | AlreadyScheduled | QueueFull | QueueStopped

definition is_scheduled_outcome :: "schedule_outcome \<Rightarrow> bool" where
  "is_scheduled_outcome r \<longleftrightarrow> r = Scheduled"

record work_queue =
  wq_capacity :: nat
  wq_order :: "job_id list"
  wq_scheduled :: "job_id set"
  wq_stopped :: bool
  wq_overflows :: u64
  wq_duplicates :: u64
  wq_delivered :: u64

definition new_work_queue :: "nat \<Rightarrow> work_queue" where
  "new_work_queue capacity =
     \<lparr>wq_capacity = max capacity 1, wq_order = [], wq_scheduled = {}, wq_stopped = False,
      wq_overflows = 0, wq_duplicates = 0, wq_delivered = 0\<rparr>"

definition schedule :: "work_queue \<Rightarrow> job_id \<Rightarrow> work_queue \<times> schedule_outcome" where
  "schedule q j =
     (if wq_stopped q then (q, QueueStopped)
      else if j \<in> wq_scheduled q then
        (q\<lparr>wq_duplicates := wq_duplicates q + 1\<rparr>, AlreadyScheduled)
      else if length (wq_order q) \<ge> wq_capacity q then
        (q\<lparr>wq_overflows := wq_overflows q + 1\<rparr>, QueueFull)
      else
        (q\<lparr>wq_scheduled := insert j (wq_scheduled q), wq_order := wq_order q @ [j]\<rparr>, Scheduled))"

text \<open>
  One pass of the loop of \<open>claim\<close>: stopped, a job, or nothing yet (\<open>Inl ()\<close>, the
  condition variable is waited on until the deadline).
\<close>

definition claim_pass :: "work_queue \<Rightarrow> work_queue \<times> (unit + job_id option)" where
  "claim_pass q =
     (if wq_stopped q then (q, Inr None)
      else case wq_order q of
        j # rest \<Rightarrow>
          (q\<lparr>wq_order := rest, wq_scheduled := wq_scheduled q - {j},
             wq_delivered := wq_delivered q + 1\<rparr>, Inr (Some j))
      | [] \<Rightarrow> (q, Inl ()))"

text \<open>\<open>wakes\<close>: the queue at each wake-up before the deadline; none left is the timeout.\<close>

fun claim :: "work_queue \<Rightarrow> work_queue list \<Rightarrow> work_queue \<times> job_id option" where
  "claim q wakes =
     (case claim_pass q of
        (q', Inr r) \<Rightarrow> (q', r)
      | (q', Inl _) \<Rightarrow> (case wakes of [] \<Rightarrow> (q', None) | w # ws \<Rightarrow> claim w ws))"

declare claim.simps [simp del]

definition stop :: "work_queue \<Rightarrow> work_queue" where
  "stop q = q\<lparr>wq_stopped := True, wq_order := [], wq_scheduled := {}\<rparr>"

definition is_scheduled :: "work_queue \<Rightarrow> job_id \<Rightarrow> bool" where
  "is_scheduled q j \<longleftrightarrow> j \<in> wq_scheduled q"

section \<open>The invariant\<close>

definition queue_ok :: "work_queue \<Rightarrow> bool" where
  "queue_ok q \<longleftrightarrow>
     wq_scheduled q = set (wq_order q) \<and> distinct (wq_order q)
     \<and> length (wq_order q) \<le> wq_capacity q \<and> 1 \<le> wq_capacity q
     \<and> (wq_stopped q \<longrightarrow> wq_order q = [])"

lemma queue_ok_new: "queue_ok (new_work_queue n)"
  by (simp add: queue_ok_def new_work_queue_def)

lemma queue_ok_schedule: "queue_ok q \<Longrightarrow> queue_ok (fst (schedule q j))"
  by (cases "wq_stopped q"; cases "j \<in> wq_scheduled q"; cases "length (wq_order q) \<ge> wq_capacity q")
     (simp_all add: queue_ok_def schedule_def)

lemma queue_ok_claim_pass: "queue_ok q \<Longrightarrow> queue_ok (fst (claim_pass q))"
  by (cases "wq_order q") (auto simp: queue_ok_def claim_pass_def)

lemma queue_ok_stop: "queue_ok q \<Longrightarrow> queue_ok (stop q)"
  by (simp add: queue_ok_def stop_def)

section \<open>Histories of calls\<close>

datatype queue_call = CallSchedule job_id | CallClaim | CallStop

text \<open>The queue after a history, the jobs it took in and the jobs it handed out.\<close>

fun run_queue :: "work_queue \<Rightarrow> queue_call list \<Rightarrow> work_queue \<times> job_id list \<times> job_id list" where
  "run_queue q [] = (q, [], [])"
| "run_queue q (CallSchedule j # cs) =
     (let (q', r) = schedule q j; (q'', ins, outs) = run_queue q' cs
      in (q'', (if r = Scheduled then [j] else []) @ ins, outs))"
| "run_queue q (CallClaim # cs) =
     (let (q', r) = claim_pass q; (q'', ins, outs) = run_queue q' cs
      in (q'', ins, (case r of Inr (Some j) \<Rightarrow> [j] | _ \<Rightarrow> []) @ outs))"
| "run_queue q (CallStop # cs) = run_queue (stop q) cs"

lemma run_queue_ok: "queue_ok q \<Longrightarrow> queue_ok (fst (run_queue q cs))"
proof (induction q cs rule: run_queue.induct)
  case (2 q j cs)
  then show ?case using queue_ok_schedule [of q j] by (auto simp: Let_def split: prod.splits)
next
  case (3 q cs)
  then show ?case using queue_ok_claim_pass [of q] by (auto simp: Let_def split: prod.splits)
qed (auto simp: queue_ok_stop)

lemma stopped_history:
  "wq_stopped q \<Longrightarrow> wq_order q = [] \<Longrightarrow>
     \<exists>q'. run_queue q cs = (q', [], []) \<and> wq_stopped q' \<and> wq_order q' = []"
proof (induction cs arbitrary: q)
  case (Cons c cs)
  then show ?case
    using Cons.IH [of q] Cons.IH [of "stop q"]
    by (cases c) (auto simp: schedule_def claim_pass_def stop_def)
qed simp

lemma run_queue_fifo:
  "run_queue q cs = (q', ins, outs) \<Longrightarrow> \<exists>lost. wq_order q @ ins = outs @ lost
     \<and> (if wq_stopped q' then wq_stopped q \<or> CallStop \<in> set cs else lost = wq_order q')"
proof (induction cs arbitrary: q ins outs)
  case (Cons c cs)
  show ?case
  proof (cases c)
    case (CallSchedule j)
    then show ?thesis
      using Cons.prems Cons.IH [of "fst (schedule q j)"]
      by (fastforce simp: schedule_def Let_def split: if_splits prod.splits)
  next
    case CallClaim
    then show ?thesis
      using Cons.prems Cons.IH [of "fst (claim_pass q)"]
      by (fastforce simp: claim_pass_def Let_def split: if_splits prod.splits list.splits)
  next
    case CallStop
    have "ins = [] \<and> outs = [] \<and> wq_stopped q'"
      using stopped_history [of "stop q" cs] Cons.prems CallStop by (auto simp: stop_def)
    then show ?thesis using CallStop by simp
  qed
qed simp

text \<open>
  C24. The ready queue loses and duplicates nothing: after any history of scheduling, claiming
  and stopping, the jobs handed out are, in order, the first of the jobs taken in; while the
  queue is not stopped the others are exactly those it still holds, each once and never more
  than the capacity.
\<close>
theorem work_queue_fifo:
  assumes "run_queue (new_work_queue n) calls = (q, taken, given)"
  shows "(\<exists>rest. taken = given @ rest \<and> (wq_stopped q \<or> rest = wq_order q))
       \<and> distinct (wq_order q) \<and> set (wq_order q) = wq_scheduled q
       \<and> length (wq_order q) \<le> wq_capacity q"
proof -
  have "queue_ok q"
    using run_queue_ok [OF queue_ok_new, of n calls] assms by simp
  moreover have "\<exists>rest. taken = given @ rest \<and> (wq_stopped q \<or> rest = wq_order q)"
    using run_queue_fifo [OF assms] by (auto simp: new_work_queue_def split: if_splits)
  ultimately show ?thesis by (simp add: queue_ok_def)
qed

theorem work_queue_fifo_witness:
  "\<exists>q. run_queue (new_work_queue 2)
      [CallSchedule ''a'', CallSchedule ''b'', CallSchedule ''c'', CallClaim, CallSchedule ''a'']
      = (q, [''a'', ''b'', ''a''], [''a'']) \<and> wq_order q = [''b'', ''a'']"
proof -
  let ?cs = "[CallSchedule ''a'', CallSchedule ''b'', CallSchedule ''c'', CallClaim, CallSchedule ''a'']"
  obtain q where q: "run_queue (new_work_queue 2) ?cs = (q, [''a'', ''b'', ''a''], [''a''])"
    "\<not> wq_stopped q"
    by (simp add: new_work_queue_def schedule_def claim_pass_def)
  with work_queue_fifo [OF q(1)] show ?thesis by auto
qed

end
