(* ===== verification/Coordinator.thy ===== *)
theory Coordinator
  imports Transfer_History Work_Queue
begin

text \<open>
  The serialized runtime of the transfer coordinator (\<open>transfer/coordinator.rs\<close>): every
  command loads the job's aggregate, decides with the pure reducer and performs the effects
  against the durable store and the job's in-memory cell, under the job's own lock. The one
  place where the lock is given up, the wait for the worker, is a parameter: whatever the
  rest of the program does meanwhile.
\<close>

section \<open>State\<close>

datatype fault_kind =
    FaultTransition | FaultSend | FaultCheckpoint | FaultWorkerPanic | FaultDesiredRunState
  | FaultShutdown

datatype failure_class =
    ClassLocalIo | ClassRemote | ClassIntegrity | ClassConfiguration | ClassCancelled

record coordinator_fault =
  cf_job_id :: "job_id option"
  cf_kind :: fault_kind
  cf_class :: failure_class

text \<open>
  What the coordinator keeps per job: the runtime job, the version cell, the worker control
  and the commit control, which are installed and removed together.
\<close>

record runtime_job =
  rt_state :: transfer_job_state
  rt_desired :: desired_run_state
  rt_device :: device_id
  rt_target :: target_key
  rt_version :: u64
  rt_observed :: u64
  rt_control :: job_control
  rt_commit :: commit_control

record coordinator =
  co_store :: transfer_db
  co_jobs :: "job_id \<rightharpoonup> runtime_job"
  co_queue :: work_queue
  co_leases :: target_leases
  co_faults :: "coordinator_fault list"
  co_observation :: u64

text \<open>\<open>CoPanic\<close> stands for the source's \<open>expect\<close> and \<open>unreachable!\<close>.\<close>

datatype coordinator_error =
    CoPersistence persistence_error
  | CoNotFound job_id
  | CoAlreadyTerminal job_id
  | CoNotTerminal job_id
  | CoNotFailed job_id
  | CoTimeout job_id
  | CoCommitIrreversible job_id
  | CoStale job_id u64 u64
  | CoVerification
  | CoShuttingDown
  | CoPanic

fun reject_error :: "job_id \<Rightarrow> reject_reason \<Rightarrow> coordinator_error" where
  "reject_error j AlreadyTerminal = CoAlreadyTerminal j"
| "reject_error j NotTerminal = CoNotTerminal j"
| "reject_error j NotFailed = CoNotFailed j"
| "reject_error j (IllegalTransition s t) = CoPersistence Conflict"

fun map_complete_job_error :: "complete_job_error \<Rightarrow> coordinator_error" where
  "map_complete_job_error (CompletePersistence e) = CoPersistence e"
| "map_complete_job_error _ = CoPersistence Conflict"

definition record_fault ::
    "coordinator \<Rightarrow> job_id option \<Rightarrow> fault_kind \<Rightarrow> failure_class \<Rightarrow> coordinator" where
  "record_fault st j kind class =
     st\<lparr>co_faults := co_faults st @ [\<lparr>cf_job_id = j, cf_kind = kind, cf_class = class\<rparr>]\<rparr>"

definition update_runtime ::
    "coordinator \<Rightarrow> job_id \<Rightarrow> (runtime_job \<Rightarrow> runtime_job) \<Rightarrow> coordinator" where
  "update_runtime st j f =
     (case co_jobs st j of
        None \<Rightarrow> st
      | Some rt \<Rightarrow> st\<lparr>co_jobs := (co_jobs st)(j \<mapsto> f rt)\<rparr>)"

definition schedule_job :: "coordinator \<Rightarrow> job_id \<Rightarrow> coordinator \<times> schedule_outcome" where
  "schedule_job st j =
     (let (q, r) = schedule (co_queue st) j;
          st' = st\<lparr>co_queue := q\<rparr>
      in ((case r of
             Scheduled \<Rightarrow> st'
           | AlreadyScheduled \<Rightarrow> st'
           | QueueFull \<Rightarrow> record_fault st' (Some j) FaultSend ClassLocalIo
           | QueueStopped \<Rightarrow> record_fault st' (Some j) FaultSend ClassCancelled), r))"

section \<open>Performing a decision\<close>

fun terminal_outcome_of ::
    "job_state_tag \<Rightarrow> (string \<times> bool) option \<Rightarrow> terminal_outcome option" where
  "terminal_outcome_of TagSucceeded _ = Some OutcomeSucceeded"
| "terminal_outcome_of TagCancelled _ = Some OutcomeCancelled"
| "terminal_outcome_of TagFailed (Some (code, retryable)) = Some (OutcomeFailed code retryable)"
| "terminal_outcome_of _ _ = None"

definition store_transition ::
    "string \<Rightarrow> transfer_db \<Rightarrow> job_id \<Rightarrow> u64 \<Rightarrow> transfer_job_state
     \<Rightarrow> coordinator_error + transfer_db" where
  "store_transition now db j expected to =
     (let (tag, error) = state_to_tag to
      in if is_terminal to then
           (case find_job db j of
              None \<Rightarrow> Inl (CoNotFound j)
            | Some current \<Rightarrow>
                if sj_version current \<noteq> expected
                then Inl (CoStale j expected (sj_version current))
                else (case terminal_outcome_of tag error of
                        None \<Rightarrow> Inl CoPanic
                      | Some ending \<Rightarrow>
                          (case complete_job db j ending now of
                             Inl e \<Rightarrow> Inl (map_complete_job_error e)
                           | Inr (db', _) \<Rightarrow> Inr db')))
         else
           (case transition_job db j expected tag error now of
              Inl e \<Rightarrow> Inl (CoPersistence e)
            | Inr (db', _) \<Rightarrow> Inr db'))"

definition commit_transition ::
    "string \<Rightarrow> coordinator \<Rightarrow> job_id \<Rightarrow> u64 \<Rightarrow> transfer_job_state
     \<Rightarrow> coordinator \<times> (coordinator_error + unit)" where
  "commit_transition now st j expected to =
     (case store_transition now (co_store st) j expected to of
        Inl e \<Rightarrow> (st, Inl e)
      | Inr db \<Rightarrow>
          (update_runtime (st\<lparr>co_store := db\<rparr>) j (\<lambda>rt. rt\<lparr>rt_state := to\<rparr>), Inr ()))"

text \<open>
  The cells of a job that was removed meanwhile are no longer shared with anyone: an effect on
  them is no effect, and one that has to read them reports the job as not found.
\<close>

fun perform ::
    "string \<Rightarrow> coordinator \<Rightarrow> job_id \<Rightarrow> effect \<Rightarrow> coordinator \<times> (coordinator_error + unit)" where
  "perform now st j (Commit expected to) =
     (case co_jobs st j of
        None \<Rightarrow> (st, Inl (CoNotFound j))
      | Some rt \<Rightarrow>
          if rt_version rt \<noteq> expected then (st, Inl (CoStale j expected (rt_version rt)))
          else (case commit_transition now st j expected to of
                  (st', Inl e) \<Rightarrow>
                    (record_fault st' (Some j) FaultTransition ClassLocalIo, Inl e)
                | (st', Inr _) \<Rightarrow>
                    (update_runtime st' j (\<lambda>rt. rt\<lparr>rt_version := expected + 1\<rparr>), Inr ())))"
| "perform now st j (SetDesiredRunState desired) =
     (case co_jobs st j of
        None \<Rightarrow> (st, Inl (CoNotFound j))
      | Some rt \<Rightarrow>
          (case set_desired_run_state (co_store st) j desired now (Some (rt_version rt)) of
             Inl e \<Rightarrow>
               (record_fault st (Some j) FaultDesiredRunState ClassLocalIo, Inl (CoPersistence e))
           | Inr db \<Rightarrow>
               (update_runtime (st\<lparr>co_store := db\<rparr>) j (\<lambda>rt. rt\<lparr>rt_desired := desired\<rparr>), Inr ())))"
| "perform now st j (RequestInterrupt reason) =
     (if reason = CancelInterrupt then
        (case co_jobs st j of
           None \<Rightarrow> (st, Inl (CoNotFound j))
         | Some rt \<Rightarrow>
             let (r, c) = request_cancel (rt_commit rt);
                 st' = update_runtime st j (\<lambda>rt. rt\<lparr>rt_commit := c\<rparr>)
             in if r = CancelTooLate then (st', Inl (CoCommitIrreversible j))
                else (update_runtime st' j
                        (\<lambda>rt. rt\<lparr>rt_control := request_interrupt reason (rt_control rt)\<rparr>), Inr ()))
      else
        (update_runtime st j (\<lambda>rt. rt\<lparr>rt_control := request_interrupt reason (rt_control rt)\<rparr>),
         Inr ()))"
| "perform now st j ClearInterrupt =
     (update_runtime st j (\<lambda>rt. rt\<lparr>rt_control := clear_interrupt (rt_control rt)\<rparr>), Inr ())"
| "perform now st j Dispatch = (fst (schedule_job st j), Inr ())"
| "perform now st j (RecordDeviceVersion v) =
     (update_runtime st j (\<lambda>rt. rt\<lparr>rt_observed := max (rt_observed rt) v\<rparr>), Inr ())"
| "perform now st j AwaitWorkerRelease = (st, Inr ())"
| "perform now st j SpawnRetryJob = (st, Inr ())"
| "perform now st j RemoveJob = (st, Inr ())"

text \<open>The effects up to the wait for the worker; \<open>Some\<close> are those that come after it.\<close>

fun perform_until_await ::
    "string \<Rightarrow> coordinator \<Rightarrow> job_id \<Rightarrow> effect list
     \<Rightarrow> coordinator \<times> (coordinator_error + effect list option)" where
  "perform_until_await now st j [] = (st, Inr None)"
| "perform_until_await now st j (e # es) =
     (if e = AwaitWorkerRelease then (st, Inr (Some es))
      else case perform now st j e of
        (st', Inl err) \<Rightarrow> (st', Inl err)
      | (st', Inr _) \<Rightarrow> perform_until_await now st' j es)"

fun perform_rest ::
    "string \<Rightarrow> coordinator \<Rightarrow> job_id \<Rightarrow> effect list \<Rightarrow> coordinator \<times> (coordinator_error + unit)" where
  "perform_rest now st j [] = (st, Inr ())"
| "perform_rest now st j (e # es) =
     (case perform now st j e of
        (st', Inl err) \<Rightarrow> (st', Inl err)
      | (st', Inr _) \<Rightarrow> perform_rest now st' j es)"

definition load_aggregate :: "runtime_job \<Rightarrow> job_aggregate" where
  "load_aggregate rt =
     \<lparr>ja_state = rt_state rt, ja_version = rt_version rt, ja_desired_run_state = rt_desired rt,
      ja_observed_device_version = rt_observed rt\<rparr>"

text \<open>
  \<open>await\<close>: the coordinator after \<open>wait_for_inactive\<close>, during which other commands and
  the workers run, and whether the worker was released in time.
\<close>

type_synonym await = "coordinator \<Rightarrow> coordinator \<times> bool"

definition stale_version :: "job_id \<Rightarrow> runtime_job \<Rightarrow> u64 option \<Rightarrow> coordinator_error option" where
  "stale_version j rt expected =
     (case expected of
        None \<Rightarrow> None
      | Some e \<Rightarrow> if e \<noteq> rt_version rt then Some (CoStale j e (rt_version rt)) else None)"

definition perform_decision ::
    "string \<Rightarrow> await \<Rightarrow> coordinator \<Rightarrow> job_id \<Rightarrow> decision
     \<Rightarrow> coordinator \<times> (coordinator_error + command_outcome)" where
  "perform_decision now await st j d =
     (case perform_until_await now st j (effects d) of
        (st1, Inl err) \<Rightarrow> (st1, Inl err)
      | (st1, Inr None) \<Rightarrow> (st1, Inr (outcome d))
      | (st1, Inr (Some rest)) \<Rightarrow>
          (case await st1 of
             (st2, False) \<Rightarrow> (st2, Inl (CoTimeout j))
           | (st2, True) \<Rightarrow>
               (case perform_rest now st2 j rest of
                  (st3, Inl err) \<Rightarrow> (st3, Inl err)
                | (st3, Inr _) \<Rightarrow> (st3, Inr (outcome d)))))"

definition apply_checked ::
    "string \<Rightarrow> await \<Rightarrow> coordinator \<Rightarrow> job_id \<Rightarrow> job_command \<Rightarrow> u64 option
     \<Rightarrow> coordinator \<times> (coordinator_error + command_outcome)" where
  "apply_checked now await st j c expected =
     (case co_jobs st j of
        None \<Rightarrow> (st, Inl (CoNotFound j))
      | Some rt \<Rightarrow>
          (case stale_version j rt expected of
             Some err \<Rightarrow> (st, Inl err)
           | None \<Rightarrow>
               let d = decide (load_aggregate rt) c
               in case outcome d of
                    Rejected reason \<Rightarrow> (st, Inl (reject_error j reason))
                  | _ \<Rightarrow> perform_decision now await st j d))"

definition apply_command ::
    "string \<Rightarrow> await \<Rightarrow> coordinator \<Rightarrow> job_id \<Rightarrow> job_command
     \<Rightarrow> coordinator \<times> (coordinator_error + command_outcome)" where
  "apply_command now await st j c = apply_checked now await st j c None"

section \<open>The commands of the coordinator\<close>

definition worker_report_command ::
    "string \<Rightarrow> await \<Rightarrow> coordinator \<Rightarrow> job_id \<Rightarrow> worker_report
     \<Rightarrow> coordinator \<times> (coordinator_error + command_outcome)" where
  "worker_report_command now await st j report =
     (case apply_command now await st j (Worker report) of
        (st', Inl e) \<Rightarrow> (record_fault st' (Some j) FaultTransition ClassLocalIo, Inl e)
      | (st', Inr r) \<Rightarrow> (st', Inr r))"

text \<open>
  \<open>device_snapshot\<close> mints the observation number; the reading itself is the adapter's.
\<close>

definition observe_device ::
    "string \<Rightarrow> await \<Rightarrow> (device_id \<Rightarrow> device_snapshot) \<Rightarrow> coordinator \<Rightarrow> job_id \<Rightarrow> device_id
     \<Rightarrow> coordinator \<times> (coordinator_error + device_readiness)" where
  "observe_device now await status st j device =
     (let v = co_observation st + 1;
          st' = st\<lparr>co_observation := v\<rparr>;
          snap = (status device)\<lparr>snap_version := v\<rparr>
      in case apply_command now await st' j (DeviceObserved snap) of
           (st'', Inl e) \<Rightarrow> (st'', Inl e)
         | (st'', Inr _) \<Rightarrow> (st'', Inr (readiness snap)))"

definition pause_job :: "string \<Rightarrow> await \<Rightarrow> coordinator \<Rightarrow> job_id
     \<Rightarrow> coordinator \<times> (coordinator_error + command_outcome)" where
  "pause_job now await st j = apply_command now await st j Pause"

definition resume_job :: "string \<Rightarrow> await \<Rightarrow> coordinator \<Rightarrow> job_id
     \<Rightarrow> coordinator \<times> (coordinator_error + command_outcome)" where
  "resume_job now await st j = apply_command now await st j Resume"

definition job_is_cancelled :: "coordinator \<Rightarrow> job_id \<Rightarrow> bool" where
  "job_is_cancelled st j \<longleftrightarrow>
     (case co_jobs st j of None \<Rightarrow> False | Some rt \<Rightarrow> rt_state rt = Cancelled)"

definition forgive_cancelled ::
    "job_id \<Rightarrow> coordinator \<times> (coordinator_error + command_outcome)
     \<Rightarrow> coordinator \<times> (coordinator_error + unit)" where
  "forgive_cancelled j r =
     (case r of
        (st, Inr _) \<Rightarrow> (st, Inr ())
      | (st, Inl (CoAlreadyTerminal k)) \<Rightarrow>
          (st, if job_is_cancelled st j then Inr () else Inl (CoAlreadyTerminal k))
      | (st, Inl e) \<Rightarrow> (st, Inl e))"

definition cancel_job ::
    "string \<Rightarrow> await \<Rightarrow> coordinator \<Rightarrow> job_id \<Rightarrow> coordinator \<times> (coordinator_error + unit)" where
  "cancel_job now await st j =
     (case apply_command now await st j Cancel of
        (st', Inr _) \<Rightarrow> forgive_cancelled j (apply_command now await st' j FinalizeCancel)
      | r \<Rightarrow> forgive_cancelled j r)"

definition dismiss ::
    "string \<Rightarrow> await \<Rightarrow> coordinator \<Rightarrow> job_id \<Rightarrow> coordinator \<times> (coordinator_error + unit)" where
  "dismiss now await st j =
     (if co_jobs st j = None then (st, Inl (CoNotFound j))
      else case apply_command now await st j Dismiss of
        (st', Inl e) \<Rightarrow> (st', Inl e)
      | (st', Inr _) \<Rightarrow>
          (case delete_job (co_store st') j of
             Inl e \<Rightarrow> (st', Inl (CoPersistence e))
           | Inr (db, _) \<Rightarrow>
               (st'\<lparr>co_store := db, co_jobs := (co_jobs st')(j := None)\<rparr>, Inr ())))"

text \<open>
  Dismissal without deletion: the durable row stays as a tombstone, the runtime goes; only an
  acknowledged terminal outcome may be hidden.
\<close>

definition validate_dismissal :: "coordinator \<Rightarrow> job_id \<Rightarrow> coordinator_error + unit" where
  "validate_dismissal st j =
     (case co_jobs st j of
        None \<Rightarrow> Inl (CoNotFound j)
      | Some rt \<Rightarrow>
          and_then (ensure (is_terminal (rt_state rt)) (CoNotTerminal j)) (\<lambda>_.
          (case find_completion (co_store st) j of
             None \<Rightarrow> Inl (CoPersistence Conflict)
           | Some completion \<Rightarrow> ensure (is_acknowledged completion) (CoPersistence Conflict))))"

definition dismiss_runtime ::
    "string \<Rightarrow> await \<Rightarrow> coordinator \<Rightarrow> job_id \<Rightarrow> coordinator \<times> (coordinator_error + unit)" where
  "dismiss_runtime now await st j =
     (case validate_dismissal st j of
        Inl e \<Rightarrow> (st, Inl e)
      | Inr _ \<Rightarrow>
          (case apply_command now await st j Dismiss of
             (st', Inl e) \<Rightarrow> (st', Inl e)
           | (st', Inr _) \<Rightarrow> (st'\<lparr>co_jobs := (co_jobs st')(j := None)\<rparr>, Inr ())))"

record job_snapshot =
  sn_version :: u64
  sn_device :: device_id
  sn_target :: target_key
  sn_state :: transfer_job_state
  sn_failure :: "(failure_code \<times> bool) option"
  sn_desired :: desired_run_state
  sn_active :: bool

fun failure_of :: "transfer_job_state \<Rightarrow> (failure_code \<times> bool) option" where
  "failure_of (Failed code retryable) = Some (code, retryable)"
| "failure_of _ = None"

definition snapshot :: "coordinator \<Rightarrow> job_id \<Rightarrow> job_snapshot option" where
  "snapshot st j =
     map_option (\<lambda>rt. \<lparr>sn_version = rt_version rt, sn_device = rt_device rt,
        sn_target = rt_target rt, sn_state = rt_state rt, sn_failure = failure_of (rt_state rt),
        sn_desired = rt_desired rt, sn_active = ctl_active (rt_control rt)\<rparr>) (co_jobs st j)"

section \<open>Memory and disk agree\<close>

definition coherent :: "transfer_db \<Rightarrow> job_id \<Rightarrow> runtime_job \<Rightarrow> bool" where
  "coherent db j rt \<longleftrightarrow>
     (\<exists>row. find_job db j = Some row \<and> sj_version row = rt_version rt
        \<and> (sj_state row, sj_error row) = state_to_tag (rt_state rt)
        \<and> sj_desired row = rt_desired rt)"

definition coordinator_ok :: "coordinator \<Rightarrow> bool" where
  "coordinator_ok st \<longleftrightarrow>
     store_ok (co_store st)
     \<and> (\<forall>j rt. co_jobs st j = Some rt \<longrightarrow> coherent (co_store st) j rt)"

text \<open>A step on job \<open>j\<close> that keeps the invariant and touches no other job's cell.\<close>

definition good_step :: "job_id \<Rightarrow> coordinator \<Rightarrow> coordinator \<Rightarrow> bool" where
  "good_step j st st' \<longleftrightarrow>
     coordinator_ok st' \<and> (\<forall>k. k \<noteq> j \<longrightarrow> co_jobs st' k = co_jobs st k)"

lemma good_stepI:
  assumes "store_ok (co_store st')" and "\<And>k. k \<noteq> j \<Longrightarrow> co_jobs st' k = co_jobs st k"
    and "\<And>k. k \<noteq> j \<Longrightarrow> find_job (co_store st') k = find_job (co_store st) k"
    and "coordinator_ok st" and "\<And>rt. co_jobs st' j = Some rt \<Longrightarrow> coherent (co_store st') j rt"
  shows "good_step j st st'"
proof -
  have "coherent (co_store st') k rt" if "co_jobs st' k = Some rt" for k rt
  proof (cases "k = j")
    case False
    then have "coherent (co_store st) k rt"
      using assms(2) [OF False] assms(4) that by (simp add: coordinator_ok_def)
    then show ?thesis using assms(3) [OF False] by (simp add: coherent_def)
  qed (use assms(5) that in simp)
  then show ?thesis
    using assms(1,2) by (simp add: good_step_def coordinator_ok_def)
qed

lemma good_step_refl: "coordinator_ok st \<Longrightarrow> good_step j st st"
  by (simp add: good_step_def)

lemma good_step_trans: "good_step j a b \<Longrightarrow> good_step j b c \<Longrightarrow> good_step j a c"
  by (simp add: good_step_def)

lemma record_fault_ok [simp]:
  "coordinator_ok (record_fault st j k c) = coordinator_ok st"
  "co_jobs (record_fault st j k c) = co_jobs st" "co_store (record_fault st j k c) = co_store st"
  by (simp_all add: record_fault_def coordinator_ok_def)

lemma schedule_job_same [simp]:
  "co_jobs (fst (schedule_job st j)) = co_jobs st"
  "co_store (fst (schedule_job st j)) = co_store st"
  by (simp_all add: schedule_job_def Let_def case_prod_beta split: schedule_outcome.splits)

lemma coordinator_ok_cong:
  "co_jobs st' = co_jobs st \<Longrightarrow> co_store st' = co_store st \<Longrightarrow>
     coordinator_ok st' = coordinator_ok st"
  by (simp add: coordinator_ok_def)

lemma update_runtime_simps [simp]:
  "co_store (update_runtime st j f) = co_store st"
  "co_jobs (update_runtime st j f) k =
     (if k = j then map_option f (co_jobs st j) else co_jobs st k)"
  by (auto simp: update_runtime_def split: option.splits)

text \<open>An update of a cell that no durable column mirrors.\<close>

lemma update_runtime_good:
  assumes "coordinator_ok st"
    and "\<And>rt. rt_version (f rt) = rt_version rt \<and> rt_state (f rt) = rt_state rt
            \<and> rt_desired (f rt) = rt_desired rt"
  shows "good_step j st (update_runtime st j f)"
  using assms by (intro good_stepI) (auto simp: coordinator_ok_def coherent_def)

lemma state_to_tag_live:
  "\<not> is_terminal s \<Longrightarrow> snd (state_to_tag s) = None"
  by (cases s) simp_all

lemma terminal_outcome_of_columns:
  "terminal_outcome_of tag err = Some e \<Longrightarrow> (tag, err) = state_to_tag s \<Longrightarrow> is_terminal s \<Longrightarrow>
     outcome_tag e = tag \<and> error_columns e = err"
  by (cases s) auto

lemma store_transition_delta:
  assumes ok: "store_ok db" and live: "\<not> tag_is_terminal (sj_state row)"
    and row: "find_job db j = Some row"
    and step: "store_transition now db j v to = Inr db'"
  obtains row' where "store_ok db'" and "sj_version row = v"
    and "find_job db' = (find_job db)(j \<mapsto> row')" and "sj_version row' = v + 1"
    and "unat (v + 1) = unat v + 1"
    and "(sj_state row', sj_error row') = state_to_tag to" and "sj_desired row' = sj_desired row"
proof (cases "is_terminal to")
  case True
  obtain ending res where v: "sj_version row = v"
    and ending: "terminal_outcome_of (fst (state_to_tag to)) (snd (state_to_tag to)) = Some ending"
    and fin: "complete_job_inner db j ending now None = Inr (db', res)"
    using step row True
    by (auto simp: store_transition_def complete_job_def case_prod_beta Let_def
        split: option.splits sum.splits if_splits)
  have cols: "(outcome_tag ending, error_columns ending) = state_to_tag to"
    using terminal_outcome_of_columns [OF ending _ True] by (metis prod.collapse)
  from store_okD(1) [OF ok] fin show ?thesis
  proof (cases rule: complete_delta)
    case (already c)
    then show ?thesis using completed_terminal [OF ok already(1) row] live by simp
  next
    case (recorded r r' c)
    have r: "r = row"
      using recorded(1) row by simp
    have r': "unat (sj_version r') = unat v + 1"
      "r' = row\<lparr>sj_state := outcome_tag ending, sj_version := v + 1,
               sj_error := error_columns ending, sj_updated_at := now\<rparr>"
      using recorded(11) unfolding r if_not_P [OF live] v by blast+
    have ver: "sj_version r' = v + 1" by (simp add: r'(2))
    have nat: "unat (v + 1) = unat v + 1" using r'(1) unfolding ver .
    show ?thesis
      by (rule that [of r'])
         (use complete_store_ok [OF ok fin] v recorded(12) ver nat cols in \<open>simp_all add: r'(2)\<close>)
  qed
next
  case False
  obtain n where fin: "transition_job db j v (fst (state_to_tag to)) (snd (state_to_tag to)) now = Inr (db', n)"
    using step False
    by (auto simp: store_transition_def case_prod_beta Let_def split: sum.splits)
  show ?thesis
  proof (rule transition_delta [OF store_okD(1) [OF ok] fin])
    fix r :: stored_job
    let ?r = "r\<lparr>sj_state := fst (state_to_tag to), sj_version := n,
               sj_error := snd (state_to_tag to), sj_updated_at := now\<rparr>"
    assume "find_job db j = Some r" "sj_version r = v" "n = v + 1" "unat n = unat v + 1"
      and "find_job db' = (find_job db)(j \<mapsto> ?r)"
    then show ?thesis
      using row transition_store_ok [OF ok fin] by (intro that [of ?r]) auto
  qed
qed

lemma coherentD:
  assumes "coordinator_ok st" "co_jobs st j = Some rt"
  obtains row where "find_job (co_store st) j = Some row" "sj_version row = rt_version rt"
    "(sj_state row, sj_error row) = state_to_tag (rt_state rt)" "sj_desired row = rt_desired rt"
    "tag_is_terminal (sj_state row) = is_terminal (rt_state rt)"
proof -
  obtain row where row: "find_job (co_store st) j = Some row" "sj_version row = rt_version rt"
    "(sj_state row, sj_error row) = state_to_tag (rt_state rt)" "sj_desired row = rt_desired rt"
    using assms by (auto simp: coordinator_ok_def coherent_def)
  moreover have "tag_is_terminal (sj_state row) = is_terminal (rt_state rt)"
    using tag_terminal_iff [of "rt_state rt"] by (simp flip: row(3))
  ultimately show thesis by (rule that)
qed

lemma perform_commit_good:
  assumes ok: "coordinator_ok st" and rt: "co_jobs st j = Some rt"
    and live: "\<not> is_terminal (rt_state rt)"
    and step: "perform now st j (Commit v to) = (st', r)"
  shows "good_step j st st'
    \<and> (case r of
         Inl _ \<Rightarrow> co_jobs st' = co_jobs st \<and> co_store st' = co_store st
       | Inr _ \<Rightarrow> v = rt_version rt
           \<and> co_jobs st' j = Some (rt\<lparr>rt_state := to, rt_version := v + 1\<rparr>))"
proof (cases "rt_version rt = v")
  case False
  then show ?thesis using step rt ok by (auto simp: good_step_refl)
next
  case True
  show ?thesis
  proof (cases "store_transition now (co_store st) j v to")
    case (Inl e)
    then have "st' = record_fault st (Some j) FaultTransition ClassLocalIo" "r = Inl e"
      using step rt True by (simp_all add: commit_transition_def)
    then show ?thesis using ok by (simp add: good_step_def)
  next
    case (Inr db)
    then have st': "co_store st' = db" "r = Inr ()"
      "co_jobs st' = (co_jobs st)(j \<mapsto> rt\<lparr>rt_state := to, rt_version := v + 1\<rparr>)"
      using step rt True by (auto simp: commit_transition_def update_runtime_def)
    obtain row where row: "find_job (co_store st) j = Some row" "sj_desired row = rt_desired rt"
      "\<not> tag_is_terminal (sj_state row)"
      using coherentD [OF ok rt] live by metis
    have "store_ok (co_store st)" using ok by (simp add: coordinator_ok_def)
    then show ?thesis
    proof (rule store_transition_delta [OF _ row(3,1) Inr])
      fix row' :: stored_job
      assume new: "store_ok db" "find_job db = (find_job (co_store st))(j \<mapsto> row')"
        "sj_version row' = v + 1" "(sj_state row', sj_error row') = state_to_tag to"
        "sj_desired row' = sj_desired row"
      have "good_step j st st'"
        by (rule good_stepI) (use ok new st' row in \<open>auto simp: coherent_def\<close>)
      then show ?thesis using st' True by simp
    qed
  qed
qed

fun is_commit :: "effect \<Rightarrow> bool" where
  "is_commit (Commit _ _) = True"
| "is_commit _ = False"

lemma commits_of_other: "\<not> is_commit e \<Longrightarrow> commits_of (e # es) = commits_of es"
  by (cases e) simp_all

lemma perform_desired_good:
  assumes ok: "coordinator_ok st" and step: "perform now st j (SetDesiredRunState d) = (st', r)"
    and rt: "co_jobs st j = Some rt"
  shows "good_step j st st' \<and> (\<exists>rt'. co_jobs st' j = Some rt' \<and> rt_state rt' = rt_state rt
           \<and> rt_version rt' = rt_version rt)"
proof (cases "set_desired_run_state (co_store st) j d now (Some (rt_version rt))")
  case (Inl e)
  then show ?thesis
    using step rt ok by (auto simp: good_step_def)
next
  case (Inr db)
  then have st': "co_store st' = db" "co_jobs st' = (co_jobs st)(j \<mapsto> rt\<lparr>rt_desired := d\<rparr>)"
    using step rt by (auto simp: update_runtime_def)
  have sok: "store_ok (co_store st)" using ok by (simp add: coordinator_ok_def)
  have "good_step j st st'"
  proof (rule set_desired_delta [OF store_okD(1) [OF sok] Inr])
    fix row :: stored_job
    assume new: "find_job (co_store st) j = Some row"
      "find_job db = (find_job (co_store st))(j \<mapsto> row\<lparr>sj_desired := d, sj_updated_at := now\<rparr>)"
    obtain row0 where "find_job (co_store st) j = Some row0" "sj_version row0 = rt_version rt"
      "(sj_state row0, sj_error row0) = state_to_tag (rt_state rt)"
      using coherentD [OF ok rt] by metis
    then show ?thesis
      by (intro good_stepI)
         (use ok new st' set_desired_store_ok [OF sok Inr] in \<open>auto simp: coherent_def\<close>)
  qed
  then show ?thesis using st' by simp
qed

lemma perform_other_good:
  assumes ok: "coordinator_ok st" and e: "\<not> is_commit e"
    and step: "perform now st j e = (st', r)" and rt: "co_jobs st j = Some rt"
  shows "good_step j st st' \<and> (\<exists>rt'. co_jobs st' j = Some rt' \<and> rt_state rt' = rt_state rt
           \<and> rt_version rt' = rt_version rt)"
proof (cases e)
  case (Commit v to)
  then show ?thesis using e by simp
next
  case (SetDesiredRunState d)
  then show ?thesis using perform_desired_good [OF ok _ rt] step by simp
next
  case Dispatch
  then have "co_jobs st' = co_jobs st" "co_store st' = co_store st"
    using step by (metis perform.simps(5) prod.inject schedule_job_same)+
  then show ?thesis using ok rt coordinator_ok_cong [of st' st] by (simp add: good_step_def)
next
  case (RequestInterrupt reason)
  have upd: "good_step j st (update_runtime st j f)"
    if "\<And>rt. rt_version (f rt) = rt_version rt \<and> rt_state (f rt) = rt_state rt
      \<and> rt_desired (f rt) = rt_desired rt" for f
    by (rule update_runtime_good [OF ok that])
  show ?thesis
  proof (cases "reason = CancelInterrupt")
    case False
    then show ?thesis using step RequestInterrupt rt by (auto intro!: upd)
  next
    case True
    let ?st = "update_runtime st j (\<lambda>rt'. rt'\<lparr>rt_commit := snd (request_cancel (rt_commit rt))\<rparr>)"
    have g: "good_step j st ?st" by (rule upd) simp
    then have "good_step j ?st (update_runtime ?st j
        (\<lambda>rt. rt\<lparr>rt_control := request_interrupt reason (rt_control rt)\<rparr>))"
      by (intro update_runtime_good) (simp_all add: good_step_def)
    with g show ?thesis
      using step RequestInterrupt rt True
      by (auto simp: Let_def case_prod_beta split: if_splits intro: good_step_trans)
  qed
qed (use step rt ok in \<open>auto intro!: update_runtime_good good_step_refl\<close>)

text \<open>
  Performing a legal chain of commits mixed with other effects: the invariant holds at every
  stop, and when all effects were performed the cell is in the last committed state, at the
  version the commits count up to.
\<close>

lemma perform_until_good:
  assumes "coordinator_ok st" and "co_jobs st j = Some rt"
    and "job_graph.chain (rt_state rt) (rt_version rt) (commits_of es)"
    and "perform_until_await now st j es = (st', r)"
  shows "good_step j st st'
    \<and> (r = Inr None \<longrightarrow> (\<exists>rt'. co_jobs st' j = Some rt'
         \<and> rt_state rt' = last (rt_state rt # map snd (commits_of es))
         \<and> rt_version rt' = rt_version rt + of_nat (length (commits_of es))))"
  using assms
proof (induction es arbitrary: st rt)
  case Nil
  then show ?case by (auto simp: good_step_refl)
next
  case (Cons e es)
  show ?case
  proof (cases "e = AwaitWorkerRelease")
    case True
    then show ?thesis using Cons.prems by (auto simp: good_step_refl)
  next
    case False
    obtain st1 r1 where one: "perform now st j e = (st1, r1)" by force
    show ?thesis
    proof (cases "is_commit e")
      case True
      then obtain v to where e: "e = Commit v to" by (cases e) auto
      have chain: "v = rt_version rt" "is_legal_transition (rt_state rt) to"
        "job_graph.chain to (rt_version rt + 1) (commits_of es)"
        using Cons.prems(3) by (simp_all add: e)
      have good: "good_step j st st1"
        and upd: "\<And>u. r1 = Inr u \<Longrightarrow> co_jobs st1 j = Some (rt\<lparr>rt_state := to, rt_version := v + 1\<rparr>)"
        using perform_commit_good [OF Cons.prems(1,2) legal_not_terminal [OF chain(2)] one [unfolded e]]
        by (auto split: sum.splits)
      show ?thesis
      proof (cases r1)
        case (Inl err)
        then show ?thesis using Cons.prems(4) False one good by auto
      next
        case (Inr u)
        have "good_step j st1 st' \<and> (r = Inr None \<longrightarrow> (\<exists>rt'. co_jobs st' j = Some rt'
            \<and> rt_state rt' = last (to # map snd (commits_of es))
            \<and> rt_version rt' = v + 1 + of_nat (length (commits_of es))))"
          using Cons.IH [of st1 "rt\<lparr>rt_state := to, rt_version := v + 1\<rparr>"] good upd [OF Inr]
            chain Cons.prems(4) False one Inr
          by (simp add: good_step_def)
        then show ?thesis
          using good chain(1) by (auto simp: e add.assoc add.commute intro: good_step_trans)
      qed
    next
      case other: False
      obtain rt1 where good: "good_step j st st1" and rt1: "co_jobs st1 j = Some rt1"
        "rt_state rt1 = rt_state rt" "rt_version rt1 = rt_version rt"
        using perform_other_good [OF Cons.prems(1) other one Cons.prems(2)] by auto
      show ?thesis
      proof (cases r1)
        case (Inl err)
        then show ?thesis using Cons.prems(4) False one good by auto
      next
        case (Inr u)
        then show ?thesis
          using Cons.IH [of st1 rt1] good rt1 Cons.prems(3,4) False one
          by (auto simp: good_step_def commits_of_other [OF other])
      qed
    qed
  qed
qed

section \<open>Where a decision waits\<close>

lemma commits_towards_no_await:
  "commits_towards a t = Some es \<Longrightarrow> AwaitWorkerRelease \<notin> set es"
  by (auto simp: commits_towards_commits_of)

lemma worker_no_await: "AwaitWorkerRelease \<notin> set (effects (decide_worker a r))"
proof (cases r)
  case (Interrupted reason)
  then show ?thesis
    by (cases reason)
       (auto simp: decide_worker_def decide_interrupted_def decide_finalize_cancel_def commit_def Let_def
          split: option.splits dest: commits_towards_no_await)
next
  case (WorkerPanicked detail)
  then show ?thesis
    by (auto simp: decide_worker_def decide_worker_panic_def commit_def Let_def
          split: option.splits dest: commits_towards_no_await)
qed (simp_all add: decide_worker_def)

lemma device_no_await: "AwaitWorkerRelease \<notin> set (effects (decide_device_observed a d))"
proof -
  have "AwaitWorkerRelease \<notin> set (target_commits a t)" for t
    by (cases "Option.bind t (commits_towards a)")
       (auto simp: target_commits_def bind_eq_Some_conv dest: commits_towards_no_await)
  then show ?thesis
    by (cases "observation_target (ja_state a) (readiness d)")
       (simp_all add: decide_device_observed_def Let_def)
qed

text \<open>Only a pause, a cancel and a dismissal wait, and nothing is committed after the wait.\<close>

lemma decide_await:
  assumes "effects (decide a c) = pre @ AwaitWorkerRelease # rest"
  shows "c \<in> {Pause, Cancel, Dismiss} \<and> list_all (\<lambda>e. \<not> is_commit e) rest"
proof (cases c)
  case Pause
  then show ?thesis using assms
    by (auto simp: decide_pause_def Cons_eq_append_conv split: if_splits)
next
  case Cancel
  then show ?thesis using assms
    by (auto simp: decide_cancel_def commit_def Cons_eq_append_conv split: if_splits)
next
  case Dismiss
  then show ?thesis using assms
    by (auto simp: decide_dismiss_def Cons_eq_append_conv split: if_splits)
next
  case (Worker r)
  then show ?thesis using assms worker_no_await [of a r] by simp
next
  case (DeviceObserved d)
  then show ?thesis using assms device_no_await [of a d] by simp
next
  case Retry
  then show ?thesis using assms
    by (cases "ja_state a") (auto simp: decide_retry_def Cons_eq_append_conv)
next
  case Resume
  then show ?thesis using assms
    by (auto simp: decide_resume_def commit_def Cons_eq_append_conv append_eq_Cons_conv split: if_splits)
next
  case FinalizeCancel
  then show ?thesis using assms
    by (auto simp: decide_finalize_cancel_def commit_def Cons_eq_append_conv split: if_splits)
next
  case (Transition t)
  then show ?thesis using assms
    by (auto simp: decide_transition_def commit_def Cons_eq_append_conv split: if_splits)
qed

lemma perform_until_split:
  "perform_until_await now st j es = (st', Inr (Some rest)) \<Longrightarrow>
     \<exists>pre. es = pre @ AwaitWorkerRelease # rest"
proof (induction es arbitrary: st)
  case (Cons e es)
  show ?case
  proof (cases "e = AwaitWorkerRelease")
    case True
    then show ?thesis using Cons.prems by auto
  next
    case False
    then obtain st1 where "perform_until_await now st1 j es = (st', Inr (Some rest))"
      using Cons.prems by (auto split: prod.splits sum.splits)
    from Cons.IH [OF this] obtain pre where "es = pre @ AwaitWorkerRelease # rest" ..
    then show ?thesis by (intro exI [of _ "e # pre"]) simp
  qed
qed simp

lemma perform_until_no_await:
  "AwaitWorkerRelease \<notin> set es \<Longrightarrow> perform_until_await now st j es = (st', Inr r) \<Longrightarrow> r = None"
  by (cases r) (auto dest: perform_until_split)

lemma perform_quiet_ok:
  assumes ok: "coordinator_ok st" and e: "\<not> is_commit e"
  shows "coordinator_ok (fst (perform now st j e))"
proof (cases "co_jobs st j")
  case (Some rt)
  obtain st' r where "perform now st j e = (st', r)" by force
  with perform_other_good [OF ok e this Some] show ?thesis by (simp add: good_step_def)
next
  case None
  then have upd: "update_runtime st j f = st" for f
    by (simp add: update_runtime_def)
  show ?thesis
  proof (cases e)
    case Dispatch
    then show ?thesis
      using ok coordinator_ok_cong [OF schedule_job_same(1,2) [of st j]] by simp
  qed (use ok e None upd in auto)
qed

lemma perform_rest_ok:
  "coordinator_ok st \<Longrightarrow> list_all (\<lambda>e. \<not> is_commit e) es \<Longrightarrow>
     coordinator_ok (fst (perform_rest now st j es))"
proof (induction es arbitrary: st)
  case (Cons e es)
  then show ?case
    using perform_quiet_ok [of st e now j] Cons.IH [of "fst (perform now st j e)"]
    by (auto split: prod.splits sum.splits)
qed simp

text \<open>The rest of the program keeps the invariant while a command waits for a worker.\<close>

definition await_ok :: "await \<Rightarrow> bool" where
  "await_ok await \<longleftrightarrow> (\<forall>st. coordinator_ok st \<longrightarrow> coordinator_ok (fst (await st)))"

lemma apply_checked_ok:
  assumes ok: "coordinator_ok st" and env: "await_ok await"
  shows "coordinator_ok (fst (apply_checked now await st j c e))"
proof (cases "co_jobs st j")
  case None
  then show ?thesis using ok by (simp add: apply_checked_def)
next
  case (Some rt)
  let ?d = "decide (load_aggregate rt) c"
  have chain: "job_graph.chain (rt_state rt) (rt_version rt) (commits_of (effects ?d))"
    using decide_chain [of "load_aggregate rt" c] by (simp add: load_aggregate_def)
  obtain st1 r where until: "perform_until_await now st j (effects ?d) = (st1, r)" by force
  have st1: "coordinator_ok st1"
    using perform_until_good [OF ok Some chain until] by (simp add: good_step_def)
  have "coordinator_ok (fst (perform_decision now await st j ?d))"
  proof (cases "\<exists>rest. r = Inr (Some rest)")
    case False
    then show ?thesis
      using until st1 by (cases r; cases "projr r") (auto simp: perform_decision_def)
  next
    case True
    then obtain rest where r: "r = Inr (Some rest)" ..
    have quiet: "list_all (\<lambda>e. \<not> is_commit e) rest"
      using perform_until_split [OF until [unfolded r]] decide_await by blast
    obtain st2 b where wait: "await st1 = (st2, b)" by force
    then have "coordinator_ok st2"
      using env st1 unfolding await_ok_def by (metis fst_conv)
    then show ?thesis
      using until r wait perform_rest_ok [OF _ quiet, of st2 now j]
      by (auto simp: perform_decision_def split: prod.splits sum.splits bool.splits)
  qed
  then show ?thesis
    using ok Some
    by (auto simp: apply_checked_def Let_def split: option.splits command_outcome.splits)
qed

lemma apply_ok_final:
  assumes ok: "coordinator_ok st" and rt: "co_jobs st j = Some rt"
    and no_await: "AwaitWorkerRelease \<notin> set (effects (decide (load_aggregate rt) c))"
    and res: "apply_checked now await st j c e = (st', Inr out)"
  shows "out = outcome (decide (load_aggregate rt) c)
    \<and> (\<exists>rt'. co_jobs st' j = Some rt'
        \<and> rt_state rt' = final_state (decide (load_aggregate rt) c) (rt_state rt)
        \<and> rt_version rt'
            = rt_version rt + of_nat (length (commits_of (effects (decide (load_aggregate rt) c)))))"
proof -
  let ?d = "decide (load_aggregate rt) c"
  have chain: "job_graph.chain (rt_state rt) (rt_version rt) (commits_of (effects ?d))"
    using decide_chain [of "load_aggregate rt" c] by (simp add: load_aggregate_def)
  have pd: "perform_decision now await st j ?d = (st', Inr out)"
    using res rt by (auto simp: apply_checked_def Let_def split: option.splits command_outcome.splits)
  obtain st1 r where until: "perform_until_await now st j (effects ?d) = (st1, r)" by force
  have "r = Inr None \<and> st1 = st' \<and> out = outcome ?d"
  proof (cases r)
    case (Inr r')
    then have "r' = None"
      using perform_until_no_await [OF no_await] until by blast
    then show ?thesis using pd until Inr by (simp add: perform_decision_def)
  qed (use pd until in \<open>simp add: perform_decision_def\<close>)
  then show ?thesis
    using perform_until_good [OF ok rt chain until] by (simp add: final_state_last)
qed

section \<open>Properties\<close>


text \<open>
  An accepted command does what it decided: when a command that does not wait for a
  worker returns, the job is in the final state of the reducer's decision, in memory and in
  the durable row, and its version has grown by exactly the number of commits.
\<close>
theorem command_reaches_final_state:
  assumes "coordinator_ok st" and "await_ok await" and "co_jobs st j = Some rt"
    and "AwaitWorkerRelease \<notin> set (effects (decide (load_aggregate rt) c))"
    and "apply_command now await st j c = (st', Inr out)"
  shows "\<exists>rt' row. co_jobs st' j = Some rt' \<and> find_job (co_store st') j = Some row
    \<and> rt_state rt' = final_state (decide (load_aggregate rt) c) (rt_state rt)
    \<and> (sj_state row, sj_error row) = state_to_tag (rt_state rt')
    \<and> sj_version row = rt_version rt' \<and> rt_version rt' = rt_version rt
        + of_nat (length (commits_of (effects (decide (load_aggregate rt) c))))"
proof -
  have res: "apply_checked now await st j c None = (st', Inr out)"
    using assms(5) by (simp add: apply_command_def)
  obtain rt' where rt': "co_jobs st' j = Some rt'"
    "rt_state rt' = final_state (decide (load_aggregate rt) c) (rt_state rt)"
    "rt_version rt' = rt_version rt
        + of_nat (length (commits_of (effects (decide (load_aggregate rt) c))))"
    using apply_ok_final [OF assms(1,3,4) res] by auto
  have "coordinator_ok st'"
    using apply_checked_ok [OF assms(1,2), of now j c None] res by simp
  from coherentD [OF this rt'(1)] rt' show ?thesis by metis
qed

text \<open>
  A stale command is refused before it decides: when the caller's expected version is not
  the job's, nothing changes at all and both versions are reported.
\<close>
theorem stale_command_refused:
  assumes "co_jobs st j = Some rt" and "v \<noteq> rt_version rt"
  shows "apply_checked now await st j c (Some v) = (st, Inl (CoStale j v (rt_version rt)))"
  using assms by (simp add: apply_checked_def stale_version_def)

text \<open>
  A cancel that returns success leaves a cancelled job: if \<open>cancel\<close> succeeds and the
  job is still there, it is \<open>cancelled\<close> in memory and in its durable row, however the
  worker, the device or other commands interleaved.
\<close>
theorem cancel_ends_cancelled:
  assumes "coordinator_ok st" and "await_ok await"
    and "cancel_job now await st j = (st', Inr u)"
  shows "\<exists>rt row. co_jobs st' j = Some rt \<and> rt_state rt = Cancelled
       \<and> find_job (co_store st') j = Some row \<and> sj_state row = TagCancelled"
proof -
  obtain st1 r1 where one: "apply_command now await st j Cancel = (st1, r1)" by force
  have ok1: "coordinator_ok st1"
    using apply_checked_ok [OF assms(1,2), of now j Cancel None] one by (simp add: apply_command_def)
  obtain rt where rt: "co_jobs st' j = Some rt" "rt_state rt = Cancelled" and ok': "coordinator_ok st'"
  proof (cases r1)
    case (Inl e)
    then obtain k where "st' = st1" "e = CoAlreadyTerminal k" "job_is_cancelled st1 j"
      using assms(3) one
      by (cases e) (auto simp: cancel_job_def forgive_cancelled_def split: if_splits)
    then show thesis using that ok1 by (auto simp: job_is_cancelled_def split: option.splits)
  next
    case (Inr o1)
    obtain st2 r2 where two: "apply_command now await st1 j FinalizeCancel = (st2, r2)" by force
    have ok2: "coordinator_ok st2"
      using apply_checked_ok [OF ok1 assms(2), of now j FinalizeCancel None] two
      by (simp add: apply_command_def)
    have st': "st' = st2" "\<And>e. r2 = Inl e \<Longrightarrow> job_is_cancelled st2 j"
      using assms(3) one two Inr
      by (auto simp: cancel_job_def forgive_cancelled_def
          split: sum.splits coordinator_error.splits if_splits)
    show thesis
    proof (cases r2)
      case (Inl e)
      then have "job_is_cancelled st2 j" by (rule st'(2))
      then show thesis using that ok2 st'(1) by (auto simp: job_is_cancelled_def split: option.splits)
    next
      case (Inr o2)
      obtain rt1 where rt1: "co_jobs st1 j = Some rt1"
        using two Inr by (cases "co_jobs st1 j") (auto simp: apply_command_def apply_checked_def)
      let ?d = "decide (load_aggregate rt1) FinalizeCancel"
      have no: "AwaitWorkerRelease \<notin> set (effects ?d)"
        by (simp add: decide_finalize_cancel_def commit_def)
      have two': "apply_checked now await st1 j FinalizeCancel None = (st2, Inr o2)"
        using two Inr by (simp add: apply_command_def)
      have "outcome ?d = Accepted \<or> outcome ?d = NoOp"
        using two' rt1 by (auto simp: apply_checked_def stale_version_def Let_def
            split: command_outcome.splits)
      then have "final_state ?d (rt_state rt1) = Cancelled"
        by (auto simp: decide_finalize_cancel_def commit_def load_aggregate_def split: if_splits)
      then show thesis
        using apply_ok_final [OF ok1 rt1 no two'] that ok2 st'(1) by auto
    qed
  qed
  show ?thesis
    using coherentD [OF ok' rt(1)] rt by (metis fst_conv state_to_tag.simps(13))
qed

section \<open>A concrete coordinator\<close>

definition sample_runtime :: runtime_job where
  "sample_runtime =
     \<lparr>rt_state = Queued, rt_desired = Run, rt_device = ''d'',
      rt_target = \<lparr>tk_device = ''d'', tk_session = ''s''\<rparr>, rt_version = 1, rt_observed = 0,
      rt_control = new_job_control, rt_commit = Cancellable\<rparr>"

definition sample_coordinator :: coordinator where
  "sample_coordinator =
     \<lparr>co_store = sample_db0, co_jobs = [''j'' \<mapsto> sample_runtime],
      co_queue = new_work_queue 4, co_leases = Map.empty, co_faults = [], co_observation = 0\<rparr>"

lemma sample_coordinator_ok: "coordinator_ok sample_coordinator"
proof -
  have "store_ok sample_db0" by (rule run_store_ok [OF store_ok_empty])
  moreover have "coherent sample_db0 ''j'' sample_runtime"
    by (simp add: coherent_def sample_runtime_def sample_eval)
  ultimately show ?thesis
    by (simp add: coordinator_ok_def sample_coordinator_def)
qed

lemma await_ok_id: "await_ok (\<lambda>st. (st, True))"
  by (simp add: await_ok_def)

lemmas coordinator_eval = apply_command_def apply_checked_def stale_version_def
  perform_decision_def load_aggregate_def commit_transition_def store_transition_def
  update_runtime_def record_fault_def schedule_job_def schedule_def sample_coordinator_def
  sample_runtime_def new_work_queue_def new_job_control_def request_interrupt_def
  clear_interrupt_def transition_job_def complete_job_def set_desired_run_state_def

lemmas decide_eval = decide_cancel_def decide_finalize_cancel_def decide_transition_def commit_def
  is_legal_transition_def accepted_def


theorem command_reaches_final_state_witness:
  "\<exists>st' rt'. apply_command ''now'' (\<lambda>st. (st, True)) sample_coordinator ''j'' FinalizeCancel
       = (st', Inr Accepted)
     \<and> co_jobs st' ''j'' = Some rt' \<and> rt_state rt' = Cancelled \<and> rt_version rt' = 3"
proof -
  obtain st' where run: "apply_command ''now'' (\<lambda>st. (st, True)) sample_coordinator ''j'' FinalizeCancel
       = (st', Inr Accepted)"
    by (simp add: coordinator_eval decide_eval sample_eval)
  have job: "co_jobs sample_coordinator ''j'' = Some sample_runtime"
    by (simp add: sample_coordinator_def)
  have d: "decide (load_aggregate sample_runtime) FinalizeCancel
      = accepted [Commit 1 Cancelling, Commit 2 Cancelled, ClearInterrupt]"
    by (simp add: decide_finalize_cancel_def load_aggregate_def sample_runtime_def commit_def
        is_legal_transition_def)
  have no: "AwaitWorkerRelease \<notin> set (effects (decide (load_aggregate sample_runtime) FinalizeCancel))"
    unfolding d by simp
  from command_reaches_final_state [OF sample_coordinator_ok await_ok_id job no run, unfolded d] run
  show ?thesis by (auto simp: sample_runtime_def)
qed

theorem stale_command_refused_witness:
  "apply_checked ''now'' (\<lambda>st. (st, True)) sample_coordinator ''j'' Pause (Some 7)
     = (sample_coordinator, Inl (CoStale ''j'' 7 1))"
  using stale_command_refused [of sample_coordinator "''j''" sample_runtime 7 "''now''"
      "\<lambda>st. (st, True)" Pause]
  by (simp add: sample_coordinator_def sample_runtime_def)

theorem cancel_ends_cancelled_witness:
  "\<exists>st' rt. cancel_job ''now'' (\<lambda>st. (st, True)) sample_coordinator ''j'' = (st', Inr ())
     \<and> co_jobs st' ''j'' = Some rt \<and> rt_state rt = Cancelled"
proof -
  obtain st' where "cancel_job ''now'' (\<lambda>st. (st, True)) sample_coordinator ''j'' = (st', Inr ())"
    by (simp add: cancel_job_def forgive_cancelled_def coordinator_eval decide_eval sample_eval)
  with cancel_ends_cancelled [OF sample_coordinator_ok await_ok_id this] show ?thesis by blast
qed

end
