(* ===== verification/Transfer_Retry.thy ===== *)
theory Transfer_Retry
  imports Transfer_History
begin

text \<open>
  Retrying a failed transfer (\<open>persistence/transfer_store.rs\<close>, \<open>spawn_retry_job_inner\<close>): a new
  job row with the parent's specification, files and evidence (or an empty ledger), linked to the
  parent by a lineage row, in one transaction. The three policies for downloads are modelled in
  full. The branch that writes the row of an upload is a parameter: its tables are not part of
  \<open>transfer_db\<close>. The closure that discards the staged bytes is a parameter too, its result an
  argument, and the model says whether it was called.
\<close>

section \<open>The transaction\<close>

datatype retry_policy = StandardDownload | FreshDownload | DismissedDownloadEnqueue | UploadRetry

datatype retry_job_error =
    RetryUnknownJob job_id
  | RetryNotRetryable job_id
  | RetryDismissedParent job_id
  | RetryUnacknowledgedParent job_id
  | RetrySuccessfulDescendant job_id job_id
  | RetryJobIdCollision job_id
  | RetryPersistence persistence_error

datatype retry_job_outcome = RetryCreated stored_job | RetryExisting stored_job

definition fresh_ledger :: "retry_policy \<Rightarrow> bool" where
  "fresh_ledger policy \<longleftrightarrow> policy \<in> {FreshDownload, DismissedDownloadEnqueue}"

definition retryable_failed :: "stored_job \<Rightarrow> bool" where
  "retryable_failed r \<longleftrightarrow>
     sj_state r = TagFailed \<and> (case sj_error r of None \<Rightarrow> False | Some (code, retryable) \<Rightarrow> retryable)"

text \<open>The lineage rows of the children of a job, joined with the rows of their jobs.\<close>

definition children_of :: "transfer_db \<Rightarrow> job_id \<Rightarrow> lineage_row list" where
  "children_of db p = filter (\<lambda>l. ln_parent l = p \<and> find_job db (ln_child l) \<noteq> None) (db_lineage db)"

text \<open>\<open>ORDER BY attempt DESC LIMIT 1\<close>.\<close>

fun latest_attempt :: "lineage_row list \<Rightarrow> lineage_row option" where
  "latest_attempt [] = None"
| "latest_attempt (l # ls) =
     (case latest_attempt ls of
        None \<Rightarrow> Some l
      | Some b \<Rightarrow> if ln_attempt b < ln_attempt l then Some l else Some b)"

definition previous_child :: "transfer_db \<Rightarrow> job_id \<Rightarrow> lineage_row option" where
  "previous_child db p = latest_attempt (children_of db p)"

definition successful_child :: "transfer_db \<Rightarrow> job_id \<Rightarrow> job_id option" where
  "successful_child db p =
     map_option ln_child (latest_attempt (filter
       (\<lambda>l. (case find_job db (ln_child l) of None \<Rightarrow> False | Some r \<Rightarrow> sj_state r = TagSucceeded))
       (children_of db p)))"

definition lineage_parent :: "transfer_db \<Rightarrow> job_id \<Rightarrow> job_id option" where
  "lineage_parent db child = map_option ln_parent (find (\<lambda>l. ln_child l = child) (db_lineage db))"

definition active_download :: "transfer_db \<Rightarrow> job_identity \<Rightarrow> stored_job option" where
  "active_download db i =
     newest (filter (\<lambda>r. sj_kind r = Download \<and> sj_identity r = i \<and> \<not> tag_is_terminal (sj_state r))
       (db_jobs db))"

text \<open>May this parent be retried at all?\<close>

definition retry_guard ::
    "retry_policy \<Rightarrow> transfer_db \<Rightarrow> job_id \<Rightarrow> retry_job_error + stored_job" where
  "retry_guard policy db p =
     (case find_job db p of
        None \<Rightarrow> Inl (RetryUnknownJob p)
      | Some parent \<Rightarrow>
          and_then (ensure (\<not> (policy = DismissedDownloadEnqueue
              \<and> (sj_kind parent \<noteq> Download \<or> sj_dismissed_at parent = None))) (RetryNotRetryable p)) (\<lambda>_.
          and_then (ensure (sj_dismissed_at parent = None \<or> policy = DismissedDownloadEnqueue)
              (RetryDismissedParent p)) (\<lambda>_.
          and_then (ensure (retryable_failed parent
              \<or> policy = UploadRetry \<and> sj_kind parent = Upload \<and> sj_state parent = TagCancelled)
              (RetryNotRetryable p)) (\<lambda>_.
          (case find_completion db p of
             None \<Rightarrow> Inl (RetryUnacknowledgedParent p)
           | Some completion \<Rightarrow>
               and_then (ensure (is_acknowledged completion) (RetryUnacknowledgedParent p)) (\<lambda>_.
               if sj_kind parent = Upload then
                 (case successful_child db p of
                    Some child \<Rightarrow> Inl (RetrySuccessfulDescendant p child)
                  | None \<Rightarrow> Inr parent)
               else Inr parent))))))"

text \<open>The attempt that already answers the request, or the number of the new one.\<close>

definition retry_selection ::
    "retry_policy \<Rightarrow> transfer_db \<Rightarrow> stored_job \<Rightarrow> job_id \<Rightarrow> retry_job_error + (stored_job + nat)" where
  "retry_selection policy db parent child =
     (let p = sj_job_id parent;
          previous = previous_child db p;
          previous_row = Option.bind previous (\<lambda>l. find_job db (ln_child l));
          live_child = (case previous_row of
              None \<Rightarrow> None
            | Some r \<Rightarrow> if tag_is_terminal (sj_state r) then None else Some r);
          active = (if fresh_ledger policy \<and> sj_kind parent = Download
                    then active_download db (sj_identity parent) else None)
      in case find_job db child of
        Some existing \<Rightarrow>
          if lineage_parent db child = Some p then Inr (Inl existing)
          else Inl (RetryJobIdCollision child)
      | None \<Rightarrow>
          (case (if policy = DismissedDownloadEnqueue then None else live_child) of
             Some r \<Rightarrow> Inr (Inl r)
           | None \<Rightarrow>
          (case active of
             Some r \<Rightarrow> Inr (Inl r)
           | None \<Rightarrow>
          (case (if policy = DismissedDownloadEnqueue then previous_row else None) of
             Some r \<Rightarrow> Inr (Inl r)
           | None \<Rightarrow>
          (case previous of
             None \<Rightarrow> Inr (Inr 1)
           | Some l \<Rightarrow>
               and_then (ensure (ln_attempt l + 1 < 2 ^ 63) (RetryPersistence Conflict)) (\<lambda>_.
               Inr (Inr (ln_attempt l + 1))))))))"

definition retry_natural_key :: "job_identity \<Rightarrow> job_id \<Rightarrow> string" where
  "retry_natural_key i child = natural_key i @ ''#retry:'' @ child"

definition retry_row :: "stored_job \<Rightarrow> job_id \<Rightarrow> string \<Rightarrow> stored_job" where
  "retry_row parent child now =
     \<lparr>sj_job_id = child, sj_kind = Download, sj_natural_key = retry_natural_key (sj_identity parent) child,
      sj_identity = sj_identity parent, sj_digest = sj_digest parent, sj_state = TagQueued,
      sj_version = 1, sj_desired = Run, sj_error = None, sj_created_at = now, sj_updated_at = now,
      sj_dismissed_at = None\<rparr>"

definition copied_entry :: "bool \<Rightarrow> job_id \<Rightarrow> string \<Rightarrow> ledger_row \<Rightarrow> ledger_row" where
  "copied_entry fresh child now e =
     (if fresh then \<lparr>lg_job_id = child, lg_file_id = lg_file_id e, lg_status = LedgerMissing,
                     lg_bytes = 0, lg_sha256 = None, lg_updated_at = now\<rparr>
      else e\<lparr>lg_job_id := child, lg_updated_at := now\<rparr>)"

definition create_retry_child ::
    "transfer_db \<Rightarrow> stored_job \<Rightarrow> job_id \<Rightarrow> string \<Rightarrow> nat \<Rightarrow> bool
     \<Rightarrow> retry_job_error + (transfer_db \<times> retry_job_outcome)" where
  "create_retry_child db parent child now attempt fresh =
     (let p = sj_job_id parent; row = retry_row parent child now
      in and_then (ensure (\<not> list_ex (\<lambda>r. sj_natural_key r = sj_natural_key row) (db_jobs db))
           (RetryPersistence ConstraintViolation)) (\<lambda>_.
         and_then (ensure (\<not> list_ex (\<lambda>l. ln_child l = child \<or> ln_parent l = p \<and> ln_attempt l = attempt)
             (db_lineage db)) (RetryPersistence ConstraintViolation)) (\<lambda>_.
         Inr (db\<lparr>db_jobs := db_jobs db @ [row],
                 db_specs := db_specs db
                   @ map (\<lambda>(_, spec). (child, spec)) (filter (\<lambda>(k, _). k = p) (db_specs db)),
                 db_files := db_files db
                   @ map (\<lambda>f. f\<lparr>fr_job_id := child\<rparr>) (filter (\<lambda>f. fr_job_id f = p) (db_files db)),
                 db_ledger := db_ledger db
                   @ map (copied_entry fresh child now) (filter (\<lambda>e. lg_job_id e = p) (db_ledger db)),
                 db_lineage := db_lineage db
                   @ [\<lparr>ln_child = child, ln_parent = p, ln_attempt = attempt, ln_created_at = now\<rparr>]\<rparr>,
              RetryCreated row))))"

type_synonym upload_branch =
  "transfer_db \<Rightarrow> stored_job \<Rightarrow> nat \<Rightarrow> retry_job_error + (transfer_db \<times> retry_job_outcome)"

text \<open>
  \<open>discard\<close> is the error of the closure that discards the staged bytes, if it fails; the first
  component of the result says whether the closure was called.
\<close>

definition spawn_retry_job ::
    "upload_branch \<Rightarrow> retry_policy \<Rightarrow> transfer_db \<Rightarrow> job_id \<Rightarrow> job_id \<Rightarrow> string
     \<Rightarrow> persistence_error option \<Rightarrow> bool \<times> (retry_job_error + (transfer_db \<times> retry_job_outcome))" where
  "spawn_retry_job upload policy db p child now discard =
     (case retry_guard policy db p of
        Inl e \<Rightarrow> (False, Inl e)
      | Inr parent \<Rightarrow>
          (case retry_selection policy db parent child of
             Inl e \<Rightarrow> (False, Inl e)
           | Inr (Inl existing) \<Rightarrow> (False, Inr (db, RetryExisting existing))
           | Inr (Inr attempt) \<Rightarrow>
               if sj_kind parent = Upload then (False, upload db parent attempt)
               else if fresh_ledger policy then
                 (True, (case discard of
                    Some e \<Rightarrow> Inl (RetryPersistence e)
                  | None \<Rightarrow> create_retry_child db parent child now attempt True))
               else (False, create_retry_child db parent child now attempt False)))"

section \<open>Where the rows of a store come from\<close>

text \<open>The same job, and not revived.\<close>

definition row_from :: "stored_job \<Rightarrow> stored_job \<Rightarrow> bool" where
  "row_from r r' \<longleftrightarrow>
     sj_job_id r' = sj_job_id r \<and> sj_kind r' = sj_kind r \<and> sj_natural_key r' = sj_natural_key r
     \<and> sj_identity r' = sj_identity r \<and> sj_digest r' = sj_digest r
     \<and> (tag_is_terminal (sj_state r) \<longrightarrow> tag_is_terminal (sj_state r'))"

lemma row_from_refl [simp]: "row_from r r"
  by (simp add: row_from_def)

lemma apply_row_origin:
  assumes ok: "store_ok db" and row: "find_job (store_apply sha db x) j = Some r'"
  shows "(\<exists>r. find_job db j = Some r \<and> row_from r r')
    \<or> (\<exists>spec now. x = OpCreate j spec now
         \<and> insert_job sha db j spec now = Inr (store_apply sha db x, JobCreated r'))"
    (is "?old db \<or> ?new")
proof -
  have kept: "find_job db' = (find_job db)(k \<mapsto> s') \<Longrightarrow> find_job db k = Some s \<Longrightarrow> row_from s s' \<Longrightarrow>
      find_job db' j = Some r' \<Longrightarrow> ?old db" for db' k s s'
    by (cases "j = k") auto
  have same: "find_job db' = find_job db \<Longrightarrow> find_job db' j = Some r' \<Longrightarrow> ?old db" for db'
    by auto
  note keys = store_okD(1) [OF ok]
  show ?thesis
  proof (cases x)
    case (OpCreate k spec now)
    show ?thesis
    proof (cases "insert_job sha db k spec now")
      case (Inr p)
      then obtain db' y where p: "insert_job sha db k spec now = Inr (db', y)" by (cases p) auto
      have db': "store_apply sha db x = db'" using OpCreate p by simp
      from p show ?thesis
      proof (cases rule: insert_job_delta)
        case (existing r)
        then show ?thesis using row db' by auto
      next
        case (created r)
        show ?thesis
        proof (cases "j = k")
          case True
          then have "r = r'" using row db' created(13) by simp
          then show ?thesis using True OpCreate p created(3) db' by auto
        qed (use row db' created(13) in auto)
      qed
    qed (use OpCreate row in auto)
  next
    case (OpTransition k v to e now)
    show ?thesis
    proof (cases "transition_job db k v to e now")
      case (Inr p)
      then obtain db' n where p: "transition_job db k v to e now = Inr (db', n)" by (cases p) auto
      show ?thesis
        by (rule transition_delta [OF keys p], rule disjI1, rule kept)
           (use row OpTransition p in \<open>auto simp: row_from_def\<close>)
    qed (use OpTransition row in auto)
  next
    case (OpSetDesired k d now v)
    show ?thesis
    proof (cases "set_desired_run_state db k d now v")
      case (Inr db')
      show ?thesis
        by (rule set_desired_delta [OF keys Inr], rule disjI1, rule kept)
           (use row OpSetDesired Inr in \<open>auto simp: row_from_def\<close>)
    qed (use OpSetDesired row in auto)
  next
    case (OpLedger k f st b d now)
    show ?thesis
    proof (cases "update_file_ledger db k f st b d now")
      case (Inr db')
      have "db_jobs db' = db_jobs db" by (subst ledger_other_tables [OF Inr]) simp
      from find_job_cong [OF this] show ?thesis using row OpLedger Inr by auto
    qed (use OpLedger row in auto)
  next
    case (OpComplete k e now ab)
    show ?thesis
    proof (cases "complete_job_inner db k e now ab")
      case (Inr p)
      then obtain db' y where p: "complete_job_inner db k e now ab = Inr (db', y)" by (cases p) auto
      have j: "find_job db' j = Some r'" using row OpComplete p by simp
      from keys p show ?thesis
      proof (cases rule: complete_delta)
        case (recorded s s' c)
        have "row_from s s'" using recorded(11) by (auto simp: row_from_def split: if_splits)
        from kept [OF recorded(12,1) this j] show ?thesis ..
      qed (use j in auto)
    qed (use OpComplete row in auto)
  next
    case (OpAck k now)
    show ?thesis
    proof (cases "acknowledge_completion db k now")
      case (Inr p)
      then obtain db' y where p: "acknowledge_completion db k now = Inr (db', y)" by (cases p) auto
      have j: "find_job db' j = Some r'" using row OpAck p by simp
      from keys p show ?thesis
      proof (cases rule: ack_delta)
        case (stamped c)
        have "db_jobs db' = db_jobs db" by (subst stamped(5)) simp
        from same [OF find_job_cong [OF this] j] show ?thesis ..
      qed (use j in auto)
    qed (use OpAck row in auto)
  next
    case (OpDismiss k now)
    show ?thesis
    proof (cases "dismiss_job db k now")
      case (Inr p)
      then obtain db' y where p: "dismiss_job db k now = Inr (db', y)" by (cases p) auto
      have j: "find_job db' j = Some r'" using row OpDismiss p by simp
      from keys p show ?thesis
      proof (cases rule: dismiss_delta)
        case (dismissed s c)
        from kept [OF dismissed(7,1) _ j] show ?thesis by (simp add: row_from_def)
      qed (use j in auto)
    qed (use OpDismiss row in auto)
  next
    case (OpDelete k)
    show ?thesis
    proof (cases "delete_job db k")
      case (Inr p)
      then obtain db' y where p: "delete_job db k = Inr (db', y)" by (cases p) auto
      have j: "find_job db' j = Some r'" using row OpDelete p by simp
      from p show ?thesis
        by (cases rule: delete_delta) (use j in \<open>auto split: if_splits\<close>)
    qed (use OpDelete row in auto)
  qed
qed

section \<open>What one retry does\<close>

lemma newest_None_iff [simp]: "newest rs = None \<longleftrightarrow> rs = []"
  by (cases rs) (auto split: option.splits)

lemma newest_in: "newest rs = Some r \<Longrightarrow> r \<in> set rs"
  by (induction rs arbitrary: r) (auto split: option.splits if_splits)

lemma latest_attempt_None_iff [simp]: "latest_attempt ls = None \<longleftrightarrow> ls = []"
  by (cases ls) (auto split: option.splits)

lemma latest_attempt_max:
  "latest_attempt ls = Some l \<Longrightarrow> l \<in> set ls \<and> (\<forall>k\<in>set ls. ln_attempt k \<le> ln_attempt l)"
  by (induction ls arbitrary: l) (fastforce split: option.splits if_splits)+

definition live_download :: "stored_job \<Rightarrow> bool" where
  "live_download r \<longleftrightarrow> sj_kind r = Download \<and> \<not> tag_is_terminal (sj_state r)"

lemma row_from_live: "row_from r r' \<Longrightarrow> live_download r' \<Longrightarrow> live_download r"
  by (auto simp: row_from_def live_download_def)

lemma active_download_None:
  "active_download db i = None \<Longrightarrow> find_job db j = Some r \<Longrightarrow> live_download r \<Longrightarrow> sj_identity r \<noteq> i"
  by (auto simp: active_download_def live_download_def find_job_def filter_empty_conv
      dest!: find_key_SomeD)

lemma retry_guard_Inr:
  assumes "retry_guard policy db p = Inr parent"
  shows "find_job db p = Some parent" and "sj_job_id parent = p"
    and "\<exists>c. find_completion db p = Some c \<and> is_acknowledged c"
    and "sj_kind parent = Download \<Longrightarrow> retryable_failed parent"
    and "policy = DismissedDownloadEnqueue \<longleftrightarrow> sj_dismissed_at parent \<noteq> None"
proof -
  show "find_job db p = Some parent"
    using assms by (auto simp: retry_guard_def split: option.splits if_splits)
  then show "sj_job_id parent = p" by (rule find_job_id)
  show "\<exists>c. find_completion db p = Some c \<and> is_acknowledged c"
    using assms by (auto simp: retry_guard_def split: option.splits if_splits)
  show "sj_kind parent = Download \<Longrightarrow> retryable_failed parent"
    using assms by (auto simp: retry_guard_def split: option.splits if_splits)
  show "policy = DismissedDownloadEnqueue \<longleftrightarrow> sj_dismissed_at parent \<noteq> None"
    using assms by (auto simp: retry_guard_def split: option.splits if_splits)
qed

lemma retry_selection_new:
  assumes "retry_selection policy db parent child = Inr (Inr attempt)"
  shows "find_job db child = None"
    and "fresh_ledger policy \<Longrightarrow> sj_kind parent = Download \<Longrightarrow> active_download db (sj_identity parent) = None"
    and "attempt = (case previous_child db (sj_job_id parent) of None \<Rightarrow> 1 | Some l \<Rightarrow> ln_attempt l + 1)"
  using assms by (auto simp: retry_selection_def Let_def split: option.splits if_splits)

lemma create_retry_child_Inr:
  assumes "create_retry_child db parent child now attempt fresh = Inr (db', res)"
    and "find_job db child = None"
  shows "res = RetryCreated (retry_row parent child now)"
    and "db_jobs db' = db_jobs db @ [retry_row parent child now]"
    and "db_specs db' = db_specs db
           @ map (\<lambda>(_, spec). (child, spec)) (filter (\<lambda>(k, _). k = sj_job_id parent) (db_specs db))"
    and "db_files db' = db_files db
           @ map (\<lambda>f. f\<lparr>fr_job_id := child\<rparr>) (filter (\<lambda>f. fr_job_id f = sj_job_id parent) (db_files db))"
    and "db_ledger db' = db_ledger db
           @ map (copied_entry fresh child now)
               (filter (\<lambda>e. lg_job_id e = sj_job_id parent) (db_ledger db))"
    and "db_lineage db' = db_lineage db
           @ [\<lparr>ln_child = child, ln_parent = sj_job_id parent, ln_attempt = attempt,
               ln_created_at = now\<rparr>]"
    and "db_outbox db' = db_outbox db" and "db_sequence db' = db_sequence db"
    and "find_job db' = (find_job db)(child \<mapsto> retry_row parent child now)"
proof -
  show jobs: "db_jobs db' = db_jobs db @ [retry_row parent child now]"
    using assms(1) by (auto simp: create_retry_child_def Let_def)
  have "find P (xs @ [y]) = (case find P xs of Some d \<Rightarrow> Some d | None \<Rightarrow> if P y then Some y else None)"
    for P and xs :: "stored_job list" and y
    by (induction xs) auto
  then show "find_job db' = (find_job db)(child \<mapsto> retry_row parent child now)"
    using assms(2) jobs
    by (auto simp: find_job_def fun_eq_iff retry_row_def split: option.splits if_splits)
qed (use assms(1) in \<open>auto simp: create_retry_child_def Let_def\<close>)

lemma spawn_retry_delta:
  assumes "spawn_retry_job upload policy db p child now discard = (d, Inr (db', res))"
    and "\<forall>r. find_job db p = Some r \<longrightarrow> sj_kind r = Download"
  obtains (existing) r parent where "\<not> d" and "db' = db" and "res = RetryExisting r"
      and "retry_guard policy db p = Inr parent"
      and "retry_selection policy db parent child = Inr (Inl r)"
  | (created) parent attempt where "retry_guard policy db p = Inr parent"
      and "find_job db p = Some parent" and "sj_job_id parent = p" and "sj_kind parent = Download"
      and "retry_selection policy db parent child = Inr (Inr attempt)"
      and "find_job db child = None" and "d = fresh_ledger policy"
      and "create_retry_child db parent child now attempt (fresh_ledger policy) = Inr (db', res)"
proof (cases "retry_guard policy db p")
  case (Inl e)
  with assms(1) show ?thesis by (simp add: spawn_retry_job_def)
next
  case (Inr parent)
  note parent = retry_guard_Inr(1,2) [OF Inr]
  have kind: "sj_kind parent = Download" using assms(2) parent(1) by simp
  show ?thesis
  proof (cases "retry_selection policy db parent child")
    case (Inl e)
    with assms(1) Inr show ?thesis by (simp add: spawn_retry_job_def)
  next
    case sel: (Inr s)
    show ?thesis
    proof (cases s)
      case (Inl r)
      with assms(1) Inr sel show ?thesis
        by (intro existing) (auto simp: spawn_retry_job_def)
    next
      case new: (Inr attempt)
      show ?thesis
        using assms(1) Inr sel new kind parent retry_selection_new(1) [OF sel [unfolded new]]
        by (intro created) (auto simp: spawn_retry_job_def split: if_splits option.splits)
    qed
  qed
qed

lemma spawn_retry_store_ok:
  assumes ok: "store_ok db" and step: "spawn_retry_job upload policy db p child now discard = (d, Inr (db', res))"
    and kind: "\<forall>r. find_job db p = Some r \<longrightarrow> sj_kind r = Download"
  shows "store_ok db'"
  using step kind
proof (cases rule: spawn_retry_delta)
  case (created parent attempt)
  note new = create_retry_child_Inr [OF created(8,6)]
  have comp: "find_completion db' = find_completion db"
    by (rule find_completion_cong [OF new(7)])
  have row: "job_row_ok (retry_row parent child now)"
    by (simp add: job_row_ok_def retry_row_def fits_i64_def)
  show ?thesis
  proof (rule store_okI)
    show "keys_ok db'" "sequence_ok db'"
      using store_okD(1,2) [OF ok] new(2,7,8) created(6)
      by (auto simp: keys_ok_def sequence_ok_def find_job_def find_key_None_iff retry_row_def)
    show "job_row_ok x" if "find_job db' i = Some x" for i x
      using that new(9) row store_okD(3) [OF ok] by (cases "i = child") auto
    show "\<exists>x. find_job db' i = Some x \<and> sj_version x = cr_version c
        \<and> row_outcome x = Some (cr_outcome c)" if "find_completion db' i = Some c" for i c
    proof -
      have "find_completion db i = Some c" using that comp by simp
      from store_okD(4) [OF ok this] obtain x where
        "find_job db i = Some x" "sj_version x = cr_version c" "row_outcome x = Some (cr_outcome c)" by blast
      then show ?thesis using new(9) created(6) by (cases "i = child") auto
    qed
  qed
qed (use ok in simp)

section \<open>Histories with retries\<close>

datatype transfer_op =
    StoreOp store_op
  | RetryOp retry_policy job_id job_id string "persistence_error option"

fun transfer_apply ::
    "(string \<Rightarrow> string) \<Rightarrow> upload_branch \<Rightarrow> transfer_db \<Rightarrow> transfer_op \<Rightarrow> transfer_db" where
  "transfer_apply sha upload db (StoreOp x) = store_apply sha db x"
| "transfer_apply sha upload db (RetryOp policy p child now discard) =
     committed db (snd (spawn_retry_job upload policy db p child now discard))"

definition run_transfer ::
    "(string \<Rightarrow> string) \<Rightarrow> upload_branch \<Rightarrow> transfer_db \<Rightarrow> transfer_op list \<Rightarrow> transfer_db" where
  "run_transfer sha upload = foldl (transfer_apply sha upload)"

lemma run_transfer_simps [simp]:
  "run_transfer sha upload db [] = db"
  "run_transfer sha upload db (x # xs) = run_transfer sha upload (transfer_apply sha upload db x) xs"
  by (simp_all add: run_transfer_def)

text \<open>The operations of the model create downloads only.\<close>

definition downloads_only :: "transfer_db \<Rightarrow> bool" where
  "downloads_only db \<longleftrightarrow> (\<forall>j r. find_job db j = Some r \<longrightarrow> sj_kind r = Download)"

definition transfer_ok :: "transfer_db \<Rightarrow> bool" where
  "transfer_ok db \<longleftrightarrow> store_ok db \<and> downloads_only db"

text \<open>Either nothing happened or a child was created.\<close>

lemma retry_applied:
  assumes "downloads_only db"
  obtains (same) "transfer_apply sha upload db (RetryOp policy p child now discard) = db"
  | (created) parent attempt res where "retry_guard policy db p = Inr parent"
      and "find_job db p = Some parent" and "sj_job_id parent = p" and "sj_kind parent = Download"
      and "retry_selection policy db parent child = Inr (Inr attempt)"
      and "find_job db child = None"
      and "create_retry_child db parent child now attempt (fresh_ledger policy) =
             Inr (transfer_apply sha upload db (RetryOp policy p child now discard), res)"
proof (cases "spawn_retry_job upload policy db p child now discard")
  case (Pair d r)
  show ?thesis
  proof (cases r)
    case (Inl e)
    with Pair show ?thesis by (intro same) simp
  next
    case (Inr q)
    then obtain db' res where q: "spawn_retry_job upload policy db p child now discard = (d, Inr (db', res))"
      using Pair by (cases q) auto
    have applied: "transfer_apply sha upload db (RetryOp policy p child now discard) = db'"
      using q by simp
    have "\<forall>r. find_job db p = Some r \<longrightarrow> sj_kind r = Download"
      using assms by (simp add: downloads_only_def)
    with q show ?thesis
    proof (cases rule: spawn_retry_delta)
      case (created parent attempt)
      show ?thesis by (rule that(2) [of parent attempt res]) (use created applied in simp_all)
    qed (use applied in \<open>auto intro: same\<close>)
  qed
qed

lemma transfer_apply_ok:
  assumes ok: "transfer_ok db"
  shows "transfer_ok (transfer_apply sha upload db x)"
proof (cases x)
  case (StoreOp y)
  have store: "store_ok db" using ok by (simp add: transfer_ok_def)
  have "sj_kind r' = Download" if "find_job (store_apply sha db y) j = Some r'" for j r'
    using apply_row_origin [OF store that]
  proof (elim disjE exE conjE)
    fix spec now
    assume "insert_job sha db j spec now = Inr (store_apply sha db y, JobCreated r')"
    then show ?thesis by (cases rule: insert_job_delta) simp_all
  qed (use ok in \<open>auto simp: transfer_ok_def downloads_only_def row_from_def\<close>)
  then show ?thesis
    using ok StoreOp by (simp add: transfer_ok_def downloads_only_def store_apply_ok)
next
  case (RetryOp policy p child now discard)
  have only: "downloads_only db" and store: "store_ok db" using ok by (simp_all add: transfer_ok_def)
  show ?thesis
    unfolding RetryOp
  proof (rule retry_applied [OF only, of sha upload policy p child now discard])
    let ?db = "transfer_apply sha upload db (RetryOp policy p child now discard)"
    fix parent attempt res
    assume c: "retry_guard policy db p = Inr parent" "find_job db p = Some parent"
      "sj_kind parent = Download" "retry_selection policy db parent child = Inr (Inr attempt)"
      "find_job db child = None"
      "create_retry_child db parent child now attempt (fresh_ledger policy) = Inr (?db, res)"
    have "store_ok ?db"
    proof (cases "snd (spawn_retry_job upload policy db p child now discard)")
      case (Inr q)
      then obtain d db' res' where q: "spawn_retry_job upload policy db p child now discard = (d, Inr (db', res'))"
        by (metis prod.collapse)
      from spawn_retry_store_ok [OF store q] only show ?thesis
        using q by (simp add: downloads_only_def)
    qed (use store in simp)
    moreover have "downloads_only ?db"
      using only create_retry_child_Inr(9) [OF c(6,5)]
      by (auto simp: downloads_only_def retry_row_def)
    ultimately show "transfer_ok ?db" by (simp add: transfer_ok_def)
  qed (use ok in simp)
qed

lemma transfer_ok_empty: "transfer_ok empty_db"
  using store_ok_empty by (simp add: transfer_ok_def downloads_only_def find_job_def) (simp add: empty_db_def)

lemma run_transfer_invariant:
  assumes "P db" and "transfer_ok db"
    and "\<And>db x. P db \<Longrightarrow> transfer_ok db \<Longrightarrow> Q x \<Longrightarrow> P (transfer_apply sha upload db x)"
  shows "list_all Q xs \<Longrightarrow> P (run_transfer sha upload db xs) \<and> transfer_ok (run_transfer sha upload db xs)"
  using assms(1,2)
proof (induction xs arbitrary: db)
  case (Cons x xs)
  from Cons.prems have "Q x" "list_all Q xs" by simp_all
  with Cons.IH [OF this(2) assms(3) [OF Cons.prems(2,3) this(1)] transfer_apply_ok [OF Cons.prems(3)]]
  show ?case by simp
qed simp

section \<open>One live attempt per recording\<close>

definition single_live :: "transfer_db \<Rightarrow> bool" where
  "single_live db \<longleftrightarrow>
     (\<forall>j k r s. find_job db j = Some r \<and> find_job db k = Some s \<and> live_download r \<and> live_download s
        \<and> sj_identity r = sj_identity s \<longrightarrow> j = k)"

lemma single_live_distinct:
  assumes "keys_ok db" and "single_live db"
  shows "distinct (map sj_identity (filter live_download (db_jobs db)))"
proof -
  have keys: "distinct (map sj_job_id (db_jobs db))" using assms(1) by (simp add: keys_ok_def)
  have row: "find_job db (sj_job_id r) = Some r" if "r \<in> set (db_jobs db)" for r
    using that find_key_Some_iff [OF keys] by (simp add: find_job_def)
  have "inj_on sj_identity (set (filter live_download (db_jobs db)))"
  proof (rule inj_onI)
    fix r s
    assume rs: "r \<in> set (filter live_download (db_jobs db))" "s \<in> set (filter live_download (db_jobs db))"
      "sj_identity r = sj_identity s"
    then have jobs: "find_job db (sj_job_id r) = Some r" "find_job db (sj_job_id s) = Some s"
      by (auto intro: row)
    moreover have "live_download r" "live_download s" using rs by simp_all
    ultimately have "sj_job_id r = sj_job_id s"
      using assms(2) rs(3) unfolding single_live_def by blast
    then have "find_job db (sj_job_id r) = find_job db (sj_job_id s)" by (rule arg_cong)
    then show "r = s" unfolding jobs by (rule option.inject [THEN iffD1])
  qed
  moreover have "distinct (filter live_download (db_jobs db))"
    by (rule distinct_filter [OF distinct_map [THEN iffD1, THEN conjunct1, OF keys]])
  ultimately show ?thesis by (intro distinct_map [THEN iffD2] conjI)
qed

fun fresh_only :: "transfer_op \<Rightarrow> bool" where
  "fresh_only (StoreOp x) = True"
| "fresh_only (RetryOp policy p child now discard) = fresh_ledger policy"

lemma latest_job_by_identity_None:
  "latest_job_by_identity db i = None \<Longrightarrow> find_job db j = Some r \<Longrightarrow> sj_identity r \<noteq> i"
  by (auto simp: latest_job_by_identity_def filter_empty_conv find_job_def dest!: find_key_SomeD)

text \<open>A table with one more live row, of an identity that has none.\<close>

lemma single_live_insert:
  assumes "single_live db" and "find_job db' = (find_job db)(k \<mapsto> r)"
    and "\<And>j s. find_job db j = Some s \<Longrightarrow> live_download s \<Longrightarrow> sj_identity s \<noteq> sj_identity r"
  shows "single_live db'"
  unfolding single_live_def
proof (intro allI impI, elim conjE)
  fix j l x y
  assume "find_job db' j = Some x" "find_job db' l = Some y" "live_download x" "live_download y"
    "sj_identity x = sj_identity y"
  then show "j = l"
    using assms(1) assms(3) [of j x] assms(3) [of l y]
    unfolding assms(2) single_live_def by (auto split: if_splits)
qed

lemma apply_single_live:
  assumes live: "single_live db" and ok: "transfer_ok db" and op: "fresh_only x"
  shows "single_live (transfer_apply sha upload db x)"
proof (cases x)
  case (StoreOp y)
  have store: "store_ok db" using ok by (simp add: transfer_ok_def)
  show ?thesis
  proof (cases "\<exists>j spec now r. insert_job sha db j spec now = Inr (store_apply sha db y, JobCreated r)")
    case True
    then obtain j spec now r where ins: "insert_job sha db j spec now = Inr (store_apply sha db y, JobCreated r)"
      by blast
    then show ?thesis
    proof (cases rule: insert_job_delta)
      case (created r')
      show ?thesis
        unfolding StoreOp transfer_apply.simps
        by (rule single_live_insert [OF live created(13)])
           (use latest_job_by_identity_None [OF created(1)] created(5) in auto)
    qed simp
  next
    case False
    then have old: "\<exists>r. find_job db j = Some r \<and> row_from r r'"
      if "find_job (store_apply sha db y) j = Some r'" for j r'
      using apply_row_origin [OF store that] by blast
    show ?thesis
      unfolding StoreOp transfer_apply.simps single_live_def
    proof (intro allI impI, elim conjE)
      fix j k r s
      assume r: "find_job (store_apply sha db y) j = Some r" and s: "find_job (store_apply sha db y) k = Some s"
        and "live_download r" "live_download s" "sj_identity r = sj_identity s"
      moreover from old [OF r] old [OF s] obtain r0 s0 where
        "find_job db j = Some r0" "row_from r0 r" "find_job db k = Some s0" "row_from s0 s" by blast
      ultimately show "j = k"
        using live row_from_live unfolding single_live_def row_from_def by metis
    qed
  qed
next
  case (RetryOp policy p child now discard)
  have only: "downloads_only db" using ok by (simp add: transfer_ok_def)
  show ?thesis
    unfolding RetryOp
  proof (rule retry_applied [OF only, of sha upload policy p child now discard])
    let ?db = "transfer_apply sha upload db (RetryOp policy p child now discard)"
    fix parent attempt res
    assume c: "sj_kind parent = Download" "retry_selection policy db parent child = Inr (Inr attempt)"
      "find_job db child = None"
      "create_retry_child db parent child now attempt (fresh_ledger policy) = Inr (?db, res)"
    have "active_download db (sj_identity parent) = None"
      using retry_selection_new(2) [OF c(2)] c(1) op RetryOp by simp
    from active_download_None [OF this] show "single_live ?db"
      by (intro single_live_insert [OF live create_retry_child_Inr(9) [OF c(4,3)]])
         (auto simp: retry_row_def)
  qed (use live in simp)
qed

section \<open>Properties\<close>

lemma single_live_empty: "single_live empty_db"
  by (simp add: single_live_def find_job_def) (simp add: empty_db_def)

lemma run_single_live:
  assumes "list_all fresh_only xs"
  shows "single_live (run_transfer sha upload empty_db xs)"
  using run_transfer_invariant [where P = single_live and Q = fresh_only, OF single_live_empty
      transfer_ok_empty apply_single_live assms] by blast

lemma run_transfer_ok: "transfer_ok (run_transfer sha upload empty_db xs)"
  using run_transfer_invariant [where P = "\<lambda>_. True" and Q = "\<lambda>_. True" and db = empty_db
      and sha = sha and upload = upload and xs = xs] transfer_ok_empty by (simp add: list_all_iff)

text \<open>
  C9. One live attempt per recording: whatever is created, retried afresh, repeated, finished,
  dismissed or deleted, in whatever order, no two downloads of the same device, session and
  revision are unfinished at the same time, so no two share the staged bytes of a recording.
\<close>

theorem fresh_retry_single_attempt:
  assumes "list_all fresh_only xs"
  shows "distinct (map sj_identity (filter live_download
           (db_jobs (run_transfer sha upload empty_db xs))))"
  using single_live_distinct [OF _ run_single_live [OF assms]] run_transfer_ok [of sha upload xs] store_okD(1)
  by (simp add: transfer_ok_def)

text \<open>
  Staged bytes are only discarded when nobody needs them: in any state of the tables, a retry
  that discards the staging of a recording has a failed, retryable and acknowledged parent of that
  recording, and no download of the recording is unfinished.
\<close>

theorem discards_only_idle_staging:
  assumes "spawn_retry_job upload policy db p child now discard = (True, res)"
  shows "\<exists>parent. find_job db p = Some parent \<and> retryable_failed parent
       \<and> map_option is_acknowledged (find_completion db p) = Some True
       \<and> filter (\<lambda>r. live_download r \<and> sj_identity r = sj_identity parent) (db_jobs db) = []"
proof -
  obtain parent attempt where g: "retry_guard policy db p = Inr parent"
      and sel: "retry_selection policy db parent child = Inr (Inr attempt)"
      and kind: "sj_kind parent \<noteq> Upload" and fresh: "fresh_ledger policy"
    using assms by (auto simp: spawn_retry_job_def split: sum.splits if_splits)
  have down: "sj_kind parent = Download" using kind by (cases "sj_kind parent") auto
  have "active_download db (sj_identity parent) = None"
    using retry_selection_new(2) [OF sel fresh down] .
  then have "filter (\<lambda>r. live_download r \<and> sj_identity r = sj_identity parent) (db_jobs db) = []"
    by (auto simp: active_download_def live_download_def filter_empty_conv)
  then show ?thesis
    using retry_guard_Inr(1,3,4) [OF g] down by auto
qed

text \<open>The new child is what every later lookup finds.\<close>

lemma latest_attempt_append:
  assumes "\<And>l. l \<in> set ls \<Longrightarrow> ln_attempt l < ln_attempt k"
  shows "latest_attempt (ls @ [k]) = Some k"
proof -
  have "\<forall>l\<in>set ls. \<not> ln_attempt k < ln_attempt l" using assms by (simp add: order_less_imp_not_less)
  then show ?thesis by (induction ls) auto
qed

lemma previous_child_created:
  assumes sel: "retry_selection policy db parent child = Inr (Inr attempt)"
    and new: "create_retry_child db parent child now attempt fresh = Inr (db', res)"
  shows "previous_child db' (sj_job_id parent) =
           Some \<lparr>ln_child = child, ln_parent = sj_job_id parent, ln_attempt = attempt, ln_created_at = now\<rparr>"
proof -
  note none = retry_selection_new(1) [OF sel]
  note made = create_retry_child_Inr [OF new none]
  have unlinked: "ln_child l \<noteq> child" if "l \<in> set (db_lineage db)" for l
    using new that by (auto simp: create_retry_child_def Let_def list_ex_iff)
  have "children_of db' (sj_job_id parent) = children_of db (sj_job_id parent)
      @ [\<lparr>ln_child = child, ln_parent = sj_job_id parent, ln_attempt = attempt, ln_created_at = now\<rparr>]"
    using made(9) unlinked by (auto simp: children_of_def made(6) intro!: filter_cong)
  moreover have "ln_attempt l < attempt" if "l \<in> set (children_of db (sj_job_id parent))" for l
  proof -
    have "\<exists>k. previous_child db (sj_job_id parent) = Some k \<and> ln_attempt l \<le> ln_attempt k"
      using that latest_attempt_max
      by (cases "previous_child db (sj_job_id parent)") (force simp: previous_child_def)+
    then show ?thesis using retry_selection_new(3) [OF sel] by auto
  qed
  ultimately show ?thesis
    unfolding previous_child_def by (simp add: latest_attempt_append)
qed

text \<open>
  A retry can be repeated: once a retry of a download has created a child, the same request
  again, with the same or another new identifier and at any later time, changes nothing, discards
  nothing and returns that child.
\<close>

theorem retry_idempotent:
  assumes "downloads_only db"
    and "spawn_retry_job upload policy db p child now discard = (d, Inr (db', RetryCreated c))"
    and "child' = child \<or> find_job db child' = None"
  shows "spawn_retry_job upload policy db' p child' now' discard' = (False, Inr (db', RetryExisting c))"
proof -
  have kind: "\<forall>r. find_job db p = Some r \<longrightarrow> sj_kind r = Download"
    using assms(1) by (simp add: downloads_only_def)
  from assms(2) kind show ?thesis
  proof (cases rule: spawn_retry_delta)
    case (created parent attempt)
    note made = create_retry_child_Inr [OF created(8,6)]
    have c: "c = retry_row parent child now" using made(1) by simp
    have live: "live_download c" "sj_identity c = sj_identity parent" "\<not> tag_is_terminal (sj_state c)"
      by (simp_all add: c retry_row_def live_download_def)
    have "p \<noteq> child" using created(2,6) by auto
    then have same: "find_job db' p = Some parent" "find_completion db' p = find_completion db p"
      using made(9) created(2) find_completion_cong [OF made(7)] by auto
    have guard: "retry_guard policy db' p = Inr parent"
      using created(1,2,4) same by (auto simp: retry_guard_def split: option.splits)
    have prev: "previous_child db' p =
        Some \<lparr>ln_child = child, ln_parent = p, ln_attempt = attempt, ln_created_at = now\<rparr>"
      using previous_child_created [OF created(5,8)] created(3) by simp
    have row: "find_job db' child = Some c" using made(9) c by simp
    have "retry_selection policy db' parent child' = Inr (Inl c)"
    proof (cases "child' = child")
      case True
      have "find (\<lambda>l. ln_child l = child) (db_lineage db) = None"
        using created(8) by (auto simp: create_retry_child_def Let_def list_ex_iff find_None_iff)
      then have "lineage_parent db' child = Some p"
        using created(3) by (simp add: lineage_parent_def made(6) find_append_rows)
      then show ?thesis
        using True row created(3) by (simp add: retry_selection_def Let_def)
    next
      case False
      then have fresh: "find_job db' child' = None" using assms(3) made(9) by auto
      show ?thesis
      proof (cases "policy = DismissedDownloadEnqueue")
        case True
        have "active_download db (sj_identity parent) = None"
          using retry_selection_new(2) [OF created(5)] created(4) True by (simp add: fresh_ledger_def)
        then have "active_download db' (sj_identity parent) = Some c"
          using live by (simp add: active_download_def made(2) live_download_def flip: c)
        then show ?thesis
          using True fresh created(4) by (simp add: retry_selection_def Let_def fresh_ledger_def)
      next
        case no: False
        then show ?thesis
          using fresh prev row live(3) created(3) by (simp add: retry_selection_def Let_def)
      qed
    qed
    then show ?thesis using guard by (simp add: spawn_retry_job_def)
  qed auto
qed

text \<open>
  The policy for failures that keep their evidence (\<open>StandardDownload\<close>) looks only at the children of
  the parent it is given. After two rounds of failure a parent and its first child can both be
  retried, and both of the new attempts are live on the same staged bytes.
\<close>

definition two_round_history :: "transfer_op list" where
  "two_round_history =
     [StoreOp (OpCreate ''j'' sample_spec ''t0''),
      StoreOp (OpComplete ''j'' (OutcomeFailed ''local_io'' True) ''t1'' None), StoreOp (OpAck ''j'' ''t2''),
      RetryOp StandardDownload ''j'' ''a'' ''t3'' None,
      StoreOp (OpComplete ''a'' (OutcomeFailed ''local_io'' True) ''t4'' None), StoreOp (OpAck ''a'' ''t5''),
      RetryOp StandardDownload ''j'' ''b'' ''t6'' None,
      RetryOp StandardDownload ''a'' ''c'' ''t7'' None]"

lemmas retry_eval = sample_eval spawn_retry_job_def retry_guard_def retry_selection_def
  create_retry_child_def retry_row_def retry_natural_key_def copied_entry_def children_of_def
  previous_child_def active_download_def lineage_parent_def fresh_ledger_def retryable_failed_def
  live_download_def acknowledge_completion_def is_acknowledged_def

lemma standard_retry_two_live:
  "map (\<lambda>r. (sj_job_id r, sj_identity r)) (filter live_download
     (db_jobs (run_transfer (\<lambda>_. []) upload empty_db two_round_history)))
   = [(''b'', js_identity sample_spec), (''c'', js_identity sample_spec)]"
  by (simp add: two_round_history_def retry_eval natural_key_def text_frame_def decimal.simps)

section \<open>A failed download can always be retried\<close>

text \<open>
  Why the two unique keys of the tables never get in the way: a natural key names its identity and,
  for a retry, its own job; a lineage row belongs to a job that exists.
\<close>

definition retry_keys_ok :: "transfer_db \<Rightarrow> bool" where
  "retry_keys_ok db \<longleftrightarrow>
     (\<forall>j r. find_job db j = Some r \<longrightarrow>
        sj_natural_key r \<in> {natural_key (sj_identity r), retry_natural_key (sj_identity r) j})
     \<and> (\<forall>l\<in>set (db_lineage db). find_job db (ln_child l) \<noteq> None)"

lemma natural_key_append:
  "natural_key i @ r = natural_key k @ s \<longleftrightarrow> i = k \<and> r = s"
proof -
  have "natural_key i @ r = natural_key k @ s \<longleftrightarrow>
      [ji_device_id i, ji_session_id i, ji_revision i] = [ji_device_id k, ji_session_id k, ji_revision k] \<and> r = s"
    unfolding natural_key_def by (rule text_frames.concat_append_eq) simp_all
  then show ?thesis by (cases i; cases k) auto
qed

lemma retry_key_new:
  assumes "sj_natural_key r \<in> {natural_key (sj_identity r), retry_natural_key (sj_identity r) j}"
    and "j \<noteq> child"
  shows "sj_natural_key r \<noteq> retry_natural_key i child"
  using assms natural_key_append [of "sj_identity r" "[]" i "''#retry:'' @ child"]
    natural_key_append [of "sj_identity r" "''#retry:'' @ j" i "''#retry:'' @ child"]
  by (auto simp: retry_natural_key_def)

lemma apply_lineage:
  assumes "l \<in> set (db_lineage (store_apply sha db x))"
  shows "l \<in> set (db_lineage db) \<and> (x = OpDelete (ln_child l) \<longrightarrow> store_apply sha db x = db)"
proof (cases x)
  case (OpCreate k spec now)
  have "db_lineage (store_apply sha db x) = db_lineage db"
    unfolding OpCreate store_apply.simps
  proof (rule committed_cases)
    fix db' y assume "insert_job sha db k spec now = Inr (db', y)"
    then show "db_lineage db' = db_lineage db" by (cases rule: insert_job_delta) simp_all
  qed simp
  then show ?thesis using assms OpCreate by simp
next
  case (OpTransition k v to e now)
  have "db_lineage (store_apply sha db x) = db_lineage db"
    unfolding OpTransition store_apply.simps
    by (rule committed_cases, simp)
       (auto simp: transition_job_def Let_def split: option.splits if_splits)
  then show ?thesis using assms OpTransition by simp
next
  case (OpSetDesired k d now v)
  then show ?thesis using assms
    by (auto simp: set_desired_run_state_def Let_def split: sum.splits if_splits)
next
  case (OpLedger k f st b d now)
  show ?thesis
  proof (cases "update_file_ledger db k f st b d now")
    case (Inr db')
    have "db_lineage db' = db_lineage db" by (subst ledger_other_tables [OF Inr]) simp
    then show ?thesis using OpLedger Inr assms by simp
  qed (use OpLedger assms in simp)
next
  case (OpComplete k e now ab)
  have outbox: "insert_outbox_row d j e v now = Inr (d', c) \<Longrightarrow> db_lineage d' = db_lineage d"
    for d j e v now d' c
    by (auto simp: insert_outbox_row_Inr)
  have "db_lineage (store_apply sha db x) = db_lineage db"
    unfolding OpComplete store_apply.simps
    by (rule committed_cases, simp)
       (auto simp: complete_job_inner_def Let_def dest!: outbox split: option.splits if_splits)
  then show ?thesis using assms OpComplete by simp
next
  case (OpAck k now)
  have "db_lineage (store_apply sha db x) = db_lineage db"
    unfolding OpAck store_apply.simps
    by (rule committed_cases, simp)
       (auto simp: acknowledge_completion_def Let_def split: option.splits if_splits)
  then show ?thesis using assms OpAck by simp
next
  case (OpDismiss k now)
  have "db_lineage (store_apply sha db x) = db_lineage db"
    unfolding OpDismiss store_apply.simps
    by (rule committed_cases, simp) (auto simp: dismiss_job_def split: option.splits if_splits)
  then show ?thesis using assms OpDismiss by simp
next
  case (OpDelete k)
  show ?thesis
  proof (cases "delete_job db k")
    case (Inr p)
    then show ?thesis using assms OpDelete
      by (cases p) (auto simp: delete_job_def split: if_splits)
  qed (use OpDelete assms in auto)
qed

lemma apply_retry_keys_ok:
  assumes keys: "retry_keys_ok db" and ok: "transfer_ok db"
  shows "retry_keys_ok (transfer_apply sha upload db x)"
proof (cases x)
  case (StoreOp y)
  have store: "store_ok db" using ok by (simp add: transfer_ok_def)
  have "sj_natural_key r \<in> {natural_key (sj_identity r), retry_natural_key (sj_identity r) j}"
    if "find_job (store_apply sha db y) j = Some r" for j r
    using apply_row_origin [OF store that]
  proof (elim disjE exE conjE)
    fix r0 assume r0: "find_job db j = Some r0" "row_from r0 r"
    from keys r0(1) have "sj_natural_key r0 \<in> {natural_key (sj_identity r0), retry_natural_key (sj_identity r0) j}"
      unfolding retry_keys_ok_def by blast
    with r0(2) show ?thesis by (simp add: row_from_def)
  next
    fix spec now
    assume "insert_job sha db j spec now = Inr (store_apply sha db y, JobCreated r)"
    then show ?thesis by (cases rule: insert_job_delta) simp_all
  qed
  moreover have "find_job (store_apply sha db y) (ln_child l) \<noteq> None"
    if "l \<in> set (db_lineage (store_apply sha db y))" for l
  proof (cases "y = OpDelete (ln_child l)")
    case True
    then have "store_apply sha db y = db" "l \<in> set (db_lineage db)" using apply_lineage [OF that] by blast+
    then show ?thesis using keys by (simp add: retry_keys_ok_def)
  next
    case False
    have "find_job db (ln_child l) \<noteq> None" using keys apply_lineage [OF that] by (simp add: retry_keys_ok_def)
    then obtain r where "find_job db (ln_child l) = Some r" by blast
    from apply_row_later [OF store this False, of sha] show ?thesis by auto
  qed
  ultimately show ?thesis unfolding StoreOp transfer_apply.simps retry_keys_ok_def by blast
next
  case (RetryOp policy p child now discard)
  have only: "downloads_only db" using ok by (simp add: transfer_ok_def)
  show ?thesis
    unfolding RetryOp
  proof (rule retry_applied [OF only, of sha upload policy p child now discard])
    let ?db = "transfer_apply sha upload db (RetryOp policy p child now discard)"
    fix parent attempt res
    assume c: "find_job db child = None"
      "create_retry_child db parent child now attempt (fresh_ledger policy) = Inr (?db, res)"
    note made = create_retry_child_Inr [OF c(2,1)]
    have "sj_natural_key r \<in> {natural_key (sj_identity r), retry_natural_key (sj_identity r) j}"
      if "find_job ?db j = Some r" for j r
    proof (cases "j = child")
      case True
      then show ?thesis using that unfolding made(9) by (auto simp: retry_row_def)
    next
      case False
      then show ?thesis using that keys unfolding made(9) retry_keys_ok_def by auto
    qed
    moreover have "find_job ?db (ln_child l) \<noteq> None" if "l \<in> set (db_lineage ?db)" for l
      using that keys unfolding made(6,9) retry_keys_ok_def by auto
    ultimately show "retry_keys_ok ?db" unfolding retry_keys_ok_def by blast
  qed (use keys in simp)
qed

lemma run_retry_keys_ok: "retry_keys_ok (run_transfer sha upload empty_db xs)"
proof -
  have "retry_keys_ok empty_db"
    by (simp add: retry_keys_ok_def find_job_def) (simp add: empty_db_def)
  then show ?thesis
    using run_transfer_invariant [where P = retry_keys_ok and Q = "\<lambda>_. True" and db = empty_db and sha = sha
        and upload = upload and xs = xs] transfer_ok_empty apply_retry_keys_ok
    by (simp add: list_all_iff)
qed


section \<open>Witnesses\<close>

definition retried_history :: "transfer_op list" where
  "retried_history =
     [StoreOp (OpCreate ''j'' sample_spec ''t0''),
      StoreOp (OpComplete ''j'' (OutcomeFailed ''network'' True) ''t1'' None), StoreOp (OpAck ''j'' ''t2''),
      RetryOp FreshDownload ''j'' ''a'' ''t3'' None]"

definition no_uploads :: upload_branch where
  "no_uploads = (\<lambda>_ _ _. Inl (RetryPersistence NotFound))"

abbreviation failed_db :: transfer_db where
  "failed_db \<equiv> run_transfer (\<lambda>_. []) no_uploads empty_db (take 3 retried_history)"

theorem fresh_retry_single_attempt_witness:
  "distinct (map sj_identity (filter live_download
     (db_jobs (run_transfer (\<lambda>_. []) no_uploads empty_db retried_history))))"
  using fresh_retry_single_attempt [of retried_history] by (simp add: retried_history_def fresh_ledger_def)

lemma retried_first:
  "\<exists>db'. spawn_retry_job no_uploads FreshDownload failed_db ''j'' ''a'' ''t3'' None
     = (True, Inr (db', RetryCreated (retry_row (the (find_job failed_db ''j'')) ''a'' ''t3'')))"
  by (simp add: retried_history_def retry_eval natural_key_def text_frame_def decimal.simps)

theorem discards_only_idle_staging_witness:
  "\<exists>parent. find_job failed_db ''j'' = Some parent \<and> retryable_failed parent
       \<and> map_option is_acknowledged (find_completion failed_db ''j'') = Some True
       \<and> filter (\<lambda>r. live_download r \<and> sj_identity r = sj_identity parent) (db_jobs failed_db) = []"
  using retried_first by (blast intro: discards_only_idle_staging)

theorem retry_idempotent_witness:
  "\<exists>db' c. sj_job_id c = ''a''
     \<and> spawn_retry_job no_uploads FreshDownload db' ''j'' ''b'' ''t9'' None = (False, Inr (db', RetryExisting c))"
proof -
  obtain db' where db': "spawn_retry_job no_uploads FreshDownload failed_db ''j'' ''a'' ''t3'' None
     = (True, Inr (db', RetryCreated (retry_row (the (find_job failed_db ''j'')) ''a'' ''t3'')))"
    using retried_first by blast
  have "downloads_only failed_db"
    using run_transfer_ok [of "\<lambda>_. []" no_uploads] by (simp add: transfer_ok_def)
  moreover have "find_job failed_db ''b'' = None"
    by (simp add: retried_history_def retry_eval)
  ultimately have "spawn_retry_job no_uploads FreshDownload db' ''j'' ''b'' ''t9'' None =
      (False, Inr (db', RetryExisting (retry_row (the (find_job failed_db ''j'')) ''a'' ''t3'')))"
    by (intro retry_idempotent [OF _ db']) simp_all
  then show ?thesis by (intro exI conjI) (simp_all add: retry_row_def)
qed


end
