(* ===== verification/Job_Recovery.thy ===== *)
theory Job_Recovery
  imports Transfer_Retry "HOL-Library.Product_Lexorder" "HOL-Library.Option_ord" "HOL-Library.Multiset"
begin

text \<open>
  What a restart reads back (\<open>persistence/transfer_store.rs\<close>): the columns a specification is
  stored in, \<open>load_spec\<close>, which reassembles it and checks it against the digest of the job row,
  and \<open>list_recoverable_jobs\<close>, which lists every unfinished download with its specification or
  the reason why it is blocked. The columns are integers and texts here, as SQLite may hand them
  back, so every refusal of \<open>load_spec\<close> is a branch.
\<close>

section \<open>The columns of a specification\<close>

record spec_row =
  sw_version :: int
  sw_full_session :: int
  sw_date_label :: string
  sw_revision :: string
  sw_payload :: string
  sw_signature :: string
  sw_public_key :: string

record stored_file =
  sf_file_id :: file_id
  sf_display_path :: string
  sf_size :: int
  sf_sha256 :: string
  sf_request_index :: "int option"

definition current_job_spec_version :: int where
  "current_job_spec_version = 1"

text \<open>What the transaction of a creation binds to the two \<open>INSERT\<close>s.\<close>

definition spec_row_of :: "job_spec \<Rightarrow> spec_row" where
  "spec_row_of s =
     \<lparr>sw_version = current_job_spec_version, sw_full_session = of_bool (js_full_session s),
      sw_date_label = js_date_label s, sw_revision = pm_revision (js_publication s),
      sw_payload = pm_payload (js_publication s), sw_signature = pm_signature (js_publication s),
      sw_public_key = pm_public_key (js_publication s)\<rparr>"

definition stored_file_of :: "file_row \<Rightarrow> stored_file" where
  "stored_file_of f =
     \<lparr>sf_file_id = jf_file_id (fr_file f), sf_display_path = jf_display_path (fr_file f),
      sf_size = uint (jf_size_bytes (fr_file f)), sf_sha256 = jf_sha256 (fr_file f),
      sf_request_index = map_option int (fr_request_index f)\<rparr>"

section \<open>Reassembling a specification\<close>

datatype recovery_blocked_reason =
    MissingSpec | MissingFiles | UnknownSpecVersion | CorruptSpec | DigestMismatch | UnknownState

definition corrupt_spec :: "'e + 'a \<Rightarrow> recovery_blocked_reason + 'a" where
  "corrupt_spec r = (case r of Inl _ \<Rightarrow> Inl CorruptSpec | Inr x \<Rightarrow> Inr x)"

lemma corrupt_spec_Inr [simp]: "corrupt_spec r = Inr x \<longleftrightarrow> r = Inr x"
  by (simp add: corrupt_spec_def split: sum.splits)

lemma corrupt_spec_of_Inr [simp]: "corrupt_spec (Inr x) = Inr x"
  by simp

definition full_session_flag :: "int \<Rightarrow> recovery_blocked_reason + bool" where
  "full_session_flag n = (if n = 0 then Inr False else if n = 1 then Inr True else Inl CorruptSpec)"

text \<open>The loop over the file rows: the inventory, and the requested files with their positions.\<close>

fun load_files ::
    "stored_file list \<Rightarrow> recovery_blocked_reason + (job_file_spec list \<times> (int \<times> file_id) list)" where
  "load_files [] = Inr ([], [])"
| "load_files (f # fs) =
     and_then (ensure (0 \<le> sf_size f) CorruptSpec) (\<lambda>_.
     and_then (corrupt_spec (new_job_file_spec (sf_file_id f) (sf_display_path f)
       (word_of_int (sf_size f)) (sf_sha256 f))) (\<lambda>file.
     and_then (case sf_request_index f of
         None \<Rightarrow> Inr []
       | Some i \<Rightarrow> and_then (ensure (0 \<le> i) CorruptSpec) (\<lambda>_. Inr [(i, sf_file_id f)])) (\<lambda>requested.
     and_then (load_files fs) (\<lambda>(files, later).
     Inr (file # files, requested @ later)))))"

definition load_spec_rows ::
    "(string \<Rightarrow> string) \<Rightarrow> stored_job \<Rightarrow> spec_row option \<Rightarrow> stored_file list
     \<Rightarrow> recovery_blocked_reason + job_spec" where
  "load_spec_rows sha job spec_row rows =
     (case spec_row of
        None \<Rightarrow> Inl MissingSpec
      | Some row \<Rightarrow>
          and_then (ensure (sw_version row = current_job_spec_version) UnknownSpecVersion) (\<lambda>_.
          and_then (full_session_flag (sw_full_session row)) (\<lambda>full_session.
          and_then (ensure (rows \<noteq> []) MissingFiles) (\<lambda>_.
          and_then (load_files rows) (\<lambda>(session_files, requested).
          and_then (ensure (requested \<noteq> []) MissingFiles) (\<lambda>_.
          and_then (corrupt_spec (new_publication_material (sw_revision row) (sw_payload row)
            (sw_signature row) (sw_public_key row))) (\<lambda>publication.
          and_then (corrupt_spec (new_job_spec (sj_identity job) publication session_files
            (map snd (sort_key fst requested)) full_session (sw_date_label row))) (\<lambda>spec.
          and_then (ensure (request_digest sha spec = sj_digest job) DigestMismatch) (\<lambda>_.
          Inr spec)))))))))"

definition load_spec ::
    "(string \<Rightarrow> string) \<Rightarrow> transfer_db \<Rightarrow> stored_job \<Rightarrow> recovery_blocked_reason + job_spec" where
  "load_spec sha db job =
     load_spec_rows sha job (map_option spec_row_of (map_of (db_specs db) (sj_job_id job)))
       (map stored_file_of (filter (\<lambda>f. fr_job_id f = sj_job_id job) (db_files db)))"

datatype job_spec_load_error = LoadUnknownJob job_id | LoadBlocked recovery_blocked_reason

definition load_job_spec ::
    "(string \<Rightarrow> string) \<Rightarrow> transfer_db \<Rightarrow> job_id \<Rightarrow> job_spec_load_error + job_spec" where
  "load_job_spec sha db j =
     (case find_job db j of
        None \<Rightarrow> Inl (LoadUnknownJob j)
      | Some job \<Rightarrow>
          (case load_spec sha db job of Inl reason \<Rightarrow> Inl (LoadBlocked reason) | Inr spec \<Rightarrow> Inr spec))"

section \<open>Listing what is unfinished\<close>

text \<open>The ledger rows of a job joined with its file rows, \<open>ORDER BY request_index\<close>.\<close>

definition read_ledger :: "transfer_db \<Rightarrow> job_id \<Rightarrow> ledger_row list" where
  "read_ledger db j =
     sort_key (\<lambda>e. Option.bind (find_file db j (lg_file_id e)) fr_request_index)
       (filter (\<lambda>e. lg_job_id e = j \<and> find_file db j (lg_file_id e) \<noteq> None) (db_ledger db))"

datatype recoverable_job =
    RecoverReady stored_job job_spec "ledger_row list"
  | RecoverBlocked job_id "job_identity option" recovery_blocked_reason

fun recoverable_id :: "recoverable_job \<Rightarrow> job_id" where
  "recoverable_id (RecoverReady job spec ledger) = sj_job_id job"
| "recoverable_id (RecoverBlocked j identity reason) = j"

definition unfinished_downloads :: "transfer_db \<Rightarrow> stored_job list" where
  "unfinished_downloads db =
     sort_key (\<lambda>r. (sj_created_at r, sj_job_id r))
       (filter (\<lambda>r. sj_kind r = Download \<and> \<not> tag_is_terminal (sj_state r)) (db_jobs db))"

definition recoverable_of :: "(string \<Rightarrow> string) \<Rightarrow> transfer_db \<Rightarrow> stored_job \<Rightarrow> recoverable_job" where
  "recoverable_of sha db r =
     (case load_spec sha db r of
        Inl reason \<Rightarrow> RecoverBlocked (sj_job_id r) (Some (sj_identity r)) reason
      | Inr spec \<Rightarrow> RecoverReady r spec (read_ledger db (sj_job_id r)))"

definition list_recoverable_jobs :: "(string \<Rightarrow> string) \<Rightarrow> transfer_db \<Rightarrow> recoverable_job list" where
  "list_recoverable_jobs sha db = map (recoverable_of sha db) (unfinished_downloads db)"

section \<open>A stored specification loads again\<close>

text \<open>What the constructors of the sources guarantee of a specification, and what SQLite can hold.\<close>

definition file_spec_valid :: "job_file_spec \<Rightarrow> bool" where
  "file_spec_valid f \<longleftrightarrow>
     new_job_file_spec (jf_file_id f) (jf_display_path f) (jf_size_bytes f) (jf_sha256 f) = Inr f"

definition job_spec_valid :: "job_spec \<Rightarrow> bool" where
  "job_spec_valid s \<longleftrightarrow>
     job_spec_ok s \<and> list_all file_spec_valid (js_session_files s)
     \<and> new_publication_material (pm_revision (js_publication s)) (pm_payload (js_publication s))
         (pm_signature (js_publication s)) (pm_public_key (js_publication s)) = Inr (js_publication s)"

lemma load_files_file_rows:
  assumes "list_all file_spec_valid files"
  shows "load_files (map stored_file_of (map (\<lambda>f. \<lparr>fr_job_id = j, fr_request_index = pos (jf_file_id f),
             fr_file = f\<rparr>) files)) =
         Inr (files, concat (map (\<lambda>f. case pos (jf_file_id f) of None \<Rightarrow> []
             | Some i \<Rightarrow> [(int i, jf_file_id f)]) files))"
  using assms
  by (induction files) (auto simp: stored_file_of_def file_spec_valid_def corrupt_spec_def split: option.splits)

lemma snd_concat_option:
  "map snd (concat (map (\<lambda>f. case p f of None \<Rightarrow> [] | Some i \<Rightarrow> [(int i, g f)]) fs)) =
     map g (filter (\<lambda>f. p f \<noteq> None) fs)"
  by (induction fs) (auto split: option.splits)

lemma set_concat_option:
  "set (concat (map (\<lambda>f. case p f of None \<Rightarrow> [] | Some i \<Rightarrow> [(int i, g f)]) fs)) =
     {(int k, g f) | f k. f \<in> set fs \<and> p f = Some k}"
  by (induction fs) (auto split: option.splits)

text \<open>The numbered pairs of a list, in any order, sort back to the list.\<close>

lemma sort_numbered:
  assumes "distinct xs" and "set xs = {(int k, ys ! k) | k. k < length ys}"
  shows "map snd (sort_key fst xs) = ys"
proof -
  let ?want = "map (\<lambda>k. (int k, ys ! k)) [0..<length ys]"
  have keys: "map fst ?want = map int [0..<length ys]" by simp
  have inj: "distinct (map fst ?want)" unfolding keys by (simp add: distinct_map)
  have set_eq: "set xs = set ?want" using assms(2) by auto
  have "distinct ?want" using inj distinct_map [of fst ?want] by blast
  from set_eq_iff_mset_eq_distinct [OF assms(1) this] have "mset xs = mset ?want"
    using set_eq by (rule iffD1)
  moreover have "inj_on fst (set xs)"
    unfolding set_eq using inj distinct_map [of fst ?want] by blast
  moreover have "sorted (map fst ?want)"
    unfolding keys by (rule sorted_map_mono [OF sorted_upt]) (simp add: mono_on_def)
  ultimately have "sort_key fst xs = ?want" by (rule sort_key_inj_key_eq)
  then show ?thesis by (simp add: comp_def map_nth)
qed

lemma requested_in_order:
  assumes ok: "job_spec_ok s"
  shows "map snd (sort_key fst (concat (map (\<lambda>f. case request_position s (jf_file_id f) of None \<Rightarrow> []
             | Some i \<Rightarrow> [(int i, jf_file_id f)]) (js_session_files s)))) =
         map jf_file_id (requested_files s)"
proof (rule sort_numbered)
  let ?files = "js_session_files s" and ?req = "js_requested s"
  let ?id = "\<lambda>i. jf_file_id (?files ! i)"
  let ?pairs = "concat (map (\<lambda>f. case request_position s (jf_file_id f) of None \<Rightarrow> []
             | Some i \<Rightarrow> [(int i, jf_file_id f)]) ?files)"
  have ids: "distinct (map jf_file_id ?files)" and req: "distinct ?req"
    and bound: "\<forall>i\<in>set ?req. i < length ?files"
    using ok by (auto simp: job_spec_ok_def list_all_iff)
  have pos: "request_position s (?id i) = Some k \<longleftrightarrow> k < length ?req \<and> ?req ! k = i" if i: "i < length ?files" for i k
  proof -
    have eq: "?id (?req ! m) = ?id i \<longleftrightarrow> ?req ! m = i" if "m < length ?req" for m
      using distinct_map_nth [OF ids _ i, of "?req ! m"] bound that by simp
    then show ?thesis
      unfolding request_position_def position_Some
      using req by (auto simp: nth_eq_iff_index_eq)
  qed
  have "distinct (map snd ?pairs)"
    unfolding snd_concat_option using ids by (rule distinct_map_filter)
  then show "distinct ?pairs" using distinct_map [of snd ?pairs] by blast
  let ?want = "map jf_file_id (requested_files s)"
  have "(\<exists>f k. (n, x) = (int k, jf_file_id f) \<and> f \<in> set ?files \<and> request_position s (jf_file_id f) = Some k)
      \<longleftrightarrow> (\<exists>k. (n, x) = (int k, ?want ! k) \<and> k < length ?want)" (is "?L \<longleftrightarrow> ?R") for n x
  proof
    assume ?L
    then obtain i k where "i < length ?files" "n = int k" "x = ?id i" "request_position s (?id i) = Some k"
      by (auto simp: in_set_conv_nth)
    then show ?R using pos by (auto simp: requested_files_def)
  next
    assume ?R
    then obtain k where k: "k < length ?req" "n = int k" "x = ?id (?req ! k)"
      by (auto simp: requested_files_def)
    then have i: "?req ! k < length ?files" using bound by simp
    with k(1) have "request_position s (?id (?req ! k)) = Some k" using pos by simp
    then show ?L using k i by (intro exI [of _ "?files ! (?req ! k)"] exI [of _ k]) simp
  qed
  then have "p \<in> set ?pairs \<longleftrightarrow> p \<in> {(int k, ?want ! k) | k. k < length ?want}" for p
    unfolding set_concat_option mem_Collect_eq by (cases p) (rule iffI; blast)
  then show "set ?pairs = {(int k, ?want ! k) | k. k < length ?want}" by (rule set_eqI)
qed

lemma nonempty_sorted: "map snd (sort_key fst xs) = map f ys \<Longrightarrow> ys \<noteq> [] \<Longrightarrow> xs \<noteq> []"
  by auto

text \<open>The rows of a valid specification load to that specification.\<close>

lemma load_spec_rows_reads_back:
  assumes valid: "job_spec_valid s" and "sj_identity job = js_identity s"
    and "sj_digest job = request_digest sha s"
  shows "load_spec_rows sha job (Some (spec_row_of s)) (map stored_file_of (file_rows j s)) = Inr s"
proof -
  have ok: "job_spec_ok s" and files: "list_all file_spec_valid (js_session_files s)"
    using valid by (simp_all add: job_spec_valid_def)
  let ?pairs = "concat (map (\<lambda>f. case request_position s (jf_file_id f) of None \<Rightarrow> []
             | Some i \<Rightarrow> [(int i, jf_file_id f)]) (js_session_files s))"
  have wanted: "map snd (sort_key fst ?pairs) = map jf_file_id (requested_files s)"
    by (rule requested_in_order [OF ok])
  have "requested_files s \<noteq> []" "js_session_files s \<noteq> []"
    using ok by (auto simp: requested_files_def job_spec_ok_def)
  then have some: "?pairs \<noteq> []" "file_rows j s \<noteq> []"
    using nonempty_sorted [OF wanted] by (simp_all only: file_rows_def map_is_Nil_conv not_False_eq_True)
  have load: "load_files (map stored_file_of (file_rows j s)) = Inr (js_session_files s, ?pairs)"
    using load_files_file_rows [OF files] by (simp add: file_rows_def)
  have new: "new_job_spec (js_identity s) (js_publication s) (js_session_files s)
      (map jf_file_id (requested_files s)) (js_full_session s) (js_date_label s) = Inr s"
    using ok by (simp add: new_job_spec_Inr)
  have flag: "full_session_flag (of_bool (js_full_session s)) = Inr (js_full_session s)"
    by (simp add: full_session_flag_def)
  have material: "new_publication_material (pm_revision (js_publication s)) (pm_payload (js_publication s))
         (pm_signature (js_publication s)) (pm_public_key (js_publication s)) = Inr (js_publication s)"
    using valid by (simp add: job_spec_valid_def)
  show ?thesis
    unfolding load_spec_rows_def
    using some(2) by (simp add: spec_row_of_def flag load material new wanted some(1) assms(2,3) ensure_def
        del: and_then_Inr concat_eq_Nil_conv)
qed

section \<open>Every job of a history has its specification\<close>

definition job_files :: "transfer_db \<Rightarrow> job_id \<Rightarrow> file_row list" where
  "job_files db j = filter (\<lambda>f. fr_job_id f = j) (db_files db)"

definition spec_kept :: "(string \<Rightarrow> string) \<Rightarrow> transfer_db \<Rightarrow> job_id \<Rightarrow> stored_job \<Rightarrow> job_spec \<Rightarrow> bool" where
  "spec_kept sha db j r s \<longleftrightarrow>
     map_of (db_specs db) j = Some s \<and> job_files db j = file_rows j s \<and> job_spec_valid s
     \<and> sj_identity r = js_identity s \<and> sj_digest r = request_digest sha s"

definition job_stored :: "(string \<Rightarrow> string) \<Rightarrow> transfer_db \<Rightarrow> job_id \<Rightarrow> bool" where
  "job_stored sha db j \<longleftrightarrow>
     (case find_job db j of
        None \<Rightarrow> map_of (db_specs db) j = None \<and> job_files db j = []
      | Some r \<Rightarrow> \<exists>s. spec_kept sha db j r s)"

definition specs_stored :: "(string \<Rightarrow> string) \<Rightarrow> transfer_db \<Rightarrow> bool" where
  "specs_stored sha db \<longleftrightarrow> (\<forall>j. job_stored sha db j)"

lemma spec_kept_loads:
  assumes "spec_kept sha db j r s" and "sj_job_id r = j"
  shows "load_spec sha db r = Inr s"
  using assms load_spec_rows_reads_back [of s r sha j]
  by (simp add: spec_kept_def load_spec_def job_files_def)

text \<open>A step that leaves the columns of a job and its identity alone.\<close>

lemma job_stored_same:
  assumes "job_stored sha db j" and "map_of (db_specs db') j = map_of (db_specs db) j"
    and "job_files db' j = job_files db j"
    and "rel_option (\<lambda>r r'. sj_identity r' = sj_identity r \<and> sj_digest r' = sj_digest r)
           (find_job db j) (find_job db' j)"
  shows "job_stored sha db' j"
proof -
  have "spec_kept sha db' j r' s" if "spec_kept sha db j r s" "sj_identity r' = sj_identity r"
    "sj_digest r' = sj_digest r" for r r' s
    using that assms(2,3) by (simp add: spec_kept_def)
  with assms show ?thesis
    by (cases "find_job db j"; cases "find_job db' j") (simp_all add: job_stored_def, blast)
qed

fun keeps_specs :: "store_op \<Rightarrow> bool" where
  "keeps_specs (OpCreate _ _ _) = False"
| "keeps_specs (OpDelete _) = False"
| "keeps_specs _ = True"

lemma apply_same_specs:
  assumes "keeps_specs x"
  shows "db_specs (store_apply sha db x) = db_specs db \<and> db_files (store_apply sha db x) = db_files db"
proof (cases x)
  case (OpTransition k v to e now)
  show ?thesis
    unfolding OpTransition store_apply.simps
    by (rule committed_cases, simp)
       (auto simp: transition_job_def Let_def split: option.splits if_splits)
next
  case (OpSetDesired k d now v)
  then show ?thesis
    by (auto simp: set_desired_run_state_def Let_def split: sum.splits if_splits)
next
  case (OpLedger k f st b d now)
  show ?thesis
  proof (cases "update_file_ledger db k f st b d now")
    case (Inr db')
    have "db_specs db' = db_specs db" "db_files db' = db_files db"
      by (subst ledger_other_tables [OF Inr], simp)+
    then show ?thesis using OpLedger Inr by simp
  qed (use OpLedger in simp)
next
  case (OpComplete k e now ab)
  have outbox: "insert_outbox_row d j e v now = Inr (d', c) \<Longrightarrow>
      db_specs d' = db_specs d \<and> db_files d' = db_files d" for d j e v now d' c
    by (auto simp: insert_outbox_row_Inr)
  show ?thesis
    unfolding OpComplete store_apply.simps
    by (rule committed_cases, simp)
       (auto simp: complete_job_inner_def Let_def dest!: outbox split: option.splits if_splits)
next
  case (OpAck k now)
  show ?thesis
    unfolding OpAck store_apply.simps
    by (rule committed_cases, simp)
       (auto simp: acknowledge_completion_def Let_def split: option.splits if_splits)
next
  case (OpDismiss k now)
  show ?thesis
    unfolding OpDismiss store_apply.simps
    by (rule committed_cases, simp) (auto simp: dismiss_job_def split: option.splits if_splits)
qed (use assms in simp_all)

lemma apply_same_rows:
  assumes ok: "store_ok db" and "keeps_specs x"
  shows "rel_option (\<lambda>r r'. sj_identity r' = sj_identity r \<and> sj_digest r' = sj_digest r)
           (find_job db j) (find_job (store_apply sha db x) j)"
proof (cases "find_job db j")
  case None
  have "find_job (store_apply sha db x) j \<noteq> Some r'" for r'
  proof
    assume "find_job (store_apply sha db x) j = Some r'"
    from apply_row_origin [OF ok this] show False
    proof (elim disjE exE conjE)
      fix spec now assume "x = OpCreate j spec now"
      with assms(2) show False by simp
    qed (use None in simp)
  qed
  then have "find_job (store_apply sha db x) j = None" by (rule not_Some_eq [THEN iffD1, OF allI])
  with None show ?thesis by simp
next
  case (Some r)
  have "x \<noteq> OpDelete j" using assms(2) by auto
  from apply_row_later [OF ok Some this, of sha] Some show ?thesis by (auto simp: row_later_def)
qed

lemma map_of_append_other:
  "list_all (\<lambda>(k, _). k \<noteq> j) ys \<Longrightarrow> map_of (xs @ ys) j = map_of xs j"
  by (induction xs) (auto simp: map_of_eq_None_iff list_all_iff)

lemma job_files_append:
  "db_files db' = db_files db @ fs \<Longrightarrow> job_files db' j = job_files db j @ filter (\<lambda>f. fr_job_id f = j) fs"
  by (simp add: job_files_def)

lemma file_rows_of_job [simp]:
  "filter (\<lambda>f. fr_job_id f = k) (file_rows j s) = (if k = j then file_rows j s else [])"
  by (auto simp: file_rows_def filter_empty_conv filter_id_conv)

text \<open>A new job whose columns are appended.\<close>

lemma job_stored_insert:
  assumes all: "specs_stored sha db" and "find_job db k = None" and "find_job db' = (find_job db)(k \<mapsto> r)"
    and specs: "db_specs db' = db_specs db @ map (\<lambda>s. (k, s)) ss" "ss \<noteq> []"
    and files: "db_files db' = db_files db @ file_rows k (hd ss)"
    and row: "job_spec_valid (hd ss)" "sj_identity r = js_identity (hd ss)"
      "sj_digest r = request_digest sha (hd ss)"
  shows "specs_stored sha db'"
  unfolding specs_stored_def
proof
  fix j
  have old: "job_stored sha db j" using all by (simp add: specs_stored_def)
  show "job_stored sha db' j"
  proof (cases "j = k")
    case True
    have "map_of (db_specs db) k = None" "job_files db k = []"
      using old assms(2) True by (simp_all add: job_stored_def)
    moreover have "map_of (map (\<lambda>s. (k, s)) ss) k = Some (hd ss)" using specs(2) by (cases ss) simp_all
    ultimately have "spec_kept sha db' k r (hd ss)"
      using row by (simp add: spec_kept_def specs(1) map_add_def job_files_append [OF files])
    then show ?thesis using True assms(3) by (auto simp: job_stored_def)
  next
    case False
    have "map_of (db_specs db') j = map_of (db_specs db) j"
      unfolding specs(1) using False by (intro map_of_append_other) (auto simp: list_all_iff)
    moreover have "job_files db' j = job_files db j"
      using False by (simp add: job_files_append [OF files])
    moreover have "find_job db' j = find_job db j" using False assms(3) by simp
    ultimately show ?thesis
      using old by (intro job_stored_same [OF old]) (simp_all add: option.rel_refl)
  qed
qed

fun op_valid :: "transfer_op \<Rightarrow> bool" where
  "op_valid (StoreOp (OpCreate j spec now)) = job_spec_valid spec"
| "op_valid _ = True"

lemma map_of_copied:
  "map_of xs p = Some s \<Longrightarrow>
     \<exists>ss. map (\<lambda>(_, s). (k, s)) (filter (\<lambda>(i, _). i = p) xs) = map (\<lambda>s. (k, s)) (s # ss)"
proof (induction xs)
  case (Cons x xs)
  show ?case
  proof (cases "fst x = p")
    case True
    then show ?thesis
      using Cons.prems by (intro exI [of _ "map snd (filter (\<lambda>a. fst a = p) xs)"])
        (auto simp: case_prod_beta comp_def split: if_splits)
  qed (use Cons in \<open>auto simp: case_prod_beta split: if_splits\<close>)
qed simp

lemma files_copied:
  assumes "job_files db p = file_rows p s"
  shows "map (\<lambda>f. f\<lparr>fr_job_id := k\<rparr>) (filter (\<lambda>f. fr_job_id f = p) (db_files db)) = file_rows k s"
  using assms by (simp add: job_files_def file_rows_def comp_def)

lemma delete_specs:
  assumes "delete_job db k = Inr (db', res)"
  shows "db' = db \<or> db_specs db' = filter (\<lambda>(i, _). i \<noteq> k) (db_specs db)
           \<and> db_files db' = filter (\<lambda>f. fr_job_id f \<noteq> k) (db_files db)"
  using assms by (auto simp: delete_job_def split: if_splits)

lemma map_of_delete: "map_of (filter (\<lambda>(i, _). i \<noteq> k) xs) j = (if j = k then None else map_of xs j)"
  by (induction xs) auto

lemma apply_specs_stored:
  assumes stored: "specs_stored sha db" and ok: "transfer_ok db" and op: "op_valid x"
  shows "specs_stored sha (transfer_apply sha upload db x)"
proof (cases x)
  case (StoreOp y)
  have store: "store_ok db" using ok by (simp add: transfer_ok_def)
  show ?thesis
  proof (cases "keeps_specs y")
    case True
    have same: "db_specs (store_apply sha db y) = db_specs db" "db_files (store_apply sha db y) = db_files db"
      using apply_same_specs [OF True] by simp_all
    show ?thesis
      unfolding StoreOp transfer_apply.simps specs_stored_def
    proof
      fix j
      show "job_stored sha (store_apply sha db y) j"
        by (rule job_stored_same [OF _ _ _ apply_same_rows [OF store True]])
           (use stored same in \<open>simp_all add: specs_stored_def job_files_def\<close>)
    qed
  next
    case False
    then consider (create) k spec now where "y = OpCreate k spec now" | (delete) k where "y = OpDelete k"
      by (cases y) auto
    then show ?thesis
    proof cases
      case create
      show ?thesis
        unfolding StoreOp create transfer_apply.simps store_apply.simps
      proof (rule committed_cases)
        fix db' res assume "insert_job sha db k spec now = Inr (db', res)"
        then show "specs_stored sha db'"
        proof (cases rule: insert_job_delta)
          case (created r)
          show ?thesis
            by (rule job_stored_insert [OF stored created(2,13), of "[spec]"])
               (use created op StoreOp create in simp_all)
        qed (use stored in simp)
      qed (rule stored)
    next
      case delete
      show ?thesis
        unfolding StoreOp delete transfer_apply.simps store_apply.simps
      proof (rule committed_cases)
        fix db' res assume step: "delete_job db k = Inr (db', res)"
        note tables = delete_specs [OF step]
        have rows: "db' = db \<or> find_job db' = (find_job db)(k := None)"
          using step by (cases rule: delete_delta) simp_all
        show "specs_stored sha db'"
        proof (cases "db' = db")
          case changed: False
          have files: "job_files db' j = (if j = k then [] else job_files db j)" for j
            using tables changed by (auto simp: job_files_def filter_empty_conv intro!: filter_cong)
          have "job_stored sha db' j" for j
          proof (cases "j = k")
            case True
            then show ?thesis using tables rows changed files by (simp add: job_stored_def map_of_delete)
          next
            case other: False
            show ?thesis
              by (rule job_stored_same [where db = db])
                 (use stored tables rows changed files other in \<open>simp_all add: map_of_delete specs_stored_def option.rel_refl\<close>)
          qed
          then show ?thesis by (simp add: specs_stored_def)
        qed (use stored in simp)
      qed (rule stored)
    qed
  qed
next
  case (RetryOp policy p child now discard)
  have only: "downloads_only db" using ok by (simp add: transfer_ok_def)
  show ?thesis
    unfolding RetryOp
  proof (rule retry_applied [OF only, of sha upload policy p child now discard])
    let ?db = "transfer_apply sha upload db (RetryOp policy p child now discard)"
    fix parent attempt res
    assume c: "find_job db p = Some parent" "sj_job_id parent = p"
      "find_job db child = None"
      "create_retry_child db parent child now attempt (fresh_ledger policy) = Inr (?db, res)"
    note made = create_retry_child_Inr [OF c(4,3)]
    obtain s where s: "spec_kept sha db p parent s"
      using stored [unfolded specs_stored_def, rule_format, of p] c(1) by (auto simp: job_stored_def)
    obtain ss where ss: "map (\<lambda>(_, s). (child, s)) (filter (\<lambda>(i, _). i = p) (db_specs db))
        = map (\<lambda>s. (child, s)) (s # ss)"
      using map_of_copied [of "db_specs db" p s child] s by (auto simp: spec_kept_def)
    show "specs_stored sha ?db"
      by (rule job_stored_insert [OF stored c(3) made(9), of "s # ss"])
         (use made(3,4) ss c(2) files_copied [of db p s child] s in \<open>simp_all add: spec_kept_def retry_row_def\<close>)
  qed (use stored in simp)
qed

lemma specs_stored_empty: "specs_stored sha empty_db"
  by (simp add: specs_stored_def job_stored_def find_job_def) (simp add: job_files_def empty_db_def)

lemma run_specs_stored:
  "list_all op_valid xs \<Longrightarrow> specs_stored sha (run_transfer sha upload empty_db xs)"
  using run_transfer_invariant [where P = "specs_stored sha" and Q = op_valid, OF specs_stored_empty
      transfer_ok_empty apply_specs_stored] by blast

section \<open>Properties\<close>

lemma transfer_apply_keeps_spec:
  assumes "map_of (db_specs db) j = Some s" and "x \<noteq> StoreOp (OpDelete j)" and only: "downloads_only db"
  shows "map_of (db_specs (transfer_apply sha upload db x)) j = Some s"
proof (cases x)
  case (StoreOp y)
  show ?thesis
  proof (cases "keeps_specs y")
    case True
    then show ?thesis using apply_same_specs StoreOp assms(1) by simp
  next
    case False
    then consider (create) k spec now where "y = OpCreate k spec now" | (delete) k where "y = OpDelete k"
      by (cases y) auto
    then show ?thesis
    proof cases
      case create
      show ?thesis
        unfolding StoreOp create transfer_apply.simps store_apply.simps
      proof (rule committed_cases)
        fix db' res assume "insert_job sha db k spec now = Inr (db', res)"
        then show "map_of (db_specs db') j = Some s"
          by (cases rule: insert_job_delta) (use assms(1) in \<open>simp_all add: map_add_Some_iff\<close>)
      qed (rule assms(1))
    next
      case delete
      show ?thesis
        unfolding StoreOp delete transfer_apply.simps store_apply.simps
      proof (rule committed_cases)
        fix db' res assume "delete_job db k = Inr (db', res)"
        then show "map_of (db_specs db') j = Some s"
          using assms(1,2) StoreOp delete by (auto dest!: delete_specs simp: map_of_delete)
      qed (rule assms(1))
    qed
  qed
next
  case (RetryOp policy p child now discard)
  show ?thesis
    unfolding RetryOp
  proof (rule retry_applied [OF only, of sha upload policy p child now discard])
    let ?db = "transfer_apply sha upload db (RetryOp policy p child now discard)"
    fix parent attempt res
    assume "find_job db child = None"
      "create_retry_child db parent child now attempt (fresh_ledger policy) = Inr (?db, res)"
    from create_retry_child_Inr(3) [OF this(2,1)] show "map_of (db_specs ?db) j = Some s"
      using assms(1) by (simp add: map_add_Some_iff)
  qed (use assms(1) in simp)
qed

lemma run_keeps_spec:
  "map_of (db_specs db) j = Some s \<Longrightarrow> StoreOp (OpDelete j) \<notin> set xs \<Longrightarrow> transfer_ok db \<Longrightarrow>
     map_of (db_specs (run_transfer sha upload db xs)) j = Some s"
proof (induction xs arbitrary: db)
  case (Cons x xs)
  have "downloads_only db" using Cons.prems(3) by (simp add: transfer_ok_def)
  moreover have "x \<noteq> StoreOp (OpDelete j)" "StoreOp (OpDelete j) \<notin> set xs" using Cons.prems(2) by auto
  ultimately show ?case
    using Cons.IH [OF transfer_apply_keeps_spec [OF Cons.prems(1)] _ transfer_apply_ok [OF Cons.prems(3)]]
    by simp
qed simp

lemma run_transfer_append: "run_transfer sha upload db (xs @ ys) = run_transfer sha upload (run_transfer sha upload db xs) ys"
  by (simp add: run_transfer_def)

lemma stored_spec_loads:
  assumes "specs_stored sha db" and "map_of (db_specs db) j = Some s"
  shows "load_job_spec sha db j = Inr s"
proof -
  from assms have "find_job db j \<noteq> None"
    by (auto simp: specs_stored_def job_stored_def dest!: spec [of _ j] split: option.splits)
  then obtain r where r: "find_job db j = Some r" by auto
  then obtain s' where s': "spec_kept sha db j r s'"
    using assms(1) [unfolded specs_stored_def, rule_format, of j] by (auto simp: job_stored_def)
  then have "s' = s" using assms(2) by (simp add: spec_kept_def)
  then show ?thesis
    using r spec_kept_loads [OF s' find_job_id [OF r]] by (simp add: load_job_spec_def)
qed

text \<open>
  C11. A specification survives every restart: once a job was created from a valid specification, and
  whatever happens to the tables afterwards short of deleting the job (its own progress and end,
  other jobs, retries that copy its rows), the specification that is loaded for it is exactly the
  one it was created from.
\<close>

theorem created_spec_reads_back:
  assumes "list_all op_valid (past @ StoreOp (OpCreate j spec now) # future)"
    and "insert_job sha (run_transfer sha upload empty_db past) j spec now = Inr (db', JobCreated r)"
    and "StoreOp (OpDelete j) \<notin> set future"
  shows "load_job_spec sha
      (run_transfer sha upload empty_db (past @ StoreOp (OpCreate j spec now) # future)) j = Inr spec"
proof (rule stored_spec_loads)
  let ?past = "run_transfer sha upload empty_db past"
  show "specs_stored sha (run_transfer sha upload empty_db (past @ StoreOp (OpCreate j spec now) # future))"
    by (rule run_specs_stored [OF assms(1)])
  have past: "specs_stored sha ?past" "transfer_ok ?past"
    using run_specs_stored [of past] run_transfer_ok assms(1) by simp_all
  have applied: "transfer_apply sha upload ?past (StoreOp (OpCreate j spec now)) = db'"
    using assms(2) by simp
  have "map_of (db_specs db') j = Some spec"
    using assms(2)
  proof (cases rule: insert_job_delta)
    case (created r')
    have "map_of (db_specs ?past) j = None"
      using past(1) [unfolded specs_stored_def, rule_format, of j] created(2) by (simp add: job_stored_def)
    then show ?thesis using created(12) by (simp add: map_add_def)
  qed simp
  then have "map_of (db_specs (run_transfer sha upload db' future)) j = Some spec"
    by (rule run_keeps_spec [OF _ assms(3)]) (use transfer_apply_ok [OF past(2)] applied in metis)
  then show "map_of (db_specs (run_transfer sha upload empty_db
      (past @ StoreOp (OpCreate j spec now) # future))) j = Some spec"
    using applied by (simp add: run_transfer_append)
qed

definition ready_as_stored :: "(string \<Rightarrow> string) \<Rightarrow> transfer_db \<Rightarrow> recoverable_job \<Rightarrow> bool" where
  "ready_as_stored sha db x =
     (case x of
        RecoverReady r s ledger \<Rightarrow>
          find_job db (sj_job_id r) = Some r \<and> map_of (db_specs db) (sj_job_id r) = Some s
          \<and> request_digest sha s = sj_digest r
      | RecoverBlocked j identity reason \<Rightarrow> False)"

lemma unfinished_set: "set (unfinished_downloads db) = set (filter live_download (db_jobs db))"
  by (auto simp: unfinished_downloads_def live_download_def)

lemma list_recoverable_sound:
  assumes stored: "specs_stored sha db" and ok: "transfer_ok db"
  shows "map recoverable_id (list_recoverable_jobs sha db) = map sj_job_id (unfinished_downloads db)"
    and "list_all (ready_as_stored sha db) (list_recoverable_jobs sha db)"
proof -
  have keys: "distinct (map sj_job_id (db_jobs db))"
    using ok store_okD(1) by (auto simp: transfer_ok_def keys_ok_def)
  have one: "recoverable_id (recoverable_of sha db r) = sj_job_id r
      \<and> ready_as_stored sha db (recoverable_of sha db r)" if "r \<in> set (unfinished_downloads db)" for r
  proof -
    have r: "find_job db (sj_job_id r) = Some r"
      using that unfinished_set find_key_Some_iff [OF keys] by (auto simp: find_job_def)
    obtain s where s: "spec_kept sha db (sj_job_id r) r s"
      using stored [unfolded specs_stored_def, rule_format, of "sj_job_id r"] r by (auto simp: job_stored_def)
    then show ?thesis
      using spec_kept_loads [OF s refl] r
      by (simp add: recoverable_of_def ready_as_stored_def spec_kept_def)
  qed
  then show "map recoverable_id (list_recoverable_jobs sha db) = map sj_job_id (unfinished_downloads db)"
    and "list_all (ready_as_stored sha db) (list_recoverable_jobs sha db)"
    by (simp_all add: list_recoverable_jobs_def list_all_iff)
qed

text \<open>
  A restart forgets nothing: after any history of the tables every unfinished download, and
  nothing else, is listed exactly once, in the order of creation, and none is blocked: each comes
  with the specification that its columns and its digest were written from.
\<close>

theorem recovery_lists_every_download:
  assumes "list_all op_valid xs" and "db = run_transfer sha upload empty_db xs"
  shows "set (map recoverable_id (list_recoverable_jobs sha db))
           = set (map sj_job_id (filter live_download (db_jobs db)))
       \<and> distinct (map recoverable_id (list_recoverable_jobs sha db))
       \<and> sorted (map (\<lambda>r. (sj_created_at r, sj_job_id r)) (unfinished_downloads db))
       \<and> map recoverable_id (list_recoverable_jobs sha db) = map sj_job_id (unfinished_downloads db)
       \<and> list_all (ready_as_stored sha db) (list_recoverable_jobs sha db)"
proof -
  have ok: "transfer_ok db" and stored: "specs_stored sha db"
    using run_transfer_ok run_specs_stored [OF assms(1)] assms(2) by simp_all
  note sound = list_recoverable_sound [OF stored ok]
  have "distinct (map sj_job_id (db_jobs db))"
    using ok store_okD(1) by (auto simp: transfer_ok_def keys_ok_def)
  then have "distinct (map sj_job_id (filter live_download (db_jobs db)))" by (rule distinct_map_filter)
  moreover have "mset (map sj_job_id (unfinished_downloads db))
      = mset (map sj_job_id (filter live_download (db_jobs db)))"
    by (simp add: unfinished_downloads_def live_download_def)
  ultimately have "distinct (map sj_job_id (unfinished_downloads db))"
    by (metis mset_eq_imp_distinct_iff)
  moreover have "set (map sj_job_id (unfinished_downloads db))
      = set (map sj_job_id (filter live_download (db_jobs db)))"
    using unfinished_set [of db] by (simp only: set_map)
  moreover have "sorted (map (\<lambda>r. (sj_created_at r, sj_job_id r)) (unfinished_downloads db))"
    unfolding unfinished_downloads_def by (rule sorted_sort_key)
  ultimately show ?thesis using sound by simp
qed

text \<open>What a successful load says of the columns, whatever they are.\<close>

lemma load_spec_rows_Inr:
  assumes "load_spec_rows sha job srow rows = Inr s"
  shows "job_spec_ok s" and "request_digest sha s = sj_digest job" and "js_identity s = sj_identity job"
  using assms by (auto simp: load_spec_rows_def new_job_spec_Inr split: option.splits)

text \<open>
  C12. Altered rows are noticed: whatever the columns of a specification have become, if loading them
  succeeds against the digest that was recorded when the job was created, and SHA-256 does not map
  the two preimages to the same digest, then the loaded specification is the original one up to its
  display label.
\<close>

theorem altered_rows_are_blocked:
  assumes "load_spec_rows sha job srow rows = Inr s" and "sj_digest job = request_digest sha original"
    and "job_spec_ok original" "spec_addressable original" "spec_addressable s"
    and "sha (request_preimage s) = sha (request_preimage original)
           \<longrightarrow> request_preimage s = request_preimage original"
  shows "s\<lparr>js_date_label := []\<rparr> = original\<lparr>js_date_label := []\<rparr>"
proof -
  note loaded = load_spec_rows_Inr [OF assms(1)]
  have "request_preimage s = request_preimage original"
    using loaded(2) assms(2,6) by (simp add: request_digest_def)
  then show ?thesis using request_preimage_eq_iff [OF loaded(1) assms(3,5,4)] by simp
qed

section \<open>Witnesses\<close>

definition valid_spec :: job_spec where
  "valid_spec =
     \<lparr>js_identity = \<lparr>ji_device_id = ''d'', ji_session_id = ''s'', ji_revision = ''r''\<rparr>,
      js_publication = \<lparr>pm_revision = ''r'', pm_payload = ''x'', pm_signature = replicate 64 (CHR ''s''),
                        pm_public_key = replicate 32 (CHR ''k'')\<rparr>,
      js_session_files =
        [\<lparr>jf_file_id = ''f'', jf_display_path = ''f.mp4'', jf_size_bytes = 9, jf_sha256 = replicate 64 (CHR ''a'')\<rparr>,
         \<lparr>jf_file_id = ''g'', jf_display_path = ''g.mp4'', jf_size_bytes = 4, jf_sha256 = replicate 64 (CHR ''b'')\<rparr>],
      js_requested = [1, 0], js_full_session = True, js_date_label = ''today''\<rparr>"

lemma valid_spec_valid: "job_spec_valid valid_spec"
  by code_simp

definition later_history :: "transfer_op list" where
  "later_history =
     [StoreOp (OpComplete ''j'' (OutcomeFailed ''network'' True) ''t1'' None), StoreOp (OpAck ''j'' ''t2''),
      RetryOp FreshDownload ''j'' ''a'' ''t3'' None, StoreOp (OpTransition ''a'' 1 TagPreparing None ''t4'')]"

abbreviation recovery_history :: "transfer_op list" where
  "recovery_history \<equiv> StoreOp (OpCreate ''j'' valid_spec ''t0'') # later_history"

lemma recovery_history_valid: "list_all op_valid recovery_history"
  by (simp add: later_history_def valid_spec_valid)

theorem created_spec_reads_back_witness:
  "load_job_spec (\<lambda>_. []) (run_transfer (\<lambda>_. []) no_uploads empty_db recovery_history) ''j'' = Inr valid_spec"
proof -
  have "\<exists>db' r. insert_job (\<lambda>_. []) empty_db ''j'' valid_spec ''t0'' = Inr (db', JobCreated r)"
    by (simp add: sample_eval valid_spec_def)
  then obtain db' r where "insert_job (\<lambda>_. []) empty_db ''j'' valid_spec ''t0'' = Inr (db', JobCreated r)" by blast
  then show ?thesis
    using created_spec_reads_back [of "[]" "''j''" valid_spec "''t0''" later_history "\<lambda>_. []" no_uploads db' r]
      recovery_history_valid by (simp add: later_history_def)
qed

theorem recovery_lists_every_download_witness:
  "set (map recoverable_id (list_recoverable_jobs (\<lambda>_. [])
       (run_transfer (\<lambda>_. []) no_uploads empty_db recovery_history))) = {''a''}"
proof -
  let ?db = "run_transfer (\<lambda>_. []) no_uploads empty_db recovery_history"
  have "map sj_job_id (filter live_download (db_jobs ?db)) = [''a'']"
    by (simp add: later_history_def retry_eval valid_spec_def transition_job_def is_valid_transition_def
        natural_key_def text_frame_def decimal.simps)
  note rows = this
  have "set (map recoverable_id (list_recoverable_jobs (\<lambda>_. []) ?db))
      = set (map sj_job_id (filter live_download (db_jobs ?db)))"
    by (rule recovery_lists_every_download [OF recovery_history_valid refl, THEN conjunct1])
  also have "\<dots> = {''a''}" unfolding rows by simp
  finally show ?thesis .
qed

definition sample_row :: stored_job where
  "sample_row =
     \<lparr>sj_job_id = ''j'', sj_kind = Download, sj_natural_key = [], sj_identity = js_identity valid_spec,
      sj_digest = request_preimage valid_spec, sj_state = TagQueued, sj_version = 1, sj_desired = Run,
      sj_error = None, sj_created_at = ''t0'', sj_updated_at = ''t0'', sj_dismissed_at = None\<rparr>"

theorem altered_rows_are_blocked_witness:
  "\<exists>s. load_spec_rows (\<lambda>x. x) sample_row
         (Some ((spec_row_of valid_spec)\<lparr>sw_date_label := ''another day''\<rparr>))
         (map stored_file_of (file_rows ''j'' valid_spec)) = Inr s
     \<and> s\<lparr>js_date_label := []\<rparr> = valid_spec\<lparr>js_date_label := []\<rparr>"
proof -
  let ?s = "valid_spec\<lparr>js_date_label := ''another day''\<rparr>"
  have small: "spec_addressable valid_spec"
    by (simp add: spec_addressable_def addressable_def file_addressable_def valid_spec_def)
  then have "spec_addressable ?s" by (simp add: spec_addressable_def)
  moreover have "job_spec_ok ?s = job_spec_ok valid_spec" by (simp add: job_spec_ok_def)
  then have "job_spec_valid ?s" "job_spec_ok valid_spec"
    using valid_spec_valid by (simp_all add: job_spec_valid_def)
  moreover have same: "request_preimage ?s = request_preimage valid_spec" by (simp add: request_preimage_def)
  moreover have "spec_row_of ?s = (spec_row_of valid_spec)\<lparr>sw_date_label := ''another day''\<rparr>"
    "file_rows ''j'' ?s = file_rows ''j'' valid_spec"
    by (simp_all add: spec_row_of_def file_rows_def request_position_def)
  ultimately have load: "load_spec_rows (\<lambda>x. x) sample_row
         (Some ((spec_row_of valid_spec)\<lparr>sw_date_label := ''another day''\<rparr>))
         (map stored_file_of (file_rows ''j'' valid_spec)) = Inr ?s"
    using load_spec_rows_reads_back [of ?s sample_row "\<lambda>x. x" "''j''"]
    by (simp add: sample_row_def request_digest_def)
  have "?s\<lparr>js_date_label := []\<rparr> = valid_spec\<lparr>js_date_label := []\<rparr>"
    by (rule altered_rows_are_blocked [OF load])
       (use \<open>spec_addressable ?s\<close> small \<open>job_spec_ok valid_spec\<close> in
         \<open>simp_all add: sample_row_def request_digest_def\<close>)
  with load show ?thesis by blast
qed

end
