(* ===== verification/Job_Lifecycle.thy ===== *)
theory Job_Lifecycle
  imports Coordinator Job_Recovery
begin

text \<open>
  How a transfer enters the runtime (\<open>enqueue\<close>, \<open>install_runtime_if_current\<close>, \<open>retry\<close> of
  \<open>transfer/coordinator.rs\<close>, the request of \<open>transfer/queue.rs\<close>) and what the start of the program
  does with the downloads a previous process left unfinished (\<open>transfer/recovery.rs\<close>): they are
  recorded as failed, their staged bytes discarded, and their runtime copies installed without
  scheduling any of them. The verifier of signatures, the new identifiers, the shutdown flag and
  the discarding of staged bytes are arguments.
\<close>

section \<open>Requests\<close>

record job_file =
  rq_file_id :: file_id
  rq_target_path :: "string option"
  rq_expected_size :: u64
  rq_expected_sha256 :: string

record transfer_request =
  tq_device_id :: device_id
  tq_session_id :: session_id
  tq_revision :: string
  tq_idempotency_key :: string
  tq_files :: "job_file list"
  tq_manifest_bytes :: string
  tq_signature :: string
  tq_public_key :: string

definition file_target :: "job_file \<Rightarrow> string" where
  "file_target f = (case rq_target_path f of None \<Rightarrow> rq_file_id f | Some path \<Rightarrow> path)"

fun collect_results :: "('e + 'a) list \<Rightarrow> 'e + 'a list" where
  "collect_results [] = Inr []"
| "collect_results (r # rs) = and_then r (\<lambda>x. and_then (collect_results rs) (\<lambda>xs. Inr (x # xs)))"

definition to_job_spec :: "transfer_request \<Rightarrow> bool \<Rightarrow> string \<Rightarrow> job_spec_error + job_spec" where
  "to_job_spec r full_session date_label =
     and_then (new_job_identity (tq_device_id r) (tq_session_id r) (tq_revision r)) (\<lambda>identity.
     and_then (new_publication_material (tq_revision r) (tq_manifest_bytes r) (tq_signature r)
       (tq_public_key r)) (\<lambda>publication.
     and_then (collect_results (map (\<lambda>f. new_job_file_spec (rq_file_id f) (file_target f)
       (rq_expected_size f) (rq_expected_sha256 f)) (tq_files r))) (\<lambda>session_files.
     new_job_spec identity publication session_files (map rq_file_id (tq_files r)) full_session
       date_label)))"

definition request_from_spec :: "job_spec \<Rightarrow> transfer_request" where
  "request_from_spec s =
     \<lparr>tq_device_id = ji_device_id (js_identity s), tq_session_id = ji_session_id (js_identity s),
      tq_revision = ji_revision (js_identity s), tq_idempotency_key = natural_key (js_identity s),
      tq_files = map (\<lambda>f. \<lparr>rq_file_id = jf_file_id f, rq_target_path = Some (jf_display_path f),
         rq_expected_size = jf_size_bytes f, rq_expected_sha256 = jf_sha256 f\<rparr>) (requested_files s),
      tq_manifest_bytes = pm_payload (js_publication s), tq_signature = pm_signature (js_publication s),
      tq_public_key = pm_public_key (js_publication s)\<rparr>"

definition validate_request_against_spec ::
    "transfer_request \<Rightarrow> job_spec \<Rightarrow> coordinator_error + unit" where
  "validate_request_against_spec r s =
     and_then (ensure (ji_device_id (js_identity s) = tq_device_id r
         \<and> ji_session_id (js_identity s) = tq_session_id r \<and> ji_revision (js_identity s) = tq_revision r)
       (CoPersistence Conflict)) (\<lambda>_.
     and_then (ensure (pm_payload (js_publication s) = tq_manifest_bytes r
         \<and> pm_signature (js_publication s) = tq_signature r \<and> pm_public_key (js_publication s) = tq_public_key r)
       (CoPersistence Conflict)) (\<lambda>_.
     ensure (length (requested_files s) = length (tq_files r)
         \<and> list_all (\<lambda>(expected, actual). jf_file_id expected = rq_file_id actual
              \<and> jf_display_path expected = file_target actual
              \<and> jf_size_bytes expected = rq_expected_size actual
              \<and> jf_sha256 expected = rq_expected_sha256 actual) (zip (requested_files s) (tq_files r)))
       (CoPersistence Conflict)))"

section \<open>Installing a runtime\<close>

definition runtime_from :: "stored_job \<Rightarrow> job_spec \<Rightarrow> transfer_job_state \<Rightarrow> runtime_job" where
  "runtime_from stored spec s =
     \<lparr>rt_state = s, rt_desired = sj_desired stored, rt_device = ji_device_id (js_identity spec),
      rt_target = \<lparr>tk_device = ji_device_id (js_identity spec), tk_session = ji_session_id (js_identity spec)\<rparr>,
      rt_version = sj_version stored, rt_observed = 0, rt_control = new_job_control,
      rt_commit = Cancellable\<rparr>"

definition rehydrate_locked :: "coordinator \<Rightarrow> job_id \<Rightarrow> runtime_job \<Rightarrow> coordinator" where
  "rehydrate_locked st j rt =
     (if co_jobs st j \<noteq> None then st
      else let st' = st\<lparr>co_jobs := (co_jobs st)(j \<mapsto> rt)\<rparr>
           in if \<not> is_terminal (rt_state rt) \<and> rt_desired rt = Run then fst (schedule_job st' j) else st')"

definition install_runtime_if_current ::
    "(string \<Rightarrow> string) \<Rightarrow> coordinator \<Rightarrow> job_id \<Rightarrow> bool \<Rightarrow> coordinator \<times> (coordinator_error + bool)" where
  "install_runtime_if_current sha st j include_failed =
     (case find_job (co_store st) j of
        None \<Rightarrow> (st, Inr False)
      | Some stored \<Rightarrow>
          let failed_visible = include_failed \<and> sj_state stored = TagFailed
          in if sj_dismissed_at stored \<noteq> None \<or> tag_is_terminal (sj_state stored) \<and> \<not> failed_visible
             then (st, Inr False)
             else (case load_job_spec sha (co_store st) j of
                Inl e \<Rightarrow> (st, Inl (CoPersistence Conflict))
              | Inr spec \<Rightarrow>
                  if co_jobs st j \<noteq> None then (st, Inr True)
                  else (case tag_to_state (sj_state stored) (sj_error stored) of
                     None \<Rightarrow> (st, Inl CoPanic)
                   | Some s \<Rightarrow> (rehydrate_locked st j (runtime_from stored spec s), Inr True))))"

section \<open>Settling interrupted downloads\<close>

text \<open>\<open>other:\<close> and a message to the user, in UTF-8.\<close>

definition interrupted_download_failure_code :: string where
  "interrupted_download_failure_code = ''other:'' @ map char_of
     [228, 184, 139, 232, 189, 189, 229, 156, 168, 229, 186, 148, 231, 148, 168, 233, 128, 128, 229,
      135, 186, 230, 151, 182, 228, 184, 173, 230, 150, 173, 239, 188, 140, 230, 156, 170, 232, 135,
      170, 229, 138, 168, 230, 129, 162, 229, 164, 141, 239, 188, 140, 232, 175, 183, 230, 137, 139,
      229, 138, 168, 233, 135, 141, 232, 175, (149 :: nat)]"

definition interrupted_outcome :: terminal_outcome where
  "interrupted_outcome = OutcomeFailed interrupted_download_failure_code True"

fun settle_job ::
    "(string \<Rightarrow> string) \<Rightarrow> (job_id \<Rightarrow> bool) \<Rightarrow> string \<Rightarrow> coordinator \<Rightarrow> recoverable_job
     \<Rightarrow> coordinator \<times> (coordinator_error + unit)" where
  "settle_job sha discard now st (RecoverReady job spec ledger) =
     (let j = sj_job_id job
      in if \<not> discard j then (st, Inl (CoPersistence Conflict))
         else (case complete_job (co_store st) j interrupted_outcome now of
            Inl e \<Rightarrow> (st, Inl (map_complete_job_error e))
          | Inr (db, _) \<Rightarrow>
              (case install_runtime_if_current sha (st\<lparr>co_store := db\<rparr>) j True of
                 (st', Inl e) \<Rightarrow> (st', Inl e)
               | (st', Inr _) \<Rightarrow> (st', Inr ()))))"
| "settle_job sha discard now st (RecoverBlocked j identity reason) =
     (case complete_job (co_store st) j interrupted_outcome now of
        Inl e \<Rightarrow> (st, Inl (map_complete_job_error e))
      | Inr (db, _) \<Rightarrow>
          (record_fault (st\<lparr>co_store := db\<rparr>) (Some j) FaultTransition ClassLocalIo, Inr ()))"

fun settle_jobs ::
    "(string \<Rightarrow> string) \<Rightarrow> (job_id \<Rightarrow> bool) \<Rightarrow> string \<Rightarrow> coordinator \<Rightarrow> recoverable_job list
     \<Rightarrow> coordinator \<times> (coordinator_error + job_id list)" where
  "settle_jobs sha discard now st [] = (st, Inr [])"
| "settle_jobs sha discard now st (x # xs) =
     (case settle_job sha discard now st x of
        (st', Inl e) \<Rightarrow> (st', Inl e)
      | (st', Inr _) \<Rightarrow>
          (case settle_jobs sha discard now st' xs of
             (st'', Inl e) \<Rightarrow> (st'', Inl e)
           | (st'', Inr js) \<Rightarrow> (st'', Inr (recoverable_id x # js))))"

definition fail_interrupted_jobs_on_startup ::
    "(string \<Rightarrow> string) \<Rightarrow> (job_id \<Rightarrow> bool) \<Rightarrow> string \<Rightarrow> coordinator
     \<Rightarrow> coordinator \<times> (coordinator_error + job_id list)" where
  "fail_interrupted_jobs_on_startup sha discard now st =
     (if co_jobs st \<noteq> Map.empty then (st, Inl (CoPersistence Conflict))
      else settle_jobs sha discard now st (list_recoverable_jobs sha (co_store st)))"

section \<open>The older recovery\<close>

fun recover_jobs ::
    "(string \<Rightarrow> string) \<Rightarrow> coordinator \<Rightarrow> recoverable_job list \<Rightarrow> coordinator \<times> (coordinator_error + job_id list)" where
  "recover_jobs sha st [] = (st, Inr [])"
| "recover_jobs sha st (RecoverReady job spec ledger # xs) =
     (case install_runtime_if_current sha st (sj_job_id job) True of
        (st', Inl e) \<Rightarrow> (st', Inl e)
      | (st', Inr installed) \<Rightarrow>
          (case recover_jobs sha st' xs of
             (st'', Inl e) \<Rightarrow> (st'', Inl e)
           | (st'', Inr js) \<Rightarrow> (st'', Inr (if installed then sj_job_id job # js else js))))"
| "recover_jobs sha st (RecoverBlocked j identity reason # xs) =
     recover_jobs sha (record_fault st (Some j) FaultTransition ClassLocalIo) xs"

definition recover_on_startup ::
    "(string \<Rightarrow> string) \<Rightarrow> coordinator \<Rightarrow> coordinator \<times> (coordinator_error + job_id list)" where
  "recover_on_startup sha st = recover_jobs sha st (list_recoverable_jobs sha (co_store st))"

section \<open>Explicit retry\<close>

definition starts_from_zero :: "transfer_job_state \<Rightarrow> bool" where
  "starts_from_zero s =
     (case snd (state_to_tag s) of
        None \<Rightarrow> False
      | Some (code, retryable) \<Rightarrow>
          retryable \<and> (code = ''network'' \<or> code = interrupted_download_failure_code))"

fun retry_error :: "retry_job_error \<Rightarrow> coordinator_error" where
  "retry_error (RetryUnknownJob j) = CoNotFound j"
| "retry_error (RetryNotRetryable j) = CoNotFailed j"
| "retry_error (RetryPersistence e) = CoPersistence e"
| "retry_error _ = CoPersistence Conflict"

fun retry_outcome_job :: "retry_job_outcome \<Rightarrow> stored_job" where
  "retry_outcome_job (RetryCreated r) = r"
| "retry_outcome_job (RetryExisting r) = r"

text \<open>
  \<open>staging\<close>: \<^term>\<open>None\<close> when the path of the staged bytes cannot be derived, otherwise the error of
  discarding them, if any; \<open>child\<close> is the identifier that \<open>next_job_id\<close> draws.
\<close>

definition spawn_and_install ::
    "(string \<Rightarrow> string) \<Rightarrow> upload_branch \<Rightarrow> string \<Rightarrow> retry_policy \<Rightarrow> persistence_error option \<Rightarrow> job_id
     \<Rightarrow> coordinator \<Rightarrow> job_id \<Rightarrow> coordinator \<times> (coordinator_error + job_id)" where
  "spawn_and_install sha upload now policy discard child st j =
     (case snd (spawn_retry_job upload policy (co_store st) j child now discard) of
        Inl e \<Rightarrow> (st, Inl (retry_error e))
      | Inr (db, res) \<Rightarrow>
          (let c = sj_job_id (retry_outcome_job res)
           in case install_runtime_if_current sha (st\<lparr>co_store := db\<rparr>) c False of
                (st', Inl e) \<Rightarrow> (st', Inl e)
              | (st', Inr _) \<Rightarrow> (st', Inr c)))"

definition retry ::
    "(string \<Rightarrow> string) \<Rightarrow> upload_branch \<Rightarrow> string \<Rightarrow> await \<Rightarrow> persistence_error option option \<Rightarrow> job_id
     \<Rightarrow> coordinator \<Rightarrow> job_id \<Rightarrow> coordinator \<times> (coordinator_error + job_id)" where
  "retry sha upload now await staging child st j =
     (let zero = (case co_jobs st j of None \<Rightarrow> False | Some rt \<Rightarrow> starts_from_zero (rt_state rt))
      in case apply_command now await st j Retry of
           (st', Inl e) \<Rightarrow> (st', Inl e)
         | (st', Inr _) \<Rightarrow>
             (if zero then
                (case staging of
                   None \<Rightarrow> (st', Inl (CoPersistence Conflict))
                 | Some discard \<Rightarrow> spawn_and_install sha upload now FreshDownload discard child st' j)
              else spawn_and_install sha upload now StandardDownload None child st' j))"

section \<open>Enqueueing\<close>

definition create_error :: "create_job_error \<Rightarrow> coordinator_error" where
  "create_error e = (case e of CreatePersistence p \<Rightarrow> CoPersistence p | _ \<Rightarrow> CoPersistence Conflict)"

definition resolve_existing_enqueue ::
    "(string \<Rightarrow> string) \<Rightarrow> upload_branch \<Rightarrow> string \<Rightarrow> persistence_error option option \<Rightarrow> job_id
     \<Rightarrow> coordinator \<Rightarrow> job_id \<Rightarrow> coordinator \<times> (coordinator_error + job_id)" where
  "resolve_existing_enqueue sha upload now staging child st p =
     (case find_job (co_store st) p of
        None \<Rightarrow> (st, Inl (CoNotFound p))
      | Some parent \<Rightarrow>
          if sj_dismissed_at parent = None then
            (case install_runtime_if_current sha st p True of
               (st', Inl e) \<Rightarrow> (st', Inl e)
             | (st', Inr _) \<Rightarrow> (st', Inr p))
          else if sj_state parent \<noteq> TagFailed then (st, Inl (CoPersistence Conflict))
          else (case staging of
             None \<Rightarrow> (st, Inl (CoPersistence Conflict))
           | Some discard \<Rightarrow>
               spawn_and_install sha upload now DismissedDownloadEnqueue discard child st p))"

definition enqueue_checked ::
    "(string \<Rightarrow> string) \<Rightarrow> upload_branch \<Rightarrow> (string \<Rightarrow> string \<Rightarrow> string \<Rightarrow> bool) \<Rightarrow> bool \<Rightarrow> string
     \<Rightarrow> persistence_error option option \<Rightarrow> job_id \<Rightarrow> job_id \<Rightarrow> coordinator \<Rightarrow> transfer_request \<Rightarrow> job_spec
     \<Rightarrow> coordinator \<times> (coordinator_error + job_id)" where
  "enqueue_checked sha upload verifier shutdown now staging j child st r spec =
     (if shutdown then (st, Inl CoShuttingDown)
      else if \<not> verifier (tq_manifest_bytes r) (tq_signature r) (tq_public_key r)
      then (st, Inl CoVerification)
      else (case insert_job sha (co_store st) j spec now of
         Inl e \<Rightarrow> (st, Inl (create_error e))
       | Inr (db, JobExisting stored) \<Rightarrow>
           resolve_existing_enqueue sha upload now staging child (st\<lparr>co_store := db\<rparr>) (sj_job_id stored)
       | Inr (db, JobCreated stored) \<Rightarrow>
           (case install_runtime_if_current sha (st\<lparr>co_store := db\<rparr>) (sj_job_id stored) False of
              (st', Inl e) \<Rightarrow> (st', Inl e)
            | (st', Inr _) \<Rightarrow> (st', Inr (sj_job_id stored)))))"

definition enqueue_with_spec ::
    "(string \<Rightarrow> string) \<Rightarrow> upload_branch \<Rightarrow> (string \<Rightarrow> string \<Rightarrow> string \<Rightarrow> bool) \<Rightarrow> bool \<Rightarrow> string
     \<Rightarrow> persistence_error option option \<Rightarrow> job_id \<Rightarrow> job_id \<Rightarrow> coordinator \<Rightarrow> transfer_request \<Rightarrow> job_spec
     \<Rightarrow> coordinator \<times> (coordinator_error + job_id)" where
  "enqueue_with_spec sha upload verifier shutdown now staging j child st r spec =
     (case validate_request_against_spec r spec of
        Inl e \<Rightarrow> (st, Inl e)
      | Inr _ \<Rightarrow> enqueue_checked sha upload verifier shutdown now staging j child st r spec)"

definition enqueue ::
    "(string \<Rightarrow> string) \<Rightarrow> upload_branch \<Rightarrow> (string \<Rightarrow> string \<Rightarrow> string \<Rightarrow> bool) \<Rightarrow> bool \<Rightarrow> string
     \<Rightarrow> persistence_error option option \<Rightarrow> job_id \<Rightarrow> job_id \<Rightarrow> coordinator \<Rightarrow> transfer_request
     \<Rightarrow> coordinator \<times> (coordinator_error + job_id)" where
  "enqueue sha upload verifier shutdown now staging j child st r =
     (case to_job_spec r True [] of
        Inl e \<Rightarrow> (st, Inl (CoPersistence Conflict))
      | Inr spec \<Rightarrow> enqueue_checked sha upload verifier shutdown now staging j child st r spec)"

section \<open>What installing keeps\<close>

text \<open>A row whose error column is in the form the runtime writes.\<close>

definition row_canonical :: "stored_job \<Rightarrow> bool" where
  "row_canonical r \<longleftrightarrow>
     (case tag_to_state (sj_state r) (sj_error r) of
        None \<Rightarrow> False | Some s \<Rightarrow> state_to_tag s = (sj_state r, sj_error r))"

lemma install_delta:
  assumes "install_runtime_if_current sha st j include_failed = (st', res)"
  obtains (same) "st' = st"
  | (installed) stored spec s where "find_job (co_store st) j = Some stored"
      and "sj_dismissed_at stored = None"
      and "tag_is_terminal (sj_state stored) \<longrightarrow> include_failed \<and> sj_state stored = TagFailed"
      and "load_job_spec sha (co_store st) j = Inr spec" and "co_jobs st j = None"
      and "tag_to_state (sj_state stored) (sj_error stored) = Some s"
      and "st' = rehydrate_locked st j (runtime_from stored spec s)" and "res = Inr True"
proof (cases "find_job (co_store st) j")
  case None
  with assms show ?thesis by (intro same) (simp add: install_runtime_if_current_def)
next
  case (Some stored)
  show ?thesis
  proof (cases "sj_dismissed_at stored \<noteq> None
      \<or> tag_is_terminal (sj_state stored) \<and> \<not> (include_failed \<and> sj_state stored = TagFailed)")
    case True
    with assms Some show ?thesis by (intro same) (simp add: install_runtime_if_current_def)
  next
    case shown: False
    show ?thesis
    proof (cases "load_job_spec sha (co_store st) j")
      case (Inl e)
      with assms Some shown show ?thesis
        by (intro same) (simp add: install_runtime_if_current_def split: if_splits)
    next
      case (Inr spec)
      show ?thesis
      proof (cases "co_jobs st j = None \<and> tag_to_state (sj_state stored) (sj_error stored) \<noteq> None")
        case True
        then obtain s where "tag_to_state (sj_state stored) (sj_error stored) = Some s" by auto
        with True show ?thesis
          using assms Some shown Inr
          by (intro installed [of stored spec s]) (auto simp: install_runtime_if_current_def)
      next
        case False
        with assms Some shown Inr show ?thesis
          by (intro same) (simp add: install_runtime_if_current_def split: if_splits option.splits)
      qed
    qed
  qed
qed

lemma rehydrate_simps [simp]:
  "co_store (rehydrate_locked st j rt) = co_store st"
  "co_jobs st j = None \<Longrightarrow> co_jobs (rehydrate_locked st j rt) = (co_jobs st)(j \<mapsto> rt)"
  by (simp_all add: rehydrate_locked_def Let_def)

lemma install_store [simp]:
  "co_store (fst (install_runtime_if_current sha st j include_failed)) = co_store st"
proof -
  obtain st' res where step: "install_runtime_if_current sha st j include_failed = (st', res)" by fastforce
  then show ?thesis by (cases rule: install_delta) (simp_all add: step)
qed

lemma coherent_runtime_from:
  assumes "find_job db j = Some stored" "tag_to_state (sj_state stored) (sj_error stored) = Some s"
    and "row_canonical stored"
  shows "coherent db j (runtime_from stored spec s)"
  using assms by (simp add: coherent_def runtime_from_def row_canonical_def)

lemma install_keeps_ok:
  assumes ok: "coordinator_ok st" and step: "install_runtime_if_current sha st j include_failed = (st', res)"
    and canonical: "\<And>r. find_job (co_store st) j = Some r \<Longrightarrow> row_canonical r"
  shows "coordinator_ok st'"
  using step
proof (cases rule: install_delta)
  case (installed stored spec s)
  have "coherent (co_store st) j (runtime_from stored spec s)"
    by (rule coherent_runtime_from [OF installed(1,6) canonical [OF installed(1)]])
  then show ?thesis
    using ok installed(5,7) by (auto simp: coordinator_ok_def split: if_splits)
qed (use ok in simp)

lemma interrupted_code_to_db [simp]:
  "failure_code_to_db (failure_code_from_db interrupted_download_failure_code) =
     interrupted_download_failure_code"
proof -
  have "strip_prefix ''other:'' (''other:'' @ r) = Some r" for r by (rule strip_prefix_append)
  then have "failure_code_from_db (''other:'' @ r) = Other r" for r
    by (simp add: failure_code_from_db_def)
  then show ?thesis
    unfolding interrupted_download_failure_code_def by (simp only: failure_code_to_db.simps)
qed

text \<open>What settling one interrupted download does to the tables and the runtime.\<close>

definition settled_row :: "string \<Rightarrow> stored_job \<Rightarrow> stored_job" where
  "settled_row now r =
     r\<lparr>sj_state := TagFailed, sj_version := sj_version r + 1,
       sj_error := Some (interrupted_download_failure_code, True), sj_updated_at := now\<rparr>"

lemma settled_row_canonical: "row_canonical (settled_row now r)"
  by (simp add: row_canonical_def settled_row_def)

lemma settled_completion:
  assumes ok: "store_ok db" and row: "find_job db j = Some r" "\<not> tag_is_terminal (sj_state r)"
    and step: "complete_job db j interrupted_outcome now = Inr (db', res)"
  obtains c where "find_job db' = (find_job db)(j \<mapsto> settled_row now r)"
    and "find_completion db' = (find_completion db)(j \<mapsto> c)" and "cr_outcome c = interrupted_outcome"
    and "\<not> is_acknowledged c" and "db_specs db' = db_specs db" and "db_files db' = db_files db"
proof -
  from step have inner: "complete_job_inner db j interrupted_outcome now None = Inr (db', res)"
    by (simp add: complete_job_def)
  from store_okD(1) [OF ok] inner show thesis
  proof (cases rule: complete_delta)
    case (already c)
    then show thesis using completed_terminal [OF ok already(1) row(1)] row(2) by simp
  next
    case (recorded s s' c)
    have "s = r" using recorded(1) row(1) by simp
    then have "s' = settled_row now r"
      using recorded(11) row(2) by (simp add: settled_row_def interrupted_outcome_def)
    moreover have "db_specs db' = db_specs db" "db_files db' = db_files db"
      by (subst recorded(14), simp)+
    ultimately show thesis
      using recorded(4,8,12,13) by (intro that [of c]) simp_all
  qed
qed

section \<open>The start of the program\<close>

text \<open>The state in which the runtime agrees with the tables and every job has its specification.\<close>

definition startable :: "(string \<Rightarrow> string) \<Rightarrow> coordinator \<Rightarrow> bool" where
  "startable sha st \<longleftrightarrow> coordinator_ok st \<and> specs_stored sha (co_store st)"

text \<open>One job settled: its row, its outcome, its runtime, and nothing else.\<close>

definition settled_in :: "string \<Rightarrow> coordinator \<Rightarrow> stored_job \<Rightarrow> bool" where
  "settled_in now st r \<longleftrightarrow>
     find_job (co_store st) (sj_job_id r) = Some (settled_row now r)
     \<and> map_option (\<lambda>c. (cr_outcome c, is_acknowledged c)) (find_completion (co_store st) (sj_job_id r))
         = Some (interrupted_outcome, False)
     \<and> (sj_dismissed_at r = None \<longrightarrow>
          map_option (\<lambda>rt. (state_to_tag (rt_state rt), rt_version rt)) (co_jobs st (sj_job_id r))
            = Some ((TagFailed, Some (interrupted_download_failure_code, True)), sj_version r + 1))"

definition untouched :: "job_id \<Rightarrow> coordinator \<Rightarrow> coordinator \<Rightarrow> bool" where
  "untouched k st st' \<longleftrightarrow>
     find_job (co_store st') k = find_job (co_store st) k
     \<and> find_completion (co_store st') k = find_completion (co_store st) k \<and> co_jobs st' k = co_jobs st k"

lemma untouched_trans: "untouched k a b \<Longrightarrow> untouched k b c \<Longrightarrow> untouched k a c"
  by (simp add: untouched_def)

lemma settled_untouched: "settled_in now st r \<Longrightarrow> untouched (sj_job_id r) st st' \<Longrightarrow> settled_in now st' r"
  by (simp add: settled_in_def untouched_def)

lemma settle_ready:
  assumes ok: "startable sha st" and row: "find_job (co_store st) (sj_job_id r) = Some r"
    and live: "live_download r" and none: "co_jobs st (sj_job_id r) = None"
    and step: "settle_job sha discard now st (RecoverReady r spec ledger) = (st', Inr u)"
  shows "startable sha st'" and "settled_in now st' r" and "co_queue st' = co_queue st"
    and "k \<noteq> sj_job_id r \<Longrightarrow> untouched k st st'"
proof -
  let ?j = "sj_job_id r"
  have store: "store_ok (co_store st)" and specs: "specs_stored sha (co_store st)"
    using ok by (simp_all add: startable_def coordinator_ok_def)
  obtain db res where db: "complete_job (co_store st) ?j interrupted_outcome now = Inr (db, res)"
    using step by (auto simp: Let_def split: if_splits sum.splits)
  let ?st = "st\<lparr>co_store := db\<rparr>"
  obtain b where inst: "install_runtime_if_current sha ?st ?j True = (st', Inr b)"
    using step db by (auto simp: Let_def split: if_splits sum.splits prod.splits)
  have open_row: "\<not> tag_is_terminal (sj_state r)" using live by (simp add: live_download_def)
  obtain c where c: "find_job db = (find_job (co_store st))(?j \<mapsto> settled_row now r)"
      "find_completion db = (find_completion (co_store st))(?j \<mapsto> c)" "cr_outcome c = interrupted_outcome"
      "\<not> is_acknowledged c" "db_specs db = db_specs (co_store st)" "db_files db = db_files (co_store st)"
    using settled_completion [OF store row open_row db] by blast
  have db_ok: "store_ok db"
    using complete_store_ok [OF store] db by (auto simp: complete_job_def)
  have st_ok: "coordinator_ok ?st"
    using ok db_ok c(1) none by (auto simp: startable_def coordinator_ok_def coherent_def)
  have specs': "specs_stored sha db"
    unfolding specs_stored_def
  proof
    fix k
    show "job_stored sha db k"
      by (rule job_stored_same [where db = "co_store st"])
         (use specs c(1,5,6) row in \<open>auto simp: specs_stored_def job_files_def option.rel_refl settled_row_def\<close>)
  qed
  have canonical: "row_canonical x" if "find_job (co_store ?st) ?j = Some x" for x
    using that c(1) settled_row_canonical [of now r] by simp
  have store': "co_store st' = db" using install_store [of sha ?st ?j True] inst by simp
  show "startable sha st'"
    using install_keeps_ok [OF st_ok inst canonical] specs' store' by (simp add: startable_def)
  have terminal: "tag_is_terminal (sj_state (settled_row now r))" by (simp add: settled_row_def)
  show "co_queue st' = co_queue st"
    using inst
  proof (cases rule: install_delta)
    case (installed stored s' t)
    have "stored = settled_row now r" using installed(1) c(1) by simp
    then have "t = Failed (failure_code_from_db interrupted_download_failure_code) True"
      using installed(6) by (simp add: settled_row_def)
    then show ?thesis using installed(7) by (simp add: rehydrate_locked_def runtime_from_def)
  qed simp
  show "untouched k st st'" if "k \<noteq> ?j"
    using inst
    by (cases rule: install_delta) (use that c(1,2) in \<open>simp_all add: untouched_def\<close>)
  have "map_option (\<lambda>rt. (state_to_tag (rt_state rt), rt_version rt)) (co_jobs st' ?j)
      = Some ((TagFailed, Some (interrupted_download_failure_code, True)), sj_version r + 1)"
    if "sj_dismissed_at r = None"
  proof -
    obtain s where s: "load_job_spec sha db ?j = Inr s"
    proof -
      have "\<exists>s. spec_kept sha db ?j (settled_row now r) s"
        using specs' [unfolded specs_stored_def, rule_format, of ?j] c(1) by (simp add: job_stored_def)
      then show thesis using stored_spec_loads [OF specs'] that by (auto simp: spec_kept_def)
    qed
    have "install_runtime_if_current sha ?st ?j True = (rehydrate_locked ?st ?j (runtime_from (settled_row now r) s
        (Failed (failure_code_from_db interrupted_download_failure_code) True)), Inr True)"
      using c(1) none s that by (simp add: install_runtime_if_current_def settled_row_def)
    then show ?thesis
      using inst none by (auto simp: runtime_from_def settled_row_def)
  qed
  then show "settled_in now st' r"
    using store' c by (simp add: settled_in_def)
qed

lemma settle_all:
  assumes "startable sha st" and "list_all2 (\<lambda>r x. \<exists>s l. x = RecoverReady r s l) rows xs"
    and "\<And>r. r \<in> set rows \<Longrightarrow> find_job (co_store st) (sj_job_id r) = Some r \<and> live_download r
            \<and> co_jobs st (sj_job_id r) = None"
    and "distinct (map sj_job_id rows)" and "settle_jobs sha discard now st xs = (st', Inr js)"
  shows "js = map sj_job_id rows \<and> startable sha st' \<and> list_all (settled_in now st') rows
       \<and> co_queue st' = co_queue st \<and> (\<forall>k. k \<notin> sj_job_id ` set rows \<longrightarrow> untouched k st st')"
  using assms(2,1,3-5)
proof (induction rows xs arbitrary: st js rule: list_all2_induct)
  case Nil
  then show ?case by (simp add: untouched_def)
next
  case (Cons r rows x xs)
  obtain s l where x: "x = RecoverReady r s l" using Cons.hyps(1) by blast
  obtain st1 where one: "settle_job sha discard now st (RecoverReady r s l) = (st1, Inr ())"
    and rest: "\<exists>ks. settle_jobs sha discard now st1 xs = (st', Inr ks) \<and> js = sj_job_id r # ks"
    using Cons.prems(4) x by (auto split: prod.splits sum.splits)
  obtain ks where ks: "settle_jobs sha discard now st1 xs = (st', Inr ks)" "js = sj_job_id r # ks"
    using rest by blast
  have r: "find_job (co_store st) (sj_job_id r) = Some r" "live_download r" "co_jobs st (sj_job_id r) = None"
    using Cons.prems(2) [of r] by simp_all
  note step = settle_ready [OF Cons.prems(1) r one]
  have fresh: "sj_job_id r \<notin> sj_job_id ` set rows" "distinct (map sj_job_id rows)"
    using Cons.prems(3) by auto
  have later: "find_job (co_store st1) (sj_job_id q) = Some q \<and> live_download q
      \<and> co_jobs st1 (sj_job_id q) = None" if "q \<in> set rows" for q
  proof -
    have "sj_job_id q \<noteq> sj_job_id r" using that fresh(1) by (metis imageI)
    then show ?thesis
      using Cons.prems(2) [of q] step(4) [of "sj_job_id q"] that by (simp add: untouched_def)
  qed
  note ih = Cons.IH [OF step(1) later fresh(2) ks(1)]
  then have "settled_in now st' r"
    using settled_untouched [OF step(2)] fresh(1) by blast
  moreover have "untouched k st st'" if "k \<notin> sj_job_id ` set (r # rows)" for k
    using untouched_trans [OF step(4)] ih that by auto
  ultimately show ?case using ih ks(2) step(3) by simp
qed

lemma unfinished_distinct:
  assumes "distinct (map sj_job_id (db_jobs db))"
  shows "distinct (map sj_job_id (unfinished_downloads db))"
proof -
  have "mset (map sj_job_id (unfinished_downloads db)) = mset (map sj_job_id (filter live_download (db_jobs db)))"
    by (simp add: unfinished_downloads_def live_download_def)
  then show ?thesis using distinct_map_filter [OF assms] by (metis mset_eq_imp_distinct_iff)
qed

lemma list_recoverable_ready:
  assumes "list_all (ready_as_stored sha db) (map (recoverable_of sha db) rows)"
  shows "list_all2 (\<lambda>r x. \<exists>s l. x = RecoverReady r s l) rows (map (recoverable_of sha db) rows)"
  using assms
  by (induction rows) (auto simp: recoverable_of_def ready_as_stored_def split: sum.splits)

lemma startup_settled:
  assumes "startable sha st" and "transfer_ok (co_store st)"
    and "fail_interrupted_jobs_on_startup sha discard now st = (st', Inr js)"
  shows "js = map sj_job_id (unfinished_downloads (co_store st))
    \<and> list_all (settled_in now st') (unfinished_downloads (co_store st))
    \<and> filter live_download (db_jobs (co_store st')) = []
    \<and> coordinator_ok st' \<and> co_queue st' = co_queue st
    \<and> (\<forall>k. k \<notin> set js \<longrightarrow> untouched k st st')"
proof -
  let ?db = "co_store st" and ?rows = "unfinished_downloads (co_store st)"
  have stored: "specs_stored sha ?db" and keys: "distinct (map sj_job_id (db_jobs ?db))"
    using assms(1) store_okD(1) by (auto simp: startable_def coordinator_ok_def keys_ok_def)
  have empty: "co_jobs st = Map.empty"
    and step: "settle_jobs sha discard now st (map (recoverable_of sha ?db) ?rows) = (st', Inr js)"
    using assms(3) by (auto simp: fail_interrupted_jobs_on_startup_def list_recoverable_jobs_def split: if_splits)
  have row: "find_job ?db (sj_job_id r) = Some r \<and> live_download r" if "r \<in> set ?rows" for r
    using that unfinished_set [of ?db] find_key_Some_iff [OF keys] by (auto simp: find_job_def)
  have ready: "list_all2 (\<lambda>r x. \<exists>s l. x = RecoverReady r s l) ?rows (map (recoverable_of sha ?db) ?rows)"
    by (rule list_recoverable_ready)
       (use list_recoverable_sound(2) [OF stored assms(2)] in \<open>simp add: list_recoverable_jobs_def\<close>)
  have all: "js = map sj_job_id ?rows \<and> startable sha st' \<and> list_all (settled_in now st') ?rows
       \<and> co_queue st' = co_queue st \<and> (\<forall>k. k \<notin> sj_job_id ` set ?rows \<longrightarrow> untouched k st st')"
    by (rule settle_all [OF assms(1) ready _ unfinished_distinct [OF keys] step]) (use row empty in simp)
  have "\<not> live_download x" if x: "x \<in> set (db_jobs (co_store st'))" for x
  proof
    assume live: "live_download x"
    have keys': "distinct (map sj_job_id (db_jobs (co_store st')))"
      using all store_okD(1) by (auto simp: startable_def coordinator_ok_def keys_ok_def)
    have found: "find_job (co_store st') (sj_job_id x) = Some x"
      using x find_key_Some_iff [OF keys'] by (simp add: find_job_def)
    show False
    proof (cases "sj_job_id x \<in> sj_job_id ` set ?rows")
      case True
      then obtain r where "r \<in> set ?rows" "sj_job_id r = sj_job_id x" by auto
      then have "find_job (co_store st') (sj_job_id x) = Some (settled_row now r)"
        using all by (auto simp: list_all_iff settled_in_def)
      then show False using found live by (simp add: live_download_def settled_row_def)
    next
      case False
      then have "find_job ?db (sj_job_id x) = Some x"
        using all found by (simp add: untouched_def)
      then have "x \<in> set ?rows"
        using unfinished_set [of ?db] live find_key_Some_iff [OF keys] by (simp add: find_job_def)
      then show False using False by blast
    qed
  qed
  then have "filter live_download (db_jobs (co_store st')) = []" by (simp add: filter_empty_conv)
  then show ?thesis using all by (simp add: startable_def)
qed

lemma settle_ready_succeeds:
  assumes ok: "startable sha st" and row: "find_job (co_store st) (sj_job_id r) = Some r"
    and live: "live_download r" and none: "co_jobs st (sj_job_id r) = None"
    and fits: "unat (sj_version r) + 1 < 2 ^ 63" and disc: "discard (sj_job_id r)"
  shows "\<exists>st'. settle_job sha discard now st (RecoverReady r spec ledger) = (st', Inr ())"
proof -
  let ?j = "sj_job_id r"
  have store: "store_ok (co_store st)" and specs: "specs_stored sha (co_store st)"
    using ok by (simp_all add: startable_def coordinator_ok_def)
  have open_row: "\<not> tag_is_terminal (sj_state r)" using live by (simp add: live_download_def)
  have no_completion: "find_completion (co_store st) ?j = None"
    using completed_terminal [OF store _ row] open_row by (cases "find_completion (co_store st) ?j") auto
  have add: "checked_add (sj_version r) 1 = Some (sj_version r + 1)"
    using fits by (simp add: checked_add_def)
  have fits': "fits_i64 (sj_version r + 1)"
    using fits by (simp add: fits_i64_def unat_word_ariths(1))
  obtain db res where db: "complete_job (co_store st) ?j interrupted_outcome now = Inr (db, res)"
  proof -
    have "\<exists>p. complete_job (co_store st) ?j interrupted_outcome now = Inr p"
      using row no_completion open_row add fits'
      by (auto simp: complete_job_def complete_job_inner_def ensure_def abort_completion_if_def Let_def
          insert_outbox_row_def find_job_def find_completion_def find_update_where [where key = sj_job_id]
          split: option.splits)
    then show thesis using that by (auto simp: split_paired_Ex)
  qed
  let ?st = "st\<lparr>co_store := db\<rparr>"
  obtain c where c: "find_job db = (find_job (co_store st))(?j \<mapsto> settled_row now r)"
      "db_specs db = db_specs (co_store st)" "db_files db = db_files (co_store st)"
    using settled_completion [OF store row open_row db] by blast
  have specs': "specs_stored sha db"
    unfolding specs_stored_def
  proof
    fix k
    show "job_stored sha db k"
      by (rule job_stored_same [where db = "co_store st"])
         (use specs c row in \<open>auto simp: specs_stored_def job_files_def option.rel_refl settled_row_def\<close>)
  qed
  have "\<exists>s. load_job_spec sha db ?j = Inr s"
  proof -
    have "\<exists>s. spec_kept sha db ?j (settled_row now r) s"
      using specs' [unfolded specs_stored_def, rule_format, of ?j] c(1) by (simp add: job_stored_def)
    then show ?thesis using stored_spec_loads [OF specs'] by (auto simp: spec_kept_def)
  qed
  then obtain s where s: "load_job_spec sha db ?j = Inr s" ..
  have "\<exists>st' b. install_runtime_if_current sha ?st ?j True = (st', Inr b)"
    using c(1) none s by (auto simp: install_runtime_if_current_def settled_row_def)
  then show ?thesis using db disc by (auto simp: Let_def)
qed

lemma settle_all_succeeds:
  assumes "startable sha st" and "list_all2 (\<lambda>r x. \<exists>s l. x = RecoverReady r s l) rows xs"
    and "\<And>r. r \<in> set rows \<Longrightarrow> find_job (co_store st) (sj_job_id r) = Some r \<and> live_download r
            \<and> co_jobs st (sj_job_id r) = None \<and> unat (sj_version r) + 1 < 2 ^ 63 \<and> discard (sj_job_id r)"
    and "distinct (map sj_job_id rows)"
  shows "\<exists>st' js. settle_jobs sha discard now st xs = (st', Inr js)"
  using assms(2,1,3-4)
proof (induction rows xs arbitrary: st rule: list_all2_induct)
  case (Cons r rows x xs)
  obtain s l where x: "x = RecoverReady r s l" using Cons.hyps(1) by blast
  have r: "find_job (co_store st) (sj_job_id r) = Some r" "live_download r" "co_jobs st (sj_job_id r) = None"
    "unat (sj_version r) + 1 < 2 ^ 63" "discard (sj_job_id r)"
    using Cons.prems(2) [of r] by simp_all
  obtain st1 where one: "settle_job sha discard now st (RecoverReady r s l) = (st1, Inr ())"
    using settle_ready_succeeds [OF Cons.prems(1) r(1-3), of discard now s l] r(4,5) by blast
  note step = settle_ready [OF Cons.prems(1) r(1-3) one]
  have fresh: "sj_job_id r \<notin> sj_job_id ` set rows" "distinct (map sj_job_id rows)"
    using Cons.prems(3) by auto
  have later: "find_job (co_store st1) (sj_job_id q) = Some q \<and> live_download q
      \<and> co_jobs st1 (sj_job_id q) = None \<and> unat (sj_version q) + 1 < 2 ^ 63 \<and> discard (sj_job_id q)"
    if "q \<in> set rows" for q
  proof -
    have "sj_job_id q \<noteq> sj_job_id r" using that fresh(1) by (metis imageI)
    then show ?thesis
      using Cons.prems(2) [of q] step(4) [of "sj_job_id q"] that by (simp add: untouched_def)
  qed
  from Cons.IH [OF step(1) later fresh(2)] show ?case using one x by fastforce
qed simp

lemma startup_succeeds_when_clear:
  assumes "startable sha st" and "transfer_ok (co_store st)" and "co_jobs st = Map.empty"
    and "list_all (\<lambda>r. unat (sj_version r) + 1 < 2 ^ 63 \<and> discard (sj_job_id r))
           (unfinished_downloads (co_store st))"
  shows "\<exists>st' js. fail_interrupted_jobs_on_startup sha discard now st = (st', Inr js)"
proof -
  let ?db = "co_store st" and ?rows = "unfinished_downloads (co_store st)"
  have stored: "specs_stored sha ?db" and keys: "distinct (map sj_job_id (db_jobs ?db))"
    using assms(1) store_okD(1) by (auto simp: startable_def coordinator_ok_def keys_ok_def)
  have row: "find_job ?db (sj_job_id r) = Some r \<and> live_download r" if "r \<in> set ?rows" for r
    using that unfinished_set [of ?db] find_key_Some_iff [OF keys] by (auto simp: find_job_def)
  have ready: "list_all2 (\<lambda>r x. \<exists>s l. x = RecoverReady r s l) ?rows (map (recoverable_of sha ?db) ?rows)"
    by (rule list_recoverable_ready)
       (use list_recoverable_sound(2) [OF stored assms(2)] in \<open>simp add: list_recoverable_jobs_def\<close>)
  have "\<exists>st' js. settle_jobs sha discard now st (map (recoverable_of sha ?db) ?rows) = (st', Inr js)"
    by (rule settle_all_succeeds [OF assms(1) ready _ unfinished_distinct [OF keys]])
       (use row assms(3,4) in \<open>auto simp: list_all_iff\<close>)
  then show ?thesis
    using assms(3) by (simp add: fail_interrupted_jobs_on_startup_def list_recoverable_jobs_def)
qed

text \<open>
  C5. A start settles every interruption: when the first thing the program does returns, every
  download that was unfinished has been recorded as a retryable failure with an outcome that is
  still to be delivered, once each and in the order of creation; no download is unfinished any
  more, every other job is as it was, each settled job that is not dismissed has a runtime copy
  that agrees with its row, and nothing was scheduled.
\<close>

theorem startup_settles_every_interruption:
  assumes "startable sha st" and "transfer_ok (co_store st)"
    and "fail_interrupted_jobs_on_startup sha discard now st = (st', Inr js)"
  shows "js = map sj_job_id (unfinished_downloads (co_store st))
    \<and> list_all (settled_in now st') (unfinished_downloads (co_store st))
    \<and> filter live_download (db_jobs (co_store st')) = []
    \<and> coordinator_ok st' \<and> co_queue st' = co_queue st
    \<and> (\<forall>k. k \<notin> set js \<longrightarrow> untouched k st st')"
  using assms by (rule startup_settled)

text \<open>
  C6. A start succeeds after any history: whatever a previous process did to the tables, a fresh
  process whose staged bytes can be discarded, with versions below the end of their range, settles
  every unfinished download and starts with none.
\<close>

theorem startup_succeeds_after_any_history:
  assumes "list_all op_valid xs" and "co_store st = run_transfer sha upload empty_db xs"
    and "co_jobs st = Map.empty"
    and "list_all (\<lambda>r. unat (sj_version r) + 1 < 2 ^ 63 \<and> discard (sj_job_id r))
           (unfinished_downloads (co_store st))"
  shows "\<exists>st'. fail_interrupted_jobs_on_startup sha discard now st
             = (st', Inr (map sj_job_id (unfinished_downloads (co_store st))))
       \<and> filter live_download (db_jobs (co_store st')) = [] \<and> coordinator_ok st'"
proof -
  have ok: "transfer_ok (co_store st)" using run_transfer_ok assms(2) by simp
  have start: "startable sha st"
    using ok run_specs_stored [OF assms(1)] assms(2,3)
    by (simp add: startable_def coordinator_ok_def transfer_ok_def)
  obtain st' js where done': "fail_interrupted_jobs_on_startup sha discard now st = (st', Inr js)"
    using startup_succeeds_when_clear [OF start ok assms(3,4)] by blast
  then show ?thesis using startup_settled [OF start ok done'] by auto
qed

section \<open>Entering the runtime\<close>

text \<open>The state between two operations of the runtime.\<close>

definition lifecycle_ok :: "(string \<Rightarrow> string) \<Rightarrow> coordinator \<Rightarrow> bool" where
  "lifecycle_ok sha st \<longleftrightarrow>
     startable sha st \<and> downloads_only (co_store st)
     \<and> (\<forall>j r. find_job (co_store st) j = Some r \<longrightarrow> row_canonical r)"

lemma install_lifecycle_ok:
  assumes "lifecycle_ok sha st" and "install_runtime_if_current sha st j include_failed = (st', res)"
  shows "lifecycle_ok sha st'"
proof -
  have store: "co_store st' = co_store st"
    using install_store [of sha st j include_failed] assms(2) by simp
  have "coordinator_ok st'"
    by (rule install_keeps_ok [OF _ assms(2)]) (use assms(1) in \<open>simp_all add: lifecycle_ok_def startable_def\<close>)
  then show ?thesis using assms(1) store by (simp add: lifecycle_ok_def startable_def)
qed

text \<open>An installation never fails when every row is in order.\<close>

lemma install_succeeds:
  assumes ok: "lifecycle_ok sha st"
  shows "\<exists>st' b. install_runtime_if_current sha st j include_failed = (st', Inr b)"
proof (cases "find_job (co_store st) j")
  case None
  then show ?thesis
    by (intro exI [of _ st] exI [of _ False]) (simp add: install_runtime_if_current_def)
next
  case (Some r)
  have specs: "specs_stored sha (co_store st)" using ok by (simp add: lifecycle_ok_def startable_def)
  then have "\<exists>s. spec_kept sha (co_store st) j r s"
    unfolding specs_stored_def by (auto simp: job_stored_def Some dest!: spec [of _ j])
  then obtain s where "load_job_spec sha (co_store st) j = Inr s"
    using stored_spec_loads [OF specs] by (auto simp: spec_kept_def)
  moreover have "row_canonical r" using ok Some unfolding lifecycle_ok_def by blast
  then obtain t where "tag_to_state (sj_state r) (sj_error r) = Some t"
    by (auto simp: row_canonical_def split: option.splits)
  ultimately have "\<not> isl (snd (install_runtime_if_current sha st j include_failed))"
    using Some by (simp add: install_runtime_if_current_def)
  then show ?thesis
    by (cases "install_runtime_if_current sha st j include_failed";
        cases "snd (install_runtime_if_current sha st j include_failed)") auto
qed

text \<open>A new row does not disturb the runtime.\<close>

lemma new_row_lifecycle_ok:
  assumes ok: "lifecycle_ok sha st" and none: "find_job (co_store st) j = None"
    and row: "find_job db = (find_job (co_store st))(j \<mapsto> r)" "row_canonical r" "sj_kind r = Download"
    and db: "store_ok db" "specs_stored sha db"
  shows "lifecycle_ok sha (st\<lparr>co_store := db\<rparr>)"
proof -
  have "coherent db k rt" if "co_jobs st k = Some rt" for k rt
  proof -
    have old: "coherent (co_store st) k rt"
      using ok that by (simp add: lifecycle_ok_def startable_def coordinator_ok_def)
    then have "k \<noteq> j" using none by (auto simp: coherent_def)
    then show ?thesis using old row(1) by (simp add: coherent_def)
  qed
  moreover have "sj_kind x = Download \<and> row_canonical x" if "find_job db k = Some x" for k x
  proof (cases "k = j")
    case True
    then show ?thesis using that row by simp
  next
    case False
    then have "find_job (co_store st) k = Some x" using that row(1) by simp
    then show ?thesis using ok unfolding lifecycle_ok_def downloads_only_def by blast
  qed
  ultimately show ?thesis
    using db by (simp add: lifecycle_ok_def startable_def coordinator_ok_def downloads_only_def)
qed

lemma insert_lifecycle_ok:
  assumes ok: "lifecycle_ok sha st" and valid: "job_spec_valid spec"
    and step: "insert_job sha (co_store st) j spec now = Inr (db, res)"
  shows "lifecycle_ok sha (st\<lparr>co_store := db\<rparr>)"
proof -
  have store: "store_ok (co_store st)" and transfer: "transfer_ok (co_store st)"
    and specs: "specs_stored sha (co_store st)"
    using ok by (simp_all add: lifecycle_ok_def startable_def coordinator_ok_def transfer_ok_def)
  have "transfer_apply sha (\<lambda>_ _ _. Inl (RetryPersistence NotFound)) (co_store st) (StoreOp (OpCreate j spec now)) = db"
    using step by simp
  then have stored: "specs_stored sha db"
    using apply_specs_stored [OF specs transfer, of "StoreOp (OpCreate j spec now)"
      "\<lambda>_ _ _. Inl (RetryPersistence NotFound)"] valid by simp
  from step show ?thesis
  proof (cases rule: insert_job_delta)
    case (created r)
    show ?thesis
      by (rule new_row_lifecycle_ok [OF ok created(2,13) _ created(8) insert_job_store_ok [OF store step] stored])
         (simp add: row_canonical_def created(9,11))
  qed (use ok in simp)
qed

lemma spawn_lifecycle_ok:
  assumes ok: "lifecycle_ok sha st"
    and step: "spawn_retry_job upload policy (co_store st) p child now discard = (d, Inr (db, res))"
  shows "lifecycle_ok sha (st\<lparr>co_store := db\<rparr>)"
proof -
  have store: "store_ok (co_store st)" and transfer: "transfer_ok (co_store st)"
    and specs: "specs_stored sha (co_store st)"
    and kind: "\<forall>r. find_job (co_store st) p = Some r \<longrightarrow> sj_kind r = Download"
    using ok by (simp_all add: lifecycle_ok_def startable_def coordinator_ok_def transfer_ok_def downloads_only_def)
  have "transfer_apply sha upload (co_store st) (RetryOp policy p child now discard) = db"
    using step by simp
  then have stored: "specs_stored sha db"
    using apply_specs_stored [OF specs transfer, of "RetryOp policy p child now discard" upload] by simp
  from step kind show ?thesis
  proof (cases rule: spawn_retry_delta)
    case (created parent attempt)
    show ?thesis
      by (rule new_row_lifecycle_ok [OF ok created(6) create_retry_child_Inr(9) [OF created(8,6)] _ _
          spawn_retry_store_ok [OF store step kind] stored])
         (simp_all add: row_canonical_def retry_row_def)
  qed (use ok in simp)
qed

lemma spawn_and_install_ok:
  assumes "lifecycle_ok sha st"
  shows "lifecycle_ok sha (fst (spawn_and_install sha upload now policy discard child st j))"
proof (cases "spawn_retry_job upload policy (co_store st) j child now discard")
  case (Pair d r)
  show ?thesis
  proof (cases r)
    case (Inl e)
    with Pair assms show ?thesis by (simp add: spawn_and_install_def)
  next
    case (Inr q)
    obtain db res where q: "q = (db, res)" by (cases q)
    have ok: "lifecycle_ok sha (st\<lparr>co_store := db\<rparr>)"
      using spawn_lifecycle_ok [OF assms, of upload policy j child now discard d db res] Pair Inr q by simp
    obtain st' b where "install_runtime_if_current sha (st\<lparr>co_store := db\<rparr>)
        (sj_job_id (retry_outcome_job res)) False = (st', Inr b)"
      using install_succeeds [OF ok] by blast
    with install_lifecycle_ok [OF ok this] Pair Inr q show ?thesis
      by (simp add: spawn_and_install_def Let_def)
  qed
qed

lemma retry_decision_pure:
  "fst (apply_command now await st j Retry) = st"
proof (cases "co_jobs st j")
  case None
  then show ?thesis by (simp add: apply_command_def apply_checked_def)
next
  case (Some rt)
  then show ?thesis
    by (cases "rt_state rt")
       (simp_all add: apply_command_def apply_checked_def stale_version_def decide_retry_def accepted_def
          rejected_def perform_decision_def load_aggregate_def)
qed

lemma resolve_existing_ok:
  assumes "lifecycle_ok sha st"
  shows "lifecycle_ok sha (fst (resolve_existing_enqueue sha upload now staging child st p))"
proof -
  obtain st' b where inst: "install_runtime_if_current sha st p True = (st', Inr b)"
    using install_succeeds [OF assms] by blast
  show ?thesis
    using assms install_lifecycle_ok [OF assms inst] spawn_and_install_ok [OF assms]
    by (auto simp: resolve_existing_enqueue_def inst split: option.splits)
qed

lemma retry_ok:
  assumes "lifecycle_ok sha st"
  shows "lifecycle_ok sha (fst (retry sha upload now await staging child st j))"
proof -
  obtain r where cmd: "apply_command now await st j Retry = (st, r)"
    using retry_decision_pure [of now await st j] by (metis prod.collapse)
  show ?thesis
    using assms spawn_and_install_ok [OF assms]
    by (cases r) (simp_all add: retry_def cmd Let_def split: option.splits)
qed

lemma enqueue_checked_ok:
  assumes ok: "lifecycle_ok sha st" and valid: "job_spec_valid spec"
  shows "lifecycle_ok sha (fst (enqueue_checked sha upload verifier shutdown now staging j child st r spec))"
proof (cases "insert_job sha (co_store st) j spec now")
  case (Inl e)
  then show ?thesis using ok by (simp add: enqueue_checked_def)
next
  case (Inr p)
  obtain db res where p: "p = (db, res)" by (cases p)
  have new: "lifecycle_ok sha (st\<lparr>co_store := db\<rparr>)"
    using insert_lifecycle_ok [OF ok valid] Inr p by blast
  show ?thesis
  proof (cases res)
    case (JobCreated stored)
    obtain st' b where "install_runtime_if_current sha (st\<lparr>co_store := db\<rparr>) (sj_job_id stored) False
        = (st', Inr b)"
      using install_succeeds [OF new] by blast
    with install_lifecycle_ok [OF new this] ok Inr p JobCreated show ?thesis
      by (simp add: enqueue_checked_def)
  qed (use resolve_existing_ok [OF new] ok Inr p in \<open>simp add: enqueue_checked_def\<close>)
qed

lemma recover_jobs_ok:
  "lifecycle_ok sha st \<Longrightarrow> lifecycle_ok sha (fst (recover_jobs sha st xs))"
proof (induction sha st xs rule: recover_jobs.induct)
  case (2 sha st job spec ledger xs)
  obtain st' b where inst: "install_runtime_if_current sha st (sj_job_id job) True = (st', Inr b)"
    using install_succeeds [OF 2(2)] by blast
  have "lifecycle_ok sha (fst (recover_jobs sha st' xs))"
    by (rule 2(1) [OF inst [symmetric] refl install_lifecycle_ok [OF 2(2) inst]])
  then show ?case
    by (cases "recover_jobs sha st' xs"; cases "snd (recover_jobs sha st' xs)") (simp_all add: inst)
next
  case (3 sha st j identity reason xs)
  have "lifecycle_ok sha (record_fault st (Some j) FaultTransition ClassLocalIo)"
    using 3(2) by (simp add: lifecycle_ok_def startable_def coordinator_ok_def record_fault_def)
  then show ?case using 3(1) by simp
qed simp

section \<open>Enqueueing twice\<close>

lemma install_again:
  assumes step: "install_runtime_if_current sha st j b = (st', Inr x)" and "b \<longrightarrow> b'" and "x \<or> b = b'"
  shows "install_runtime_if_current sha st' j b' = (st', Inr x)"
  using step
proof (cases rule: install_delta)
  case same
  with assms show ?thesis
    by (auto simp: install_runtime_if_current_def split: option.splits sum.splits if_splits)
next
  case (installed stored spec s)
  have "co_jobs st' j \<noteq> None" using installed(5,7) by simp
  then show ?thesis
    using installed assms(2) by (auto simp: install_runtime_if_current_def)
qed

lemma latest_found:
  assumes "store_ok db" and "latest_job_by_identity db i = Some r"
  shows "find_job db (sj_job_id r) = Some r"
proof -
  have member: "newest rs = Some x \<Longrightarrow> x \<in> set rs" for rs x
    by (induction rs arbitrary: x) (auto split: option.splits if_splits)
  have "r \<in> set (db_jobs db)"
    using member [OF assms(2) [unfolded latest_job_by_identity_def]] by simp
  moreover have "distinct (map sj_job_id (db_jobs db))"
    using store_okD(1) [OF assms(1)] by (simp add: keys_ok_def)
  ultimately show ?thesis by (simp add: find_job_def find_key_Some_iff)
qed

lemma created_row:
  assumes "insert_job sha db j spec now = Inr (db', JobCreated row)"
  shows "find_job db' j = Some row" and "sj_dismissed_at row = None" and "sj_state row = TagQueued"
  using assms
proof (atomize (full), cases rule: insert_job_delta)
  case (created r)
  moreover have "sj_dismissed_at row = None"
    using assms by (auto simp: insert_job_def Let_def split: option.splits if_splits)
  ultimately show "find_job db' j = Some row \<and> sj_dismissed_at row = None \<and> sj_state row = TagQueued"
    by simp
qed simp

lemma enqueue_checked_again:
  assumes first: "enqueue_checked sha upload verifier shutdown now staging j child st r spec = (st', Inr k)"
    and open_parent: "\<And>p. latest_job_by_identity (co_store st) (js_identity spec) = Some p
        \<Longrightarrow> sj_dismissed_at p = None"
    and ok: "lifecycle_ok sha st" "job_spec_valid spec"
  shows "enqueue_checked sha upload verifier shutdown now' staging' j' child' st' r spec = (st', Inr k)"
proof -
  have admitted: "\<not> shutdown" "verifier (tq_manifest_bytes r) (tq_signature r) (tq_public_key r)"
    using first by (auto simp: enqueue_checked_def split: if_splits)
  obtain db res where step: "insert_job sha (co_store st) j spec now = Inr (db, res)"
    using first admitted by (cases "insert_job sha (co_store st) j spec now") (auto simp: enqueue_checked_def)
  let ?st = "st\<lparr>co_store := db\<rparr>"
  have again: ?thesis
    if latest: "latest_job_by_identity db (js_identity spec) = Some p" "sj_digest p = request_digest sha spec"
      and found: "find_job db (sj_job_id p) = Some p" "sj_dismissed_at p = None" and k: "k = sj_job_id p"
      and store: "co_store st' = db" and inst: "install_runtime_if_current sha st' k True = (st', Inr x)" for p x
  proof -
    have "insert_job sha (co_store st') j' spec now' = Inr (db, JobExisting p)"
      using latest store by (simp add: insert_job_def)
    then have "enqueue_checked sha upload verifier shutdown now' staging' j' child' st' r spec
        = resolve_existing_enqueue sha upload now' staging' child' (st'\<lparr>co_store := db\<rparr>) k"
      using admitted k by (simp add: enqueue_checked_def)
    also have "st'\<lparr>co_store := db\<rparr> = st'" using store by (cases st') simp
    finally show ?thesis
      using found k store inst by (simp add: resolve_existing_enqueue_def)
  qed
  show ?thesis
  proof (cases res)
    case (JobCreated p)
    have new: "lifecycle_ok sha ?st" by (rule insert_lifecycle_ok [OF ok step])
    note row = created_row [OF step [unfolded JobCreated]]
    note id = created_is_latest [OF step [unfolded JobCreated]]
    obtain x where inst: "install_runtime_if_current sha ?st j False = (st', Inr x)" and k: "k = j"
      using first admitted step JobCreated id(2)
      by (auto simp: enqueue_checked_def split: prod.splits sum.splits)
    have store: "co_store st' = db" using install_store [of sha ?st j False] inst by simp
    have x
    proof -
      obtain s where "spec_kept sha db j p s"
        using new row(1) by (auto simp: lifecycle_ok_def startable_def specs_stored_def job_stored_def
            dest!: spec [of _ j])
      then have "load_job_spec sha db j = Inr s"
        using stored_spec_loads [of sha db] new by (auto simp: spec_kept_def lifecycle_ok_def startable_def)
      then show ?thesis
        using inst row by (auto simp: install_runtime_if_current_def split: if_splits option.splits)
    qed
    then have "install_runtime_if_current sha st' j True = (st', Inr x)"
      using install_again [OF inst, of True] by simp
    then show ?thesis using again [of p x] id row k store by simp
  next
    case (JobExisting p)
    then have p: "latest_job_by_identity (co_store st) (js_identity spec) = Some p" "db = co_store st"
        "sj_digest p = request_digest sha spec"
      using step by (auto elim!: insert_job_delta)
    have found: "find_job (co_store st) (sj_job_id p) = Some p"
      using latest_found [OF _ p(1)] ok(1) by (simp add: lifecycle_ok_def startable_def coordinator_ok_def)
    have same: "st\<lparr>co_store := db\<rparr> = st" using p(2) by (cases st) simp
    obtain x where inst: "install_runtime_if_current sha st (sj_job_id p) True = (st', Inr x)" "k = sj_job_id p"
      using first admitted step JobExisting open_parent [OF p(1)] found same p(2)
      by (auto simp: enqueue_checked_def resolve_existing_enqueue_def split: prod.splits sum.splits)
    have store: "co_store st' = db" using install_store [of sha st "sj_job_id p" True] inst p(2) by simp
    show ?thesis
      using again [of p x] p open_parent [OF p(1)] found inst(2) store install_again [OF inst(1), of True] by simp
  qed
qed



section \<open>Witnesses\<close>

definition history_db :: transfer_db where
  "history_db = run_transfer (\<lambda>_. []) no_uploads empty_db recovery_history"

definition restarted :: coordinator where
  "restarted =
     \<lparr>co_store = history_db, co_jobs = Map.empty, co_queue = new_work_queue 4, co_leases = Map.empty,
      co_faults = [], co_observation = 0\<rparr>"

lemma restarted_rows:
  obtains x where "unfinished_downloads (co_store restarted) = [x]" and "sj_job_id x = ''a''"
    and "sj_version x = 2"
proof -
  have "\<exists>x. filter live_download (db_jobs history_db) = [x] \<and> sj_job_id x = ''a'' \<and> sj_version x = 2"
    by (simp add: history_db_def later_history_def retry_eval valid_spec_def transition_job_def is_valid_transition_def
        natural_key_def text_frame_def decimal.simps)
  then obtain x where x: "filter live_download (db_jobs history_db) = [x]" "sj_job_id x = ''a''" "sj_version x = 2"
    by blast
  have "mset (unfinished_downloads history_db) = mset (filter live_download (db_jobs history_db))"
    by (simp add: unfinished_downloads_def live_download_def)
  then have "mset (unfinished_downloads history_db) = {#x#}" using x(1) by simp
  then have "unfinished_downloads history_db = [x]" by (simp only: mset_single_iff)
  then show thesis using that x by (simp add: restarted_def)
qed

lemma restarted_startable:
  "startable (\<lambda>_. []) restarted" "transfer_ok (co_store restarted)" "co_jobs restarted = Map.empty"
proof -
  have "specs_stored (\<lambda>_. []) history_db" "transfer_ok history_db"
    unfolding history_db_def by (rule run_specs_stored [OF recovery_history_valid]) (rule run_transfer_ok)
  then show "startable (\<lambda>_. []) restarted" "transfer_ok (co_store restarted)" "co_jobs restarted = Map.empty"
    by (simp_all add: restarted_def startable_def coordinator_ok_def transfer_ok_def)
qed

theorem startup_settles_every_interruption_witness:
  "\<exists>st'. fail_interrupted_jobs_on_startup (\<lambda>_. []) (\<lambda>_. True) ''now'' restarted = (st', Inr [''a''])
     \<and> filter live_download (db_jobs (co_store st')) = []"
proof -
  obtain x where x: "unfinished_downloads (co_store restarted) = [x]" "sj_job_id x = ''a''" "sj_version x = 2"
    by (rule restarted_rows)
  have "\<exists>st' js. fail_interrupted_jobs_on_startup (\<lambda>_. []) (\<lambda>_. True) ''now'' restarted = (st', Inr js)"
    by (rule startup_succeeds_when_clear [OF restarted_startable]) (simp add: x)
  then obtain st' js where "fail_interrupted_jobs_on_startup (\<lambda>_. []) (\<lambda>_. True) ''now'' restarted = (st', Inr js)"
    by blast
  with startup_settles_every_interruption [OF restarted_startable(1,2) this] show ?thesis
    by (simp add: x)
qed

theorem startup_succeeds_after_any_history_witness:
  "\<exists>st'. fail_interrupted_jobs_on_startup (\<lambda>_. []) (\<lambda>_. True) ''now'' restarted = (st', Inr [''a''])"
proof -
  obtain x where x: "unfinished_downloads (co_store restarted) = [x]" "sj_job_id x = ''a''" "sj_version x = 2"
    by (rule restarted_rows)
  have "co_store restarted = run_transfer (\<lambda>_. []) no_uploads empty_db recovery_history"
    unfolding restarted_def history_db_def by (rule coordinator.select_convs(1))
  from startup_succeeds_after_any_history [OF recovery_history_valid this restarted_startable(3), of "\<lambda>_. True"]
  show ?thesis by (auto simp: x)
qed

definition empty_coordinator :: coordinator where
  "empty_coordinator =
     \<lparr>co_store = empty_db, co_jobs = Map.empty, co_queue = new_work_queue 4, co_leases = Map.empty,
      co_faults = [], co_observation = 0\<rparr>"

lemma empty_lifecycle_ok: "lifecycle_ok (\<lambda>_. []) empty_coordinator"
  using store_ok_empty run_specs_stored [of "[]" "\<lambda>_. []"]
  by (simp add: lifecycle_ok_def startable_def coordinator_ok_def downloads_only_def empty_coordinator_def
      find_job_def empty_db_def)


lemma valid_request_admitted: "validate_request_against_spec (request_from_spec valid_spec) valid_spec = Inr ()"
  by (simp add: validate_request_against_spec_def request_from_spec_def requested_files_def valid_spec_def
      file_target_def ensure_def)


end
