(* ===== verification/Safe_Path.thy ===== *)
theory Safe_Path
  imports Framing
begin

text \<open>
  Untrusted relative paths (\<open>ingest/path.rs\<close>): the validation every manifest path passes
  before it is joined to a directory of the computer. A path is a byte string;
  the checks on the file system itself (links, hard links) are I/O and not here.
\<close>

section \<open>Splitting and control characters\<close>

text \<open>Rust's \<open>split(c)\<close>: one part more than there are separators.\<close>

fun split_at_char :: "char \<Rightarrow> string \<Rightarrow> string list" where
  "split_at_char s [] = [[]]"
| "split_at_char s (c # cs) =
     (if c = s then [] # split_at_char s cs
      else (case split_at_char s cs of p # ps \<Rightarrow> (c # p) # ps | [] \<Rightarrow> [[c]]))"

text \<open>What joins the parts again.\<close>

fun join_with :: "char \<Rightarrow> string list \<Rightarrow> string" where
  "join_with s [] = []"
| "join_with s [p] = p"
| "join_with s (p # q # ps) = p @ s # join_with s (q # ps)"

lemma split_at_char_not_Nil [simp]: "split_at_char s cs \<noteq> []"
  by (induction cs) (auto split: list.split)

lemma split_at_char_free: "p \<in> set (split_at_char s cs) \<Longrightarrow> s \<notin> set p"
  by (induction cs arbitrary: p) (auto split: if_splits list.splits)

lemma join_with_Cons: "ps \<noteq> [] \<Longrightarrow> join_with s (p # ps) = p @ s # join_with s ps"
  by (cases ps) auto

lemma join_split: "join_with s (split_at_char s cs) = cs"
proof (induction cs)
  case (Cons c cs)
  obtain p ps where parts: "split_at_char s cs = p # ps"
    using split_at_char_not_Nil [of s cs] by (cases "split_at_char s cs") auto
  with Cons show ?case
    by (cases ps) (auto simp: join_with_Cons)
qed simp

lemma split_at_char_no_sep: "s \<notin> set p \<Longrightarrow> split_at_char s p = [p]"
  by (induction p) auto

lemma split_at_char_app: "s \<notin> set p \<Longrightarrow> split_at_char s (p @ s # cs) = p # split_at_char s cs"
  by (induction p) auto

lemma split_join:
  "ps \<noteq> [] \<Longrightarrow> (\<forall>p \<in> set ps. s \<notin> set p) \<Longrightarrow> split_at_char s (join_with s ps) = ps"
  by (induction s ps rule: join_with.induct) (auto simp: split_at_char_no_sep split_at_char_app)

text \<open>
  \<open>chars().any(char::is_control)\<close>: \<open>U+0000..U+001F\<close>, \<open>U+007F\<close> and
  \<open>U+0080..U+009F\<close>, the last ones two bytes of UTF-8, \<open>C2\<close> then
  \<open>80..9F\<close>.
\<close>

fun has_control :: "string \<Rightarrow> bool" where
  "has_control [] = False"
| "has_control (c # cs) =
     (of_char c < (32::nat) \<or> of_char c = (127::nat)
      \<or> (of_char c = (194::nat)
           \<and> (case cs of [] \<Rightarrow> False | d # _ \<Rightarrow> of_char d \<ge> (128::nat) \<and> of_char d \<le> (159::nat)))
      \<or> has_control cs)"

section \<open>Validation\<close>

datatype path_safety_error =
    PathEmpty
  | PathTooLong nat
  | PathTooDeep nat
  | AbsoluteOrPrefixed
  | DotOrEmptyComponent
  | Backslash
  | ForbiddenCharacter string
  | DriveOrAlternateStream string
  | ReservedDeviceName string
  | TrailingDotOrSpace string

definition windows_reserved_names :: "string list" where
  "windows_reserved_names =
     [''CON'', ''PRN'', ''AUX'', ''NUL'', ''COM1'', ''COM2'', ''COM3'', ''COM4'', ''COM5'',
      ''COM6'', ''COM7'', ''COM8'', ''COM9'', ''LPT1'', ''LPT2'', ''LPT3'', ''LPT4'', ''LPT5'',
      ''LPT6'', ''LPT7'', ''LPT8'', ''LPT9'', ''CLOCK$'', ''CONIN$'', ''CONOUT$'']"

definition ends_with :: "char \<Rightarrow> string \<Rightarrow> bool" where
  "ends_with c s \<longleftrightarrow> s \<noteq> [] \<and> last s = c"

definition forbidden_char :: "char \<Rightarrow> bool" where
  "forbidden_char c \<longleftrightarrow> c \<in> set ''<>|?*'' \<or> of_char c = (34::nat)"

definition validate_component :: "string \<Rightarrow> path_safety_error + unit" where
  "validate_component component =
     and_then (ensure (component \<notin> {[], ''.'', ''..''}) DotOrEmptyComponent) (\<lambda>_.
     and_then (ensure (CHR '':'' \<notin> set component) (DriveOrAlternateStream component)) (\<lambda>_.
     and_then (ensure (\<not> (has_control component \<or> list_ex forbidden_char component))
        (ForbiddenCharacter component)) (\<lambda>_.
     and_then (ensure (\<not> (ends_with (CHR ''.'') component \<or> ends_with (CHR '' '') component))
        (TrailingDotOrSpace component)) (\<lambda>_.
     (let upper = map to_ascii_upper component;
          base = hd (split_at_char (CHR ''.'') upper)
      in ensure (base \<notin> set windows_reserved_names) (ReservedDeviceName component))))))"

fun validate_components :: "string list \<Rightarrow> path_safety_error + unit" where
  "validate_components [] = Inr ()"
| "validate_components (c # cs) =
     and_then (validate_component c) (\<lambda>_. validate_components cs)"

text \<open>
  \<open>Path::is_absolute\<close> and the components \<open>Prefix\<close> and \<open>RootDir\<close> of the
  standard library, for a path without backslashes: a leading slash, and on Windows a
  leading drive. \<open>windows\<close> says for which system the program was built.
\<close>

definition is_ascii_letter :: "char \<Rightarrow> bool" where
  "is_ascii_letter c \<longleftrightarrow>
     (of_char c \<ge> (65::nat) \<and> of_char c \<le> (90::nat)) \<or> (of_char c \<ge> (97::nat) \<and> of_char c \<le> (122::nat))"

fun absolute_or_prefixed :: "bool \<Rightarrow> string \<Rightarrow> bool" where
  "absolute_or_prefixed windows (c # d # cs) =
     (c = CHR ''/'' \<or> windows \<and> is_ascii_letter c \<and> d = CHR '':'')"
| "absolute_or_prefixed windows [c] = (c = CHR ''/'')"
| "absolute_or_prefixed windows [] = False"

definition validate_relative_path ::
    "bool \<Rightarrow> string \<Rightarrow> nat \<Rightarrow> nat \<Rightarrow> path_safety_error + unit" where
  "validate_relative_path windows value maximum_components maximum_bytes =
     and_then (ensure (value \<noteq> []) PathEmpty) (\<lambda>_.
     and_then (ensure (length value \<le> maximum_bytes) (PathTooLong maximum_bytes)) (\<lambda>_.
     and_then (ensure (CHR 0x5C \<notin> set value) Backslash) (\<lambda>_.
     and_then (ensure (\<not> absolute_or_prefixed windows value) AbsoluteOrPrefixed) (\<lambda>_.
     (let components = split_at_char (CHR ''/'') value
      in and_then (ensure (length components \<le> maximum_components)
            (PathTooDeep maximum_components)) (\<lambda>_.
         validate_components components))))))"

text \<open>\<open>SafeRelativePath\<close>: \<open>parse\<close>, \<open>components\<close>, and \<open>join_to\<close> on the directory
  names of a root.\<close>

type_synonym safe_relative_path = string

definition parse_safe_path :: "bool \<Rightarrow> string \<Rightarrow> path_safety_error + safe_relative_path" where
  "parse_safe_path windows value =
     and_then (validate_relative_path windows value 32 1024) (\<lambda>_. Inr value)"

definition path_components :: "safe_relative_path \<Rightarrow> string list" where
  "path_components p = split_at_char (CHR ''/'') p"

definition join_to :: "string list \<Rightarrow> safe_relative_path \<Rightarrow> string list" where
  "join_to root p = fold (\<lambda>component path. path @ [component]) (path_components p) root"

section \<open>What an accepted path is\<close>

text \<open>A component that names one entry of a directory on every supported system.\<close>

definition plain_component :: "string \<Rightarrow> bool" where
  "plain_component c \<longleftrightarrow>
     c \<notin> {[], ''.'', ''..''} \<and> CHR ''/'' \<notin> set c \<and> CHR 0x5C \<notin> set c \<and> CHR '':'' \<notin> set c
     \<and> \<not> has_control c \<and> \<not> list_ex forbidden_char c
     \<and> last c \<noteq> CHR ''.'' \<and> last c \<noteq> CHR '' ''
     \<and> map to_ascii_upper (takeWhile (\<lambda>x. x \<noteq> CHR ''.'') c) \<notin> set windows_reserved_names"

text \<open>
  How an operating system resolves a list of names below a directory: \<open>.\<close> and empty
  names stay, \<open>..\<close> leaves the directory.
\<close>

fun resolve_name :: "string list \<Rightarrow> string \<Rightarrow> string list" where
  "resolve_name dir name =
     (if name = [] \<or> name = ''.'' then dir
      else if name = ''..'' then butlast dir else dir @ [name])"

definition resolve_path :: "string list \<Rightarrow> string list \<Rightarrow> string list" where
  "resolve_path root names = foldl resolve_name root names"

lemma hd_split_at_char: "hd (split_at_char s cs) = takeWhile (\<lambda>x. x \<noteq> s) cs"
proof (induction cs)
  case (Cons c cs)
  then show ?case by (cases "split_at_char s cs") auto
qed simp

lemma to_ascii_upper_dot: "to_ascii_upper c = CHR ''.'' \<longleftrightarrow> c = CHR ''.''"
proof -
  have bound: "of_char c < (256 :: nat)" by simp
  show ?thesis
  proof (cases "of_char c \<ge> (97::nat) \<and> of_char c \<le> (122::nat)")
    case True
    then have lower: "to_ascii_upper c = char_of (of_char c - (32 :: nat))"
      by (simp add: to_ascii_upper_def)
    have "of_char (to_ascii_upper c) = (of_char c - 32 :: nat)"
    proof -
      have "(of_char c - 32 :: nat) mod 256 = of_char c - 32"
        by (rule mod_less) (use bound in linarith)
      then show ?thesis unfolding lower by (simp add: of_char_of)
    qed
    with True have "of_char (to_ascii_upper c) \<noteq> (46 :: nat)" and "of_char c \<noteq> (46 :: nat)"
      by auto
    then show ?thesis by auto
  qed (auto simp: to_ascii_upper_def)
qed

lemma base_name_upper:
  "hd (split_at_char (CHR ''.'') (map to_ascii_upper c))
     = map to_ascii_upper (takeWhile (\<lambda>x. x \<noteq> CHR ''.'') c)"
  by (simp add: hd_split_at_char takeWhile_map comp_def to_ascii_upper_dot)

lemma validate_component_iff:
  "CHR ''/'' \<notin> set c \<Longrightarrow> CHR 0x5C \<notin> set c \<Longrightarrow>
     validate_component c = Inr () \<longleftrightarrow> plain_component c"
  by (auto simp: validate_component_def plain_component_def Let_def base_name_upper ends_with_def)

lemma validate_components_iff:
  "validate_components cs = Inr () \<longleftrightarrow> (\<forall>c \<in> set cs. validate_component c = Inr ())"
  by (induction cs) auto

lemma set_split_at_char: "p \<in> set (split_at_char s cs) \<Longrightarrow> set p \<subseteq> set cs"
proof (induction cs arbitrary: p)
  case (Cons c cs)
  then show ?case
    by (cases "split_at_char s cs") (auto split: if_splits, blast+)
qed simp

lemma parse_safe_path_components:
  assumes "parse_safe_path windows v = Inr p"
  shows "p = v" and "\<forall>c \<in> set (path_components p). plain_component c"
    and "length (path_components p) \<le> 32" and "length p \<le> 1024" and "p \<noteq> []"
proof -
  from assms have valid: "validate_relative_path windows v 32 1024 = Inr ()" and p: "p = v"
    by (auto simp: parse_safe_path_def)
  then show "p = v" by simp
  from valid have no_backslash: "CHR 0x5C \<notin> set v"
    and parts: "validate_components (split_at_char (CHR ''/'') v) = Inr ()"
    and "length (split_at_char (CHR ''/'') v) \<le> 32" "length v \<le> 1024" "v \<noteq> []"
    by (auto simp: validate_relative_path_def Let_def)
  then show "length (path_components p) \<le> 32" "length p \<le> 1024" "p \<noteq> []"
    by (auto simp: path_components_def p)
  show "\<forall>c \<in> set (path_components p). plain_component c"
  proof
    fix c assume c: "c \<in> set (path_components p)"
    then have "CHR ''/'' \<notin> set c" and "set c \<subseteq> set v"
      using split_at_char_free [of c "CHR ''/''" v] set_split_at_char [of c "CHR ''/''" v]
      by (auto simp: path_components_def p)
    with no_backslash parts c show "plain_component c"
      using validate_component_iff [of c]
      by (auto simp: validate_components_iff path_components_def p)
  qed
qed

lemma join_to_append: "join_to root p = root @ path_components p"
proof -
  have "fold (\<lambda>c path. path @ [c]) cs r = r @ cs" for cs r :: "'b list"
    by (induction cs arbitrary: r) auto
  then show ?thesis by (simp add: join_to_def)
qed

lemma resolve_plain:
  "(\<forall>c \<in> set cs. plain_component c) \<Longrightarrow> resolve_path root cs = root @ cs"
  by (induction cs arbitrary: root) (auto simp: resolve_path_def plain_component_def)

section \<open>Properties\<close>

text \<open>
  C23. A path the program accepts cannot leave the directory it is joined to: resolved by
  the operating system from any root, it is the root followed by its own components, each
  of which is a plain name on every supported system (not empty, not a dot directory, no
  separator, drive, stream, control or reserved character, no trailing dot or space, not a
  Windows device), at most 32 of them and 1024 bytes; and the accepted text is exactly the
  text that was given.
\<close>

theorem safe_path_stays_below_root:
  assumes "parse_safe_path windows value = Inr p"
  shows "p = value \<and> resolve_path root (path_components p) = join_to root p
    \<and> take (length root) (join_to root p) = root \<and> length root < length (join_to root p)
    \<and> (\<forall>c \<in> set (path_components p). plain_component c)
    \<and> length (path_components p) \<le> 32 \<and> length p \<le> 1024
    \<and> join_with (CHR ''/'') (path_components p) = p"
  using parse_safe_path_components [OF assms]
  by (simp add: resolve_plain join_to_append join_split path_components_def)

lemma sample_path: "parse_safe_path False ''recordings/left.mjpeg'' = Inr ''recordings/left.mjpeg''"
  by code_simp

theorem safe_path_stays_below_root_witness:
  "resolve_path [''mnt''] (path_components ''recordings/left.mjpeg'')
     = [''mnt'', ''recordings'', ''left.mjpeg'']
   \<and> list_all plain_component (path_components ''recordings/left.mjpeg'')"
proof -
  have "path_components ''recordings/left.mjpeg'' = [''recordings'', ''left.mjpeg'']"
    by (simp add: path_components_def)
  then show ?thesis
    using safe_path_stays_below_root [OF sample_path, of "[''mnt'']"]
    by (simp add: join_to_append list_all_iff)
qed

end
