(* ===== verification/Source_Model.thy ===== *)
theory Source_Model
  imports Safe_Path Job_Spec
begin

text \<open>
  Recordings as the ingest side sees them (\<open>ingest/source.rs\<close>, \<open>ingest/identity.rs\<close>):
  opaque identities, the inventory claims of a candidate, its trust verdicts and
  provenance, and the two ways a scanned candidate is admitted as a source recording: from
  a verified signed publication, or unsigned under a validation report and an optional
  receipt of the user's decision. Signature verification itself is in another module; what
  this module reads of its result is the record \<open>verified_publication\<close>.
\<close>

section \<open>Identities\<close>

datatype identity_error =
    IdEmpty string
  | IdTooLong string nat
  | IdUnsafeCharacters string
  | IdInvalidShape string

definition validate_opaque :: "string \<Rightarrow> string \<Rightarrow> nat \<Rightarrow> identity_error + unit" where
  "validate_opaque field value maximum =
     and_then (ensure (value \<noteq> []) (IdEmpty field)) (\<lambda>_.
     and_then (ensure (length value \<le> maximum) (IdTooLong field maximum)) (\<lambda>_.
     ensure (\<not> has_control value \<and> CHR ''/'' \<notin> set value \<and> CHR 0x5C \<notin> set value)
       (IdUnsafeCharacters field)))"

definition validate_prefixed_sha256 ::
    "string \<Rightarrow> string \<Rightarrow> string \<Rightarrow> identity_error + unit" where
  "validate_prefixed_sha256 field value prefix =
     (case strip_prefix prefix value of
        None \<Rightarrow> Inl (IdInvalidShape field)
      | Some digest \<Rightarrow> ensure (is_sha256_hex digest) (IdInvalidShape field))"

definition parse_prefixed :: "string \<Rightarrow> string \<Rightarrow> string \<Rightarrow> identity_error + string" where
  "parse_prefixed field prefix value =
     and_then (validate_prefixed_sha256 field value prefix) (\<lambda>_. Inr value)"

type_synonym acquisition_source_id = string
type_synonym source_artifact_id = string
type_synonym import_job_id = string
type_synonym candidate_id = string
type_synonym candidate_revision = string
type_synonym source_content_revision = string
type_synonym media_generation_id = string
type_synonym inventory_digest = string

definition parse_content_revision :: "string \<Rightarrow> identity_error + source_content_revision" where
  "parse_content_revision = parse_prefixed ''source content revision'' ''sha256:''"

definition parse_inventory_digest :: "string \<Rightarrow> identity_error + inventory_digest" where
  "parse_inventory_digest = parse_prefixed ''inventory digest'' ''sha256:''"

text \<open>The two identities share their shape, so a digest is always a revision.\<close>

lemma digest_is_revision:
  "parse_inventory_digest s = Inr d \<Longrightarrow> parse_content_revision d = Inr d"
  by (auto simp: parse_inventory_digest_def parse_content_revision_def parse_prefixed_def
      validate_prefixed_sha256_def split: option.splits)

datatype source_revision_claim =
    Published source_content_revision
  | Provisional candidate_revision

fun stable_revision :: "source_revision_claim \<Rightarrow> source_content_revision option" where
  "stable_revision (Published revision) = Some revision"
| "stable_revision (Provisional _) = None"

record media_generation =
  mg_id :: media_generation_id
  mg_source_id :: acquisition_source_id
  mg_platform_volume_identity :: string
  mg_root_marker_digest :: inventory_digest
  mg_observation_epoch :: u64

section \<open>The model of a source\<close>

datatype source_kind = Lan | RemovableMedia | LocalFolder | LegacyRemovableMedia

datatype source_schema =
    DeviceSessionV1 | DeviceSessionV2 | DeviceSessionV3
  | SignedPublicationV1 | UnsignedPublicationV1
  | RawCaptureV2 | LegacyMjpegSessionV5 | CompleteUnpublishedV6 | ApplianceSpoolV6

definition is_signed :: "source_schema \<Rightarrow> bool" where
  "is_signed s \<longleftrightarrow> s = SignedPublicationV1"

datatype source_artifact_role =
    VideoLeft | VideoRight | VideoStereo | Audio | Imu | FrameIndex | SessionManifest
  | CaptureManifest | CaptureCommit | EncodingState | PublicationManifest | SpoolIndex | Metadata

datatype source_model_error =
    SmIdentity identity_error
  | EmptyVideo string
  | InvalidMediaType
  | InvalidFrameRate
  | InvalidGeometry
  | NoVideoSegments
  | EmptyValidationReport
  | InvalidText string
  | InvalidSha256 string
  | EmptyInventory
  | DuplicateArtifactId string
  | DuplicateArtifactPath string
  | ReadinessContradictsValidation
  | SignedMaterialMismatch
  | InventoryNotVerified

definition short_text :: "nat \<Rightarrow> string \<Rightarrow> bool" where
  "short_text maximum s \<longleftrightarrow> s \<noteq> [] \<and> length s \<le> maximum \<and> \<not> has_control s"

definition validate_short_text :: "string \<Rightarrow> string \<Rightarrow> nat \<Rightarrow> source_model_error + unit" where
  "validate_short_text field value maximum = ensure (short_text maximum value) (InvalidText field)"

definition validate_sha256_hex :: "string \<Rightarrow> string \<Rightarrow> source_model_error + unit" where
  "validate_sha256_hex field digest = ensure (is_sha256_hex digest) (InvalidSha256 field)"

record source_artifact_claim =
  ac_id :: source_artifact_id
  ac_relative_path :: safe_relative_path
  ac_role :: source_artifact_role
  ac_size_bytes :: u64
  ac_source_sha256 :: "string option"
  ac_media_type :: "string option"

definition new_source_artifact_claim ::
    "source_artifact_id \<Rightarrow> safe_relative_path \<Rightarrow> source_artifact_role \<Rightarrow> u64 \<Rightarrow> string option
     \<Rightarrow> string option \<Rightarrow> source_model_error + source_artifact_claim" where
  "new_source_artifact_claim aid path role size_bytes sha media_type =
     and_then (ensure (\<not> (size_bytes = 0 \<and> role \<in> {VideoLeft, VideoRight, VideoStereo}))
        (EmptyVideo path)) (\<lambda>_.
     and_then (case sha of None \<Rightarrow> Inr ()
               | Some digest \<Rightarrow> validate_sha256_hex ''source artifact sha256'' digest) (\<lambda>_.
     and_then (case media_type of None \<Rightarrow> Inr ()
               | Some t \<Rightarrow> ensure (short_text 256 t) InvalidMediaType) (\<lambda>_.
     Inr \<lparr>ac_id = aid, ac_relative_path = path, ac_role = role, ac_size_bytes = size_bytes,
          ac_source_sha256 = sha, ac_media_type = media_type\<rparr>)))"

datatype stereo_layout = LeftRightSideBySide | SeparateEyes
datatype source_video_codec = Mjpeg | H264 | Hevc

record frame_rate =
  fr_numerator :: u32
  fr_denominator :: u32

definition new_frame_rate :: "u32 \<Rightarrow> u32 \<Rightarrow> source_model_error + frame_rate" where
  "new_frame_rate n d =
     and_then (ensure (n \<noteq> 0 \<and> d \<noteq> 0) InvalidFrameRate) (\<lambda>_.
     Inr \<lparr>fr_numerator = n, fr_denominator = d\<rparr>)"

record source_media_plan =
  mp_layout :: stereo_layout
  mp_codec :: source_video_codec
  mp_frame_rate :: "frame_rate option"
  mp_frame_width :: "u32 option"
  mp_frame_height :: "u32 option"
  mp_segment_count :: u32
  mp_reset_timestamps :: bool
  mp_raw_frame_count :: "u64 option"
  mp_legacy_total_frames :: "u64 option"

definition new_source_media_plan ::
    "stereo_layout \<Rightarrow> source_video_codec \<Rightarrow> frame_rate option \<Rightarrow> u32 option \<Rightarrow> u32 option \<Rightarrow> u32
     \<Rightarrow> bool \<Rightarrow> source_model_error + source_media_plan" where
  "new_source_media_plan layout codec rate width height segments reset_ts =
     and_then (ensure (segments \<noteq> 0) NoVideoSegments) (\<lambda>_.
     and_then (ensure (width \<noteq> Some 0 \<and> height \<noteq> Some 0) InvalidGeometry) (\<lambda>_.
     Inr \<lparr>mp_layout = layout, mp_codec = codec, mp_frame_rate = rate, mp_frame_width = width,
          mp_frame_height = height, mp_segment_count = segments, mp_reset_timestamps = reset_ts,
          mp_raw_frame_count = None, mp_legacy_total_frames = None\<rparr>))"

definition with_raw_frame_count :: "source_media_plan \<Rightarrow> u64 \<Rightarrow> source_media_plan" where
  "with_raw_frame_count plan n = plan\<lparr>mp_raw_frame_count := Some n\<rparr>"

definition with_legacy_total_frames :: "source_media_plan \<Rightarrow> u64 \<Rightarrow> source_media_plan" where
  "with_legacy_total_frames plan n = plan\<lparr>mp_legacy_total_frames := Some n\<rparr>"

record media_locator =
  ml_source_id :: acquisition_source_id
  ml_media_generation :: "media_generation option"
  ml_candidate_relative_path :: "safe_relative_path option"

definition locator_generation_id :: "media_locator \<Rightarrow> media_generation_id option" where
  "locator_generation_id l = map_option mg_id (ml_media_generation l)"

datatype candidate_readiness =
    ReadySigned | ReadyUnsignedRequiresPolicy | PendingArtifactValidation | AlreadyImported
  | WaitingForPairingKey | RecordingOrEncodingIncomplete | UnsupportedSchema | UnsafePath
  | InsufficientLocalSpace | Corrupt

record validation_check =
  vc_code :: string
  vc_passed :: bool
  vc_detail :: string

type_synonym validation_report = "validation_check list"

definition new_validation_report ::
    "validation_check list \<Rightarrow> source_model_error + validation_report" where
  "new_validation_report checks =
     and_then (ensure (checks \<noteq> []) EmptyValidationReport) (\<lambda>_. Inr checks)"

definition is_accepted :: "validation_report \<Rightarrow> bool" where
  "is_accepted report = list_all vc_passed report"

section \<open>Trust and provenance\<close>

datatype inventory_hashes_verdict =
  InventoryPending | InventoryValid inventory_digest | InventoryInvalid string

datatype manifest_signature_verdict =
  SignatureNotApplicable | SignaturePending | SignatureValid string | SignatureInvalid string

datatype producer_key_trust_verdict =
  KeyNotApplicable | KeyUnknown string | KeyTrusted string | KeyRejected string

record source_trust_verdicts =
  tv_inventory_hashes :: inventory_hashes_verdict
  tv_manifest_signature :: manifest_signature_verdict
  tv_producer_key :: producer_key_trust_verdict

definition pending_signed :: "string \<Rightarrow> source_trust_verdicts" where
  "pending_signed fingerprint =
     \<lparr>tv_inventory_hashes = InventoryPending, tv_manifest_signature = SignaturePending,
      tv_producer_key = KeyUnknown fingerprint\<rparr>"

definition pending_unsigned :: source_trust_verdicts where
  "pending_unsigned =
     \<lparr>tv_inventory_hashes = InventoryPending, tv_manifest_signature = SignatureNotApplicable,
      tv_producer_key = KeyNotApplicable\<rparr>"

record device_signed =
  ds_key_fingerprint :: string
  ds_revision :: source_content_revision
  ds_payload :: string
  ds_signature :: string
  ds_public_key :: string

record unsigned_admission_receipt =
  ar_receipt_id :: string
  ar_candidate_id :: candidate_id
  ar_media_generation_id :: "media_generation_id option"
  ar_candidate_revision :: candidate_revision
  ar_policy_revision :: string
  ar_admitted_at :: string

definition new_unsigned_admission_receipt ::
    "string \<Rightarrow> candidate_id \<Rightarrow> media_generation_id option \<Rightarrow> candidate_revision \<Rightarrow> string \<Rightarrow> string
     \<Rightarrow> source_model_error + unsigned_admission_receipt" where
  "new_unsigned_admission_receipt receipt_id cid generation revision policy_revision admitted_at =
     and_then (validate_short_text ''unsigned admission receipt id'' receipt_id 256) (\<lambda>_.
     and_then (validate_short_text ''unsigned admission policy revision'' policy_revision 256) (\<lambda>_.
     and_then (validate_short_text ''unsigned admission timestamp'' admitted_at 128) (\<lambda>_.
     Inr \<lparr>ar_receipt_id = receipt_id, ar_candidate_id = cid, ar_media_generation_id = generation,
          ar_candidate_revision = revision, ar_policy_revision = policy_revision,
          ar_admitted_at = admitted_at\<rparr>)))"

record locally_validated_unsigned =
  lu_source_schema :: source_schema
  lu_validation_report :: validation_report
  lu_computed_inventory_digest :: "inventory_digest option"
  lu_user_admission_receipt :: "unsigned_admission_receipt option"

datatype source_provenance =
    DeviceSigned device_signed
  | LocallyValidatedUnsigned locally_validated_unsigned

section \<open>Signed material and candidates\<close>

text \<open>
  The exact detached-signature material found on a medium. \<open>duration_seconds\<close> is an
  \<open>f64\<close> nobody computes with here: it is carried as its bits.
\<close>

record publication_file_claim =
  fc_id :: string
  fc_display_path :: string
  fc_role :: string
  fc_size_bytes :: u64
  fc_sha256 :: string
  fc_media_type :: string

record signed_publication_material =
  sm_session_id :: string
  sm_revision :: string
  sm_captured_at :: string
  sm_published_at :: string
  sm_duration_bits :: u64
  sm_total_bytes :: u64
  sm_video_bytes :: u64
  sm_files :: "publication_file_claim list"
  sm_payload :: string
  sm_signature_hex :: string
  sm_public_key_hex :: string
  sm_presented_key_fingerprint :: string
  sm_inline_key_version :: "u64 option"

record publication_envelope =
  pe_session_id :: string
  pe_revision :: string
  pe_captured_at :: string
  pe_published_at :: string
  pe_duration_bits :: u64
  pe_total_bytes :: u64
  pe_video_bytes :: u64
  pe_file_count :: u64
  pe_files :: "publication_file_claim list"
  pe_payload :: string
  pe_signature_hex :: string
  pe_public_key_hex :: string
  pe_key_fingerprint :: string

definition envelope :: "signed_publication_material \<Rightarrow> publication_envelope" where
  "envelope m =
     \<lparr>pe_session_id = sm_session_id m, pe_revision = sm_revision m,
      pe_captured_at = sm_captured_at m, pe_published_at = sm_published_at m,
      pe_duration_bits = sm_duration_bits m, pe_total_bytes = sm_total_bytes m,
      pe_video_bytes = sm_video_bytes m, pe_file_count = of_nat (length (sm_files m)),
      pe_files = sm_files m, pe_payload = sm_payload m, pe_signature_hex = sm_signature_hex m,
      pe_public_key_hex = sm_public_key_hex m,
      pe_key_fingerprint = sm_presented_key_fingerprint m\<rparr>"

definition envelope_with_registry_public_key ::
    "signed_publication_material \<Rightarrow> string \<Rightarrow> publication_envelope" where
  "envelope_with_registry_public_key m key = (envelope m)\<lparr>pe_public_key_hex := key\<rparr>"

text \<open>What admission reads of a \<open>VerifiedPublication\<close>.\<close>

record verified_file =
  vf_id :: string
  vf_display_path :: string
  vf_size_bytes :: u64
  vf_sha256 :: string

record verified_publication =
  vp_session_id :: string
  vp_revision :: string
  vp_key_fingerprint :: string
  vp_payload :: string
  vp_signature :: string
  vp_public_key :: string
  vp_files :: "verified_file list"

record scan_candidate =
  sc_id :: candidate_id
  sc_revision_claim :: source_revision_claim
  sc_source_kind :: source_kind
  sc_schema :: source_schema
  sc_session_id :: string
  sc_locator :: media_locator
  sc_inventory :: "source_artifact_claim list"
  sc_media_plan :: source_media_plan
  sc_trust_verdicts :: source_trust_verdicts
  sc_readiness :: candidate_readiness
  sc_validation_report :: validation_report
  sc_signed_publication :: "signed_publication_material option"

text \<open>\<open>validate_inventory\<close>: the first duplicate, in the order of the inventory.\<close>

fun first_duplicate ::
    "string list \<Rightarrow> string list \<Rightarrow> source_artifact_claim list \<Rightarrow> source_model_error + unit" where
  "first_duplicate ids paths [] = Inr ()"
| "first_duplicate ids paths (a # as) =
     and_then (ensure (ac_id a \<notin> set ids) (DuplicateArtifactId (ac_id a))) (\<lambda>_.
     and_then (ensure (ac_relative_path a \<notin> set paths)
        (DuplicateArtifactPath (ac_relative_path a))) (\<lambda>_.
     first_duplicate (ac_id a # ids) (ac_relative_path a # paths) as))"

definition validate_inventory :: "source_artifact_claim list \<Rightarrow> source_model_error + unit" where
  "validate_inventory inventory =
     and_then (ensure (inventory \<noteq> []) EmptyInventory) (\<lambda>_. first_duplicate [] [] inventory)"

definition new_scan_candidate :: "scan_candidate \<Rightarrow> source_model_error + scan_candidate" where
  "new_scan_candidate c =
     and_then (validate_short_text ''source session id'' (sc_session_id c) 256) (\<lambda>_.
     and_then (validate_inventory (sc_inventory c)) (\<lambda>_.
     and_then (ensure (is_signed (sc_schema c) = (sc_signed_publication c \<noteq> None))
        SignedMaterialMismatch) (\<lambda>_.
     and_then (ensure (\<not> (is_accepted (sc_validation_report c)
         \<and> sc_readiness c \<in> {Corrupt, UnsafePath, UnsupportedSchema, RecordingOrEncodingIncomplete}))
        ReadinessContradictsValidation) (\<lambda>_.
     Inr c))))"

section \<open>Admission\<close>

record source_recording =
  sr_candidate_id :: candidate_id
  sr_revision_claim :: source_revision_claim
  sr_content_revision :: "source_content_revision option"
  sr_source_kind :: source_kind
  sr_schema :: source_schema
  sr_session_id :: string
  sr_locator :: media_locator
  sr_inventory :: "source_artifact_claim list"
  sr_media_plan :: source_media_plan
  sr_provenance :: source_provenance
  sr_trust_verdicts :: source_trust_verdicts

datatype admission_error =
    AdIdentity identity_error
  | WrongProvenanceForSchema
  | VerifiedPublicationMismatch string
  | UnsignedCandidateAlreadyPublished
  | CandidateNotAdmissible candidate_readiness
  | UnsignedAdmissionReceiptMismatch string

definition claim_matches_file :: "source_artifact_claim \<Rightarrow> verified_file \<Rightarrow> bool" where
  "claim_matches_file claim vfile \<longleftrightarrow>
     ac_id claim = vf_id vfile \<and> ac_relative_path claim = vf_display_path vfile
     \<and> ac_size_bytes claim = vf_size_bytes vfile \<and> ac_source_sha256 claim = Some (vf_sha256 vfile)"

definition publication_is_exact :: "signed_publication_material \<Rightarrow> verified_publication \<Rightarrow> bool" where
  "publication_is_exact m verified \<longleftrightarrow>
     (let e = envelope m in
        pe_payload e = vp_payload verified
        \<and> pe_signature_hex e = digest_to_hex (vp_signature verified)
        \<and> (sm_inline_key_version m = None
             \<longrightarrow> pe_public_key_hex e = digest_to_hex (vp_public_key verified))
        \<and> pe_key_fingerprint e = vp_key_fingerprint verified)"

definition admit_device_signed ::
    "scan_candidate \<Rightarrow> verified_publication \<Rightarrow> admission_error + source_recording" where
  "admit_device_signed candidate verified =
     and_then (ensure (sc_schema candidate = SignedPublicationV1) WrongProvenanceForSchema) (\<lambda>_.
     and_then (ensure (sc_session_id candidate = vp_session_id verified)
        (VerifiedPublicationMismatch ''session id differs from the scanned candidate'')) (\<lambda>_.
     case sc_signed_publication candidate of
       None \<Rightarrow> Inl (VerifiedPublicationMismatch
                  ''candidate is missing exact signed publication material'')
     | Some m \<Rightarrow>
         and_then (ensure (publication_is_exact m verified)
            (VerifiedPublicationMismatch
               ''verified publication is not the exact card publication'')) (\<lambda>_.
         case parse_content_revision (vp_revision verified) of
           Inl e \<Rightarrow> Inl (AdIdentity e)
         | Inr revision \<Rightarrow>
             and_then (ensure (stable_revision (sc_revision_claim candidate) = Some revision)
                (VerifiedPublicationMismatch
                   ''publication revision differs from the scanned candidate'')) (\<lambda>_.
             and_then (ensure (length (sc_inventory candidate) = length (vp_files verified)
                   \<and> list_all (\<lambda>(claim, vfile). claim_matches_file claim vfile)
                        (zip (sc_inventory candidate) (vp_files verified)))
                (VerifiedPublicationMismatch
                   ''signed inventory differs from the scanned candidate'')) (\<lambda>_.
             let fingerprint = vp_key_fingerprint verified
             in Inr \<lparr>sr_candidate_id = sc_id candidate, sr_revision_claim = Published revision,
                     sr_content_revision = Some revision,
                     sr_source_kind = sc_source_kind candidate, sr_schema = sc_schema candidate,
                     sr_session_id = sc_session_id candidate, sr_locator = sc_locator candidate,
                     sr_inventory = sc_inventory candidate,
                     sr_media_plan = sc_media_plan candidate,
                     sr_provenance = DeviceSigned
                       \<lparr>ds_key_fingerprint = fingerprint, ds_revision = revision,
                        ds_payload = vp_payload verified, ds_signature = vp_signature verified,
                        ds_public_key = vp_public_key verified\<rparr>,
                     sr_trust_verdicts =
                       \<lparr>tv_inventory_hashes = InventoryPending,
                        tv_manifest_signature = SignatureValid fingerprint,
                        tv_producer_key = KeyTrusted fingerprint\<rparr>\<rparr>)))))"

definition check_receipt ::
    "scan_candidate \<Rightarrow> candidate_revision \<Rightarrow> unsigned_admission_receipt \<Rightarrow> admission_error + unit"
  where
  "check_receipt candidate revision receipt =
     and_then (ensure (ar_candidate_id receipt = sc_id candidate)
        (UnsignedAdmissionReceiptMismatch ''candidate id differs from the receipt'')) (\<lambda>_.
     and_then (ensure (ar_media_generation_id receipt = locator_generation_id (sc_locator candidate))
        (UnsignedAdmissionReceiptMismatch ''media generation differs from the receipt'')) (\<lambda>_.
     ensure (ar_candidate_revision receipt = revision)
        (UnsignedAdmissionReceiptMismatch
           ''provisional candidate revision differs from the receipt'')))"

definition admit_unsigned ::
    "scan_candidate \<Rightarrow> unsigned_admission_receipt option \<Rightarrow> admission_error + source_recording" where
  "admit_unsigned candidate receipt =
     and_then (ensure (\<not> is_signed (sc_schema candidate)) WrongProvenanceForSchema) (\<lambda>_.
     case sc_revision_claim candidate of
       Published _ \<Rightarrow> Inl UnsignedCandidateAlreadyPublished
     | Provisional revision \<Rightarrow>
         and_then (ensure (is_accepted (sc_validation_report candidate)
               \<and> sc_readiness candidate \<in> {ReadyUnsignedRequiresPolicy, PendingArtifactValidation})
            (CandidateNotAdmissible (sc_readiness candidate))) (\<lambda>_.
         and_then (case receipt of None \<Rightarrow> Inr ()
                   | Some r \<Rightarrow> check_receipt candidate revision r) (\<lambda>_.
         Inr \<lparr>sr_candidate_id = sc_id candidate, sr_revision_claim = sc_revision_claim candidate,
              sr_content_revision = None, sr_source_kind = sc_source_kind candidate,
              sr_schema = sc_schema candidate, sr_session_id = sc_session_id candidate,
              sr_locator = sc_locator candidate, sr_inventory = sc_inventory candidate,
              sr_media_plan = sc_media_plan candidate,
              sr_provenance = LocallyValidatedUnsigned
                \<lparr>lu_source_schema = sc_schema candidate,
                 lu_validation_report = sc_validation_report candidate,
                 lu_computed_inventory_digest = None, lu_user_admission_receipt = receipt\<rparr>,
              sr_trust_verdicts = pending_unsigned\<rparr>)))"

text \<open>
  \<open>with_verified_inventory\<close>. Its \<open>expect\<close> cannot fail: an inventory digest has the
  shape of a content revision (\<open>digest_is_revision\<close>).
\<close>

definition with_verified_inventory ::
    "source_recording \<Rightarrow> inventory_digest \<Rightarrow> source_recording" where
  "with_verified_inventory source digest =
     (let source = source\<lparr>sr_trust_verdicts :=
                     (sr_trust_verdicts source)\<lparr>tv_inventory_hashes := InventoryValid digest\<rparr>\<rparr>
      in case sr_provenance source of
           DeviceSigned _ \<Rightarrow> source
         | LocallyValidatedUnsigned local \<Rightarrow>
             source\<lparr>sr_provenance := LocallyValidatedUnsigned
                      (local\<lparr>lu_computed_inventory_digest := Some digest\<rparr>),
                    sr_revision_claim := Published digest,
                    sr_content_revision := Some digest\<rparr>)"

definition source_total_bytes :: "source_recording \<Rightarrow> u64" where
  "source_total_bytes source = fold (\<lambda>a total. saturating_add total (ac_size_bytes a)) (sr_inventory source) 0"

record local_source_receipt =
  lr_content_revision :: source_content_revision
  lr_inventory_digest :: inventory_digest
  lr_sealed_relative_path :: safe_relative_path
  lr_commit_receipt :: string
  lr_provenance :: source_provenance
  lr_committed_at :: string

definition new_local_source_receipt ::
    "source_recording \<Rightarrow> safe_relative_path \<Rightarrow> string \<Rightarrow> string
     \<Rightarrow> source_model_error + local_source_receipt" where
  "new_local_source_receipt recording sealed commit_receipt committed_at =
     (case sr_content_revision recording of
        None \<Rightarrow> Inl InventoryNotVerified
      | Some revision \<Rightarrow>
          (case tv_inventory_hashes (sr_trust_verdicts recording) of
             InventoryValid digest \<Rightarrow>
               and_then (validate_short_text ''local source commit receipt'' commit_receipt 512) (\<lambda>_.
               and_then (validate_short_text ''local source committed_at'' committed_at 128) (\<lambda>_.
               Inr \<lparr>lr_content_revision = revision, lr_inventory_digest = digest,
                    lr_sealed_relative_path = sealed, lr_commit_receipt = commit_receipt,
                    lr_provenance = sr_provenance recording, lr_committed_at = committed_at\<rparr>))
           | _ \<Rightarrow> Inl InventoryNotVerified))"

section \<open>What admission establishes\<close>

lemma first_duplicate_iff:
  "first_duplicate ids paths as = Inr () \<longleftrightarrow>
     distinct (map ac_id as) \<and> distinct (map ac_relative_path as)
     \<and> set (map ac_id as) \<inter> set ids = {}
     \<and> set (map ac_relative_path as) \<inter> set paths = {}"
proof (induction as arbitrary: ids paths)
  case (Cons a as)
  show ?case
    using Cons.IH [of "ac_id a # ids" "ac_relative_path a # paths"] by auto
qed simp

lemma validate_inventory_iff:
  "validate_inventory as = Inr () \<longleftrightarrow>
     as \<noteq> [] \<and> distinct (map ac_id as) \<and> distinct (map ac_relative_path as)"
  by (simp add: validate_inventory_def first_duplicate_iff)

lemma check_receipt_iff:
  "check_receipt c revision r = Inr () \<longleftrightarrow>
     ar_candidate_id r = sc_id c \<and> ar_candidate_revision r = revision
     \<and> ar_media_generation_id r = locator_generation_id (sc_locator c)"
  by (auto simp: check_receipt_def)

lemma admit_unsigned_iff:
  "admit_unsigned c receipt = Inr s \<longleftrightarrow>
     \<not> is_signed (sc_schema c) \<and> is_accepted (sc_validation_report c)
     \<and> sc_readiness c \<in> {ReadyUnsignedRequiresPolicy, PendingArtifactValidation}
     \<and> (\<exists>revision. sc_revision_claim c = Provisional revision
          \<and> (\<forall>r. receipt = Some r \<longrightarrow> check_receipt c revision r = Inr ()))
     \<and> s = \<lparr>sr_candidate_id = sc_id c, sr_revision_claim = sc_revision_claim c,
            sr_content_revision = None, sr_source_kind = sc_source_kind c,
            sr_schema = sc_schema c, sr_session_id = sc_session_id c, sr_locator = sc_locator c,
            sr_inventory = sc_inventory c, sr_media_plan = sc_media_plan c,
            sr_provenance = LocallyValidatedUnsigned
              \<lparr>lu_source_schema = sc_schema c, lu_validation_report = sc_validation_report c,
               lu_computed_inventory_digest = None, lu_user_admission_receipt = receipt\<rparr>,
            sr_trust_verdicts = pending_unsigned\<rparr>"
  by (auto simp: admit_unsigned_def split: source_revision_claim.splits option.splits)

lemma admit_device_signedD:
  assumes "admit_device_signed c v = Inr s"
  shows "sc_schema c = SignedPublicationV1" and "sc_session_id c = vp_session_id v"
    and "\<exists>m. sc_signed_publication c = Some m \<and> publication_is_exact m v"
    and "list_all2 claim_matches_file (sc_inventory c) (vp_files v)"
    and "sc_revision_claim c = Published (vp_revision v)"
    and "s = \<lparr>sr_candidate_id = sc_id c, sr_revision_claim = Published (vp_revision v),
            sr_content_revision = Some (vp_revision v), sr_source_kind = sc_source_kind c,
            sr_schema = sc_schema c, sr_session_id = sc_session_id c, sr_locator = sc_locator c,
            sr_inventory = sc_inventory c, sr_media_plan = sc_media_plan c,
            sr_provenance = DeviceSigned
              \<lparr>ds_key_fingerprint = vp_key_fingerprint v, ds_revision = vp_revision v,
               ds_payload = vp_payload v, ds_signature = vp_signature v,
               ds_public_key = vp_public_key v\<rparr>,
            sr_trust_verdicts =
              \<lparr>tv_inventory_hashes = InventoryPending,
               tv_manifest_signature = SignatureValid (vp_key_fingerprint v),
               tv_producer_key = KeyTrusted (vp_key_fingerprint v)\<rparr>\<rparr>"
proof -
  have parsed: "parse_content_revision r = Inr r' \<Longrightarrow> r' = r" for r r'
    by (auto simp: parse_content_revision_def parse_prefixed_def)
  have stable: "stable_revision claim = Some r \<Longrightarrow> claim = Published r" for claim r
    by (cases claim) auto
  obtain m revision where parts:
    "sc_schema c = SignedPublicationV1" "sc_session_id c = vp_session_id v"
    "sc_signed_publication c = Some m" "publication_is_exact m v"
    "parse_content_revision (vp_revision v) = Inr revision"
    "stable_revision (sc_revision_claim c) = Some revision"
    "length (sc_inventory c) = length (vp_files v)"
    "list_all (\<lambda>(claim, vfile). claim_matches_file claim vfile)
       (zip (sc_inventory c) (vp_files v))"
    using assms
    by (auto simp: admit_device_signed_def Let_def split: option.splits sum.splits)
  moreover have revision: "revision = vp_revision v"
    using parsed [OF parts(5)] .
  ultimately show "sc_schema c = SignedPublicationV1" "sc_session_id c = vp_session_id v"
    "\<exists>m. sc_signed_publication c = Some m \<and> publication_is_exact m v"
    "list_all2 claim_matches_file (sc_inventory c) (vp_files v)"
    "sc_revision_claim c = Published (vp_revision v)"
    using stable [OF parts(6)] by (auto simp: list_all2_iff list_all_iff)
  show "s = \<lparr>sr_candidate_id = sc_id c, sr_revision_claim = Published (vp_revision v),
            sr_content_revision = Some (vp_revision v), sr_source_kind = sc_source_kind c,
            sr_schema = sc_schema c, sr_session_id = sc_session_id c, sr_locator = sc_locator c,
            sr_inventory = sc_inventory c, sr_media_plan = sc_media_plan c,
            sr_provenance = DeviceSigned
              \<lparr>ds_key_fingerprint = vp_key_fingerprint v, ds_revision = vp_revision v,
               ds_payload = vp_payload v, ds_signature = vp_signature v,
               ds_public_key = vp_public_key v\<rparr>,
            sr_trust_verdicts =
              \<lparr>tv_inventory_hashes = InventoryPending,
               tv_manifest_signature = SignatureValid (vp_key_fingerprint v),
               tv_producer_key = KeyTrusted (vp_key_fingerprint v)\<rparr>\<rparr>"
    using assms parts by (simp add: admit_device_signed_def Let_def revision)
qed

text \<open>Frame conditions of \<open>with_verified_inventory\<close>.\<close>

lemma with_verified_inventory_simps [simp]:
  "sr_inventory (with_verified_inventory s d) = sr_inventory s"
  "sr_locator (with_verified_inventory s d) = sr_locator s"
  "sr_session_id (with_verified_inventory s d) = sr_session_id s"
  "tv_inventory_hashes (sr_trust_verdicts (with_verified_inventory s d)) = InventoryValid d"
  "tv_manifest_signature (sr_trust_verdicts (with_verified_inventory s d))
     = tv_manifest_signature (sr_trust_verdicts s)"
  by (auto simp: with_verified_inventory_def Let_def split: source_provenance.splits)

text \<open>The revision an admitted source has once its inventory is verified.\<close>

definition verified_revision :: "source_recording \<Rightarrow> inventory_digest \<Rightarrow> source_content_revision" where
  "verified_revision s d =
     (case sr_provenance s of DeviceSigned ds \<Rightarrow> ds_revision ds | LocallyValidatedUnsigned _ \<Rightarrow> d)"

section \<open>Properties\<close>

text \<open>
  An unsigned recording is admitted exactly when its schema is unsigned, its revision
  is still provisional, every validation check passed, its readiness is one of the two
  admissible ones, and a receipt, when there is one, names this candidate, this media
  generation and this provisional revision: a user's decision cannot be replayed for
  another card. What is admitted carries the whole scanned inventory and claims no trust.
\<close>

theorem unsigned_admission_exact:
  "(\<exists>s. admit_unsigned c receipt = Inr s) \<longleftrightarrow>
     \<not> is_signed (sc_schema c) \<and> is_accepted (sc_validation_report c)
     \<and> (sc_readiness c = ReadyUnsignedRequiresPolicy \<or> sc_readiness c = PendingArtifactValidation)
     \<and> (\<exists>revision. sc_revision_claim c = Provisional revision
          \<and> (case receipt of None \<Rightarrow> True
             | Some r \<Rightarrow> ar_candidate_id r = sc_id c \<and> ar_candidate_revision r = revision
                 \<and> ar_media_generation_id r = locator_generation_id (sc_locator c)))"
  by (auto simp: admit_unsigned_iff check_receipt_iff split: option.splits)

text \<open>
  C22. A signed recording is admitted only as the exact publication that was verified: the
  session, the signed bytes, the signature and the key fingerprint are those of the
  verified publication, every inventory claim equals the verified file at its place in
  identifier, path, size and hash with nothing added or left out, and the recorded
  provenance, revision and trusted key are the verified ones, never those the medium
  presented.
\<close>

theorem signed_admission_is_verified_publication:
  assumes "admit_device_signed c v = Inr s"
  shows "(\<exists>m. sc_signed_publication c = Some m \<and> sm_payload m = vp_payload v
            \<and> sm_signature_hex m = digest_to_hex (vp_signature v)
            \<and> sm_presented_key_fingerprint m = vp_key_fingerprint v)
    \<and> sr_session_id s = vp_session_id v
    \<and> sr_content_revision s = Some (vp_revision v)
    \<and> sr_provenance s = DeviceSigned
        \<lparr>ds_key_fingerprint = vp_key_fingerprint v, ds_revision = vp_revision v,
         ds_payload = vp_payload v, ds_signature = vp_signature v, ds_public_key = vp_public_key v\<rparr>
    \<and> tv_producer_key (sr_trust_verdicts s) = KeyTrusted (vp_key_fingerprint v)
    \<and> list_all2 (\<lambda>claim vfile. ac_id claim = vf_id vfile
          \<and> ac_relative_path claim = vf_display_path vfile
          \<and> ac_size_bytes claim = vf_size_bytes vfile
          \<and> ac_source_sha256 claim = Some (vf_sha256 vfile)) (sr_inventory s) (vp_files v)"
proof -
  note facts = admit_device_signedD [OF assms]
  from facts(3) obtain m where "sc_signed_publication c = Some m" "publication_is_exact m v"
    by blast
  with facts show ?thesis
    by (simp add: publication_is_exact_def envelope_def Let_def claim_matches_file_def [abs_def])
qed

definition sample_locator :: media_locator where
  "sample_locator =
     \<lparr>ml_source_id = ''card'', ml_media_generation = None, ml_candidate_relative_path = None\<rparr>"

definition sample_plan :: source_media_plan where
  "sample_plan =
     \<lparr>mp_layout = LeftRightSideBySide, mp_codec = Mjpeg, mp_frame_rate = None,
      mp_frame_width = None, mp_frame_height = None, mp_segment_count = 1,
      mp_reset_timestamps = False, mp_raw_frame_count = None, mp_legacy_total_frames = None\<rparr>"

definition sample_revision :: string where
  "sample_revision = ''sha256:'' @ replicate 64 (CHR ''a'')"

definition sample_candidate :: scan_candidate where
  "sample_candidate =
     \<lparr>sc_id = ''cand'', sc_revision_claim = Published sample_revision,
      sc_source_kind = RemovableMedia, sc_schema = SignedPublicationV1, sc_session_id = ''s1'',
      sc_locator = sample_locator,
      sc_inventory = [\<lparr>ac_id = ''f1'', ac_relative_path = ''left.mjpeg'', ac_role = VideoLeft,
                      ac_size_bytes = 10, ac_source_sha256 = Some (replicate 64 (CHR ''b'')),
                      ac_media_type = None\<rparr>],
      sc_media_plan = sample_plan, sc_trust_verdicts = pending_signed ''key'',
      sc_readiness = ReadySigned, sc_validation_report = [],
      sc_signed_publication = Some
        \<lparr>sm_session_id = ''s1'', sm_revision = sample_revision, sm_captured_at = [],
         sm_published_at = [], sm_duration_bits = 0, sm_total_bytes = 10, sm_video_bytes = 10,
         sm_files = [], sm_payload = ''{}'', sm_signature_hex = [], sm_public_key_hex = [],
         sm_presented_key_fingerprint = ''key'', sm_inline_key_version = None\<rparr>\<rparr>"

definition sample_verified :: verified_publication where
  "sample_verified =
     \<lparr>vp_session_id = ''s1'', vp_revision = sample_revision, vp_key_fingerprint = ''key'',
      vp_payload = ''{}'', vp_signature = [], vp_public_key = [],
      vp_files = [\<lparr>vf_id = ''f1'', vf_display_path = ''left.mjpeg'', vf_size_bytes = 10,
                  vf_sha256 = replicate 64 (CHR ''b'')\<rparr>]\<rparr>"

lemma sample_revision_parses: "parse_content_revision sample_revision = Inr sample_revision"
  by (simp add: parse_content_revision_def parse_prefixed_def validate_prefixed_sha256_def
      sample_revision_def is_sha256_hex_def list_all_iff is_lower_hex_char_def
      is_lower_hex_letter_def)

lemma sample_admitted: "\<exists>s. admit_device_signed sample_candidate sample_verified = Inr s"
  by (simp add: admit_device_signed_def sample_candidate_def sample_verified_def
      publication_is_exact_def envelope_def digest_to_hex_def sample_revision_parses Let_def
      claim_matches_file_def)

theorem signed_admission_is_verified_publication_witness:
  "\<exists>s. admit_device_signed sample_candidate sample_verified = Inr s
     \<and> sr_content_revision s = Some sample_revision
     \<and> tv_producer_key (sr_trust_verdicts s) = KeyTrusted ''key''"
proof -
  obtain s where s: "admit_device_signed sample_candidate sample_verified = Inr s"
    using sample_admitted by blast
  with signed_admission_is_verified_publication [OF s] show ?thesis
    by (simp add: sample_verified_def)
qed

end
