(* ===== verification/Import_Job.thy ===== *)
theory Import_Job
  imports Source_Model
begin

text \<open>
  The durable import job (\<open>ingest/job.rs\<close>): the immutable request with its natural key and
  admission checks, the snapshot the database keeps, the command reducer, and the rebuild
  of a job from its snapshot. JSON serialisation followed by SHA-256 (the request digest)
  is the parameter \<open>digest\<close> of the constructor.
\<close>

section \<open>The immutable request\<close>

datatype unsigned_import_policy =
  ImpPolicyReject | ImpRequireAdmissionReceipt | ImpAllowExplicitSelection

record import_policy =
  ip_unsigned :: unsigned_import_policy
  ip_local_space_budget :: u64
  ip_safety_margin :: u64

datatype import_natural_key =
    KeyDeviceSigned string string source_content_revision
  | KeyUnsignedContent source_content_revision
  | KeyProvisional candidate_revision

fun canonical_key :: "import_natural_key \<Rightarrow> string" where
  "canonical_key (KeyDeviceSigned fingerprint session revision) =
     ''import:'' @ ''device_signed:'' @ text_frame fingerprint @ text_frame session
       @ text_frame revision"
| "canonical_key (KeyUnsignedContent revision) =
     ''import:'' @ ''unsigned_content:'' @ text_frame revision"
| "canonical_key (KeyProvisional revision) = ''import:'' @ ''provisional:'' @ text_frame revision"

record import_file_spec =
  if_file_id :: source_artifact_id
  if_relative_path :: safe_relative_path
  if_role :: source_artifact_role
  if_expected_size :: u64
  if_expected_sha256 :: "string option"

definition import_file_of_claim :: "source_artifact_claim \<Rightarrow> import_file_spec" where
  "import_file_of_claim claim =
     \<lparr>if_file_id = ac_id claim, if_relative_path = ac_relative_path claim, if_role = ac_role claim,
      if_expected_size = ac_size_bytes claim, if_expected_sha256 = ac_source_sha256 claim\<rparr>"

record import_spec =
  is_job_id :: import_job_id
  is_natural_key :: import_natural_key
  is_request_digest :: string
  is_source :: source_recording
  is_locator :: media_locator
  is_files :: "import_file_spec list"
  is_total_bytes :: u64
  is_policy :: import_policy

datatype import_spec_error =
    ImpEmptyInventory
  | ImpTotalBytesOverflow
  | ImpInsufficientLocalSpace u64 u64
  | ImpUnsignedRejected
  | ImpUnsignedReceiptRequired
  | ImpProvenanceRevisionMismatch

definition enforce_unsigned_policy ::
    "source_recording \<Rightarrow> import_policy \<Rightarrow> import_spec_error + unit" where
  "enforce_unsigned_policy source policy =
     (case sr_provenance source of
        DeviceSigned _ \<Rightarrow> Inr ()
      | LocallyValidatedUnsigned local \<Rightarrow>
          (case ip_unsigned policy of
             ImpPolicyReject \<Rightarrow> Inl ImpUnsignedRejected
           | ImpRequireAdmissionReceipt \<Rightarrow>
               ensure (lu_user_admission_receipt local \<noteq> None) ImpUnsignedReceiptRequired
           | ImpAllowExplicitSelection \<Rightarrow> Inr ()))"

fun checked_sum :: "u64 \<Rightarrow> import_file_spec list \<Rightarrow> import_spec_error + u64" where
  "checked_sum acc [] = Inr acc"
| "checked_sum acc (f # fs) =
     (case checked_add acc (if_expected_size f) of
        None \<Rightarrow> Inl ImpTotalBytesOverflow
      | Some acc2 \<Rightarrow> checked_sum acc2 fs)"

definition import_natural_key_of ::
    "source_recording \<Rightarrow> import_spec_error + import_natural_key" where
  "import_natural_key_of source =
     (case (sr_provenance source, sr_revision_claim source) of
        (DeviceSigned ds, Published revision) \<Rightarrow>
          Inr (KeyDeviceSigned (ds_key_fingerprint ds) (sr_session_id source) revision)
      | (LocallyValidatedUnsigned _, Published revision) \<Rightarrow> Inr (KeyUnsignedContent revision)
      | (LocallyValidatedUnsigned _, Provisional revision) \<Rightarrow> Inr (KeyProvisional revision)
      | _ \<Rightarrow> Inl ImpProvenanceRevisionMismatch)"

definition new_import_spec ::
    "(import_natural_key \<times> source_schema \<times> source_media_plan \<times> import_file_spec list \<times> u64 \<Rightarrow> string)
     \<Rightarrow> import_job_id \<Rightarrow> source_recording \<Rightarrow> import_policy \<Rightarrow> import_spec_error + import_spec" where
  "new_import_spec digest job source policy =
     and_then (enforce_unsigned_policy source policy) (\<lambda>_.
     let files = map import_file_of_claim (sr_inventory source)
     in and_then (ensure (files \<noteq> []) ImpEmptyInventory) (\<lambda>_.
        and_then (checked_sum 0 files) (\<lambda>total.
        and_then (case checked_add total (ip_safety_margin policy) of
                    None \<Rightarrow> Inl ImpTotalBytesOverflow | Some r \<Rightarrow> Inr r) (\<lambda>required.
        and_then (ensure (\<not> ip_local_space_budget policy < required)
           (ImpInsufficientLocalSpace required (ip_local_space_budget policy))) (\<lambda>_.
        and_then (import_natural_key_of source) (\<lambda>key.
        Inr \<lparr>is_job_id = job, is_natural_key = key,
             is_request_digest =
               digest (key, sr_schema source, sr_media_plan source, files, total),
             is_source = source, is_locator = sr_locator source, is_files = files,
             is_total_bytes = total, is_policy = policy\<rparr>))))))"

section \<open>State and snapshot\<close>

datatype import_desired_state = ImpRunning | ImpDesiredPaused | ImpDesiredCancelled

datatype import_resume_point = ResumePreflight | ResumeCopy

datatype import_job_state =
    ImpQueued
  | ImpWaitingForMedia import_resume_point
  | ImpPreflighting
  | ImpCopying
  | ImpVerifying
  | ImpCommitting
  | ImpLocalVerified
  | ImpPausing import_resume_point
  | ImpPaused import_resume_point
  | ImpCancelling
  | ImpCancelled
  | ImpRetryWait import_resume_point
  | ImpFailed

fun import_terminal :: "import_job_state \<Rightarrow> bool" where
  "import_terminal ImpLocalVerified = True"
| "import_terminal ImpCancelled = True"
| "import_terminal ImpFailed = True"
| "import_terminal _ = False"

fun needs_media :: "import_job_state \<Rightarrow> bool" where
  "needs_media (ImpWaitingForMedia _) = True"
| "needs_media ImpPreflighting = True"
| "needs_media ImpCopying = True"
| "needs_media _ = False"

record import_file_checkpoint =
  ck_file_id :: source_artifact_id
  ck_durable_offset :: u64
  ck_expected_size :: u64
  ck_source_sha256 :: "string option"
  ck_target_sha256 :: "string option"
  ck_verified :: bool

definition checkpoint_of_spec :: "import_file_spec \<Rightarrow> import_file_checkpoint" where
  "checkpoint_of_spec f =
     \<lparr>ck_file_id = if_file_id f, ck_durable_offset = 0, ck_expected_size = if_expected_size f,
      ck_source_sha256 = None, ck_target_sha256 = None, ck_verified = False\<rparr>"

datatype import_failure_code =
    ImpSourceUnavailableCode | ImpMediaChanged | ImpUnsafePath | ImpPermissionDenied
  | ImpNoLocalSpace | ImpIntegrityMismatchCode | ImpSourceRevisionMismatch | ImpCommitFailed
  | ImpResourceStuck | ImpInternal

record import_failure =
  fl_code :: import_failure_code
  fl_message :: string
  fl_retryable :: bool

datatype import_job_error = SnapshotDoesNotMatchSpec | InvalidFailureMessage

definition new_import_failure ::
    "import_failure_code \<Rightarrow> string \<Rightarrow> bool \<Rightarrow> import_job_error + import_failure" where
  "new_import_failure code message retryable =
     and_then (ensure (short_text 1024 message) InvalidFailureMessage) (\<lambda>_.
     Inr \<lparr>fl_code = code, fl_message = message, fl_retryable = retryable\<rparr>)"

record import_snapshot =
  im_job_id :: import_job_id
  im_request_digest :: string
  im_natural_key :: import_natural_key
  im_state :: import_job_state
  im_desired_state :: import_desired_state
  im_version :: u64
  im_attempt :: u32
  im_checkpoints :: "import_file_checkpoint list"
  im_active_locator :: "media_locator option"
  im_verified_source :: "source_recording option"
  im_local_receipt :: "local_source_receipt option"
  im_failure :: "import_failure option"

definition import_durable_bytes :: "import_snapshot \<Rightarrow> u64" where
  "import_durable_bytes snap =
     fold (\<lambda>ck total. saturating_add total (min (ck_durable_offset ck) (ck_expected_size ck)))
       (im_checkpoints snap) 0"

section \<open>Commands\<close>

datatype import_command =
    ImpStart
  | ImpResetProgressForSource source_revision_claim
  | ImpSourceAvailable media_locator source_revision_claim
  | ImpSourceUnavailable
  | ImpPreflightPassed
  | ImpCopyCheckpoint source_artifact_id u64
  | ImpCopyFinished
  | ImpFileVerified source_artifact_id string string
  | ImpVerificationPassed inventory_digest
  | ImpCommitSucceeded local_source_receipt
  | ImpRetryableFailure import_failure
  | ImpPermanentFailure import_failure
  | ImpRequestPause
  | ImpPauseCompleted
  | ImpResume
  | ImpRequestCancel
  | ImpCancellationCompleted
  | ImpRetry

datatype import_control_command = ImpCtlPause | ImpCtlResume | ImpCtlCancel | ImpCtlRetry

fun control_to_command :: "import_control_command \<Rightarrow> import_command" where
  "control_to_command ImpCtlPause = ImpRequestPause"
| "control_to_command ImpCtlResume = ImpResume"
| "control_to_command ImpCtlCancel = ImpRequestCancel"
| "control_to_command ImpCtlRetry = ImpRetry"

datatype import_effect =
    ImpPersistSnapshot
  | ImpSchedule
  | ImpStartPreflight media_locator
  | ImpStartCopy media_locator "(source_artifact_id \<times> u64) list"
  | ImpStartVerification
  | ImpStartCommit source_recording
  | ImpCancelIo
  | ImpScheduleRetry
  | ImpPublishLocalVerified local_source_receipt

datatype import_reject_reason =
    ImpTerminal
  | ImpIllegalInState
  | ImpStaleOrRegressedCheckpoint
  | ImpUnknownFile
  | ImpCopyIncomplete
  | ImpInvalidDigest
  | ImpIntegrityMismatch
  | ImpReceiptMismatch
  | ImpFailureRetryabilityMismatch

datatype import_command_outcome =
  ImpApplied | ImpNoChange | ImpRejected import_reject_reason

record import_decision =
  id_outcome :: import_command_outcome
  id_effects :: "import_effect list"
  id_snapshot :: import_snapshot

record import_job =
  ij_spec :: import_spec
  ij_snapshot :: import_snapshot

definition new_import_job :: "import_spec \<Rightarrow> import_job" where
  "new_import_job spec =
     \<lparr>ij_spec = spec,
      ij_snapshot =
        \<lparr>im_job_id = is_job_id spec, im_request_digest = is_request_digest spec,
         im_natural_key = is_natural_key spec, im_state = ImpQueued,
         im_desired_state = ImpRunning, im_version = 0, im_attempt = 0,
         im_checkpoints = map checkpoint_of_spec (is_files spec),
         im_active_locator = Some (is_locator spec), im_verified_source = None,
         im_local_receipt = None, im_failure = None\<rparr>\<rparr>"

definition import_from_snapshot ::
    "import_spec \<Rightarrow> import_snapshot \<Rightarrow> import_job_error + import_job" where
  "import_from_snapshot spec snap =
     (if im_job_id snap \<noteq> is_job_id spec
        \<or> im_request_digest snap \<noteq> is_request_digest spec
        \<or> im_natural_key snap \<noteq> is_natural_key spec
        \<or> length (im_checkpoints snap) \<noteq> length (is_files spec)
        \<or> list_ex (\<lambda>(ck, f). ck_file_id ck \<noteq> if_file_id f
              \<or> ck_expected_size ck \<noteq> if_expected_size f
              \<or> ck_durable_offset ck > ck_expected_size ck)
            (zip (im_checkpoints snap) (is_files spec))
      then Inl SnapshotDoesNotMatchSpec
      else Inr \<lparr>ij_spec = spec, ij_snapshot = snap\<rparr>)"

section \<open>The reducer\<close>

definition resume_offsets :: "import_snapshot \<Rightarrow> (source_artifact_id \<times> u64) list" where
  "resume_offsets snap =
     map (\<lambda>ck. (ck_file_id ck, ck_durable_offset ck))
       (filter (\<lambda>ck. \<not> ck_verified ck) (im_checkpoints snap))"

fun resume_point :: "import_job_state \<Rightarrow> import_resume_point" where
  "resume_point ImpCopying = ResumeCopy"
| "resume_point ImpVerifying = ResumeCopy"
| "resume_point ImpCommitting = ResumeCopy"
| "resume_point (ImpPausing ResumeCopy) = ResumeCopy"
| "resume_point (ImpPaused ResumeCopy) = ResumeCopy"
| "resume_point (ImpRetryWait ResumeCopy) = ResumeCopy"
| "resume_point _ = ResumePreflight"

text \<open>
  \<open>iter_mut().find(p)\<close> followed by an assignment: the first element that satisfies
  \<open>p\<close> is replaced, or there is none. The second version runs along a second list.
\<close>

fun update_first :: "('a \<Rightarrow> bool) \<Rightarrow> ('a \<Rightarrow> 'e + 'a) \<Rightarrow> 'e \<Rightarrow> 'a list \<Rightarrow> 'e + 'a list" where
  "update_first p f e [] = Inl e"
| "update_first p f e (x # xs) =
     (if p x then and_then (f x) (\<lambda>y. Inr (y # xs))
      else and_then (update_first p f e xs) (\<lambda>ys. Inr (x # ys)))"

fun update_first_zip ::
    "('b \<Rightarrow> bool) \<Rightarrow> ('b \<Rightarrow> 'a \<Rightarrow> 'e + 'a) \<Rightarrow> 'e \<Rightarrow> 'b list \<Rightarrow> 'a list \<Rightarrow> 'e + 'a list" where
  "update_first_zip p f e (b # bs) (x # xs) =
     (if p b then and_then (f b x) (\<lambda>y. Inr (y # xs))
      else and_then (update_first_zip p f e bs xs) (\<lambda>ys. Inr (x # ys)))"
| "update_first_zip p f e _ _ = Inl e"

definition reset_checkpoint :: "import_file_checkpoint \<Rightarrow> import_file_checkpoint" where
  "reset_checkpoint ck =
     ck\<lparr>ck_durable_offset := 0, ck_source_sha256 := None, ck_target_sha256 := None,
        ck_verified := False\<rparr>"

definition advance_checkpoint ::
    "u64 \<Rightarrow> import_file_checkpoint \<Rightarrow> import_reject_reason + import_file_checkpoint" where
  "advance_checkpoint off ck =
     and_then (ensure (\<not> (off < ck_durable_offset ck \<or> off > ck_expected_size ck))
        ImpStaleOrRegressedCheckpoint) (\<lambda>_.
     Inr (ck\<lparr>ck_durable_offset := off\<rparr>))"

definition verify_checkpoint ::
    "string \<Rightarrow> string \<Rightarrow> import_file_spec \<Rightarrow> import_file_checkpoint
     \<Rightarrow> import_reject_reason + import_file_checkpoint" where
  "verify_checkpoint source_sha target_sha f ck =
     and_then (ensure (case if_expected_sha256 f of None \<Rightarrow> True | Some s \<Rightarrow> s = source_sha)
        ImpIntegrityMismatch) (\<lambda>_.
     and_then (ensure (ck_durable_offset ck = ck_expected_size ck) ImpCopyIncomplete) (\<lambda>_.
     Inr (ck\<lparr>ck_source_sha256 := Some source_sha, ck_target_sha256 := Some target_sha,
             ck_verified := True\<rparr>)))"

type_synonym import_step = "import_reject_reason + import_snapshot \<times> import_effect list"

definition imp_start :: "import_spec \<Rightarrow> import_snapshot \<Rightarrow> import_step" where
  "imp_start spec snap =
     (let locator = (case im_active_locator snap of Some l \<Rightarrow> l | None \<Rightarrow> is_locator spec)
      in Inr (snap\<lparr>im_state := ImpPreflighting, im_active_locator := Some locator\<rparr>,
              [ImpStartPreflight locator]))"

definition imp_reset_progress ::
    "import_spec \<Rightarrow> import_snapshot \<Rightarrow> source_revision_claim \<Rightarrow> import_step" where
  "imp_reset_progress spec snap claim =
     and_then (ensure (claim = sr_revision_claim (is_source spec)) ImpIntegrityMismatch) (\<lambda>_.
     Inr (snap\<lparr>im_checkpoints := map reset_checkpoint (im_checkpoints snap),
               im_active_locator := None, im_verified_source := None, im_local_receipt := None,
               im_failure := None, im_state := ImpWaitingForMedia ResumePreflight\<rparr>, []))"

definition imp_source_available ::
    "import_spec \<Rightarrow> import_snapshot \<Rightarrow> import_resume_point \<Rightarrow> media_locator \<Rightarrow> source_revision_claim
     \<Rightarrow> import_step" where
  "imp_source_available spec snap resume_from locator claim =
     and_then (ensure (claim = sr_revision_claim (is_source spec)) ImpIntegrityMismatch) (\<lambda>_.
     let snap = snap\<lparr>im_active_locator := Some locator\<rparr>
     in case resume_from of
          ResumePreflight \<Rightarrow>
            Inr (snap\<lparr>im_state := ImpPreflighting\<rparr>, [ImpStartPreflight locator])
        | ResumeCopy \<Rightarrow>
            Inr (snap\<lparr>im_state := ImpCopying\<rparr>, [ImpStartCopy locator (resume_offsets snap)]))"

definition imp_source_unavailable :: "import_snapshot \<Rightarrow> import_step" where
  "imp_source_unavailable snap =
     Inr (snap\<lparr>im_active_locator := None,
               im_state := ImpWaitingForMedia (resume_point (im_state snap))\<rparr>, [ImpCancelIo])"

definition imp_preflight_passed :: "import_snapshot \<Rightarrow> import_step" where
  "imp_preflight_passed snap =
     (case im_active_locator snap of
        None \<Rightarrow> Inl ImpIllegalInState
      | Some locator \<Rightarrow>
          Inr (snap\<lparr>im_state := ImpCopying\<rparr>, [ImpStartCopy locator (resume_offsets snap)]))"

definition imp_copy_checkpoint ::
    "import_snapshot \<Rightarrow> source_artifact_id \<Rightarrow> u64 \<Rightarrow> import_step" where
  "imp_copy_checkpoint snap fid off =
     and_then (update_first (\<lambda>ck. ck_file_id ck = fid) (advance_checkpoint off) ImpUnknownFile
        (im_checkpoints snap)) (\<lambda>cks.
     Inr (snap\<lparr>im_checkpoints := cks\<rparr>, []))"

definition imp_copy_finished :: "import_snapshot \<Rightarrow> import_step" where
  "imp_copy_finished snap =
     and_then (ensure (\<not> list_ex (\<lambda>ck. ck_durable_offset ck \<noteq> ck_expected_size ck)
        (im_checkpoints snap)) ImpCopyIncomplete) (\<lambda>_.
     Inr (snap\<lparr>im_state := ImpVerifying\<rparr>, [ImpStartVerification]))"

definition imp_file_verified ::
    "import_spec \<Rightarrow> import_snapshot \<Rightarrow> source_artifact_id \<Rightarrow> string \<Rightarrow> string \<Rightarrow> import_step" where
  "imp_file_verified spec snap fid source_sha target_sha =
     and_then (ensure (is_sha256_hex source_sha \<and> is_sha256_hex target_sha) ImpInvalidDigest) (\<lambda>_.
     and_then (ensure (source_sha = target_sha) ImpIntegrityMismatch) (\<lambda>_.
     and_then (update_first_zip (\<lambda>f. if_file_id f = fid) (verify_checkpoint source_sha target_sha)
        ImpUnknownFile (is_files spec) (im_checkpoints snap)) (\<lambda>cks.
     Inr (snap\<lparr>im_checkpoints := cks\<rparr>, []))))"

definition imp_verification_passed ::
    "import_spec \<Rightarrow> import_snapshot \<Rightarrow> inventory_digest \<Rightarrow> import_step" where
  "imp_verification_passed spec snap digest =
     and_then (ensure (\<not> list_ex (\<lambda>ck. \<not> ck_verified ck) (im_checkpoints snap))
        ImpCopyIncomplete) (\<lambda>_.
     let verified_source = with_verified_inventory (is_source spec) digest
     in Inr (snap\<lparr>im_verified_source := Some verified_source, im_state := ImpCommitting\<rparr>,
             [ImpStartCommit verified_source]))"

definition imp_commit_succeeded :: "import_snapshot \<Rightarrow> local_source_receipt \<Rightarrow> import_step" where
  "imp_commit_succeeded snap receipt =
     (case im_verified_source snap of
        None \<Rightarrow> Inl ImpReceiptMismatch
      | Some source \<Rightarrow>
          (case sr_content_revision source of
             None \<Rightarrow> Inl ImpReceiptMismatch
           | Some revision \<Rightarrow>
               (case tv_inventory_hashes (sr_trust_verdicts source) of
                  InventoryValid digest \<Rightarrow>
                    and_then (ensure (lr_content_revision receipt = revision
                          \<and> lr_inventory_digest receipt = digest
                          \<and> lr_provenance receipt = sr_provenance source)
                       ImpReceiptMismatch) (\<lambda>_.
                    Inr (snap\<lparr>im_local_receipt := Some receipt, im_state := ImpLocalVerified,
                              im_failure := None\<rparr>, [ImpPublishLocalVerified receipt]))
                | _ \<Rightarrow> Inl ImpReceiptMismatch)))"

definition imp_retryable_failure :: "import_snapshot \<Rightarrow> import_failure \<Rightarrow> import_step" where
  "imp_retryable_failure snap failure =
     and_then (ensure (fl_retryable failure) ImpFailureRetryabilityMismatch) (\<lambda>_.
     Inr (snap\<lparr>im_failure := Some failure, im_attempt := saturating_add (im_attempt snap) 1,
               im_state := ImpRetryWait (resume_point (im_state snap))\<rparr>,
          [ImpCancelIo, ImpScheduleRetry]))"

definition imp_permanent_failure :: "import_snapshot \<Rightarrow> import_failure \<Rightarrow> import_step" where
  "imp_permanent_failure snap failure =
     and_then (ensure (\<not> fl_retryable failure) ImpFailureRetryabilityMismatch) (\<lambda>_.
     Inr (snap\<lparr>im_failure := Some failure, im_state := ImpFailed\<rparr>, [ImpCancelIo]))"

definition failure_retryable :: "import_snapshot \<Rightarrow> bool" where
  "failure_retryable snap \<longleftrightarrow>
     (case im_failure snap of None \<Rightarrow> False | Some failure \<Rightarrow> fl_retryable failure)"

text \<open>The match of \<open>reduce\<close> after its terminal guard, one equation per guarded arm.\<close>

fun reduce_active :: "import_spec \<Rightarrow> import_snapshot \<Rightarrow> import_command \<Rightarrow> import_step" where
  "reduce_active spec snap ImpStart =
     (case im_state snap of ImpQueued \<Rightarrow> imp_start spec snap | _ \<Rightarrow> Inl ImpIllegalInState)"
| "reduce_active spec snap (ImpResetProgressForSource claim) =
     (case im_state snap of
        ImpWaitingForMedia _ \<Rightarrow> imp_reset_progress spec snap claim
      | _ \<Rightarrow> Inl ImpIllegalInState)"
| "reduce_active spec snap (ImpSourceAvailable locator claim) =
     (case im_state snap of
        ImpWaitingForMedia resume_from \<Rightarrow> imp_source_available spec snap resume_from locator claim
      | _ \<Rightarrow> Inl ImpIllegalInState)"
| "reduce_active spec snap ImpSourceUnavailable =
     (if im_state snap = ImpPreflighting \<or> im_state snap = ImpCopying
      then imp_source_unavailable snap else Inl ImpIllegalInState)"
| "reduce_active spec snap ImpPreflightPassed =
     (if im_state snap = ImpPreflighting then imp_preflight_passed snap
      else Inl ImpIllegalInState)"
| "reduce_active spec snap (ImpCopyCheckpoint fid off) =
     (if im_state snap = ImpCopying then imp_copy_checkpoint snap fid off
      else Inl ImpIllegalInState)"
| "reduce_active spec snap ImpCopyFinished =
     (if im_state snap = ImpCopying then imp_copy_finished snap else Inl ImpIllegalInState)"
| "reduce_active spec snap (ImpFileVerified fid source_sha target_sha) =
     (if im_state snap = ImpVerifying then imp_file_verified spec snap fid source_sha target_sha
      else Inl ImpIllegalInState)"
| "reduce_active spec snap (ImpVerificationPassed digest) =
     (if im_state snap = ImpVerifying then imp_verification_passed spec snap digest
      else Inl ImpIllegalInState)"
| "reduce_active spec snap (ImpCommitSucceeded receipt) =
     (if im_state snap = ImpCommitting then imp_commit_succeeded snap receipt
      else Inl ImpIllegalInState)"
| "reduce_active spec snap (ImpRetryableFailure failure) =
     (if \<not> import_terminal (im_state snap) then imp_retryable_failure snap failure
      else Inl ImpIllegalInState)"
| "reduce_active spec snap (ImpPermanentFailure failure) =
     (if \<not> import_terminal (im_state snap) then imp_permanent_failure snap failure
      else Inl ImpIllegalInState)"
| "reduce_active spec snap ImpRequestPause =
     (if \<not> import_terminal (im_state snap)
      then Inr (snap\<lparr>im_desired_state := ImpDesiredPaused,
                     im_state := ImpPausing (resume_point (im_state snap))\<rparr>, [ImpCancelIo])
      else Inl ImpIllegalInState)"
| "reduce_active spec snap ImpPauseCompleted =
     (case im_state snap of
        ImpPausing resume_from \<Rightarrow> Inr (snap\<lparr>im_state := ImpPaused resume_from\<rparr>, [])
      | _ \<Rightarrow> Inl ImpIllegalInState)"
| "reduce_active spec snap ImpResume =
     (case im_state snap of
        ImpPaused _ \<Rightarrow>
          Inr (snap\<lparr>im_desired_state := ImpRunning, im_state := ImpQueued\<rparr>, [ImpSchedule])
      | _ \<Rightarrow> Inl ImpIllegalInState)"
| "reduce_active spec snap ImpRequestCancel =
     (if \<not> import_terminal (im_state snap)
      then Inr (snap\<lparr>im_desired_state := ImpDesiredCancelled, im_state := ImpCancelling\<rparr>,
                [ImpCancelIo])
      else Inl ImpIllegalInState)"
| "reduce_active spec snap ImpCancellationCompleted =
     (if im_state snap = ImpCancelling then Inr (snap\<lparr>im_state := ImpCancelled\<rparr>, [])
      else Inl ImpIllegalInState)"
| "reduce_active spec snap ImpRetry =
     (case im_state snap of
        ImpRetryWait _ \<Rightarrow>
          (if failure_retryable snap
           then Inr (snap\<lparr>im_desired_state := ImpRunning, im_failure := None,
                          im_state := ImpQueued\<rparr>, [ImpSchedule])
           else Inl ImpIllegalInState)
      | ImpFailed \<Rightarrow>
          (if failure_retryable snap
           then Inr (snap\<lparr>im_desired_state := ImpRunning, im_failure := None,
                          im_state := ImpQueued\<rparr>, [ImpSchedule])
           else Inl ImpIllegalInState)
      | _ \<Rightarrow> Inl ImpIllegalInState)"

definition reduce :: "import_spec \<Rightarrow> import_snapshot \<Rightarrow> import_command \<Rightarrow> import_step" where
  "reduce spec snap command =
     (if import_terminal (im_state snap) \<and> \<not> (command = ImpRetry \<and> im_state snap = ImpFailed)
      then Inl ImpTerminal
      else reduce_active spec snap command)"

text \<open>\<open>ImportJob::decide\<close>: the new job and the decision.\<close>

definition import_decide :: "import_job \<Rightarrow> import_command \<Rightarrow> import_job \<times> import_decision" where
  "import_decide job command =
     (let snap = ij_snapshot job
      in case reduce (ij_spec job) snap command of
           Inr (next_snap, effs) \<Rightarrow>
             if next_snap = snap
             then (job, \<lparr>id_outcome = ImpNoChange, id_effects = [], id_snapshot = snap\<rparr>)
             else let next_snap = next_snap\<lparr>im_version := saturating_add (im_version next_snap) 1\<rparr>
                  in (job\<lparr>ij_snapshot := next_snap\<rparr>,
                      \<lparr>id_outcome = ImpApplied, id_effects = ImpPersistSnapshot # effs,
                       id_snapshot = next_snap\<rparr>)
         | Inl reason \<Rightarrow>
             (job, \<lparr>id_outcome = ImpRejected reason, id_effects = [], id_snapshot = snap\<rparr>))"

section \<open>The invariant of a job\<close>

text \<open>What a checkpoint promises about its file of the request.\<close>

definition checkpoint_ok :: "import_file_checkpoint \<Rightarrow> import_file_spec \<Rightarrow> bool" where
  "checkpoint_ok ck f \<longleftrightarrow>
     ck_file_id ck = if_file_id f \<and> ck_expected_size ck = if_expected_size f
     \<and> ck_durable_offset ck \<le> ck_expected_size ck
     \<and> (ck_verified ck \<longrightarrow>
          ck_durable_offset ck = ck_expected_size ck
          \<and> (\<exists>sha. ck_source_sha256 ck = Some sha \<and> ck_target_sha256 ck = Some sha
               \<and> is_sha256_hex sha
               \<and> (case if_expected_sha256 f of None \<Rightarrow> True | Some e \<Rightarrow> e = sha)))"

definition copied :: "import_snapshot \<Rightarrow> bool" where
  "copied snap \<longleftrightarrow> list_all (\<lambda>ck. ck_durable_offset ck = ck_expected_size ck) (im_checkpoints snap)"

definition all_verified :: "import_snapshot \<Rightarrow> bool" where
  "all_verified snap \<longleftrightarrow> list_all ck_verified (im_checkpoints snap)"

definition receipt_of :: "source_recording \<Rightarrow> local_source_receipt \<Rightarrow> bool" where
  "receipt_of source r \<longleftrightarrow>
     sr_content_revision source = Some (lr_content_revision r)
     \<and> tv_inventory_hashes (sr_trust_verdicts source) = InventoryValid (lr_inventory_digest r)
     \<and> sr_provenance source = lr_provenance r"

definition import_ok :: "import_job \<Rightarrow> bool" where
  "import_ok job \<longleftrightarrow>
     (let spec = ij_spec job; snap = ij_snapshot job
      in im_job_id snap = is_job_id spec \<and> im_request_digest snap = is_request_digest spec
         \<and> im_natural_key snap = is_natural_key spec
         \<and> list_all2 checkpoint_ok (im_checkpoints snap) (is_files spec)
         \<and> (im_state snap \<in> {ImpVerifying, ImpCommitting, ImpLocalVerified} \<longrightarrow> copied snap)
         \<and> (im_state snap \<in> {ImpCommitting, ImpLocalVerified} \<longrightarrow>
              all_verified snap
              \<and> (\<exists>d. im_verified_source snap = Some (with_verified_inventory (is_source spec) d)))
         \<and> (im_state snap = ImpLocalVerified \<longrightarrow>
              (\<exists>source r. im_verified_source snap = Some source \<and> im_local_receipt snap = Some r
                 \<and> receipt_of source r))
         \<and> (im_state snap \<noteq> ImpLocalVerified \<longrightarrow> im_local_receipt snap = None)
         \<and> (im_state snap = ImpFailed \<longrightarrow> \<not> failure_retryable snap)
         \<and> (im_state snap \<in> {ImpCancelling, ImpCancelled} \<longrightarrow>
              im_desired_state snap = ImpDesiredCancelled))"

lemma update_first_list_all2:
  assumes "update_first p f e xs = Inr ys" and "list_all2 R xs bs"
    and "\<And>x y b. f x = Inr y \<Longrightarrow> R x b \<Longrightarrow> R y b"
  shows "list_all2 R ys bs"
  using assms(1,2)
proof (induction xs arbitrary: ys bs)
  case (Cons x xs)
  then show ?case using assms(3) by (auto split: if_splits simp: list_all2_Cons1)
qed simp

lemma update_first_zip_list_all2:
  assumes "update_first_zip p f e bs xs = Inr ys" and "list_all2 R xs bs"
    and "\<And>b x y. f b x = Inr y \<Longrightarrow> R x b \<Longrightarrow> R y b"
  shows "list_all2 R ys bs"
  using assms(1,2)
proof (induction bs xs arbitrary: ys rule: list_induct2')
  case (4 b bs x xs)
  then show ?case using assms(3) [of b x] by (auto split: if_splits simp: list_all2_Cons1)
qed auto

lemma update_first_zip_all:
  assumes "update_first_zip p f e bs xs = Inr ys" and "list_all P xs"
    and "\<And>b x y. f b x = Inr y \<Longrightarrow> P x \<Longrightarrow> P y"
  shows "list_all P ys"
  using assms(1,2)
proof (induction bs xs arbitrary: ys rule: list_induct2')
  case (4 b bs x xs)
  then show ?case using assms(3) [of b x] by (auto split: if_splits)
qed auto

lemma advance_checkpoint_ok:
  "advance_checkpoint off ck = Inr ck' \<Longrightarrow> checkpoint_ok ck f \<Longrightarrow> checkpoint_ok ck' f"
  by (auto simp: advance_checkpoint_def checkpoint_ok_def not_less)

lemma verify_checkpoint_ok:
  "verify_checkpoint s s f ck = Inr ck' \<Longrightarrow> is_sha256_hex s \<Longrightarrow> checkpoint_ok ck f \<Longrightarrow>
     checkpoint_ok ck' f"
  by (auto simp: verify_checkpoint_def checkpoint_ok_def)

lemma reset_checkpoint_ok: "checkpoint_ok ck f \<Longrightarrow> checkpoint_ok (reset_checkpoint ck) f"
  by (auto simp: checkpoint_ok_def reset_checkpoint_def)

lemma checkpoint_of_spec_ok: "checkpoint_ok (checkpoint_of_spec f) f"
  by (simp add: checkpoint_of_spec_def checkpoint_ok_def)

lemma new_import_job_ok: "import_ok (new_import_job spec)"
  by (simp add: import_ok_def new_import_job_def Let_def list.rel_map checkpoint_of_spec_ok
      list.rel_refl)

text \<open>A step that changes neither the checkpoints nor the identity keeps the invariant when
  its target state asks for nothing.\<close>

definition plain_state :: "import_job_state \<Rightarrow> bool" where
  "plain_state s \<longleftrightarrow>
     s \<notin> {ImpVerifying, ImpCommitting, ImpLocalVerified, ImpFailed, ImpCancelling, ImpCancelled}"

lemma import_ok_plain:
  assumes "import_ok \<lparr>ij_spec = spec, ij_snapshot = snap\<rparr>"
    and "im_job_id snap' = im_job_id snap" "im_request_digest snap' = im_request_digest snap"
    and "im_natural_key snap' = im_natural_key snap"
    and "list_all2 checkpoint_ok (im_checkpoints snap') (is_files spec)"
    and "im_local_receipt snap' = None" and "plain_state (im_state snap')"
  shows "import_ok \<lparr>ij_spec = spec, ij_snapshot = snap'\<rparr>"
  using assms by (auto simp: import_ok_def plain_state_def Let_def)

lemma import_ok_checkpoints:
  "import_ok \<lparr>ij_spec = spec, ij_snapshot = snap\<rparr> \<Longrightarrow>
     list_all2 checkpoint_ok (im_checkpoints snap) (is_files spec)"
  by (simp add: import_ok_def Let_def)

lemma import_ok_no_receipt:
  "import_ok \<lparr>ij_spec = spec, ij_snapshot = snap\<rparr> \<Longrightarrow> im_state snap \<noteq> ImpLocalVerified \<Longrightarrow>
     im_local_receipt snap = None"
  by (simp add: import_ok_def Let_def)

lemma reduce_not_terminal:
  assumes "import_ok \<lparr>ij_spec = spec, ij_snapshot = snap\<rparr>" and "reduce spec snap c = Inr r"
  shows "\<not> import_terminal (im_state snap)" and "reduce_active spec snap c = Inr r"
proof -
  have live: "\<not> import_terminal (im_state snap) \<or> (c = ImpRetry \<and> im_state snap = ImpFailed)"
    and active: "reduce_active spec snap c = Inr r"
    using assms(2) by (auto simp: reduce_def split: if_splits)
  show "reduce_active spec snap c = Inr r" by (rule active)
  have "im_state snap = ImpFailed \<Longrightarrow> \<not> failure_retryable snap"
    using assms(1) by (simp add: import_ok_def Let_def)
  with live active show "\<not> import_terminal (im_state snap)" by auto
qed

lemma reset_list_all2:
  "list_all2 checkpoint_ok cks fs \<Longrightarrow> list_all2 checkpoint_ok (map reset_checkpoint cks) fs"
  by (auto simp: list_all2_conv_all_nth reset_checkpoint_ok)

lemma copy_checkpoint_ok:
  assumes ok: "import_ok \<lparr>ij_spec = spec, ij_snapshot = snap\<rparr>" and "im_state snap = ImpCopying"
    and "imp_copy_checkpoint snap fid off = Inr (snap', effs)"
  shows "import_ok \<lparr>ij_spec = spec, ij_snapshot = snap'\<rparr>"
proof -
  obtain cks where cks: "update_first (\<lambda>ck. ck_file_id ck = fid) (advance_checkpoint off)
      ImpUnknownFile (im_checkpoints snap) = Inr cks" and snap': "snap' = snap\<lparr>im_checkpoints := cks\<rparr>"
    using assms(3) by (auto simp: imp_copy_checkpoint_def)
  have "list_all2 checkpoint_ok cks (is_files spec)"
    using update_first_list_all2 [OF cks import_ok_checkpoints [OF ok] advance_checkpoint_ok] .
  then show ?thesis
    using import_ok_no_receipt [OF ok] assms(2)
    by (intro import_ok_plain [OF ok]) (simp_all add: snap' plain_state_def)
qed

lemma file_verified_ok:
  assumes ok: "import_ok \<lparr>ij_spec = spec, ij_snapshot = snap\<rparr>" and state: "im_state snap = ImpVerifying"
    and step: "imp_file_verified spec snap fid s t = Inr (snap', effs)"
  shows "import_ok \<lparr>ij_spec = spec, ij_snapshot = snap'\<rparr>"
proof -
  obtain cks where st: "s = t" and sha: "is_sha256_hex s"
    and cks: "update_first_zip (\<lambda>f. if_file_id f = fid) (verify_checkpoint s t) ImpUnknownFile
        (is_files spec) (im_checkpoints snap) = Inr cks"
    and snap': "snap' = snap\<lparr>im_checkpoints := cks\<rparr>"
    using step by (auto simp: imp_file_verified_def)
  have ok_cks: "list_all2 checkpoint_ok cks (is_files spec)"
    by (rule update_first_zip_list_all2 [OF cks import_ok_checkpoints [OF ok]])
      (use st sha verify_checkpoint_ok in blast)
  have "copied snap" using ok state by (simp add: import_ok_def Let_def)
  then have "list_all (\<lambda>ck. ck_durable_offset ck = ck_expected_size ck) cks"
    unfolding copied_def
    by (rule update_first_zip_all [OF cks]) (auto simp: verify_checkpoint_def)
  with ok_cks state show ?thesis
    using ok by (simp add: import_ok_def Let_def snap' copied_def failure_retryable_def)
qed

lemma verification_passed_ok:
  assumes ok: "import_ok \<lparr>ij_spec = spec, ij_snapshot = snap\<rparr>" and state: "im_state snap = ImpVerifying"
    and step: "imp_verification_passed spec snap digest = Inr (snap', effs)"
  shows "import_ok \<lparr>ij_spec = spec, ij_snapshot = snap'\<rparr>"
proof -
  have "all_verified snap"
    and snap': "snap' = snap\<lparr>im_verified_source := Some (with_verified_inventory (is_source spec) digest),
        im_state := ImpCommitting\<rparr>"
    using step
    by (auto simp: imp_verification_passed_def all_verified_def Let_def list_ex_iff list_all_iff)
  then show ?thesis
    using ok state by (auto simp: import_ok_def Let_def copied_def all_verified_def)
qed

lemma commit_succeeded_ok:
  assumes ok: "import_ok \<lparr>ij_spec = spec, ij_snapshot = snap\<rparr>" and state: "im_state snap = ImpCommitting"
    and step: "imp_commit_succeeded snap receipt = Inr (snap', effs)"
  shows "import_ok \<lparr>ij_spec = spec, ij_snapshot = snap'\<rparr>"
proof -
  obtain source where "im_verified_source snap = Some source" and "receipt_of source receipt"
    and snap': "snap' = snap\<lparr>im_local_receipt := Some receipt, im_state := ImpLocalVerified,
        im_failure := None\<rparr>"
    using step
    by (auto simp: imp_commit_succeeded_def receipt_of_def
        split: option.splits inventory_hashes_verdict.splits)
  then show ?thesis
    using ok state by (auto simp: import_ok_def Let_def copied_def all_verified_def)
qed

text \<open>The commands that touch no checkpoint and end in a state that asks for nothing.\<close>

fun checkpoint_command :: "import_command \<Rightarrow> bool" where
  "checkpoint_command (ImpCopyCheckpoint _ _) = True"
| "checkpoint_command ImpCopyFinished = True"
| "checkpoint_command (ImpFileVerified _ _ _) = True"
| "checkpoint_command (ImpVerificationPassed _) = True"
| "checkpoint_command (ImpCommitSucceeded _) = True"
| "checkpoint_command (ImpPermanentFailure _) = True"
| "checkpoint_command ImpRequestCancel = True"
| "checkpoint_command ImpCancellationCompleted = True"
| "checkpoint_command _ = False"

lemma plain_command_step:
  assumes "reduce_active spec snap c = Inr (snap', effs)" and "\<not> checkpoint_command c"
    and "list_all2 checkpoint_ok (im_checkpoints snap) (is_files spec)"
    and "im_local_receipt snap = None"
  shows "plain_state (im_state snap')" and "im_local_receipt snap' = None"
    and "im_job_id snap' = im_job_id snap" and "im_request_digest snap' = im_request_digest snap"
    and "im_natural_key snap' = im_natural_key snap"
    and "list_all2 checkpoint_ok (im_checkpoints snap') (is_files spec)"
  using assms reset_list_all2 [OF assms(3)]
  by (cases c;
      force simp: plain_state_def imp_start_def imp_reset_progress_def imp_source_available_def
        imp_source_unavailable_def imp_preflight_passed_def imp_retryable_failure_def Let_def
        split: import_job_state.splits import_resume_point.splits option.splits if_splits)+

lemma reduce_ok:
  assumes ok: "import_ok \<lparr>ij_spec = spec, ij_snapshot = snap\<rparr>"
    and step: "reduce spec snap c = Inr (snap', effs)"
  shows "import_ok \<lparr>ij_spec = spec, ij_snapshot = snap'\<rparr>"
proof -
  note live = reduce_not_terminal [OF ok step]
  have no_receipt: "im_local_receipt snap = None"
    using import_ok_no_receipt [OF ok] live(1) by fastforce
  show ?thesis
  proof (cases "checkpoint_command c")
    case False
    note plain = plain_command_step [OF live(2) False import_ok_checkpoints [OF ok] no_receipt]
    show ?thesis
      by (rule import_ok_plain [OF ok]) (simp_all add: plain)
  next
    case True
    have ok': "list_all2 checkpoint_ok (im_checkpoints snap) (is_files spec)"
      by (rule import_ok_checkpoints [OF ok])
    show ?thesis
      using True live no_receipt ok
    proof (cases c)
      case (ImpCopyCheckpoint fid off)
      with live(2) show ?thesis
        using copy_checkpoint_ok [OF ok] by (auto split: if_splits)
    next
      case ImpCopyFinished
      with live(2) have "copied snap" and "snap' = snap\<lparr>im_state := ImpVerifying\<rparr>"
        by (auto simp: imp_copy_finished_def copied_def list_ex_iff list_all_iff split: if_splits)
      with ok ok' no_receipt show ?thesis
        by (simp add: import_ok_def Let_def copied_def)
    next
      case (ImpFileVerified fid s t)
      with live(2) show ?thesis
        using file_verified_ok [OF ok] by (auto split: if_splits)
    next
      case (ImpVerificationPassed digest)
      with live(2) show ?thesis
        using verification_passed_ok [OF ok] by (auto split: if_splits)
    next
      case (ImpCommitSucceeded receipt)
      with live(2) show ?thesis
        using commit_succeeded_ok [OF ok] by (auto split: if_splits)
    next
      case (ImpPermanentFailure failure)
      with live(2) have "\<not> fl_retryable failure"
        and "snap' = snap\<lparr>im_failure := Some failure, im_state := ImpFailed\<rparr>"
        by (auto simp: imp_permanent_failure_def split: if_splits)
      with ok ok' no_receipt show ?thesis
        by (simp add: import_ok_def Let_def failure_retryable_def)
    next
      case ImpRequestCancel
      with live(2) have "snap' = snap\<lparr>im_desired_state := ImpDesiredCancelled,
          im_state := ImpCancelling\<rparr>"
        by (auto split: if_splits)
      with ok ok' no_receipt show ?thesis
        by (simp add: import_ok_def Let_def)
    next
      case ImpCancellationCompleted
      with live(2) have "im_state snap = ImpCancelling" and "snap' = snap\<lparr>im_state := ImpCancelled\<rparr>"
        by (auto split: if_splits)
      with ok ok' no_receipt show ?thesis
        by (simp add: import_ok_def Let_def)
    qed auto
  qed
qed

lemma import_ok_version:
  "import_ok \<lparr>ij_spec = spec, ij_snapshot = snap\<lparr>im_version := v\<rparr>\<rparr>
     = import_ok \<lparr>ij_spec = spec, ij_snapshot = snap\<rparr>"
  by (simp add: import_ok_def Let_def copied_def all_verified_def failure_retryable_def)

lemma import_decide_ok:
  assumes "import_ok job"
  shows "import_ok (fst (import_decide job c))" and "ij_spec (fst (import_decide job c)) = ij_spec job"
proof -
  obtain spec snap where job: "job = \<lparr>ij_spec = spec, ij_snapshot = snap\<rparr>" by (cases job)
  show "ij_spec (fst (import_decide job c)) = ij_spec job"
    by (simp add: import_decide_def Let_def split: sum.split)
  show "import_ok (fst (import_decide job c))"
  proof (cases "reduce spec snap c")
    case (Inr step)
    then obtain snap' effs where step: "reduce spec snap c = Inr (snap', effs)" by (cases step) auto
    have "import_ok \<lparr>ij_spec = spec, ij_snapshot = snap'\<rparr>"
      using reduce_ok [OF _ step] assms by (simp add: job)
    with assms step show ?thesis
      by (simp add: import_decide_def Let_def job import_ok_version)
  qed (use assms in \<open>simp add: import_decide_def Let_def job\<close>)
qed

text \<open>A history of a job: the commands that were decided, in their order.\<close>

definition run_import :: "import_job \<Rightarrow> import_command list \<Rightarrow> import_job" where
  "run_import job commands = foldl (\<lambda>j c. fst (import_decide j c)) job commands"

lemma run_import_ok:
  "import_ok job \<Longrightarrow> import_ok (run_import job cs) \<and> ij_spec (run_import job cs) = ij_spec job"
  by (induction cs arbitrary: job) (simp_all add: run_import_def import_decide_ok)

lemma run_new_import_ok:
  "import_ok (run_import (new_import_job spec) cs)"
  "ij_spec (run_import (new_import_job spec) cs) = spec"
  using run_import_ok [OF new_import_job_ok [of spec], of cs] by (simp_all add: new_import_job_def)

lemma import_from_snapshot_ok:
  assumes "import_ok job"
  shows "import_from_snapshot (ij_spec job) (ij_snapshot job) = Inr job"
proof -
  have "list_all2 checkpoint_ok (im_checkpoints (ij_snapshot job)) (is_files (ij_spec job))"
    using assms by (simp add: import_ok_def Let_def)
  then have "length (im_checkpoints (ij_snapshot job)) = length (is_files (ij_spec job))"
    and "\<not> list_ex (\<lambda>(ck, f). ck_file_id ck \<noteq> if_file_id f \<or> ck_expected_size ck \<noteq> if_expected_size f
          \<or> ck_durable_offset ck > ck_expected_size ck)
        (zip (im_checkpoints (ij_snapshot job)) (is_files (ij_spec job)))"
    by (auto simp: list_all2_iff list_ex_iff checkpoint_ok_def not_less)
  with assms show ?thesis
    by (simp add: import_from_snapshot_def import_ok_def Let_def)
qed

lemma canonical_key_inj: "canonical_key k = canonical_key k' \<longleftrightarrow> k = k'"
proof -
  have frames: "text_frame a = text_frame b \<longleftrightarrow> a = b" for a b
    using text_frames.enc_eq [of a b] by simp
  have appended: "text_frame a @ r = text_frame b @ s \<longleftrightarrow> a = b \<and> r = s" for a b r s
    by (rule text_frames.append_eq) simp_all
  show ?thesis
    by (cases k; cases k') (simp_all add: frames appended)
qed

lemma checked_sum_exact:
  "checked_sum a fs = Inr t \<Longrightarrow> unat t = unat a + (\<Sum>f\<leftarrow>fs. unat (if_expected_size f))"
proof (induction fs arbitrary: a)
  case (Cons f fs)
  then obtain b where b: "checked_add a (if_expected_size f) = Some b" "checked_sum b fs = Inr t"
    by (auto split: option.splits)
  from checked_add_SomeD(1) [OF b(1)] Cons.IH [OF b(2)] show ?case by simp
qed simp

section \<open>Properties\<close>

text \<open>
  An import request is accepted only with its admission checked: an unsigned source
  passes the policy (a receipt where one is required), the inventory is not empty, the
  total is the exact sum of the file sizes with no overflow, the local budget covers it
  with the safety margin, the files of the request are the claims of the source in their
  order, and the durable key of the request is shared by no other natural key.
\<close>

theorem import_spec_sound:
  assumes "new_import_spec digest job source policy = Inr spec"
  shows "is_files spec = map import_file_of_claim (sr_inventory source) \<and> sr_inventory source \<noteq> []
    \<and> unat (is_total_bytes spec) = (\<Sum>claim\<leftarrow>sr_inventory source. unat (ac_size_bytes claim))
    \<and> unat (is_total_bytes spec) + unat (ip_safety_margin policy) \<le> unat (ip_local_space_budget policy)
    \<and> (\<forall>local. sr_provenance source = LocallyValidatedUnsigned local \<longrightarrow>
         ip_unsigned policy \<noteq> ImpPolicyReject
         \<and> (ip_unsigned policy = ImpRequireAdmissionReceipt \<longrightarrow> lu_user_admission_receipt local \<noteq> None))
    \<and> (\<forall>key. canonical_key key = canonical_key (is_natural_key spec) \<longleftrightarrow> key = is_natural_key spec)"
proof -
  let ?files = "map import_file_of_claim (sr_inventory source)"
  obtain t r k where policy: "enforce_unsigned_policy source policy = Inr ()"
    and files: "?files \<noteq> []" and t: "checked_sum 0 ?files = Inr t"
    and r: "checked_add t (ip_safety_margin policy) = Some r"
    and budget: "\<not> ip_local_space_budget policy < r"
    and spec: "is_files spec = ?files" "is_total_bytes spec = t" "is_natural_key spec = k"
    using assms by (auto simp: new_import_spec_def Let_def split: option.splits)
  have "unat t = (\<Sum>claim\<leftarrow>sr_inventory source. unat (ac_size_bytes claim))"
    using checked_sum_exact [OF t] by (simp add: import_file_of_claim_def comp_def)
  moreover have "unat t + unat (ip_safety_margin policy) \<le> unat (ip_local_space_budget policy)"
    using checked_add_SomeD(1) [OF r] budget by (simp add: not_less word_le_nat_alt)
  moreover have "\<forall>local. sr_provenance source = LocallyValidatedUnsigned local \<longrightarrow>
      ip_unsigned policy \<noteq> ImpPolicyReject
      \<and> (ip_unsigned policy = ImpRequireAdmissionReceipt \<longrightarrow> lu_user_admission_receipt local \<noteq> None)"
    using policy by (auto simp: enforce_unsigned_policy_def split: unsigned_import_policy.splits)
  ultimately show ?thesis
    using files by (simp add: spec canonical_key_inj)
qed

text \<open>
  Whatever commands reach an import job, in whatever order, the snapshot it persists
  can be read back into exactly this job, and every checkpoint describes the file at its
  place of the request: never past the expected size, and marked verified only when the
  file is complete and was hashed on both sides with the same digest, the expected one
  where the manifest gives one.
\<close>

theorem import_snapshot_restarts:
  "import_from_snapshot spec (ij_snapshot (run_import (new_import_job spec) commands))
       = Inr (run_import (new_import_job spec) commands)
   \<and> list_all2 checkpoint_ok
       (im_checkpoints (ij_snapshot (run_import (new_import_job spec) commands))) (is_files spec)"
proof -
  let ?job = "run_import (new_import_job spec) commands"
  have ok: "import_ok ?job" and spec: "ij_spec ?job = spec"
    by (rule run_new_import_ok)+
  have "list_all2 checkpoint_ok (im_checkpoints (ij_snapshot ?job)) (is_files spec)"
    using ok spec by (simp add: import_ok_def Let_def)
  with import_from_snapshot_ok [OF ok] spec show ?thesis by simp
qed

text \<open>
  C13. A job that reports the recording as locally verified has the evidence: every file of
  the request was copied to its last byte and hashed on the source and on the copy with the
  same digest, which is the expected one where the request names one, and the stored
  receipt carries the revision, digest and provenance of exactly the source whose
  inventory was verified.
\<close>

theorem import_local_verified_evidence:
  assumes "im_state (ij_snapshot (run_import (new_import_job spec) commands)) = ImpLocalVerified"
  shows "list_all2 (\<lambda>ck f. ck_file_id ck = if_file_id f
           \<and> ck_durable_offset ck = if_expected_size f
           \<and> (\<exists>sha. ck_source_sha256 ck = Some sha \<and> ck_target_sha256 ck = Some sha
                \<and> (if_expected_sha256 f = None \<or> if_expected_sha256 f = Some sha)))
        (im_checkpoints (ij_snapshot (run_import (new_import_job spec) commands))) (is_files spec)
    \<and> (\<exists>digest receipt source.
          source = with_verified_inventory (is_source spec) digest
          \<and> im_local_receipt (ij_snapshot (run_import (new_import_job spec) commands)) = Some receipt
          \<and> lr_inventory_digest receipt = digest
          \<and> sr_content_revision source = Some (lr_content_revision receipt)
          \<and> lr_provenance receipt = sr_provenance source)"
proof -
  define snap where "snap = ij_snapshot (run_import (new_import_job spec) commands)"
  have ok: "import_ok (run_import (new_import_job spec) commands)"
    and spec: "ij_spec (run_import (new_import_job spec) commands) = spec"
    by (rule run_new_import_ok)+
  have state: "im_state snap = ImpLocalVerified" using assms by (simp add: snap_def)
  obtain digest source receipt where
    checks: "list_all2 checkpoint_ok (im_checkpoints snap) (is_files spec)" "all_verified snap"
    and source: "im_verified_source snap = Some (with_verified_inventory (is_source spec) digest)"
      "im_verified_source snap = Some source"
    and receipt: "im_local_receipt snap = Some receipt" "receipt_of source receipt"
    using ok state unfolding import_ok_def Let_def snap_def [symmetric] spec by auto
  have "list_all2 (\<lambda>ck f. ck_file_id ck = if_file_id f \<and> ck_durable_offset ck = if_expected_size f
           \<and> (\<exists>sha. ck_source_sha256 ck = Some sha \<and> ck_target_sha256 ck = Some sha
                \<and> (if_expected_sha256 f = None \<or> if_expected_sha256 f = Some sha)))
        (im_checkpoints snap) (is_files spec)"
    using checks unfolding all_verified_def
    by (induction rule: list_all2_induct)
      (auto simp: checkpoint_ok_def split: option.splits, metis option.exhaust)
  moreover have "lr_inventory_digest receipt = digest"
    and "sr_content_revision source = Some (lr_content_revision receipt)"
    and "lr_provenance receipt = sr_provenance source"
    using receipt source by (auto simp: receipt_of_def)
  ultimately show ?thesis
    using source receipt unfolding snap_def [symmetric] by auto
qed

lemma reduce_keeps_version:
  assumes "reduce spec snap c = Inr (snap', effs)"
  shows "im_version snap' = im_version snap"
proof -
  have "reduce_active spec snap c = Inr (snap', effs)"
    using assms by (simp add: reduce_def split: if_splits)
  then show ?thesis
    by (cases c)
      (auto simp: imp_start_def imp_reset_progress_def imp_source_available_def
        imp_source_unavailable_def imp_preflight_passed_def imp_copy_checkpoint_def
        imp_copy_finished_def imp_file_verified_def imp_verification_passed_def
        imp_commit_succeeded_def imp_retryable_failure_def imp_permanent_failure_def Let_def
        split: import_job_state.splits import_resume_point.splits option.splits if_splits
          inventory_hashes_verdict.splits)
qed

lemma version_bump_differs:
  assumes "snap' \<noteq> snap" and "im_version snap' = im_version snap"
  shows "snap'\<lparr>im_version := v\<rparr> \<noteq> snap"
proof
  assume "snap'\<lparr>im_version := v\<rparr> = snap"
  then have "snap = snap'\<lparr>im_version := im_version snap\<rparr>" by (cases snap; cases snap') simp
  with assms show False by (cases snap; cases snap') simp
qed

text \<open>
  One decision changes the job exactly when it is applied; then the version grows by one
  (stopping at the largest \<open>u64\<close>) and the snapshot is persisted before any other effect,
  otherwise nothing changes and there is no effect. A job in a terminal state is never
  changed again, whatever the command.
\<close>

theorem import_decision_contract:
  assumes "job = run_import (new_import_job spec) commands"
    and "import_decide job c = (job', d)"
  shows "(id_outcome d = ImpApplied \<longleftrightarrow> job' \<noteq> job)
    \<and> id_effects d = (if id_outcome d = ImpApplied then ImpPersistSnapshot # tl (id_effects d) else [])
    \<and> im_version (ij_snapshot job')
        = (if id_outcome d = ImpApplied then saturating_add (im_version (ij_snapshot job)) 1
           else im_version (ij_snapshot job))
    \<and> id_snapshot d = ij_snapshot job'
    \<and> (import_terminal (im_state (ij_snapshot job)) \<longrightarrow> job' = job)"
proof (cases "reduce spec (ij_snapshot job) c")
  case (Inl reason)
  with assms show ?thesis
    using run_new_import_ok(2) [of spec commands] by (auto simp: import_decide_def Let_def)
next
  case (Inr step)
  obtain snap where job: "job = \<lparr>ij_spec = spec, ij_snapshot = snap\<rparr>"
    using assms(1) run_new_import_ok(2) [of spec commands] by (metis import_job.surjective unit.exhaust)
  with Inr obtain snap' effs where step: "reduce spec snap c = Inr (snap', effs)"
    by (cases step) auto
  have live: "\<not> import_terminal (im_state snap)"
    using reduce_not_terminal(1) [OF _ step] run_new_import_ok(1) [of spec commands]
    by (simp add: job [symmetric] assms(1))
  note bump = version_bump_differs [OF _ reduce_keeps_version [OF step]]
  show ?thesis
    using assms(2) step live bump reduce_keeps_version [OF step]
    by (auto simp: import_decide_def Let_def job split: if_splits)
qed

section \<open>A cancel that is lost\<close>

text \<open>
  A failure that is reported, or a pause that is requested, while a cancellation is under way
  is accepted: the job leaves \<open>Cancelling\<close>, the acknowledgement of the cancellation is then
  refused, and a retry (or a resume) runs the job again as if nobody had cancelled it.
\<close>

theorem import_cancel_lost:
  assumes "fl_retryable failure"
  shows "im_state (ij_snapshot (run_import (new_import_job spec)
            [ImpStart, ImpRequestCancel, ImpRetryableFailure failure, ImpCancellationCompleted, ImpRetry]))
          = ImpQueued"
    and "im_desired_state (ij_snapshot (run_import (new_import_job spec)
            [ImpStart, ImpRequestCancel, ImpRetryableFailure failure, ImpCancellationCompleted, ImpRetry]))
          = ImpRunning"
    and "id_outcome (snd (import_decide (run_import (new_import_job spec)
            [ImpStart, ImpRequestCancel, ImpRequestPause]) ImpCancellationCompleted))
          = ImpRejected ImpIllegalInState"
  using assms
  by (simp_all add: run_import_def import_decide_def reduce_def new_import_job_def Let_def imp_start_def
      imp_retryable_failure_def failure_retryable_def ensure_def)

section \<open>Witnesses\<close>

definition sample_sha :: string where
  "sample_sha = replicate 64 (CHR ''b'')"

definition sample_source :: source_recording where
  "sample_source =
     \<lparr>sr_candidate_id = ''cand'', sr_revision_claim = Provisional ''candidate'',
      sr_content_revision = None, sr_source_kind = RemovableMedia, sr_schema = RawCaptureV2,
      sr_session_id = ''s1'', sr_locator = sample_locator,
      sr_inventory = [\<lparr>ac_id = ''f1'', ac_relative_path = ''left.mjpeg'', ac_role = VideoLeft,
                      ac_size_bytes = 10, ac_source_sha256 = None, ac_media_type = None\<rparr>],
      sr_media_plan = sample_plan,
      sr_provenance = LocallyValidatedUnsigned
        \<lparr>lu_source_schema = RawCaptureV2, lu_validation_report = [],
         lu_computed_inventory_digest = None, lu_user_admission_receipt = None\<rparr>,
      sr_trust_verdicts = pending_unsigned\<rparr>"

definition sample_policy :: import_policy where
  "sample_policy =
     \<lparr>ip_unsigned = ImpAllowExplicitSelection, ip_local_space_budget = 20, ip_safety_margin = 5\<rparr>"

definition sample_import_spec :: import_spec where
  "sample_import_spec =
     \<lparr>is_job_id = ''j1'', is_natural_key = KeyProvisional ''candidate'', is_request_digest = ''d'',
      is_source = sample_source, is_locator = sample_locator,
      is_files = [\<lparr>if_file_id = ''f1'', if_relative_path = ''left.mjpeg'', if_role = VideoLeft,
                  if_expected_size = 10, if_expected_sha256 = None\<rparr>],
      is_total_bytes = 10, is_policy = sample_policy\<rparr>"

definition sample_receipt :: local_source_receipt where
  "sample_receipt =
     \<lparr>lr_content_revision = ''sha256:d'', lr_inventory_digest = ''sha256:d'',
      lr_sealed_relative_path = ''dev/s1'', lr_commit_receipt = ''published'',
      lr_provenance = sr_provenance (with_verified_inventory sample_source ''sha256:d''),
      lr_committed_at = ''now''\<rparr>"

definition sample_commands :: "import_command list" where
  "sample_commands =
     [ImpStart, ImpPreflightPassed, ImpCopyCheckpoint ''f1'' 10, ImpCopyFinished,
      ImpFileVerified ''f1'' sample_sha sample_sha, ImpVerificationPassed ''sha256:d'',
      ImpCommitSucceeded sample_receipt]"

lemma sample_sha_hex: "is_sha256_hex sample_sha"
  by (simp add: sample_sha_def is_sha256_hex_def list_all_iff is_lower_hex_char_def
      is_lower_hex_letter_def)

lemma sample_import_accepted:
  "new_import_spec (\<lambda>_. ''d'') ''j1'' sample_source sample_policy = Inr sample_import_spec"
  by (simp add: new_import_spec_def enforce_unsigned_policy_def sample_source_def sample_policy_def
      import_natural_key_of_def import_file_of_claim_def checked_add_def Let_def
      sample_import_spec_def ensure_def)

theorem import_spec_sound_witness:
  "unat (is_total_bytes sample_import_spec) = 10
   \<and> (\<forall>key. canonical_key key = canonical_key (is_natural_key sample_import_spec)
        \<longleftrightarrow> key = is_natural_key sample_import_spec)"
  using import_spec_sound [OF sample_import_accepted] by (simp add: sample_import_spec_def)

lemma sample_import_verified:
  "im_state (ij_snapshot (run_import (new_import_job sample_import_spec) sample_commands))
     = ImpLocalVerified"
  by (simp add: run_import_def sample_commands_def new_import_job_def sample_import_spec_def
      import_decide_def reduce_def imp_start_def imp_preflight_passed_def imp_copy_checkpoint_def
      checkpoint_of_spec_def advance_checkpoint_def imp_copy_finished_def imp_file_verified_def
      sample_sha_hex verify_checkpoint_def imp_verification_passed_def imp_commit_succeeded_def
      with_verified_inventory_def sample_source_def sample_receipt_def resume_offsets_def
      ensure_def Let_def)

theorem import_local_verified_evidence_witness:
  "\<exists>receipt. im_local_receipt (ij_snapshot
      (run_import (new_import_job sample_import_spec) sample_commands)) = Some receipt"
  using import_local_verified_evidence [OF sample_import_verified] by blast

theorem import_decision_contract_witness:
  "fst (import_decide (run_import (new_import_job sample_import_spec) sample_commands) ImpRequestCancel)
     = run_import (new_import_job sample_import_spec) sample_commands"
proof -
  obtain job' d where step:
    "import_decide (run_import (new_import_job sample_import_spec) sample_commands) ImpRequestCancel
       = (job', d)"
    by (cases "import_decide (run_import (new_import_job sample_import_spec) sample_commands)
        ImpRequestCancel")
  with import_decision_contract [OF refl step] sample_import_verified show ?thesis by simp
qed

end
