(* ===== verification/Rational_Time.thy ===== *)
theory Rational_Time
  imports Framing
begin

text \<open>
  Exact frame and tick arithmetic (\<open>normalization/rational.rs\<close>): reduced positive fractions
  of two \<open>u32\<close>, the number of frames in whole seconds, and the number of time-base ticks of a
  number of frames, computed in \<open>u128\<close> and refused when it is not a whole number.
\<close>

type_synonym u128 = "128 word"

record rational =
  ra_numerator :: u32
  ra_denominator :: u32

datatype rational_error =
    RaZero
  | RaOverflow
  | InexactFrameTime u64 u32 u32 u32 u32

text \<open>The loop of \<open>gcd\<close>; the second argument decreases.\<close>

function gcd_loop :: "u32 \<Rightarrow> u32 \<Rightarrow> u32" where
  "gcd_loop left right = (if right = 0 then left else gcd_loop right (left mod right))"
  by auto
termination
  by (relation "measure (\<lambda>(l, r). unat r)")
    (auto simp: unat_mod_distrib unat_gt_0 intro!: mod_less_divisor)

declare gcd_loop.simps [simp del]

definition new_rational :: "u32 \<Rightarrow> u32 \<Rightarrow> rational_error + rational" where
  "new_rational numerator denominator =
     and_then (ensure (numerator \<noteq> 0 \<and> denominator \<noteq> 0) RaZero) (\<lambda>_.
     let divisor = gcd_loop numerator denominator
     in Inr \<lparr>ra_numerator = numerator div divisor, ra_denominator = denominator div divisor\<rparr>)"

definition option_ok :: "'e \<Rightarrow> 'a option \<Rightarrow> 'e + 'a" where
  "option_ok e r = (case r of None \<Rightarrow> Inl e | Some x \<Rightarrow> Inr x)"

lemma option_ok_Inr [simp]: "option_ok e r = Inr x \<longleftrightarrow> r = Some x"
  by (auto simp: option_ok_def split: option.splits)

definition frames_in_whole_seconds :: "rational \<Rightarrow> u32 \<Rightarrow> rational_error + u64" where
  "frames_in_whole_seconds r seconds =
     and_then (option_ok RaOverflow (checked_mul (ucast (ra_numerator r)) (ucast seconds)))
       (\<lambda>product.
     let denominator = ucast (ra_denominator r)
     in and_then (ensure (product mod denominator = 0)
          (InexactFrameTime product (ra_numerator r) (ra_denominator r) 1 1)) (\<lambda>_.
        Inr (product div denominator)))"

definition ticks_for_frames :: "rational \<Rightarrow> u64 \<Rightarrow> rational \<Rightarrow> rational_error + u64" where
  "ticks_for_frames r frames time_base =
     and_then (option_ok RaOverflow
        (case checked_mul (ucast frames :: u128) (ucast (ra_denominator r)) of
           None \<Rightarrow> None | Some v \<Rightarrow> checked_mul v (ucast (ra_denominator time_base)))) (\<lambda>numerator.
     and_then (option_ok RaOverflow
        (checked_mul (ucast (ra_numerator r) :: u128) (ucast (ra_numerator time_base))))
        (\<lambda>denominator.
     and_then (ensure (numerator mod denominator = 0)
        (InexactFrameTime frames (ra_numerator r) (ra_denominator r)
           (ra_numerator time_base) (ra_denominator time_base))) (\<lambda>_.
     option_ok RaOverflow
       (if unat (numerator div denominator) < 2 ^ 64 then Some (ucast (numerator div denominator))
        else None))))"

section \<open>Lemmas\<close>

lemma unat_gcd_loop: "unat (gcd_loop a b) = gcd (unat a) (unat b)"
proof (induction a b rule: gcd_loop.induct)
  case (1 a b)
  show ?case
  proof (cases "b = 0")
    case True
    then show ?thesis by (simp add: gcd_loop.simps)
  next
    case False
    with 1 show ?thesis
      by (simp add: gcd_loop.simps [of a b] unat_mod_distrib gcd_red_nat [of "unat a"])
  qed
qed

text \<open>The value of a positive fraction, compared by cross multiplication.\<close>

definition positive :: "rational \<Rightarrow> bool" where
  "positive r \<longleftrightarrow> 0 < unat (ra_numerator r) \<and> 0 < unat (ra_denominator r)"

lemma unat_ucast_up:
  fixes w :: "'a::len word"
  assumes "LENGTH('a) \<le> LENGTH('b::len)"
  shows "unat (ucast w :: 'b word) = unat w"
proof -
  have "unat w < 2 ^ LENGTH('b)"
    using unsigned_less [of w] assms by (metis less_le_trans one_le_numeral power_increasing)
  then show ?thesis by (simp add: unsigned_ucast_eq take_bit_nat_eq_self)
qed

lemma new_rational_value:
  assumes "new_rational n d = Inr r"
  shows "positive r" and "unat (ra_numerator r) * unat d = unat (ra_denominator r) * unat n"
    and "coprime (unat (ra_numerator r)) (unat (ra_denominator r))"
proof -
  have nz: "0 < unat n" "0 < unat d"
    and r: "ra_numerator r = n div gcd_loop n d" "ra_denominator r = d div gcd_loop n d"
    using assms by (auto simp: new_rational_def Let_def unat_gt_0)
  have parts: "unat (ra_numerator r) = unat n div gcd (unat n) (unat d)"
    "unat (ra_denominator r) = unat d div gcd (unat n) (unat d)"
    by (simp_all add: r unat_div_distrib unat_gcd_loop)
  show "coprime (unat (ra_numerator r)) (unat (ra_denominator r))"
    unfolding parts by (rule div_gcd_coprime) (use nz in simp)
  show "positive r"
    unfolding positive_def parts using nz
    by (simp add: div_greater_zero_iff gcd_le1_nat gcd_le2_nat)
  obtain a b where "unat n = a * gcd (unat n) (unat d)" "unat d = b * gcd (unat n) (unat d)"
    by (metis gcd_dvd1 gcd_dvd2 dvd_mult_div_cancel mult.commute)
  then show "unat (ra_numerator r) * unat d = unat (ra_denominator r) * unat n"
    unfolding parts by (metis div_mult_swap gcd_dvd1 gcd_dvd2 mult.commute)
qed

lemma ticks_never_overflow_early:
  fixes frames :: u64
  assumes "(case checked_mul (ucast frames :: u128) (ucast (ra_denominator r)) of
      None \<Rightarrow> None | Some v \<Rightarrow> checked_mul v (ucast (ra_denominator tb))) = None"
  shows False
proof -
  let ?f = "unat frames" and ?d = "unat (ra_denominator r)" and ?t = "unat (ra_denominator tb)"
  have f: "unat (ucast frames :: u128) = ?f" and d: "unat (ucast (ra_denominator r) :: u128) = ?d"
    and t: "unat (ucast (ra_denominator tb) :: u128) = ?t"
    by (simp_all add: unat_ucast_up)
  have "?f < 2 ^ 64" "?d < 2 ^ 32" "?t < 2 ^ 32"
    using unsigned_less [of frames] unsigned_less [of "ra_denominator r"]
      unsigned_less [of "ra_denominator tb"] by simp_all
  then have fd: "?f * ?d < 2 ^ 64 * 2 ^ 32"
    by (intro mult_strict_mono) simp_all
  have t32: "?t < 2 ^ 32" using unsigned_less [of "ra_denominator tb"] by simp
  have fdt: "?f * ?d * ?t < 2 ^ 64 * 2 ^ 32 * 2 ^ 32"
    by (rule mult_strict_mono [OF fd t32]) simp_all
  have "?f * ?d < 2 ^ 128" using fd by simp
  then have m: "checked_mul (ucast frames :: u128) (ucast (ra_denominator r))
      = Some (ucast frames * ucast (ra_denominator r))"
    by (simp add: checked_mul_def f d)
  have "unat (ucast frames * ucast (ra_denominator r) :: u128) = ?f * ?d"
    using checked_mul_SomeD(1) [OF m] by (simp add: f d)
  with fdt have "checked_mul (ucast frames * ucast (ra_denominator r) :: u128)
      (ucast (ra_denominator tb)) \<noteq> None"
    by (simp add: checked_mul_def t)
  with assms m show False by simp
qed

lemma ticks_denominator_fits:
  "checked_mul (ucast (a :: u32) :: u128) (ucast (b :: u32)) \<noteq> None"
proof -
  have "unat a < 2 ^ 32" "unat b < 2 ^ 32"
    using unsigned_less [of a] unsigned_less [of b] by simp_all
  then have "unat a * unat b < 2 ^ 32 * 2 ^ 32"
    by (intro mult_strict_mono) simp_all
  then show ?thesis by (simp add: checked_mul_def unat_ucast_up)
qed

text \<open>The exact value of the two intermediate products.\<close>

lemma ticks_products:
  obtains n d :: u128 where
    "(case checked_mul (ucast frames :: u128) (ucast (ra_denominator r)) of
        None \<Rightarrow> None | Some v \<Rightarrow> checked_mul v (ucast (ra_denominator tb))) = Some n"
    "checked_mul (ucast (ra_numerator r) :: u128) (ucast (ra_numerator tb)) = Some d"
    "unat n = unat (frames :: u64) * unat (ra_denominator r) * unat (ra_denominator tb)"
    "unat d = unat (ra_numerator r) * unat (ra_numerator tb)"
proof -
  obtain n where n: "(case checked_mul (ucast frames :: u128) (ucast (ra_denominator r)) of
      None \<Rightarrow> None | Some v \<Rightarrow> checked_mul v (ucast (ra_denominator tb))) = Some n"
    using ticks_never_overflow_early [where frames = frames and r = r and tb = tb] by fastforce
  then obtain v where v: "checked_mul (ucast frames :: u128) (ucast (ra_denominator r)) = Some v"
    "checked_mul v (ucast (ra_denominator tb)) = Some n"
    by (auto split: option.splits)
  obtain d where d: "checked_mul (ucast (ra_numerator r) :: u128) (ucast (ra_numerator tb)) = Some d"
    using ticks_denominator_fits by blast
  have "unat n = unat frames * unat (ra_denominator r) * unat (ra_denominator tb)"
    using checked_mul_SomeD(1) [OF v(1)] checked_mul_SomeD(1) [OF v(2)] by (simp add: unat_ucast_up)
  moreover have "unat d = unat (ra_numerator r) * unat (ra_numerator tb)"
    using checked_mul_SomeD(1) [OF d] by (simp add: unat_ucast_up)
  ultimately show ?thesis using that n d by blast
qed

lemma word_mod_0_iff: "(a :: 'a::len word) mod b = 0 \<longleftrightarrow> unat b dvd unat a"
proof -
  have "a mod b = 0 \<longleftrightarrow> unat (a mod b) = 0" by (metis unat_0 unat_eq_zero)
  then show ?thesis by (simp add: unat_mod_distrib dvd_eq_mod_eq_0)
qed

lemma ticks_for_frames_iff:
  fixes frames t :: u64
  assumes "positive r" and "positive tb"
  shows "ticks_for_frames r frames tb = Inr t \<longleftrightarrow>
    unat t * (unat (ra_numerator r) * unat (ra_numerator tb))
      = unat frames * unat (ra_denominator r) * unat (ra_denominator tb)"
proof -
  obtain n d :: u128 where
    n: "(case checked_mul (ucast frames :: u128) (ucast (ra_denominator r)) of
        None \<Rightarrow> None | Some v \<Rightarrow> checked_mul v (ucast (ra_denominator tb))) = Some n"
    and d: "checked_mul (ucast (ra_numerator r) :: u128) (ucast (ra_numerator tb)) = Some d"
    and un: "unat n = unat frames * unat (ra_denominator r) * unat (ra_denominator tb)"
    and ud: "unat d = unat (ra_numerator r) * unat (ra_numerator tb)"
    by (rule ticks_products)
  have pos: "0 < unat d" using assms by (simp add: ud positive_def)
  have "ticks_for_frames r frames tb = Inr t \<longleftrightarrow>
      unat d dvd unat n \<and> unat n div unat d < 2 ^ 64 \<and> ucast (n div d) = t"
    by (auto simp: ticks_for_frames_def n d option_ok_def word_mod_0_iff unat_div_distrib
        split: if_splits)
  also have "\<dots> \<longleftrightarrow> unat t * unat d = unat n"
  proof
    assume left: "unat d dvd unat n \<and> unat n div unat d < 2 ^ 64 \<and> ucast (n div d) = t"
    then have "unat t = take_bit 64 (unat (n div d))" by (auto simp: unsigned_ucast_eq)
    also have "\<dots> = unat n div unat d"
      using left by (simp add: unat_div_distrib take_bit_nat_eq_self)
    finally show "unat t * unat d = unat n" using left by simp
  next
    assume right: "unat t * unat d = unat n"
    then have q: "unat n div unat d = unat t" using pos by (metis div_mult_self_is_m)
    moreover have "unat t < 2 ^ 64" using unsigned_less [of t] by simp
    moreover have "unat (ucast (n div d) :: u64) = unat t"
      using q \<open>unat t < 2 ^ 64\<close> by (simp add: unsigned_ucast_eq unat_div_distrib take_bit_nat_eq_self)
    ultimately show "unat d dvd unat n \<and> unat n div unat d < 2 ^ 64 \<and> ucast (n div d) = t"
      using right by (metis dvd_triv_right word_unat_eq_iff)
  qed
  finally show ?thesis by (simp only: ud un)
qed

lemma frames_in_whole_seconds_value:
  assumes "frames_in_whole_seconds r s = Inr n"
  shows "unat n * unat (ra_denominator r) = unat (ra_numerator r) * unat s"
proof -
  have "\<exists>p. checked_mul (ucast (ra_numerator r) :: u64) (ucast s) = Some p
      \<and> p mod ucast (ra_denominator r) = 0 \<and> p div ucast (ra_denominator r) = n"
  proof (cases "checked_mul (ucast (ra_numerator r) :: u64) (ucast s)")
    case (Some p)
    show ?thesis
    proof (cases "p mod ucast (ra_denominator r) = 0")
      case True
      with Some assms show ?thesis
        by (simp add: frames_in_whole_seconds_def Let_def option_ok_def ensure_def)
    qed (use Some assms in \<open>simp add: frames_in_whole_seconds_def Let_def option_ok_def ensure_def\<close>)
  qed (use assms in \<open>simp add: frames_in_whole_seconds_def option_ok_def\<close>)
  then obtain p where p: "checked_mul (ucast (ra_numerator r) :: u64) (ucast s) = Some p"
    and m: "p mod ucast (ra_denominator r) = 0" and n: "p div ucast (ra_denominator r) = n"
    by (elim exE conjE) (rule that)
  have "unat p = unat (ra_numerator r) * unat s"
    using checked_mul_SomeD(1) [OF p] by (simp add: unat_ucast_up)
  moreover have "unat (ra_denominator r) dvd unat p"
    using m by (simp add: word_mod_0_iff unat_ucast_up)
  moreover have "unat n = unat p div unat (ra_denominator r)"
    by (simp add: n [symmetric] unat_div_distrib unat_ucast_up)
  ultimately show ?thesis by simp
qed

text \<open>
  C25. Frame times are exact: the ticks of a number of frames are returned exactly when there
  is a \<open>u64\<close> equal to \<open>frames / fps / time base\<close> as a fraction, whatever the size of the
  operands; the intermediate products never overflow, nothing is rounded and no representable
  exact result is refused.
\<close>

theorem ticks_exact:
  assumes "new_rational fps_num fps_den = Inr fps" and "new_rational tb_num tb_den = Inr tb"
  shows "ticks_for_frames fps frames tb = Inr t \<longleftrightarrow>
    unat t * (unat (ra_numerator fps) * unat (ra_numerator tb))
      = unat frames * unat (ra_denominator fps) * unat (ra_denominator tb)"
  using ticks_for_frames_iff new_rational_value(1) [OF assms(1)] new_rational_value(1) [OF assms(2)]
  by blast

lemma sample_rate: "new_rational 30 1 = Inr \<lparr>ra_numerator = 30, ra_denominator = 1\<rparr>"
  by (simp add: new_rational_def gcd_loop.simps Let_def ensure_def)

lemma sample_time_base: "new_rational 1 90000 = Inr \<lparr>ra_numerator = 1, ra_denominator = 90000\<rparr>"
  by (simp add: new_rational_def gcd_loop.simps Let_def ensure_def)

theorem ticks_exact_witness:
  "ticks_for_frames \<lparr>ra_numerator = 30, ra_denominator = 1\<rparr> 2
     \<lparr>ra_numerator = 1, ra_denominator = 90000\<rparr> = Inr 6000"
  using ticks_exact [OF sample_rate sample_time_base, of 2 6000] by simp

end
