(* ===== verification/Media_Types.thy ===== *)
theory Media_Types
  imports Rational_Time Source_Model
begin

text \<open>
  The values the normalization pipeline works on (\<open>normalization/profile.rs\<close>, the first half of
  \<open>normalization/plan.rs\<close>): encoder builds, versioned profiles and their approval, resolved
  source artifacts, the seven kinds of input, probe results, and the media plan. The digest
  of a profile (canonical JSON and SHA-256) is a parameter.
\<close>

section \<open>Profiles\<close>

datatype video_codec = CodecMjpeg | CodecH264 | CodecHevc
datatype hevc_profile = HevcMain
datatype pixel_format = Yuv420p | Yuv422p | PixelUnknown
datatype container_format = MjpegElementary | Mp4 | FragmentedMp4
datatype sample_entry = Hvc1
datatype quality_variant = MjpegCrf20 | H264Crf18 | H264Crf16Retry
datatype transcode_generation = FirstGeneration | SecondGeneration | SecondGenerationRetry

fun crf :: "quality_variant \<Rightarrow> 8 word" where
  "crf MjpegCrf20 = 20"
| "crf H264Crf18 = 18"
| "crf H264Crf16Retry = 16"

fun generation :: "quality_variant \<Rightarrow> transcode_generation" where
  "generation MjpegCrf20 = FirstGeneration"
| "generation H264Crf18 = SecondGeneration"
| "generation H264Crf16Retry = SecondGenerationRetry"

fun accepts_source_codec :: "quality_variant \<Rightarrow> video_codec \<Rightarrow> bool" where
  "accepts_source_codec MjpegCrf20 codec = (codec = CodecMjpeg)"
| "accepts_source_codec H264Crf18 codec = (codec = CodecH264)"
| "accepts_source_codec H264Crf16Retry codec = (codec = CodecH264)"

type_synonym profile_revision = string
type_synonym source_manifest_digest = string
type_synonym content_sha256 = string

datatype profile_error =
    InvalidField string
  | CandidateUnapprovedError
  | ApprovalRevisionMismatch profile_revision profile_revision
  | IncompatibleEncoder string string
  | PfRational rational_error

definition parse_compatibility_class :: "string \<Rightarrow> profile_error + string" where
  "parse_compatibility_class class =
     and_then (ensure (class \<noteq> [] \<and> length class \<le> 128
           \<and> list_all (\<lambda>b. (of_char b \<ge> (97::nat) \<and> of_char b \<le> (122::nat)) \<or> is_ascii_digit b
                 \<or> b = CHR ''-'') class)
        (InvalidField ''encoder_compatibility_class'')) (\<lambda>_. Inr class)"

record encoder_build =
  eb_implementation :: string
  eb_version :: string
  eb_build_fingerprint :: string
  eb_compatibility_class :: string
  eb_build_parameters :: "(string \<times> string) list"

definition new_encoder_build ::
    "string \<Rightarrow> string \<Rightarrow> string \<Rightarrow> string \<Rightarrow> (string \<times> string) list \<Rightarrow> profile_error + encoder_build" where
  "new_encoder_build implementation version fingerprint class parameters =
     and_then (ensure (short_text 128 implementation) (InvalidField ''encoder_implementation'')) (\<lambda>_.
     and_then (ensure (short_text 256 version) (InvalidField ''encoder_version'')) (\<lambda>_.
     and_then (ensure (length parameters \<le> 64
           \<and> list_all (\<lambda>(k, v). short_text 128 k \<and> short_text 512 v) parameters)
        (InvalidField ''encoder_build_parameters'')) (\<lambda>_.
     Inr \<lparr>eb_implementation = implementation, eb_version = version,
          eb_build_fingerprint = fingerprint, eb_compatibility_class = class,
          eb_build_parameters = parameters\<rparr>)))"

record quality_thresholds =
  qt_vmaf_neg_model :: string
  qt_vmaf_mean_milli_min :: u32
  qt_vmaf_frame_p01_milli_min :: u32
  qt_ssim_mean_millionths_min :: u32
  qt_h264_size_ratio_max :: "16 word option"
  qt_stereo_metrics_required :: bool

definition proposed_v1 :: "quality_variant \<Rightarrow> quality_thresholds" where
  "proposed_v1 variant =
     \<lparr>qt_vmaf_neg_model = ''vmaf_v0.6.1neg'', qt_vmaf_mean_milli_min = 95000,
      qt_vmaf_frame_p01_milli_min = 90000, qt_ssim_mean_millionths_min = 990000,
      qt_h264_size_ratio_max = (case variant of MjpegCrf20 \<Rightarrow> None | _ \<Rightarrow> Some 6500),
      qt_stereo_metrics_required = True\<rparr>"

record profile_approval_evidence =
  pa_profile_revision :: profile_revision
  pa_quality_corpus_report :: source_manifest_digest
  pa_throughput_resource_report :: source_manifest_digest
  pa_stereo_cv_report :: source_manifest_digest
  pa_encoder_legal_review :: source_manifest_digest
  pa_playback_report :: source_manifest_digest
  pa_approved_at :: string

datatype profile_release_status =
  CandidateUnapproved | Approved profile_approval_evidence

record profile_revision_material =
  pr_schema_version :: u32
  pr_family_id :: string
  pr_quality_variant :: quality_variant
  pr_transcode_generation :: transcode_generation
  pr_codec :: video_codec
  pr_codec_profile :: hevc_profile
  pr_pixel_format :: pixel_format
  pr_container :: container_format
  pr_sample_entry :: sample_entry
  pr_preset :: string
  pr_crf :: "8 word"
  pr_time_base :: rational
  pr_gop_seconds :: u32
  pr_segment_seconds :: u32
  pr_closed_gop :: bool
  pr_scene_cut_keyframes :: bool
  pr_preserve_source_fps :: bool
  pr_preserve_eye_dimensions :: bool
  pr_audio_tracks :: "8 word"
  pr_encoder_compatibility_class :: string
  pr_quality_thresholds :: quality_thresholds

record normalization_profile =
  np_material :: profile_revision_material
  np_profile_revision :: profile_revision
  np_release_status :: profile_release_status

definition candidate_profile ::
    "(profile_revision_material \<Rightarrow> profile_revision) \<Rightarrow> quality_variant
     \<Rightarrow> profile_error + normalization_profile" where
  "candidate_profile digest variant =
     (case new_rational 1 90000 of
        Inl e \<Rightarrow> Inl (PfRational e)
      | Inr base \<Rightarrow>
          let material =
            \<lparr>pr_schema_version = 1, pr_family_id = ''hevc-main-cfr-sourcefps-gop2s-x265-slow-v1'',
             pr_quality_variant = variant, pr_transcode_generation = generation variant,
             pr_codec = CodecHevc, pr_codec_profile = HevcMain, pr_pixel_format = Yuv420p,
             pr_container = Mp4, pr_sample_entry = Hvc1, pr_preset = ''slow'', pr_crf = crf variant,
             pr_time_base = base, pr_gop_seconds = 2, pr_segment_seconds = 30,
             pr_closed_gop = True, pr_scene_cut_keyframes = False, pr_preserve_source_fps = True,
             pr_preserve_eye_dimensions = True, pr_audio_tracks = 0,
             pr_encoder_compatibility_class = ''x265-software-hevc-main-8bit-v1'',
             pr_quality_thresholds = proposed_v1 variant\<rparr>
          in Inr \<lparr>np_material = material, np_profile_revision = digest material,
                  np_release_status = CandidateUnapproved\<rparr>)"

definition approve_profile ::
    "normalization_profile \<Rightarrow> profile_approval_evidence \<Rightarrow> profile_error + normalization_profile" where
  "approve_profile profile evidence =
     and_then (ensure (pa_profile_revision evidence = np_profile_revision profile)
        (ApprovalRevisionMismatch (np_profile_revision profile) (pa_profile_revision evidence))) (\<lambda>_.
     Inr (profile\<lparr>np_release_status := Approved evidence\<rparr>))"

definition require_approved :: "normalization_profile \<Rightarrow> profile_error + unit" where
  "require_approved profile =
     (case np_release_status profile of
        Approved _ \<Rightarrow> Inr () | CandidateUnapproved \<Rightarrow> Inl CandidateUnapprovedError)"

definition require_compatible_encoder ::
    "normalization_profile \<Rightarrow> encoder_build \<Rightarrow> profile_error + unit" where
  "require_compatible_encoder profile build =
     ensure (eb_compatibility_class build = pr_encoder_compatibility_class (np_material profile))
       (IncompatibleEncoder (pr_encoder_compatibility_class (np_material profile))
          (eb_compatibility_class build))"

definition segment_frames :: "normalization_profile \<Rightarrow> rational \<Rightarrow> profile_error + u64" where
  "segment_frames profile fps =
     (case frames_in_whole_seconds fps (pr_segment_seconds (np_material profile)) of
        Inl e \<Rightarrow> Inl (PfRational e) | Inr n \<Rightarrow> Inr n)"

section \<open>Input\<close>

datatype source_media_kind =
    KindRawCaptureV2
  | KindLegacyMjpegSessionV5
  | KindApplianceSpoolV6
  | KindCompleteUnpublishedV6
  | KindPairedH264PublicationV1
  | KindUnsignedPairedH264PublicationV1
  | KindUnsignedMjpegPublicationV1

datatype eye = LeftEye | RightEye

record dimensions =
  dim_width :: u32
  dim_height :: u32

record rect =
  rect_x :: u32
  rect_y :: u32
  rect_width :: u32
  rect_height :: u32

datatype media_plan_error =
    MpInvalidGeometry u32 u32
  | MpOddStereoWidth u32
  | MpInvalidLocalPath
  | MpUnsafeRelativePath string
  | MpEmptySourceArtifact source_artifact_id
  | MpDuplicateArtifact source_artifact_id
  | MpDuplicateProbe source_artifact_id
  | MpMissingProbe source_artifact_id
  | MpUnexpectedProbe source_artifact_id
  | MpEmptyProbe source_artifact_id
  | MpInvalidKeyframeInventory source_artifact_id
  | MpInvalidSegmentSequence
  | MpInvalidRawFrameEvidence
  | MpInvalidLegacyTimingEvidence
  | MpProfileSourceMismatch quality_variant video_codec
  | MpCodecMismatch source_artifact_id video_codec video_codec
  | MpTrackLayoutMismatch source_artifact_id
  | MpFrameRateMismatch source_artifact_id
  | MpPairedEyeMismatch u32 string
  | MpFrameEvidenceMismatch u64 u64
  | MpLegacyPtsNotReset source_artifact_id
  | MpArithmeticOverflow
  | MpRational rational_error
  | MpProfile profile_error

definition new_dimensions :: "u32 \<Rightarrow> u32 \<Rightarrow> media_plan_error + dimensions" where
  "new_dimensions width height =
     and_then (ensure (width \<noteq> 0 \<and> height \<noteq> 0) (MpInvalidGeometry width height)) (\<lambda>_.
     Inr \<lparr>dim_width = width, dim_height = height\<rparr>)"

definition new_rect :: "u32 \<Rightarrow> u32 \<Rightarrow> u32 \<Rightarrow> u32 \<Rightarrow> media_plan_error + rect" where
  "new_rect x y width height =
     and_then (new_dimensions width height) (\<lambda>_.
     Inr \<lparr>rect_x = x, rect_y = y, rect_width = width, rect_height = height\<rparr>)"

text \<open>
  \<open>validate_relative_path\<close> of the plan, on \<open>Path::components\<close>: these skip empty names and
  every \<open>.\<close> but a leading one; each remaining name must be an ordinary one that does not
  start with a dot.
\<close>

definition plan_relative_path_ok :: "bool \<Rightarrow> string \<Rightarrow> bool" where
  "plan_relative_path_ok windows path \<longleftrightarrow>
     path \<noteq> [] \<and> CHR 0x5C \<notin> set path \<and> CHR 0x00 \<notin> set path
     \<and> \<not> absolute_or_prefixed windows path
     \<and> (let names = split_at_char (CHR ''/'') path
        in hd names \<noteq> ''.''
           \<and> list_all (\<lambda>n. n = [] \<or> n = ''.'' \<or> hd n \<noteq> CHR ''.'') names)"

record resolved_source_artifact =
  ra_id :: source_artifact_id
  ra_local_path :: string
  ra_manifest_relative_path :: string
  ra_expected_size_bytes :: u64
  ra_expected_sha256 :: content_sha256

definition new_resolved_source_artifact ::
    "bool \<Rightarrow> source_artifact_id \<Rightarrow> string \<Rightarrow> string \<Rightarrow> u64 \<Rightarrow> content_sha256
     \<Rightarrow> media_plan_error + resolved_source_artifact" where
  "new_resolved_source_artifact windows aid local_path relative_path expected sha =
     and_then (ensure (plan_relative_path_ok windows relative_path)
        (MpUnsafeRelativePath relative_path)) (\<lambda>_.
     and_then (ensure (local_path \<noteq> []) MpInvalidLocalPath) (\<lambda>_.
     and_then (ensure (expected \<noteq> 0) (MpEmptySourceArtifact aid)) (\<lambda>_.
     Inr \<lparr>ra_id = aid, ra_local_path = local_path, ra_manifest_relative_path = relative_path,
          ra_expected_size_bytes = expected, ra_expected_sha256 = sha\<rparr>)))"

record source_segment =
  ss_segment_index :: u32
  ss_artifact :: resolved_source_artifact

record paired_source_segment =
  ps_segment_index :: u32
  ps_left :: resolved_source_artifact
  ps_right :: resolved_source_artifact

definition new_paired_source_segment ::
    "u32 \<Rightarrow> resolved_source_artifact \<Rightarrow> resolved_source_artifact
     \<Rightarrow> media_plan_error + paired_source_segment" where
  "new_paired_source_segment index left right =
     and_then (ensure (ra_id left \<noteq> ra_id right) (MpDuplicateArtifact (ra_id left))) (\<lambda>_.
     Inr \<lparr>ps_segment_index = index, ps_left = left, ps_right = right\<rparr>)"

record raw_frame_evidence =
  rf_declared_frame_count :: u64
  rf_declared_source_fps :: rational
  rf_jpeg_boundaries_verified :: bool
  rf_sequence_gap_count :: u64
  rf_timestamp_error_count :: u64

definition raw_evidence_ok :: "raw_frame_evidence \<Rightarrow> bool" where
  "raw_evidence_ok e \<longleftrightarrow>
     \<not> (rf_declared_frame_count e = 0 \<or> \<not> rf_jpeg_boundaries_verified e
        \<or> rf_sequence_gap_count e \<noteq> 0 \<or> rf_timestamp_error_count e \<noteq> 0)"

record legacy_timing_evidence =
  lt_frames_jsonl_digest :: content_sha256
  lt_declared_total_frames :: u64
  lt_declared_source_fps :: rational
  lt_segment_pts_reset :: bool

definition legacy_evidence_ok :: "legacy_timing_evidence \<Rightarrow> bool" where
  "legacy_evidence_ok e \<longleftrightarrow> \<not> (lt_declared_total_frames e = 0 \<or> \<not> lt_segment_pts_reset e)"

datatype normalization_input =
    InRawCaptureV2 resolved_source_artifact raw_frame_evidence
  | InLegacyMjpegSessionV5 "source_segment list" legacy_timing_evidence
  | InApplianceSpoolV6 "source_segment list" source_manifest_digest
  | InCompleteUnpublishedV6 "paired_source_segment list" source_manifest_digest
  | InPairedH264PublicationV1 "paired_source_segment list" source_manifest_digest
  | InUnsignedPairedH264PublicationV1 "paired_source_segment list" source_manifest_digest
  | InUnsignedMjpegPublicationV1 "source_segment list" source_manifest_digest

fun input_kind :: "normalization_input \<Rightarrow> source_media_kind" where
  "input_kind (InRawCaptureV2 _ _) = KindRawCaptureV2"
| "input_kind (InLegacyMjpegSessionV5 _ _) = KindLegacyMjpegSessionV5"
| "input_kind (InApplianceSpoolV6 _ _) = KindApplianceSpoolV6"
| "input_kind (InCompleteUnpublishedV6 _ _) = KindCompleteUnpublishedV6"
| "input_kind (InPairedH264PublicationV1 _ _) = KindPairedH264PublicationV1"
| "input_kind (InUnsignedPairedH264PublicationV1 _ _) = KindUnsignedPairedH264PublicationV1"
| "input_kind (InUnsignedMjpegPublicationV1 _ _) = KindUnsignedMjpegPublicationV1"

fun source_codec :: "normalization_input \<Rightarrow> video_codec" where
  "source_codec (InRawCaptureV2 _ _) = CodecMjpeg"
| "source_codec (InLegacyMjpegSessionV5 _ _) = CodecMjpeg"
| "source_codec (InApplianceSpoolV6 _ _) = CodecMjpeg"
| "source_codec (InUnsignedMjpegPublicationV1 _ _) = CodecMjpeg"
| "source_codec (InCompleteUnpublishedV6 _ _) = CodecH264"
| "source_codec (InPairedH264PublicationV1 _ _) = CodecH264"
| "source_codec (InUnsignedPairedH264PublicationV1 _ _) = CodecH264"

definition paired_artifacts :: "paired_source_segment list \<Rightarrow> resolved_source_artifact list" where
  "paired_artifacts segments = concat (map (\<lambda>s. [ps_left s, ps_right s]) segments)"

fun input_artifacts :: "normalization_input \<Rightarrow> resolved_source_artifact list" where
  "input_artifacts (InRawCaptureV2 stereo _) = [stereo]"
| "input_artifacts (InLegacyMjpegSessionV5 segments _) = map ss_artifact segments"
| "input_artifacts (InApplianceSpoolV6 segments _) = map ss_artifact segments"
| "input_artifacts (InUnsignedMjpegPublicationV1 segments _) = map ss_artifact segments"
| "input_artifacts (InCompleteUnpublishedV6 segments _) = paired_artifacts segments"
| "input_artifacts (InPairedH264PublicationV1 segments _) = paired_artifacts segments"
| "input_artifacts (InUnsignedPairedH264PublicationV1 segments _) = paired_artifacts segments"

section \<open>Probe results\<close>

text \<open>\<open>i64\<close> is a 64-bit word read with its sign.\<close>

type_synonym i64 = "64 word"

record probed_artifact =
  pb_artifact_id :: source_artifact_id
  pb_codec :: video_codec
  pb_codec_profile :: "string option"
  pb_container :: container_format
  pb_sample_entry :: "string option"
  pb_pixel_format :: pixel_format
  pb_dimensions :: dimensions
  pb_frame_rate :: rational
  pb_time_base :: rational
  pb_first_pts :: i64
  pb_frame_count :: u64
  pb_duration_ticks :: u64
  pb_video_track_count :: "8 word"
  pb_audio_track_count :: "8 word"
  pb_keyframe_frames :: "u64 list"

fun strictly_increasing :: "u64 list \<Rightarrow> bool" where
  "strictly_increasing (a # b # rest) = (a < b \<and> strictly_increasing (b # rest))"
| "strictly_increasing _ = True"

definition new_probed_artifact :: "probed_artifact \<Rightarrow> media_plan_error + probed_artifact" where
  "new_probed_artifact p =
     and_then (ensure (pb_frame_count p \<noteq> 0 \<and> pb_duration_ticks p \<noteq> 0)
        (MpEmptyProbe (pb_artifact_id p))) (\<lambda>_.
     and_then (ensure (list_all (\<lambda>k. k < pb_frame_count p) (pb_keyframe_frames p)
           \<and> strictly_increasing (pb_keyframe_frames p))
        (MpInvalidKeyframeInventory (pb_artifact_id p))) (\<lambda>_.
     Inr p))"

type_synonym probe_report = "probed_artifact list"

fun distinct_probes :: "source_artifact_id list \<Rightarrow> probe_report \<Rightarrow> media_plan_error + unit" where
  "distinct_probes seen [] = Inr ()"
| "distinct_probes seen (p # ps) =
     and_then (ensure (pb_artifact_id p \<notin> set seen) (MpDuplicateProbe (pb_artifact_id p))) (\<lambda>_.
     distinct_probes (pb_artifact_id p # seen) ps)"

definition new_probe_report :: "probed_artifact list \<Rightarrow> media_plan_error + probe_report" where
  "new_probe_report artifacts = and_then (distinct_probes [] artifacts) (\<lambda>_. Inr artifacts)"

section \<open>The plan\<close>

datatype timing_basis =
    RawFrameIndex
  | LegacyV5ResetPtsAccumulated
  | CaptureCommitSegmentOrder
  | CompleteUnpublishedPairOrder
  | SignedPublicationPairOrder
  | UnsignedPublicationPairOrder
  | UnsignedPublicationSideBySideOrder

record frame_slice =
  fs_artifact_id :: source_artifact_id
  fs_first_frame :: u64
  fs_frame_count :: u64
  fs_source_pts_first :: i64
  fs_source_time_base :: rational
  fs_session_first_frame :: u64

record eye_input_plan =
  ey_eye :: eye
  ey_slices :: "frame_slice list"
  ey_crop :: "rect option"

record segment_pair_plan =
  sp_segment_index :: u32
  sp_first_frame :: u64
  sp_frame_count :: u64
  sp_start_ticks :: u64
  sp_duration_ticks :: u64
  sp_source_fps :: rational
  sp_eye_dimensions :: dimensions
  sp_left :: eye_input_plan
  sp_right :: eye_input_plan
  sp_left_output :: string
  sp_right_output :: string

record media_plan =
  me_source_kind :: source_media_kind
  me_profile_revision :: profile_revision
  me_source_fps :: rational
  me_eye_dimensions :: dimensions
  me_time_base :: rational
  me_timing_basis :: timing_basis
  me_total_frames :: u64
  me_segment_pairs :: "segment_pair_plan list"

definition segment_pair :: "media_plan \<Rightarrow> u32 \<Rightarrow> segment_pair_plan option" where
  "segment_pair plan index =
     (if unat index < length (me_segment_pairs plan)
      then let pair = me_segment_pairs plan ! unat index
           in if sp_segment_index pair = index then Some pair else None
      else None)"

end
