(* ===== verification/Media_Validation.thy ===== *)
theory Media_Validation
  imports Media_Types
begin

text \<open>
  The gate an encoded segment pair passes before it becomes a checkpoint
  (\<open>normalization/validation.rs\<close>): the evidence measured on the two outputs, the quality
  measured against the source, the four verdicts with their issues, and the validated pair.
  The measurements themselves are made by external tools and are arguments here.
\<close>

section \<open>Issues and verdicts\<close>

datatype validation_issue_code =
    WrongEye | WrongProfileRevision | WrongOutputPath | EmptyOutput | CodecMismatch
  | CodecProfileMismatch | ContainerMismatch | SampleEntryMismatch | PixelFormatMismatch
  | GeometryMismatch | FrameRateMismatch | TimeBaseMismatch | FrameCountMismatch
  | DurationMismatch | ExtraTrack | FirstFrameNotDecodable | OpenGop | GopTooLong
  | SceneCutKeyframe | FullDecodeFailed | DecodeFrameCountMismatch | StereoFrameCountMismatch
  | StereoDurationMismatch | StereoKeyframeMismatch | VmafMeanBelowThreshold
  | VmafFrameP01BelowThreshold | SsimMeanBelowThreshold | StereoDomainMetricFailed

text \<open>
  Every detail is a text of the program with at most one number in it, so the control
  characters \<open>sanitize_detail\<close> removes are bytes, and its limit of 1,024 characters is one of
  bytes.
\<close>

definition is_ascii_control :: "char \<Rightarrow> bool" where
  "is_ascii_control c \<longleftrightarrow> of_char c < (32::nat) \<or> of_char c = (127::nat)"

definition sanitize_detail :: "string \<Rightarrow> string" where
  "sanitize_detail d = take 1024 (filter (\<lambda>c. \<not> is_ascii_control c) d)"

record validation_issue =
  vi_code :: validation_issue_code
  vi_eye :: "eye option"
  vi_detail :: string

definition new_issue :: "validation_issue_code \<Rightarrow> eye option \<Rightarrow> string \<Rightarrow> validation_issue" where
  "new_issue code e detail =
     \<lparr>vi_code = code, vi_eye = e, vi_detail = sanitize_detail detail\<rparr>"

definition check_that ::
    "bool \<Rightarrow> validation_issue_code \<Rightarrow> eye option \<Rightarrow> string \<Rightarrow> validation_issue list" where
  "check_that condition code e detail = (if condition then [] else [new_issue code e detail])"

lemma check_that_Nil [simp]: "check_that c code e d = [] \<longleftrightarrow> c"
  by (simp add: check_that_def)

record verdict =
  vd_passed :: bool
  vd_issues :: "validation_issue list"

definition from_issues :: "validation_issue list \<Rightarrow> verdict" where
  "from_issues issues = \<lparr>vd_passed = (issues = []), vd_issues = issues\<rparr>"

lemma from_issues_sel [simp]:
  "vd_passed (from_issues issues) \<longleftrightarrow> issues = []" "vd_issues (from_issues issues) = issues"
  by (simp_all add: from_issues_def)

datatype validation_error =
    InvalidPartialPath
  | VlUnsafeRelativePath string
  | InvalidKeyframeInventory
  | InvalidEyePair
  | InvalidQualityEvidence
  | VerdictFailed

section \<open>Evidence\<close>

record output_media_evidence =
  om_eye :: eye
  om_partial_path :: string
  om_manifest_relative_path :: string
  om_profile_revision :: profile_revision
  om_size_bytes :: u64
  om_sha256 :: content_sha256
  om_codec :: video_codec
  om_codec_profile :: hevc_profile
  om_container :: container_format
  om_sample_entry :: sample_entry
  om_pixel_format :: pixel_format
  om_dimensions :: dimensions
  om_frame_rate :: rational
  om_time_base :: rational
  om_frame_count :: u64
  om_duration_ticks :: u64
  om_video_track_count :: "8 word"
  om_audio_track_count :: "8 word"
  om_first_frame_decodable :: bool
  om_closed_gop :: bool
  om_scene_cut_keyframes_detected :: bool
  om_keyframe_frames :: "u64 list"
  om_fully_decoded :: bool
  om_decoded_frame_count :: u64

text \<open>
  \<open>Path::components\<close> skips empty names and every \<open>.\<close> but a leading one; here only
  ordinary names may remain, so \<open>..\<close> is refused.
\<close>

definition output_path_ok :: "bool \<Rightarrow> string \<Rightarrow> bool" where
  "output_path_ok windows path \<longleftrightarrow>
     path \<noteq> [] \<and> CHR 0x5C \<notin> set path \<and> CHR 0x00 \<notin> set path
     \<and> \<not> absolute_or_prefixed windows path
     \<and> (let names = split_at_char (CHR ''/'') path
        in hd names \<noteq> ''.'' \<and> list_all (\<lambda>n. n \<noteq> ''..'') names)"

definition new_output_media_evidence ::
    "bool \<Rightarrow> output_media_evidence \<Rightarrow> validation_error + output_media_evidence" where
  "new_output_media_evidence windows o' =
     and_then (ensure (output_path_ok windows (om_manifest_relative_path o'))
        (VlUnsafeRelativePath (om_manifest_relative_path o'))) (\<lambda>_.
     and_then (ensure (om_partial_path o' \<noteq> []) InvalidPartialPath) (\<lambda>_.
     and_then (ensure (strictly_increasing (om_keyframe_frames o')) InvalidKeyframeInventory) (\<lambda>_.
     Inr o')))"

record quality_evidence =
  qe_eye :: eye
  qe_vmaf_neg_model :: string
  qe_vmaf_mean_milli :: u32
  qe_vmaf_frame_p01_milli :: u32
  qe_ssim_mean_millionths :: u32
  qe_stereo_domain_metrics_passed :: bool
  qe_report_digest :: content_sha256

definition new_quality_evidence :: "quality_evidence \<Rightarrow> validation_error + quality_evidence" where
  "new_quality_evidence q =
     and_then (ensure (short_text 256 (qe_vmaf_neg_model q)
          \<and> qe_vmaf_mean_milli q \<le> 100000 \<and> qe_vmaf_frame_p01_milli q \<le> 100000
          \<and> qe_ssim_mean_millionths q \<le> 1000000)
        InvalidQualityEvidence) (\<lambda>_. Inr q)"

section \<open>The checks\<close>

definition abs_diff :: "u64 \<Rightarrow> u64 \<Rightarrow> u64" where
  "abs_diff a b = (if a < b then b - a else a - b)"

definition saturating_sub :: "u64 \<Rightarrow> u64 \<Rightarrow> u64" where
  "saturating_sub a b = (if b \<le> a then a - b else 0)"

definition checked_div :: "'a::len word \<Rightarrow> 'a word \<Rightarrow> 'a word option" where
  "checked_div a b = (if b = 0 then None else Some (a div b))"

definition or_else :: "'a option \<Rightarrow> 'a \<Rightarrow> 'a" where
  "or_else r d = (case r of None \<Rightarrow> d | Some x \<Rightarrow> x)"

fun output_relative_path :: "segment_pair_plan \<Rightarrow> eye \<Rightarrow> string" where
  "output_relative_path plan LeftEye = sp_left_output plan"
| "output_relative_path plan RightEye = sp_right_output plan"

definition gop_frames :: "normalization_profile \<Rightarrow> rational \<Rightarrow> profile_error + u64" where
  "gop_frames profile fps =
     (case frames_in_whole_seconds fps (pr_gop_seconds (np_material profile)) of
        Inl e \<Rightarrow> Inl (PfRational e) | Inr n \<Rightarrow> Inr n)"

definition gop_limit :: "normalization_profile \<Rightarrow> output_media_evidence \<Rightarrow> u64" where
  "gop_limit profile out =
     (case gop_frames profile (om_frame_rate out) of Inl _ \<Rightarrow> 0 | Inr n \<Rightarrow> n)"

fun spaced_by :: "u64 \<Rightarrow> u64 list \<Rightarrow> bool" where
  "spaced_by gap (a # b # rest) = (b - a = gap \<and> spaced_by gap (b # rest))"
| "spaced_by gap _ = True"

definition gaps_ok :: "u64 \<Rightarrow> u64 list \<Rightarrow> u64 \<Rightarrow> bool" where
  "gaps_ok limit keyframes frame_count \<longleftrightarrow>
     keyframes \<noteq> [] \<and> hd keyframes = 0 \<and> spaced_by limit keyframes
     \<and> saturating_sub frame_count (last keyframes) \<le> limit"

definition validate_output_structure ::
    "segment_pair_plan \<Rightarrow> normalization_profile \<Rightarrow> output_media_evidence \<Rightarrow> eye
     \<Rightarrow> validation_issue list" where
  "validate_output_structure plan profile out e =
     (let m = np_material profile; check = (\<lambda>c code. check_that c code (Some e))
      in check (om_eye out = e) WrongEye ''wrong eye role''
       @ check (om_profile_revision out = np_profile_revision profile) WrongProfileRevision
           ''output profile revision differs from the plan''
       @ check (om_manifest_relative_path out = output_relative_path plan e) WrongOutputPath
           ''output relative path differs from the paired plan''
       @ check (om_size_bytes out > 0) EmptyOutput ''output is empty''
       @ check (om_codec out = pr_codec m) CodecMismatch ''output codec differs from profile''
       @ check (om_codec_profile out = pr_codec_profile m) CodecProfileMismatch
           ''output codec profile differs from profile''
       @ check (om_container out = pr_container m) ContainerMismatch
           ''output container differs from profile''
       @ check (om_sample_entry out = pr_sample_entry m) SampleEntryMismatch
           ''output sample entry is not hvc1''
       @ check (om_pixel_format out = pr_pixel_format m) PixelFormatMismatch
           ''output pixel format differs from profile''
       @ check (om_dimensions out = sp_eye_dimensions plan) GeometryMismatch
           ''output dimensions differ from the eye plan''
       @ check (om_frame_count out = sp_frame_count plan) FrameCountMismatch
           ''output frame count differs from source plan''
       @ check (abs_diff (om_duration_ticks out) (sp_duration_ticks plan)
             \<le> saturating_add
                 (or_else (checked_div (sp_duration_ticks plan) (sp_frame_count plan)) 0) 900)
           DurationMismatch ''output duration differs by more than one frame plus 10ms''
       @ check (om_video_track_count out = 1 \<and> om_audio_track_count out = 0) ExtraTrack
           ''output must contain one video track and no audio''
       @ check (om_first_frame_decodable out) FirstFrameNotDecodable
           ''first frame is not independently decodable''
       @ check (om_closed_gop out) OpenGop ''output contains an open GOP''
       @ check (\<not> om_scene_cut_keyframes_detected out) SceneCutKeyframe
           ''scene-cut introduced an unplanned keyframe''
       @ check (gaps_ok (gop_limit profile out) (om_keyframe_frames out) (om_frame_count out))
           GopTooLong ''keyframe inventory violates the fixed GOP''
       @ check (om_frame_rate out = sp_source_fps plan) FrameRateMismatch
           ''output frame rate is invalid''
       @ check (om_time_base out = pr_time_base m) TimeBaseMismatch
           ''output time base is not 1/90000'')"

definition validate_full_decode ::
    "segment_pair_plan \<Rightarrow> output_media_evidence \<Rightarrow> validation_issue list" where
  "validate_full_decode plan out =
     check_that (om_fully_decoded out) FullDecodeFailed (Some (om_eye out))
       ''full decode under fail-on-error mode did not complete''
     @ check_that (om_decoded_frame_count out = sp_frame_count plan) DecodeFrameCountMismatch
       (Some (om_eye out)) ''decoded frame count differs from the source plan''"

definition validate_quality ::
    "normalization_profile \<Rightarrow> quality_evidence \<Rightarrow> validation_issue list" where
  "validate_quality profile q =
     (let t = pr_quality_thresholds (np_material profile); e = Some (qe_eye q)
      in check_that (qe_vmaf_neg_model q = qt_vmaf_neg_model t) VmafMeanBelowThreshold e
           ''VMAF NEG model version differs from the exact profile''
       @ check_that (\<not> qe_vmaf_mean_milli q < qt_vmaf_mean_milli_min t) VmafMeanBelowThreshold e
           ''VMAF mean is below the profile threshold''
       @ check_that (\<not> qe_vmaf_frame_p01_milli q < qt_vmaf_frame_p01_milli_min t)
           VmafFrameP01BelowThreshold e
           ''VMAF frame 1st percentile is below the profile threshold''
       @ check_that (\<not> qe_ssim_mean_millionths q < qt_ssim_mean_millionths_min t)
           SsimMeanBelowThreshold e ''SSIM mean is below the profile threshold''
       @ check_that (\<not> (qt_stereo_metrics_required t \<and> \<not> qe_stereo_domain_metrics_passed q))
           StereoDomainMetricFailed e ''stereo/CV domain metrics did not pass'')"

text \<open>
  The allowed difference between the two durations. The number of frames is cut to 32 bits
  for the fallback only, which is reached only when there are none.
\<close>

definition one_frame_ticks :: "segment_pair_plan \<Rightarrow> normalization_profile \<Rightarrow> u64" where
  "one_frame_ticks plan profile =
     (let frame_ticks = or_else
            (checked_div (ra_denominator (pr_time_base (np_material profile)))
               (ucast (min (sp_frame_count plan) 0xFFFFFFFF) :: u32)) 0
      in or_else (checked_div (sp_duration_ticks plan) (sp_frame_count plan))
           (ucast frame_ticks))"

definition validate_sync ::
    "segment_pair_plan \<Rightarrow> normalization_profile \<Rightarrow> output_media_evidence \<Rightarrow> output_media_evidence
     \<Rightarrow> validation_issue list" where
  "validate_sync plan profile left right =
     (let delta = abs_diff (om_duration_ticks left) (om_duration_ticks right)
      in check_that (om_frame_count left = om_frame_count right) StereoFrameCountMismatch None
           ''left and right frame counts differ''
       @ check_that (\<not> delta > one_frame_ticks plan profile) StereoDurationMismatch None
           (''left/right duration delta is '' @ decimal (unat delta) @ '' ticks'')
       @ check_that (om_keyframe_frames left = om_keyframe_frames right) StereoKeyframeMismatch None
           ''left and right keyframe positions differ'')"

section \<open>The report and the validated pair\<close>

record segment_validation_report =
  rp_segment_index :: u32
  rp_left :: output_media_evidence
  rp_right :: output_media_evidence
  rp_left_quality :: quality_evidence
  rp_right_quality :: quality_evidence
  rp_structural :: verdict
  rp_full_decode :: verdict
  rp_sync :: verdict
  rp_quality :: verdict

definition evaluate ::
    "segment_pair_plan \<Rightarrow> normalization_profile \<Rightarrow> output_media_evidence \<Rightarrow> output_media_evidence
     \<Rightarrow> quality_evidence \<Rightarrow> quality_evidence \<Rightarrow> validation_error + segment_validation_report" where
  "evaluate plan profile left right left_quality right_quality =
     and_then (ensure (om_eye left = LeftEye \<and> om_eye right = RightEye
          \<and> qe_eye left_quality = LeftEye \<and> qe_eye right_quality = RightEye) InvalidEyePair) (\<lambda>_.
     Inr \<lparr>rp_segment_index = sp_segment_index plan, rp_left = left, rp_right = right,
          rp_left_quality = left_quality, rp_right_quality = right_quality,
          rp_structural = from_issues
            (validate_output_structure plan profile left LeftEye
             @ validate_output_structure plan profile right RightEye),
          rp_full_decode = from_issues
            (validate_full_decode plan left @ validate_full_decode plan right),
          rp_sync = from_issues (validate_sync plan profile left right),
          rp_quality = from_issues
            (validate_quality profile left_quality @ validate_quality profile right_quality)\<rparr>)"

definition report_passed :: "segment_validation_report \<Rightarrow> bool" where
  "report_passed r \<longleftrightarrow>
     vd_passed (rp_structural r) \<and> vd_passed (rp_full_decode r)
     \<and> vd_passed (rp_sync r) \<and> vd_passed (rp_quality r)"

text \<open>A \<open>ValidatedSegmentPair\<close> is its report; this is its only constructor.\<close>

definition try_from_report ::
    "segment_validation_report \<Rightarrow> validation_error + segment_validation_report" where
  "try_from_report r = and_then (ensure (report_passed r) VerdictFailed) (\<lambda>_. Inr r)"

section \<open>What a validated pair guarantees\<close>

lemma spaced_values:
  assumes "spaced_by g ks" and "strictly_increasing ks" and "i < length ks"
  shows "unat (ks ! i) = unat (hd ks) + i * unat g"
  using assms
proof (induction g ks arbitrary: i rule: spaced_by.induct)
  case (1 g a b rest)
  from 1 have less: "a < b" and g: "g = b - a" by simp_all
  from less have "unat (b - a) = unat b - unat a" "unat a < unat b"
    by (simp_all add: unat_sub less_imp_le word_less_nat_alt)
  then have b: "unat b = unat a + unat g" by (simp add: g)
  have "j < length (b # rest) \<Longrightarrow> unat ((b # rest) ! j) = unat b + j * unat g" for j
    using "1.IH" "1.prems"(1,2) by simp
  from this [of "i - 1"] "1.prems"(3) show ?case
    by (cases i) (simp_all add: b algebra_simps)
qed simp_all

text \<open>Every frame before \<open>n\<close> has a keyframe at most \<open>g - 1\<close> frames before it, or at it.\<close>

definition gop_covers :: "nat \<Rightarrow> u64 list \<Rightarrow> nat \<Rightarrow> bool" where
  "gop_covers g ks n \<longleftrightarrow> (\<forall>f < n. \<exists>k \<in> set ks. unat k \<le> f \<and> f < unat k + g)"

lemma unat_saturating_sub: "unat (saturating_sub a b) = unat a - unat b"
  by (auto simp: saturating_sub_def unat_sub word_le_nat_alt not_le)

lemma gaps_ok_covers:
  assumes "gaps_ok g ks n" and "strictly_increasing ks"
  shows "gop_covers (unat g) ks (unat n)"
  unfolding gop_covers_def
proof (intro allI impI)
  fix f assume f: "f < unat n"
  have ks: "ks \<noteq> []" "hd ks = 0" "spaced_by g ks" "unat n - unat (last ks) \<le> unat g"
    using assms(1) by (auto simp: gaps_ok_def word_le_nat_alt unat_saturating_sub)
  note v = spaced_values [OF ks(3) assms(2)]
  let ?m = "length ks - 1"
  have m: "?m < length ks" using ks(1) by simp
  have last: "unat (last ks) = ?m * unat g"
    using v [OF m] ks by (simp add: last_conv_nth)
  have g: "0 < unat g"
  proof (rule ccontr)
    assume "\<not> 0 < unat g"
    with last ks(4) f show False by simp
  qed
  let ?i = "min (f div unat g) ?m"
  have i: "?i < length ks" using m by simp
  have "unat (ks ! ?i) = ?i * unat g" using v [OF i] ks(2) by simp
  moreover have "?i * unat g \<le> f"
    by (meson div_times_less_eq_dividend le_trans min.cobounded1 mult_le_mono1)
  moreover have "f < ?i * unat g + unat g"
  proof (cases "f div unat g \<le> ?m")
    case True
    then show ?thesis using g by (simp add: min_def) (metis dividend_less_div_times add.commute)
  next
    case False
    then show ?thesis using f ks(4) last by (simp add: min_def)
  qed
  ultimately show "\<exists>k \<in> set ks. unat k \<le> f \<and> f < unat k + unat g"
    using i by (metis nth_mem)
qed

lemma evaluate_Inr:
  assumes "evaluate plan profile l r lq rq = Inr report"
  shows "rp_left report = l" "rp_right report = r" "rp_segment_index report = sp_segment_index plan"
    and "report_passed report \<longleftrightarrow>
      validate_output_structure plan profile l LeftEye = []
      \<and> validate_output_structure plan profile r RightEye = []
      \<and> validate_full_decode plan l = [] \<and> validate_full_decode plan r = []
      \<and> validate_sync plan profile l r = []
      \<and> validate_quality profile lq = [] \<and> validate_quality profile rq = []"
  using assms by (auto simp: evaluate_def report_passed_def)

lemma structure_ok:
  assumes "validate_output_structure plan profile out e = []"
  shows "om_profile_revision out = np_profile_revision profile"
    and "om_manifest_relative_path out = output_relative_path plan e"
    and "om_size_bytes out > 0" and "om_dimensions out = sp_eye_dimensions plan"
    and "om_frame_count out = sp_frame_count plan" and "om_frame_rate out = sp_source_fps plan"
    and "gaps_ok (gop_limit profile out) (om_keyframe_frames out) (om_frame_count out)"
    and "om_codec out = pr_codec (np_material profile)"
  using assms
  unfolding validate_output_structure_def Let_def append_is_Nil_conv check_that_Nil by blast+


subsection \<open>A pair of four seconds\<close>

definition gate_rational :: "u32 \<Rightarrow> u32 \<Rightarrow> rational" where
  "gate_rational n d = \<lparr>ra_numerator = n, ra_denominator = d\<rparr>"

definition gate_plan :: segment_pair_plan where
  "gate_plan =
     \<lparr>sp_segment_index = 0, sp_first_frame = 0, sp_frame_count = 100, sp_start_ticks = 0,
      sp_duration_ticks = 300000, sp_source_fps = gate_rational 30 1,
      sp_eye_dimensions = \<lparr>dim_width = 1920, dim_height = 1080\<rparr>,
      sp_left = \<lparr>ey_eye = LeftEye, ey_slices = [], ey_crop = None\<rparr>,
      sp_right = \<lparr>ey_eye = RightEye, ey_slices = [], ey_crop = None\<rparr>,
      sp_left_output = ''video/pairs/00000/left.mp4'',
      sp_right_output = ''video/pairs/00000/right.mp4''\<rparr>"

definition gate_profile :: normalization_profile where
  "gate_profile = projr (candidate_profile (\<lambda>_. ''rev'') MjpegCrf20)"

definition gate_output :: "eye \<Rightarrow> output_media_evidence" where
  "gate_output e =
     \<lparr>om_eye = e, om_partial_path = ''tmp'',
      om_manifest_relative_path = output_relative_path gate_plan e,
      om_profile_revision = ''rev'', om_size_bytes = 10, om_sha256 = [], om_codec = CodecHevc,
      om_codec_profile = HevcMain, om_container = Mp4, om_sample_entry = Hvc1,
      om_pixel_format = Yuv420p, om_dimensions = \<lparr>dim_width = 1920, dim_height = 1080\<rparr>,
      om_frame_rate = gate_rational 30 1, om_time_base = gate_rational 1 90000,
      om_frame_count = 100, om_duration_ticks = 300000, om_video_track_count = 1,
      om_audio_track_count = 0, om_first_frame_decodable = True, om_closed_gop = True,
      om_scene_cut_keyframes_detected = False, om_keyframe_frames = [0, 60],
      om_fully_decoded = True, om_decoded_frame_count = 100\<rparr>"

definition gate_quality :: "eye \<Rightarrow> quality_evidence" where
  "gate_quality e =
     \<lparr>qe_eye = e, qe_vmaf_neg_model = ''vmaf_v0.6.1neg'', qe_vmaf_mean_milli = 96000,
      qe_vmaf_frame_p01_milli = 91000, qe_ssim_mean_millionths = 995000,
      qe_stereo_domain_metrics_passed = True, qe_report_digest = []\<rparr>"

definition gate_report :: segment_validation_report where
  "gate_report =
     projr (evaluate gate_plan gate_profile (gate_output LeftEye) (gate_output RightEye)
       (gate_quality LeftEye) (gate_quality RightEye))"

lemma gate_limit: "gop_limit gate_profile (gate_output e) = 60"
  by (simp add: gop_limit_def gop_frames_def gate_profile_def candidate_profile_def sample_time_base
      gate_output_def gate_rational_def frames_in_whole_seconds_def Let_def option_ok_def
      checked_mul_def ensure_def)

lemma gate_structure:
  "validate_output_structure gate_plan gate_profile (gate_output LeftEye) LeftEye = []"
  "validate_output_structure gate_plan gate_profile (gate_output RightEye) RightEye = []"
  unfolding validate_output_structure_def Let_def gate_limit
  by (simp_all add: gate_profile_def candidate_profile_def sample_time_base
      gate_output_def gate_rational_def gate_plan_def gaps_ok_def saturating_sub_def abs_diff_def
      Let_def)

lemma gate_evaluate:
  "evaluate gate_plan gate_profile (gate_output LeftEye) (gate_output RightEye)
     (gate_quality LeftEye) (gate_quality RightEye) = Inr gate_report"
  by (simp add: gate_report_def evaluate_def ensure_def gate_output_def gate_quality_def)

lemma gate_passed: "try_from_report gate_report = Inr gate_report"
proof -
  have "validate_full_decode gate_plan (gate_output e) = []" for e
    by (simp add: validate_full_decode_def gate_output_def gate_plan_def)
  moreover have "validate_sync gate_plan gate_profile (gate_output LeftEye) (gate_output RightEye) = []"
    by (simp add: validate_sync_def gate_output_def abs_diff_def Let_def)
  moreover have "validate_quality gate_profile (gate_quality e) = []" for e
    by (simp add: validate_quality_def gate_quality_def gate_profile_def candidate_profile_def
        sample_time_base proposed_v1_def Let_def)
  ultimately show ?thesis
    by (simp add: try_from_report_def evaluate_Inr(4) [OF gate_evaluate] gate_structure ensure_def)
qed

lemma gate_evidence: "new_output_media_evidence False (gate_output LeftEye) = Inr (gate_output LeftEye)"
proof -
  have "output_path_ok False ''video/pairs/00000/left.mp4''" by code_simp
  then show ?thesis
    by (simp add: new_output_media_evidence_def gate_output_def gate_plan_def ensure_def)
qed


end
