(* ===== verification/Media_Plan.thy ===== *)
theory Media_Plan
  imports Media_Types "HOL-Library.List_Lexorder" "HOL-Library.Char_ord"
begin

text \<open>
  The media planner (the second half of \<open>normalization/plan.rs\<close>): the probes of a recording are
  reconciled with its artifacts, turned into runs of frames per eye, and cut into segment
  pairs of at most \<open>segment_seconds\<close> each. Rust's \<open>BTreeMap\<close> keyed by the artifact id is
  the list of its values in the order of the ids (bytewise, as \<open>String\<close>'s \<open>Ord\<close>). Its
  indexing, the index \<open>segments[0]\<close> and the \<open>expect\<close> calls panic where the model
  has \<^const>\<open>the\<close> or \<^const>\<open>hd\<close>; the lemmas \<open>lookup_reconciled\<close> and \<open>runs_nonempty\<close> show that
  these are never reached without a value.
\<close>

section \<open>Probes\<close>

fun last_wins :: "probe_report \<Rightarrow> probe_report" where
  "last_wins [] = []"
| "last_wins (p # ps) =
     (if pb_artifact_id p \<in> set (map pb_artifact_id ps) then last_wins ps else p # last_wins ps)"

definition probe_map :: "probe_report \<Rightarrow> probe_report" where
  "probe_map report = sort_key pb_artifact_id (last_wins report)"

definition probe_at :: "probe_report \<Rightarrow> source_artifact_id \<Rightarrow> probed_artifact" where
  "probe_at probes aid = the (find (\<lambda>p. pb_artifact_id p = aid) probes)"

fun first_repeated :: "string list \<Rightarrow> string list \<Rightarrow> string option" where
  "first_repeated seen [] = None"
| "first_repeated seen (x # xs) = (if x \<in> set seen then Some x else first_repeated (x # seen) xs)"

definition reconcile_probes ::
    "normalization_input \<Rightarrow> probe_report \<Rightarrow> media_plan_error + probe_report" where
  "reconcile_probes input report =
     (let ids = map ra_id (input_artifacts input); actual = probe_map report
      in case first_repeated [] ids of
           Some duplicate \<Rightarrow> Inl (MpDuplicateArtifact duplicate)
         | None \<Rightarrow>
             (case find (\<lambda>i. i \<notin> set (map pb_artifact_id actual)) (sort ids) of
                Some missing \<Rightarrow> Inl (MpMissingProbe missing)
              | None \<Rightarrow>
                  (case find (\<lambda>i. i \<notin> set ids) (map pb_artifact_id actual) of
                     Some unexpected \<Rightarrow> Inl (MpUnexpectedProbe unexpected)
                   | None \<Rightarrow> Inr actual)))"

fun common_contract ::
    "video_codec \<Rightarrow> rational option \<Rightarrow> probe_report \<Rightarrow> media_plan_error + unit" where
  "common_contract codec fps [] = Inr ()"
| "common_contract codec fps (p # ps) =
     and_then (ensure (pb_codec p = codec) (MpCodecMismatch (pb_artifact_id p) codec (pb_codec p))) (\<lambda>_.
     and_then (ensure (pb_video_track_count p = 1 \<and> pb_audio_track_count p = 0)
        (MpTrackLayoutMismatch (pb_artifact_id p))) (\<lambda>_.
     and_then (ensure (case fps of None \<Rightarrow> True | Some f \<Rightarrow> f = pb_frame_rate p)
        (MpFrameRateMismatch (pb_artifact_id p))) (\<lambda>_.
     common_contract codec (Some (pb_frame_rate p)) ps)))"

definition validate_common_probe_contract ::
    "normalization_input \<Rightarrow> probe_report \<Rightarrow> media_plan_error + unit" where
  "validate_common_probe_contract input probes = common_contract (source_codec input) None probes"

section \<open>Input sequences\<close>

definition index_sequence :: "u32 list \<Rightarrow> bool" where
  "index_sequence indexes \<longleftrightarrow> indexes \<noteq> [] \<and> map unat indexes = [0..<length indexes]"

definition validate_segment_sequence :: "source_segment list \<Rightarrow> media_plan_error + unit" where
  "validate_segment_sequence segments =
     ensure (index_sequence (map ss_segment_index segments)) MpInvalidSegmentSequence"

definition validate_paired_segment_sequence ::
    "paired_source_segment list \<Rightarrow> media_plan_error + unit" where
  "validate_paired_segment_sequence segments =
     ensure (index_sequence (map ps_segment_index segments)) MpInvalidSegmentSequence"

fun validate_input_sequences :: "normalization_input \<Rightarrow> media_plan_error + unit" where
  "validate_input_sequences (InRawCaptureV2 _ evidence) =
     ensure (raw_evidence_ok evidence) MpInvalidRawFrameEvidence"
| "validate_input_sequences (InLegacyMjpegSessionV5 segments evidence) =
     and_then (validate_segment_sequence segments) (\<lambda>_.
     ensure (legacy_evidence_ok evidence) MpInvalidLegacyTimingEvidence)"
| "validate_input_sequences (InApplianceSpoolV6 segments _) = validate_segment_sequence segments"
| "validate_input_sequences (InUnsignedMjpegPublicationV1 segments _) =
     validate_segment_sequence segments"
| "validate_input_sequences (InCompleteUnpublishedV6 segments _) =
     validate_paired_segment_sequence segments"
| "validate_input_sequences (InPairedH264PublicationV1 segments _) =
     validate_paired_segment_sequence segments"
| "validate_input_sequences (InUnsignedPairedH264PublicationV1 segments _) =
     validate_paired_segment_sequence segments"

section \<open>Runs\<close>

record paired_run =
  pn_left :: probed_artifact
  pn_right :: probed_artifact
  pn_frame_count :: u64

definition ensure_eye_dimensions ::
    "dimensions option \<Rightarrow> dimensions \<Rightarrow> u32 \<Rightarrow> media_plan_error + dimensions option" where
  "ensure_eye_dimensions expected actual index =
     and_then (ensure (case expected of None \<Rightarrow> True | Some d \<Rightarrow> d = actual)
        (MpPairedEyeMismatch index ''eye dimensions change between segments'')) (\<lambda>_.
     Inr (Some actual))"

definition side_by_side_eye_dimensions :: "dimensions \<Rightarrow> media_plan_error + dimensions" where
  "side_by_side_eye_dimensions source =
     and_then (ensure (dim_width source mod 2 = 0) (MpOddStereoWidth (dim_width source))) (\<lambda>_.
     new_dimensions (dim_width source div 2) (dim_height source))"

fun side_by_side_runs ::
    "probe_report \<Rightarrow> dimensions option \<Rightarrow> source_segment list
     \<Rightarrow> media_plan_error + paired_run list \<times> dimensions option" where
  "side_by_side_runs probes expected [] = Inr ([], expected)"
| "side_by_side_runs probes expected (s # ss) =
     (let probe = probe_at probes (ra_id (ss_artifact s))
      in and_then (side_by_side_eye_dimensions (pb_dimensions probe)) (\<lambda>d.
         and_then (ensure_eye_dimensions expected d (ss_segment_index s)) (\<lambda>expected'.
         and_then (side_by_side_runs probes expected' ss) (\<lambda>(runs, final).
         Inr (\<lparr>pn_left = probe, pn_right = probe, pn_frame_count = pb_frame_count probe\<rparr> # runs,
              final)))))"

fun legacy_runs ::
    "probe_report \<Rightarrow> dimensions option \<Rightarrow> source_segment list
     \<Rightarrow> media_plan_error + paired_run list \<times> dimensions option" where
  "legacy_runs probes expected [] = Inr ([], expected)"
| "legacy_runs probes expected (s # ss) =
     (let probe = probe_at probes (ra_id (ss_artifact s))
      in and_then (ensure (pb_first_pts probe = 0) (MpLegacyPtsNotReset (pb_artifact_id probe))) (\<lambda>_.
         and_then (side_by_side_eye_dimensions (pb_dimensions probe)) (\<lambda>d.
         and_then (ensure_eye_dimensions expected d (ss_segment_index s)) (\<lambda>expected'.
         and_then (legacy_runs probes expected' ss) (\<lambda>(runs, final).
         Inr (\<lparr>pn_left = probe, pn_right = probe, pn_frame_count = pb_frame_count probe\<rparr> # runs,
              final))))))"

fun paired_eye_runs ::
    "probe_report \<Rightarrow> dimensions option \<Rightarrow> paired_source_segment list
     \<Rightarrow> media_plan_error + paired_run list \<times> dimensions option" where
  "paired_eye_runs probes expected [] = Inr ([], expected)"
| "paired_eye_runs probes expected (s # ss) =
     (let left = probe_at probes (ra_id (ps_left s)); right = probe_at probes (ra_id (ps_right s))
      in and_then (ensure (pb_dimensions left = pb_dimensions right
               \<and> pb_frame_rate left = pb_frame_rate right
               \<and> pb_frame_count left = pb_frame_count right)
            (MpPairedEyeMismatch (ps_segment_index s)
               ''dimensions, frame rate, and frame count must match'')) (\<lambda>_.
         and_then (ensure_eye_dimensions expected (pb_dimensions left) (ps_segment_index s))
            (\<lambda>expected'.
         and_then (paired_eye_runs probes expected' ss) (\<lambda>(runs, final).
         Inr (\<lparr>pn_left = left, pn_right = right, pn_frame_count = pb_frame_count left\<rparr> # runs,
              final)))))"

type_synonym run_plan = "paired_run list \<times> dimensions \<times> timing_basis \<times> u64 option"

fun build_runs ::
    "normalization_input \<Rightarrow> probe_report \<Rightarrow> rational \<Rightarrow> media_plan_error + run_plan" where
  "build_runs (InRawCaptureV2 stereo evidence) probes fps =
     and_then (ensure (rf_declared_source_fps evidence = fps) (MpFrameRateMismatch (ra_id stereo))) (\<lambda>_.
     let probe = probe_at probes (ra_id stereo)
     in and_then (side_by_side_eye_dimensions (pb_dimensions probe)) (\<lambda>d.
        Inr ([\<lparr>pn_left = probe, pn_right = probe, pn_frame_count = pb_frame_count probe\<rparr>], d,
             RawFrameIndex, Some (rf_declared_frame_count evidence))))"
| "build_runs (InLegacyMjpegSessionV5 segments evidence) probes fps =
     and_then (ensure (lt_declared_source_fps evidence = fps)
        (MpFrameRateMismatch (ra_id (ss_artifact (hd segments))))) (\<lambda>_.
     and_then (legacy_runs probes None segments) (\<lambda>(runs, d).
     Inr (runs, the d, LegacyV5ResetPtsAccumulated, Some (lt_declared_total_frames evidence))))"
| "build_runs (InApplianceSpoolV6 segments _) probes fps =
     and_then (side_by_side_runs probes None segments) (\<lambda>(runs, d).
     Inr (runs, the d, CaptureCommitSegmentOrder, None))"
| "build_runs (InUnsignedMjpegPublicationV1 segments _) probes fps =
     and_then (side_by_side_runs probes None segments) (\<lambda>(runs, d).
     Inr (runs, the d, UnsignedPublicationSideBySideOrder, None))"
| "build_runs (InCompleteUnpublishedV6 segments _) probes fps =
     and_then (paired_eye_runs probes None segments) (\<lambda>(runs, d).
     Inr (runs, the d, CompleteUnpublishedPairOrder, None))"
| "build_runs (InPairedH264PublicationV1 segments _) probes fps =
     and_then (paired_eye_runs probes None segments) (\<lambda>(runs, d).
     Inr (runs, the d, SignedPublicationPairOrder, None))"
| "build_runs (InUnsignedPairedH264PublicationV1 segments _) probes fps =
     and_then (paired_eye_runs probes None segments) (\<lambda>(runs, d).
     Inr (runs, the d, UnsignedPublicationPairOrder, None))"

section \<open>Cutting the runs\<close>

text \<open>\<open>i64::try_from\<close> a \<open>u64\<close>, and \<open>checked_add\<close> on \<open>i64\<close>.\<close>

definition i64_try_from :: "u64 \<Rightarrow> i64 option" where
  "i64_try_from v = (if unat v < 2 ^ 63 then Some v else None)"

definition i64_checked_add :: "i64 \<Rightarrow> i64 \<Rightarrow> i64 option" where
  "i64_checked_add a b =
     (if - (2 ^ 63) \<le> sint a + sint b \<and> sint a + sint b < 2 ^ 63 then Some (a + b) else None)"

lemma and_then_cong [fundef_cong]:
  "r = r' \<Longrightarrow> (\<And>x. r' = Inr x \<Longrightarrow> f x = g x) \<Longrightarrow> and_then r f = and_then r' g"
  by (cases r') auto

definition mp_rational :: "rational_error + 'a \<Rightarrow> media_plan_error + 'a" where
  "mp_rational r = (case r of Inl e \<Rightarrow> Inl (MpRational e) | Inr x \<Rightarrow> Inr x)"

definition make_slice ::
    "probed_artifact \<Rightarrow> u64 \<Rightarrow> u64 \<Rightarrow> u64 \<Rightarrow> rational \<Rightarrow> media_plan_error + frame_slice" where
  "make_slice probe first count session_first fps =
     and_then (mp_rational (ticks_for_frames fps first (pb_time_base probe))) (\<lambda>ticks.
     and_then (option_ok MpArithmeticOverflow (i64_try_from ticks)) (\<lambda>pts_offset.
     and_then (option_ok MpArithmeticOverflow (i64_checked_add (pb_first_pts probe) pts_offset)) (\<lambda>pts.
     Inr \<lparr>fs_artifact_id = pb_artifact_id probe, fs_first_frame = first, fs_frame_count = count,
          fs_source_pts_first = pts, fs_source_time_base = pb_time_base probe,
          fs_session_first_frame = session_first\<rparr>)))"

text \<open>
  The inner \<open>while\<close> of \<open>partition_runs\<close>: the list holds the runs from \<open>run_index\<close> on, the
  number is \<open>frame_in_run\<close>.
\<close>

type_synonym slices =
  "(frame_slice list \<times> frame_slice list) \<times> paired_run list \<times> u64"

lemma unat_diff_less:
  assumes "(a :: 'a::len word) \<le> b"
  shows "unat (b - a) = unat b - unat a"
  using assms by (simp add: unat_sub)

lemma unat_min: "unat (min (a :: 'a::len word) b) = min (unat a) (unat b)"
  by (simp add: min_def word_le_nat_alt)

lemma took_leaves_less:
  fixes available cursor pair_end :: u64
  assumes "cursor < pair_end" and "min available (pair_end - cursor) \<noteq> available"
  shows "unat (pair_end - (cursor + min available (pair_end - cursor))) < unat (pair_end - cursor)"
proof -
  from assms(2) have "min available (pair_end - cursor) = pair_end - cursor"
    by (auto simp: min_def split: if_splits)
  moreover have "unat (pair_end - cursor) = unat pair_end - unat cursor"
    using assms(1) by (simp add: unat_diff_less)
  ultimately show ?thesis
    using assms(1) by (simp add: word_less_nat_alt)
qed

function slice_pair ::
    "rational \<Rightarrow> paired_run list \<Rightarrow> u64 \<Rightarrow> u64 \<Rightarrow> u64 \<Rightarrow> media_plan_error + slices" where
  "slice_pair fps runs frame_in_run cursor pair_end =
     (if cursor < pair_end then
        (case runs of
           [] \<Rightarrow> Inl MpArithmeticOverflow
         | run # rest \<Rightarrow>
             (let available = pn_frame_count run - frame_in_run;
                  took = min available (pair_end - cursor);
                  frame' = frame_in_run + took
              in and_then (make_slice (pn_left run) frame_in_run took cursor fps) (\<lambda>l.
                 and_then (make_slice (pn_right run) frame_in_run took cursor fps) (\<lambda>r.
                 and_then
                   (if frame' = pn_frame_count run
                    then slice_pair fps rest 0 (cursor + took) pair_end
                    else slice_pair fps runs frame' (cursor + took) pair_end)
                   (\<lambda>((ls, rs), left_over). Inr ((l # ls, r # rs), left_over))))))
      else Inr (([], []), runs, frame_in_run))"
  by pat_completeness auto
termination
proof (relation "measures [\<lambda>(fps, runs, f, c, e). length runs, \<lambda>(fps, runs, f, c, e). unat (e - c)]",
    goal_cases)
  case 1
  show ?case by simp
next
  case (2 fps runs f c e run rest)
  then show ?case by simp
next
  case (3 fps runs f c e run rest)
  then have "min (pn_frame_count run - f) (e - c) \<noteq> pn_frame_count run - f" by auto
  with 3 took_leaves_less [of c e "pn_frame_count run - f"] show ?case by simp
qed

declare slice_pair.simps [simp del]

text \<open>\<open>{segment_index:05}\<close>.\<close>

definition padded5 :: "u32 \<Rightarrow> string" where
  "padded5 n = replicate (5 - length (decimal (unat n))) (CHR ''0'') @ decimal (unat n)"

definition pair_path :: "u32 \<Rightarrow> string \<Rightarrow> string" where
  "pair_path index name = ''video/pairs/'' @ padded5 index @ ''/'' @ name"

text \<open>
  The outer \<open>while\<close>. \<open>n\<close> is \<open>pairs.len()\<close>; \<open>u32::try_from\<close> refuses it when
  it does not fit.
\<close>

definition pair_of ::
    "nat \<Rightarrow> u64 \<Rightarrow> u64 \<Rightarrow> rational \<Rightarrow> rational \<Rightarrow> dimensions \<Rightarrow> rect option \<Rightarrow> rect option
     \<Rightarrow> frame_slice list \<Rightarrow> frame_slice list \<Rightarrow> media_plan_error + segment_pair_plan" where
  "pair_of n cursor count fps base dims crop_left crop_right ls rs =
     and_then (ensure (n < 2 ^ 32) MpArithmeticOverflow) (\<lambda>_.
     and_then (mp_rational (ticks_for_frames fps cursor base)) (\<lambda>start.
     and_then (mp_rational (ticks_for_frames fps count base)) (\<lambda>duration.
     let index = of_nat n
     in Inr \<lparr>sp_segment_index = index, sp_first_frame = cursor, sp_frame_count = count,
             sp_start_ticks = start, sp_duration_ticks = duration, sp_source_fps = fps,
             sp_eye_dimensions = dims,
             sp_left = \<lparr>ey_eye = LeftEye, ey_slices = ls, ey_crop = crop_left\<rparr>,
             sp_right = \<lparr>ey_eye = RightEye, ey_slices = rs, ey_crop = crop_right\<rparr>,
             sp_left_output = pair_path index ''left.mp4'',
             sp_right_output = pair_path index ''right.mp4''\<rparr>)))"

lemma count_progress:
  fixes cursor total_frames limit :: u64
  assumes "cursor < total_frames" and "limit \<noteq> 0"
    and "checked_add cursor (min limit (total_frames - cursor)) = Some pair_end"
  shows "unat pair_end = unat cursor + min (unat limit) (unat total_frames - unat cursor)"
    and "unat cursor < unat pair_end" and "unat pair_end \<le> unat total_frames"
proof -
  show e: "unat pair_end = unat cursor + min (unat limit) (unat total_frames - unat cursor)"
    using checked_add_SomeD(1) [OF assms(3)] assms(1) by (simp add: unat_min unat_diff_less)
  have "0 < unat limit" using assms(2) by (simp add: unat_gt_0)
  moreover have "unat cursor < unat total_frames" using assms(1) by (simp add: word_less_nat_alt)
  ultimately show "unat cursor < unat pair_end" "unat pair_end \<le> unat total_frames"
    by (simp_all add: e)
qed

function partition_loop ::
    "rational \<Rightarrow> rational \<Rightarrow> dimensions \<Rightarrow> rect option \<Rightarrow> rect option \<Rightarrow> u64 \<Rightarrow> u64
     \<Rightarrow> nat \<Rightarrow> paired_run list \<Rightarrow> u64 \<Rightarrow> u64 \<Rightarrow> media_plan_error + segment_pair_plan list" where
  "partition_loop fps base dims cl cr limit total_frames n runs frame_in_run cursor =
     (if cursor < total_frames \<and> limit \<noteq> 0 then
        let count = min limit (total_frames - cursor)
        in and_then (option_ok MpArithmeticOverflow (checked_add cursor count)) (\<lambda>pair_end.
           and_then (slice_pair fps runs frame_in_run cursor pair_end) (\<lambda>((ls, rs), runs', frame').
           and_then (pair_of n cursor count fps base dims cl cr ls rs) (\<lambda>pair.
           and_then (partition_loop fps base dims cl cr limit total_frames (Suc n) runs' frame' pair_end)
             (\<lambda>pairs. Inr (pair # pairs)))))
      else Inr [])"
  by pat_completeness auto
termination
proof (relation "measure (\<lambda>(fps, base, dims, cl, cr, limit, t, n, runs, f, c). unat t - unat c)",
    goal_cases)
  case 1
  show ?case by simp
next
  case (2 fps base dims cl cr limit t n runs f c)
  then show ?case
    using count_progress [of c t limit] by fastforce
qed

declare partition_loop.simps [simp del]

fun run_total :: "u64 \<Rightarrow> paired_run list \<Rightarrow> media_plan_error + u64" where
  "run_total acc [] = Inr acc"
| "run_total acc (r # rs) =
     and_then (option_ok MpArithmeticOverflow (checked_add acc (pn_frame_count r)))
       (\<lambda>acc'. run_total acc' rs)"

fun side_by_side :: "source_media_kind \<Rightarrow> bool" where
  "side_by_side KindRawCaptureV2 = True"
| "side_by_side KindLegacyMjpegSessionV5 = True"
| "side_by_side KindApplianceSpoolV6 = True"
| "side_by_side KindUnsignedMjpegPublicationV1 = True"
| "side_by_side _ = False"

definition partition_runs ::
    "paired_run list \<Rightarrow> source_media_kind \<Rightarrow> dimensions \<Rightarrow> rational \<Rightarrow> rational \<Rightarrow> u64
     \<Rightarrow> media_plan_error + segment_pair_plan list" where
  "partition_runs runs kind dims fps base limit =
     and_then (ensure (limit \<noteq> 0) MpArithmeticOverflow) (\<lambda>_.
     and_then (new_rect 0 0 (dim_width dims) (dim_height dims)) (\<lambda>crop_left.
     and_then (new_rect (dim_width dims) 0 (dim_width dims) (dim_height dims)) (\<lambda>crop_right.
     let crop = (\<lambda>c. if side_by_side kind then Some c else None)
     in and_then (run_total 0 runs) (\<lambda>total_frames.
        partition_loop fps base dims (crop crop_left) (crop crop_right) limit total_frames
          0 runs 0 0))))"

definition mp_profile :: "profile_error + 'a \<Rightarrow> media_plan_error + 'a" where
  "mp_profile r = (case r of Inl e \<Rightarrow> Inl (MpProfile e) | Inr x \<Rightarrow> Inr x)"

definition plan_media ::
    "normalization_input \<Rightarrow> probe_report \<Rightarrow> normalization_profile
     \<Rightarrow> media_plan_error + media_plan" where
  "plan_media input report profile =
     and_then (ensure (accepts_source_codec (pr_quality_variant (np_material profile)) (source_codec input))
        (MpProfileSourceMismatch (pr_quality_variant (np_material profile)) (source_codec input))) (\<lambda>_.
     and_then (validate_input_sequences input) (\<lambda>_.
     and_then (reconcile_probes input report) (\<lambda>probes.
     and_then (validate_common_probe_contract input probes) (\<lambda>_.
     and_then (case probes of [] \<Rightarrow> Inl MpInvalidSegmentSequence | p # _ \<Rightarrow> Inr (pb_frame_rate p)) (\<lambda>fps.
     and_then (build_runs input probes fps) (\<lambda>(runs, dims, basis, declared).
     and_then (run_total 0 runs) (\<lambda>total_frames.
     and_then (case declared of
          Some d \<Rightarrow> ensure (d = total_frames) (MpFrameEvidenceMismatch d total_frames)
        | None \<Rightarrow> Inr ()) (\<lambda>_.
     and_then (mp_profile (segment_frames profile fps)) (\<lambda>limit.
     and_then (partition_runs runs (input_kind input) dims fps
        (pr_time_base (np_material profile)) limit) (\<lambda>pairs.
     Inr \<lparr>me_source_kind = input_kind input, me_profile_revision = np_profile_revision profile,
          me_source_fps = fps, me_eye_dimensions = dims,
          me_time_base = pr_time_base (np_material profile), me_timing_basis = basis,
          me_total_frames = total_frames, me_segment_pairs = pairs\<rparr>))))))))))"


section \<open>Reconciled probes\<close>

lemma find_None_all: "find P xs = None \<longleftrightarrow> (\<forall>x \<in> set xs. \<not> P x)"
  by (auto simp: find_None_iff)

lemma reconcile_probesD:
  assumes "reconcile_probes input report = Inr probes"
  shows "probes = probe_map report"
    and "set (map ra_id (input_artifacts input)) = set (map pb_artifact_id probes)"
  using assms
  by (auto simp: reconcile_probes_def Let_def find_None_all split: option.splits)

lemma lookup_reconciled:
  assumes "reconcile_probes input report = Inr probes" and "a \<in> set (input_artifacts input)"
  shows "probe_at probes (ra_id a) \<in> set probes"
    and "pb_artifact_id (probe_at probes (ra_id a)) = ra_id a"
proof -
  have "ra_id a \<in> set (map pb_artifact_id probes)"
    using reconcile_probesD(2) [OF assms(1)] assms(2) by auto
  then obtain p where "find (\<lambda>p. pb_artifact_id p = ra_id a) probes = Some p"
    by (cases "find (\<lambda>p. pb_artifact_id p = ra_id a) probes") (auto simp: find_None_iff)
  then have "probe_at probes (ra_id a) = p" and "p \<in> set probes" "pb_artifact_id p = ra_id a"
    by (simp_all add: probe_at_def) (auto simp: find_Some_iff)
  then show "probe_at probes (ra_id a) \<in> set probes"
    and "pb_artifact_id (probe_at probes (ra_id a)) = ra_id a"
    by simp_all
qed

section \<open>What the runs are\<close>

text \<open>The artifacts of an eye, in the order of the recording.\<close>

fun eye_artifacts :: "eye \<Rightarrow> normalization_input \<Rightarrow> resolved_source_artifact list" where
  "eye_artifacts e (InCompleteUnpublishedV6 segments _) =
     map (\<lambda>s. if e = LeftEye then ps_left s else ps_right s) segments"
| "eye_artifacts e (InPairedH264PublicationV1 segments _) =
     map (\<lambda>s. if e = LeftEye then ps_left s else ps_right s) segments"
| "eye_artifacts e (InUnsignedPairedH264PublicationV1 segments _) =
     map (\<lambda>s. if e = LeftEye then ps_left s else ps_right s) segments"
| "eye_artifacts e input = input_artifacts input"

lemma eye_artifacts_subset: "set (eye_artifacts e input) \<subseteq> set (input_artifacts input)"
  by (cases input) (auto simp: paired_artifacts_def)

definition counted_run :: "paired_run \<Rightarrow> bool" where
  "counted_run r \<longleftrightarrow>
     pn_frame_count r = pb_frame_count (pn_left r) \<and> pn_frame_count r = pb_frame_count (pn_right r)"

definition runs_for ::
    "probe_report \<Rightarrow> resolved_source_artifact list \<Rightarrow> resolved_source_artifact list
     \<Rightarrow> paired_run list \<Rightarrow> bool" where
  "runs_for probes lefts rights runs \<longleftrightarrow>
     map pn_left runs = map (\<lambda>a. probe_at probes (ra_id a)) lefts
     \<and> map pn_right runs = map (\<lambda>a. probe_at probes (ra_id a)) rights
     \<and> list_all counted_run runs"

lemma ensure_eye_dimensions_Inr [simp]:
  "ensure_eye_dimensions expected d i = Inr expected' \<longleftrightarrow>
     (expected = None \<or> expected = Some d) \<and> expected' = Some d"
  by (auto simp: ensure_eye_dimensions_def split: option.splits)

lemma side_by_side_runs_for:
  "side_by_side_runs probes expected segments = Inr (runs, final)
   \<Longrightarrow> runs_for probes (map ss_artifact segments) (map ss_artifact segments) runs
     \<and> (segments \<noteq> [] \<longrightarrow> final \<noteq> None)"
  by (induction segments arbitrary: expected runs final)
    (fastforce simp: runs_for_def counted_run_def Let_def)+

lemma legacy_runs_for:
  "legacy_runs probes expected segments = Inr (runs, final)
   \<Longrightarrow> runs_for probes (map ss_artifact segments) (map ss_artifact segments) runs
     \<and> (segments \<noteq> [] \<longrightarrow> final \<noteq> None)"
  by (induction segments arbitrary: expected runs final)
    (fastforce simp: runs_for_def counted_run_def Let_def)+

lemma paired_eye_runs_for:
  "paired_eye_runs probes expected segments = Inr (runs, final)
   \<Longrightarrow> runs_for probes (map ps_left segments) (map ps_right segments) runs
     \<and> (segments \<noteq> [] \<longrightarrow> final \<noteq> None)"
  by (induction segments arbitrary: expected runs final)
    (fastforce simp: runs_for_def counted_run_def Let_def)+

lemma build_runs_for:
  assumes "build_runs input probes fps = Inr (runs, dims, basis, declared)"
  shows "runs_for probes (eye_artifacts LeftEye input) (eye_artifacts RightEye input) runs"
  using assms
  by (cases input)
    (auto simp: Let_def runs_for_def counted_run_def [of "\<lparr>pn_left = _, pn_right = _, pn_frame_count = _\<rparr>"]
      dest!: side_by_side_runs_for legacy_runs_for paired_eye_runs_for)


section \<open>The pairs tile the session\<close>

text \<open>
  The frames an eye's slices take from their artifacts, and the frames a list of runs still
  holds from a position on, as (artifact, frame) pairs.
\<close>

definition slice_frames :: "frame_slice \<Rightarrow> (source_artifact_id \<times> nat) list" where
  "slice_frames s =
     map (Pair (fs_artifact_id s))
       [unat (fs_first_frame s) ..< unat (fs_first_frame s) + unat (fs_frame_count s)]"

definition eye_frames :: "eye_input_plan \<Rightarrow> (source_artifact_id \<times> nat) list" where
  "eye_frames e = concat (map slice_frames (ey_slices e))"

fun rest_frames ::
    "(paired_run \<Rightarrow> probed_artifact) \<Rightarrow> paired_run list \<Rightarrow> nat \<Rightarrow> (source_artifact_id \<times> nat) list" where
  "rest_frames side [] f = []"
| "rest_frames side (r # rs) f =
     map (Pair (pb_artifact_id (side r))) [f..<unat (pn_frame_count r)] @ rest_frames side rs 0"

fun within_run :: "paired_run list \<Rightarrow> u64 \<Rightarrow> bool" where
  "within_run [] f = True"
| "within_run (r # rs) f = (f \<le> pn_frame_count r)"

text \<open>The slices follow each other in the session from frame \<open>c\<close> to frame \<open>e\<close>.\<close>

fun contiguous :: "nat \<Rightarrow> frame_slice list \<Rightarrow> nat \<Rightarrow> bool" where
  "contiguous c [] e = (c = e)"
| "contiguous c (s # ss) e =
     (unat (fs_session_first_frame s) = c \<and> contiguous (c + unat (fs_frame_count s)) ss e)"

lemma make_slice_Inr:
  assumes "make_slice probe first count session fps = Inr s"
  shows "fs_artifact_id s = pb_artifact_id probe" "fs_first_frame s = first"
    "fs_frame_count s = count" "fs_session_first_frame s = session"
  using assms by (auto simp: make_slice_def)

lemma rest_frames_split:
  assumes "f + n \<le> unat (pn_frame_count r)"
  shows "rest_frames side (r # rs) f =
    map (Pair (pb_artifact_id (side r))) [f..<f + n] @ rest_frames side (r # rs) (f + n)"
  using assms upt_add_eq_append [of f "f + n" "unat (pn_frame_count r) - (f + n)"] by simp

lemma length_rest_frames: "length (rest_frames s rs f) = length (rest_frames s' rs f)"
  by (induction s rs f rule: rest_frames.induct) auto

text \<open>One step of the inner loop: the numbers it computes, without wrap-around.\<close>

lemma take_step:
  fixes f count c e :: u64
  assumes "f \<le> count" and "c < e" and "took = min (count - f) (e - c)"
  shows "unat (f + took) = unat f + unat took" and "unat f + unat took \<le> unat count"
    and "unat (c + took) = unat c + unat took" and "c + took \<le> e"
proof -
  have d: "unat (count - f) = unat count - unat f" "unat (e - c) = unat e - unat c"
    using assms by (simp_all add: unat_diff_less)
  have le: "unat f \<le> unat count" "unat c < unat e"
    using assms by (simp_all add: word_le_nat_alt word_less_nat_alt)
  have b: "unat count < 2 ^ 64" "unat e < 2 ^ 64"
    using unsigned_less [of count] unsigned_less [of e] by simp_all
  have t: "unat took = min (unat count - unat f) (unat e - unat c)"
    by (simp add: assms(3) unat_min d)
  show "unat f + unat took \<le> unat count" using le t by simp
  then show "unat (f + took) = unat f + unat took"
    using b by (simp add: unat_word_ariths)
  have s: "unat c + unat took \<le> unat e" using le t by simp
  then show "unat (c + took) = unat c + unat took"
    using b by (simp add: unat_word_ariths)
  with s show "c + took \<le> e" by (simp add: word_le_nat_alt)
qed

definition slices_ok ::
    "(paired_run \<Rightarrow> probed_artifact) \<Rightarrow> paired_run list \<Rightarrow> u64 \<Rightarrow> u64 \<Rightarrow> u64
     \<Rightarrow> frame_slice list \<Rightarrow> paired_run list \<Rightarrow> u64 \<Rightarrow> bool" where
  "slices_ok side runs f c e ss runs' f' \<longleftrightarrow>
     rest_frames side runs (unat f) = concat (map slice_frames ss) @ rest_frames side runs' (unat f')
     \<and> contiguous (unat c) ss (unat e)"

lemma slices_ok_step:
  assumes f: "f \<le> pn_frame_count run" and ce: "c < e"
    and took: "took = min (pn_frame_count run - f) (e - c)"
    and l: "make_slice (side run) f took c fps = Inr l"
    and rest: "slices_ok side (if f + took = pn_frame_count run then rest else run # rest)
      (if f + took = pn_frame_count run then 0 else f + took) (c + took) e ls runs' f'"
  shows "slices_ok side (run # rest) f c e (l # ls) runs' f'"
proof -
  note step = take_step [OF f ce took]
  have "rest_frames side (if f + took = pn_frame_count run then rest else run # rest)
      (unat (if f + took = pn_frame_count run then 0 else f + took))
    = rest_frames side (run # rest) (unat f + unat took)"
    using step(1) by auto
  moreover have "slice_frames l =
      map (Pair (pb_artifact_id (side run))) [unat f..<unat f + unat took]"
    by (simp add: slice_frames_def make_slice_Inr [OF l])
  ultimately show ?thesis
    using rest rest_frames_split [OF step(2)] make_slice_Inr [OF l] step(3)
    by (simp add: slices_ok_def)
qed

lemma slice_pair_Cons:
  assumes "c < e" and "took = min (pn_frame_count run - f) (e - c)"
    and "runs\<^sub>1 = (if f + took = pn_frame_count run then rest else run # rest)"
    and "f\<^sub>1 = (if f + took = pn_frame_count run then 0 else f + took)"
  shows "slice_pair fps (run # rest) f c e =
    and_then (make_slice (pn_left run) f took c fps) (\<lambda>l.
    and_then (make_slice (pn_right run) f took c fps) (\<lambda>r.
    and_then (slice_pair fps runs\<^sub>1 f\<^sub>1 (c + took) e)
      (\<lambda>((ls, rs), left_over). Inr ((l # ls, r # rs), left_over))))"
  unfolding assms(3,4)
  by (subst slice_pair.simps) (simp only: assms(1,2) Let_def if_True list.case if_distrib, simp)

lemma slice_pair_ok:
  assumes "slice_pair fps runs f c e = Inr ((ls, rs), runs', f')" and "within_run runs f" and "c \<le> e"
  shows "slices_ok pn_left runs f c e ls runs' f'" and "slices_ok pn_right runs f c e rs runs' f'"
    and "within_run runs' f'"
proof -
  have "slices_ok pn_left runs f c e ls runs' f' \<and> slices_ok pn_right runs f c e rs runs' f'
    \<and> within_run runs' f'"
    using assms
  proof (induction fps runs f c e arbitrary: ls rs runs' f' rule: slice_pair.induct)
    case (1 fps runs f c e)
    show ?case
    proof (cases "c < e")
      case False
      with "1.prems" show ?thesis
        by (auto simp: slice_pair.simps [of fps runs] slices_ok_def)
    next
      case True
      with "1.prems" obtain run rest where runs: "runs = run # rest"
        by (cases runs) (auto simp: slice_pair.simps [of fps "[]"])
      define took where "took = min (pn_frame_count run - f) (e - c)"
      let ?fin = "f + took = pn_frame_count run"
      note unfolded = slice_pair_Cons [OF True took_def refl refl, of fps]
      obtain l r ls' rs' where l: "make_slice (pn_left run) f took c fps = Inr l"
        and r: "make_slice (pn_right run) f took c fps = Inr r"
        and eq: "ls = l # ls'" "rs = r # rs'"
        and rec: "slice_pair fps (if ?fin then rest else run # rest) (if ?fin then 0 else f + took)
          (c + took) e = Inr ((ls', rs'), runs', f')"
        using "1.prems"(1) unfolding runs unfolded by (auto elim!: and_then_InrE simp del: and_then_Inr)
      have f: "f \<le> pn_frame_count run" using "1.prems"(2) by (simp add: runs)
      note step = take_step [OF f True took_def]
      have within: "within_run (if ?fin then rest else run # rest) (if ?fin then 0 else f + took)"
        using step(1,2) by (cases rest) (auto simp: word_le_nat_alt)
      have "slices_ok pn_left (if ?fin then rest else run # rest) (if ?fin then 0 else f + took)
            (c + took) e ls' runs' f'
          \<and> slices_ok pn_right (if ?fin then rest else run # rest) (if ?fin then 0 else f + took)
            (c + took) e rs' runs' f'
          \<and> within_run runs' f'"
      proof (cases ?fin)
        case fin: True
        show ?thesis
          using "1.IH"(1) [OF True runs refl took_def refl l r] fin rec within step(4) by simp
      next
        case fin: False
        show ?thesis
          using "1.IH"(2) [OF True runs refl took_def refl l r] fin rec within step(4)
          by (simp add: runs)
      qed
      then show ?thesis
        using slices_ok_step [where side = pn_left, OF f True took_def l]
          slices_ok_step [where side = pn_right, OF f True took_def r]
        by (simp add: eq runs)
    qed
  qed
  then show "slices_ok pn_left runs f c e ls runs' f'" "slices_ok pn_right runs f c e rs runs' f'"
    "within_run runs' f'" by simp_all
qed


text \<open>
  The pairs from number \<open>n\<close> and session frame \<open>c\<close> on: numbered without a gap, each of
  \<open>limit\<close> frames but the last, and each eye's slices contiguous in the session.
\<close>

fun pairs_tile :: "nat \<Rightarrow> nat \<Rightarrow> nat \<Rightarrow> nat \<Rightarrow> segment_pair_plan list \<Rightarrow> bool" where
  "pairs_tile limit total_frames n c [] = (c = total_frames)"
| "pairs_tile limit total_frames n c (p # ps) =
     (unat (sp_segment_index p) = n \<and> unat (sp_first_frame p) = c
      \<and> unat (sp_frame_count p) = min limit (total_frames - c) \<and> 0 < unat (sp_frame_count p)
      \<and> contiguous c (ey_slices (sp_left p)) (c + unat (sp_frame_count p))
      \<and> contiguous c (ey_slices (sp_right p)) (c + unat (sp_frame_count p))
      \<and> pairs_tile limit total_frames (Suc n) (c + unat (sp_frame_count p)) ps)"

lemma pair_of_Inr:
  assumes "pair_of n c count fps base dims cl cr ls rs = Inr p"
  shows "unat (sp_segment_index p) = n" "sp_first_frame p = c" "sp_frame_count p = count"
    "ey_slices (sp_left p) = ls" "ey_slices (sp_right p) = rs"
  using assms by (auto simp: pair_of_def Let_def unat_of_nat)

definition pairs_ok ::
    "paired_run list \<Rightarrow> u64 \<Rightarrow> nat \<Rightarrow> nat \<Rightarrow> nat \<Rightarrow> nat \<Rightarrow> segment_pair_plan list \<Rightarrow> bool" where
  "pairs_ok runs f limit total_frames n c pairs \<longleftrightarrow>
     pairs_tile limit total_frames n c pairs
     \<and> (\<exists>runs' f'.
          rest_frames pn_left runs (unat f) =
            concat (map (\<lambda>p. eye_frames (sp_left p)) pairs) @ rest_frames pn_left runs' f'
          \<and> rest_frames pn_right runs (unat f) =
            concat (map (\<lambda>p. eye_frames (sp_right p)) pairs) @ rest_frames pn_right runs' f')"

lemma pairs_ok_Nil: "pairs_ok runs f limit c n c []"
  unfolding pairs_ok_def by (auto intro!: exI [of _ runs] exI [of _ "unat f"])

lemma pairs_ok_Cons:
  assumes l: "slices_ok pn_left runs f c e ls runs' f'" and r: "slices_ok pn_right runs f c e rs runs' f'"
    and p: "pair_of n c count fps base dims cl cr ls rs = Inr p"
    and count: "unat count = min limit (total_frames - unat c)" "0 < unat count"
    and e: "unat e = unat c + unat count"
    and ps: "pairs_ok runs' f' limit total_frames (Suc n) (unat e) ps"
  shows "pairs_ok runs f limit total_frames n (unat c) (p # ps)"
proof -
  note sel = pair_of_Inr [OF p]
  have "pairs_tile limit total_frames n (unat c) (p # ps)"
    using l r ps count by (simp add: sel slices_ok_def pairs_ok_def e)
  moreover obtain runs2 f2 where
    "rest_frames pn_left runs' (unat f') =
       concat (map (\<lambda>p. eye_frames (sp_left p)) ps) @ rest_frames pn_left runs2 f2"
    "rest_frames pn_right runs' (unat f') =
       concat (map (\<lambda>p. eye_frames (sp_right p)) ps) @ rest_frames pn_right runs2 f2"
    using ps by (auto simp: pairs_ok_def)
  ultimately show ?thesis
    unfolding pairs_ok_def using l r
    by (auto simp: sel slices_ok_def eye_frames_def intro!: exI [of _ runs2] exI [of _ f2])
qed

lemma partition_loop_unfold:
  "partition_loop fps base dims cl cr limit total_frames n runs f c =
     (if c < total_frames \<and> limit \<noteq> 0 then
        and_then (option_ok MpArithmeticOverflow (checked_add c (min limit (total_frames - c)))) (\<lambda>e.
        and_then (slice_pair fps runs f c e) (\<lambda>((ls, rs), runs', f').
        and_then (pair_of n c (min limit (total_frames - c)) fps base dims cl cr ls rs) (\<lambda>p.
        and_then (partition_loop fps base dims cl cr limit total_frames (Suc n) runs' f' e)
          (\<lambda>ps. Inr (p # ps)))))
      else Inr [])"
  by (subst partition_loop.simps) (simp only: Let_def)

lemma partition_loop_ok:
  assumes "partition_loop fps base dims cl cr limit total_frames n runs f c = Inr pairs"
    and "within_run runs f" and "c \<le> total_frames" and "limit \<noteq> 0"
  shows "pairs_ok runs f (unat limit) (unat total_frames) n (unat c) pairs"
  using assms
proof (induction "unat total_frames - unat c" arbitrary: n runs f c pairs rule: less_induct)
  case less
  show ?case
  proof (cases "c < total_frames")
    case False
    with less.prems(3) have "c = total_frames" by simp
    moreover have "pairs = []"
      using less.prems(1) False by (simp add: partition_loop_unfold [of _ _ _ _ _ _ _ n])
    ultimately show ?thesis by (simp add: pairs_ok_Nil)
  next
    case True
    let ?count = "min limit (total_frames - c)"
    obtain e ls rs runs' f' p ps where e: "checked_add c ?count = Some e"
      and s: "slice_pair fps runs f c e = Inr ((ls, rs), runs', f')"
      and p: "pair_of n c ?count fps base dims cl cr ls rs = Inr p"
      and rec: "partition_loop fps base dims cl cr limit total_frames (Suc n) runs' f' e = Inr ps"
      and pairs: "pairs = p # ps"
      using less.prems(1,4) True unfolding partition_loop_unfold [of _ _ _ _ _ _ _ n]
      by (auto elim!: and_then_InrE simp del: and_then_Inr)
    note progress = count_progress [OF True less.prems(4) e]
    have le: "c \<le> e" "e \<le> total_frames"
      using progress by (simp_all add: word_le_nat_alt)
    note ok = slice_pair_ok [OF s less.prems(2) le(1)]
    have count: "unat ?count = min (unat limit) (unat total_frames - unat c)"
      using True by (simp add: unat_min unat_diff_less)
    have "pairs_ok runs' f' (unat limit) (unat total_frames) (Suc n) (unat e) ps"
    proof (rule less.hyps [OF _ rec ok(3) le(2) less.prems(4)])
      show "unat total_frames - unat e < unat total_frames - unat c"
        using progress(2,3) by linarith
    qed
    then show ?thesis
      unfolding pairs using pairs_ok_Cons [OF ok(1,2) p count] progress count by simp
  qed
qed

lemma run_total_value:
  "run_total acc runs = Inr t
   \<Longrightarrow> unat t = unat acc + length (rest_frames side runs 0)"
  by (induction runs arbitrary: acc) (auto dest!: checked_add_SomeD(1))

lemma length_pairs:
  "pairs_tile limit t n c pairs \<Longrightarrow> c \<le> t
   \<Longrightarrow> c + length (concat (map (\<lambda>p. eye_frames (sp_left p)) pairs)) = t
     \<and> c + length (concat (map (\<lambda>p. eye_frames (sp_right p)) pairs)) = t"
proof (induction limit t n c pairs rule: pairs_tile.induct)
  case (2 limit t n c p ps)
  have len: "contiguous a ss b \<Longrightarrow> a + length (concat (map slice_frames ss)) = b" for a ss b
    by (induction a ss b rule: contiguous.induct) (auto simp: slice_frames_def)
  from 2 len show ?case by (fastforce simp: eye_frames_def)
qed simp


section \<open>The plan covers the session\<close>

text \<open>
  The frames of an eye over the whole recording: every frame of every artifact of that eye,
  in the order of the segments.
\<close>

definition session_frames ::
    "eye \<Rightarrow> normalization_input \<Rightarrow> probe_report \<Rightarrow> (source_artifact_id \<times> nat) list" where
  "session_frames e input report =
     concat (map (\<lambda>a. map (Pair (ra_id a))
         [0..<unat (pb_frame_count (probe_at (probe_map report) (ra_id a)))])
       (eye_artifacts e input))"

lemma rest_frames_runs:
  assumes "\<forall>a \<in> set arts. pb_artifact_id (probe_at probes (ra_id a)) = ra_id a"
    and "map side runs = map (\<lambda>a. probe_at probes (ra_id a)) arts"
    and "\<forall>r \<in> set runs. pn_frame_count r = pb_frame_count (side r)"
  shows "rest_frames side runs 0 =
    concat (map (\<lambda>a. map (Pair (ra_id a)) [0..<unat (pb_frame_count (probe_at probes (ra_id a)))])
      arts)"
  using assms
proof (induction runs arbitrary: arts)
  case (Cons r rs)
  then obtain a arts' where "arts = a # arts'" by (cases arts) auto
  with Cons show ?case by simp
qed simp

lemma rest_frames_session:
  assumes "reconcile_probes input report = Inr probes"
    and "build_runs input probes fps = Inr (runs, dims, basis, declared)"
  shows "rest_frames pn_left runs 0 = session_frames LeftEye input report"
    and "rest_frames pn_right runs 0 = session_frames RightEye input report"
proof -
  have ids: "\<forall>a \<in> set (eye_artifacts e input). pb_artifact_id (probe_at probes (ra_id a)) = ra_id a"
    for e using lookup_reconciled(2) [OF assms(1)] eye_artifacts_subset by blast
  have "\<forall>r \<in> set runs. pn_frame_count r = pb_frame_count (pn_left r)"
    "\<forall>r \<in> set runs. pn_frame_count r = pb_frame_count (pn_right r)"
    and "map pn_left runs = map (\<lambda>a. probe_at probes (ra_id a)) (eye_artifacts LeftEye input)"
    and "map pn_right runs = map (\<lambda>a. probe_at probes (ra_id a)) (eye_artifacts RightEye input)"
    using build_runs_for [OF assms(2)]
    unfolding runs_for_def list_all_iff counted_run_def by blast+
  then show "rest_frames pn_left runs 0 = session_frames LeftEye input report"
    and "rest_frames pn_right runs 0 = session_frames RightEye input report"
    using rest_frames_runs [OF ids] reconcile_probesD(1) [OF assms(1)]
    by (simp_all add: session_frames_def)
qed

lemma plan_media_steps:
  assumes "plan_media input report profile = Inr plan"
  obtains probes fps runs dims basis declared limit cl cr where
    "reconcile_probes input report = Inr probes"
    "build_runs input probes fps = Inr (runs, dims, basis, declared)"
    "run_total 0 runs = Inr (me_total_frames plan)"
    "segment_frames profile fps = Inr limit" "limit \<noteq> 0"
    "partition_loop fps (pr_time_base (np_material profile)) dims cl cr limit (me_total_frames plan)
       0 runs 0 0 = Inr (me_segment_pairs plan)"
    "me_source_fps plan = fps" "me_source_kind plan = input_kind input"
    "me_profile_revision plan = np_profile_revision profile"
  using assms
  by (auto simp: plan_media_def partition_runs_def mp_profile_def Let_def
      elim!: and_then_InrE simp del: and_then_Inr split: sum.splits)

lemma plan_pairs:
  assumes "plan_media input report profile = Inr plan"
  obtains probes fps runs dims basis declared limit where
    "reconcile_probes input report = Inr probes"
    "build_runs input probes fps = Inr (runs, dims, basis, declared)"
    "run_total 0 runs = Inr (me_total_frames plan)"
    "segment_frames profile fps = Inr limit" "me_source_fps plan = fps"
    "pairs_ok runs 0 (unat limit) (unat (me_total_frames plan)) 0 0 (me_segment_pairs plan)"
proof -
  obtain probes fps runs dims basis declared limit cl cr where
    rec: "reconcile_probes input report = Inr probes"
    and runs: "build_runs input probes fps = Inr (runs, dims, basis, declared)"
    and t: "run_total 0 runs = Inr (me_total_frames plan)"
    and limit: "segment_frames profile fps = Inr limit" "limit \<noteq> 0"
    and loop: "partition_loop fps (pr_time_base (np_material profile)) dims cl cr limit
      (me_total_frames plan) 0 runs 0 0 = Inr (me_segment_pairs plan)"
    and fps: "me_source_fps plan = fps"
    by (rule plan_media_steps [OF assms])
  have "within_run runs 0" by (cases runs) auto
  then have "pairs_ok runs 0 (unat limit) (unat (me_total_frames plan)) 0 0 (me_segment_pairs plan)"
    using partition_loop_ok [OF loop _ _ limit(2)] by simp
  with rec runs t limit(1) fps show thesis by (rule that)
qed

lemma plan_tile:
  assumes "plan_media input report profile = Inr plan"
  shows "\<exists>limit. pairs_tile limit (unat (me_total_frames plan)) 0 0 (me_segment_pairs plan)"
  by (rule plan_pairs [OF assms]) (auto simp: pairs_ok_def)

text \<open>Output paths determine the pair and the eye.\<close>

lemma decimal_value_zeros: "decimal_value 0 (replicate k (CHR ''0'') @ s) = decimal_value 0 s"
  by (induction k) simp_all

lemma padded5_value: "decimal_value 0 (padded5 n) = unat n"
  by (simp add: padded5_def decimal_value_zeros decimal_value_decimal)

lemma padded5_no_slash: "CHR ''/'' \<notin> set (padded5 n)"
proof -
  have "list_all is_ascii_digit (decimal (unat n))" by (rule decimal_digits)
  then have "CHR ''/'' \<notin> set (decimal (unat n))"
    by (auto simp: list_all_iff is_ascii_digit_def)
  then show ?thesis by (simp add: padded5_def)
qed

lemma append_separator:
  assumes "x @ c # r = y @ c # s" and "c \<notin> set x" and "c \<notin> set y"
  shows "x = y \<and> r = s"
  using assms
proof (induction x arbitrary: y)
  case Nil
  then show ?case by (cases y) auto
next
  case (Cons a x)
  then show ?case by (cases y) auto
qed

lemma pair_path_eq: "pair_path i n = pair_path j m \<longleftrightarrow> i = j \<and> n = m"
proof
  assume "pair_path i n = pair_path j m"
  then have "padded5 i = padded5 j \<and> n = m"
    using append_separator [OF _ padded5_no_slash padded5_no_slash]
    by (simp add: pair_path_def)
  then show "i = j \<and> n = m" by (metis padded5_value word_unat_eq_iff)
qed simp

definition planned_paths :: "segment_pair_plan \<Rightarrow> bool" where
  "planned_paths p \<longleftrightarrow>
     sp_left_output p = pair_path (sp_segment_index p) ''left.mp4''
     \<and> sp_right_output p = pair_path (sp_segment_index p) ''right.mp4''"

lemma partition_loop_paths:
  "partition_loop fps base dims cl cr limit t n runs f c = Inr pairs \<Longrightarrow> list_all planned_paths pairs"
proof (induction "unat t - unat c" arbitrary: n runs f c pairs rule: less_induct)
  case less
  show ?case
  proof (cases "c < t \<and> limit \<noteq> 0")
    case False
    with less.prems show ?thesis by (auto simp: partition_loop_unfold [of _ _ _ _ _ _ _ n])
  next
    case True
    let ?count = "min limit (t - c)"
    obtain e ls rs runs' f' p ps where e: "checked_add c ?count = Some e"
      and p: "pair_of n c ?count fps base dims cl cr ls rs = Inr p"
      and rec: "partition_loop fps base dims cl cr limit t (Suc n) runs' f' e = Inr ps"
      and pairs: "pairs = p # ps"
      using less.prems True unfolding partition_loop_unfold [of _ _ _ _ _ _ _ n]
      by (auto elim!: and_then_InrE simp del: and_then_Inr)
    have "planned_paths p" using p by (auto simp: pair_of_def planned_paths_def Let_def)
    moreover have "list_all planned_paths ps"
    proof (rule less.hyps [OF _ rec])
      show "unat t - unat e < unat t - unat c"
        using count_progress(2,3) [OF _ _ e] True by linarith
    qed
    ultimately show ?thesis by (simp add: pairs)
  qed
qed

lemma plan_paths:
  assumes "plan_media input report profile = Inr plan"
  shows "list_all planned_paths (me_segment_pairs plan)"
  by (rule plan_media_steps [OF assms]) (rule partition_loop_paths)

lemma tile_indexes:
  "pairs_tile limit t n c pairs
   \<Longrightarrow> map (\<lambda>p. unat (sp_segment_index p)) pairs = [n..<n + length pairs]"
  by (induction limit t n c pairs rule: pairs_tile.induct)
    (auto simp: upt_conv_Cons simp del: upt_Suc)

lemma plan_indexes:
  assumes "plan_media input report profile = Inr plan"
  shows "map (\<lambda>p. unat (sp_segment_index p)) (me_segment_pairs plan)
    = [0..<length (me_segment_pairs plan)]"
  using plan_tile [OF assms] tile_indexes by fastforce

text \<open>
  C16. A plan loses and repeats no frame: for each eye, the frames of the slices of all segment pairs,
  one after the other, are exactly the frames of all its probed artifacts in the order of the
  recording. The pairs are numbered from zero and follow each other without a gap, each of
  the profile's whole number of frames but the last, and within a pair the slices of the
  two eyes cover the same session frames.
\<close>
theorem plan_covers_session:
  assumes "plan_media input report profile = Inr plan"
  shows "concat (map (\<lambda>p. eye_frames (sp_left p)) (me_segment_pairs plan))
        = session_frames LeftEye input report
    \<and> concat (map (\<lambda>p. eye_frames (sp_right p)) (me_segment_pairs plan))
        = session_frames RightEye input report
    \<and> (\<exists>limit. segment_frames profile (me_source_fps plan) = Inr limit
        \<and> pairs_tile (unat limit) (unat (me_total_frames plan)) 0 0 (me_segment_pairs plan))
    \<and> unat (me_total_frames plan) = length (session_frames LeftEye input report)"
proof -
  obtain probes fps runs dims basis declared limit where
    rec: "reconcile_probes input report = Inr probes"
    and runs: "build_runs input probes fps = Inr (runs, dims, basis, declared)"
    and t: "run_total 0 runs = Inr (me_total_frames plan)"
    and limit: "segment_frames profile fps = Inr limit" and fps: "me_source_fps plan = fps"
    and ok: "pairs_ok runs 0 (unat limit) (unat (me_total_frames plan)) 0 0 (me_segment_pairs plan)"
    by (rule plan_pairs [OF assms])
  from ok obtain runs' f' where
    l: "rest_frames pn_left runs 0 =
       concat (map (\<lambda>p. eye_frames (sp_left p)) (me_segment_pairs plan)) @ rest_frames pn_left runs' f'"
    and r: "rest_frames pn_right runs 0 =
       concat (map (\<lambda>p. eye_frames (sp_right p)) (me_segment_pairs plan)) @ rest_frames pn_right runs' f'"
    and tile: "pairs_tile (unat limit) (unat (me_total_frames plan)) 0 0 (me_segment_pairs plan)"
    by (auto simp: pairs_ok_def)
  have "rest_frames pn_left runs' f' = []" "rest_frames pn_right runs' f' = []"
    using l r length_pairs [OF tile] run_total_value [OF t, of pn_left]
      run_total_value [OF t, of pn_right] by simp_all
  then show ?thesis
    using l r tile rest_frames_session [OF rec runs] limit fps
      run_total_value [OF t, of pn_left] by auto
qed

subsection \<open>A recording of two segments\<close>

definition fps30 :: rational where
  "fps30 = \<lparr>ra_numerator = 30, ra_denominator = 1\<rparr>"

definition base90k :: rational where
  "base90k = \<lparr>ra_numerator = 1, ra_denominator = 90000\<rparr>"

definition sample_artifact :: "string \<Rightarrow> resolved_source_artifact" where
  "sample_artifact name =
     \<lparr>ra_id = name, ra_local_path = name, ra_manifest_relative_path = name,
      ra_expected_size_bytes = 1, ra_expected_sha256 = []\<rparr>"

definition sample_input :: normalization_input where
  "sample_input =
     InUnsignedMjpegPublicationV1
       [\<lparr>ss_segment_index = 0, ss_artifact = sample_artifact ''b''\<rparr>,
        \<lparr>ss_segment_index = 1, ss_artifact = sample_artifact ''a''\<rparr>] []"

definition sample_probe :: "string \<Rightarrow> u64 \<Rightarrow> probed_artifact" where
  "sample_probe name frames =
     \<lparr>pb_artifact_id = name, pb_codec = CodecMjpeg, pb_codec_profile = None,
      pb_container = MjpegElementary, pb_sample_entry = None, pb_pixel_format = Yuv422p,
      pb_dimensions = \<lparr>dim_width = 3840, dim_height = 1080\<rparr>, pb_frame_rate = fps30,
      pb_time_base = base90k, pb_first_pts = 0, pb_frame_count = frames,
      pb_duration_ticks = frames * 3000, pb_video_track_count = 1, pb_audio_track_count = 0,
      pb_keyframe_frames = []\<rparr>"

definition sample_probes :: probe_report where
  "sample_probes = [sample_probe ''a'' 700, sample_probe ''b'' 500]"

definition sample_approval :: profile_approval_evidence where
  "sample_approval =
     \<lparr>pa_profile_revision = ''rev'', pa_quality_corpus_report = [],
      pa_throughput_resource_report = [], pa_stereo_cv_report = [], pa_encoder_legal_review = [],
      pa_playback_report = [], pa_approved_at = []\<rparr>"

definition sample_profile :: normalization_profile where
  "sample_profile =
     projr (approve_profile (projr (candidate_profile (\<lambda>_. ''rev'') MjpegCrf20)) sample_approval)"

definition sample_slice :: "string \<Rightarrow> u64 \<Rightarrow> u64 \<Rightarrow> u64 \<Rightarrow> frame_slice" where
  "sample_slice name first count session =
     \<lparr>fs_artifact_id = name, fs_first_frame = first, fs_frame_count = count,
      fs_source_pts_first = 3000 * first, fs_source_time_base = base90k,
      fs_session_first_frame = session\<rparr>"

definition sample_pair :: "u32 \<Rightarrow> u64 \<Rightarrow> u64 \<Rightarrow> frame_slice list \<Rightarrow> string \<Rightarrow> segment_pair_plan" where
  "sample_pair i first count slices path =
     \<lparr>sp_segment_index = i, sp_first_frame = first, sp_frame_count = count,
      sp_start_ticks = 3000 * first, sp_duration_ticks = 3000 * count, sp_source_fps = fps30,
      sp_eye_dimensions = \<lparr>dim_width = 1920, dim_height = 1080\<rparr>,
      sp_left = \<lparr>ey_eye = LeftEye, ey_slices = slices, ey_crop = Some
        \<lparr>rect_x = 0, rect_y = 0, rect_width = 1920, rect_height = 1080\<rparr>\<rparr>,
      sp_right = \<lparr>ey_eye = RightEye, ey_slices = slices, ey_crop = Some
        \<lparr>rect_x = 1920, rect_y = 0, rect_width = 1920, rect_height = 1080\<rparr>\<rparr>,
      sp_left_output = ''video/pairs/'' @ path @ ''/left.mp4'',
      sp_right_output = ''video/pairs/'' @ path @ ''/right.mp4''\<rparr>"

definition sample_plan :: media_plan where
  "sample_plan =
     \<lparr>me_source_kind = KindUnsignedMjpegPublicationV1, me_profile_revision = ''rev'',
      me_source_fps = fps30, me_eye_dimensions = \<lparr>dim_width = 1920, dim_height = 1080\<rparr>,
      me_time_base = base90k, me_timing_basis = UnsignedPublicationSideBySideOrder,
      me_total_frames = 1200,
      me_segment_pairs =
        [sample_pair 0 0 900 [sample_slice ''b'' 0 500 0, sample_slice ''a'' 0 400 500] ''00000'',
         sample_pair 1 900 300 [sample_slice ''a'' 400 300 900] ''00001'']\<rparr>"

lemma sample_profile_eq:
  "np_material sample_profile =
     \<lparr>pr_schema_version = 1, pr_family_id = ''hevc-main-cfr-sourcefps-gop2s-x265-slow-v1'',
      pr_quality_variant = MjpegCrf20, pr_transcode_generation = FirstGeneration,
      pr_codec = CodecHevc, pr_codec_profile = HevcMain, pr_pixel_format = Yuv420p,
      pr_container = Mp4, pr_sample_entry = Hvc1, pr_preset = ''slow'', pr_crf = 20,
      pr_time_base = base90k, pr_gop_seconds = 2, pr_segment_seconds = 30,
      pr_closed_gop = True, pr_scene_cut_keyframes = False, pr_preserve_source_fps = True,
      pr_preserve_eye_dimensions = True, pr_audio_tracks = 0,
      pr_encoder_compatibility_class = ''x265-software-hevc-main-8bit-v1'',
      pr_quality_thresholds = proposed_v1 MjpegCrf20\<rparr>"
  "np_profile_revision sample_profile = ''rev''"
  "require_approved sample_profile = Inr ()"
  by (simp_all add: sample_profile_def approve_profile_def sample_approval_def candidate_profile_def
      sample_time_base base90k_def require_approved_def ensure_def Let_def)

lemma sample_reconcile: "reconcile_probes sample_input sample_probes = Inr sample_probes"
  by (simp add: reconcile_probes_def probe_map_def sample_input_def sample_probes_def
      sample_artifact_def sample_probe_def Let_def)

definition sample_run :: "string \<Rightarrow> u64 \<Rightarrow> paired_run" where
  "sample_run name frames =
     \<lparr>pn_left = sample_probe name frames, pn_right = sample_probe name frames,
      pn_frame_count = frames\<rparr>"

lemmas plan_eval_defs = ensure_def option_ok_def Let_def checked_add_def checked_mul_def

lemma sample_build:
  "build_runs sample_input sample_probes fps30 =
     Inr ([sample_run ''b'' 500, sample_run ''a'' 700], \<lparr>dim_width = 1920, dim_height = 1080\<rparr>,
       UnsignedPublicationSideBySideOrder, None)"
  by (simp add: sample_input_def sample_probes_def sample_artifact_def sample_probe_def sample_run_def
      probe_at_def side_by_side_eye_dimensions_def new_dimensions_def ensure_eye_dimensions_def
      plan_eval_defs del: and_then_Inr)

lemma sample_limit: "segment_frames sample_profile fps30 = Inr 900"
  by (simp add: segment_frames_def sample_profile_eq frames_in_whole_seconds_def fps30_def
      plan_eval_defs del: and_then_Inr)

lemma sample_ticks:
  "ticks_for_frames fps30 0 base90k = Inr 0" "ticks_for_frames fps30 400 base90k = Inr 1200000"
  "ticks_for_frames fps30 900 base90k = Inr 2700000" "ticks_for_frames fps30 300 base90k = Inr 900000"
  by (simp_all add: ticks_for_frames_def fps30_def base90k_def plan_eval_defs del: and_then_Inr)

lemma sample_make:
  "make_slice (sample_probe n k) 0 c s fps30 = Inr (sample_slice n 0 c s)"
  "make_slice (sample_probe n k) 400 c s fps30 = Inr (sample_slice n 400 c s)"
  by (simp_all add: make_slice_def sample_probe_def sample_slice_def sample_ticks mp_rational_def
      i64_try_from_def i64_checked_add_def plan_eval_defs del: and_then_Inr)

lemma sample_slices:
  "slice_pair fps30 [sample_run ''b'' 500, sample_run ''a'' 700] 0 0 900 =
     Inr (([sample_slice ''b'' 0 500 0, sample_slice ''a'' 0 400 500],
           [sample_slice ''b'' 0 500 0, sample_slice ''a'' 0 400 500]), [sample_run ''a'' 700], 400)"
  "slice_pair fps30 [sample_run ''a'' 700] 400 900 1200 =
     Inr (([sample_slice ''a'' 400 300 900], [sample_slice ''a'' 400 300 900]), [], 0)"
  by (simp_all add: slice_pair.simps sample_run_def sample_make min_def Let_def del: and_then_Inr)

lemma sample_padded: "padded5 0 = ''00000''" "padded5 1 = ''00001''"
  by code_simp+

lemma sample_cut:
  "partition_loop fps30 base90k \<lparr>dim_width = 1920, dim_height = 1080\<rparr>
     (Some \<lparr>rect_x = 0, rect_y = 0, rect_width = 1920, rect_height = 1080\<rparr>)
     (Some \<lparr>rect_x = 1920, rect_y = 0, rect_width = 1920, rect_height = 1080\<rparr>)
     900 1200 0 [sample_run ''b'' 500, sample_run ''a'' 700] 0 0 = Inr (me_segment_pairs sample_plan)"
  by (simp add: partition_loop_unfold sample_slices pair_of_def sample_ticks mp_rational_def
      pair_path_def sample_padded min_def plan_eval_defs sample_plan_def sample_pair_def
      del: and_then_Inr)

lemma sample_total: "run_total 0 [sample_run ''b'' 500, sample_run ''a'' 700] = Inr 1200"
  by (simp add: sample_run_def plan_eval_defs del: and_then_Inr)

lemma sample_partition:
  "partition_runs [sample_run ''b'' 500, sample_run ''a'' 700] KindUnsignedMjpegPublicationV1
     \<lparr>dim_width = 1920, dim_height = 1080\<rparr> fps30 base90k 900 = Inr (me_segment_pairs sample_plan)"
  by (simp add: partition_runs_def sample_total sample_cut new_rect_def new_dimensions_def plan_eval_defs
      del: and_then_Inr run_total.simps)

lemma sample_valid:
  "validate_input_sequences sample_input = Inr ()"
  "validate_common_probe_contract sample_input sample_probes = Inr ()"
  "source_codec sample_input = CodecMjpeg" "input_kind sample_input = KindUnsignedMjpegPublicationV1"
  by (simp_all add: sample_input_def validate_segment_sequence_def index_sequence_def
      validate_common_probe_contract_def sample_probes_def sample_probe_def plan_eval_defs
      del: and_then_Inr)

lemma sample_planned: "plan_media sample_input sample_probes sample_profile = Inr sample_plan"
proof -
  have "(case sample_probes of [] \<Rightarrow> Inl MpInvalidSegmentSequence | p # _ \<Rightarrow> Inr (pb_frame_rate p))
      = Inr fps30" by (simp add: sample_probes_def sample_probe_def)
  then show ?thesis
    by (simp add: plan_media_def sample_reconcile sample_profile_eq sample_valid sample_build
        sample_total sample_limit sample_partition mp_profile_def ensure_def
        del: and_then_Inr run_total.simps)
      (simp add: sample_plan_def)
qed

theorem plan_covers_session_witness:
  "concat (map (\<lambda>p. eye_frames (sp_left p)) (me_segment_pairs sample_plan))
     = map (Pair ''b'') [0..<500] @ map (Pair ''a'') [0..<700]
   \<and> unat (me_total_frames sample_plan) = 1200"
  using plan_covers_session [OF sample_planned]
  by (simp add: session_frames_def sample_input_def sample_artifact_def probe_at_def probe_map_def
      sample_probes_def sample_probe_def sample_plan_def)

end
