(* ===== verification/Derived_Manifest.thy ===== *)
theory Derived_Manifest
  imports Media_Validation Media_Plan "HOL-Library.Multiset"
begin

text \<open>
  Checkpoints, the self-hashing derived manifest with its builder and its verifying parser,
  and the completion evidence of a derivation (\<open>normalization/manifest.rs\<close>). JSON and
  SHA-256 are parameters: \<open>json_codec\<close> holds the canonical serialisation of the two
  documents, the parser \<open>serde_json::from_slice\<close>, and the digest. A \<open>BTreeMap\<close> keyed by the
  segment index is the list of its values in the order of the index.
\<close>

section \<open>Errors and texts\<close>

datatype derived_manifest_error =
    DmInvalidField string
  | DmUnsafeRelativePath string
  | PlanProfileMismatch
  | CheckpointPlanMismatch u32
  | DuplicateCheckpoint
  | IncompleteCheckpoints nat nat
  | ValidationFailed u32
  | InvalidInventory
  | UnsupportedSchema u32
  | Malformed
  | NonCanonical
  | RevisionMismatch string string
  | DmProfile profile_error
  | DmCanonicalJson

definition dm_profile :: "profile_error + 'a \<Rightarrow> derived_manifest_error + 'a" where
  "dm_profile r = (case r of Inl e \<Rightarrow> Inl (DmProfile e) | Inr x \<Rightarrow> Inr x)"

lemma dm_profile_Inr [simp]: "dm_profile r = Inr x \<longleftrightarrow> r = Inr x"
  by (auto simp: dm_profile_def split: sum.splits)

definition validate_opaque_identity :: "string \<Rightarrow> string \<Rightarrow> derived_manifest_error + unit" where
  "validate_opaque_identity field v =
     ensure (short_text 256 v \<and> CHR ''/'' \<notin> set v \<and> CHR 0x5C \<notin> set v) (DmInvalidField field)"

definition validate_bounded_text ::
    "string \<Rightarrow> string \<Rightarrow> nat \<Rightarrow> derived_manifest_error + unit" where
  "validate_bounded_text field v maximum = ensure (short_text maximum v) (DmInvalidField field)"

definition manifest_path_ok :: "bool \<Rightarrow> string \<Rightarrow> bool" where
  "manifest_path_ok windows path \<longleftrightarrow>
     path \<noteq> [] \<and> CHR 0x5C \<notin> set path \<and> CHR 0x00 \<notin> set path
     \<and> \<not> absolute_or_prefixed windows path
     \<and> list_all (\<lambda>c. c \<noteq> [] \<and> hd c \<noteq> CHR ''.'') (split_at_char (CHR ''/'') path)"

section \<open>Subject, outputs, checkpoints\<close>

record derived_subject =
  du_origin_identity :: string
  du_session_identity :: string

definition new_derived_subject :: "string \<Rightarrow> string \<Rightarrow> derived_manifest_error + derived_subject" where
  "new_derived_subject origin session =
     and_then (validate_opaque_identity ''origin_identity'' origin) (\<lambda>_.
     and_then (validate_opaque_identity ''session_identity'' session) (\<lambda>_.
     Inr \<lparr>du_origin_identity = origin, du_session_identity = session\<rparr>))"

record input_inventory_entry =
  ii_artifact_id :: source_artifact_id
  ii_manifest_relative_path :: string
  ii_size_bytes :: u64
  ii_sha256 :: content_sha256

datatype derived_output_role = VideoLeft | VideoRight

record derived_output_entry =
  do_relative_path :: string
  do_role :: derived_output_role
  do_segment_index :: u32
  do_first_frame :: u64
  do_frame_count :: u64
  do_start_ticks :: u64
  do_duration_ticks :: u64
  do_size_bytes :: u64
  do_sha256 :: content_sha256
  do_media_type :: string

definition output_entry ::
    "segment_pair_plan \<Rightarrow> output_media_evidence \<Rightarrow> derived_output_role \<Rightarrow> derived_output_entry" where
  "output_entry plan out role =
     \<lparr>do_relative_path = om_manifest_relative_path out, do_role = role,
      do_segment_index = sp_segment_index plan, do_first_frame = sp_first_frame plan,
      do_frame_count = sp_frame_count plan, do_start_ticks = sp_start_ticks plan,
      do_duration_ticks = om_duration_ticks out, do_size_bytes = om_size_bytes out,
      do_sha256 = om_sha256 out, do_media_type = ''video/mp4''\<rparr>"

record segment_validation_summary =
  vs_segment_index :: u32
  vs_structural :: verdict
  vs_full_decode :: verdict
  vs_sync :: verdict
  vs_quality :: verdict
  vs_left_quality :: quality_evidence
  vs_right_quality :: quality_evidence

definition summary_of :: "segment_validation_report \<Rightarrow> segment_validation_summary" where
  "summary_of r =
     \<lparr>vs_segment_index = rp_segment_index r, vs_structural = rp_structural r,
      vs_full_decode = rp_full_decode r, vs_sync = rp_sync r, vs_quality = rp_quality r,
      vs_left_quality = rp_left_quality r, vs_right_quality = rp_right_quality r\<rparr>"

definition summary_passed :: "segment_validation_summary \<Rightarrow> bool" where
  "summary_passed s \<longleftrightarrow>
     vd_passed (vs_structural s) \<and> vd_passed (vs_full_decode s)
     \<and> vd_passed (vs_sync s) \<and> vd_passed (vs_quality s)"

record segment_pair_checkpoint =
  cp_segment_index :: u32
  cp_profile_revision :: profile_revision
  cp_encoder_build_fingerprint :: string
  cp_left :: derived_output_entry
  cp_right :: derived_output_entry
  cp_validation :: segment_validation_summary
  cp_published_pair_relative_path :: string
  cp_pair_commit_receipt :: string

definition from_validated_pair ::
    "bool \<Rightarrow> segment_pair_plan \<Rightarrow> segment_validation_report \<Rightarrow> normalization_profile
     \<Rightarrow> encoder_build \<Rightarrow> string \<Rightarrow> string \<Rightarrow> derived_manifest_error + segment_pair_checkpoint" where
  "from_validated_pair windows plan validated profile build published_path receipt =
     and_then (ensure (sp_segment_index plan = rp_segment_index validated)
        (CheckpointPlanMismatch (rp_segment_index validated))) (\<lambda>_.
     and_then (dm_profile (require_compatible_encoder profile build)) (\<lambda>_.
     and_then (ensure (manifest_path_ok windows published_path) (DmUnsafeRelativePath published_path)) (\<lambda>_.
     and_then (validate_bounded_text ''pair_commit_receipt'' receipt 512) (\<lambda>_.
     let left = output_entry plan (rp_left validated) VideoLeft;
         right = output_entry plan (rp_right validated) VideoRight;
         validation = summary_of validated
     in and_then (ensure (summary_passed validation) (ValidationFailed (sp_segment_index plan))) (\<lambda>_.
        Inr \<lparr>cp_segment_index = sp_segment_index plan,
             cp_profile_revision = np_profile_revision profile,
             cp_encoder_build_fingerprint = eb_build_fingerprint build,
             cp_left = left, cp_right = right, cp_validation = validation,
             cp_published_pair_relative_path = published_path,
             cp_pair_commit_receipt = receipt\<rparr>)))))"

section \<open>The ledger of checkpoints\<close>

type_synonym checkpoint_map = "segment_pair_checkpoint list"

definition has_checkpoint :: "u32 \<Rightarrow> checkpoint_map \<Rightarrow> bool" where
  "has_checkpoint i m \<longleftrightarrow> i \<in> set (map cp_segment_index m)"

definition insert_checkpoint :: "segment_pair_checkpoint \<Rightarrow> checkpoint_map \<Rightarrow> checkpoint_map" where
  "insert_checkpoint c m =
     insort_key cp_segment_index c (filter (\<lambda>d. cp_segment_index d \<noteq> cp_segment_index c) m)"

definition is_checkpoint_map :: "checkpoint_map \<Rightarrow> bool" where
  "is_checkpoint_map m \<longleftrightarrow> sorted (map cp_segment_index m) \<and> distinct (map cp_segment_index m)"

section \<open>The manifest\<close>

record derived_manifest_material =
  mm_schema_version :: u32
  mm_subject :: derived_subject
  mm_source_content_revision :: source_content_revision
  mm_source_provenance :: source_provenance
  mm_source_inventory_digest :: inventory_digest
  mm_source_manifest_digest :: source_manifest_digest
  mm_profile_revision :: profile_revision
  mm_encoder :: encoder_build
  mm_media_plan :: media_plan
  mm_input_inventory :: "input_inventory_entry list"
  mm_output_inventory :: "derived_output_entry list"
  mm_segment_validation :: "segment_validation_summary list"
  mm_transcode_generation :: transcode_generation
  mm_created_at :: string

type_synonym derived_revision = string

record derived_manifest =
  dm_material :: derived_manifest_material
  dm_derived_revision :: derived_revision
  dm_canonical_bytes :: string

text \<open>The outside world of this component: JSON and the digest.\<close>

record json_codec =
  jc_material :: "derived_manifest_material \<Rightarrow> derived_manifest_error + string"
  jc_document ::
    "derived_manifest_material \<times> derived_revision \<Rightarrow> derived_manifest_error + string"
  jc_parse :: "string \<Rightarrow> (derived_manifest_material \<times> derived_revision) option"
  jc_digest :: "string \<Rightarrow> derived_revision"

definition pair_inventory_ok :: "derived_output_entry list \<Rightarrow> segment_pair_plan \<Rightarrow> bool" where
  "pair_inventory_ok inventory pair \<longleftrightarrow>
     (let outputs = filter (\<lambda>o'. do_segment_index o' = sp_segment_index pair) inventory
      in length outputs = 2
         \<and> list_ex (\<lambda>o'. do_role o' = VideoLeft) outputs
         \<and> list_ex (\<lambda>o'. do_role o' = VideoRight) outputs
         \<and> list_all (\<lambda>o'. do_first_frame o' = sp_first_frame pair
              \<and> do_frame_count o' = sp_frame_count pair
              \<and> do_start_ticks o' = sp_start_ticks pair) outputs)"

definition validate_manifest_inventory ::
    "derived_manifest_material \<Rightarrow> derived_manifest_error + unit" where
  "validate_manifest_inventory m =
     (let pairs = me_segment_pairs (mm_media_plan m)
      in and_then (ensure (2 * length pairs < 2 ^ 64) InvalidInventory) (\<lambda>_.
         and_then (ensure (distinct (map ii_artifact_id (mm_input_inventory m))
              \<and> distinct (map do_relative_path (mm_output_inventory m))
              \<and> length (mm_output_inventory m) = 2 * length pairs
              \<and> length (mm_segment_validation m) = length pairs
              \<and> list_all summary_passed (mm_segment_validation m)) InvalidInventory) (\<lambda>_.
         ensure (list_all (pair_inventory_ok (mm_output_inventory m)) pairs) InvalidInventory)))"

definition parse_verified ::
    "json_codec \<Rightarrow> string \<Rightarrow> derived_manifest_error + derived_manifest" where
  "parse_verified codec bytes =
     (case jc_parse codec bytes of
        None \<Rightarrow> Inl Malformed
      | Some (material, revision) \<Rightarrow>
          and_then (ensure (mm_schema_version material = 1)
             (UnsupportedSchema (mm_schema_version material))) (\<lambda>_.
          and_then (jc_material codec material) (\<lambda>material_bytes.
          let expected = jc_digest codec material_bytes
          in and_then (ensure (expected = revision) (RevisionMismatch expected revision)) (\<lambda>_.
             and_then (jc_document codec (material, revision)) (\<lambda>canonical_bytes.
             and_then (ensure (canonical_bytes = bytes) NonCanonical) (\<lambda>_.
             and_then (validate_manifest_inventory material) (\<lambda>_.
             Inr \<lparr>dm_material = material, dm_derived_revision = revision,
                  dm_canonical_bytes = canonical_bytes\<rparr>)))))))"

section \<open>The builder\<close>

record manifest_builder =
  bd_subject :: derived_subject
  bd_local_source :: local_source_receipt
  bd_source_manifest_digest :: source_manifest_digest
  bd_input :: normalization_input
  bd_media_plan :: media_plan
  bd_profile :: normalization_profile
  bd_encoder_build :: encoder_build
  bd_created_at :: string
  bd_checkpoints :: checkpoint_map

definition new_manifest_builder ::
    "derived_subject \<Rightarrow> local_source_receipt \<Rightarrow> source_manifest_digest \<Rightarrow> normalization_input
     \<Rightarrow> media_plan \<Rightarrow> normalization_profile \<Rightarrow> encoder_build \<Rightarrow> string
     \<Rightarrow> derived_manifest_error + manifest_builder" where
  "new_manifest_builder subject receipt digest input plan profile build created_at =
     and_then (ensure (input_kind input = me_source_kind plan
          \<and> me_profile_revision plan = np_profile_revision profile) PlanProfileMismatch) (\<lambda>_.
     and_then (dm_profile (require_compatible_encoder profile build)) (\<lambda>_.
     and_then (validate_bounded_text ''derived_created_at'' created_at 128) (\<lambda>_.
     Inr \<lparr>bd_subject = subject, bd_local_source = receipt, bd_source_manifest_digest = digest,
          bd_input = input, bd_media_plan = plan, bd_profile = profile,
          bd_encoder_build = build, bd_created_at = created_at, bd_checkpoints = []\<rparr>)))"

text \<open>A duplicate replaces the earlier checkpoint and is reported.\<close>

definition add_checkpoint ::
    "manifest_builder \<Rightarrow> segment_pair_checkpoint
     \<Rightarrow> manifest_builder \<times> (derived_manifest_error + unit)" where
  "add_checkpoint b c =
     (if cp_profile_revision c \<noteq> np_profile_revision (bd_profile b)
        \<or> cp_encoder_build_fingerprint c \<noteq> eb_build_fingerprint (bd_encoder_build b)
        \<or> segment_pair (bd_media_plan b) (cp_segment_index c) = None
      then (b, Inl (CheckpointPlanMismatch (cp_segment_index c)))
      else
        (b\<lparr>bd_checkpoints := insert_checkpoint c (bd_checkpoints b)\<rparr>,
         if has_checkpoint (cp_segment_index c) (bd_checkpoints b)
         then Inl DuplicateCheckpoint else Inr ()))"

definition inventory_entry :: "resolved_source_artifact \<Rightarrow> input_inventory_entry" where
  "inventory_entry a =
     \<lparr>ii_artifact_id = ra_id a, ii_manifest_relative_path = ra_manifest_relative_path a,
      ii_size_bytes = ra_expected_size_bytes a, ii_sha256 = ra_expected_sha256 a\<rparr>"

definition builder_material :: "manifest_builder \<Rightarrow> derived_manifest_material" where
  "builder_material b =
     \<lparr>mm_schema_version = 1, mm_subject = bd_subject b,
      mm_source_content_revision = lr_content_revision (bd_local_source b),
      mm_source_provenance = lr_provenance (bd_local_source b),
      mm_source_inventory_digest = lr_inventory_digest (bd_local_source b),
      mm_source_manifest_digest = bd_source_manifest_digest b,
      mm_profile_revision = np_profile_revision (bd_profile b),
      mm_encoder = bd_encoder_build b, mm_media_plan = bd_media_plan b,
      mm_input_inventory = map inventory_entry (input_artifacts (bd_input b)),
      mm_output_inventory = concat (map (\<lambda>c. [cp_left c, cp_right c]) (bd_checkpoints b)),
      mm_segment_validation = map cp_validation (bd_checkpoints b),
      mm_transcode_generation = pr_transcode_generation (np_material (bd_profile b)),
      mm_created_at = bd_created_at b\<rparr>"

definition build_manifest ::
    "json_codec \<Rightarrow> manifest_builder \<Rightarrow> derived_manifest_error + derived_manifest" where
  "build_manifest codec b =
     (let pairs = me_segment_pairs (bd_media_plan b); material = builder_material b
      in and_then (dm_profile (require_approved (bd_profile b))) (\<lambda>_.
         and_then (dm_profile (require_compatible_encoder (bd_profile b) (bd_encoder_build b))) (\<lambda>_.
         and_then (ensure (length (bd_checkpoints b) = length pairs
              \<and> list_all (\<lambda>p. has_checkpoint (sp_segment_index p) (bd_checkpoints b)) pairs)
            (IncompleteCheckpoints (length pairs) (length (bd_checkpoints b)))) (\<lambda>_.
         and_then (validate_manifest_inventory material) (\<lambda>_.
         and_then (jc_material codec material) (\<lambda>material_bytes.
         let revision = jc_digest codec material_bytes
         in and_then (jc_document codec (material, revision)) (\<lambda>bytes.
            Inr \<lparr>dm_material = material, dm_derived_revision = revision,
                 dm_canonical_bytes = bytes\<rparr>)))))))"

section \<open>Completion\<close>

record upload_bundle_input =
  ub_subject :: derived_subject
  ub_source_content_revision :: source_content_revision
  ub_source_provenance :: source_provenance
  ub_source_manifest_digest :: source_manifest_digest
  ub_profile_revision :: profile_revision
  ub_derived_revision :: derived_revision
  ub_output_inventory :: "derived_output_entry list"
  ub_derived_manifest_canonical_bytes :: string

definition upload_bundle_input :: "derived_manifest \<Rightarrow> upload_bundle_input" where
  "upload_bundle_input m =
     (let t = dm_material m
      in \<lparr>ub_subject = mm_subject t, ub_source_content_revision = mm_source_content_revision t,
          ub_source_provenance = mm_source_provenance t,
          ub_source_manifest_digest = mm_source_manifest_digest t,
          ub_profile_revision = mm_profile_revision t,
          ub_derived_revision = dm_derived_revision m,
          ub_output_inventory = mm_output_inventory t,
          ub_derived_manifest_canonical_bytes = dm_canonical_bytes m\<rparr>)"

record derived_completion =
  dc_source_content_revision :: source_content_revision
  dc_profile_revision :: profile_revision
  dc_derived_revision :: derived_revision
  dc_local_relative_path :: string
  dc_local_commit_receipt :: string
  dc_committed_at :: string
  dc_upload_bundle_input :: upload_bundle_input

definition new_derived_completion ::
    "bool \<Rightarrow> derived_manifest \<Rightarrow> string \<Rightarrow> string \<Rightarrow> string
     \<Rightarrow> derived_manifest_error + derived_completion" where
  "new_derived_completion windows m path receipt committed_at =
     and_then (ensure (manifest_path_ok windows path) (DmUnsafeRelativePath path)) (\<lambda>_.
     and_then (validate_bounded_text ''derived_local_commit_receipt'' receipt 512) (\<lambda>_.
     and_then (validate_bounded_text ''derived_committed_at'' committed_at 128) (\<lambda>_.
     Inr \<lparr>dc_source_content_revision = mm_source_content_revision (dm_material m),
          dc_profile_revision = mm_profile_revision (dm_material m),
          dc_derived_revision = dm_derived_revision m, dc_local_relative_path = path,
          dc_local_commit_receipt = receipt, dc_committed_at = committed_at,
          dc_upload_bundle_input = upload_bundle_input m\<rparr>)))"

section \<open>A manifest is self-certifying\<close>

lemma parse_verified_Inr:
  "parse_verified codec bytes = Inr m \<longleftrightarrow>
     jc_parse codec bytes = Some (dm_material m, dm_derived_revision m)
     \<and> mm_schema_version (dm_material m) = 1
     \<and> (\<exists>mb. jc_material codec (dm_material m) = Inr mb
          \<and> jc_digest codec mb = dm_derived_revision m)
     \<and> jc_document codec (dm_material m, dm_derived_revision m) = Inr bytes
     \<and> dm_canonical_bytes m = bytes
     \<and> validate_manifest_inventory (dm_material m) = Inr ()"
  by (cases m) (auto simp: parse_verified_def Let_def split: option.splits)

text \<open>
  The rest of the inventory check, read back: exactly the two outputs of each pair, and every
  verdict passed.
\<close>

lemma inventory_valid_iff:
  "validate_manifest_inventory m = Inr () \<longleftrightarrow>
     2 * length (me_segment_pairs (mm_media_plan m)) < 2 ^ 64
     \<and> distinct (map ii_artifact_id (mm_input_inventory m))
     \<and> distinct (map do_relative_path (mm_output_inventory m))
     \<and> length (mm_output_inventory m) = 2 * length (me_segment_pairs (mm_media_plan m))
     \<and> length (mm_segment_validation m) = length (me_segment_pairs (mm_media_plan m))
     \<and> list_all summary_passed (mm_segment_validation m)
     \<and> list_all (pair_inventory_ok (mm_output_inventory m)) (me_segment_pairs (mm_media_plan m))"
  by (auto simp: validate_manifest_inventory_def Let_def)

lemma build_manifest_Inr:
  assumes "build_manifest codec b = Inr m"
  shows "dm_material m = builder_material b"
    and "validate_manifest_inventory (dm_material m) = Inr ()"
    and "\<exists>mb. jc_material codec (dm_material m) = Inr mb \<and> jc_digest codec mb = dm_derived_revision m"
    and "jc_document codec (dm_material m, dm_derived_revision m) = Inr (dm_canonical_bytes m)"
    and "require_approved (bd_profile b) = Inr ()"
  using assms by (auto simp: build_manifest_def Let_def)


text \<open>
  A verified manifest is determined by its revision: two byte strings the parser accepts with the
  same revision are the same bytes and the same manifest, if the digest has no collision
  among the serialised materials and the serialisation is injective.
\<close>
theorem verified_manifest_unique:
  assumes "parse_verified codec bytes\<^sub>1 = Inr m\<^sub>1" and "parse_verified codec bytes\<^sub>2 = Inr m\<^sub>2"
    and "dm_derived_revision m\<^sub>1 = dm_derived_revision m\<^sub>2"
    and "\<And>x y. jc_digest codec x = jc_digest codec y \<Longrightarrow> x = y"
    and "\<And>s t mb. jc_material codec s = Inr mb \<Longrightarrow> jc_material codec t = Inr mb \<Longrightarrow> s = t"
  shows "bytes\<^sub>1 = bytes\<^sub>2 \<and> m\<^sub>1 = m\<^sub>2"
proof -
  from assms(1-3) obtain mb where
    "jc_material codec (dm_material m\<^sub>1) = Inr mb" "jc_material codec (dm_material m\<^sub>2) = Inr mb"
    unfolding parse_verified_Inr by (metis assms(4))
  then have "dm_material m\<^sub>1 = dm_material m\<^sub>2" by (rule assms(5))
  with assms(1-3) show ?thesis
    unfolding parse_verified_Inr by (cases m\<^sub>1; cases m\<^sub>2) auto
qed

section \<open>Validated pairs always make a manifest\<close>

text \<open>A checkpoint made from a validated pair of the plan.\<close>

definition validated_checkpoint ::
    "normalization_profile \<Rightarrow> encoder_build \<Rightarrow> segment_pair_plan \<Rightarrow> segment_pair_checkpoint \<Rightarrow> bool" where
  "validated_checkpoint profile build p c \<longleftrightarrow>
     (\<exists>windows l r lq rq report published receipt.
        evaluate p profile l r lq rq = Inr report
        \<and> from_validated_pair windows p report profile build published receipt = Inr c)"

lemma validated_checkpointD:
  assumes "validated_checkpoint profile build p c"
  shows "cp_segment_index c = sp_segment_index p"
    and "cp_profile_revision c = np_profile_revision profile"
    and "cp_encoder_build_fingerprint c = eb_build_fingerprint build"
    and "summary_passed (cp_validation c)"
    and "do_relative_path (cp_left c) = sp_left_output p"
    and "do_relative_path (cp_right c) = sp_right_output p"
    and "do_role (cp_left c) = VideoLeft" and "do_role (cp_right c) = VideoRight"
    and "do_segment_index (cp_left c) = sp_segment_index p"
    and "do_segment_index (cp_right c) = sp_segment_index p"
    and "do_first_frame (cp_left c) = sp_first_frame p \<and> do_first_frame (cp_right c) = sp_first_frame p"
    and "do_frame_count (cp_left c) = sp_frame_count p \<and> do_frame_count (cp_right c) = sp_frame_count p"
    and "do_start_ticks (cp_left c) = sp_start_ticks p \<and> do_start_ticks (cp_right c) = sp_start_ticks p"
proof -
  from assms obtain windows l r lq rq report published receipt where
    ev: "evaluate p profile l r lq rq = Inr report"
    and c: "from_validated_pair windows p report profile build published receipt = Inr c"
    by (auto simp: validated_checkpoint_def)
  from c have passed: "summary_passed (summary_of report)"
    by (auto simp: from_validated_pair_def Let_def)
  then have "report_passed report"
    by (simp add: summary_passed_def summary_of_def report_passed_def)
  then have sl: "validate_output_structure p profile l LeftEye = []"
    and sr: "validate_output_structure p profile r RightEye = []"
    by (simp_all add: evaluate_Inr(4) [OF ev])
  note facts = structure_ok(2) [OF sl] structure_ok(2) [OF sr] evaluate_Inr(1,2) [OF ev] passed
  show "cp_segment_index c = sp_segment_index p"
    "cp_profile_revision c = np_profile_revision profile"
    "cp_encoder_build_fingerprint c = eb_build_fingerprint build"
    "summary_passed (cp_validation c)"
    "do_relative_path (cp_left c) = sp_left_output p"
    "do_relative_path (cp_right c) = sp_right_output p"
    "do_role (cp_left c) = VideoLeft" "do_role (cp_right c) = VideoRight"
    "do_segment_index (cp_left c) = sp_segment_index p"
    "do_segment_index (cp_right c) = sp_segment_index p"
    "do_first_frame (cp_left c) = sp_first_frame p \<and> do_first_frame (cp_right c) = sp_first_frame p"
    "do_frame_count (cp_left c) = sp_frame_count p \<and> do_frame_count (cp_right c) = sp_frame_count p"
    "do_start_ticks (cp_left c) = sp_start_ticks p \<and> do_start_ticks (cp_right c) = sp_start_ticks p"
    using c facts by (auto simp: from_validated_pair_def output_entry_def Let_def)
qed

text \<open>The checkpoints, added one after the other; the first refusal ends it.\<close>

fun add_checkpoints ::
    "manifest_builder \<Rightarrow> segment_pair_checkpoint list \<Rightarrow> derived_manifest_error + manifest_builder" where
  "add_checkpoints b [] = Inr b"
| "add_checkpoints b (c # cs) =
     (case add_checkpoint b c of
        (b', Inl e) \<Rightarrow> Inl e
      | (b', Inr _) \<Rightarrow> add_checkpoints b' cs)"

lemma insert_new_checkpoint:
  assumes "\<not> has_checkpoint (cp_segment_index c) m"
  shows "insert_checkpoint c m = insort_key cp_segment_index c m"
proof -
  have "\<forall>d \<in> set m. cp_segment_index d \<noteq> cp_segment_index c"
    using assms unfolding has_checkpoint_def set_map by (metis image_eqI)
  then have "filter (\<lambda>d. cp_segment_index d \<noteq> cp_segment_index c) m = m"
    by (simp add: filter_id_conv)
  then show ?thesis by (simp add: insert_checkpoint_def)
qed

lemma add_checkpoints_fold:
  assumes "\<forall>c \<in> set cs. cp_profile_revision c = np_profile_revision (bd_profile b)
      \<and> cp_encoder_build_fingerprint c = eb_build_fingerprint (bd_encoder_build b)
      \<and> segment_pair (bd_media_plan b) (cp_segment_index c) \<noteq> None"
    and "distinct (map cp_segment_index (bd_checkpoints b @ cs))"
  shows "add_checkpoints b cs =
    Inr (b\<lparr>bd_checkpoints := fold (insort_key cp_segment_index) cs (bd_checkpoints b)\<rparr>)"
  using assms
proof (induction cs arbitrary: b)
  case (Cons c cs)
  then have new: "\<not> has_checkpoint (cp_segment_index c) (bd_checkpoints b)"
    by (auto simp: has_checkpoint_def)
  have "add_checkpoint b c =
      (b\<lparr>bd_checkpoints := insort_key cp_segment_index c (bd_checkpoints b)\<rparr>, Inr ())"
    using Cons.prems(1) new by (simp add: add_checkpoint_def insert_new_checkpoint)
  moreover have "distinct (map cp_segment_index
      (insort_key cp_segment_index c (bd_checkpoints b) @ cs))"
    using Cons.prems(2) by (auto simp: distinct_insort_key set_insort_key)
  ultimately show ?case
    using Cons.prems(1) Cons.IH [of "b\<lparr>bd_checkpoints := insort_key cp_segment_index c (bd_checkpoints b)\<rparr>"]
    by simp
qed simp

lemma fold_insort: "fold (insort_key k) cs [] = sort_key k (rev cs)"
  by (simp add: sort_key_def foldr_conv_fold)

text \<open>
  The part the plan plays: its pairs are numbered from zero, so each is found under its
  number, and their output paths differ.
\<close>

definition numbered :: "segment_pair_plan list \<Rightarrow> bool" where
  "numbered pairs \<longleftrightarrow>
     map (\<lambda>p. unat (sp_segment_index p)) pairs = [0..<length pairs] \<and> list_all planned_paths pairs"

lemma numbered_index:
  assumes "numbered pairs" and "i < length pairs"
  shows "unat (sp_segment_index (pairs ! i)) = i"
  using assms by (metis (no_types, lifting) add_0 nth_map nth_upt numbered_def)

lemma numbered_distinct:
  assumes "numbered pairs"
  shows "distinct (map sp_segment_index pairs)" and "sorted (map sp_segment_index pairs)"
proof -
  have "distinct (map (\<lambda>p. unat (sp_segment_index p)) pairs)"
    and "sorted (map (\<lambda>p. unat (sp_segment_index p)) pairs)"
    using assms by (simp_all add: numbered_def)
  then show "distinct (map sp_segment_index pairs)" and "sorted (map sp_segment_index pairs)"
    by (auto simp: distinct_map inj_on_def sorted_map word_le_nat_alt)
qed

lemma numbered_length:
  assumes "numbered pairs"
  shows "length pairs \<le> 2 ^ 32"
proof (cases "length pairs")
  case (Suc n)
  then have "n = unat (sp_segment_index (pairs ! n))"
    using numbered_index [OF assms, of n] by simp
  also have "\<dots> < 2 ^ 32" using unsigned_less [of "sp_segment_index (pairs ! n)"] by simp
  finally show ?thesis by (simp add: Suc)
qed simp

lemma numbered_segment_pair:
  assumes "numbered (me_segment_pairs plan)" and "p \<in> set (me_segment_pairs plan)"
  shows "segment_pair plan (sp_segment_index p) = Some p"
proof -
  from assms(2) obtain i where i: "i < length (me_segment_pairs plan)" "p = me_segment_pairs plan ! i"
    by (auto simp: in_set_conv_nth)
  then have "unat (sp_segment_index p) = i" using numbered_index [OF assms(1)] by simp
  with i show ?thesis by (simp add: segment_pair_def)
qed

text \<open>The two outputs of each pair, in the order of the pairs.\<close>

definition paired_outputs ::
    "(segment_pair_plan \<Rightarrow> segment_pair_checkpoint) \<Rightarrow> segment_pair_plan list
     \<Rightarrow> derived_output_entry list" where
  "paired_outputs ck pairs = concat (map (\<lambda>p. [cp_left (ck p), cp_right (ck p)]) pairs)"

lemma paired_outputs_filter:
  assumes "\<forall>p \<in> set pairs. validated_checkpoint profile build p (ck p)"
    and "distinct (map sp_segment_index pairs)" and "p \<in> set pairs"
  shows "filter (\<lambda>o'. do_segment_index o' = sp_segment_index p) (paired_outputs ck pairs)
    = [cp_left (ck p), cp_right (ck p)]"
  using assms
proof (induction pairs)
  case (Cons q qs)
  have q: "do_segment_index (cp_left (ck q)) = sp_segment_index q"
    "do_segment_index (cp_right (ck q)) = sp_segment_index q"
    using validated_checkpointD(9,10) [of profile build q "ck q"] Cons.prems(1) by simp_all
  show ?case
  proof (cases "p = q")
    case True
    have "filter (\<lambda>o'. do_segment_index o' = sp_segment_index q) (paired_outputs ck qs) = []"
    proof -
      have "do_segment_index o' \<noteq> sp_segment_index q" if "o' \<in> set (paired_outputs ck qs)" for o'
      proof -
        from that obtain r where r: "r \<in> set qs" "o' = cp_left (ck r) \<or> o' = cp_right (ck r)"
          by (auto simp: paired_outputs_def)
        then have "do_segment_index o' = sp_segment_index r"
          using validated_checkpointD(9,10) [of profile build r "ck r"] Cons.prems(1) by auto
        with r Cons.prems(2) show ?thesis by (metis distinct.simps(2) image_eqI list.map(2) set_map)
      qed
      then show ?thesis by (simp add: filter_empty_conv)
    qed
    with True q show ?thesis by (simp add: paired_outputs_def)
  next
    case False
    with Cons have "filter (\<lambda>o'. do_segment_index o' = sp_segment_index p) (paired_outputs ck qs)
        = [cp_left (ck p), cp_right (ck p)]"
      and "sp_segment_index q \<noteq> sp_segment_index p" by auto
    with q show ?thesis by (simp add: paired_outputs_def)
  qed
qed simp

lemma paired_outputs_paths:
  assumes "\<forall>p \<in> set pairs. validated_checkpoint profile build p (ck p)"
    and "distinct (map sp_segment_index pairs)" and "list_all planned_paths pairs"
  shows "distinct (map do_relative_path (paired_outputs ck pairs))"
proof -
  have paths: "do_relative_path (cp_left (ck p)) = pair_path (sp_segment_index p) ''left.mp4''
      \<and> do_relative_path (cp_right (ck p)) = pair_path (sp_segment_index p) ''right.mp4''"
    if "p \<in> set pairs" for p
    using that assms(1,3) validated_checkpointD(5,6) [of profile build p "ck p"]
    by (auto simp: list_all_iff planned_paths_def)
  have "distinct (map do_relative_path (paired_outputs ck ps))" if "set ps \<subseteq> set pairs"
    "distinct (map sp_segment_index ps)" for ps
    using that
  proof (induction ps)
    case (Cons q qs)
    have "o' \<in> set (paired_outputs ck qs) \<Longrightarrow>
        \<exists>r \<in> set qs. \<exists>n. do_relative_path o' = pair_path (sp_segment_index r) n" for o'
      using paths Cons.prems(1) by (fastforce simp: paired_outputs_def)
    moreover have "sp_segment_index q \<notin> sp_segment_index ` set qs" using Cons.prems(2) by simp
    ultimately have "pair_path (sp_segment_index q) n
        \<notin> do_relative_path ` set (paired_outputs ck qs)" for n
      by (auto simp: pair_path_eq) (metis image_eqI pair_path_eq)
    then show ?case
      using Cons paths [of q] by (simp add: paired_outputs_def pair_path_eq)
  qed (simp add: paired_outputs_def)
  with assms(2) show ?thesis by simp
qed

lemma length_paired_outputs: "length (paired_outputs ck pairs) = 2 * length pairs"
  by (induction pairs) (simp_all add: paired_outputs_def)

lemma first_repeated_None:
  "first_repeated seen xs = None \<longleftrightarrow> distinct xs \<and> set xs \<inter> set seen = {}"
  by (induction xs arbitrary: seen) auto

lemma planned_inputs_distinct:
  assumes "plan_media input report profile = Inr plan"
  shows "distinct (map ra_id (input_artifacts input))"
  by (rule plan_pairs [OF assms])
    (auto simp: reconcile_probes_def Let_def first_repeated_None split: option.splits)

definition codec_total :: "json_codec \<Rightarrow> bool" where
  "codec_total codec \<longleftrightarrow>
     (\<forall>m. \<exists>bytes. jc_material codec m = Inr bytes) \<and> (\<forall>d. \<exists>bytes. jc_document codec d = Inr bytes)"

lemma checkpoints_in_order:
  assumes "numbered (me_segment_pairs (bd_media_plan b))"
    and "\<forall>p \<in> set (me_segment_pairs (bd_media_plan b)).
      validated_checkpoint (bd_profile b) (bd_encoder_build b) p (ck p)"
    and "mset cs = mset (map ck (me_segment_pairs (bd_media_plan b)))" and "bd_checkpoints b = []"
  shows "add_checkpoints b cs =
    Inr (b\<lparr>bd_checkpoints := map ck (me_segment_pairs (bd_media_plan b))\<rparr>)"
proof -
  let ?pairs = "me_segment_pairs (bd_media_plan b)"
  note ok = assms(2) [rule_format]
  note index = validated_checkpointD(1) [OF ok]
  have keys: "map cp_segment_index (map ck ?pairs) = map sp_segment_index ?pairs"
    using index by (simp add: comp_def)
  have d: "distinct (map cp_segment_index (map ck ?pairs))"
    and sorted: "sorted (map cp_segment_index (map ck ?pairs))"
    unfolding keys using numbered_distinct [OF assms(1)] by simp_all
  have "mset (map cp_segment_index cs) = mset (map cp_segment_index (map ck ?pairs))"
    using assms(3) by (metis mset_map)
  then have dcs: "distinct (map cp_segment_index cs)" using d by (metis mset_eq_imp_distinct_iff)
  have set: "set cs = ck ` set ?pairs" using assms(3) by (metis set_map set_mset_mset)
  have "\<forall>c \<in> set cs. cp_profile_revision c = np_profile_revision (bd_profile b)
      \<and> cp_encoder_build_fingerprint c = eb_build_fingerprint (bd_encoder_build b)
      \<and> segment_pair (bd_media_plan b) (cp_segment_index c) \<noteq> None"
    using validated_checkpointD(1-3) [OF ok] numbered_segment_pair [OF assms(1)] by (auto simp: set)
  then have "add_checkpoints b cs = Inr (b\<lparr>bd_checkpoints := sort_key cp_segment_index (rev cs)\<rparr>)"
    using dcs assms(4) by (simp add: add_checkpoints_fold fold_insort)
  moreover have "sort_key cp_segment_index (rev cs) = map ck ?pairs"
    by (rule sort_key_inj_key_eq) (use assms(3) dcs sorted in \<open>simp_all add: distinct_map\<close>)
  ultimately show ?thesis by simp
qed

lemma validated_builder:
  assumes "plan_media input report profile = Inr plan"
    and "new_manifest_builder subject receipt digest input plan profile build created_at = Inr b"
    and "\<forall>p \<in> set (me_segment_pairs plan). validated_checkpoint profile build p (ck p)"
    and "mset cs = mset (map ck (me_segment_pairs plan))"
    and "require_approved profile = Inr ()"
  defines "b' \<equiv> b\<lparr>bd_checkpoints := map ck (me_segment_pairs plan)\<rparr>"
  shows "add_checkpoints b cs = Inr b'"
    and "mm_output_inventory (builder_material b') = paired_outputs ck (me_segment_pairs plan)"
    and "jc_material codec (builder_material b') = Inr mb
      \<Longrightarrow> jc_document codec (builder_material b', jc_digest codec mb) = Inr bytes
      \<Longrightarrow> build_manifest codec b' = Inr \<lparr>dm_material = builder_material b',
            dm_derived_revision = jc_digest codec mb, dm_canonical_bytes = bytes\<rparr>"
proof -
  let ?pairs = "me_segment_pairs plan"
  have num: "numbered ?pairs"
    unfolding numbered_def using plan_indexes [OF assms(1)] plan_paths [OF assms(1)] by simp
  note d = numbered_distinct(1) [OF num]
  have b: "bd_media_plan b = plan" "bd_profile b = profile" "bd_encoder_build b = build"
    "bd_checkpoints b = []" "bd_input b = input"
    and compatible: "require_compatible_encoder profile build = Inr ()"
    using assms(2) by (auto simp: new_manifest_builder_def)
  show "add_checkpoints b cs = Inr b'"
    using checkpoints_in_order [of b ck cs] num assms(3,4) by (simp add: b b'_def)
  show outputs: "mm_output_inventory (builder_material b') = paired_outputs ck ?pairs"
    by (simp add: builder_material_def b'_def paired_outputs_def comp_def)
  have "list_all (pair_inventory_ok (paired_outputs ck ?pairs)) ?pairs"
    unfolding list_all_iff pair_inventory_ok_def
    using paired_outputs_filter [OF assms(3) d] validated_checkpointD(7,8,11-13) [OF assms(3) [rule_format]]
    by simp
  moreover have "distinct (map ii_artifact_id (mm_input_inventory (builder_material b')))"
    using planned_inputs_distinct [OF assms(1)]
    by (simp add: builder_material_def b'_def b comp_def inventory_entry_def)
  moreover have "list_all summary_passed (mm_segment_validation (builder_material b'))"
    using validated_checkpointD(4) [OF assms(3) [rule_format]]
    by (auto simp: builder_material_def b'_def list_all_iff)
  moreover have "mm_media_plan (builder_material b') = plan"
    "length (mm_segment_validation (builder_material b')) = length ?pairs"
    by (simp_all add: builder_material_def b'_def b)
  moreover have "2 * length ?pairs < 2 ^ 64" using numbered_length [OF num] by simp
  moreover have "distinct (map do_relative_path (paired_outputs ck ?pairs))"
    using num by (intro paired_outputs_paths [OF assms(3) d]) (simp add: numbered_def)
  ultimately have valid: "validate_manifest_inventory (builder_material b') = Inr ()"
    unfolding inventory_valid_iff by (simp add: outputs length_paired_outputs)
  have complete: "list_all (\<lambda>p. has_checkpoint (sp_segment_index p) (bd_checkpoints b')) ?pairs"
    using validated_checkpointD(1) [OF assms(3) [rule_format]]
    by (force simp: list_all_iff has_checkpoint_def b'_def)
  assume "jc_material codec (builder_material b') = Inr mb"
    and "jc_document codec (builder_material b', jc_digest codec mb) = Inr bytes"
  then show "build_manifest codec b' = Inr \<lparr>dm_material = builder_material b',
      dm_derived_revision = jc_digest codec mb, dm_canonical_bytes = bytes\<rparr>"
    using valid complete compatible assms(5)
    by (simp add: build_manifest_def Let_def b b'_def)
qed

text \<open>
  C18. Every pair of a planner's plan that passes the gate counts: from the checkpoints of all its
  pairs, added in any order, an approved profile's builder always makes a manifest, and the
  manifest lists the left and the right output of every pair, in the order of the recording.
\<close>
theorem validated_pairs_build_manifest:
  assumes "plan_media input report profile = Inr plan"
    and "new_manifest_builder subject receipt digest input plan profile build created_at = Inr b"
    and "\<forall>p \<in> set (me_segment_pairs plan). validated_checkpoint profile build p (ck p)"
    and "mset cs = mset (map ck (me_segment_pairs plan))"
    and "require_approved profile = Inr ()" and "codec_total codec"
  shows "\<exists>b' m. add_checkpoints b cs = Inr b' \<and> build_manifest codec b' = Inr m
    \<and> mm_output_inventory (dm_material m) = paired_outputs ck (me_segment_pairs plan)"
proof -
  note ready = validated_builder [OF assms(1-5)]
  let ?b = "b\<lparr>bd_checkpoints := map ck (me_segment_pairs plan)\<rparr>"
  obtain mb where mb: "jc_material codec (builder_material ?b) = Inr mb"
    using assms(6) unfolding codec_total_def by blast
  obtain bytes where "jc_document codec (builder_material ?b, jc_digest codec mb) = Inr bytes"
    using assms(6) unfolding codec_total_def by blast
  from ready(1,2) ready(3) [OF mb this] show ?thesis by auto
qed

subsection \<open>The recording of two segments, derived\<close>

definition derived_output :: "segment_pair_plan \<Rightarrow> eye \<Rightarrow> u64 list \<Rightarrow> output_media_evidence" where
  "derived_output p e keyframes =
     \<lparr>om_eye = e, om_partial_path = ''tmp'', om_manifest_relative_path = output_relative_path p e,
      om_profile_revision = ''rev'', om_size_bytes = 10, om_sha256 = [], om_codec = CodecHevc,
      om_codec_profile = HevcMain, om_container = Mp4, om_sample_entry = Hvc1,
      om_pixel_format = Yuv420p, om_dimensions = \<lparr>dim_width = 1920, dim_height = 1080\<rparr>,
      om_frame_rate = fps30, om_time_base = base90k,
      om_frame_count = sp_frame_count p, om_duration_ticks = sp_duration_ticks p,
      om_video_track_count = 1, om_audio_track_count = 0, om_first_frame_decodable = True,
      om_closed_gop = True, om_scene_cut_keyframes_detected = False,
      om_keyframe_frames = keyframes, om_fully_decoded = True,
      om_decoded_frame_count = sp_frame_count p\<rparr>"

definition derived_keyframes :: "segment_pair_plan \<Rightarrow> u64 list" where
  "derived_keyframes p =
     (if sp_segment_index p = 0
      then [0, 60, 120, 180, 240, 300, 360, 420, 480, 540, 600, 660, 720, 780, 840]
      else [0, 60, 120, 180, 240])"

definition derived_build :: encoder_build where
  "derived_build =
     \<lparr>eb_implementation = ''x265'', eb_version = ''4.1'', eb_build_fingerprint = ''fp'',
      eb_compatibility_class = ''x265-software-hevc-main-8bit-v1'', eb_build_parameters = []\<rparr>"

definition derived_report :: "segment_pair_plan \<Rightarrow> segment_validation_report" where
  "derived_report p =
     projr (evaluate p sample_profile (derived_output p LeftEye (derived_keyframes p))
       (derived_output p RightEye (derived_keyframes p))
       (gate_quality LeftEye) (gate_quality RightEye))"

definition derived_checkpoint :: "segment_pair_plan \<Rightarrow> segment_pair_checkpoint" where
  "derived_checkpoint p =
     projr (from_validated_pair False p (derived_report p) sample_profile derived_build
       ''video/pairs'' ''receipt'')"

lemma derived_limit: "gop_limit sample_profile (derived_output p e ks) = 60"
  by (simp add: gop_limit_def gop_frames_def sample_profile_eq derived_output_def fps30_def
      frames_in_whole_seconds_def plan_eval_defs del: and_then_Inr)

lemma derived_structure:
  assumes "p \<in> set (me_segment_pairs sample_plan)"
  shows "validate_output_structure p sample_profile (derived_output p e (derived_keyframes p)) e = []"
  using assms
  unfolding validate_output_structure_def Let_def derived_limit
  by (auto simp: sample_plan_def sample_profile_eq derived_output_def sample_pair_def gaps_ok_def
      derived_keyframes_def saturating_sub_def abs_diff_def)

lemma derived_evaluate:
  "evaluate p sample_profile (derived_output p LeftEye (derived_keyframes p))
     (derived_output p RightEye (derived_keyframes p)) (gate_quality LeftEye) (gate_quality RightEye)
   = Inr (derived_report p)"
  by (simp add: derived_report_def evaluate_def ensure_def derived_output_def gate_quality_def)

lemma derived_passed:
  assumes "p \<in> set (me_segment_pairs sample_plan)"
  shows "report_passed (derived_report p)"
proof -
  have "validate_quality sample_profile (gate_quality e) = []" for e
    by (simp add: validate_quality_def gate_quality_def sample_profile_eq proposed_v1_def Let_def)
  then show ?thesis
    unfolding evaluate_Inr(4) [OF derived_evaluate]
    by (simp add: derived_structure [OF assms])
      (simp add: validate_full_decode_def validate_sync_def derived_output_def abs_diff_def Let_def)
qed

lemma derived_validated:
  "\<forall>p \<in> set (me_segment_pairs sample_plan).
     validated_checkpoint sample_profile derived_build p (derived_checkpoint p)"
proof
  fix p assume p: "p \<in> set (me_segment_pairs sample_plan)"
  have "manifest_path_ok False ''video/pairs''" "short_text 512 ''receipt''" by code_simp+
  then have "from_validated_pair False p (derived_report p) sample_profile derived_build
      ''video/pairs'' ''receipt'' = Inr (derived_checkpoint p)"
    using derived_passed [OF p]
    by (simp add: derived_checkpoint_def from_validated_pair_def evaluate_Inr(3) [OF derived_evaluate]
        require_compatible_encoder_def sample_profile_eq derived_build_def dm_profile_def
        validate_bounded_text_def summary_passed_def summary_of_def report_passed_def ensure_def
        Let_def)
  then show "validated_checkpoint sample_profile derived_build p (derived_checkpoint p)"
    using derived_evaluate unfolding validated_checkpoint_def by blast
qed

definition derived_receipt :: local_source_receipt where
  "derived_receipt =
     \<lparr>lr_content_revision = ''c'', lr_inventory_digest = ''i'', lr_sealed_relative_path = ''s'',
      lr_commit_receipt = ''r'',
      lr_provenance = DeviceSigned \<lparr>ds_key_fingerprint = ''k'', ds_revision = ''c'', ds_payload = [],
        ds_signature = [], ds_public_key = []\<rparr>, lr_committed_at = ''t''\<rparr>"

definition derived_builder :: manifest_builder where
  "derived_builder =
     projr (new_manifest_builder \<lparr>du_origin_identity = ''o'', du_session_identity = ''s''\<rparr>
       derived_receipt ''m'' sample_input sample_plan sample_profile derived_build ''now'')"

lemma derived_new:
  "new_manifest_builder \<lparr>du_origin_identity = ''o'', du_session_identity = ''s''\<rparr>
     derived_receipt ''m'' sample_input sample_plan sample_profile derived_build ''now''
   = Inr derived_builder"
proof -
  have "short_text 128 ''now''" by code_simp
  then show ?thesis
    by (simp add: derived_builder_def new_manifest_builder_def sample_plan_def sample_profile_eq
        sample_input_def require_compatible_encoder_def derived_build_def dm_profile_def
        validate_bounded_text_def ensure_def)
qed

definition constant_codec :: json_codec where
  "constant_codec =
     \<lparr>jc_material = (\<lambda>_. Inr []), jc_document = (\<lambda>_. Inr []), jc_parse = (\<lambda>_. None),
      jc_digest = (\<lambda>x. x)\<rparr>"

theorem validated_pairs_build_manifest_witness:
  "\<exists>b' m. add_checkpoints derived_builder
       (map derived_checkpoint (rev (me_segment_pairs sample_plan))) = Inr b'
     \<and> build_manifest constant_codec b' = Inr m
     \<and> mm_output_inventory (dm_material m) =
         paired_outputs derived_checkpoint (me_segment_pairs sample_plan)"
  by (rule validated_pairs_build_manifest [OF sample_planned derived_new derived_validated _
        sample_profile_eq(3)])
    (simp_all add: codec_total_def constant_codec_def)

text \<open>A codec that knows one document.\<close>

definition derived_ready :: manifest_builder where
  "derived_ready =
     derived_builder\<lparr>bd_checkpoints := map derived_checkpoint (me_segment_pairs sample_plan)\<rparr>"

definition one_document_codec :: json_codec where
  "one_document_codec =
     \<lparr>jc_material = (\<lambda>m. if m = builder_material derived_ready then Inr ''m'' else Inl DmCanonicalJson),
      jc_document = (\<lambda>d. if d = (builder_material derived_ready, ''m'') then Inr ''d''
        else Inl DmCanonicalJson),
      jc_parse = (\<lambda>s. if s = ''d'' then Some (builder_material derived_ready, ''m'') else None),
      jc_digest = (\<lambda>x. x)\<rparr>"

definition derived_sample :: derived_manifest where
  "derived_sample =
     \<lparr>dm_material = builder_material derived_ready, dm_derived_revision = ''m'',
      dm_canonical_bytes = ''d''\<rparr>"

lemma derived_built: "build_manifest one_document_codec derived_ready = Inr derived_sample"
  using validated_builder(3) [OF sample_planned derived_new derived_validated refl sample_profile_eq(3),
      of one_document_codec "''m''" "''d''"]
  by (simp add: one_document_codec_def derived_sample_def derived_ready_def)


lemma derived_parses: "parse_verified one_document_codec ''d'' = Inr derived_sample"
  using build_manifest_Inr [OF derived_built]
  unfolding parse_verified_Inr by (auto simp: one_document_codec_def derived_sample_def builder_material_def)

theorem verified_manifest_unique_witness:
  "dm_canonical_bytes derived_sample = ''d''
   \<and> derived_sample = projr (parse_verified one_document_codec ''d'')"
proof -
  have "parse_verified one_document_codec (dm_canonical_bytes derived_sample) = Inr derived_sample"
    and "parse_verified one_document_codec ''d''
      = Inr (projr (parse_verified one_document_codec ''d''))"
    using derived_parses by (simp_all add: derived_sample_def)
  then show ?thesis
    by (rule verified_manifest_unique)
      (auto simp: derived_parses, auto simp: one_document_codec_def split: if_splits)
qed

end
