(* ===== verification/Derivation_Job.thy ===== *)
theory Derivation_Job
  imports Derived_Manifest
begin

text \<open>
  The durable derivation job (\<open>normalization/job.rs\<close>): its spec, its states, the pure
  reducer \<open>decide\<close> that turns a command into effects, and \<open>apply_committed_effect\<close>, which
  applies one persistent effect to the aggregate. A \<open>DerivationSnapshot\<close> has the same fields
  as the \<open>DerivationJob\<close> it is taken from (the checkpoints as the list of the map's values), so
  one record models both, \<open>snapshot\<close> is the identity, and \<open>rehydrate\<close> is the check it makes.
\<close>

section \<open>Spec\<close>

type_synonym derivation_job_id = string

record derivation_spec =
  dj_job_id :: derivation_job_id
  dj_subject :: derived_subject
  dj_local_source :: local_source_receipt
  dj_source_manifest_digest :: source_manifest_digest
  dj_profile :: normalization_profile
  dj_encoder_build :: encoder_build
  dj_input :: normalization_input
  dj_created_at :: string

datatype derivation_spec_error =
    InvalidCreatedAt
  | InputProfileMismatch
  | InvalidSnapshot string
  | DsProfile profile_error

definition validate_derivation_spec :: "derivation_spec \<Rightarrow> derivation_spec_error + unit" where
  "validate_derivation_spec spec =
     and_then (ensure (short_text 128 (dj_created_at spec)) InvalidCreatedAt) (\<lambda>_.
     and_then (case require_compatible_encoder (dj_profile spec) (dj_encoder_build spec) of
          Inl e \<Rightarrow> Inl (DsProfile e) | Inr u \<Rightarrow> Inr u) (\<lambda>_.
     ensure (accepts_source_codec (pr_quality_variant (np_material (dj_profile spec)))
          (source_codec (dj_input spec))) InputProfileMismatch))"

definition new_derivation_spec :: "derivation_spec \<Rightarrow> derivation_spec_error + derivation_spec" where
  "new_derivation_spec spec = and_then (validate_derivation_spec spec) (\<lambda>_. Inr spec)"

definition dj_source_revision :: "derivation_spec \<Rightarrow> source_content_revision" where
  "dj_source_revision spec = lr_content_revision (dj_local_source spec)"

definition dj_profile_revision :: "derivation_spec \<Rightarrow> profile_revision" where
  "dj_profile_revision spec = np_profile_revision (dj_profile spec)"

definition dj_fingerprint :: "derivation_spec \<Rightarrow> string" where
  "dj_fingerprint spec = eb_build_fingerprint (dj_encoder_build spec)"

section \<open>States, commands, effects\<close>

datatype derivation_failure_code =
    DfSourceUnavailable | DfProbeFailed | DfPlanRejected | DfEncoderFailed | DfValidationFailed
  | DfProfileUnapproved | DfIntegrityMismatch | DfDisk | DfDeadlineExceeded | DfResourceStuck
  | DfInternal

datatype derivation_state =
    DerQueued
  | DerWaitingForSource
  | DerProbing
  | DerPlanning
  | DerEncoding
  | DerValidating
  | DerCommitting
  | DerRetryWait
  | DerCancelling
  | DerDerivedVerified
  | DerFailed derivation_failure_code bool
  | DerCancelled

fun der_is_terminal :: "derivation_state \<Rightarrow> bool" where
  "der_is_terminal DerDerivedVerified = True"
| "der_is_terminal (DerFailed _ _) = True"
| "der_is_terminal DerCancelled = True"
| "der_is_terminal _ = False"

fun der_is_active :: "derivation_state \<Rightarrow> bool" where
  "der_is_active DerProbing = True"
| "der_is_active DerPlanning = True"
| "der_is_active DerEncoding = True"
| "der_is_active DerValidating = True"
| "der_is_active DerCommitting = True"
| "der_is_active _ = False"

datatype derivation_desired_state = DerRun | DerPaused

datatype process_stop_reason = StopPause | StopCancel | StopShutdown | StopSourceUnavailable

datatype derivation_worker_report =
    ProbeCompleted probe_report
  | PlanCompleted media_plan
  | PairStarted u32
  | PairCheckpointed segment_pair_checkpoint
  | ValidationCompleted
  | CommitCompleted derived_completion
  | ProcessStopped process_stop_reason
  | StageFailed derivation_failure_code bool

datatype derivation_command =
    DerSourceAvailable
  | DerSourceUnavailable
  | DerPause
  | DerResume
  | DerCancel
  | DerFinalizeCancel
  | DerRetry
  | DerDismiss
  | DerWorker derivation_worker_report

datatype derivation_effect =
    EfCommitState u64 derivation_state
  | EfSetDesiredState u64 derivation_desired_state
  | EfPersistProbe u64 probe_report derivation_state
  | EfPersistPlan u64 media_plan derivation_state
  | EfSetCurrentPair u64 u32
  | EfCommitPairCheckpoint u64 segment_pair_checkpoint derivation_state
  | EfPublishCompletion u64 derived_completion derivation_state
  | EfRequestProcessStop process_stop_reason
  | EfAwaitProcessReap
  | EfDiscardCurrentPartialPair u32
  | EfDispatch
  | EfRemoveJob

datatype derivation_reject_reason =
    DerAlreadyTerminal
  | DerNotTerminal
  | DerNotRetryable
  | DerWrongState derivation_state derivation_state
  | DerUnexpectedSegment u32
  | DerEvidenceMismatch

datatype derivation_decision =
  DerAccepted "derivation_effect list" | DerNoOp | DerRejected derivation_reject_reason

section \<open>The aggregate\<close>

record derivation_job =
  de_spec :: derivation_spec
  de_state :: derivation_state
  de_desired :: derivation_desired_state
  de_version :: u64
  de_probe_report :: "probe_report option"
  de_media_plan :: "media_plan option"
  de_checkpoints :: checkpoint_map
  de_current_pair :: "u32 option"
  de_completion :: "derived_completion option"

definition new_derivation_job :: "derivation_spec \<Rightarrow> derivation_spec_error + derivation_job" where
  "new_derivation_job spec =
     and_then (validate_derivation_spec spec) (\<lambda>_.
     Inr \<lparr>de_spec = spec, de_state = DerQueued, de_desired = DerRun, de_version = 1,
          de_probe_report = None, de_media_plan = None, de_checkpoints = [],
          de_current_pair = None, de_completion = None\<rparr>)"

text \<open>
  \<open>rehydrate\<close> inserts the checkpoints one by one and stops at the first that belongs to
  another profile or encoder, or that repeats an index.
\<close>

fun rehydrate_checkpoints ::
    "derivation_spec \<Rightarrow> checkpoint_map \<Rightarrow> segment_pair_checkpoint list
     \<Rightarrow> derivation_spec_error + checkpoint_map" where
  "rehydrate_checkpoints spec m [] = Inr m"
| "rehydrate_checkpoints spec m (c # cs) =
     (if cp_profile_revision c \<noteq> dj_profile_revision spec
        \<or> cp_encoder_build_fingerprint c \<noteq> dj_fingerprint spec
        \<or> has_checkpoint (cp_segment_index c) m
      then Inl (InvalidSnapshot ''checkpoint identity mismatch or duplicate'')
      else rehydrate_checkpoints spec (insert_checkpoint c m) cs)"

definition plan_fits :: "derivation_spec \<Rightarrow> media_plan \<Rightarrow> bool" where
  "plan_fits spec plan \<longleftrightarrow>
     me_source_kind plan = input_kind (dj_input spec)
     \<and> me_profile_revision plan = dj_profile_revision spec"

definition completion_fits :: "derivation_spec \<Rightarrow> derived_completion \<Rightarrow> bool" where
  "completion_fits spec c \<longleftrightarrow>
     dc_source_content_revision c = dj_source_revision spec
     \<and> dc_profile_revision c = dj_profile_revision spec"

definition rehydrate :: "derivation_job \<Rightarrow> derivation_spec_error + derivation_job" where
  "rehydrate s =
     (let spec = de_spec s
      in and_then (validate_derivation_spec spec) (\<lambda>_.
         and_then (ensure (de_version s \<noteq> 0) (InvalidSnapshot ''version must be positive'')) (\<lambda>_.
         and_then (rehydrate_checkpoints spec [] (de_checkpoints s)) (\<lambda>m.
         and_then (ensure (map (\<lambda>c. unat (cp_segment_index c)) m = [0..<length m])
            (InvalidSnapshot ''checkpoints must be contiguous from segment zero'')) (\<lambda>_.
         and_then (ensure (\<not> (m \<noteq> [] \<and> de_media_plan s = None))
            (InvalidSnapshot ''checkpoint ledger requires a media plan'')) (\<lambda>_.
         and_then (case de_media_plan s of
              None \<Rightarrow> Inr ()
            | Some plan \<Rightarrow>
                ensure (plan_fits spec plan
                    \<and> list_all (\<lambda>c. segment_pair plan (cp_segment_index c) \<noteq> None) m)
                  (InvalidSnapshot ''media plan differs from the durable spec'')) (\<lambda>_.
         and_then (ensure (case de_current_pair s of
              None \<Rightarrow> True | Some i \<Rightarrow> \<not> has_checkpoint i m)
            (InvalidSnapshot ''current partial pair is already checkpointed'')) (\<lambda>_.
         and_then (if de_state s = DerDerivedVerified then
              (case de_completion s of
                 None \<Rightarrow> Inl (InvalidSnapshot ''derived_verified requires completion evidence'')
               | Some c \<Rightarrow> ensure (completion_fits spec c)
                   (InvalidSnapshot ''completion identity differs from the durable spec''))
            else ensure (de_completion s = None)
              (InvalidSnapshot ''completion evidence exists before derived_verified'')) (\<lambda>_.
         Inr (s\<lparr>de_checkpoints := m\<rparr>))))))))))"

section \<open>Applying a committed effect\<close>

fun effect_version :: "derivation_effect \<Rightarrow> u64 option" where
  "effect_version (EfCommitState v _) = Some v"
| "effect_version (EfSetDesiredState v _) = Some v"
| "effect_version (EfPersistProbe v _ _) = Some v"
| "effect_version (EfPersistPlan v _ _) = Some v"
| "effect_version (EfSetCurrentPair v _) = Some v"
| "effect_version (EfCommitPairCheckpoint v _ _) = Some v"
| "effect_version (EfPublishCompletion v _ _) = Some v"
| "effect_version _ = None"

definition next_planned :: "derivation_job \<Rightarrow> u32 \<Rightarrow> bool" where
  "next_planned job i \<longleftrightarrow>
     unat i = length (de_checkpoints job)
     \<and> (case de_media_plan job of None \<Rightarrow> False | Some plan \<Rightarrow> segment_pair plan i \<noteq> None)"

definition next_checkpoint :: "derivation_job \<Rightarrow> segment_pair_checkpoint \<Rightarrow> bool" where
  "next_checkpoint job c \<longleftrightarrow>
     de_current_pair job = Some (cp_segment_index c)
     \<and> unat (cp_segment_index c) = length (de_checkpoints job)
     \<and> cp_profile_revision c = dj_profile_revision (de_spec job)
     \<and> cp_encoder_build_fingerprint c = dj_fingerprint (de_spec job)"

fun change_by :: "derivation_job \<Rightarrow> derivation_effect \<Rightarrow> derivation_spec_error + derivation_job" where
  "change_by job (EfCommitState _ to) = Inr (job\<lparr>de_state := to\<rparr>)"
| "change_by job (EfSetDesiredState _ to) = Inr (job\<lparr>de_desired := to\<rparr>)"
| "change_by job (EfPersistProbe _ report to) =
     Inr (job\<lparr>de_probe_report := Some report, de_state := to\<rparr>)"
| "change_by job (EfPersistPlan _ plan to) =
     and_then (ensure (plan_fits (de_spec job) plan)
        (InvalidSnapshot ''persisted plan differs from the durable derivation spec'')) (\<lambda>_.
     Inr (job\<lparr>de_media_plan := Some plan, de_state := to\<rparr>))"
| "change_by job (EfSetCurrentPair _ i) =
     and_then (ensure (\<not> (has_checkpoint i (de_checkpoints job) \<or> de_current_pair job \<noteq> None))
        (InvalidSnapshot ''current pair is already set or checkpointed'')) (\<lambda>_.
     and_then (ensure (length (de_checkpoints job) < 2 ^ 32)
        (InvalidSnapshot ''checkpoint count exceeds segment index range'')) (\<lambda>_.
     and_then (ensure (next_planned job i)
        (InvalidSnapshot ''current pair is not the next pair in the media plan'')) (\<lambda>_.
     Inr (job\<lparr>de_current_pair := Some i\<rparr>))))"
| "change_by job (EfCommitPairCheckpoint _ c to) =
     and_then (ensure (next_checkpoint job c
          \<and> \<not> has_checkpoint (cp_segment_index c) (de_checkpoints job))
        (InvalidSnapshot ''pair checkpoint does not match the next durable pair'')) (\<lambda>_.
     Inr (job\<lparr>de_checkpoints := insert_checkpoint c (de_checkpoints job),
              de_current_pair := None, de_state := to\<rparr>))"
| "change_by job (EfPublishCompletion _ c to) =
     and_then (ensure (completion_fits (de_spec job) c)
        (InvalidSnapshot ''completion evidence differs from the durable derivation spec'')) (\<lambda>_.
     Inr (job\<lparr>de_completion := Some c, de_state := to\<rparr>))"
| "change_by job _ =
     Inl (InvalidSnapshot ''effect does not mutate the durable derivation snapshot'')"

definition apply_committed_effect ::
    "derivation_job \<Rightarrow> derivation_effect \<Rightarrow> derivation_spec_error + derivation_job" where
  "apply_committed_effect job effect =
     (case effect_version effect of
        None \<Rightarrow> Inl (InvalidSnapshot ''effect does not mutate the durable derivation snapshot'')
      | Some expected \<Rightarrow>
          and_then (ensure (expected = de_version job)
             (InvalidSnapshot (''effect expected version '' @ decimal (unat expected)
                @ '', current version '' @ decimal (unat (de_version job))))) (\<lambda>_.
          and_then (change_by job effect) (\<lambda>job'.
          and_then (option_ok (InvalidSnapshot ''derivation version overflow'')
             (checked_add (de_version job) 1)) (\<lambda>v.
          Inr (job'\<lparr>de_version := v\<rparr>)))))"

section \<open>The reducer\<close>

definition der_commit :: "derivation_job \<Rightarrow> derivation_state \<Rightarrow> derivation_effect" where
  "der_commit job to = EfCommitState (de_version job) to"

definition discard_current :: "derivation_job \<Rightarrow> derivation_effect list" where
  "discard_current job =
     (case de_current_pair job of Some i \<Rightarrow> [EfDiscardCurrentPartialPair i] | None \<Rightarrow> [])"

definition der_source_available :: "derivation_job \<Rightarrow> derivation_decision" where
  "der_source_available job =
     (if der_is_terminal (de_state job) \<or> de_state job = DerCancelling then DerNoOp
      else if de_desired job = DerPaused then DerNoOp
      else if de_state job \<in> {DerQueued, DerWaitingForSource, DerRetryWait}
      then DerAccepted [der_commit job DerProbing, EfDispatch]
      else DerNoOp)"

definition der_source_unavailable :: "derivation_job \<Rightarrow> derivation_decision" where
  "der_source_unavailable job =
     (if der_is_terminal (de_state job) \<or> de_state job = DerCancelling then DerNoOp
      else if der_is_active (de_state job)
      then DerAccepted [EfRequestProcessStop StopSourceUnavailable, EfAwaitProcessReap]
      else if de_state job = DerWaitingForSource then DerNoOp
      else DerAccepted [der_commit job DerWaitingForSource])"

definition der_pause :: "derivation_job \<Rightarrow> derivation_decision" where
  "der_pause job =
     (if der_is_terminal (de_state job) then DerRejected DerAlreadyTerminal
      else if de_desired job = DerPaused then DerNoOp
      else DerAccepted
        (EfSetDesiredState (de_version job) DerPaused
         # (if der_is_active (de_state job)
            then [EfRequestProcessStop StopPause, EfAwaitProcessReap] else [])))"

definition der_resume :: "derivation_job \<Rightarrow> derivation_decision" where
  "der_resume job =
     (if der_is_terminal (de_state job) then DerRejected DerAlreadyTerminal
      else if de_desired job = DerRun then DerNoOp
      else DerAccepted [EfSetDesiredState (de_version job) DerRun, EfDispatch])"

definition der_cancel :: "derivation_job \<Rightarrow> derivation_decision" where
  "der_cancel job =
     (if der_is_terminal (de_state job) then DerRejected DerAlreadyTerminal
      else if de_state job = DerCancelling then DerNoOp
      else DerAccepted
        (der_commit job DerCancelling
         # (if der_is_active (de_state job)
            then [EfRequestProcessStop StopCancel, EfAwaitProcessReap]
            else discard_current job @ [EfCommitState (de_version job + 1) DerCancelled])))"

definition der_finalize_cancel :: "derivation_job \<Rightarrow> derivation_decision" where
  "der_finalize_cancel job =
     (if de_state job \<noteq> DerCancelling
      then DerRejected (DerWrongState DerCancelling (de_state job))
      else DerAccepted (discard_current job @ [der_commit job DerCancelled]))"

definition der_retry :: "derivation_job \<Rightarrow> derivation_decision" where
  "der_retry job =
     (case de_state job of
        DerFailed _ True \<Rightarrow> DerAccepted [der_commit job DerQueued, EfDispatch]
      | DerFailed _ False \<Rightarrow> DerRejected DerNotRetryable
      | s \<Rightarrow> DerRejected (DerWrongState (DerFailed DfInternal True) s))"

definition der_dismiss :: "derivation_job \<Rightarrow> derivation_decision" where
  "der_dismiss job =
     (if der_is_terminal (de_state job) then DerAccepted [EfRemoveJob] else DerRejected DerNotTerminal)"

definition der_process_stopped :: "derivation_job \<Rightarrow> process_stop_reason \<Rightarrow> derivation_decision" where
  "der_process_stopped job reason =
     (if de_state job = DerCancelling \<and> reason = StopCancel then der_finalize_cancel job
      else
        (case (case reason of
                 StopPause \<Rightarrow> if de_desired job = DerPaused then Some DerRetryWait else None
               | StopSourceUnavailable \<Rightarrow> Some DerWaitingForSource
               | StopShutdown \<Rightarrow> Some DerRetryWait
               | StopCancel \<Rightarrow> None) of
           None \<Rightarrow> DerRejected DerEvidenceMismatch
         | Some target \<Rightarrow> DerAccepted (discard_current job @ [der_commit job target])))"

definition der_stage_failed ::
    "derivation_job \<Rightarrow> derivation_failure_code \<Rightarrow> bool \<Rightarrow> derivation_decision" where
  "der_stage_failed job code retryable =
     (if der_is_terminal (de_state job) then DerRejected DerAlreadyTerminal
      else DerAccepted (discard_current job @ [der_commit job (DerFailed code retryable)]))"

definition der_wrong_state :: "derivation_job \<Rightarrow> derivation_state \<Rightarrow> derivation_decision" where
  "der_wrong_state job expected = DerRejected (DerWrongState expected (de_state job))"

definition pair_count :: "derivation_job \<Rightarrow> nat" where
  "pair_count job =
     (case de_media_plan job of None \<Rightarrow> 0 | Some plan \<Rightarrow> length (me_segment_pairs plan))"

text \<open>\<open>u32::try_from(len).unwrap_or(u32::MAX)\<close>.\<close>

definition pair_started_index :: "derivation_job \<Rightarrow> u32" where
  "pair_started_index job =
     (if length (de_checkpoints job) < 2 ^ 32 then of_nat (length (de_checkpoints job)) else - 1)"

fun der_worker :: "derivation_job \<Rightarrow> derivation_worker_report \<Rightarrow> derivation_decision" where
  "der_worker job (ProbeCompleted report) =
     (if de_state job \<noteq> DerProbing then der_wrong_state job DerProbing
      else DerAccepted [EfPersistProbe (de_version job) report DerPlanning, EfDispatch])"
| "der_worker job (PlanCompleted plan) =
     (if de_state job \<noteq> DerPlanning then der_wrong_state job DerPlanning
      else if \<not> plan_fits (de_spec job) plan then DerRejected DerEvidenceMismatch
      else DerAccepted [EfPersistPlan (de_version job) plan DerEncoding, EfDispatch])"
| "der_worker job (PairStarted i) =
     (if de_state job \<noteq> DerEncoding then der_wrong_state job DerEncoding
      else if i \<noteq> pair_started_index job
        \<or> (case de_media_plan job of None \<Rightarrow> True | Some plan \<Rightarrow> segment_pair plan i = None)
      then DerRejected (DerUnexpectedSegment i)
      else DerAccepted [EfSetCurrentPair (de_version job) i])"
| "der_worker job (PairCheckpointed c) =
     (if de_state job \<noteq> DerEncoding then der_wrong_state job DerEncoding
      else if \<not> next_checkpoint job c then DerRejected (DerUnexpectedSegment (cp_segment_index c))
      else DerAccepted
        [EfCommitPairCheckpoint (de_version job) c
           (if length (de_checkpoints job) + 1 = pair_count job then DerValidating else DerEncoding),
         EfDispatch])"
| "der_worker job ValidationCompleted =
     (if de_state job \<noteq> DerValidating then der_wrong_state job DerValidating
      else if pair_count job = 0 \<or> pair_count job \<noteq> length (de_checkpoints job)
      then DerRejected DerEvidenceMismatch
      else DerAccepted [der_commit job DerCommitting, EfDispatch])"
| "der_worker job (CommitCompleted c) =
     (if de_state job \<noteq> DerCommitting then der_wrong_state job DerCommitting
      else if \<not> completion_fits (de_spec job) c then DerRejected DerEvidenceMismatch
      else DerAccepted [EfPublishCompletion (de_version job) c DerDerivedVerified])"
| "der_worker job (ProcessStopped reason) = der_process_stopped job reason"
| "der_worker job (StageFailed code retryable) = der_stage_failed job code retryable"

fun der_decide :: "derivation_job \<Rightarrow> derivation_command \<Rightarrow> derivation_decision" where
  "der_decide job DerSourceAvailable = der_source_available job"
| "der_decide job DerSourceUnavailable = der_source_unavailable job"
| "der_decide job DerPause = der_pause job"
| "der_decide job DerResume = der_resume job"
| "der_decide job DerCancel = der_cancel job"
| "der_decide job DerFinalizeCancel = der_finalize_cancel job"
| "der_decide job DerRetry = der_retry job"
| "der_decide job DerDismiss = der_dismiss job"
| "der_decide job (DerWorker report) = der_worker job report"

section \<open>Well-formed jobs\<close>

definition own_checkpoint :: "derivation_spec \<Rightarrow> segment_pair_checkpoint \<Rightarrow> bool" where
  "own_checkpoint spec c \<longleftrightarrow>
     cp_profile_revision c = dj_profile_revision spec
     \<and> cp_encoder_build_fingerprint c = dj_fingerprint spec"

definition contiguous_ledger :: "checkpoint_map \<Rightarrow> bool" where
  "contiguous_ledger cs \<longleftrightarrow> map (\<lambda>c. unat (cp_segment_index c)) cs = [0..<length cs]"

definition ledger_ok :: "derivation_spec \<Rightarrow> checkpoint_map \<Rightarrow> bool" where
  "ledger_ok spec cs \<longleftrightarrow> contiguous_ledger cs \<and> list_all (own_checkpoint spec) cs"

definition covers :: "media_plan \<Rightarrow> checkpoint_map \<Rightarrow> bool" where
  "covers plan cs \<longleftrightarrow> list_all (\<lambda>c. segment_pair plan (cp_segment_index c) \<noteq> None) cs"

definition completion_ok :: "derivation_job \<Rightarrow> bool" where
  "completion_ok job \<longleftrightarrow>
     (if de_state job = DerDerivedVerified
      then (case de_completion job of None \<Rightarrow> False | Some c \<Rightarrow> completion_fits (de_spec job) c)
      else de_completion job = None)"

definition der_wf :: "derivation_job \<Rightarrow> bool" where
  "der_wf job \<longleftrightarrow>
     validate_derivation_spec (de_spec job) = Inr () \<and> de_version job \<noteq> 0
     \<and> ledger_ok (de_spec job) (de_checkpoints job)
     \<and> (case de_media_plan job of
          None \<Rightarrow> de_checkpoints job = []
        | Some plan \<Rightarrow> plan_fits (de_spec job) plan \<and> covers plan (de_checkpoints job))
     \<and> (case de_current_pair job of
          None \<Rightarrow> True | Some i \<Rightarrow> \<not> has_checkpoint i (de_checkpoints job))
     \<and> completion_ok job"

lemma contiguous_index:
  assumes "contiguous_ledger cs" and "i < length cs"
  shows "unat (cp_segment_index (cs ! i)) = i"
  using assms by (metis (no_types, lifting) add_0 contiguous_ledger_def nth_map nth_upt)

lemma contiguous_has_checkpoint:
  assumes "contiguous_ledger cs"
  shows "has_checkpoint i cs \<longleftrightarrow> unat i < length cs"
proof -
  have "has_checkpoint i cs \<longleftrightarrow> unat i \<in> unat ` set (map cp_segment_index cs)"
    unfolding has_checkpoint_def by (rule inj_image_mem_iff [symmetric]) (auto simp: inj_on_def word_unat_eq_iff)
  also have "unat ` set (map cp_segment_index cs) = set (map (\<lambda>c. unat (cp_segment_index c)) cs)"
    by (simp add: image_image)
  finally have "has_checkpoint i cs \<longleftrightarrow> unat i \<in> set (map (\<lambda>c. unat (cp_segment_index c)) cs)" .
  also have "\<dots> \<longleftrightarrow> unat i \<in> set [0..<length cs]"
    using assms by (simp only: contiguous_ledger_def)
  finally show ?thesis by simp
qed

lemma contiguous_append:
  "contiguous_ledger (cs @ [c]) \<longleftrightarrow> contiguous_ledger cs \<and> unat (cp_segment_index c) = length cs"
  by (auto simp: contiguous_ledger_def)

lemma insort_key_last:
  "\<forall>d \<in> set m. \<not> k c \<le> k d \<Longrightarrow> insort_key k c m = m @ [c]"
  by (induction m) auto

lemma insert_next_checkpoint:
  assumes "contiguous_ledger m" and "unat (cp_segment_index c) = length m"
  shows "insert_checkpoint c m = m @ [c]"
proof -
  have "\<not> has_checkpoint (cp_segment_index c) m"
    using assms by (simp add: contiguous_has_checkpoint)
  moreover have "\<not> cp_segment_index c \<le> cp_segment_index d" if "d \<in> set m" for d
  proof -
    from that obtain i where "i < length m" "d = m ! i" by (auto simp: in_set_conv_nth)
    then have "unat (cp_segment_index d) < length m" using contiguous_index [OF assms(1)] by simp
    with assms(2) show ?thesis by (simp add: word_le_nat_alt)
  qed
  ultimately show ?thesis by (simp add: insert_new_checkpoint insort_key_last)
qed

lemma contiguous_prefix: "contiguous_ledger (m @ cs) \<Longrightarrow> contiguous_ledger m"
proof -
  assume "contiguous_ledger (m @ cs)"
  then have "take (length m) (map (\<lambda>c. unat (cp_segment_index c)) (m @ cs))
      = take (length m) [0..<length (m @ cs)]"
    by (simp add: contiguous_ledger_def)
  then show ?thesis by (simp add: contiguous_ledger_def take_upt)
qed

lemma rehydrate_ledger:
  "ledger_ok spec (m @ cs) \<Longrightarrow> rehydrate_checkpoints spec m cs = Inr (m @ cs)"
proof (induction cs arbitrary: m)
  case (Cons c cs)
  from Cons.prems have m: "contiguous_ledger m"
    and c: "own_checkpoint spec c" "unat (cp_segment_index c) = length m"
    using contiguous_prefix [of m "c # cs"] contiguous_prefix [of "m @ [c]" cs]
    by (auto simp: ledger_ok_def contiguous_append)
  have "\<not> has_checkpoint (cp_segment_index c) m"
    using c by (simp add: contiguous_has_checkpoint [OF m])
  then show ?case
    using Cons.IH [of "m @ [c]"] Cons.prems c insert_next_checkpoint [OF m c(2)]
    by (simp add: own_checkpoint_def)
qed simp

lemma set_insert_checkpoint:
  "\<not> has_checkpoint (cp_segment_index c) m \<Longrightarrow> set (insert_checkpoint c m) = insert c (set m)"
  by (simp add: insert_new_checkpoint set_insort_key)

lemma rehydrate_checkpoints_set:
  "rehydrate_checkpoints spec m cs = Inr m' \<Longrightarrow>
     set m' = set m \<union> set cs \<and> list_all (own_checkpoint spec) cs"
  by (induction cs arbitrary: m)
    (auto simp: set_insert_checkpoint own_checkpoint_def split: if_splits)

lemma rehydrate_wf:
  assumes "der_wf job"
  shows "rehydrate job = Inr job"
proof -
  have "rehydrate_checkpoints (de_spec job) [] (de_checkpoints job) = Inr (de_checkpoints job)"
    using assms rehydrate_ledger [of "de_spec job" "[]"] by (simp add: der_wf_def)
  then show ?thesis
    using assms
    by (auto simp: rehydrate_def der_wf_def ledger_ok_def contiguous_ledger_def covers_def
        completion_ok_def Let_def split: option.splits if_splits)
qed

lemma rehydrate_Inr_wf:
  assumes "rehydrate job = Inr job'" and "contiguous_ledger (de_checkpoints job)"
  shows "der_wf job" and "job' = job"
proof -
  obtain m where m: "rehydrate_checkpoints (de_spec job) [] (de_checkpoints job) = Inr m"
    using assms(1) by (auto simp: rehydrate_def Let_def)
  have own: "list_all (own_checkpoint (de_spec job)) (de_checkpoints job)"
    using rehydrate_checkpoints_set [OF m] by simp
  then have l: "ledger_ok (de_spec job) (de_checkpoints job)"
    using assms(2) by (simp add: ledger_ok_def)
  then have "m = de_checkpoints job"
    using m rehydrate_ledger [of "de_spec job" "[]" "de_checkpoints job"] by simp
  with m show "der_wf job" "job' = job"
    using assms(1) l
    by (auto simp: rehydrate_def der_wf_def covers_def completion_ok_def Let_def
        split: option.splits if_splits)
qed

section \<open>What the reducer decides\<close>

definition persistent :: "derivation_effect list \<Rightarrow> derivation_effect list" where
  "persistent effs = filter (\<lambda>e. effect_version e \<noteq> None) effs"

definition ledger_complete :: "derivation_job \<Rightarrow> bool" where
  "ledger_complete job \<longleftrightarrow> 0 < pair_count job \<and> length (de_checkpoints job) = pair_count job"

text \<open>What an effect of the reducer may do to a job it was decided for.\<close>

fun admissible :: "derivation_job \<Rightarrow> derivation_effect \<Rightarrow> bool" where
  "admissible job (EfCommitState _ to) =
     (to \<notin> {DerValidating, DerDerivedVerified} \<and> (to = DerCommitting \<longrightarrow> ledger_complete job))"
| "admissible job (EfSetDesiredState _ _) = True"
| "admissible job (EfPersistProbe _ _ to) = (to = DerPlanning)"
| "admissible job (EfPersistPlan _ plan to) = (to = DerEncoding \<and> plan_fits (de_spec job) plan)"
| "admissible job (EfSetCurrentPair _ i) = (de_state job = DerEncoding \<and> next_planned job i)"
| "admissible job (EfCommitPairCheckpoint _ c to) =
     (next_checkpoint job c
      \<and> to = (if length (de_checkpoints job) + 1 = pair_count job then DerValidating else DerEncoding))"
| "admissible job (EfPublishCompletion _ c to) =
     (de_state job = DerCommitting \<and> to = DerDerivedVerified \<and> completion_fits (de_spec job) c)"
| "admissible job _ = True"

lemmas der_handlers = der_source_available_def der_source_unavailable_def der_pause_def der_resume_def
  der_cancel_def der_finalize_cancel_def der_retry_def der_dismiss_def der_process_stopped_def
  der_stage_failed_def der_commit_def discard_current_def der_wrong_state_def

lemma pair_started_next:
  assumes "i = pair_started_index job" and "segment_pair plan i = Some p"
    and "length (de_checkpoints job) < 2 ^ 32"
  shows "unat i = length (de_checkpoints job)"
  using assms by (simp add: pair_started_index_def unat_of_nat)

text \<open>
  Every accepted decision has at most one persistent effect, at the job's version, but for the
  cancellation of an idle job, which commits two states in a row.
\<close>

lemma decide_shape:
  assumes "der_decide job cmd = DerAccepted effs" and "length (de_checkpoints job) < 2 ^ 32"
  shows "persistent effs = []
    \<or> (\<exists>e. persistent effs = [e] \<and> effect_version e = Some (de_version job) \<and> admissible job e)
    \<or> persistent effs = [EfCommitState (de_version job) DerCancelling,
        EfCommitState (de_version job + 1) DerCancelled]"
proof (cases cmd)
  case (DerWorker report)
  then show ?thesis
    using assms pair_started_next [of _ job]
    by (cases report)
      (auto simp: der_handlers persistent_def ledger_complete_def next_planned_def
        split: if_splits option.splits process_stop_reason.splits)
qed (use assms in \<open>auto simp: der_handlers persistent_def
    split: if_splits option.splits derivation_state.splits bool.splits\<close>)

text \<open>Applying effects in order; the others change nothing of the job.\<close>

fun apply_effects ::
    "derivation_job \<Rightarrow> derivation_effect list \<Rightarrow> derivation_spec_error + derivation_job" where
  "apply_effects job [] = Inr job"
| "apply_effects job (e # es) =
     (if effect_version e = None then apply_effects job es
      else and_then (apply_committed_effect job e) (\<lambda>job'. apply_effects job' es))"

lemma apply_effects_persistent: "apply_effects job effs = apply_effects job (persistent effs)"
proof (induction effs arbitrary: job)
  case (Cons e es)
  then show ?case
    by (cases "effect_version e"; cases "apply_committed_effect job e") (simp_all add: persistent_def)
qed (simp add: persistent_def)

lemma apply_committed_Inr:
  "apply_committed_effect job e = Inr job' \<longleftrightarrow>
     effect_version e = Some (de_version job)
     \<and> (\<exists>changed v. change_by job e = Inr changed \<and> checked_add (de_version job) 1 = Some v
          \<and> job' = changed\<lparr>de_version := v\<rparr>)"
  by (auto simp: apply_committed_effect_def split: option.splits)

lemma change_by_spec: "change_by job e = Inr job' \<Longrightarrow> de_spec job' = de_spec job"
  by (cases e) auto

lemma apply_version:
  assumes "apply_committed_effect job e = Inr job'"
  shows "unat (de_version job') = unat (de_version job) + 1" and "de_spec job' = de_spec job"
    and "de_version job' = de_version job + 1"
proof -
  obtain changed v where c: "change_by job e = Inr changed"
    and v: "checked_add (de_version job) 1 = Some v" and job': "job' = changed\<lparr>de_version := v\<rparr>"
    using assms unfolding apply_committed_Inr by blast
  show "de_spec job' = de_spec job" using change_by_spec [OF c] by (simp add: job')
  show "unat (de_version job') = unat (de_version job) + 1" "de_version job' = de_version job + 1"
    using checked_add_SomeD [OF v] by (simp_all add: job')
qed

text \<open>
  The invariant of the stages: from \<open>Validating\<close> on, every pair of the plan has its checkpoint.
\<close>

definition der_inv :: "derivation_job \<Rightarrow> bool" where
  "der_inv job \<longleftrightarrow>
     der_wf job
     \<and> (de_state job \<in> {DerValidating, DerCommitting, DerDerivedVerified} \<longrightarrow> ledger_complete job)"

lemma new_derivation_inv: "new_derivation_job spec = Inr job \<Longrightarrow> der_inv job"
  by (auto simp: new_derivation_job_def der_inv_def der_wf_def ledger_ok_def contiguous_ledger_def
      completion_ok_def)

lemma change_by_ledger:
  assumes "change_by job e = Inr job'" and "contiguous_ledger (de_checkpoints job)"
  shows "contiguous_ledger (de_checkpoints job')
    \<and> (\<exists>new. de_checkpoints job' = de_checkpoints job @ new)"
  using assms
  by (cases e)
    (auto simp: next_checkpoint_def insert_next_checkpoint contiguous_append)

lemma apply_ledger:
  assumes "apply_committed_effect job e = Inr job'" and "contiguous_ledger (de_checkpoints job)"
  shows "contiguous_ledger (de_checkpoints job')"
    and "\<exists>new. de_checkpoints job' = de_checkpoints job @ new"
  using assms(1) change_by_ledger [OF _ assms(2)] unfolding apply_committed_Inr by auto

lemma apply_stages:
  assumes inv: "der_inv job" and e: "admissible job e"
    and applied: "apply_committed_effect job e = Inr job'"
  shows "de_state job' \<in> {DerValidating, DerCommitting, DerDerivedVerified} \<longrightarrow> ledger_complete job'"
proof -
  obtain changed v where c: "change_by job e = Inr changed" and job': "job' = changed\<lparr>de_version := v\<rparr>"
    using applied unfolding apply_committed_Inr by blast
  have ledger: "contiguous_ledger (de_checkpoints job)"
    using inv by (simp add: der_inv_def der_wf_def ledger_ok_def)
  show ?thesis
    using c e inv ledger insert_next_checkpoint
    by (cases e)
      (auto simp: job' der_inv_def ledger_complete_def pair_count_def next_checkpoint_def
        split: if_splits)
qed

section \<open>Accepted decisions commit\<close>

text \<open>The partial pair, when there is one, is a pair of the plan.\<close>

definition current_planned :: "derivation_job \<Rightarrow> media_plan option \<Rightarrow> bool" where
  "current_planned job plan \<longleftrightarrow>
     (case de_current_pair job of
        None \<Rightarrow> True
      | Some i \<Rightarrow> (case plan of None \<Rightarrow> False | Some p \<Rightarrow> segment_pair p i \<noteq> None))"

definition der_ready :: "derivation_job \<Rightarrow> bool" where
  "der_ready job \<longleftrightarrow>
     der_wf job \<and> current_planned job (de_media_plan job) \<and> length (de_checkpoints job) < 2 ^ 32"

text \<open>What the two guards of \<open>apply_committed_effect\<close> ask that \<open>decide\<close> does not.\<close>

fun unguarded :: "derivation_job \<Rightarrow> derivation_effect \<Rightarrow> bool" where
  "unguarded job (EfSetCurrentPair _ _) = (de_current_pair job = None)"
| "unguarded job (EfPersistPlan _ plan _) =
     (covers plan (de_checkpoints job) \<and> current_planned job (Some plan))"
| "unguarded job _ = True"

lemma covers_append: "covers plan (cs @ [c]) \<longleftrightarrow> covers plan cs \<and> segment_pair plan (cp_segment_index c) \<noteq> None"
  by (simp add: covers_def)

lemma ledger_ok_append:
  "ledger_ok spec (cs @ [c]) \<longleftrightarrow>
     ledger_ok spec cs \<and> unat (cp_segment_index c) = length cs \<and> own_checkpoint spec c"
  by (auto simp: ledger_ok_def contiguous_append)

lemma admissible_change:
  assumes wf: "der_wf job" "current_planned job (de_media_plan job)" "length (de_checkpoints job) < 2 ^ 32"
    and "admissible job e" "unguarded job e" "effect_version e \<noteq> None"
    and "de_state job \<noteq> DerDerivedVerified"
  shows "\<exists>job'. change_by job e = Inr job' \<and> der_wf job' \<and> current_planned job' (de_media_plan job')"
proof -
  have l: "ledger_ok (de_spec job) (de_checkpoints job)" "contiguous_ledger (de_checkpoints job)"
    using wf by (simp_all add: der_wf_def ledger_ok_def)
  show ?thesis
  proof (cases e)
    case (EfCommitPairCheckpoint v c to)
    then have c: "next_checkpoint job c" using assms(4) by simp
    then have "insert_checkpoint c (de_checkpoints job) = de_checkpoints job @ [c]"
      "\<not> has_checkpoint (cp_segment_index c) (de_checkpoints job)"
      using insert_next_checkpoint [OF l(2)] contiguous_has_checkpoint [OF l(2)]
      by (simp_all add: next_checkpoint_def)
    with EfCommitPairCheckpoint c assms l show ?thesis
      by (auto simp: der_wf_def ledger_ok_append covers_append next_checkpoint_def own_checkpoint_def
          completion_ok_def current_planned_def split: option.splits if_splits)
  next
    case (EfSetCurrentPair v i)
    with assms l contiguous_has_checkpoint [OF l(2), of i] show ?thesis
      by (auto simp: der_wf_def completion_ok_def current_planned_def next_planned_def
          split: option.splits)
  next
    case (EfPublishCompletion v c to)
    with assms l show ?thesis
      by (auto simp: der_wf_def completion_ok_def current_planned_def split: option.splits)
  next
    case (EfPersistPlan v p to)
    with assms l show ?thesis
      by (auto simp: der_wf_def completion_ok_def current_planned_def split: option.splits)
  next
    case (EfCommitState v to)
    with assms l show ?thesis
      by (auto simp: der_wf_def completion_ok_def current_planned_def split: option.splits)
  qed (use assms l in \<open>auto simp: der_wf_def completion_ok_def current_planned_def
      split: option.splits if_splits\<close>)
qed

lemma checked_succ:
  fixes v :: u64
  assumes "unat v + 1 < 2 ^ 64"
  shows "checked_add v 1 = Some (v + 1)" and "unat (v + 1) = unat v + 1" and "v + 1 \<noteq> 0"
proof -
  show c: "checked_add v 1 = Some (v + 1)" using assms by (simp add: checked_add_def)
  show u: "unat (v + 1) = unat v + 1" using checked_add_SomeD(1) [OF c] by simp
  show "v + 1 \<noteq> 0" using u by (metis add_is_0 one_neq_zero unat_0)
qed

lemma admissible_apply:
  assumes "der_ready job" and "admissible job e" and "unguarded job e"
    and "effect_version e = Some (de_version job)"
    and "de_state job \<noteq> DerDerivedVerified" and "unat (de_version job) + 1 < 2 ^ 64"
  obtains job' where "apply_committed_effect job e = Inr job'" "der_wf job'"
    "current_planned job' (de_media_plan job')"
proof -
  from assms admissible_change [of job e] obtain changed where
    c: "change_by job e = Inr changed" "der_wf changed"
      "current_planned changed (de_media_plan changed)"
    by (auto simp: der_ready_def)
  note v = checked_succ [OF assms(6)]
  let ?job' = "changed\<lparr>de_version := de_version job + 1\<rparr>"
  show thesis
  proof (rule that [of ?job'])
    show "apply_committed_effect job e = Inr ?job'"
      using c(1) v(1) assms(4) unfolding apply_committed_Inr by simp
    show "der_wf ?job'"
      using c(2) v(3) by (auto simp: der_wf_def completion_ok_def split: option.splits if_splits)
    show "current_planned ?job' (de_media_plan ?job')"
      using c(3) by (auto simp: current_planned_def split: option.splits)
  qed
qed


section \<open>Runs of commands\<close>

text \<open>
  A rejected or ignored command, and one whose effects do not apply, leaves the job as it is.
\<close>

definition run_command :: "derivation_job \<Rightarrow> derivation_command \<Rightarrow> derivation_job" where
  "run_command job cmd =
     (case der_decide job cmd of
        DerAccepted effs \<Rightarrow> (case apply_effects job effs of Inl _ \<Rightarrow> job | Inr job' \<Rightarrow> job')
      | _ \<Rightarrow> job)"

definition run_commands :: "derivation_job \<Rightarrow> derivation_command list \<Rightarrow> derivation_job" where
  "run_commands job cmds = foldl run_command job cmds"

fun checkpoints_pair :: "derivation_command \<Rightarrow> bool" where
  "checkpoints_pair (DerWorker (PairCheckpointed _)) = True"
| "checkpoints_pair _ = False"

lemma apply_effects_keep_current:
  assumes "apply_effects job effs = Inr job'" and "de_current_pair job = Some i"
    and "\<forall>e \<in> set effs. \<forall>v c to. e \<noteq> EfCommitPairCheckpoint v c to"
  shows "de_current_pair job' = Some i"
  using assms
proof (induction effs arbitrary: job)
  case (Cons e es)
  show ?case
  proof (cases "effect_version e")
    case None
    with Cons show ?thesis by simp
  next
    case (Some v)
    with Cons.prems obtain job1 where job1: "apply_committed_effect job e = Inr job1"
      and rest: "apply_effects job1 es = Inr job'" by auto
    from job1 obtain changed w where "change_by job e = Inr changed"
      and "job1 = changed\<lparr>de_version := w\<rparr>"
      unfolding apply_committed_Inr by blast
    then have "de_current_pair job1 = Some i" using Cons.prems(2,3) by (cases e) auto
    with Cons.IH [OF rest] Cons.prems(3) show ?thesis by simp
  qed
qed simp

lemma decide_checkpoints:
  assumes "der_decide job cmd = DerAccepted effs" and "\<not> checkpoints_pair cmd"
  shows "\<forall>e \<in> set effs. \<forall>v c to. e \<noteq> EfCommitPairCheckpoint v c to"
proof (cases cmd)
  case (DerWorker report)
  then show ?thesis
    using assms
    by (cases report)
      (auto simp: der_handlers split: if_splits option.splits process_stop_reason.splits)
qed (use assms in \<open>auto simp: der_handlers
    split: if_splits option.splits derivation_state.splits bool.splits\<close>)

lemma run_command_keeps_current:
  assumes "de_current_pair job = Some i" and "\<not> checkpoints_pair cmd"
  shows "de_current_pair (run_command job cmd) = Some i"
proof (cases "der_decide job cmd")
  case (DerAccepted effs)
  show ?thesis
  proof (cases "apply_effects job effs")
    case (Inr job')
    then show ?thesis
      using apply_effects_keep_current [OF Inr assms(1) decide_checkpoints [OF DerAccepted assms(2)]]
      by (simp add: run_command_def DerAccepted)
  qed (simp add: run_command_def DerAccepted assms)
qed (simp_all add: run_command_def assms)

lemma run_commands_keep_current:
  assumes "de_current_pair job = Some i" and "list_all (\<lambda>c. \<not> checkpoints_pair c) cmds"
  shows "de_current_pair (run_commands job cmds) = Some i"
  using assms
proof (induction cmds arbitrary: job)
  case (Cons c cs)
  then show ?case
    using run_command_keeps_current [of job i c] by (simp add: run_commands_def)
qed (simp add: run_commands_def)

text \<open>
  An interrupted pair blocks its job. When a process stops while pair \<open>i\<close> is being encoded, the
  executor is told to discard the partial pair, but the job keeps it as its current pair;
  and until that very pair is checkpointed, no pair can be started again: whatever other
  commands follow, a reported start that the reducer accepts has an effect that cannot be
  applied.
\<close>
theorem interrupted_pair_never_restarts:
  assumes "de_current_pair job = Some i"
    and "der_decide job (DerWorker (ProcessStopped reason)) = DerAccepted effs"
    and "list_all (\<lambda>c. \<not> checkpoints_pair c) cmds"
    and "job' = run_commands job (DerWorker (ProcessStopped reason) # cmds)"
  shows "EfDiscardCurrentPartialPair i \<in> set effs
    \<and> de_current_pair job' = Some i
    \<and> (der_decide job' (DerWorker (PairStarted j)) = DerAccepted starts
        \<longrightarrow> isl (apply_effects job' starts))"
proof -
  have "EfDiscardCurrentPartialPair i \<in> set effs"
    using assms(1,2)
    by (auto simp: der_handlers split: if_splits process_stop_reason.splits)
  moreover have current: "de_current_pair job' = Some i"
    unfolding assms(4) by (rule run_commands_keep_current [OF assms(1)]) (simp add: assms(3))
  moreover have "isl (apply_effects job' starts)"
    if "der_decide job' (DerWorker (PairStarted j)) = DerAccepted starts"
  proof -
    have "starts = [EfSetCurrentPair (de_version job') j]"
      using that by (auto simp: der_wrong_state_def split: if_splits)
    with current show ?thesis by (simp add: apply_committed_effect_def ensure_def)
  qed
  ultimately show ?thesis by blast
qed

text \<open>Nothing but a stop or a failure gets a job on whose pairs are all encoded.\<close>

lemma finished_ledger_stuck:
  assumes "de_state job = DerEncoding" and "ledger_complete job" and "de_current_pair job = None"
    and "length (de_checkpoints job) < 2 ^ 32"
  shows "(\<exists>why. der_decide job (DerWorker report) = DerRejected why)
    \<or> (\<exists>reason. report = ProcessStopped reason) \<or> (\<exists>code retry. report = StageFailed code retry)"
proof (cases report)
  case (PairStarted i)
  have "segment_pair plan i = None"
    if "de_media_plan job = Some plan" "i = pair_started_index job" for plan
    using that assms
    by (simp add: segment_pair_def ledger_complete_def pair_count_def pair_started_index_def unat_of_nat)
  with PairStarted assms show ?thesis by (auto split: option.splits)
qed (use assms in \<open>auto simp: der_wrong_state_def next_checkpoint_def\<close>)

lemma run_command_one:
  assumes "der_decide job cmd = DerAccepted effs" and "persistent effs = [e]"
    and "effect_version e = Some (de_version job)" and "change_by job e = Inr changed"
    and "unat (de_version job) + 1 < 2 ^ 64"
  shows "run_command job cmd = changed\<lparr>de_version := de_version job + 1\<rparr>"
proof -
  have "apply_committed_effect job e = Inr (changed\<lparr>de_version := de_version job + 1\<rparr>)"
    unfolding apply_committed_Inr using assms(3,4) checked_succ(1) [OF assms(5)] by simp
  then show ?thesis
    using assms(1-3)
    by (simp add: run_command_def apply_effects_persistent [of job effs])
qed

text \<open>
  A restart after the last pair loses the job. If a job that is validating or committing is
  stopped by a shutdown and taken up again, its stages start over, and when the same number
  of pairs is planned it is encoding with every pair already encoded: from there no report of
  a worker is accepted but a stop or a failure, so the finished encodes are never validated
  or committed.
\<close>
theorem restart_after_last_pair_stuck:
  assumes "der_inv job" and "de_state job = DerValidating \<or> de_state job = DerCommitting"
    and "de_desired job = DerRun" and "de_current_pair job = None"
    and "unat (de_version job) + 8 < 2 ^ 64" and "length (de_checkpoints job) < 2 ^ 32"
    and "plan_fits (de_spec job) plan" and "length (me_segment_pairs plan) = pair_count job"
    and "job' = run_commands job [DerWorker (ProcessStopped StopShutdown), DerSourceAvailable,
      DerWorker (ProbeCompleted probes), DerWorker (PlanCompleted plan)]"
  shows "de_state job' = DerEncoding \<and> de_checkpoints job' = de_checkpoints job
    \<and> ((\<exists>why. der_decide job' (DerWorker report) = DerRejected why)
       \<or> (\<exists>reason. report = ProcessStopped reason) \<or> (\<exists>code retry. report = StageFailed code retry))"
proof -
  define v where "v = de_version job"
  have bound: "unat v + 8 < 2 ^ 64" using assms(5) by (simp add: v_def)
  have u1: "unat (v + 1) = unat v + 1" by (rule checked_succ(2)) (use bound in linarith)
  have u2: "unat (v + 1 + 1) = unat v + 1 + 1"
    by (subst checked_succ(2)) (use bound u1 in linarith)+
  have u3: "unat (v + 1 + 1 + 1) = unat v + 1 + 1 + 1"
    by (subst checked_succ(2)) (use bound u2 in linarith)+
  have v: "unat v + 1 < 2 ^ 64" "unat (v + 1) + 1 < 2 ^ 64" "unat (v + 1 + 1) + 1 < 2 ^ 64"
    "unat (v + 1 + 1 + 1) + 1 < 2 ^ 64"
    using bound u1 u2 u3 by linarith+
  define job1 where "job1 = job\<lparr>de_state := DerRetryWait, de_version := v + 1\<rparr>"
  define job2 where "job2 = job1\<lparr>de_state := DerProbing, de_version := v + 1 + 1\<rparr>"
  define job3 where "job3 = job2\<lparr>de_probe_report := Some probes, de_state := DerPlanning,
    de_version := v + 1 + 1 + 1\<rparr>"
  define job4 where "job4 = job3\<lparr>de_media_plan := Some plan, de_state := DerEncoding,
    de_version := v + 1 + 1 + 1 + 1\<rparr>"
  have "run_command job (DerWorker (ProcessStopped StopShutdown)) = job1"
    by (subst run_command_one [where e = "EfCommitState v DerRetryWait" and changed = "job\<lparr>de_state := DerRetryWait\<rparr>"])
      (use assms(2,4) v in \<open>auto simp: der_handlers persistent_def v_def job1_def\<close>)
  moreover have "run_command job1 DerSourceAvailable = job2"
    by (subst run_command_one [where e = "EfCommitState (v + 1) DerProbing" and changed = "job1\<lparr>de_state := DerProbing\<rparr>"])
      (use assms(3) v in \<open>auto simp: der_handlers persistent_def job1_def job2_def\<close>)
  moreover have "run_command job2 (DerWorker (ProbeCompleted probes)) = job3"
    by (subst run_command_one [where e = "EfPersistProbe (v + 1 + 1) probes DerPlanning" and changed = 
      "job2\<lparr>de_probe_report := Some probes, de_state := DerPlanning\<rparr>"])
      (use v in \<open>auto simp: persistent_def job1_def job2_def job3_def\<close>)
  moreover have "run_command job3 (DerWorker (PlanCompleted plan)) = job4"
    by (subst run_command_one [where e = "EfPersistPlan (v + 1 + 1 + 1) plan DerEncoding" and changed = 
      "job3\<lparr>de_media_plan := Some plan, de_state := DerEncoding\<rparr>"])
      (use v assms(7) in \<open>auto simp: persistent_def job1_def job2_def job3_def job4_def\<close>)
  ultimately have job': "job' = job4"
    unfolding assms(9) by (simp add: run_commands_def)
  have "ledger_complete job" using assms(1,2) by (auto simp: der_inv_def)
  then have "de_state job4 = DerEncoding" "ledger_complete job4" "de_current_pair job4 = None"
    "de_checkpoints job4 = de_checkpoints job"
    using assms(4,8)
    by (simp_all add: job1_def job2_def job3_def job4_def ledger_complete_def pair_count_def)
  with finished_ledger_stuck [of job4] assms(6) show ?thesis by (simp add: job')
qed

section \<open>A derivation of two pairs\<close>

definition sample_derivation_spec :: derivation_spec where
  "sample_derivation_spec =
     \<lparr>dj_job_id = ''d1'', dj_subject = \<lparr>du_origin_identity = ''o'', du_session_identity = ''s''\<rparr>,
      dj_local_source = derived_receipt, dj_source_manifest_digest = ''m'',
      dj_profile = sample_profile, dj_encoder_build = derived_build, dj_input = sample_input,
      dj_created_at = ''now''\<rparr>"

definition sample_derivation :: derivation_job where
  "sample_derivation =
     \<lparr>de_spec = sample_derivation_spec, de_state = DerQueued, de_desired = DerRun, de_version = 1,
      de_probe_report = None, de_media_plan = None, de_checkpoints = [],
      de_current_pair = None, de_completion = None\<rparr>"

definition sample_encoding :: derivation_job where
  "sample_encoding = sample_derivation
     \<lparr>de_state := DerEncoding, de_probe_report := Some sample_probes,
      de_media_plan := Some sample_plan, de_current_pair := Some 0\<rparr>"

definition sample_validating :: derivation_job where
  "sample_validating = sample_derivation
     \<lparr>de_state := DerValidating, de_probe_report := Some sample_probes,
      de_media_plan := Some sample_plan,
      de_checkpoints := map derived_checkpoint (me_segment_pairs sample_plan)\<rparr>"

lemma sample_derivation_valid: "validate_derivation_spec sample_derivation_spec = Inr ()"
proof -
  have "short_text 128 ''now''" by code_simp
  then show ?thesis
    by (simp add: validate_derivation_spec_def sample_derivation_spec_def require_compatible_encoder_def
        sample_profile_eq derived_build_def sample_input_def ensure_def)
qed

lemma sample_derivation_new: "new_derivation_job sample_derivation_spec = Inr sample_derivation"
  using sample_derivation_valid by (simp add: new_derivation_job_def sample_derivation_def)

lemma sample_derivation_ready: "der_ready sample_derivation"
  using new_derivation_inv [OF sample_derivation_new]
  by (simp add: der_ready_def der_inv_def sample_derivation_def current_planned_def)

lemma sample_plan_fits: "plan_fits sample_derivation_spec sample_plan"
  by (simp add: plan_fits_def sample_derivation_spec_def sample_plan_def sample_input_def
      dj_profile_revision_def sample_profile_eq)

lemma sample_pairs:
  "me_segment_pairs sample_plan = [p0, p1] \<Longrightarrow>
     sp_segment_index p0 = 0 \<and> sp_segment_index p1 = 1"
  by (auto simp: sample_plan_def sample_pair_def)

lemma sample_segment_pair: "segment_pair sample_plan 0 \<noteq> None" "segment_pair sample_plan 1 \<noteq> None"
  by (simp_all add: segment_pair_def sample_plan_def sample_pair_def)

lemma sample_checkpoint_index:
  "map (\<lambda>c. cp_segment_index c) (map derived_checkpoint (me_segment_pairs sample_plan)) = [0, 1]"
proof -
  have "map cp_segment_index (map derived_checkpoint (me_segment_pairs sample_plan))
      = map sp_segment_index (me_segment_pairs sample_plan)"
    using validated_checkpointD(1) [OF derived_validated [rule_format]] by simp
  also have "\<dots> = [0, 1]" by (simp add: sample_plan_def sample_pair_def)
  finally show ?thesis .
qed

lemma sample_validating_inv: "der_inv sample_validating"
proof -
  obtain p0 p1 where p: "me_segment_pairs sample_plan = [p0, p1]"
    by (simp add: sample_plan_def)
  note v = derived_validated [unfolded p, rule_format]
  have ix: "cp_segment_index (derived_checkpoint p0) = 0" "cp_segment_index (derived_checkpoint p1) = 1"
    using sample_checkpoint_index by (simp_all add: p)
  have own: "own_checkpoint sample_derivation_spec (derived_checkpoint p0)"
    "own_checkpoint sample_derivation_spec (derived_checkpoint p1)"
    using validated_checkpointD(2,3) [OF v]
    by (simp_all add: own_checkpoint_def dj_profile_revision_def dj_fingerprint_def
        sample_derivation_spec_def)
  have "ledger_ok sample_derivation_spec [derived_checkpoint p0, derived_checkpoint p1]"
    using ix own by (simp add: ledger_ok_def contiguous_ledger_def upt_rec)
  moreover have "covers sample_plan [derived_checkpoint p0, derived_checkpoint p1]"
    using ix sample_segment_pair by (simp add: covers_def)
  ultimately show ?thesis
    using sample_derivation_valid sample_plan_fits
    by (simp add: der_inv_def der_wf_def sample_validating_def sample_derivation_def p
        completion_ok_def ledger_complete_def pair_count_def)
qed


lemma sample_encoding_stopped:
  "der_decide sample_encoding (DerWorker (ProcessStopped StopPause)) = DerRejected DerEvidenceMismatch"
  "der_decide sample_encoding (DerWorker (ProcessStopped StopShutdown)) =
     DerAccepted [EfDiscardCurrentPartialPair 0, EfCommitState 1 DerRetryWait]"
  by (simp_all add: sample_encoding_def sample_derivation_def der_handlers)

definition sample_restart :: "derivation_command list" where
  "sample_restart =
     [DerSourceAvailable, DerWorker (ProbeCompleted sample_probes), DerWorker (PlanCompleted sample_plan)]"

lemma sample_restarted:
  "run_commands sample_encoding (DerWorker (ProcessStopped StopShutdown) # sample_restart) =
     sample_encoding\<lparr>de_version := 5\<rparr>"
  using sample_plan_fits
  by (simp add: sample_restart_def run_commands_def run_command_def sample_encoding_def
      sample_derivation_def der_handlers apply_committed_effect_def checked_add_def option_ok_def
      ensure_def del: and_then_Inr)

theorem interrupted_pair_never_restarts_witness:
  "der_decide (sample_encoding\<lparr>de_version := 5\<rparr>) (DerWorker (PairStarted 0))
     = DerAccepted [EfSetCurrentPair 5 0]
   \<and> isl (apply_effects (sample_encoding\<lparr>de_version := 5\<rparr>) [EfSetCurrentPair 5 0])"
proof -
  have d: "der_decide (sample_encoding\<lparr>de_version := 5\<rparr>) (DerWorker (PairStarted 0))
      = DerAccepted [EfSetCurrentPair 5 0]"
    using sample_segment_pair(1)
    by (auto simp: sample_encoding_def sample_derivation_def pair_started_index_def)
  have "de_current_pair sample_encoding = Some 0" by (simp add: sample_encoding_def)
  moreover have "list_all (\<lambda>c. \<not> checkpoints_pair c) sample_restart"
    by (simp add: sample_restart_def)
  ultimately show ?thesis
    using interrupted_pair_never_restarts [OF _ sample_encoding_stopped(2) _ sample_restarted [symmetric]] d
    by blast
qed

theorem restart_after_last_pair_stuck_witness:
  "der_decide (run_commands sample_validating
       [DerWorker (ProcessStopped StopShutdown), DerSourceAvailable,
        DerWorker (ProbeCompleted sample_probes), DerWorker (PlanCompleted sample_plan)])
     (DerWorker (PairStarted 2)) \<noteq> DerNoOp
   \<and> de_state (run_commands sample_validating
       [DerWorker (ProcessStopped StopShutdown), DerSourceAvailable,
        DerWorker (ProbeCompleted sample_probes), DerWorker (PlanCompleted sample_plan)]) = DerEncoding"
proof -
  have "de_state sample_validating = DerValidating" "de_desired sample_validating = DerRun"
    "de_current_pair sample_validating = None" "de_version sample_validating = 1"
    "length (de_checkpoints sample_validating) = 2" "de_spec sample_validating = sample_derivation_spec"
    "length (me_segment_pairs sample_plan) = pair_count sample_validating"
    by (simp_all add: sample_validating_def sample_derivation_def pair_count_def sample_plan_def)
  with restart_after_last_pair_stuck [OF sample_validating_inv, of sample_plan _ sample_probes
      "PairStarted 2"] sample_plan_fits
  show ?thesis by auto
qed

end
