(* ===== verification/Derivation_Store.thy ===== *)
theory Derivation_Store
  imports Derivation_Job "HOL-Library.Product_Lexorder"
begin

text \<open>
  The durable side of a derivation (\<open>media_store/derivation_jobs.rs\<close>,
  \<open>media_store/outbox.rs\<close>, the derived receipts of \<open>media_store/receipts.rs\<close> and the projection
  revision of \<open>media_store/projection.rs\<close>) as a value: each table is the list of its decoded
  rows or the map from its key, each transaction a function whose error keeps the database
  it was given. JSON columns are the values they decode to. The digest of a request is a
  parameter, and so is the JSON codec that the verifying parser of the manifest uses.
  Failures of SQLite itself (\<open>MsSqlite\<close>) are left out here; the executor adds them.
\<close>

section \<open>Rows\<close>

datatype media_store_error =
    MsConflict string | MsNotFound string | MsCorrupt string | MsSqlite string

text \<open>
  A row of \<open>media_derivation_jobs\<close> with its row of \<open>media_derivation_specs\<close>: the two are
  inserted together and the second is never changed.
\<close>

record derivation_row =
  dr_job_id :: derivation_job_id
  dr_natural_key :: string
  dr_request_digest :: string
  dr_snapshot :: derivation_job
  dr_state_version :: u64
  dr_is_terminal :: bool
  dr_created_at :: string
  dr_updated_at :: string
  dr_source_revision :: source_content_revision
  dr_profile_revision :: profile_revision
  dr_spec_version :: u64
  dr_spec :: derivation_spec

record pair_row =
  pw_checkpoint :: segment_pair_checkpoint
  pw_segment_index :: u32
  pw_pair_state :: string
  pw_pair_version :: u64
  pw_left_sha256 :: string
  pw_right_sha256 :: string
  pw_verified :: bool
  pw_updated_at :: string

record derived_receipt =
  rc_derivation_job_id :: derivation_job_id
  rc_derived_revision :: derived_revision
  rc_source_revision :: source_content_revision
  rc_source_manifest_digest :: source_manifest_digest
  rc_profile_revision :: profile_revision
  rc_local_path :: string
  rc_commit_receipt :: string
  rc_committed_at :: string

record completion_envelope =
  ce_sequence :: u64
  ce_job_id :: derivation_job_id
  ce_outcome :: derivation_job
  ce_state_version :: u64
  ce_recorded_at :: string
  ce_acknowledged_at :: "string option"

record media_db =
  md_jobs :: "derivation_row list"
  md_pairs :: "derivation_job_id \<Rightarrow> pair_row list"
  md_receipts :: "derived_receipt list"
  md_outbox :: "derivation_job_id \<Rightarrow> completion_envelope option"
  md_sequence :: u64
  md_revision :: u64

definition empty_media_db :: media_db where
  "empty_media_db =
     \<lparr>md_jobs = [], md_pairs = (\<lambda>_. []), md_receipts = [],
      md_outbox = (\<lambda>_. None), md_sequence = 0, md_revision = 0\<rparr>"

record stored_derivation =
  sd_spec :: derivation_spec
  sd_snapshot :: derivation_job
  sd_natural_key :: string
  sd_request_digest :: string
  sd_created_at :: string
  sd_updated_at :: string

text \<open>The lookups by the unique columns.\<close>

definition find_row :: "media_db \<Rightarrow> derivation_job_id \<Rightarrow> derivation_row option" where
  "find_row db j = find (\<lambda>r. dr_job_id r = j) (md_jobs db)"

definition find_receipt :: "media_db \<Rightarrow> derived_revision \<Rightarrow> derived_receipt option" where
  "find_receipt db revision = find (\<lambda>r. rc_derived_revision r = revision) (md_receipts db)"

text \<open>What the store is given from outside.\<close>

record store_env =
  se_codec :: json_codec
  se_request_digest :: "derivation_spec \<Rightarrow> string"

definition ms_checked_i64 :: "u64 \<Rightarrow> string \<Rightarrow> media_store_error + unit" where
  "ms_checked_i64 v field = ensure (fits_i64 v) (MsConflict field)"

definition ms_non_empty :: "string \<Rightarrow> string \<Rightarrow> media_store_error + unit" where
  "ms_non_empty s field = ensure (s \<noteq> []) (MsConflict field)"

definition bump_revision :: "media_db \<Rightarrow> media_store_error + media_db" where
  "bump_revision db =
     and_then (ensure (unat (md_revision db) < 2 ^ 63 - 1) (MsConflict ''collection revision'')) (\<lambda>_.
     Inr (db\<lparr>md_revision := md_revision db + 1\<rparr>))"

section \<open>Identity\<close>

definition derivation_natural_key :: "derivation_spec \<Rightarrow> string" where
  "derivation_natural_key spec =
     (let source = dj_source_revision spec; profile = dj_profile_revision spec
      in ''derivation-v1|'' @ decimal (length source) @ '':'' @ source
         @ ''|'' @ decimal (length profile) @ '':'' @ profile)"

section \<open>Receipts\<close>

definition require_sha256_identity :: "string \<Rightarrow> string \<Rightarrow> media_store_error + unit" where
  "require_sha256_identity v field =
     (case strip_prefix ''sha256:'' v of
        None \<Rightarrow> Inl (MsConflict field)
      | Some digest \<Rightarrow> ensure (is_sha256_hex digest) (MsConflict field))"

definition validate_derived_receipt :: "derived_receipt \<Rightarrow> media_store_error + unit" where
  "validate_derived_receipt r =
     and_then (ms_non_empty (rc_derivation_job_id r) ''derivation_job_id'') (\<lambda>_.
     and_then (require_sha256_identity (rc_derived_revision r) ''derived_revision'') (\<lambda>_.
     and_then (require_sha256_identity (rc_source_revision r) ''source_revision'') (\<lambda>_.
     and_then (require_sha256_identity (rc_source_manifest_digest r) ''source_manifest_digest'') (\<lambda>_.
     and_then (require_sha256_identity (rc_profile_revision r) ''profile_revision'') (\<lambda>_.
     and_then (ms_non_empty (rc_local_path r) ''local_path'') (\<lambda>_.
     and_then (ms_non_empty (rc_committed_at r) ''committed_at'') (\<lambda>_.
     ms_non_empty (rc_commit_receipt r) ''commit_receipt'')))))))"

text \<open>\<open>validate_reference\<close> and \<open>LocalArtifactRef::parse\<close> of the pipeline.\<close>

definition reference_ok :: "string \<Rightarrow> bool" where
  "reference_ok v \<longleftrightarrow> v \<noteq> [] \<and> \<not> has_control v"

text \<open>
  \<open>local_derived_receipt_from_completion\<close> followed by \<open>local_derived_receipt_row\<close>: the bytes
  of the manifest in the completion are verified again, and the completion must repeat them.
\<close>

definition receipt_from_completion ::
    "json_codec \<Rightarrow> derivation_job_id \<Rightarrow> derived_completion \<Rightarrow> media_store_error + derived_receipt" where
  "receipt_from_completion codec j c =
     (case parse_verified codec (ub_derived_manifest_canonical_bytes (dc_upload_bundle_input c)) of
        Inl e \<Rightarrow> Inl (MsConflict ''manifest'')
      | Inr manifest \<Rightarrow>
          and_then (ensure (upload_bundle_input manifest = dc_upload_bundle_input c)
             (MsConflict ''completion upload bundle input disagrees with its manifest'')) (\<lambda>_.
          and_then (ensure (reference_ok (dc_local_relative_path c))
             (MsConflict ''derived_local_relative_path'')) (\<lambda>_.
          and_then (ensure (reference_ok (dc_local_commit_receipt c))
             (MsConflict ''derived_commit_receipt'')) (\<lambda>_.
          and_then (ensure (reference_ok (dc_committed_at c))
             (MsConflict ''derived_committed_at'')) (\<lambda>_.
          let receipt =
            \<lparr>rc_derivation_job_id = j, rc_derived_revision = dc_derived_revision c,
             rc_source_revision = dc_source_content_revision c,
             rc_source_manifest_digest = ub_source_manifest_digest (dc_upload_bundle_input c),
             rc_profile_revision = dc_profile_revision c,
             rc_local_path = dc_local_relative_path c,
             rc_commit_receipt = dc_local_commit_receipt c, rc_committed_at = dc_committed_at c\<rparr>
          in and_then (validate_derived_receipt receipt) (\<lambda>_. Inr receipt))))))"

text \<open>The result says whether the receipt is new. The column of the job id is unique.\<close>

definition insert_derived_receipt ::
    "media_db \<Rightarrow> derived_receipt \<Rightarrow> media_store_error + (media_db \<times> bool)" where
  "insert_derived_receipt db r =
     (case find_receipt db (rc_derived_revision r) of
        Some existing \<Rightarrow>
          if existing = r then Inr (db, False)
          else Inl (MsConflict ''different immutable receipt evidence'')
      | None \<Rightarrow>
          and_then (ensure (rc_derivation_job_id r \<notin> set (map rc_derivation_job_id (md_receipts db)))
             (MsConflict ''derivation_job_id'')) (\<lambda>_.
          Inr (db\<lparr>md_receipts := md_receipts db @ [r]\<rparr>, True)))"

section \<open>Reading a job\<close>

definition checkpoint_consistent :: "segment_pair_checkpoint \<Rightarrow> bool" where
  "checkpoint_consistent c \<longleftrightarrow>
     cp_published_pair_relative_path c \<noteq> [] \<and> cp_pair_commit_receipt c \<noteq> []
     \<and> \<not> (do_role (cp_left c) \<noteq> VideoLeft \<or> do_role (cp_right c) \<noteq> VideoRight
        \<or> do_segment_index (cp_left c) \<noteq> cp_segment_index c
        \<or> do_segment_index (cp_right c) \<noteq> cp_segment_index c
        \<or> vs_segment_index (cp_validation c) \<noteq> cp_segment_index c
        \<or> \<not> summary_passed (cp_validation c)
        \<or> do_relative_path (cp_left c) = do_relative_path (cp_right c)
        \<or> do_media_type (cp_left c) = [] \<or> do_media_type (cp_right c) = [])"

definition pair_row_agrees :: "derivation_job \<Rightarrow> pair_row \<Rightarrow> segment_pair_checkpoint \<Rightarrow> bool" where
  "pair_row_agrees s r c \<longleftrightarrow>
     checkpoint_consistent c \<and> pw_checkpoint r = c \<and> pw_segment_index r = cp_segment_index c
     \<and> pw_pair_state r = ''verified'' \<and> pw_pair_version r \<noteq> 0 \<and> pw_pair_version r \<le> de_version s
     \<and> pw_left_sha256 r = do_sha256 (cp_left c) \<and> pw_right_sha256 r = do_sha256 (cp_right c)
     \<and> pw_verified r"

definition receipt_agrees :: "json_codec \<Rightarrow> media_db \<Rightarrow> derivation_job_id \<Rightarrow> derivation_job \<Rightarrow> bool" where
  "receipt_agrees codec db j s \<longleftrightarrow>
     (if de_state s \<noteq> DerDerivedVerified then True
      else (case de_completion s of
              None \<Rightarrow> False
            | Some c \<Rightarrow>
                (case receipt_from_completion codec (dj_job_id (de_spec s)) c of
                   Inl _ \<Rightarrow> False
                 | Inr r \<Rightarrow> find_receipt db (rc_derived_revision r) = Some r)))"

definition read_derivation ::
    "store_env \<Rightarrow> media_db \<Rightarrow> derivation_job_id \<Rightarrow> media_store_error + stored_derivation option" where
  "read_derivation env db j =
     (case find_row db j of
        None \<Rightarrow> Inr None
      | Some row \<Rightarrow>
          let spec = dr_spec row; s = dr_snapshot row
          in and_then (ensure (dr_spec_version row = 1) (MsCorrupt ''unsupported spec version'')) (\<lambda>_.
             and_then (ensure (dj_job_id spec = j
                 \<and> dj_source_revision spec = dr_source_revision row
                 \<and> dj_profile_revision spec = dr_profile_revision row
                 \<and> derivation_natural_key spec = dr_natural_key row
                 \<and> se_request_digest env spec = dr_request_digest row
                 \<and> de_spec s = spec \<and> de_version s = dr_state_version row
                 \<and> der_is_terminal (de_state s) = dr_is_terminal row)
               (MsCorrupt ''indexed identity disagrees with its typed payload'')) (\<lambda>_.
             and_then (case rehydrate s of Inl _ \<Rightarrow> Inl (MsCorrupt ''cannot be rehydrated'')
                       | Inr _ \<Rightarrow> Inr ()) (\<lambda>_.
             and_then (ensure (list_all2 (pair_row_agrees s) (md_pairs db j) (de_checkpoints s))
               (MsCorrupt ''normalized pair row disagrees with snapshot'')) (\<lambda>_.
             and_then (ensure (receipt_agrees (se_codec env) db j s)
               (MsCorrupt ''derived receipt disagrees with completion'')) (\<lambda>_.
             Inr (Some \<lparr>sd_spec = spec, sd_snapshot = s, sd_natural_key = dr_natural_key row,
                        sd_request_digest = dr_request_digest row,
                        sd_created_at = dr_created_at row, sd_updated_at = dr_updated_at row\<rparr>)))))))"

definition require_derivation ::
    "store_env \<Rightarrow> media_db \<Rightarrow> derivation_job_id \<Rightarrow> media_store_error + stored_derivation" where
  "require_derivation env db j =
     and_then (read_derivation env db j) (option_ok (MsNotFound ''derivation job''))"

section \<open>The outbox\<close>

datatype complete_outcome = OutRecorded completion_envelope | OutAlreadyRecorded completion_envelope

definition insert_completion ::
    "media_db \<Rightarrow> derivation_job_id \<Rightarrow> derivation_job \<Rightarrow> u64 \<Rightarrow> string
     \<Rightarrow> media_store_error + (media_db \<times> complete_outcome)" where
  "insert_completion db j out version now =
     (case md_outbox db j of
        Some existing \<Rightarrow>
          if ce_outcome existing = out \<and> ce_state_version existing = version
          then Inr (db, OutAlreadyRecorded existing)
          else Inl (MsConflict ''already has a different terminal completion'')
      | None \<Rightarrow>
          and_then (ms_checked_i64 version ''state_version'') (\<lambda>_.
          let row = \<lparr>ce_sequence = md_sequence db + 1, ce_job_id = j, ce_outcome = out,
                     ce_state_version = version, ce_recorded_at = now, ce_acknowledged_at = None\<rparr>
          in Inr (db\<lparr>md_outbox := (md_outbox db)(j \<mapsto> row), md_sequence := md_sequence db + 1\<rparr>,
                  OutRecorded row)))"

datatype acknowledge_outcome =
  MsAcknowledged completion_envelope | MsAlreadyAcknowledged completion_envelope | MsUnknown

definition acknowledge_completion_row ::
    "media_db \<Rightarrow> derivation_job_id \<Rightarrow> string \<Rightarrow> media_db \<times> acknowledge_outcome" where
  "acknowledge_completion_row db j now =
     (case md_outbox db j of
        None \<Rightarrow> (db, MsUnknown)
      | Some existing \<Rightarrow>
          if ce_acknowledged_at existing \<noteq> None then (db, MsAlreadyAcknowledged existing)
          else let row = existing\<lparr>ce_acknowledged_at := Some now\<rparr>
               in (db\<lparr>md_outbox := (md_outbox db)(j \<mapsto> row)\<rparr>, MsAcknowledged row))"

definition acknowledge_derivation_completion ::
    "media_db \<Rightarrow> derivation_job_id \<Rightarrow> string \<Rightarrow> media_store_error + (media_db \<times> acknowledge_outcome)" where
  "acknowledge_derivation_completion db j now =
     and_then (ms_non_empty now ''now'') (\<lambda>_.
     case acknowledge_completion_row db j now of
       (db', out) \<Rightarrow>
         and_then (case out of MsAcknowledged _ \<Rightarrow> bump_revision db' | _ \<Rightarrow> Inr db') (\<lambda>db''.
         Inr (db'', out)))"

section \<open>Creating a job\<close>

datatype create_derivation_outcome = DerCreated stored_derivation | DerExisting stored_derivation

datatype create_derivation_error =
    CdRequestDigestMismatch string derivation_job_id string string
  | CdJobIdCollision derivation_job_id string
  | CdStore media_store_error

definition cd_store :: "media_store_error + 'a \<Rightarrow> create_derivation_error + 'a" where
  "cd_store r = (case r of Inl e \<Rightarrow> Inl (CdStore e) | Inr x \<Rightarrow> Inr x)"

lemma cd_store_Inr [simp]: "cd_store r = Inr x \<longleftrightarrow> r = Inr x"
  by (auto simp: cd_store_def split: sum.splits)

definition new_derivation_row :: "store_env \<Rightarrow> derivation_job \<Rightarrow> string \<Rightarrow> derivation_row" where
  "new_derivation_row env initial now =
     (let spec = de_spec initial
      in \<lparr>dr_job_id = dj_job_id spec, dr_natural_key = derivation_natural_key spec,
          dr_request_digest = se_request_digest env spec, dr_snapshot = initial,
          dr_state_version = de_version initial, dr_is_terminal = der_is_terminal (de_state initial),
          dr_created_at = now, dr_updated_at = now, dr_source_revision = dj_source_revision spec,
          dr_profile_revision = dj_profile_revision spec, dr_spec_version = 1, dr_spec = spec\<rparr>)"

definition create_derivation_job ::
    "store_env \<Rightarrow> media_db \<Rightarrow> derivation_spec \<Rightarrow> string
     \<Rightarrow> create_derivation_error + (media_db \<times> create_derivation_outcome)" where
  "create_derivation_job env db spec now =
     and_then (cd_store (ms_non_empty now ''now'')) (\<lambda>_.
     case new_derivation_job spec of
       Inl e \<Rightarrow> Inl (CdStore (MsConflict ''invalid derivation spec''))
     | Inr initial \<Rightarrow>
         let key = derivation_natural_key spec; digest = se_request_digest env spec
         in case find (\<lambda>r. dr_natural_key r = key) (md_jobs db) of
              Some existing \<Rightarrow>
                if dr_request_digest existing \<noteq> digest
                then Inl (CdRequestDigestMismatch key (dr_job_id existing)
                       (dr_request_digest existing) digest)
                else and_then (cd_store (require_derivation env db (dr_job_id existing)))
                       (\<lambda>stored. Inr (db, DerExisting stored))
            | None \<Rightarrow>
                (case find_row db (dj_job_id spec) of
                   Some existing \<Rightarrow> Inl (CdJobIdCollision (dj_job_id spec) (dr_natural_key existing))
                 | None \<Rightarrow>
                     and_then (cd_store (ms_checked_i64 (de_version initial) ''state_version'')) (\<lambda>_.
                     and_then (cd_store (bump_revision
                        (db\<lparr>md_jobs := md_jobs db @ [new_derivation_row env initial now]\<rparr>))) (\<lambda>db'.
                     and_then (cd_store (require_derivation env db' (dj_job_id spec))) (\<lambda>stored.
                     Inr (db', DerCreated stored))))))"

section \<open>Changing a job\<close>

definition monotone_pairs :: "derivation_job \<Rightarrow> derivation_job \<Rightarrow> media_store_error + unit" where
  "monotone_pairs current nxt =
     and_then (ensure (\<not> length (de_checkpoints nxt) < length (de_checkpoints current))
        (MsConflict ''derivation segment-pair checkpoints cannot be removed'')) (\<lambda>_.
     and_then (ensure (list_all (\<lambda>(old, new). old = new)
          (zip (de_checkpoints current) (de_checkpoints nxt)))
        (MsConflict ''committed derivation segment-pair evidence is immutable'')) (\<lambda>_.
     ensure (list_all (\<lambda>(ordinal, c). checkpoint_consistent c \<and> ordinal < 2 ^ 32
            \<and> cp_segment_index c = of_nat ordinal)
          (zip [0..<length (de_checkpoints nxt)] (de_checkpoints nxt)))
       (MsConflict ''derivation segment-pair checkpoints must be contiguous from zero'')))"

definition new_pair_row :: "u64 \<Rightarrow> string \<Rightarrow> segment_pair_checkpoint \<Rightarrow> pair_row" where
  "new_pair_row version now c =
     \<lparr>pw_checkpoint = c, pw_segment_index = cp_segment_index c, pw_pair_state = ''verified'',
      pw_pair_version = version, pw_left_sha256 = do_sha256 (cp_left c),
      pw_right_sha256 = do_sha256 (cp_right c), pw_verified = True, pw_updated_at = now\<rparr>"

definition update_row ::
    "derivation_job_id \<Rightarrow> (derivation_row \<Rightarrow> derivation_row) \<Rightarrow> derivation_row list \<Rightarrow> derivation_row list" where
  "update_row j f rows = map (\<lambda>r. if dr_job_id r = j then f r else r) rows"

definition persist_derivation_snapshot ::
    "media_db \<Rightarrow> stored_derivation \<Rightarrow> u64 \<Rightarrow> derivation_job \<Rightarrow> string \<Rightarrow> media_store_error + media_db" where
  "persist_derivation_snapshot db current expected nxt now =
     (let snap = sd_snapshot current; j = dj_job_id (de_spec nxt)
      in and_then (ms_non_empty now ''now'') (\<lambda>_.
         and_then (ensure (\<not> der_is_terminal (de_state snap))
            (MsConflict ''terminal derivation job cannot be changed'')) (\<lambda>_.
         and_then (ensure (de_version snap = expected) (MsConflict ''expected version'')) (\<lambda>_.
         and_then (option_ok (MsConflict ''exhausted the u64 version range'')
            (checked_add expected 1)) (\<lambda>expected_next.
         and_then (ensure (de_version nxt = expected_next) (MsConflict ''expected next version'')) (\<lambda>_.
         and_then (ensure (de_spec nxt = sd_spec current)
            (MsConflict ''derivation snapshot changed its immutable spec'')) (\<lambda>_.
         and_then (case rehydrate nxt of Inl _ \<Rightarrow> Inl (MsConflict ''derivation snapshot is invalid'')
                   | Inr _ \<Rightarrow> Inr ()) (\<lambda>_.
         and_then (monotone_pairs snap nxt) (\<lambda>_.
         and_then (ms_checked_i64 (de_version nxt) ''state_version'') (\<lambda>_.
         and_then (ms_checked_i64 expected ''expected_version'') (\<lambda>_.
         and_then (ensure (list_ex (\<lambda>r. dr_job_id r = j \<and> dr_state_version r = expected) (md_jobs db))
            (MsConflict ''lost expected-version CAS'')) (\<lambda>_.
         Inr (db\<lparr>md_jobs := update_row j (\<lambda>r. r\<lparr>dr_snapshot := nxt, dr_state_version := de_version nxt,
                   dr_is_terminal := der_is_terminal (de_state nxt), dr_updated_at := now\<rparr>) (md_jobs db),
                 md_pairs := (md_pairs db)(j := md_pairs db j
                   @ map (new_pair_row (de_version nxt) now)
                       (drop (length (de_checkpoints snap)) (de_checkpoints nxt)))\<rparr>)))))))))))))"

datatype swap_outcome = SwapApplied stored_derivation | SwapAlreadyApplied stored_derivation

definition compare_and_swap_derivation_snapshot ::
    "store_env \<Rightarrow> media_db \<Rightarrow> u64 \<Rightarrow> derivation_job \<Rightarrow> string
     \<Rightarrow> media_store_error + (media_db \<times> swap_outcome)" where
  "compare_and_swap_derivation_snapshot env db expected nxt now =
     and_then (ensure (\<not> der_is_terminal (de_state nxt))
        (MsConflict ''terminal derivation snapshots must use complete_derivation_job'')) (\<lambda>_.
     and_then (require_derivation env db (dj_job_id (de_spec nxt))) (\<lambda>current.
     if sd_snapshot current = nxt then Inr (db, SwapAlreadyApplied current)
     else
       and_then (persist_derivation_snapshot db current expected nxt now) (\<lambda>db'.
       and_then (bump_revision db') (\<lambda>db''.
       and_then (require_derivation env db'' (dj_job_id (de_spec nxt))) (\<lambda>stored.
       Inr (db'', SwapApplied stored))))))"

definition complete_derivation_job ::
    "store_env \<Rightarrow> media_db \<Rightarrow> u64 \<Rightarrow> derivation_job \<Rightarrow> string
     \<Rightarrow> media_store_error + (media_db \<times> stored_derivation \<times> complete_outcome)" where
  "complete_derivation_job env db expected nxt now =
     (let j = dj_job_id (de_spec nxt)
      in and_then (ensure (der_is_terminal (de_state nxt))
           (MsConflict ''non-terminal derivation snapshots must use compare_and_swap'')) (\<lambda>_.
         and_then (ms_non_empty now ''now'') (\<lambda>_.
         and_then (require_derivation env db j) (\<lambda>current.
         let replay = (sd_snapshot current = nxt)
         in and_then (if replay then Inr db
                      else persist_derivation_snapshot db current expected nxt now) (\<lambda>db1.
            and_then (if de_state nxt = DerDerivedVerified then
                (case de_completion nxt of
                   None \<Rightarrow> Inl (MsConflict ''derived_verified snapshot has no completion evidence'')
                 | Some c \<Rightarrow> and_then (receipt_from_completion (se_codec env) j c)
                     (insert_derived_receipt db1))
              else and_then (ensure (de_completion nxt = None)
                (MsConflict ''non-success terminal derivation carries completion evidence''))
                (\<lambda>_. Inr (db1, False))) (\<lambda>(db2, recorded).
            and_then (insert_completion db2 j nxt (de_version nxt) now) (\<lambda>(db3, completion).
            and_then (if \<not> replay \<or> recorded
                \<or> (case completion of OutRecorded _ \<Rightarrow> True | _ \<Rightarrow> False)
              then bump_revision db3 else Inr db3) (\<lambda>db4.
            and_then (require_derivation env db4 j) (\<lambda>job.
            Inr (db4, job, completion))))))))))"

section \<open>Listing\<close>

text \<open>\<open>collect::<Result<Vec<_>, _>>\<close>: the first error wins.\<close>

fun collect_results :: "('e + 'a) list \<Rightarrow> 'e + 'a list" where
  "collect_results [] = Inr []"
| "collect_results (r # rs) = and_then r (\<lambda>x. and_then (collect_results rs) (\<lambda>xs. Inr (x # xs)))"

lemma collect_results_Inr: "collect_results (map (\<lambda>x. Inr (f x)) xs) = Inr (map f xs)"
  by (induction xs) auto

definition by_creation :: "derivation_row list \<Rightarrow> derivation_row list" where
  "by_creation rows = sort_key (\<lambda>r. (dr_created_at r, dr_job_id r)) rows"

record revisioned_derivations =
  rv_revision :: u64
  rv_items :: "stored_derivation list"

definition derivation_projection ::
    "store_env \<Rightarrow> media_db \<Rightarrow> media_store_error + revisioned_derivations" where
  "derivation_projection env db =
     and_then (collect_results (map (require_derivation env db)
       (map dr_job_id (by_creation (md_jobs db))))) (\<lambda>items.
     Inr \<lparr>rv_revision = md_revision db, rv_items = items\<rparr>)"

datatype recovery_blocked_reason =
    MissingSpec | MissingFiles | MissingLocator | UnknownSpecVersion | CorruptSpec | DigestMismatch
  | UnknownState

datatype recoverable_derivation =
    RcReady stored_derivation
  | RcBlocked derivation_job_id recovery_blocked_reason string

definition recover_row ::
    "store_env \<Rightarrow> media_db \<Rightarrow> derivation_job_id \<Rightarrow> media_store_error + recoverable_derivation" where
  "recover_row env db j =
     (case read_derivation env db j of
        Inr (Some job) \<Rightarrow> Inr (RcReady job)
      | Inr None \<Rightarrow> Inr (RcBlocked j MissingSpec ''job row vanished during recovery snapshot'')
      | Inl (MsCorrupt detail) \<Rightarrow> Inr (RcBlocked j CorruptSpec detail)
      | Inl (MsNotFound detail) \<Rightarrow> Inr (RcBlocked j MissingSpec detail)
      | Inl e \<Rightarrow> Inl e)"

definition list_recoverable_derivations ::
    "store_env \<Rightarrow> media_db \<Rightarrow> media_store_error + recoverable_derivation list" where
  "list_recoverable_derivations env db =
     collect_results (map (recover_row env db)
       (map dr_job_id (by_creation (filter (\<lambda>r. \<not> dr_is_terminal r) (md_jobs db)))))"

section \<open>The invariant of the store\<close>

definition stored_of :: "derivation_row \<Rightarrow> stored_derivation" where
  "stored_of row =
     \<lparr>sd_spec = dr_spec row, sd_snapshot = dr_snapshot row, sd_natural_key = dr_natural_key row,
      sd_request_digest = dr_request_digest row, sd_created_at = dr_created_at row,
      sd_updated_at = dr_updated_at row\<rparr>"

definition row_indexed :: "store_env \<Rightarrow> derivation_row \<Rightarrow> bool" where
  "row_indexed env row \<longleftrightarrow>
     dr_spec_version row = 1 \<and> dj_job_id (dr_spec row) = dr_job_id row
     \<and> dj_source_revision (dr_spec row) = dr_source_revision row
     \<and> dj_profile_revision (dr_spec row) = dr_profile_revision row
     \<and> derivation_natural_key (dr_spec row) = dr_natural_key row
     \<and> se_request_digest env (dr_spec row) = dr_request_digest row
     \<and> de_spec (dr_snapshot row) = dr_spec row \<and> de_version (dr_snapshot row) = dr_state_version row
     \<and> der_is_terminal (de_state (dr_snapshot row)) = dr_is_terminal row"

definition row_ok :: "store_env \<Rightarrow> media_db \<Rightarrow> derivation_row \<Rightarrow> bool" where
  "row_ok env db row \<longleftrightarrow>
     row_indexed env row \<and> der_wf (dr_snapshot row)
     \<and> list_all2 (pair_row_agrees (dr_snapshot row)) (md_pairs db (dr_job_id row))
         (de_checkpoints (dr_snapshot row))
     \<and> receipt_agrees (se_codec env) db (dr_job_id row) (dr_snapshot row)"

text \<open>A job has a completion in the outbox exactly when its row is terminal, and it is that row's.\<close>

definition outbox_row_ok :: "media_db \<Rightarrow> derivation_row \<Rightarrow> bool" where
  "outbox_row_ok db row \<longleftrightarrow>
     (case md_outbox db (dr_job_id row) of
        None \<Rightarrow> \<not> der_is_terminal (de_state (dr_snapshot row))
      | Some ce \<Rightarrow> der_is_terminal (de_state (dr_snapshot row)) \<and> ce_outcome ce = dr_snapshot row
          \<and> ce_state_version ce = de_version (dr_snapshot row))"

definition md_ok :: "store_env \<Rightarrow> media_db \<Rightarrow> bool" where
  "md_ok env db \<longleftrightarrow>
     distinct (map dr_job_id (md_jobs db))
     \<and> (\<forall>row \<in> set (md_jobs db). row_ok env db row \<and> outbox_row_ok db row)
     \<and> (\<forall>j. j \<notin> set (map dr_job_id (md_jobs db)) \<longrightarrow> md_pairs db j = [] \<and> md_outbox db j = None)"

lemma empty_media_db_ok: "md_ok env empty_media_db"
  by (simp add: md_ok_def empty_media_db_def)

lemma find_row_Some:
  assumes "distinct (map dr_job_id (md_jobs db))"
  shows "find_row db j = Some row \<longleftrightarrow> row \<in> set (md_jobs db) \<and> dr_job_id row = j"
proof
  assume "find_row db j = Some row"
  then show "row \<in> set (md_jobs db) \<and> dr_job_id row = j"
    by (auto simp: find_row_def find_Some_iff)
next
  assume row: "row \<in> set (md_jobs db) \<and> dr_job_id row = j"
  then obtain row' where row': "find_row db j = Some row'"
    by (cases "find_row db j") (auto simp: find_row_def find_None_iff)
  then have "row' \<in> set (md_jobs db)" "dr_job_id row' = j"
    by (auto simp: find_row_def find_Some_iff)
  with row assms have "row' = row" by (auto simp: distinct_map inj_on_def)
  with row' show "find_row db j = Some row" by simp
qed

lemma find_row_None: "find_row db j = None \<longleftrightarrow> j \<notin> set (map dr_job_id (md_jobs db))"
  by (auto simp: find_row_def find_None_iff)

lemma md_ok_row:
  assumes "md_ok env db" and "find_row db j = Some row"
  shows "row_ok env db row" and "outbox_row_ok db row" and "dr_job_id row = j"
    and "row \<in> set (md_jobs db)"
  using assms by (auto simp: md_ok_def find_row_Some)

text \<open>The store never finds its own rows corrupt.\<close>

lemma read_derivation_ok:
  assumes "row_ok env db row" and "find_row db (dr_job_id row) = Some row"
  shows "read_derivation env db (dr_job_id row) = Inr (Some (stored_of row))"
  using assms rehydrate_wf [of "dr_snapshot row"]
  by (simp add: read_derivation_def row_ok_def row_indexed_def stored_of_def ensure_def Let_def)

lemma require_derivation_ok:
  assumes "md_ok env db"
  shows "require_derivation env db j = Inr stored
    \<longleftrightarrow> (\<exists>row. find_row db j = Some row \<and> stored = stored_of row)"
proof (cases "find_row db j")
  case None
  then show ?thesis by (auto simp: require_derivation_def read_derivation_def option_ok_def)
next
  case (Some row)
  with md_ok_row [OF assms Some] read_derivation_ok [of env db row] show ?thesis
    by (auto simp: require_derivation_def)
qed

section \<open>Persisting a snapshot\<close>

lemma monotone_pairsD:
  assumes "monotone_pairs cur nxt = Inr ()"
  shows "\<exists>new. de_checkpoints nxt = de_checkpoints cur @ new"
    and "contiguous_ledger (de_checkpoints nxt)"
    and "list_all checkpoint_consistent (de_checkpoints nxt)"
proof -
  let ?o = "de_checkpoints cur" and ?n = "de_checkpoints nxt"
  have len: "length ?o \<le> length ?n" and same: "list_all (\<lambda>(old, new). old = new) (zip ?o ?n)"
    and all: "list_all (\<lambda>(k, c). checkpoint_consistent c \<and> k < 2 ^ 32
        \<and> cp_segment_index c = of_nat k) (zip [0..<length ?n] ?n)"
    using assms by (simp_all add: monotone_pairs_def del: of_nat_numeral)
  have "?o = take (length ?o) ?n"
    using len same by (intro nth_equalityI) (auto simp: list_all_length)
  then show "\<exists>new. ?n = ?o @ new" by (metis append_take_drop_id)
  have each: "checkpoint_consistent (?n ! k) \<and> unat (cp_segment_index (?n ! k)) = k"
    if "k < length ?n" for k
  proof -
    have "checkpoint_consistent (?n ! k) \<and> k < 2 ^ 32 \<and> cp_segment_index (?n ! k) = of_nat k"
      using all that by (auto simp: list_all_length)
    then show ?thesis by (simp add: unat_of_nat)
  qed
  then show "contiguous_ledger ?n"
    unfolding contiguous_ledger_def by (intro nth_equalityI) auto
  show "list_all checkpoint_consistent ?n" using each by (simp add: list_all_length)
qed

definition advanced_row :: "derivation_row \<Rightarrow> derivation_job \<Rightarrow> string \<Rightarrow> derivation_row" where
  "advanced_row row nxt now = row\<lparr>dr_snapshot := nxt, dr_state_version := de_version nxt,
     dr_is_terminal := der_is_terminal (de_state nxt), dr_updated_at := now\<rparr>"

lemma advanced_row_sel [simp]:
  "dr_job_id (advanced_row row nxt now) = dr_job_id row"
  "dr_snapshot (advanced_row row nxt now) = nxt" "dr_spec (advanced_row row nxt now) = dr_spec row"
  by (simp_all add: advanced_row_def)

lemma map_update_row:
  assumes "\<And>r. dr_job_id (f r) = dr_job_id r"
  shows "map dr_job_id (update_row j f rows) = map dr_job_id rows"
  using assms by (simp add: update_row_def)

lemma find_update_row:
  assumes "\<And>r. dr_job_id (f r) = dr_job_id r"
  shows "find (\<lambda>r. dr_job_id r = k) (update_row j f rows)
    = (if k = j then map_option f (find (\<lambda>r. dr_job_id r = j) rows)
       else find (\<lambda>r. dr_job_id r = k) rows)"
  using assms by (induction rows) (auto simp: update_row_def)

text \<open>What a successful persist asked for, and the database it leaves.\<close>

lemma persist_Inr:
  assumes "persist_derivation_snapshot db cur expected nxt now = Inr db'"
  shows "\<not> der_is_terminal (de_state (sd_snapshot cur))" and "de_version (sd_snapshot cur) = expected"
    and "unat (de_version nxt) = unat expected + 1" and "de_spec nxt = sd_spec cur"
    and "\<exists>s. rehydrate nxt = Inr s" and "monotone_pairs (sd_snapshot cur) nxt = Inr ()"
    and "fits_i64 (de_version nxt)"
    and "db' = db\<lparr>md_jobs := update_row (dj_job_id (de_spec nxt)) (\<lambda>r. advanced_row r nxt now) (md_jobs db),
      md_pairs := (md_pairs db)(dj_job_id (de_spec nxt) := md_pairs db (dj_job_id (de_spec nxt))
        @ map (new_pair_row (de_version nxt) now)
            (drop (length (de_checkpoints (sd_snapshot cur))) (de_checkpoints nxt)))\<rparr>"
  using assms
  by (auto simp: persist_derivation_snapshot_def ms_checked_i64_def advanced_row_def [abs_def] Let_def
      dest: checked_add_SomeD(1) split: sum.splits)

lemma pair_row_agrees_later:
  assumes "pair_row_agrees s r c" and "de_version s \<le> de_version s'"
  shows "pair_row_agrees s' r c"
  using assms by (auto simp: pair_row_agrees_def)

lemma persist_row:
  assumes ok: "md_ok env db" and row: "find_row db (dj_job_id (de_spec nxt)) = Some row"
    and persist: "persist_derivation_snapshot db (stored_of row) expected nxt now = Inr db'"
  shows "der_wf nxt" and "row_indexed env (advanced_row row nxt now)"
    and "list_all2 (pair_row_agrees nxt) (md_pairs db' (dr_job_id row)) (de_checkpoints nxt)"
    and "find_row db' (dr_job_id row) = Some (advanced_row row nxt now)"
proof -
  let ?j = "dj_job_id (de_spec nxt)"
  note p = persist_Inr [OF persist] and r = md_ok_row [OF ok row]
  have j: "dr_job_id row = ?j" using r(3) .
  show wf: "der_wf nxt"
    using rehydrate_Inr_wf(1) p(5) monotone_pairsD(2) [OF p(6)] by blast
  show "row_indexed env (advanced_row row nxt now)"
    using r(1) p(4) by (simp add: row_ok_def row_indexed_def advanced_row_def stored_of_def)
  show "find_row db' (dr_job_id row) = Some (advanced_row row nxt now)"
    using row j unfolding p(8) by (simp add: find_row_def find_update_row)
  obtain new where new: "de_checkpoints nxt = de_checkpoints (dr_snapshot row) @ new"
    using monotone_pairsD(1) [OF p(6)] by (auto simp: stored_of_def)
  have v: "de_version (dr_snapshot row) \<le> de_version nxt"
    using p(2,3) by (simp add: word_le_nat_alt stored_of_def)
  have "list_all2 (pair_row_agrees nxt) (md_pairs db ?j) (de_checkpoints (dr_snapshot row))"
    using r(1) j pair_row_agrees_later [OF _ v] by (auto simp: row_ok_def elim: list_all2_mono)
  moreover have "list_all2 (pair_row_agrees nxt) (map (new_pair_row (de_version nxt) now) new) new"
  proof -
    have "list_all checkpoint_consistent new" using monotone_pairsD(3) [OF p(6)] by (simp add: new)
    moreover have "de_version nxt \<noteq> 0" using wf by (simp add: der_wf_def)
    ultimately show ?thesis
      by (auto simp: list_all2_conv_all_nth list_all_length pair_row_agrees_def new_pair_row_def)
  qed
  ultimately show "list_all2 (pair_row_agrees nxt) (md_pairs db' (dr_job_id row)) (de_checkpoints nxt)"
    unfolding p(8) j by (simp add: new stored_of_def list_all2_appendI)
qed

section \<open>Every operation keeps the invariant\<close>

lemma receipt_agrees_receipts:
  "md_receipts db' = md_receipts db \<Longrightarrow> receipt_agrees codec db' j s = receipt_agrees codec db j s"
  by (simp add: receipt_agrees_def find_receipt_def cong: option.case_cong sum.case_cong)

lemma receipt_agrees_revision [simp]:
  "receipt_agrees codec (db\<lparr>md_revision := v\<rparr>) j s = receipt_agrees codec db j s"
  by (rule receipt_agrees_receipts) simp

lemma md_ok_revision [simp]: "md_ok env (db\<lparr>md_revision := v\<rparr>) = md_ok env db"
  by (simp add: md_ok_def row_ok_def outbox_row_ok_def)

lemma bump_revision_Inr:
  assumes "bump_revision db = Inr db'"
  shows "\<exists>v. db' = db\<lparr>md_revision := v\<rparr>"
  using assms by (auto simp: bump_revision_def)

lemma find_row_revision [simp]: "find_row (db\<lparr>md_revision := v\<rparr>) j = find_row db j"
  by (simp add: find_row_def)

definition receipts_extend :: "media_db \<Rightarrow> media_db \<Rightarrow> bool" where
  "receipts_extend db db' \<longleftrightarrow>
     (\<forall>revision r. find_receipt db revision = Some r \<longrightarrow> find_receipt db' revision = Some r)"

lemma receipt_agrees_extend:
  assumes "receipt_agrees codec db j s" and "receipts_extend db db'"
  shows "receipt_agrees codec db' j s"
  using assms by (auto simp: receipt_agrees_def receipts_extend_def split: option.splits sum.splits)

text \<open>A database that differs in the row of one job, its pairs and its completion.\<close>

lemma md_ok_advance:
  assumes ok: "md_ok env db" and row: "find_row db j = Some row"
    and jobs: "md_jobs db' = update_row j (\<lambda>r. advanced_row r nxt now) (md_jobs db)"
    and others: "\<And>k. k \<noteq> j \<Longrightarrow> md_pairs db' k = md_pairs db k \<and> md_outbox db' k = md_outbox db k"
    and receipts: "receipts_extend db db'"
    and new: "row_ok env db' (advanced_row row nxt now)" "outbox_row_ok db' (advanced_row row nxt now)"
  shows "md_ok env db'"
proof -
  note r = md_ok_row [OF ok row]
  have ids: "map dr_job_id (md_jobs db') = map dr_job_id (md_jobs db)"
    unfolding jobs by (rule map_update_row) simp
  have d: "distinct (map dr_job_id (md_jobs db))" using ok by (simp add: md_ok_def)
  have "row_ok env db' x \<and> outbox_row_ok db' x" if x: "x \<in> set (md_jobs db')" for x
  proof -
    from x obtain y where y: "y \<in> set (md_jobs db)"
      "x = (if dr_job_id y = j then advanced_row y nxt now else y)"
      by (auto simp: jobs update_row_def)
    show ?thesis
    proof (cases "dr_job_id y = j")
      case True
      then have "y = row" using d y(1) r(3,4) by (auto simp: distinct_map inj_on_def)
      with True y(2) new show ?thesis by simp
    next
      case False
      have "row_ok env db y" "outbox_row_ok db y" using ok y(1) by (auto simp: md_ok_def)
      then show ?thesis
        using False y(2) others receipt_agrees_extend [OF _ receipts]
        by (auto simp: row_ok_def outbox_row_ok_def)
    qed
  qed
  moreover have "md_pairs db' k = [] \<and> md_outbox db' k = None"
    if k: "k \<notin> set (map dr_job_id (md_jobs db'))" for k
  proof -
    have "k \<noteq> j" using k r(3,4) unfolding ids by auto
    with k ok others [of k] show ?thesis unfolding ids by (auto simp: md_ok_def)
  qed
  ultimately show ?thesis using d ids by (simp add: md_ok_def)
qed

lemma receipts_extend_refl: "md_receipts db' = md_receipts db \<Longrightarrow> receipts_extend db db'"
  by (simp add: receipts_extend_def find_receipt_def)

lemma persist_live_ok:
  assumes ok: "md_ok env db" and row: "find_row db (dj_job_id (de_spec nxt)) = Some row"
    and persist: "persist_derivation_snapshot db (stored_of row) expected nxt now = Inr db'"
    and live: "\<not> der_is_terminal (de_state nxt)"
  shows "md_ok env db'"
    and "\<And>k. find_row db' k = (if k = dj_job_id (de_spec nxt) then Some (advanced_row row nxt now)
        else find_row db k)"
proof -
  let ?j = "dj_job_id (de_spec nxt)"
  note p = persist_Inr [OF persist] and pr = persist_row [OF ok row persist]
    and r = md_ok_row [OF ok row]
  have none: "md_outbox db ?j = None"
    using r(2,3) p(1) by (auto simp: outbox_row_ok_def stored_of_def split: option.splits)
  show "md_ok env db'"
  proof (rule md_ok_advance [OF ok row])
    show "md_jobs db' = update_row ?j (\<lambda>r. advanced_row r nxt now) (md_jobs db)" by (simp add: p(8))
    show "md_pairs db' k = md_pairs db k \<and> md_outbox db' k = md_outbox db k" if "k \<noteq> ?j" for k
      using that by (simp add: p(8))
    show "receipts_extend db db'" by (rule receipts_extend_refl) (simp add: p(8))
    show "row_ok env db' (advanced_row row nxt now)"
      using pr(1-3) live by (auto simp: row_ok_def receipt_agrees_def)
    show "outbox_row_ok db' (advanced_row row nxt now)"
      using live none r(3) by (simp add: outbox_row_ok_def p(8))
  qed
  show "find_row db' k = (if k = ?j then Some (advanced_row row nxt now) else find_row db k)" for k
    using row unfolding p(8) by (simp add: find_row_def find_update_row)
qed

lemma cas_applied:
  assumes ok: "md_ok env db"
    and cas: "compare_and_swap_derivation_snapshot env db expected nxt now = Inr (db', SwapApplied stored)"
  obtains row where "find_row db (dj_job_id (de_spec nxt)) = Some row"
    and "\<not> der_is_terminal (de_state (dr_snapshot row))" and "\<not> der_is_terminal (de_state nxt)"
    and "de_version (dr_snapshot row) = expected" and "unat (de_version nxt) = unat expected + 1"
    and "\<exists>new. de_checkpoints nxt = de_checkpoints (dr_snapshot row) @ new"
    and "de_spec nxt = dr_spec row" and "der_wf nxt" and "md_ok env db'" and "sd_snapshot stored = nxt"
    and "\<And>k. find_row db' k = (if k = dj_job_id (de_spec nxt) then Some (advanced_row row nxt now)
        else find_row db k)"
    and "md_outbox db' = md_outbox db"
proof -
  let ?j = "dj_job_id (de_spec nxt)"
  from cas obtain cur db1 where live: "\<not> der_is_terminal (de_state nxt)"
    and cur: "require_derivation env db ?j = Inr cur"
    and persist: "persist_derivation_snapshot db cur expected nxt now = Inr db1"
    and bump: "bump_revision db1 = Inr db'"
    and stored: "require_derivation env db' ?j = Inr stored"
    by (auto simp: compare_and_swap_derivation_snapshot_def elim!: and_then_InrE
        simp del: and_then_Inr split: if_splits)
  obtain row where row: "find_row db ?j = Some row" and cur_eq: "cur = stored_of row"
    using cur unfolding require_derivation_ok [OF ok] by blast
  note p = persist_Inr [OF persist [unfolded cur_eq]]
    and pr = persist_row(1) [OF ok row persist [unfolded cur_eq]]
    and live_ok = persist_live_ok [OF ok row persist [unfolded cur_eq] live]
  obtain v where v: "db' = db1\<lparr>md_revision := v\<rparr>" using bump_revision_Inr [OF bump] by blast
  have ok': "md_ok env db'" using live_ok(1) by (simp add: v)
  have found: "find_row db' k = (if k = ?j then Some (advanced_row row nxt now) else find_row db k)" for k
    using live_ok(2) by (simp add: v)
  have "sd_snapshot stored = nxt"
    using stored found [of ?j] unfolding require_derivation_ok [OF ok'] by (simp add: stored_of_def)
  with row live p(1-4) monotone_pairsD(1) [OF p(6)] pr ok' found show thesis
    by (intro that [of row]) (simp_all add: stored_of_def v p(8))
qed

text \<open>
  A swap is refused only for a reason: it succeeds when the counters have room and the new
  snapshot is the well-formed live successor of a live job with consistent evidence.
\<close>

lemma contiguous_monotone:
  assumes "contiguous_ledger (de_checkpoints cur @ new)" and "de_checkpoints nxt = de_checkpoints cur @ new"
    and "list_all checkpoint_consistent (de_checkpoints nxt)"
  shows "monotone_pairs cur nxt = Inr ()"
proof -
  let ?n = "de_checkpoints nxt"
  have "list_all (\<lambda>(old, new). old = new) (zip (de_checkpoints cur) ?n)"
    by (simp add: assms(2) list_all_length nth_append)
  moreover have "checkpoint_consistent (?n ! k) \<and> k < 2 ^ 32 \<and> cp_segment_index (?n ! k) = of_nat k"
    if "k < length ?n" for k
  proof -
    have "unat (cp_segment_index (?n ! k)) = k"
      using contiguous_index [of ?n k] assms(1,2) that by simp
    moreover from this have "k < 2 ^ 32" using unsigned_less [where 'a = nat, of "cp_segment_index (?n ! k)"] by simp
    ultimately show ?thesis using assms(3) that by (auto simp: list_all_length word_unat_eq_iff unat_of_nat)
  qed
  then have "list_all (\<lambda>(k, c). checkpoint_consistent c \<and> k < 2 ^ 32 \<and> cp_segment_index c = of_nat k)
      (zip [0..<length ?n] ?n)"
    by (simp add: list_all_length)
  ultimately show ?thesis by (simp add: monotone_pairs_def assms(2) ensure_def)
qed

lemma cas_succeeds:
  assumes ok: "md_ok env db" and row: "find_row db j = Some row"
    and cur: "\<not> der_is_terminal (de_state (dr_snapshot row))" "de_version (dr_snapshot row) = expected"
      "unat expected + 1 < 2 ^ 63"
    and nxt: "\<not> der_is_terminal (de_state nxt)" "der_wf nxt" "de_spec nxt = de_spec (dr_snapshot row)"
      "de_version nxt = expected + 1" "de_checkpoints nxt = de_checkpoints (dr_snapshot row) @ new"
      "list_all checkpoint_consistent (de_checkpoints nxt)"
    and room: "unat (md_revision db) < 2 ^ 63 - 1" "now \<noteq> []"
  shows "\<exists>db' stored. compare_and_swap_derivation_snapshot env db expected nxt now
    = Inr (db', SwapApplied stored) \<and> md_revision db' = md_revision db + 1"
proof -
  note r = md_ok_row [OF ok row]
  have spec: "dj_job_id (de_spec (dr_snapshot row)) = j" "sd_spec (stored_of row) = de_spec nxt"
    and stored_version: "dr_state_version row = expected"
    using r(1,3) nxt(3) cur(2) by (auto simp: row_ok_def row_indexed_def stored_of_def)
  then have j: "dj_job_id (de_spec nxt) = j" using nxt(3) by simp
  have snap: "sd_snapshot (stored_of row) = dr_snapshot row" by (simp add: stored_of_def)
  have v: "checked_add expected 1 = Some (expected + 1)" "unat (expected + 1) = unat expected + 1"
    using checked_succ [of expected] cur(3) by simp_all
  then have ne: "dr_snapshot row \<noteq> nxt" using cur(2) nxt(4) by auto
  have mono: "monotone_pairs (dr_snapshot row) nxt = Inr ()"
    using contiguous_monotone [OF _ nxt(5,6)] nxt(2,5) by (simp add: der_wf_def ledger_ok_def)
  have exists: "list_ex (\<lambda>r. dr_job_id r = j \<and> dr_state_version r = expected) (md_jobs db)"
    using r(3,4) stored_version by (auto simp: list_ex_iff)
  obtain db1 where persist: "persist_derivation_snapshot db (stored_of row) expected nxt now = Inr db1"
    and rev1: "md_revision db1 = md_revision db"
    using cur nxt(2-4) v room(2) mono exists rehydrate_wf [OF nxt(2)] spec j snap
    by (simp add: persist_derivation_snapshot_def Let_def ms_non_empty_def ensure_def option_ok_def
        ms_checked_i64_def fits_i64_def)
  note live = persist_live_ok [OF ok row [folded j] persist nxt(1)]
  let ?db = "db1\<lparr>md_revision := md_revision db + 1\<rparr>"
  have bump: "bump_revision db1 = Inr ?db" using room(1) rev1 by (simp add: bump_revision_def ensure_def)
  have "require_derivation env ?db j = Inr (stored_of (advanced_row row nxt now))"
    using require_derivation_ok [of env ?db] live j by simp
  moreover have "require_derivation env db j = Inr (stored_of row)"
    using require_derivation_ok [OF ok] row by blast
  ultimately have "compare_and_swap_derivation_snapshot env db expected nxt now
      = Inr (?db, SwapApplied (stored_of (advanced_row row nxt now)))"
    using nxt(1) ne persist bump
    by (simp add: compare_and_swap_derivation_snapshot_def j snap ensure_def)
  then show ?thesis by auto
qed

lemma insert_receipt_Inr:
  assumes "insert_derived_receipt db r = Inr (db', recorded)"
  shows "find_receipt db' (rc_derived_revision r) = Some r" and "receipts_extend db db'"
    and "\<exists>rs. db' = db\<lparr>md_receipts := rs\<rparr>" and "\<not> recorded \<Longrightarrow> db' = db"
    and "find_receipt db (rc_derived_revision r) = Some r \<Longrightarrow> \<not> recorded"
proof -
  consider (old) "find_receipt db (rc_derived_revision r) = Some r" "db' = db" "\<not> recorded"
    | (new) "find_receipt db (rc_derived_revision r) = None"
        "db' = db\<lparr>md_receipts := md_receipts db @ [r]\<rparr>" recorded
    using assms by (auto simp: insert_derived_receipt_def split: option.splits if_splits)
  then have all: "find_receipt db' (rc_derived_revision r) = Some r \<and> receipts_extend db db'
    \<and> (\<exists>rs. db' = db\<lparr>md_receipts := rs\<rparr>) \<and> (\<not> recorded \<longrightarrow> db' = db)
    \<and> (find_receipt db (rc_derived_revision r) = Some r \<longrightarrow> \<not> recorded)"
  proof cases
    case old
    then show ?thesis by (auto simp: receipts_extend_def intro: exI [of _ "md_receipts db"])
  next
    case new
    have appended: "find P (xs @ [r]) = (case find P xs of Some y \<Rightarrow> Some y | None \<Rightarrow> if P r then Some r else None)"
      for P :: "derived_receipt \<Rightarrow> bool" and xs
      by (induction xs) auto
    from new show ?thesis by (auto simp: receipts_extend_def find_receipt_def appended)
  qed
  then show "find_receipt db' (rc_derived_revision r) = Some r" "receipts_extend db db'"
    "\<exists>rs. db' = db\<lparr>md_receipts := rs\<rparr>" "\<not> recorded \<Longrightarrow> db' = db"
    "find_receipt db (rc_derived_revision r) = Some r \<Longrightarrow> \<not> recorded" by blast+
qed

lemma insert_completion_Inr:
  assumes "insert_completion db j out version now = Inr (db', completion)"
  shows "\<exists>ce. md_outbox db' j = Some ce \<and> ce_outcome ce = out \<and> ce_state_version ce = version"
    and "\<And>k. k \<noteq> j \<Longrightarrow> md_outbox db' k = md_outbox db k"
    and "md_jobs db' = md_jobs db \<and> md_pairs db' = md_pairs db \<and> md_receipts db' = md_receipts db"
    and "md_outbox db j \<noteq> None \<Longrightarrow> db' = db \<and> (\<exists>ce. completion = OutAlreadyRecorded ce)"
proof -
  have "(\<exists>ce. md_outbox db' j = Some ce \<and> ce_outcome ce = out \<and> ce_state_version ce = version)
    \<and> (\<forall>k. k \<noteq> j \<longrightarrow> md_outbox db' k = md_outbox db k)
    \<and> (md_jobs db' = md_jobs db \<and> md_pairs db' = md_pairs db \<and> md_receipts db' = md_receipts db)
    \<and> (md_outbox db j \<noteq> None \<longrightarrow> db' = db \<and> (\<exists>ce. completion = OutAlreadyRecorded ce))"
    using assms
    by (auto simp: insert_completion_def ms_checked_i64_def Let_def split: option.splits if_splits)
  then show "\<exists>ce. md_outbox db' j = Some ce \<and> ce_outcome ce = out \<and> ce_state_version ce = version"
    "\<And>k. k \<noteq> j \<Longrightarrow> md_outbox db' k = md_outbox db k"
    "md_jobs db' = md_jobs db \<and> md_pairs db' = md_pairs db \<and> md_receipts db' = md_receipts db"
    "md_outbox db j \<noteq> None \<Longrightarrow> db' = db \<and> (\<exists>ce. completion = OutAlreadyRecorded ce)" by blast+
qed

text \<open>
  What a successful completion leaves: nothing changed when the row already was the terminal
  snapshot, else the row of a job that had not ended, one version on.
\<close>

lemma complete_applied:
  assumes ok: "md_ok env db"
    and complete: "complete_derivation_job env db expected nxt now = Inr (db', stored, completion)"
  obtains row where "find_row db (dj_job_id (de_spec nxt)) = Some row" and "md_ok env db'"
    and "sd_snapshot stored = nxt" and "der_is_terminal (de_state nxt)"
    and "dr_snapshot row = nxt \<and> db' = db
      \<or> \<not> der_is_terminal (de_state (dr_snapshot row)) \<and> der_wf nxt \<and> de_spec nxt = dr_spec row
        \<and> de_version (dr_snapshot row) = expected \<and> unat (de_version nxt) = unat expected + 1
        \<and> (\<exists>new. de_checkpoints nxt = de_checkpoints (dr_snapshot row) @ new)
        \<and> (\<forall>k. find_row db' k = (if k = dj_job_id (de_spec nxt) then Some (advanced_row row nxt now)
             else find_row db k))"
proof -
  let ?j = "dj_job_id (de_spec nxt)"
  from complete obtain cur db1 db2 recorded db3 where ended: "der_is_terminal (de_state nxt)"
    and cur: "require_derivation env db ?j = Inr cur"
    and persist: "(if sd_snapshot cur = nxt then Inr db
      else persist_derivation_snapshot db cur expected nxt now) = Inr db1"
    and receipt: "(if de_state nxt = DerDerivedVerified then
                (case de_completion nxt of
                   None \<Rightarrow> Inl (MsConflict ''derived_verified snapshot has no completion evidence'')
                 | Some c \<Rightarrow> and_then (receipt_from_completion (se_codec env) ?j c)
                     (insert_derived_receipt db1))
              else and_then (ensure (de_completion nxt = None)
                (MsConflict ''non-success terminal derivation carries completion evidence''))
                (\<lambda>_. Inr (db1, False))) = Inr (db2, recorded)"
    and outbox: "insert_completion db2 ?j nxt (de_version nxt) now = Inr (db3, completion)"
    and bump: "(if sd_snapshot cur \<noteq> nxt \<or> recorded
                \<or> (case completion of OutRecorded _ \<Rightarrow> True | _ \<Rightarrow> False)
              then bump_revision db3 else Inr db3) = Inr db'"
    and stored: "require_derivation env db' ?j = Inr stored"
    by (auto simp: complete_derivation_job_def Let_def elim!: and_then_InrE simp del: and_then_Inr)
  obtain row where row: "find_row db ?j = Some row" and cur_eq: "cur = stored_of row"
    using cur unfolding require_derivation_ok [OF ok] by blast
  note r = md_ok_row [OF ok row] and o = insert_completion_Inr [OF outbox]
  have snap: "sd_snapshot cur = dr_snapshot row" by (simp add: cur_eq stored_of_def)
  have rec: "receipts_extend db1 db2 \<and> md_jobs db2 = md_jobs db1 \<and> md_pairs db2 = md_pairs db1
    \<and> md_outbox db2 = md_outbox db1 \<and> (\<not> recorded \<longrightarrow> db2 = db1)
    \<and> receipt_agrees (se_codec env) db2 ?j nxt
    \<and> (receipt_agrees (se_codec env) db1 ?j nxt \<longrightarrow> \<not> recorded)"
  proof (cases "de_state nxt = DerDerivedVerified")
    case True
    with receipt obtain c rc where c: "de_completion nxt = Some c"
      "receipt_from_completion (se_codec env) ?j c = Inr rc"
      "insert_derived_receipt db1 rc = Inr (db2, recorded)"
      by (auto elim!: and_then_InrE simp del: and_then_Inr split: option.splits)
    note i = insert_receipt_Inr [OF c(3)]
    from True c(1,2) i show ?thesis by (auto simp: receipt_agrees_def)
  next
    case False
    with receipt show ?thesis
      by (auto simp: receipt_agrees_def receipts_extend_def elim!: and_then_InrE simp del: and_then_Inr)
  qed
  show thesis
  proof (cases "dr_snapshot row = nxt")
    case True
    have db1: "db1 = db" using persist True snap by simp
    have "md_outbox db ?j \<noteq> None"
      using r(2,3) ended True by (auto simp: outbox_row_ok_def split: option.splits)
    moreover have "receipt_agrees (se_codec env) db ?j nxt"
      using r(1,3) True by (simp add: row_ok_def)
    ultimately have "db' = db" using rec o(4) bump True snap db1 by auto
    moreover have "sd_snapshot stored = nxt"
      using stored row True unfolding \<open>db' = db\<close> require_derivation_ok [OF ok]
      by (simp add: stored_of_def)
    ultimately show thesis using row ok ended True by (intro that [of row]) auto
  next
    case False
    then have persist: "persist_derivation_snapshot db (stored_of row) expected nxt now = Inr db1"
      using persist snap by (simp add: cur_eq)
    note p = persist_Inr [OF persist] and pr = persist_row [OF ok row persist]
    from bump False snap obtain v where v: "db' = db3\<lparr>md_revision := v\<rparr>"
      using bump_revision_Inr by auto
    have receipts: "receipts_extend db db3"
      using rec o(3) by (auto simp: receipts_extend_def p(8) find_receipt_def)
    have ok3: "md_ok env db3"
    proof (rule md_ok_advance [OF ok row _ _ receipts])
      show "md_jobs db3 = update_row ?j (\<lambda>r. advanced_row r nxt now) (md_jobs db)"
        using rec o(3) by (simp add: p(8))
      show "md_pairs db3 k = md_pairs db k \<and> md_outbox db3 k = md_outbox db k" if "k \<noteq> ?j" for k
        using that rec o(2,3) by (simp add: p(8))
      show "row_ok env db3 (advanced_row row nxt now)"
        using pr(1-3) rec o(3) r(3) receipt_agrees_receipts [of db3 db2] by (auto simp: row_ok_def)
      show "outbox_row_ok db3 (advanced_row row nxt now)"
        using o(1) ended r(3) by (auto simp: outbox_row_ok_def)
    qed
    then have ok': "md_ok env db'" by (simp add: v)
    have found: "find_row db' k = (if k = ?j then Some (advanced_row row nxt now) else find_row db k)" for k
      using row rec o(3) unfolding v by (simp add: find_row_def find_update_row p(8))
    have "sd_snapshot stored = nxt"
      using stored found [of ?j] unfolding require_derivation_ok [OF ok'] by (simp add: stored_of_def)
    with row ended ok' found pr(1) p(1-4) monotone_pairsD(1) [OF p(6)] show thesis
      by (intro that [of row]) (auto simp: stored_of_def)
  qed
qed

lemma acknowledge_keeps_md_ok:
  assumes ok: "md_ok env db" and ack: "acknowledge_derivation_completion db j now = Inr (db', out)"
  shows "md_ok env db'" and "find_row db' k = find_row db k"
proof -
  obtain db1 where db1: "acknowledge_completion_row db j now = (db1, out)"
    "db' = db1 \<or> (\<exists>v. db' = db1\<lparr>md_revision := v\<rparr>)"
    using ack bump_revision_Inr
    by (fastforce simp: acknowledge_derivation_completion_def elim!: and_then_InrE
        simp del: and_then_Inr split: prod.splits acknowledge_outcome.splits)
  then consider "db1 = db"
    | ce where "md_outbox db j = Some ce"
        "db1 = db\<lparr>md_outbox := (md_outbox db)(j \<mapsto> ce\<lparr>ce_acknowledged_at := Some now\<rparr>)\<rparr>"
    by (auto simp: acknowledge_completion_row_def Let_def split: option.splits if_splits)
  then have "md_ok env db1 \<and> md_jobs db1 = md_jobs db"
  proof cases
    case 1
    with ok show ?thesis by simp
  next
    case 2
    have "row_ok env db1 row \<and> outbox_row_ok db1 row" if "row \<in> set (md_jobs db)" for row
      using ok that 2 receipt_agrees_receipts [of db1 db]
      by (auto simp: md_ok_def row_ok_def outbox_row_ok_def)
    moreover have "md_outbox db1 k = None" if "k \<notin> set (map dr_job_id (md_jobs db))" for k
      using ok that 2 by (auto simp: md_ok_def)
    ultimately show ?thesis using ok 2 by (auto simp: md_ok_def)
  qed
  with db1(2) show "md_ok env db'" "find_row db' k = find_row db k"
    by (auto simp: find_row_def)
qed

lemma create_keeps_md_ok:
  assumes ok: "md_ok env db" and create: "create_derivation_job env db spec now = Inr (db', out)"
  shows "md_ok env db'" and "find_row db k = Some row \<Longrightarrow> find_row db' k = Some row"
proof -
  consider (old) "db' = db"
    | (new) initial v where "new_derivation_job spec = Inr initial"
        "find_row db (dj_job_id spec) = None"
        "db' = db\<lparr>md_jobs := md_jobs db @ [new_derivation_row env initial now], md_revision := v\<rparr>"
    using create bump_revision_Inr
    by (fastforce simp: create_derivation_job_def Let_def elim!: and_then_InrE
        simp del: and_then_Inr split: sum.splits option.splits if_splits)
  then have "md_ok env db' \<and> (find_row db k = Some row \<longrightarrow> find_row db' k = Some row)"
  proof cases
    case old
    with ok show ?thesis by simp
  next
    case new
    let ?row = "new_derivation_row env initial now"
    have spec: "de_spec initial = spec" "de_state initial = DerQueued" "de_checkpoints initial = []"
      using new(1) by (auto simp: new_derivation_job_def)
    have wf: "der_wf initial" using new_derivation_inv [OF new(1)] by (simp add: der_inv_def)
    have j: "dr_job_id ?row = dj_job_id spec" "dr_snapshot ?row = initial"
      by (simp_all add: new_derivation_row_def Let_def spec)
    have fresh: "dj_job_id spec \<notin> set (map dr_job_id (md_jobs db))"
      using new(2) by (simp only: find_row_None) simp
    have none: "md_pairs db (dj_job_id spec) = []" "md_outbox db (dj_job_id spec) = None"
      using ok fresh unfolding md_ok_def by blast+
    have "row_indexed env ?row"
      by (simp add: row_indexed_def new_derivation_row_def Let_def spec)
    then have new_ok: "row_ok env db' ?row" "outbox_row_ok db' ?row"
      using wf none by (simp_all add: row_ok_def outbox_row_ok_def j spec new(3) receipt_agrees_def)
    have old_ok: "row_ok env db' x \<and> outbox_row_ok db' x" if "x \<in> set (md_jobs db)" for x
      using ok that receipt_agrees_receipts [of db' db]
      by (simp add: md_ok_def row_ok_def outbox_row_ok_def new(3))
    have "find P xs = Some y \<Longrightarrow> find P (xs @ [z]) = Some y" for P and xs :: "derivation_row list" and y z
      by (induction xs) auto
    then have "find_row db k = Some row \<longrightarrow> find_row db' k = Some row"
      by (simp add: find_row_def new(3))
    moreover have "md_ok env db'"
      using ok fresh new_ok old_ok by (auto simp: md_ok_def new(3) j)
    ultimately show ?thesis by simp
  qed
  then show "md_ok env db'" "find_row db k = Some row \<Longrightarrow> find_row db' k = Some row" by simp_all
qed

section \<open>Histories\<close>

inductive md_step :: "store_env \<Rightarrow> media_db \<Rightarrow> media_db \<Rightarrow> bool" for env where
  md_create: "create_derivation_job env db spec now = Inr (db', created) \<Longrightarrow> md_step env db db'"
| md_swap: "compare_and_swap_derivation_snapshot env db expected nxt now = Inr (db', swapped)
    \<Longrightarrow> md_step env db db'"
| md_complete: "complete_derivation_job env db expected nxt now = Inr (db', stored, completion)
    \<Longrightarrow> md_step env db db'"
| md_acknowledge: "acknowledge_derivation_completion db j now = Inr (db', acknowledged)
    \<Longrightarrow> md_step env db db'"

inductive md_history :: "store_env \<Rightarrow> media_db \<Rightarrow> media_db \<Rightarrow> bool" for env where
  md_here: "md_history env db db"
| md_next: "md_history env db db' \<Longrightarrow> md_step env db' db'' \<Longrightarrow> md_history env db db''"

text \<open>How a row may have changed: not at all, or forward, and only from a job that had not ended.\<close>

definition derivation_row_later :: "derivation_row \<Rightarrow> derivation_row \<Rightarrow> bool" where
  "derivation_row_later row row' \<longleftrightarrow>
     row' = row
     \<or> \<not> der_is_terminal (de_state (dr_snapshot row)) \<and> dr_spec row' = dr_spec row
       \<and> unat (de_version (dr_snapshot row)) < unat (de_version (dr_snapshot row'))
       \<and> (\<exists>new. de_checkpoints (dr_snapshot row') = de_checkpoints (dr_snapshot row) @ new)"

lemma derivation_row_later_trans:
  assumes "derivation_row_later a b" and "derivation_row_later b c"
  shows "derivation_row_later a c"
  using assms unfolding derivation_row_later_def by (elim disjE conjE exE) auto

lemma md_step_keeps:
  assumes "md_step env db db'" and ok: "md_ok env db"
  shows "md_ok env db' \<and> (\<forall>k row. find_row db k = Some row
    \<longrightarrow> (\<exists>row'. find_row db' k = Some row' \<and> derivation_row_later row row'))"
  using assms(1)
proof cases
  case (md_create spec now created)
  from create_keeps_md_ok [OF ok this] show ?thesis by (auto simp: derivation_row_later_def)
next
  case (md_swap expected nxt now swapped)
  show ?thesis
  proof (cases swapped)
    case (SwapApplied stored)
    from cas_applied [OF ok md_swap [unfolded SwapApplied]] obtain row where
      row: "find_row db (dj_job_id (de_spec nxt)) = Some row"
      "\<not> der_is_terminal (de_state (dr_snapshot row))"
      "de_version (dr_snapshot row) = expected" "unat (de_version nxt) = unat expected + 1"
      "\<exists>new. de_checkpoints nxt = de_checkpoints (dr_snapshot row) @ new" "md_ok env db'"
      and found: "\<And>k. find_row db' k = (if k = dj_job_id (de_spec nxt)
        then Some (advanced_row row nxt now) else find_row db k)"
      by metis
    then show ?thesis by (auto simp: derivation_row_later_def found)
  next
    case (SwapAlreadyApplied stored)
    with md_swap have "db' = db"
      by (auto simp: compare_and_swap_derivation_snapshot_def elim!: and_then_InrE
          simp del: and_then_Inr split: if_splits)
    with ok show ?thesis by (simp add: derivation_row_later_def)
  qed
next
  case (md_complete expected nxt now stored completion)
  from complete_applied [OF ok this] show ?thesis
  proof cases
    case (1 row)
    from 1(5) show ?thesis
    proof
      assume "dr_snapshot row = nxt \<and> db' = db"
      with ok show ?thesis by (simp add: derivation_row_later_def)
    next
      assume "\<not> der_is_terminal (de_state (dr_snapshot row)) \<and> der_wf nxt \<and> de_spec nxt = dr_spec row
        \<and> de_version (dr_snapshot row) = expected \<and> unat (de_version nxt) = unat expected + 1
        \<and> (\<exists>new. de_checkpoints nxt = de_checkpoints (dr_snapshot row) @ new)
        \<and> (\<forall>k. find_row db' k = (if k = dj_job_id (de_spec nxt) then Some (advanced_row row nxt now)
             else find_row db k))"
      with 1(1,2) show ?thesis by (auto simp: derivation_row_later_def)
    qed
  qed
next
  case (md_acknowledge j now acknowledged)
  from acknowledge_keeps_md_ok [OF ok this] show ?thesis by (simp add: derivation_row_later_def)
qed

lemma md_history_keeps:
  assumes "md_history env db db'" and "md_ok env db"
  shows "md_ok env db' \<and> (\<forall>k row. find_row db k = Some row
    \<longrightarrow> (\<exists>row'. find_row db' k = Some row' \<and> derivation_row_later row row'))"
  using assms
proof induction
  case (md_here db)
  then show ?case by (simp add: derivation_row_later_def)
next
  case (md_next db db' db'')
  then have ih: "md_ok env db'" "\<And>k row. find_row db k = Some row
    \<Longrightarrow> \<exists>row'. find_row db' k = Some row' \<and> derivation_row_later row row'" by blast+
  note s = md_step_keeps [OF md_next(2) ih(1)]
  have "\<exists>row''. find_row db'' k = Some row'' \<and> derivation_row_later row row''"
    if k: "find_row db k = Some row" for k row
  proof -
    from ih(2) [OF k] obtain row' where "find_row db' k = Some row'" "derivation_row_later row row'" by blast
    with s derivation_row_later_trans show ?thesis by blast
  qed
  with s show ?case by blast
qed

section \<open>A sample history\<close>

definition sample_store_env :: store_env where
  "sample_store_env = \<lparr>se_codec = constant_codec, se_request_digest = (\<lambda>_. ''digest'')\<rparr>"

definition sample_created_db :: media_db where
  "sample_created_db = empty_media_db
     \<lparr>md_jobs := [new_derivation_row sample_store_env sample_derivation ''t0''], md_revision := 1\<rparr>"

definition sample_cancelled :: derivation_job where
  "sample_cancelled = sample_derivation\<lparr>de_state := DerCancelled, de_version := 2\<rparr>"

definition sample_cancelled_db :: media_db where
  "sample_cancelled_db = sample_created_db
     \<lparr>md_jobs := [advanced_row (new_derivation_row sample_store_env sample_derivation ''t0'')
         sample_cancelled ''t1''],
      md_outbox := (\<lambda>_. None)(''d1'' \<mapsto>
        \<lparr>ce_sequence = 1, ce_job_id = ''d1'', ce_outcome = sample_cancelled, ce_state_version = 2,
         ce_recorded_at = ''t1'', ce_acknowledged_at = None\<rparr>),
      md_sequence := 1, md_revision := 2\<rparr>"

lemma sample_row_found:
  "find_row sample_created_db ''d1'' = Some (new_derivation_row sample_store_env sample_derivation ''t0'')"
  "find_row sample_cancelled_db ''d1'' = Some (advanced_row
     (new_derivation_row sample_store_env sample_derivation ''t0'') sample_cancelled ''t1'')"
  by (simp_all add: sample_created_db_def sample_cancelled_db_def find_row_def new_derivation_row_def
      Let_def sample_derivation_def sample_derivation_spec_def)

lemma sample_cancelled_wf: "der_wf sample_cancelled"
  using sample_derivation_ready
  by (simp add: der_ready_def der_inv_def der_wf_def sample_cancelled_def sample_derivation_def
      completion_ok_def)

lemma sample_rows_read:
  "require_derivation sample_store_env sample_created_db ''d1''
     = Inr (stored_of (new_derivation_row sample_store_env sample_derivation ''t0''))"
  "require_derivation sample_store_env sample_cancelled_db ''d1''
     = Inr (stored_of (advanced_row
         (new_derivation_row sample_store_env sample_derivation ''t0'') sample_cancelled ''t1''))"
proof -
  have id: "dr_job_id (new_derivation_row sample_store_env sample_derivation ''t0'') = ''d1''"
    by (simp add: new_derivation_row_def Let_def sample_derivation_def sample_derivation_spec_def)
  have "row_ok sample_store_env sample_created_db
      (new_derivation_row sample_store_env sample_derivation ''t0'')"
    using sample_derivation_ready
    by (simp add: der_ready_def der_inv_def row_ok_def row_indexed_def new_derivation_row_def Let_def
        sample_created_db_def empty_media_db_def receipt_agrees_def)
       (simp add: sample_derivation_def)
  from read_derivation_ok [OF this, unfolded id, OF sample_row_found(1)]
  show "require_derivation sample_store_env sample_created_db ''d1''
     = Inr (stored_of (new_derivation_row sample_store_env sample_derivation ''t0''))"
    by (simp add: require_derivation_def)
  have "row_ok sample_store_env sample_cancelled_db (advanced_row
      (new_derivation_row sample_store_env sample_derivation ''t0'') sample_cancelled ''t1'')"
    using sample_cancelled_wf
    by (simp add: row_ok_def row_indexed_def new_derivation_row_def Let_def advanced_row_def
        sample_cancelled_db_def sample_created_db_def empty_media_db_def receipt_agrees_def
        sample_cancelled_def sample_derivation_def sample_derivation_spec_def)
  from read_derivation_ok [OF this, simplified, unfolded id, OF sample_row_found(2)]
  show "require_derivation sample_store_env sample_cancelled_db ''d1''
     = Inr (stored_of (advanced_row
         (new_derivation_row sample_store_env sample_derivation ''t0'') sample_cancelled ''t1''))"
    by (simp add: require_derivation_def)
qed

lemma sample_created_step:
  "create_derivation_job sample_store_env empty_media_db sample_derivation_spec ''t0''
     = Inr (sample_created_db,
         DerCreated (stored_of (new_derivation_row sample_store_env sample_derivation ''t0'')))"
proof -
  have "bump_revision (empty_media_db
        \<lparr>md_jobs := [new_derivation_row sample_store_env sample_derivation ''t0'']\<rparr>)
      = Inr sample_created_db"
    by (simp add: bump_revision_def empty_media_db_def sample_created_db_def)
  moreover have "dj_job_id sample_derivation_spec = ''d1''" "de_version sample_derivation = 1"
    by (simp_all add: sample_derivation_spec_def sample_derivation_def)
  ultimately show ?thesis
    using sample_rows_read(1)
    by (simp add: create_derivation_job_def sample_derivation_new Let_def cd_store_def
        ms_non_empty_def ms_checked_i64_def fits_i64_def ensure_def find_row_def empty_media_db_def)
qed

lemma sample_cancelled_step:
  "complete_derivation_job sample_store_env sample_created_db 1 sample_cancelled ''t1''
     = Inr (sample_cancelled_db,
         stored_of (advanced_row (new_derivation_row sample_store_env sample_derivation ''t0'')
           sample_cancelled ''t1''),
         OutRecorded \<lparr>ce_sequence = 1, ce_job_id = ''d1'', ce_outcome = sample_cancelled,
           ce_state_version = 2, ce_recorded_at = ''t1'', ce_acknowledged_at = None\<rparr>)"
proof -
  have c: "dj_job_id (de_spec sample_cancelled) = ''d1''" "de_state sample_cancelled = DerCancelled"
    "de_version sample_cancelled = 2" "de_completion sample_cancelled = None"
    "de_checkpoints sample_cancelled = []"
    by (simp_all add: sample_cancelled_def sample_derivation_def sample_derivation_spec_def)
  let ?row = "new_derivation_row sample_store_env sample_derivation ''t0''"
  let ?db = "sample_created_db\<lparr>md_jobs := [advanced_row ?row sample_cancelled ''t1'']\<rparr>"
  have row: "sd_snapshot (stored_of ?row) = sample_derivation" "dr_job_id ?row = ''d1''"
    "dr_state_version ?row = 1" "sd_spec (stored_of ?row) = de_spec sample_cancelled"
    by (simp_all add: new_derivation_row_def Let_def stored_of_def sample_derivation_def
        sample_derivation_spec_def sample_cancelled_def)
  have d: "de_state sample_derivation = DerQueued" "de_version sample_derivation = 1"
    "de_checkpoints sample_derivation = []" "sample_derivation \<noteq> sample_cancelled"
    by (simp_all add: sample_derivation_def sample_cancelled_def)
  have "persist_derivation_snapshot sample_created_db (stored_of ?row) 1 sample_cancelled ''t1'' = Inr ?db"
    using rehydrate_wf [OF sample_cancelled_wf]
    by (simp add: persist_derivation_snapshot_def Let_def c row d ms_non_empty_def ensure_def
        checked_add_def ms_checked_i64_def fits_i64_def monotone_pairs_def option_ok_def
        sample_created_db_def empty_media_db_def update_row_def advanced_row_def fun_upd_idem)
  then show ?thesis
    using sample_rows_read
    by (simp add: complete_derivation_job_def Let_def c row d ms_non_empty_def ensure_def
        insert_completion_def ms_checked_i64_def fits_i64_def bump_revision_def
        sample_created_db_def empty_media_db_def sample_cancelled_db_def)
qed

lemma sample_created_history: "md_history sample_store_env empty_media_db sample_created_db"
  using sample_created_step by (blast intro: md_history.intros md_step.intros)

lemma sample_cancelled_history: "md_history sample_store_env sample_created_db sample_cancelled_db"
  using sample_cancelled_step by (blast intro: md_history.intros md_step.intros)

section \<open>Properties\<close>



text \<open>
  C15. What the store has accepted of a job stays: in every later database its row is the same,
  or (only when it had not ended) a row of the same spec with a higher version whose checkpoints
  extend the earlier ones. A terminal row never changes again.
\<close>

theorem derivation_evidence_kept:
  assumes "md_history env empty_media_db db" and "md_history env db db'"
    and "find_row db j = Some row"
  shows "\<exists>row'. find_row db' j = Some row' \<and>
    (row' = row
     \<or> \<not> der_is_terminal (de_state (dr_snapshot row)) \<and> dr_spec row' = dr_spec row
       \<and> unat (de_version (dr_snapshot row)) < unat (de_version (dr_snapshot row'))
       \<and> (\<exists>new. de_checkpoints (dr_snapshot row') = de_checkpoints (dr_snapshot row) @ new))"
  using md_history_keeps [OF assms(2)] md_history_keeps [OF assms(1) empty_media_db_ok] assms(3)
  unfolding derivation_row_later_def by blast

theorem derivation_evidence_kept_witness:
  "\<exists>row'. find_row sample_cancelled_db ''d1'' = Some row' \<and> de_state (dr_snapshot row') = DerCancelled
     \<and> unat (de_version (dr_snapshot row')) > 1"
  using derivation_evidence_kept [OF sample_created_history sample_cancelled_history sample_row_found(1)]
  by (auto simp: sample_row_found advanced_row_def sample_cancelled_def sample_derivation_def)

text \<open>
  Recording the end of a job can be repeated: the same completion asked for again, at any
  later time, succeeds, returns the same job, says it was already recorded and changes nothing.
\<close>

theorem completion_can_be_repeated:
  assumes "md_history env empty_media_db db"
    and "complete_derivation_job env db expected nxt now = Inr (db', stored, completion)"
    and "later \<noteq> []"
  shows "\<exists>ce. complete_derivation_job env db' expected nxt later = Inr (db', stored, OutAlreadyRecorded ce)
    \<and> ce_outcome ce = nxt"
proof -
  have ok: "md_ok env db" using md_history_keeps [OF assms(1) empty_media_db_ok] by blast
  let ?j = "dj_job_id (de_spec nxt)"
  from complete_applied [OF ok assms(2)] have ok': "md_ok env db'"
    and snap: "sd_snapshot stored = nxt" and ended: "der_is_terminal (de_state nxt)" by blast+
  have stored: "require_derivation env db' ?j = Inr stored"
    using assms(2) by (auto simp: complete_derivation_job_def Let_def elim!: and_then_InrE
        simp del: and_then_Inr)
  then obtain row where row: "find_row db' ?j = Some row" "stored = stored_of row"
    unfolding require_derivation_ok [OF ok'] by blast
  note r = md_ok_row [OF ok' row(1)]
  have s: "dr_snapshot row = nxt" using snap row(2) by (simp add: stored_of_def)
  obtain ce where ce: "md_outbox db' ?j = Some ce" "ce_outcome ce = nxt"
    "ce_state_version ce = de_version nxt"
    using r(2,3) s ended by (auto simp: outbox_row_ok_def split: option.splits)
  have agrees: "receipt_agrees (se_codec env) db' ?j nxt" and wf: "der_wf nxt"
    using r(1,3) s by (simp_all add: row_ok_def)
  have "complete_derivation_job env db' expected nxt later = Inr (db', stored, OutAlreadyRecorded ce)"
  proof (cases "de_state nxt = DerDerivedVerified")
    case True
    with agrees obtain c rc where "de_completion nxt = Some c"
      "receipt_from_completion (se_codec env) ?j c = Inr rc"
      "find_receipt db' (rc_derived_revision rc) = Some rc"
      by (auto simp: receipt_agrees_def split: option.splits sum.splits)
    with True stored snap ce ended assms(3) show ?thesis
      by (simp add: complete_derivation_job_def ms_non_empty_def insert_derived_receipt_def
          insert_completion_def Let_def ensure_def)
  next
    case False
    then have "de_completion nxt = None" using wf by (simp add: der_wf_def completion_ok_def)
    with False stored snap ce ended assms(3) show ?thesis
      by (simp add: complete_derivation_job_def ms_non_empty_def insert_completion_def Let_def ensure_def)
  qed
  with ce(2) show ?thesis by blast
qed

theorem completion_can_be_repeated_witness:
  "\<exists>ce stored. complete_derivation_job sample_store_env sample_cancelled_db 1 sample_cancelled ''t2''
      = Inr (sample_cancelled_db, stored, OutAlreadyRecorded ce) \<and> ce_outcome ce = sample_cancelled"
  using completion_can_be_repeated [OF sample_created_history sample_cancelled_step, of "''t2''"] by auto

text \<open>
  A restart finds every job that has not ended, in the order of creation, with the last
  snapshot accepted of it; no row is ever reported as blocked by corrupt or missing evidence.
\<close>

theorem recovery_lists_live_jobs:
  assumes "md_history env empty_media_db db"
  shows "list_recoverable_derivations env db
    = Inr (map (\<lambda>row. RcReady (stored_of row))
        (by_creation (filter (\<lambda>r. \<not> der_is_terminal (de_state (dr_snapshot r))) (md_jobs db))))"
proof -
  have ok: "md_ok env db" using md_history_keeps [OF assms empty_media_db_ok] by blast
  let ?rows = "by_creation (filter (\<lambda>r. \<not> dr_is_terminal r) (md_jobs db))"
  have row: "recover_row env db (dr_job_id r) = Inr (RcReady (stored_of r))"
    if "r \<in> set (md_jobs db)" for r
    using that ok find_row_Some [of db "dr_job_id r" r] read_derivation_ok [of env db r]
    by (simp add: recover_row_def md_ok_def)
  have flags: "dr_is_terminal r = der_is_terminal (de_state (dr_snapshot r))"
    if "r \<in> set (md_jobs db)" for r
    using that ok by (simp add: md_ok_def row_ok_def row_indexed_def)
  have "map (recover_row env db) (map dr_job_id ?rows)
    = map (\<lambda>r. Inr (RcReady (stored_of r))) ?rows"
    using row by (simp add: by_creation_def)
  moreover have "filter (\<lambda>r. \<not> dr_is_terminal r) (md_jobs db)
    = filter (\<lambda>r. \<not> der_is_terminal (de_state (dr_snapshot r))) (md_jobs db)"
    using flags by (intro filter_cong) simp_all
  ultimately show ?thesis by (simp only: list_recoverable_derivations_def collect_results_Inr)
qed

theorem recovery_lists_live_jobs_witness:
  "list_recoverable_derivations sample_store_env sample_created_db
     = Inr [RcReady (stored_of (new_derivation_row sample_store_env sample_derivation ''t0''))]"
  using recovery_lists_live_jobs [OF sample_created_history]
  by (simp add: sample_created_db_def by_creation_def new_derivation_row_def Let_def
      sample_derivation_def)

end
