(* ===== verification/Normalizer.thy ===== *)
theory Normalizer
  imports Derivation_Store
begin

text \<open>
  The executor of derivation jobs (\<open>media_normalizer/engine.rs\<close>, the repository of
  \<open>media_normalizer/store.rs\<close> and the control of a running process of
  \<open>media_normalizer/control.rs\<close>): one command is decided under the mutex of its job and its
  effects are carried out one after the other against the store of \<open>Derivation_Store\<close>, with
  every failure on the way. What lies outside (SQLite, the clock, SHA-256, the staging
  directories, the scheduler) is a parameter.
\<close>

section \<open>Ports\<close>

text \<open>The code of an error; its message is for a log.\<close>

datatype port_error = PortError string

datatype normalizer_error =
    NzNotFound
  | NzWorker string
  | NzRejected derivation_reject_reason
  | NzStale u64 u64
  | NzRepository port_error
  | NzResourceStuck
  | NzShuttingDown

datatype snapshot_swap_outcome =
    SnapApplied derivation_job | SnapAlreadyApplied derivation_job | SnapStale derivation_job
  | SnapMissing

record commit_evidence =
  ev_manifest_sha256 :: string
  ev_output_inventory_sha256 :: string
  ev_local_relative_path :: string
  ev_local_commit_receipt :: string

record commit_context =
  cx_manifest :: derived_manifest
  cx_evidence :: commit_evidence

text \<open>
  The outside world of the executor. The transaction that takes a job on from a version may
  fail in SQLite, and the clock is asked once for it.
\<close>

record nz_env =
  nz_store :: store_env
  nz_sqlite_ok :: "u64 \<Rightarrow> bool"
  nz_clock :: "u64 \<Rightarrow> string"
  nz_sha256 :: "string \<Rightarrow> string"
  nz_inventory_sha256 :: "derived_output_entry list \<Rightarrow> string"
  nz_discard_ok :: "derivation_job_id \<Rightarrow> u32 \<Rightarrow> bool"
  nz_enqueue_ok :: "derivation_job_id \<Rightarrow> bool"

text \<open>The store, the stop flag and the activity of the process of each job, and two logs.\<close>

record nz_world =
  nw_db :: media_db
  nw_stop :: "derivation_job_id \<Rightarrow> process_stop_reason option"
  nw_active :: "derivation_job_id \<Rightarrow> bool"
  nw_discarded :: "(derivation_job_id \<times> u32) list"
  nw_queue :: "derivation_job_id list"

section \<open>The repository\<close>

definition store_error :: "media_store_error \<Rightarrow> port_error" where
  "store_error e = PortError ''media_store''"

definition load_derivation ::
    "nz_env \<Rightarrow> nz_world \<Rightarrow> derivation_job_id \<Rightarrow> normalizer_error + derivation_job option" where
  "load_derivation env w j =
     (case read_derivation (nz_store env) (nw_db w) j of
        Inl e \<Rightarrow> Inl (NzRepository (store_error e))
      | Inr None \<Rightarrow> Inr None
      | Inr (Some stored) \<Rightarrow> Inr (Some (sd_snapshot stored)))"

definition map_cas_error ::
    "nz_env \<Rightarrow> media_db \<Rightarrow> derivation_job_id \<Rightarrow> u64 \<Rightarrow> media_store_error
     \<Rightarrow> port_error + snapshot_swap_outcome" where
  "map_cas_error env db j expected e =
     (case read_derivation (nz_store env) db j of
        Inr (Some current) \<Rightarrow>
          if de_version (sd_snapshot current) \<noteq> expected then Inr (SnapStale (sd_snapshot current))
          else Inl (store_error e)
      | _ \<Rightarrow> Inl (store_error e))"

text \<open>A transaction that fails leaves the database as it was.\<close>

definition in_sqlite :: "bool \<Rightarrow> media_store_error + 'a \<Rightarrow> media_store_error + 'a" where
  "in_sqlite ok r = (if ok then r else Inl (MsSqlite ''transaction failed''))"

definition nz_compare_and_swap ::
    "nz_env \<Rightarrow> media_db \<Rightarrow> u64 \<Rightarrow> derivation_job
     \<Rightarrow> media_db \<times> (port_error + snapshot_swap_outcome)" where
  "nz_compare_and_swap env db expected nxt =
     (case in_sqlite (nz_sqlite_ok env expected)
             (compare_and_swap_derivation_snapshot (nz_store env) db expected nxt
               (nz_clock env expected)) of
        Inr (db', SwapApplied stored) \<Rightarrow> (db', Inr (SnapApplied (sd_snapshot stored)))
      | Inr (db', SwapAlreadyApplied stored) \<Rightarrow> (db', Inr (SnapAlreadyApplied (sd_snapshot stored)))
      | Inl e \<Rightarrow> (db, map_cas_error env db (dj_job_id (de_spec nxt)) expected e))"

definition validate_commit_evidence ::
    "nz_env \<Rightarrow> derived_completion \<Rightarrow> derived_manifest \<Rightarrow> commit_evidence \<Rightarrow> port_error + unit" where
  "validate_commit_evidence env c m ev =
     ensure (\<not> (nz_sha256 env (dm_canonical_bytes m) \<noteq> ev_manifest_sha256 ev
         \<or> nz_inventory_sha256 env (mm_output_inventory (dm_material m)) \<noteq> ev_output_inventory_sha256 ev
         \<or> dc_derived_revision c \<noteq> dm_derived_revision m
         \<or> dc_local_relative_path c \<noteq> ev_local_relative_path ev
         \<or> dc_local_commit_receipt c \<noteq> ev_local_commit_receipt ev))
       (PortError ''commit_evidence_mismatch'')"

definition commit_derived_verified ::
    "nz_env \<Rightarrow> media_db \<Rightarrow> u64 \<Rightarrow> derivation_job \<Rightarrow> derived_completion \<Rightarrow> derived_manifest
     \<Rightarrow> commit_evidence \<Rightarrow> media_db \<times> (port_error + snapshot_swap_outcome)" where
  "commit_derived_verified env db expected nxt c m ev =
     (case validate_commit_evidence env c m ev of
        Inl e \<Rightarrow> (db, Inl e)
      | Inr _ \<Rightarrow>
          (case in_sqlite (nz_sqlite_ok env expected)
                  (complete_derivation_job (nz_store env) db expected nxt (nz_clock env expected)) of
             Inr (db', stored, OutRecorded _) \<Rightarrow> (db', Inr (SnapApplied (sd_snapshot stored)))
           | Inr (db', stored, OutAlreadyRecorded _) \<Rightarrow>
               (db', Inr (SnapAlreadyApplied (sd_snapshot stored)))
           | Inl e \<Rightarrow> (db, map_cas_error env db (dj_job_id (de_spec nxt)) expected e)))"

section \<open>Carrying out the effects\<close>

text \<open>The local variables of \<open>reduce_inner\<close>.\<close>

record nz_run =
  nr_world :: nz_world
  nr_domain :: derivation_job
  nr_after :: "derivation_job option"
  nr_dispatch :: bool
  nr_await :: bool
  nr_remove :: bool
  nr_stop :: "process_stop_reason option"

definition effect_expected_version :: "derivation_effect \<Rightarrow> u64" where
  "effect_expected_version e = (case effect_version e of Some v \<Rightarrow> v | None \<Rightarrow> 0)"

definition accept_swap ::
    "nz_run \<Rightarrow> u64 \<Rightarrow> media_db \<times> (port_error + snapshot_swap_outcome)
     \<Rightarrow> nz_run \<times> (normalizer_error + unit)" where
  "accept_swap run expected r =
     (case r of (db', outcome) \<Rightarrow>
        let run' = run\<lparr>nr_world := (nr_world run)\<lparr>nw_db := db'\<rparr>\<rparr>;
            accepted = (\<lambda>s. case rehydrate s of
                Inl e \<Rightarrow> (run', Inl (NzWorker ''rehydrate''))
              | Inr d \<Rightarrow> (run'\<lparr>nr_domain := d, nr_after := Some s\<rparr>, Inr ()))
        in case outcome of
             Inl e \<Rightarrow> (run', Inl (NzRepository e))
           | Inr (SnapApplied s) \<Rightarrow> accepted s
           | Inr (SnapAlreadyApplied s) \<Rightarrow> accepted s
           | Inr (SnapStale s) \<Rightarrow> (run', Inl (NzStale expected (de_version s)))
           | Inr SnapMissing \<Rightarrow> (run', Inl NzNotFound))"

fun perform_effect ::
    "nz_env \<Rightarrow> commit_context option \<Rightarrow> derivation_job_id \<Rightarrow> nz_run \<Rightarrow> derivation_effect
     \<Rightarrow> nz_run \<times> (normalizer_error + unit)" where
  "perform_effect env context j run (EfPublishCompletion v c to) =
     (case context of
        None \<Rightarrow> (run, Inl (NzWorker ''publish completion missing manifest context''))
      | Some cx \<Rightarrow>
          (case apply_committed_effect (nr_domain run) (EfPublishCompletion v c to) of
             Inl e \<Rightarrow> (run, Inl (NzWorker ''effect''))
           | Inr nxt \<Rightarrow>
               accept_swap run v (commit_derived_verified env (nw_db (nr_world run)) v nxt c
                 (cx_manifest cx) (cx_evidence cx))))"
| "perform_effect env context j run (EfRequestProcessStop reason) =
     (run\<lparr>nr_stop := Some reason,
          nr_world := (nr_world run)\<lparr>nw_stop := (nw_stop (nr_world run))(j \<mapsto> reason)\<rparr>\<rparr>, Inr ())"
| "perform_effect env context j run EfAwaitProcessReap = (run\<lparr>nr_await := True\<rparr>, Inr ())"
| "perform_effect env context j run (EfDiscardCurrentPartialPair i) =
     (if nz_discard_ok env j i
      then (run\<lparr>nr_world := (nr_world run)\<lparr>nw_discarded := nw_discarded (nr_world run) @ [(j, i)]\<rparr>\<rparr>,
            Inr ())
      else (run, Inl (NzWorker ''staging'')))"
| "perform_effect env context j run EfDispatch = (run\<lparr>nr_dispatch := True\<rparr>, Inr ())"
| "perform_effect env context j run EfRemoveJob = (run\<lparr>nr_remove := True\<rparr>, Inr ())"
| "perform_effect env context j run e =
     (case apply_committed_effect (nr_domain run) e of
        Inl _ \<Rightarrow> (run, Inl (NzWorker ''effect''))
      | Inr nxt \<Rightarrow>
          accept_swap run (effect_expected_version e)
            (nz_compare_and_swap env (nw_db (nr_world run)) (effect_expected_version e) nxt))"

fun perform_effects ::
    "nz_env \<Rightarrow> commit_context option \<Rightarrow> derivation_job_id \<Rightarrow> nz_run \<Rightarrow> derivation_effect list
     \<Rightarrow> nz_run \<times> (normalizer_error + unit)" where
  "perform_effects env context j run [] = (run, Inr ())"
| "perform_effects env context j run (e # es) =
     (case perform_effect env context j run e of
        (run', Inl err) \<Rightarrow> (run', Inl err)
      | (run', Inr _) \<Rightarrow> perform_effects env context j run' es)"

section \<open>One reduction\<close>

fun clears_stop :: "derivation_command \<Rightarrow> bool" where
  "clears_stop DerResume = True"
| "clears_stop DerSourceAvailable = True"
| "clears_stop _ = False"

text \<open>A command that is ignored returns at once; the others leave their local variables.\<close>

datatype nz_locked = LockedReturn derivation_job | LockedRun nz_run

text \<open>What \<open>reduce_inner\<close> does while it holds the mutex of the job.\<close>

definition reduce_locked ::
    "nz_env \<Rightarrow> derivation_job_id \<Rightarrow> derivation_command \<Rightarrow> commit_context option \<Rightarrow> nz_world
     \<Rightarrow> nz_world \<times> (normalizer_error + nz_locked)" where
  "reduce_locked env j cmd context w =
     (case load_derivation env w j of
        Inl e \<Rightarrow> (w, Inl e)
      | Inr None \<Rightarrow> (w, Inl NzNotFound)
      | Inr (Some stored) \<Rightarrow>
          let w1 = (if clears_stop cmd then w\<lparr>nw_stop := (nw_stop w)(j := None)\<rparr> else w)
          in (case rehydrate stored of
                Inl _ \<Rightarrow> (w1, Inl (NzWorker ''rehydrate''))
              | Inr domain \<Rightarrow>
                  (case der_decide domain cmd of
                     DerRejected reason \<Rightarrow> (w1, Inl (NzRejected reason))
                   | DerNoOp \<Rightarrow> (w1, Inr (LockedReturn stored))
                   | DerAccepted effects \<Rightarrow>
                       (case perform_effects env context j
                               \<lparr>nr_world = w1, nr_domain = domain, nr_after = None,
                                nr_dispatch = False, nr_await = False, nr_remove = False,
                                nr_stop = None\<rparr> effects of
                          (run, Inl e) \<Rightarrow> (nr_world run, Inl e)
                        | (run, Inr _) \<Rightarrow>
                            let run' = (if nr_remove run
                              then run\<lparr>nr_world := (nr_world run)
                                \<lparr>nw_stop := (nw_stop (nr_world run))(j := None),
                                 nw_active := (nw_active (nr_world run))(j := False)\<rparr>\<rparr>
                              else run)
                            in (nr_world run', Inr (LockedRun run'))))))"

text \<open>
  What follows once the mutex is released: waiting for a process that is still active,
  handing the job to the scheduler, reading the job again. \<open>others\<close> is what the other
  threads do during the wait, and whether the process is idle before the deadline.
\<close>

definition finish_reduction ::
    "nz_env \<Rightarrow> (nz_world \<Rightarrow> nz_world \<times> bool) \<Rightarrow> derivation_job_id \<Rightarrow> bool \<Rightarrow> bool \<Rightarrow> bool
     \<Rightarrow> derivation_job option \<Rightarrow> nz_world
     \<Rightarrow> nz_world \<times> (normalizer_error + derivation_job option)" where
  "finish_reduction env others j await dispatch schedule after w =
     (case (if await \<and> nw_active w j then others w else (w, True)) of
        (w1, idle) \<Rightarrow>
          if \<not> idle then (w1, Inl NzResourceStuck)
          else if dispatch \<and> schedule \<and> \<not> nz_enqueue_ok env j
          then (w1, Inl (NzRepository (PortError ''scheduler'')))
          else
            let w2 = (if dispatch \<and> schedule then w1\<lparr>nw_queue := nw_queue w1 @ [j]\<rparr> else w1)
            in (w2, and_then (load_derivation env w2 j)
                  (\<lambda>snapshot. Inr (if snapshot = None then after else snapshot))))"

text \<open>
  A stop asked for while no process is active is settled by a reduction of its own. Such a
  reduction decides no further stop (\<open>stop_report_quiet\<close> below), so it settles nothing in turn.
\<close>

definition settle_stop ::
    "nz_env \<Rightarrow> (nz_world \<Rightarrow> nz_world \<times> bool) \<Rightarrow> derivation_job_id \<Rightarrow> process_stop_reason \<Rightarrow> nz_world
     \<Rightarrow> nz_world \<times> (normalizer_error + derivation_job option)" where
  "settle_stop env others j reason w =
     (case reduce_locked env j (DerWorker (ProcessStopped reason)) None w of
        (w1, Inl e) \<Rightarrow> (w1, Inl e)
      | (w1, Inr (LockedReturn stored)) \<Rightarrow> (w1, Inr (Some stored))
      | (w1, Inr (LockedRun run)) \<Rightarrow>
          finish_reduction env others j (nr_await run) (nr_dispatch run) False (nr_after run) w1)"

definition nz_reduce ::
    "nz_env \<Rightarrow> (nz_world \<Rightarrow> nz_world \<times> bool) \<Rightarrow> derivation_job_id \<Rightarrow> derivation_command \<Rightarrow> bool
     \<Rightarrow> commit_context option \<Rightarrow> nz_world
     \<Rightarrow> nz_world \<times> (normalizer_error + derivation_job option)" where
  "nz_reduce env others j cmd schedule context w =
     (case reduce_locked env j cmd context w of
        (w1, Inl e) \<Rightarrow> (w1, Inl e)
      | (w1, Inr (LockedReturn stored)) \<Rightarrow> (w1, Inr (Some stored))
      | (w1, Inr (LockedRun run)) \<Rightarrow>
          (case (if nr_await run \<and> \<not> nw_active w1 j then nr_stop run else None) of
             None \<Rightarrow>
               finish_reduction env others j (nr_await run) (nr_dispatch run) schedule (nr_after run) w1
           | Some reason \<Rightarrow>
               (case settle_stop env others j reason w1 of
                  (w2, Inl e) \<Rightarrow> (w2, Inl e)
                | (w2, Inr _) \<Rightarrow>
                    finish_reduction env others j False (nr_dispatch run) schedule (nr_after run) w2)))"

section \<open>What one effect does\<close>

lemma md_ok_found:
  assumes "md_ok env db" and "find_row db j = Some row"
  shows "read_derivation env db j = Inr (Some (stored_of row))" and "der_wf (dr_snapshot row)"
    and "dj_job_id (de_spec (dr_snapshot row)) = j" and "de_spec (dr_snapshot row) = dr_spec row"
  using md_ok_row [OF assms] read_derivation_ok [of env db row] assms(2)
  by (auto simp: row_ok_def row_indexed_def)

lemma load_derivation_ok:
  assumes "md_ok (nz_store env) (nw_db w)"
  shows "load_derivation env w j = Inr (map_option dr_snapshot (find_row (nw_db w) j))"
proof (cases "find_row (nw_db w) j")
  case None
  then show ?thesis by (simp add: load_derivation_def read_derivation_def)
next
  case (Some row)
  with md_ok_found(1) [OF assms Some] show ?thesis by (simp add: load_derivation_def stored_of_def)
qed

text \<open>
  A swap asked for the successor of the stored job either leaves the database as it is and
  reports an error, or is the swap of the store.
\<close>

lemma failed_swap_current:
  assumes "md_ok (nz_store env) db" and "find_row db j = Some row"
    and "de_version (dr_snapshot row) = expected"
  shows "map_cas_error env db j expected e = Inl (store_error e)"
  using md_ok_found(1) [OF assms(1,2)] assms(3) by (simp add: map_cas_error_def stored_of_def)

lemma nz_swap_cases:
  assumes ok: "md_ok (nz_store env) db" and row: "find_row db j = Some row"
    and nxt: "de_spec nxt = de_spec (dr_snapshot row)" "expected = de_version (dr_snapshot row)"
      "de_version nxt \<noteq> expected"
    and swap: "nz_compare_and_swap env db expected nxt = (db', out)"
  obtains (kept) e where "db' = db" "out = Inl e"
  | (swapped) stored where "out = Inr (SnapApplied nxt)"
      "compare_and_swap_derivation_snapshot (nz_store env) db expected nxt (nz_clock env expected)
        = Inr (db', SwapApplied stored)"
proof -
  have j: "dj_job_id (de_spec nxt) = j" using md_ok_found(3) [OF ok row] nxt(1) by simp
  note fails = failed_swap_current [OF ok row nxt(2) [symmetric]]
  let ?r = "compare_and_swap_derivation_snapshot (nz_store env) db expected nxt (nz_clock env expected)"
  have req: "require_derivation (nz_store env) db j = Inr (stored_of row)"
    using row by (auto simp: require_derivation_ok [OF ok])
  show thesis
  proof (cases "in_sqlite (nz_sqlite_ok env expected) ?r")
    case (Inl e)
    with swap fails show thesis by (intro kept) (auto simp: nz_compare_and_swap_def j)
  next
    case (Inr r)
    then have r: "?r = Inr r" by (auto simp: in_sqlite_def split: if_splits)
    obtain db1 s where dbs: "r = (db1, s)" by (cases r)
    show thesis
    proof (cases s)
      case (SwapApplied stored)
      with r dbs have "sd_snapshot stored = nxt" using cas_applied [OF ok, of expected nxt] by metis
      with swap Inr dbs SwapApplied r show thesis
        by (intro swapped [of stored]) (auto simp: nz_compare_and_swap_def)
    next
      case (SwapAlreadyApplied stored)
      with r dbs have "sd_snapshot (stored_of row) = nxt"
        by (auto simp: compare_and_swap_derivation_snapshot_def j req elim!: and_then_InrE
            simp del: and_then_Inr split: if_splits)
      with nxt show thesis by (simp add: stored_of_def)
    qed
  qed
qed

lemma nz_commit_cases:
  assumes ok: "md_ok (nz_store env) db" and row: "find_row db j = Some row"
    and nxt: "de_spec nxt = de_spec (dr_snapshot row)" "expected = de_version (dr_snapshot row)"
      "de_version nxt \<noteq> expected"
    and commit: "commit_derived_verified env db expected nxt c m ev = (db', out)"
  obtains (kept) e where "db' = db" "out = Inl e"
  | (committed) stored completion where "out = Inr (SnapApplied nxt) \<or> out = Inr (SnapAlreadyApplied nxt)"
      "complete_derivation_job (nz_store env) db expected nxt (nz_clock env expected)
        = Inr (db', stored, completion)"
proof -
  have j: "dj_job_id (de_spec nxt) = j" using md_ok_found(3) [OF ok row] nxt(1) by simp
  note fails = failed_swap_current [OF ok row nxt(2) [symmetric]]
  let ?r = "complete_derivation_job (nz_store env) db expected nxt (nz_clock env expected)"
  show thesis
  proof (cases "validate_commit_evidence env c m ev")
    case (Inl e)
    with commit show thesis by (intro kept) (auto simp: commit_derived_verified_def)
  next
    case v: (Inr u)
    show thesis
    proof (cases "in_sqlite (nz_sqlite_ok env expected) ?r")
      case (Inl e)
      with commit v fails show thesis by (intro kept) (auto simp: commit_derived_verified_def j)
    next
      case (Inr r)
      then have r: "?r = Inr r" by (auto simp: in_sqlite_def split: if_splits)
      obtain db1 s o' where dbs: "r = (db1, s, o')" by (cases r)
      from complete_applied [OF ok r [unfolded dbs]] have "sd_snapshot s = nxt" by metis
      with commit v Inr dbs r show thesis
        by (intro committed [of s o']) (auto simp: commit_derived_verified_def split: complete_outcome.splits)
    qed
  qed
qed

fun publishes :: "derivation_effect \<Rightarrow> bool" where
  "publishes (EfPublishCompletion _ _ _) = True"
| "publishes _ = False"

lemma perform_swapped:
  assumes "effect_version e = Some v" and "\<not> publishes e"
  shows "perform_effect env context j run e =
     (case apply_committed_effect (nr_domain run) e of
        Inl _ \<Rightarrow> (run, Inl (NzWorker ''effect''))
      | Inr nxt \<Rightarrow>
          accept_swap run v (nz_compare_and_swap env (nw_db (nr_world run)) v nxt))"
proof -
  have v: "effect_expected_version e = v" using assms(1) by (simp add: effect_expected_version_def)
  show ?thesis unfolding v [symmetric] using assms by (cases e) auto
qed

lemma perform_quiet:
  assumes "effect_version e = None" and "perform_effect env context j run e = (run', res)"
  shows "nw_db (nr_world run') = nw_db (nr_world run)" and "nr_domain run' = nr_domain run"
  using assms by (cases e; auto split: if_splits)+

lemma accept_swap_kept:
  "accept_swap run v (db, Inl e) = (run\<lparr>nr_world := (nr_world run)\<lparr>nw_db := db\<rparr>\<rparr>, Inl (NzRepository e))"
  by (simp add: accept_swap_def)

lemma accept_swap_applied:
  assumes "der_wf nxt" and "out = SnapApplied nxt \<or> out = SnapAlreadyApplied nxt"
  shows "accept_swap run v (db, Inr out)
    = (run\<lparr>nr_world := (nr_world run)\<lparr>nw_db := db\<rparr>, nr_domain := nxt, nr_after := Some nxt\<rparr>, Inr ())"
  using assms rehydrate_wf [OF assms(1)] by (auto simp: accept_swap_def)

lemma perform_effect_cases:
  assumes ok: "md_ok (nz_store env) (nw_db (nr_world run))"
    and row: "find_row (nw_db (nr_world run)) j = Some row" and dom: "nr_domain run = dr_snapshot row"
    and perform: "perform_effect env context j run e = (run', res)"
  obtains (kept) "nw_db (nr_world run') = nw_db (nr_world run)" "nr_domain run' = nr_domain run"
      "effect_version e = None \<or> (\<exists>err. res = Inl err)"
  | (committed) nxt now where "apply_committed_effect (dr_snapshot row) e = Inr nxt" "res = Inr ()"
      "nr_domain run' = nxt" "md_step (nz_store env) (nw_db (nr_world run)) (nw_db (nr_world run'))"
      "publishes e \<or> \<not> der_is_terminal (de_state nxt)"
      "\<And>k. find_row (nw_db (nr_world run')) k
         = (if k = j then Some (advanced_row row nxt now) else find_row (nw_db (nr_world run)) k)"
proof (cases "effect_version e")
  case None
  with perform_quiet [OF None perform] show thesis by (intro kept) simp_all
next
  case (Some v)
  let ?db = "nw_db (nr_world run)"
  show thesis
  proof (cases "apply_committed_effect (dr_snapshot row) e")
    case (Inl err)
    with Some perform dom show thesis
      by (intro kept; cases e) (auto split: option.splits)
  next
    case (Inr nxt)
    have v: "v = de_version (dr_snapshot row)"
      using Inr Some unfolding apply_committed_Inr by simp
    note a = apply_version [OF Inr]
    have ne: "de_version nxt \<noteq> v" using a(1) v by auto
    have j: "dj_job_id (de_spec nxt) = j" using md_ok_found(3) [OF ok row] a(2) by simp
    show thesis
    proof (cases "publishes e")
      case False
      obtain db' out where s: "nz_compare_and_swap env ?db v nxt = (db', out)" by force
      have p: "perform_effect env context j run e = accept_swap run v (db', out)"
        using perform_swapped [OF Some False] Inr s dom by simp
      from ok row a(2) v ne s show thesis
      proof (cases rule: nz_swap_cases)
        case (kept err)
        with p perform show thesis by (intro that(1)) (auto simp: accept_swap_kept)
      next
        case (swapped stored)
        from cas_applied [OF ok swapped(2)] obtain row' where
          r: "find_row ?db j = Some row'" "der_wf nxt" "\<not> der_is_terminal (de_state nxt)"
          "\<And>k. find_row db' k = (if k = j then Some (advanced_row row' nxt (nz_clock env v))
             else find_row ?db k)"
          unfolding j by metis
        have "accept_swap run v (db', out) = (run\<lparr>nr_world := (nr_world run)\<lparr>nw_db := db'\<rparr>,
            nr_domain := nxt, nr_after := Some nxt\<rparr>, Inr ())"
          unfolding swapped(1) by (rule accept_swap_applied) (use r(2) in auto)
        with p perform r row swapped(2) Inr show thesis
          by (intro that(2) [of nxt "nz_clock env v"]) (auto intro: md_step.intros)
      qed
    next
      case True
      then obtain c to where e: "e = EfPublishCompletion v c to" using Some by (cases e) auto
      show thesis
      proof (cases "context")
        case None
        with perform e show thesis by (intro that(1)) auto
      next
        case cx: (Some cx)
        obtain db' out where s: "commit_derived_verified env ?db v nxt c (cx_manifest cx) (cx_evidence cx)
            = (db', out)" by force
        have p: "perform_effect env context j run e = accept_swap run v (db', out)"
          using e cx Inr s dom by simp
        from ok row a(2) v ne s show thesis
        proof (cases rule: nz_commit_cases)
          case (kept err)
          with p perform show thesis by (intro that(1)) (auto simp: accept_swap_kept)
        next
          case (committed stored completion)
          from complete_applied [OF ok committed(2)] obtain row' where
            r: "find_row ?db j = Some row'" "dr_snapshot row' = nxt \<and> db' = ?db
              \<or> \<not> der_is_terminal (de_state (dr_snapshot row')) \<and> der_wf nxt
                \<and> (\<forall>k. find_row db' k = (if k = j then Some (advanced_row row' nxt (nz_clock env v))
                     else find_row ?db k))"
            unfolding j by metis
          with row ne v have r: "der_wf nxt"
            "\<And>k. find_row db' k = (if k = j then Some (advanced_row row nxt (nz_clock env v))
                else find_row ?db k)" by auto
          have "accept_swap run v (db', out) = (run\<lparr>nr_world := (nr_world run)\<lparr>nw_db := db'\<rparr>,
              nr_domain := nxt, nr_after := Some nxt\<rparr>, Inr ())"
            using committed(1) accept_swap_applied [OF r(1)] by auto
          with p perform r committed(2) Inr True show thesis
            by (intro that(2) [of nxt "nz_clock env v"]) (auto intro: md_step.intros)
        qed
      qed
    qed
  qed
qed

section \<open>What one reduction does\<close>

lemma perform_effects_quiet:
  assumes "persistent es = []" and "perform_effects env context j run es = (run', res)"
  shows "nw_db (nr_world run') = nw_db (nr_world run) \<and> nr_domain run' = nr_domain run"
  using assms
proof (induction es arbitrary: run)
  case (Cons e es)
  then have e: "effect_version e = None" "persistent es = []"
    by (auto simp: persistent_def split: if_splits)
  obtain ra r where p: "perform_effect env context j run e = (ra, r)" by force
  note q = perform_quiet [OF e(1) p]
  show ?case
  proof (cases r)
    case (Inl err)
    with Cons.prems(2) p q show ?thesis by auto
  next
    case (Inr u)
    with Cons.prems(2) p Cons.IH [OF e(2), of ra] q show ?thesis by auto
  qed
qed simp

text \<open>The effects up to the first persistent one change neither the database nor the job.\<close>

lemma perform_effects_split:
  assumes "persistent es = e # ps" and "perform_effects env context j run es = (run', res)"
  obtains (early) err where "nw_db (nr_world run') = nw_db (nr_world run)" "res = Inl err"
  | (reached) ra rb r rest where "nw_db (nr_world ra) = nw_db (nr_world run)"
      "nr_domain ra = nr_domain run" "perform_effect env context j ra e = (rb, r)"
      "persistent rest = ps"
      "(\<exists>err. r = Inl err \<and> run' = rb \<and> res = Inl err)
       \<or> r = Inr () \<and> perform_effects env context j rb rest = (run', res)"
  using assms
proof (induction es arbitrary: run thesis)
  case (Cons f es)
  obtain rc r where p: "perform_effect env context j run f = (rc, r)" by force
  show ?case
  proof (cases "effect_version f = None")
    case True
    note q = perform_quiet [OF True p]
    have es: "persistent es = e # ps" using Cons.prems(3) True by (simp add: persistent_def)
    show ?thesis
    proof (cases r)
      case (Inl err)
      with Cons.prems(1,4) p q show ?thesis by auto
    next
      case (Inr u)
      then have rest: "perform_effects env context j rc es = (run', res)" using Cons.prems(4) p by simp
      show ?thesis
      proof (rule Cons.IH [OF _ _ es rest])
        show "?thesis" if "nw_db (nr_world run') = nw_db (nr_world rc)" "res = Inl err" for err
          using that q Cons.prems(1) by simp
        show "?thesis" if "nw_db (nr_world ra) = nw_db (nr_world rc)" "nr_domain ra = nr_domain rc"
          "perform_effect env context j ra e = (rb, r)" "persistent rest = ps"
          "(\<exists>err. r = Inl err \<and> run' = rb \<and> res = Inl err)
           \<or> r = Inr () \<and> perform_effects env context j rb rest = (run', res)" for ra rb r rest
          using that q Cons.prems(2) [of ra rb r rest] by simp
      qed
    qed
  next
    case False
    then have "f = e" "persistent es = ps" using Cons.prems(3) by (auto simp: persistent_def)
    with p Cons.prems(4) show ?thesis by (intro Cons.prems(2) [of run rc r es]) (cases r; auto)+
  qed
qed (simp add: persistent_def)

lemma decided_effects:
  assumes "der_decide job cmd = DerAccepted effs"
  shows "persistent effs = []
    \<or> (\<exists>e. persistent effs = [e]
         \<and> (\<forall>job'. apply_committed_effect job e = Inr job' \<longrightarrow> admissible job e))
    \<or> persistent effs = [EfCommitState (de_version job) DerCancelling,
        EfCommitState (de_version job + 1) DerCancelled]"
proof (cases "length (de_checkpoints job) < 2 ^ 32")
  case True
  from decide_shape [OF assms this] show ?thesis by blast
next
  case False
  show ?thesis
  proof (cases "\<exists>i. cmd = DerWorker (PairStarted i)")
    case True
    with assms False show ?thesis
      by (auto simp: persistent_def der_wrong_state_def apply_committed_Inr ensure_def split: if_splits option.splits)
  next
    case other: False
    then show ?thesis
      using assms
    proof (cases cmd)
      case (DerWorker report)
      then show ?thesis
        using assms other
        by (cases report)
          (auto simp: der_handlers persistent_def ledger_complete_def
            split: if_splits option.splits process_stop_reason.splits)
    qed (auto simp: der_handlers persistent_def
        split: if_splits option.splits derivation_state.splits bool.splits)
  qed
qed

definition nz_commit ::
    "nz_env \<Rightarrow> derivation_job_id \<Rightarrow> derivation_command \<Rightarrow> media_db \<Rightarrow> media_db \<Rightarrow> bool" where
  "nz_commit env j cmd db db' \<longleftrightarrow>
     (\<exists>row effs e es nxt now. find_row db j = Some row
        \<and> der_decide (dr_snapshot row) cmd = DerAccepted effs \<and> persistent effs = e # es
        \<and> admissible (dr_snapshot row) e
        \<and> apply_committed_effect (dr_snapshot row) e = Inr nxt
        \<and> md_step (nz_store env) db db'
        \<and> (der_is_terminal (de_state nxt) \<longrightarrow> de_state nxt = DerDerivedVerified)
        \<and> (\<forall>k. find_row db' k = (if k = j then Some (advanced_row row nxt now) else find_row db k)))"

lemma nz_commitI:
  assumes "find_row db j = Some row" and "der_decide (dr_snapshot row) cmd = DerAccepted effs"
    and "persistent effs = e # es" and "admissible (dr_snapshot row) e"
    and "apply_committed_effect (dr_snapshot row) e = Inr nxt" and "md_step (nz_store env) db db'"
    and "publishes e \<or> \<not> der_is_terminal (de_state nxt)"
    and "\<And>k. find_row db' k = (if k = j then Some (advanced_row row nxt now) else find_row db k)"
  shows "nz_commit env j cmd db db'"
proof -
  have "der_is_terminal (de_state nxt) \<longrightarrow> de_state nxt = DerDerivedVerified"
    using assms(4,5,7) by (cases e) (auto simp: apply_committed_Inr)
  with assms show ?thesis unfolding nz_commit_def by blast
qed

lemma md_step_ok: "md_step env db db' \<Longrightarrow> md_ok env db \<Longrightarrow> md_ok env db'"
  using md_step_keeps by blast

text \<open>
  One reduction commits at most one effect, and it is one that the decision may ask for.
  The second half of a cancellation is always refused by the store.
\<close>

lemma reduce_locked_db:
  assumes ok: "md_ok (nz_store env) (nw_db w)"
    and reduce: "reduce_locked env j cmd context w = (w', res)"
  shows "nw_db w' = nw_db w \<or> nz_commit env j cmd (nw_db w) (nw_db w')"
proof (cases "find_row (nw_db w) j")
  case None
  with reduce show ?thesis by (auto simp: reduce_locked_def load_derivation_ok [OF ok])
next
  case (Some row)
  let ?s = "dr_snapshot row"
  let ?w = "if clears_stop cmd then w\<lparr>nw_stop := (nw_stop w)(j := None)\<rparr> else w"
  let ?run = "\<lparr>nr_world = ?w, nr_domain = ?s, nr_after = None, nr_dispatch = False,
    nr_await = False, nr_remove = False, nr_stop = None\<rparr>"
  have db: "nw_db ?w = nw_db w" by simp
  have load: "load_derivation env w j = Inr (Some ?s)"
    by (simp add: load_derivation_ok [OF ok] Some)
  have re: "rehydrate ?s = Inr ?s" by (rule rehydrate_wf [OF md_ok_found(2) [OF ok Some]])
  show ?thesis
  proof (cases "der_decide ?s cmd")
    case (DerAccepted effs)
    obtain run res' where p: "perform_effects env context j ?run effs = (run, res')" by force
    have w': "nw_db w' = nw_db (nr_world run)"
      using reduce load re DerAccepted p
      by (auto simp: reduce_locked_def Let_def split: sum.splits if_splits)
    from decided_effects [OF DerAccepted] consider "persistent effs = []"
      | e where "persistent effs = [e]"
          "\<And>job'. apply_committed_effect ?s e = Inr job' \<Longrightarrow> admissible ?s e"
      | "persistent effs = [EfCommitState (de_version ?s) DerCancelling,
          EfCommitState (de_version ?s + 1) DerCancelled]" by blast
    then show ?thesis
    proof cases
      case 1
      with perform_effects_quiet [OF 1 p] w' show ?thesis by simp
    next
      case (2 e)
      from 2(1) p show ?thesis
      proof (cases rule: perform_effects_split)
        case (early err)
        with w' show ?thesis by simp
      next
        case (reached ra rb r rest)
        have same: "nw_db (nr_world run) = nw_db (nr_world rb)"
          using reached(4,5) perform_effects_quiet by metis
        have "md_ok (nz_store env) (nw_db (nr_world ra))" "find_row (nw_db (nr_world ra)) j = Some row"
          "nr_domain ra = ?s" using reached(1,2) ok Some by simp_all
        from this reached(3) show ?thesis
        proof (cases rule: perform_effect_cases)
          case kept
          with same w' reached(1) db show ?thesis by simp
        next
          case (committed nxt now)
          then have "nz_commit env j cmd (nw_db (nr_world ra)) (nw_db (nr_world rb))"
            using 2 DerAccepted reached(1) Some by (intro nz_commitI [of _ j row cmd effs e]) auto
          with same w' reached(1) db show ?thesis by simp
        qed
      qed
    next
      case 3
      from 3 p show ?thesis
      proof (cases rule: perform_effects_split)
        case (early err)
        with w' show ?thesis by simp
      next
        case (reached ra rb r rest)
        have "md_ok (nz_store env) (nw_db (nr_world ra))" "find_row (nw_db (nr_world ra)) j = Some row"
          "nr_domain ra = ?s" using reached(1,2) ok Some by simp_all
        from this reached(3) show ?thesis
        proof (cases rule: perform_effect_cases)
          case kept
          with reached w' show ?thesis by auto
        next
          case (committed nxt now)
          then have c: "nz_commit env j cmd (nw_db (nr_world ra)) (nw_db (nr_world rb))"
            using 3 DerAccepted reached(1) Some by (intro nz_commitI [of _ j row cmd effs]) auto
          have rest: "perform_effects env context j rb rest = (run, res')"
            using reached(5) committed(2) by auto
          have ok': "md_ok (nz_store env) (nw_db (nr_world rb))"
            using md_step_ok [OF committed(4)] reached(1) ok by simp
          have row': "find_row (nw_db (nr_world rb)) j = Some (advanced_row row nxt now)"
            using committed(6) by simp
          from reached(4) rest have "nw_db (nr_world run) = nw_db (nr_world rb)"
          proof (cases rule: perform_effects_split)
            case (early err)
            then show ?thesis by simp
          next
            case second: (reached rc rd r2 rest2)
            have "md_ok (nz_store env) (nw_db (nr_world rc))"
              "find_row (nw_db (nr_world rc)) j = Some (advanced_row row nxt now)"
              "nr_domain rc = dr_snapshot (advanced_row row nxt now)"
              using second(1,2) ok' row' committed(3) by simp_all
            from this second(3) show ?thesis
            proof (cases rule: perform_effect_cases)
              case kept
              with second show ?thesis using perform_effects_quiet by metis
            next
              case refused: (committed nxt2 now2)
              then show ?thesis by (auto simp: apply_committed_Inr)
            qed
          qed
          with c w' reached(1) db show ?thesis by simp
        qed
      qed
    qed
  qed (use reduce load re in \<open>auto simp: reduce_locked_def Let_def split: if_splits\<close>)
qed

lemma perform_effects_Inr:
  assumes "md_ok (nz_store env) (nw_db (nr_world run))"
    and "find_row (nw_db (nr_world run)) j = Some row" and "nr_domain run = dr_snapshot row"
    and "perform_effects env context j run es = (run', Inr ())"
  shows "apply_effects (nr_domain run) es = Inr (nr_domain run')
    \<and> (\<exists>row'. find_row (nw_db (nr_world run')) j = Some row' \<and> dr_snapshot row' = nr_domain run')
    \<and> md_ok (nz_store env) (nw_db (nr_world run'))"
  using assms
proof (induction es arbitrary: run row)
  case (Cons e es)
  obtain ra where p: "perform_effect env context j run e = (ra, Inr ())"
    and rest: "perform_effects env context j ra es = (run', Inr ())"
    using Cons.prems(4) by (auto split: prod.splits sum.splits)
  from Cons.prems(1-3) p show ?case
  proof (cases rule: perform_effect_cases)
    case kept
    with Cons.prems Cons.IH [of ra row] rest show ?thesis by auto
  next
    case (committed nxt now)
    have "md_ok (nz_store env) (nw_db (nr_world ra))"
      "find_row (nw_db (nr_world ra)) j = Some (advanced_row row nxt now)"
      "nr_domain ra = dr_snapshot (advanced_row row nxt now)"
      using md_step_ok [OF committed(4) Cons.prems(1)] committed(3,6) by simp_all
    from Cons.IH [OF this rest] committed(1,3) Cons.prems(3) show ?thesis
      by (auto simp: apply_committed_Inr)
  qed
qed auto

lemma reduce_locked_Inr:
  assumes ok: "md_ok (nz_store env) (nw_db w)"
    and reduce: "reduce_locked env j cmd context w = (w', Inr (LockedRun run))"
  obtains row effs row' where "find_row (nw_db w) j = Some row"
    and "der_decide (dr_snapshot row) cmd = DerAccepted effs"
    and "apply_effects (dr_snapshot row) effs = Inr (dr_snapshot row')"
    and "find_row (nw_db w') j = Some row'" and "md_ok (nz_store env) (nw_db w')"
proof -
  from reduce obtain row where row: "find_row (nw_db w) j = Some row"
    by (auto simp: reduce_locked_def load_derivation_ok [OF ok] split: option.splits)
  let ?s = "dr_snapshot row"
  let ?w = "if clears_stop cmd then w\<lparr>nw_stop := (nw_stop w)(j := None)\<rparr> else w"
  let ?run = "\<lparr>nr_world = ?w, nr_domain = ?s, nr_after = None, nr_dispatch = False,
    nr_await = False, nr_remove = False, nr_stop = None\<rparr>"
  have load: "load_derivation env w j = Inr (Some ?s)"
    by (simp add: load_derivation_ok [OF ok] row)
  have re: "rehydrate ?s = Inr ?s" by (rule rehydrate_wf [OF md_ok_found(2) [OF ok row]])
  from reduce load re obtain effs where effs: "der_decide ?s cmd = DerAccepted effs"
    by (auto simp: reduce_locked_def Let_def split: derivation_decision.splits)
  obtain run1 res1 where p: "perform_effects env context j ?run effs = (run1, res1)" by force
  from reduce load re effs p have res1: "res1 = Inr ()" and w': "nw_db w' = nw_db (nr_world run1)"
    by (auto simp: reduce_locked_def Let_def split: sum.splits if_splits)
  have "md_ok (nz_store env) (nw_db (nr_world ?run))" "find_row (nw_db (nr_world ?run)) j = Some row"
    "nr_domain ?run = ?s" using ok row by simp_all
  note q = perform_effects_Inr [OF this p [unfolded res1]]
  then obtain row' where "find_row (nw_db (nr_world run1)) j = Some row'"
    "dr_snapshot row' = nr_domain run1" by blast
  with q row effs show thesis by (intro that [of row effs row']) (simp_all add: w')
qed

section \<open>All threads together\<close>

text \<open>
  Worker threads, commands and the consumer of the outbox take turns: a reduction is one step
  because it holds the mutex of its job, everything between two reductions is a step of its own.
\<close>

inductive nz_step :: "nz_env \<Rightarrow> nz_world \<Rightarrow> nz_world \<Rightarrow> bool" for env where
  nz_reduction: "reduce_locked env j cmd context w = (w', res) \<Longrightarrow> nz_step env w w'"
| nz_start: "create_derivation_job (nz_store env) (nw_db w) spec now = Inr (db', out)
    \<Longrightarrow> nz_step env w (w\<lparr>nw_db := db'\<rparr>)"
| nz_threads: "nz_step env w (w\<lparr>nw_stop := stops, nw_active := actives, nw_queue := queue\<rparr>)"
| nz_consumer: "acknowledge_derivation_completion (nw_db w) j now = Inr (db', out)
    \<Longrightarrow> nz_step env w (w\<lparr>nw_db := db'\<rparr>)"

inductive nz_reaches :: "nz_env \<Rightarrow> nz_world \<Rightarrow> nz_world \<Rightarrow> bool" for env where
  nz_here: "nz_reaches env w w"
| nz_next: "nz_reaches env w w' \<Longrightarrow> nz_step env w' w'' \<Longrightarrow> nz_reaches env w w''"

definition idle_world :: nz_world where
  "idle_world = \<lparr>nw_db = empty_media_db, nw_stop = (\<lambda>_. None), nw_active = (\<lambda>_. False),
     nw_discarded = [], nw_queue = []\<rparr>"

definition durable_ok :: "media_db \<Rightarrow> bool" where
  "durable_ok db \<longleftrightarrow>
     (\<forall>j row. find_row db j = Some row \<longrightarrow> der_inv (dr_snapshot row)
        \<and> (der_is_terminal (de_state (dr_snapshot row))
           \<longrightarrow> de_state (dr_snapshot row) = DerDerivedVerified))"

lemma durable_okD:
  "durable_ok db \<Longrightarrow> find_row db j = Some row \<Longrightarrow> der_inv (dr_snapshot row)"
  "durable_ok db \<Longrightarrow> find_row db j = Some row \<Longrightarrow> der_is_terminal (de_state (dr_snapshot row))
     \<Longrightarrow> de_state (dr_snapshot row) = DerDerivedVerified"
  by (simp_all add: durable_ok_def)

lemma nz_commit_keeps:
  assumes commit: "nz_commit env j cmd db db'" and ok: "md_ok (nz_store env) db" and inv: "durable_ok db"
  shows "md_ok (nz_store env) db' \<and> md_history (nz_store env) db db' \<and> durable_ok db'"
proof -
  from commit obtain row e nxt now where c: "find_row db j = Some row"
    "admissible (dr_snapshot row) e" "apply_committed_effect (dr_snapshot row) e = Inr nxt"
    "md_step (nz_store env) db db'"
    "der_is_terminal (de_state nxt) \<longrightarrow> de_state nxt = DerDerivedVerified"
    and found: "\<And>k. find_row db' k = (if k = j then Some (advanced_row row nxt now) else find_row db k)"
    unfolding nz_commit_def by blast
  have ok': "md_ok (nz_store env) db'" by (rule md_step_ok [OF c(4) ok])
  have "der_inv nxt"
    using apply_stages [OF durable_okD(1) [OF inv c(1)] c(2,3)]
      md_ok_found(2) [OF ok', of j "advanced_row row nxt now"] found [of j]
    by (simp add: der_inv_def)
  then have "durable_ok db'"
    using durable_okD [OF inv] c(5) unfolding durable_ok_def found by auto
  moreover have "md_history (nz_store env) db db'"
    using c(4) by (blast intro: md_history.intros)
  ultimately show ?thesis using ok' by simp
qed

lemma md_history_trans:
  assumes "md_history env b c" and "md_history env a b"
  shows "md_history env a c"
  using assms by (induction) (auto intro: md_history.intros)

lemma create_rows:
  assumes ok: "md_ok env db" and create: "create_derivation_job env db spec now = Inr (db', out)"
    and row: "find_row db' k = Some row"
  shows "find_row db k = Some row \<or> new_derivation_job spec = Inr (dr_snapshot row)"
proof -
  consider "db' = db"
    | initial v where "new_derivation_job spec = Inr initial"
        "db' = db\<lparr>md_jobs := md_jobs db @ [new_derivation_row env initial now], md_revision := v\<rparr>"
    using create bump_revision_Inr
    by (fastforce simp: create_derivation_job_def Let_def elim!: and_then_InrE
        simp del: and_then_Inr split: sum.splits option.splits if_splits)
  then show ?thesis
  proof cases
    case 1
    with row show ?thesis by simp
  next
    case (2 initial v)
    have "find P (xs @ [x]) = Some y \<Longrightarrow> find P xs = Some y \<or> y = x"
      for P and xs :: "derivation_row list" and x y
      by (induction xs) (auto split: if_splits)
    from this row 2 show ?thesis
      by (fastforce simp: find_row_def new_derivation_row_def Let_def)
  qed
qed

lemma nz_step_keeps:
  assumes "nz_step env w w'" and ok: "md_ok (nz_store env) (nw_db w)" and inv: "durable_ok (nw_db w)"
  shows "md_ok (nz_store env) (nw_db w') \<and> md_history (nz_store env) (nw_db w) (nw_db w')
    \<and> durable_ok (nw_db w')"
  using assms(1)
proof cases
  case (nz_reduction j cmd "context" res)
  from reduce_locked_db [OF ok this] nz_commit_keeps [OF _ ok inv] ok inv show ?thesis
    by (auto intro: md_history.intros)
next
  case (nz_start spec now db' out)
  have "durable_ok db'"
    unfolding durable_ok_def
  proof (intro allI impI)
    fix k row
    assume "find_row db' k = Some row"
    from create_rows [OF ok nz_start(2) this]
    show "der_inv (dr_snapshot row) \<and> (der_is_terminal (de_state (dr_snapshot row))
        \<longrightarrow> de_state (dr_snapshot row) = DerDerivedVerified)"
    proof
      assume new: "new_derivation_job spec = Inr (dr_snapshot row)"
      have "de_state (dr_snapshot row) = DerQueued"
        using new unfolding new_derivation_job_def by (cases "dr_snapshot row") auto
      with new_derivation_inv [OF new] show ?thesis by simp
    qed (use durable_okD [OF inv] in blast)
  qed
  with create_keeps_md_ok(1) [OF ok nz_start(2)] nz_start show ?thesis
    by (auto intro: md_history.intros md_step.intros)
next
  case (nz_threads stops actives queue)
  with ok inv show ?thesis by (auto intro: md_history.intros)
next
  case (nz_consumer j now db' out)
  with acknowledge_keeps_md_ok [OF ok nz_consumer(2)] inv show ?thesis
    by (auto simp: durable_ok_def intro: md_history.intros md_step.intros)
qed

lemma nz_reaches_keeps:
  assumes "nz_reaches env w w'" and "md_ok (nz_store env) (nw_db w)" and "durable_ok (nw_db w)"
  shows "md_ok (nz_store env) (nw_db w') \<and> md_history (nz_store env) (nw_db w) (nw_db w')
    \<and> durable_ok (nw_db w')"
  using assms
proof induction
  case (nz_next w w' w'')
  with nz_step_keeps [OF nz_next(2)] md_history_trans show ?case by blast
qed (auto intro: md_history.intros)

lemma idle_world_ok: "md_ok (nz_store env) (nw_db idle_world)" "durable_ok (nw_db idle_world)"
  using empty_media_db_ok by (simp_all add: idle_world_def durable_ok_def find_row_def empty_media_db_def)

section \<open>Whole commands\<close>

text \<open>A report of a stopped process asks for no further stop.\<close>

lemma stop_report_quiet:
  assumes "der_decide job (DerWorker (ProcessStopped reason)) = DerAccepted effs"
  shows "EfAwaitProcessReap \<notin> set effs \<and> EfDispatch \<notin> set effs \<and> EfRemoveJob \<notin> set effs"
  using assms by (auto simp: der_handlers split: if_splits option.splits process_stop_reason.splits)

lemma nz_reaches_trans:
  assumes "nz_reaches env b c" and "nz_reaches env a b"
  shows "nz_reaches env a c"
  using assms by induction (auto intro: nz_reaches.intros)

lemma nz_reaches_reduction:
  assumes "reduce_locked env j cmd context w = (w', res)"
  shows "nz_reaches env w w'"
  using assms by (blast intro: nz_reaches.intros nz_step.intros)

lemma nz_reaches_enqueue: "nz_reaches env w (w\<lparr>nw_queue := queue\<rparr>)"
  using nz_next [OF nz_here nz_threads [of env w queue "nw_active w" "nw_stop w"]] by simp

lemma finish_reduction_reaches:
  assumes "\<And>w. nz_reaches env w (fst (others w))"
    and "finish_reduction env others j await dispatch schedule after w = (w', res)"
  shows "nz_reaches env w w'"
proof -
  obtain w1 idle where o: "(if await \<and> nw_active w j then others w else (w, True)) = (w1, idle)" by force
  have w1: "nz_reaches env w w1" using o assms(1) [of w] by (auto split: if_splits intro: nz_here)
  have "w' = w1 \<or> (\<exists>queue. w' = w1\<lparr>nw_queue := queue\<rparr>)"
    using assms(2) o by (auto simp: finish_reduction_def Let_def split: if_splits)
  with w1 nz_reaches_trans nz_reaches_enqueue show ?thesis by blast
qed

lemma settle_stop_reaches:
  assumes "\<And>w. nz_reaches env w (fst (others w))" and "settle_stop env others j reason w = (w', res)"
  shows "nz_reaches env w w'"
proof -
  obtain w1 r where l: "reduce_locked env j (DerWorker (ProcessStopped reason)) None w = (w1, r)" by force
  note w1 = nz_reaches_reduction [OF l]
  show ?thesis
  proof (cases "\<exists>run. r = Inr (LockedRun run)")
    case False
    with l assms(2) w1 show ?thesis by (auto simp: settle_stop_def split: sum.splits nz_locked.splits)
  next
    case True
    then obtain run where "r = Inr (LockedRun run)" by blast
    with l assms(2) have "finish_reduction env others j (nr_await run) (nr_dispatch run) False
        (nr_after run) w1 = (w', res)" by (simp add: settle_stop_def)
    with finish_reduction_reaches [OF assms(1)] w1 nz_reaches_trans show ?thesis by blast
  qed
qed

lemma nz_reduce_reaches:
  assumes others: "\<And>w. nz_reaches env w (fst (others w))"
    and reduce: "nz_reduce env others j cmd schedule context w = (w', res)"
  shows "nz_reaches env w w'"
proof -
  obtain w1 r where l: "reduce_locked env j cmd context w = (w1, r)" by force
  note w1 = nz_reaches_reduction [OF l]
  show ?thesis
  proof (cases "\<exists>run. r = Inr (LockedRun run)")
    case False
    with l reduce w1 show ?thesis by (auto simp: nz_reduce_def split: sum.splits nz_locked.splits)
  next
    case True
    then obtain run where run: "r = Inr (LockedRun run)" by blast
    show ?thesis
    proof (cases "if nr_await run \<and> \<not> nw_active w1 j then nr_stop run else None")
      case None
      with reduce l run have "finish_reduction env others j (nr_await run) (nr_dispatch run) schedule
          (nr_after run) w1 = (w', res)" by (simp add: nz_reduce_def del: if_split)
      with finish_reduction_reaches [OF others] w1 nz_reaches_trans show ?thesis by blast
    next
      case (Some reason)
      obtain w2 r2 where s: "settle_stop env others j reason w1 = (w2, r2)" by force
      note w2 = nz_reaches_trans [OF settle_stop_reaches [OF others s] w1]
      show ?thesis
      proof (cases r2)
        case (Inl e)
        with reduce l run Some s w2 show ?thesis by (simp add: nz_reduce_def del: if_split)
      next
        case (Inr u)
        with reduce l run Some s have "finish_reduction env others j False (nr_dispatch run) schedule
            (nr_after run) w2 = (w', res)" by (simp add: nz_reduce_def del: if_split)
        with finish_reduction_reaches [OF others] w2 nz_reaches_trans show ?thesis by blast
      qed
    qed
  qed
qed

lemma reachable_ok:
  assumes "nz_reaches env idle_world w"
  shows "md_ok (nz_store env) (nw_db w)" and "durable_ok (nw_db w)"
    and "md_history (nz_store env) empty_media_db (nw_db w)"
  using nz_reaches_keeps [OF assms idle_world_ok] by (simp_all add: idle_world_def)

text \<open>After the first persistent effect of a decision nothing fails, but for a cancellation.\<close>

fun unfailing :: "derivation_effect \<Rightarrow> bool" where
  "unfailing (EfRequestProcessStop _) = True"
| "unfailing EfAwaitProcessReap = True"
| "unfailing EfDispatch = True"
| "unfailing EfRemoveJob = True"
| "unfailing _ = False"

lemma perform_unfailing:
  assumes "list_all unfailing es"
  shows "\<exists>run'. perform_effects env context j run es = (run', Inr ())"
  using assms
proof (induction es arbitrary: run)
  case (Cons e es)
  then show ?case by (cases e) auto
qed simp

lemma decide_tail:
  assumes "der_decide job cmd = DerAccepted (pre @ e # rest)" and "effect_version e \<noteq> None"
    and "cmd \<noteq> DerCancel"
  shows "list_all unfailing rest"
proof (cases cmd)
  case (DerWorker report)
  with assms show ?thesis
    by (cases report)
      (auto simp: der_handlers Cons_eq_append_conv append_eq_append_conv2 append_eq_Cons_conv
        split: if_splits option.splits process_stop_reason.splits)
qed (use assms in \<open>auto simp: der_handlers Cons_eq_append_conv append_eq_Cons_conv
    split: if_splits option.splits derivation_state.splits bool.splits\<close>)

lemma perform_effects_atomic:
  assumes "md_ok (nz_store env) (nw_db (nr_world run))"
    and "find_row (nw_db (nr_world run)) j = Some row" and "nr_domain run = dr_snapshot row"
    and "\<And>pre e rest. es = pre @ e # rest \<Longrightarrow> effect_version e \<noteq> None \<Longrightarrow> list_all unfailing rest"
    and "perform_effects env context j run es = (run', Inl err)"
  shows "nw_db (nr_world run') = nw_db (nr_world run)"
  using assms
proof (induction es arbitrary: run)
  case (Cons e es)
  obtain ra r where p: "perform_effect env context j run e = (ra, r)" by force
  from Cons.prems(1-3) p show ?case
  proof (cases rule: perform_effect_cases)
    case kept
    show ?thesis
    proof (cases r)
      case (Inl err')
      with Cons.prems(5) p kept show ?thesis by simp
    next
      case (Inr u)
      then have "perform_effects env context j ra es = (run', Inl err)" using Cons.prems(5) p by simp
      with Cons.IH [of ra] Cons.prems(1-3) Cons.prems(4) [of "e # pre" for pre] kept show ?thesis by simp
    qed
  next
    case (committed nxt now)
    then have "effect_version e \<noteq> None" by (auto simp: apply_committed_Inr)
    with Cons.prems(4) [of "[]"] have "list_all unfailing es" by simp
    with perform_unfailing [of es env "context" j ra] Cons.prems(5) p committed(2) show ?thesis by auto
  qed
qed simp

lemma reduce_locked_atomic:
  assumes ok: "md_ok (nz_store env) (nw_db w)" and "cmd \<noteq> DerCancel"
    and reduce: "reduce_locked env j cmd context w = (w', Inl err)"
  shows "nw_db w' = nw_db w"
proof (cases "find_row (nw_db w) j")
  case None
  with reduce show ?thesis by (auto simp: reduce_locked_def load_derivation_ok [OF ok])
next
  case (Some row)
  let ?s = "dr_snapshot row"
  let ?w = "if clears_stop cmd then w\<lparr>nw_stop := (nw_stop w)(j := None)\<rparr> else w"
  let ?run = "\<lparr>nr_world = ?w, nr_domain = ?s, nr_after = None, nr_dispatch = False,
    nr_await = False, nr_remove = False, nr_stop = None\<rparr>"
  have load: "load_derivation env w j = Inr (Some ?s)"
    by (simp add: load_derivation_ok [OF ok] Some)
  have re: "rehydrate ?s = Inr ?s" by (rule rehydrate_wf [OF md_ok_found(2) [OF ok Some]])
  show ?thesis
  proof (cases "der_decide ?s cmd")
    case (DerAccepted effs)
    obtain run res' where p: "perform_effects env context j ?run effs = (run, res')" by force
    have res': "res' = Inl err" and w': "nw_db w' = nw_db (nr_world run)"
      using reduce load re DerAccepted p
      by (auto simp: reduce_locked_def Let_def split: sum.splits if_splits)
    have "md_ok (nz_store env) (nw_db (nr_world ?run))" "find_row (nw_db (nr_world ?run)) j = Some row"
      "nr_domain ?run = dr_snapshot row" using ok Some by simp_all
    then have "nw_db (nr_world run) = nw_db (nr_world ?run)"
    proof (rule perform_effects_atomic [OF _ _ _ _ p [unfolded res']])
      show "list_all unfailing rest" if "effs = pre @ e # rest" "effect_version e \<noteq> None" for pre e rest
        using decide_tail [of ?s cmd pre e rest] DerAccepted that assms(2) by simp
    qed
    with w' show ?thesis by simp
  qed (use reduce load re in \<open>auto simp: reduce_locked_def Let_def split: if_splits\<close>)
qed

lemma reduce_locked_return:
  assumes ok: "md_ok (nz_store env) (nw_db w)"
    and reduce: "reduce_locked env j cmd context w = (w', Inr (LockedReturn s))"
  shows "nw_db w' = nw_db w" and "\<exists>row. find_row (nw_db w) j = Some row \<and> s = dr_snapshot row
    \<and> der_decide s cmd = DerNoOp"
  using reduce rehydrate_wf md_ok_found(2) [OF ok]
  by (auto simp: reduce_locked_def load_derivation_ok [OF ok] Let_def
      split: option.splits sum.splits derivation_decision.splits prod.splits if_splits)

text \<open>The local variables that a successful run of effects leaves.\<close>

fun asked_stop :: "process_stop_reason option \<Rightarrow> derivation_effect list \<Rightarrow> process_stop_reason option" where
  "asked_stop stop [] = stop"
| "asked_stop stop (e # es) =
     asked_stop (case e of EfRequestProcessStop reason \<Rightarrow> Some reason | _ \<Rightarrow> stop) es"

definition flags_after :: "nz_run \<Rightarrow> derivation_effect list \<Rightarrow> nz_run \<Rightarrow> bool" where
  "flags_after run es run' \<longleftrightarrow>
     (nr_await run' \<longleftrightarrow> nr_await run \<or> EfAwaitProcessReap \<in> set es)
     \<and> (nr_dispatch run' \<longleftrightarrow> nr_dispatch run \<or> EfDispatch \<in> set es)
     \<and> (nr_remove run' \<longleftrightarrow> nr_remove run \<or> EfRemoveJob \<in> set es)
     \<and> nr_stop run' = asked_stop (nr_stop run) es
     \<and> nw_active (nr_world run') = nw_active (nr_world run)"

lemma accept_swap_flags:
  "accept_swap run v r = (run', Inr ()) \<Longrightarrow> flags_after run [] run'"
  by (auto simp: accept_swap_def flags_after_def Let_def
      split: prod.splits sum.splits snapshot_swap_outcome.splits)

lemma perform_effect_flags:
  "perform_effect env context j run e = (run', Inr ()) \<Longrightarrow> flags_after run [e] run'"
  by (cases e)
     (auto split: sum.splits option.splits if_splits dest!: accept_swap_flags simp: flags_after_def)

lemma perform_flags:
  assumes "perform_effects env context j run es = (run', Inr ())"
  shows "flags_after run es run'"
  using assms
proof (induction es arbitrary: run)
  case (Cons e es)
  then obtain ra where "perform_effect env context j run e = (ra, Inr ())"
    "perform_effects env context j ra es = (run', Inr ())"
    by (auto split: prod.splits sum.splits)
  with perform_effect_flags Cons.IH show ?case by (fastforce simp: flags_after_def)
qed (simp add: flags_after_def)

lemma reduce_locked_flags:
  assumes ok: "md_ok (nz_store env) (nw_db w)" and row: "find_row (nw_db w) j = Some row"
    and effs: "der_decide (dr_snapshot row) cmd = DerAccepted effs" "EfRemoveJob \<notin> set effs"
    and reduce: "reduce_locked env j cmd context w = (w', Inr (LockedRun run))"
  shows "nr_await run \<longleftrightarrow> EfAwaitProcessReap \<in> set effs" and "nr_dispatch run \<longleftrightarrow> EfDispatch \<in> set effs"
    and "nr_stop run = asked_stop None effs" and "nw_active w' = nw_active w"
proof -
  let ?s = "dr_snapshot row"
  let ?w = "if clears_stop cmd then w\<lparr>nw_stop := (nw_stop w)(j := None)\<rparr> else w"
  let ?run = "\<lparr>nr_world = ?w, nr_domain = ?s, nr_after = None, nr_dispatch = False,
    nr_await = False, nr_remove = False, nr_stop = None\<rparr>"
  have load: "load_derivation env w j = Inr (Some ?s)"
    by (simp add: load_derivation_ok [OF ok] row)
  have re: "rehydrate ?s = Inr ?s" by (rule rehydrate_wf [OF md_ok_found(2) [OF ok row]])
  obtain run1 res1 where p: "perform_effects env context j ?run effs = (run1, res1)" by force
  from reduce load re effs p have res1: "res1 = Inr ()"
    by (auto simp: reduce_locked_def Let_def split: sum.splits)
  note f = perform_flags [OF p [unfolded res1]]
  then have "run = run1 \<and> w' = nr_world run1"
    using reduce load re effs p res1 by (auto simp: reduce_locked_def Let_def flags_after_def)
  with f show "nr_await run \<longleftrightarrow> EfAwaitProcessReap \<in> set effs"
    "nr_dispatch run \<longleftrightarrow> EfDispatch \<in> set effs" "nr_stop run = asked_stop None effs"
    "nw_active w' = nw_active w"
    by (auto simp: flags_after_def)
qed

text \<open>An outside world in which nothing fails.\<close>

definition env_works :: "nz_env \<Rightarrow> bool" where
  "env_works env \<longleftrightarrow>
     (\<forall>v. nz_sqlite_ok env v) \<and> (\<forall>v. nz_clock env v \<noteq> []) \<and> (\<forall>j i. nz_discard_ok env j i)"

lemma perform_quiet_succeeds:
  assumes "env_works env" and "effect_version e = None"
  shows "\<exists>run'. perform_effect env context j run e = (run', Inr ())
    \<and> nw_db (nr_world run') = nw_db (nr_world run) \<and> nr_domain run' = nr_domain run"
  using assms by (cases e) (auto simp: env_works_def)

lemma perform_swap_succeeds:
  assumes works: "env_works env" and ok: "md_ok (nz_store env) (nw_db (nr_world run))"
    and row: "find_row (nw_db (nr_world run)) j = Some row" and dom: "nr_domain run = dr_snapshot row"
    and e: "\<not> publishes e" "apply_committed_effect (dr_snapshot row) e = Inr nxt"
    and live: "\<not> der_is_terminal (de_state (dr_snapshot row))" "\<not> der_is_terminal (de_state nxt)"
    and nxt: "der_wf nxt" "list_all checkpoint_consistent (de_checkpoints nxt)"
    and room: "unat (de_version (dr_snapshot row)) + 1 < 2 ^ 63"
      "unat (md_revision (nw_db (nr_world run))) < 2 ^ 63 - 1"
  shows "\<exists>run'. perform_effect env context j run e = (run', Inr ())
    \<and> nr_domain run' = nxt \<and> md_revision (nw_db (nr_world run')) = md_revision (nw_db (nr_world run)) + 1"
proof -
  let ?db = "nw_db (nr_world run)" and ?v = "de_version (dr_snapshot row)"
  note a = apply_version [OF e(2)]
  obtain new where new: "de_checkpoints nxt = de_checkpoints (dr_snapshot row) @ new"
    using apply_ledger(2) [OF e(2)] md_ok_found(2) [OF ok row] by (auto simp: der_wf_def ledger_ok_def)
  obtain db' stored where cas: "compare_and_swap_derivation_snapshot (nz_store env) ?db ?v nxt
      (nz_clock env ?v) = Inr (db', SwapApplied stored)" "md_revision db' = md_revision ?db + 1"
    using cas_succeeds [OF ok row live(1) refl room(1) live(2) nxt(1) a(2,3) new nxt(2) room(2),
        of "nz_clock env ?v"] works by (auto simp: env_works_def)
  have "sd_snapshot stored = nxt" using cas_applied [OF ok cas(1)] by metis
  then have "nz_compare_and_swap env ?db ?v nxt = (db', Inr (SnapApplied nxt))"
    using cas works by (simp add: nz_compare_and_swap_def in_sqlite_def env_works_def)
  moreover have "effect_version e = Some ?v" using e(2) unfolding apply_committed_Inr by blast
  ultimately show ?thesis
    using perform_swapped [OF _ e(1), of ?v env "context" j run] e(2) dom
      accept_swap_applied [OF nxt(1), of "SnapApplied nxt" run ?v db'] cas(2) by auto
qed

lemma perform_quiet_list_succeeds:
  assumes "env_works env" and "persistent es = []"
  shows "\<exists>run'. perform_effects env context j run es = (run', Inr ())
    \<and> nw_db (nr_world run') = nw_db (nr_world run) \<and> nr_domain run' = nr_domain run"
  using assms(2)
proof (induction es arbitrary: run)
  case (Cons e es)
  then have "effect_version e = None" "persistent es = []"
    by (auto simp: persistent_def split: if_splits)
  with perform_quiet_succeeds [OF assms(1), of e "context" j run] Cons.IH show ?case by fastforce
qed simp

lemma perform_effects_succeed:
  assumes works: "env_works env" and es: "persistent es = [e]"
    and ok: "md_ok (nz_store env) (nw_db (nr_world run))"
    and row: "find_row (nw_db (nr_world run)) j = Some row" and dom: "nr_domain run = dr_snapshot row"
    and e: "\<not> publishes e" "apply_committed_effect (dr_snapshot row) e = Inr nxt"
    and live: "\<not> der_is_terminal (de_state (dr_snapshot row))" "\<not> der_is_terminal (de_state nxt)"
    and nxt: "der_wf nxt" "list_all checkpoint_consistent (de_checkpoints nxt)"
    and room: "unat (de_version (dr_snapshot row)) + 1 < 2 ^ 63"
      "unat (md_revision (nw_db (nr_world run))) < 2 ^ 63 - 1"
  shows "\<exists>run'. perform_effects env context j run es = (run', Inr ())
    \<and> nr_domain run' = nxt \<and> md_revision (nw_db (nr_world run')) = md_revision (nw_db (nr_world run)) + 1"
  using es ok row dom room(2)
proof (induction es arbitrary: run)
  case (Cons f es)
  show ?case
  proof (cases "effect_version f = None")
    case True
    then have es: "persistent es = [e]" using Cons.prems(1) by (simp add: persistent_def)
    from perform_quiet_succeeds [OF works True, of "context" j run] obtain ra where
      ra: "perform_effect env context j run f = (ra, Inr ())"
        "nw_db (nr_world ra) = nw_db (nr_world run)" "nr_domain ra = nr_domain run" by blast
    with Cons.IH [of ra] es Cons.prems(2-5) show ?thesis by simp
  next
    case False
    then have f: "f = e" "persistent es = []" using Cons.prems(1) by (auto simp: persistent_def)
    from perform_swap_succeeds [OF works Cons.prems(2-4) e live nxt room(1) Cons.prems(5), of "context"]
    obtain ra where ra: "perform_effect env context j run e = (ra, Inr ())" "nr_domain ra = nxt"
      "md_revision (nw_db (nr_world ra)) = md_revision (nw_db (nr_world run)) + 1" by blast
    from perform_quiet_list_succeeds [OF works f(2), of "context" j ra] obtain rb where
      "perform_effects env context j ra es = (rb, Inr ())"
      "nw_db (nr_world rb) = nw_db (nr_world ra)" "nr_domain rb = nr_domain ra" by blast
    with ra f show ?thesis by simp
  qed
qed (simp add: persistent_def)

lemma reduce_locked_succeeds:
  assumes works: "env_works env" and ok: "md_ok (nz_store env) (nw_db w)"
    and row: "find_row (nw_db w) j = Some row"
    and effs: "der_decide (dr_snapshot row) cmd = DerAccepted effs" "persistent effs = [e]"
    and e: "\<not> publishes e" "apply_committed_effect (dr_snapshot row) e = Inr nxt"
    and live: "\<not> der_is_terminal (de_state (dr_snapshot row))" "\<not> der_is_terminal (de_state nxt)"
    and nxt: "der_wf nxt" "list_all checkpoint_consistent (de_checkpoints nxt)"
    and room: "unat (de_version (dr_snapshot row)) + 1 < 2 ^ 63" "unat (md_revision (nw_db w)) < 2 ^ 63 - 1"
  shows "\<exists>w' run row'. reduce_locked env j cmd context w = (w', Inr (LockedRun run))
    \<and> find_row (nw_db w') j = Some row' \<and> dr_snapshot row' = nxt
    \<and> md_revision (nw_db w') = md_revision (nw_db w) + 1"
proof -
  let ?s = "dr_snapshot row"
  let ?w = "if clears_stop cmd then w\<lparr>nw_stop := (nw_stop w)(j := None)\<rparr> else w"
  let ?run = "\<lparr>nr_world = ?w, nr_domain = ?s, nr_after = None, nr_dispatch = False,
    nr_await = False, nr_remove = False, nr_stop = None\<rparr>"
  have load: "load_derivation env w j = Inr (Some ?s)"
    by (simp add: load_derivation_ok [OF ok] row)
  have re: "rehydrate ?s = Inr ?s" by (rule rehydrate_wf [OF md_ok_found(2) [OF ok row]])
  have start: "md_ok (nz_store env) (nw_db (nr_world ?run))"
    "find_row (nw_db (nr_world ?run)) j = Some row" "nr_domain ?run = ?s"
    "unat (md_revision (nw_db (nr_world ?run))) < 2 ^ 63 - 1"
    using ok row room(2) by simp_all
  from perform_effects_succeed [OF works effs(2) start(1-3) e live nxt room(1) start(4), of "context"]
  obtain run1 where p: "perform_effects env context j ?run effs = (run1, Inr ())"
    "nr_domain run1 = nxt" "md_revision (nw_db (nr_world run1)) = md_revision (nw_db w) + 1" by auto
  note q = perform_effects_Inr [OF start(1-3) p(1)]
  then obtain row' where "find_row (nw_db (nr_world run1)) j = Some row'" "dr_snapshot row' = nxt"
    using p(2) by auto
  with load re effs(1) p show ?thesis by (auto simp: reduce_locked_def Let_def)
qed

text \<open>
  A run of commands the reducer accepts one after the other, each with one persistent effect
  that takes a live job to a live job: what every report of a worker up to the commit does.
\<close>

definition live_step :: "derivation_job \<Rightarrow> derivation_effect \<Rightarrow> derivation_job \<Rightarrow> bool" where
  "live_step job e job' \<longleftrightarrow>
     unguarded job e \<and> \<not> publishes e \<and> \<not> der_is_terminal (de_state job)
     \<and> \<not> der_is_terminal (de_state job') \<and> list_all checkpoint_consistent (de_checkpoints job')
     \<and> length (de_checkpoints job') < 2 ^ 32 \<and> unat (de_version job) + 1 < 2 ^ 63"

fun accepted_run :: "derivation_job \<Rightarrow> derivation_command list \<Rightarrow> bool" where
  "accepted_run job [] = True"
| "accepted_run job (cmd # cmds) =
     (case der_decide job cmd of
        DerAccepted effs \<Rightarrow>
          (case persistent effs of
             [e] \<Rightarrow>
               (case apply_committed_effect job e of
                  Inl _ \<Rightarrow> False
                | Inr job' \<Rightarrow> live_step job e job' \<and> accepted_run job' cmds)
           | _ \<Rightarrow> False)
      | _ \<Rightarrow> False)"

lemma accepted_step:
  assumes "accepted_run job (cmd # cmds)"
  obtains effs e job' where "der_decide job cmd = DerAccepted effs" "persistent effs = [e]"
    "apply_committed_effect job e = Inr job'" "live_step job e job'" "accepted_run job' cmds"
    "run_command job cmd = job'"
proof -
  from assms obtain effs e job' where d: "der_decide job cmd = DerAccepted effs" "persistent effs = [e]"
    "apply_committed_effect job e = Inr job'" "live_step job e job'" "accepted_run job' cmds"
    by (auto split: derivation_decision.splits list.splits sum.splits)
  then have "apply_effects job effs = Inr job'"
    by (auto simp: apply_effects_persistent [of job effs] apply_committed_Inr)
  with d show thesis by (intro that [of effs e job']) (simp_all add: run_command_def)
qed

lemma ready_step:
  assumes ready: "der_ready job" and effs: "der_decide job cmd = DerAccepted effs" "persistent effs = [e]"
    and applied: "apply_committed_effect job e = Inr job'" and live: "live_step job e job'"
  shows "der_ready job'"
proof -
  have adm: "admissible job e"
    using decided_effects [OF effs(1)] effs(2) applied by auto
  have version: "effect_version e = Some (de_version job)" "unat (de_version job) + 1 < 2 ^ 64"
    using applied live unfolding apply_committed_Inr live_step_def by auto
  have "unguarded job e" "de_state job \<noteq> DerDerivedVerified" using live by (auto simp: live_step_def)
  from admissible_apply [OF ready adm this(1) version(1) this(2) version(2)] applied
  have "der_wf job'" "current_planned job' (de_media_plan job')" by auto
  with live show ?thesis by (simp add: live_step_def der_ready_def)
qed

lemma run_carried_out:
  assumes "nz_reaches env idle_world w" and "find_row (nw_db w) j = Some row"
    and "env_works env" and "der_ready (dr_snapshot row)" and "accepted_run (dr_snapshot row) cmds"
    and "unat (md_revision (nw_db w)) + length cmds < 2 ^ 63"
  shows "\<exists>w' row'. nz_reaches env w w' \<and> find_row (nw_db w') j = Some row'
    \<and> dr_snapshot row' = run_commands (dr_snapshot row) cmds"
  using assms
proof (induction cmds arbitrary: w row)
  case Nil
  then show ?case by (auto simp: run_commands_def intro: nz_here)
next
  case (Cons cmd cmds)
  note ok = reachable_ok(1) [OF Cons.prems(1)]
  obtain effs e job' where d: "der_decide (dr_snapshot row) cmd = DerAccepted effs"
    "persistent effs = [e]" "apply_committed_effect (dr_snapshot row) e = Inr job'"
    "live_step (dr_snapshot row) e job'" "accepted_run job' cmds"
    "run_command (dr_snapshot row) cmd = job'"
    by (rule accepted_step [OF Cons.prems(5)])
  have ready: "der_ready job'" by (rule ready_step [OF Cons.prems(4) d(1-4)])
  then have wf: "der_wf job'" by (simp add: der_ready_def)
  have c: "\<not> publishes e" "\<not> der_is_terminal (de_state (dr_snapshot row))"
    "\<not> der_is_terminal (de_state job')" "list_all checkpoint_consistent (de_checkpoints job')"
    "unat (de_version (dr_snapshot row)) + 1 < 2 ^ 63"
    using d(4) by (simp_all add: live_step_def)
  have room: "unat (md_revision (nw_db w)) < 2 ^ 63 - 1" using Cons.prems(6) by simp
  obtain w1 run row1 where l: "reduce_locked env j cmd None w = (w1, Inr (LockedRun run))"
    "find_row (nw_db w1) j = Some row1" "dr_snapshot row1 = job'"
    "md_revision (nw_db w1) = md_revision (nw_db w) + 1"
    using reduce_locked_succeeds [OF Cons.prems(3) ok Cons.prems(2) d(1,2) c(1) d(3) c(2,3) wf c(4,5) room]
    by blast
  note w1 = nz_reaches_reduction [OF l(1)]
  have rev: "unat (md_revision (nw_db w1)) = unat (md_revision (nw_db w)) + 1"
    using l(4) Cons.prems(6) checked_succ(2) [of "md_revision (nw_db w)"] by simp
  from Cons.IH [of w1 row1] nz_reaches_trans [OF w1 Cons.prems(1)] l Cons.prems(3,6) ready d(5) rev
  obtain w' row' where "nz_reaches env w1 w'" "find_row (nw_db w') j = Some row'"
    "dr_snapshot row' = run_commands job' cmds" by auto
  with nz_reaches_trans [OF _ w1] d(6) show ?case by (auto simp: run_commands_def)
qed

section \<open>Samples\<close>

definition sample_nz_env :: nz_env where
  "sample_nz_env = \<lparr>nz_store = sample_store_env, nz_sqlite_ok = (\<lambda>_. True), nz_clock = (\<lambda>_. ''t1''),
     nz_sha256 = (\<lambda>s. s), nz_inventory_sha256 = (\<lambda>_. ''''), nz_discard_ok = (\<lambda>_ _. True),
     nz_enqueue_ok = (\<lambda>_. True)\<rparr>"

definition sample_world :: nz_world where
  "sample_world = idle_world\<lparr>nw_db := sample_created_db\<rparr>"

lemma sample_world_reached: "nz_reaches sample_nz_env idle_world sample_world"
proof -
  have "create_derivation_job (nz_store sample_nz_env) (nw_db idle_world) sample_derivation_spec ''t0''
     = Inr (sample_created_db,
         DerCreated (stored_of (new_derivation_row sample_store_env sample_derivation ''t0'')))"
    using sample_created_step by (simp add: sample_nz_env_def idle_world_def)
  from nz_next [OF nz_here nz_start [OF this]] show ?thesis by (simp add: sample_world_def)
qed

lemma sample_world_row:
  "find_row (nw_db sample_world) ''d1'' = Some (new_derivation_row sample_store_env sample_derivation ''t0'')"
  "dr_snapshot (new_derivation_row sample_store_env sample_derivation ''t0'') = sample_derivation"
  using sample_row_found(1) by (simp_all add: sample_world_def new_derivation_row_def Let_def)

section \<open>Properties\<close>


text \<open>
  The executor cannot record a failure or a finished cancellation. A report that a stage
  failed, the report that a process was stopped for a cancellation, and the finalization of a
  cancellation always return an error and leave the database as it was, however well the
  store works: the store takes terminal snapshots only through its completing operation,
  which the executor calls for verified jobs alone. So no durable job is ever failed or
  cancelled.
\<close>

theorem failure_and_cancel_never_recorded:
  assumes "nz_reaches env idle_world w" and "reduce_locked env j cmd context w = (w', res)"
    and "cmd = DerFinalizeCancel \<or> cmd = DerWorker (ProcessStopped StopCancel)
      \<or> cmd = DerWorker (StageFailed code retryable)"
  shows "(\<exists>err. res = Inl err) \<and> nw_db w' = nw_db w
    \<and> (\<forall>row. find_row (nw_db w) j = Some row \<longrightarrow> de_state (dr_snapshot row) \<noteq> DerCancelled
         \<and> de_state (dr_snapshot row) \<noteq> DerFailed code retryable)"
proof -
  note ok = reachable_ok(1) [OF assms(1)] and inv = reachable_ok(2) [OF assms(1)]
  have ended: "\<exists>v to. persistent effs = [EfCommitState v to] \<and> der_is_terminal to \<and> to \<noteq> DerDerivedVerified"
    if "der_decide s cmd = DerAccepted effs" for s effs
    using assms(3) that by (auto simp: der_handlers persistent_def split: if_splits option.splits)
  have "\<not> (\<exists>s. der_decide s cmd = DerNoOp)"
    using assms(3) by (auto simp: der_handlers split: if_splits option.splits)
  with reduce_locked_return(2) [OF ok] assms(2) have "\<nexists>s. res = Inr (LockedReturn s)" by blast
  moreover have "\<nexists>run. res = Inr (LockedRun run)"
  proof
    assume "\<exists>run. res = Inr (LockedRun run)"
    then obtain run where run: "res = Inr (LockedRun run)" by blast
    obtain row effs row' where
      d: "der_decide (dr_snapshot row) cmd = DerAccepted effs"
        "apply_effects (dr_snapshot row) effs = Inr (dr_snapshot row')" "find_row (nw_db w') j = Some row'"
        "find_row (nw_db w) j = Some row"
      by (rule reduce_locked_Inr [OF ok assms(2) [unfolded run]])
    obtain v to where "persistent effs = [EfCommitState v to]" "der_is_terminal to" "to \<noteq> DerDerivedVerified"
      using ended [OF d(1)] by blast
    with d(2) have "der_is_terminal (de_state (dr_snapshot row'))"
      "de_state (dr_snapshot row') \<noteq> DerDerivedVerified"
      by (auto simp: apply_effects_persistent [of _ effs] apply_committed_Inr elim!: and_then_InrE
          simp del: and_then_Inr)
    moreover have "durable_ok (nw_db w')"
      using nz_step_keeps [OF nz_reduction [OF assms(2)] ok inv] by blast
    ultimately show False using d(3) by (auto dest: durable_okD(2))
  qed
  ultimately obtain err where err: "res = Inl err" by (cases res) (metis nz_locked.exhaust)+
  have "cmd \<noteq> DerCancel" using assms(3) by auto
  from reduce_locked_atomic [OF ok this assms(2) [unfolded err]] err durable_okD(2) [OF inv]
  show ?thesis by (metis der_is_terminal.simps(2,3) derivation_state.distinct)
qed

text \<open>
  A reduction is all or nothing for every command but a cancellation: when it returns an
  error the database is as it was; when it ignores the command the stored job is returned as
  it is; when it succeeds the stored job is the one that all effects of the decision make of
  the job that was stored before.
\<close>

theorem reduction_all_or_nothing:
  assumes "nz_reaches env idle_world w" and "cmd \<noteq> DerCancel"
    and "reduce_locked env j cmd context w = (w', res)"
  shows "case res of
      Inl err \<Rightarrow> nw_db w' = nw_db w
    | Inr (LockedReturn s) \<Rightarrow> nw_db w' = nw_db w \<and> der_decide s cmd = DerNoOp
        \<and> (\<exists>row. find_row (nw_db w) j = Some row \<and> s = dr_snapshot row)
    | Inr (LockedRun run) \<Rightarrow>
        (\<exists>row effs row'. find_row (nw_db w) j = Some row
           \<and> der_decide (dr_snapshot row) cmd = DerAccepted effs
           \<and> find_row (nw_db w') j = Some row'
           \<and> apply_effects (dr_snapshot row) effs = Inr (dr_snapshot row'))"
proof -
  note ok = reachable_ok(1) [OF assms(1)]
  show ?thesis
  proof (cases res)
    case (Inl err)
    with reduce_locked_atomic [OF ok assms(2) assms(3) [unfolded Inl]] show ?thesis by simp
  next
    case (Inr l)
    show ?thesis
    proof (cases l)
      case (LockedReturn s)
      from reduce_locked_return [OF ok assms(3) [unfolded Inr LockedReturn]] Inr LockedReturn
      show ?thesis by auto
    next
      case (LockedRun run)
      obtain row effs row' where
        "find_row (nw_db w) j = Some row" "der_decide (dr_snapshot row) cmd = DerAccepted effs"
        "apply_effects (dr_snapshot row) effs = Inr (dr_snapshot row')"
        "find_row (nw_db w') j = Some row'"
        by (rule reduce_locked_Inr [OF ok assms(3) [unfolded Inr LockedRun]])
      with Inr LockedRun show ?thesis by auto
    qed
  qed
qed

lemma pause_applied:
  assumes "der_decide job DerPause = DerAccepted effs" and "apply_effects job effs = Inr job'"
  shows "de_desired job' = DerPaused" and "de_state job' = de_state job"
proof -
  have "persistent effs = [EfSetDesiredState (de_version job) DerPaused]"
    using assms(1) by (auto simp: der_pause_def persistent_def split: if_splits)
  with assms(2) show "de_desired job' = DerPaused" "de_state job' = de_state job"
    by (auto simp: apply_effects_persistent [of job effs] apply_committed_Inr elim!: and_then_InrE
        simp del: and_then_Inr)
qed

lemma stop_applied:
  assumes "der_decide job (DerWorker (ProcessStopped StopPause)) = DerAccepted effs"
    and "apply_effects job effs = Inr job'"
  shows "de_desired job' = de_desired job" and "de_state job' = DerRetryWait"
proof -
  have "persistent effs = [EfCommitState (de_version job) DerRetryWait]"
    using assms(1) by (auto simp: der_handlers persistent_def split: if_splits option.splits)
  with assms(2) show "de_desired job' = de_desired job" "de_state job' = DerRetryWait"
    by (auto simp: apply_effects_persistent [of job effs] apply_committed_Inr elim!: and_then_InrE
        simp del: and_then_Inr)
qed

lemma finish_quiet:
  assumes "md_ok (nz_store env) (nw_db w)" and "find_row (nw_db w) j = Some row"
  shows "finish_reduction env others j False False schedule after w
    = (w, Inr (Some (dr_snapshot row)))"
  using assms(2) by (simp add: finish_reduction_def Let_def load_derivation_ok [OF assms(1)])

text \<open>A settled pause leaves the job waiting.\<close>

lemma settle_pause:
  assumes ok: "md_ok (nz_store env) (nw_db w)"
    and row: "find_row (nw_db w) j = Some row" "de_desired (dr_snapshot row) = DerPaused"
    and settle: "settle_stop env others j StopPause w = (w', Inr result)"
  obtains row' where "find_row (nw_db w') j = Some row'" and "md_ok (nz_store env) (nw_db w')"
    and "de_desired (dr_snapshot row') = DerPaused" and "de_state (dr_snapshot row') = DerRetryWait"
proof -
  let ?cmd = "DerWorker (ProcessStopped StopPause)"
  obtain w1 r where l: "reduce_locked env j ?cmd None w = (w1, r)" by force
  have noop: "der_decide s ?cmd \<noteq> DerNoOp" for s
    by (auto simp: der_handlers split: if_splits option.splits)
  obtain run where run: "r = Inr (LockedRun run)"
  proof (cases r)
    case (Inl e)
    with l settle show thesis by (simp add: settle_stop_def)
  next
    case (Inr k)
    show thesis
    proof (cases k)
      case (LockedReturn s)
      from reduce_locked_return(2) [OF ok l [unfolded Inr LockedReturn]] noop show thesis by blast
    qed (use Inr that in blast)
  qed
  obtain row0 effs row' where d: "find_row (nw_db w) j = Some row0"
    "der_decide (dr_snapshot row0) ?cmd = DerAccepted effs"
    "apply_effects (dr_snapshot row0) effs = Inr (dr_snapshot row')"
    "find_row (nw_db w1) j = Some row'" "md_ok (nz_store env) (nw_db w1)"
    by (rule reduce_locked_Inr [OF ok l [unfolded run]])
  note q = stop_report_quiet [OF d(2)]
  have f: "\<not> nr_await run" "\<not> nr_dispatch run"
    using reduce_locked_flags(1,2) [OF ok d(1,2) _ l [unfolded run]] q by simp_all
  have "w' = w1" using settle l run f finish_quiet [OF d(5,4)] by (simp add: settle_stop_def)
  with d stop_applied [OF d(2,3)] row show thesis by (intro that [of row']) simp_all
qed

text \<open>
  A pause that returns success while no process of the job is running has taken effect
  durably: the job wants to be paused and is in no active stage, so no worker that starts
  later takes it on.
\<close>

theorem pause_is_durable:
  assumes "nz_reaches env idle_world w" and "find_row (nw_db w) j = Some row"
    and "de_desired (dr_snapshot row) = DerRun" and "\<not> nw_active w j"
    and "nz_reduce env others j DerPause schedule None w = (w', Inr result)"
  shows "\<exists>row'. find_row (nw_db w') j = Some row' \<and> result = Some (dr_snapshot row')
    \<and> de_desired (dr_snapshot row') = DerPaused \<and> \<not> der_is_active (de_state (dr_snapshot row'))"
proof -
  note ok = reachable_ok(1) [OF assms(1)]
  obtain w1 r where l: "reduce_locked env j DerPause None w = (w1, r)" by force
  obtain run where run: "r = Inr (LockedRun run)"
  proof (cases r)
    case (Inl e)
    with l assms(5) show thesis by (simp add: nz_reduce_def)
  next
    case (Inr k)
    show thesis
    proof (cases k)
      case (LockedReturn s)
      from reduce_locked_return(2) [OF ok l [unfolded Inr LockedReturn]] assms(2,3) show thesis
        by (auto simp: der_pause_def split: if_splits)
    qed (use Inr that in blast)
  qed
  obtain row0 effs row1 where d: "find_row (nw_db w) j = Some row0"
    "der_decide (dr_snapshot row0) DerPause = DerAccepted effs"
    "apply_effects (dr_snapshot row0) effs = Inr (dr_snapshot row1)"
    "find_row (nw_db w1) j = Some row1" "md_ok (nz_store env) (nw_db w1)"
    by (rule reduce_locked_Inr [OF ok l [unfolded run]])
  note p = pause_applied [OF d(2,3)]
  have shape: "EfRemoveJob \<notin> set effs" "EfDispatch \<notin> set effs"
    "if der_is_active (de_state (dr_snapshot row0))
     then EfAwaitProcessReap \<in> set effs \<and> asked_stop None effs = Some StopPause
     else EfAwaitProcessReap \<notin> set effs"
    using d(2) by (auto simp: der_pause_def split: if_splits)
  note f = reduce_locked_flags [OF ok d(1,2) shape(1) l [unfolded run]]
  show ?thesis
  proof (cases "der_is_active (de_state (dr_snapshot row0))")
    case False
    then have "nz_reduce env others j DerPause schedule None w = (w1, Inr (Some (dr_snapshot row1)))"
      using l run f shape finish_quiet [OF d(5,4)] by (simp add: nz_reduce_def)
    with assms(5) d(4) p False show ?thesis by auto
  next
    case True
    obtain w2 r2 where s: "settle_stop env others j StopPause w1 = (w2, r2)" by force
    have asked: "(if nr_await run \<and> \<not> nw_active w1 j then nr_stop run else None) = Some StopPause"
      using True f shape assms(4) by simp
    have reduce: "(case r2 of Inl e \<Rightarrow> (w2, Inl e)
        | Inr _ \<Rightarrow> finish_reduction env others j False False schedule (nr_after run) w2)
      = (w', Inr result)"
      using assms(5) l run s f(2) shape(2) by (simp add: nz_reduce_def asked)
    then obtain result2 where r2: "r2 = Inr result2" by (cases r2) auto
    obtain row2 where "find_row (nw_db w2) j = Some row2" "md_ok (nz_store env) (nw_db w2)"
      "de_desired (dr_snapshot row2) = DerPaused" "de_state (dr_snapshot row2) = DerRetryWait"
      by (rule settle_pause [OF d(5,4) p(1) s [unfolded r2]])
    with reduce r2 finish_quiet show ?thesis by auto
  qed
qed

section \<open>The sample derivation up to its validation\<close>

definition sample_checkpoint :: "nat \<Rightarrow> segment_pair_checkpoint" where
  "sample_checkpoint n = derived_checkpoint (me_segment_pairs sample_plan ! n)"

definition sample_reports :: "derivation_command list" where
  "sample_reports =
     [DerSourceAvailable, DerWorker (ProbeCompleted sample_probes),
      DerWorker (PlanCompleted sample_plan), DerWorker (PairStarted 0),
      DerWorker (PairCheckpointed (sample_checkpoint 0)), DerWorker (PairStarted 1),
      DerWorker (PairCheckpointed (sample_checkpoint 1))]"

lemma sample_checkpoint_in:
  assumes "n < 2"
  shows "me_segment_pairs sample_plan ! n \<in> set (me_segment_pairs sample_plan)"
  using assms by (intro nth_mem) (simp add: sample_plan_def)

lemma sample_checkpoint_facts:
  "map cp_segment_index [sample_checkpoint 0, sample_checkpoint 1] = [0, 1]"
  "n < 2 \<Longrightarrow> cp_profile_revision (sample_checkpoint n) = dj_profile_revision sample_derivation_spec"
  "n < 2 \<Longrightarrow> cp_encoder_build_fingerprint (sample_checkpoint n) = dj_fingerprint sample_derivation_spec"
proof -
  have "[sample_checkpoint 0, sample_checkpoint 1] = map derived_checkpoint (me_segment_pairs sample_plan)"
    by (simp add: sample_checkpoint_def sample_plan_def)
  then show "map cp_segment_index [sample_checkpoint 0, sample_checkpoint 1] = [0, 1]"
    using sample_checkpoint_index by (simp only: map_map comp_def)
  show "cp_profile_revision (sample_checkpoint n) = dj_profile_revision sample_derivation_spec"
    "cp_encoder_build_fingerprint (sample_checkpoint n) = dj_fingerprint sample_derivation_spec"
    if "n < 2"
    using validated_checkpointD(2,3) [OF derived_validated [rule_format, OF sample_checkpoint_in [OF that]]]
    by (simp_all add: sample_checkpoint_def dj_profile_revision_def dj_fingerprint_def
        sample_derivation_spec_def)
qed

lemma sample_checkpoint_consistent:
  assumes "n < 2"
  shows "checkpoint_consistent (sample_checkpoint n)"
proof -
  let ?p = "me_segment_pairs sample_plan ! n"
  note p = sample_checkpoint_in [OF assms]
  have "manifest_path_ok False ''video/pairs''" "short_text 512 ''receipt''" by code_simp+
  then have "derived_checkpoint ?p =
      \<lparr>cp_segment_index = sp_segment_index ?p,
       cp_profile_revision = np_profile_revision sample_profile,
       cp_encoder_build_fingerprint = eb_build_fingerprint derived_build,
       cp_left = output_entry ?p (rp_left (derived_report ?p)) VideoLeft,
       cp_right = output_entry ?p (rp_right (derived_report ?p)) VideoRight,
       cp_validation = summary_of (derived_report ?p),
       cp_published_pair_relative_path = ''video/pairs'', cp_pair_commit_receipt = ''receipt''\<rparr>"
    using derived_passed [OF p]
    by (simp add: derived_checkpoint_def from_validated_pair_def evaluate_Inr(3) [OF derived_evaluate]
        require_compatible_encoder_def sample_profile_eq derived_build_def dm_profile_def
        validate_bounded_text_def summary_passed_def summary_of_def report_passed_def ensure_def
        Let_def)
  moreover have "sp_left_output ?p \<noteq> sp_right_output ?p"
    using p by (auto simp: sample_plan_def sample_pair_def)
  moreover have "rp_left (derived_report ?p) = derived_output ?p LeftEye (derived_keyframes ?p)"
    "rp_right (derived_report ?p) = derived_output ?p RightEye (derived_keyframes ?p)"
    by (simp_all add: derived_report_def evaluate_def ensure_def derived_output_def gate_quality_def)
  moreover have "summary_passed (summary_of (derived_report ?p))"
    using derived_passed [OF p] by (simp add: summary_passed_def summary_of_def report_passed_def)
  ultimately show ?thesis
    by (simp add: sample_checkpoint_def checkpoint_consistent_def output_entry_def summary_of_def
        evaluate_Inr(3) [OF derived_evaluate] derived_output_def)
qed

lemma accepted_runI:
  assumes "der_decide job cmd = DerAccepted effs" and "persistent effs = [e]"
    and "apply_committed_effect job e = Inr job'" and "live_step job e job'"
    and "accepted_run job' cmds \<and> run_commands job' cmds = final"
  shows "accepted_run job (cmd # cmds) \<and> run_commands job (cmd # cmds) = final"
proof -
  have "apply_effects job effs = Inr job'"
    using assms(2,3) by (auto simp: apply_effects_persistent [of job effs] apply_committed_Inr)
  with assms show ?thesis by (simp add: run_commands_def run_command_def)
qed

definition sample_planned :: derivation_job where
  "sample_planned = sample_derivation
     \<lparr>de_state := DerEncoding, de_version := 4, de_probe_report := Some sample_probes,
      de_media_plan := Some sample_plan\<rparr>"

lemmas sample_stage_defs = sample_derivation_def persistent_def der_commit_def live_step_def
  apply_committed_effect_def checked_add_def option_ok_def ensure_def der_source_available_def

lemma sample_planned_run:
  assumes "accepted_run sample_planned cmds \<and> run_commands sample_planned cmds = final"
  shows "accepted_run sample_derivation (DerSourceAvailable # DerWorker (ProbeCompleted sample_probes)
      # DerWorker (PlanCompleted sample_plan) # cmds)
    \<and> run_commands sample_derivation (DerSourceAvailable # DerWorker (ProbeCompleted sample_probes)
      # DerWorker (PlanCompleted sample_plan) # cmds) = final"
proof (rule accepted_runI [where e = "EfCommitState 1 DerProbing"
      and effs = "[EfCommitState 1 DerProbing, EfDispatch]"
      and job' = "sample_derivation\<lparr>de_state := DerProbing, de_version := 2\<rparr>"])
  show "accepted_run (sample_derivation\<lparr>de_state := DerProbing, de_version := 2\<rparr>)
      (DerWorker (ProbeCompleted sample_probes) # DerWorker (PlanCompleted sample_plan) # cmds)
    \<and> run_commands (sample_derivation\<lparr>de_state := DerProbing, de_version := 2\<rparr>)
      (DerWorker (ProbeCompleted sample_probes) # DerWorker (PlanCompleted sample_plan) # cmds) = final"
  proof (rule accepted_runI [where e = "EfPersistProbe 2 sample_probes DerPlanning"
        and effs = "[EfPersistProbe 2 sample_probes DerPlanning, EfDispatch]"
        and job' = "sample_derivation\<lparr>de_state := DerPlanning, de_version := 3,
          de_probe_report := Some sample_probes\<rparr>"])
    show "accepted_run (sample_derivation\<lparr>de_state := DerPlanning, de_version := 3,
        de_probe_report := Some sample_probes\<rparr>) (DerWorker (PlanCompleted sample_plan) # cmds)
      \<and> run_commands (sample_derivation\<lparr>de_state := DerPlanning, de_version := 3,
        de_probe_report := Some sample_probes\<rparr>) (DerWorker (PlanCompleted sample_plan) # cmds) = final"
      by (rule accepted_runI [where e = "EfPersistPlan 3 sample_plan DerEncoding"
          and effs = "[EfPersistPlan 3 sample_plan DerEncoding, EfDispatch]", OF _ _ _ _ assms])
        (simp_all add: sample_stage_defs sample_planned_def sample_plan_fits covers_def current_planned_def
          del: and_then_Inr)
  qed (simp_all add: sample_stage_defs del: and_then_Inr)
qed (simp_all add: sample_stage_defs del: and_then_Inr)

text \<open>One pair after the other, for a job that has \<open>cs\<close> and takes \<open>c\<close> on.\<close>

lemma sample_pair_run:
  assumes cs: "contiguous_ledger (cs @ [c])" "unat v + 2 < 2 ^ 63" "length cs < 2"
    "list_all checkpoint_consistent (cs @ [c])"
    and c: "cp_profile_revision c = dj_profile_revision sample_derivation_spec"
      "cp_encoder_build_fingerprint c = dj_fingerprint sample_derivation_spec"
      "segment_pair sample_plan (cp_segment_index c) \<noteq> None"
    and final: "accepted_run (sample_planned\<lparr>de_checkpoints := cs @ [c], de_version := v + 2,
        de_state := if length cs = 1 then DerValidating else DerEncoding\<rparr>) cmds
      \<and> run_commands (sample_planned\<lparr>de_checkpoints := cs @ [c], de_version := v + 2,
        de_state := if length cs = 1 then DerValidating else DerEncoding\<rparr>) cmds = final"
  shows "accepted_run (sample_planned\<lparr>de_checkpoints := cs, de_version := v\<rparr>)
      (DerWorker (PairStarted (cp_segment_index c)) # DerWorker (PairCheckpointed c) # cmds)
    \<and> run_commands (sample_planned\<lparr>de_checkpoints := cs, de_version := v\<rparr>)
      (DerWorker (PairStarted (cp_segment_index c)) # DerWorker (PairCheckpointed c) # cmds) = final"
proof -
  let ?i = "cp_segment_index c"
  have l: "contiguous_ledger cs" "unat ?i = length cs"
    using cs(1) by (simp_all add: contiguous_append)
  have i: "of_nat (length cs) = ?i" unfolding l(2) [symmetric] by simp
  have fresh: "\<not> has_checkpoint ?i cs" using contiguous_has_checkpoint [OF l(1)] l(2) by simp
  have v: "checked_add v 1 = Some (v + 1)" "checked_add (v + 1) 1 = Some (v + 2)"
    "unat (v + 1) = unat v + 1"
    using checked_succ [of v] checked_succ(1) [of "v + 1"] cs(2) by simp_all
  have insert: "insert_checkpoint c cs = cs @ [c]" using insert_next_checkpoint [OF l] .
  have len: "length (me_segment_pairs sample_plan) = 2" by (simp add: sample_plan_def)
  let ?s = "sample_planned\<lparr>de_checkpoints := cs, de_version := v\<rparr>"
  let ?s1 = "?s\<lparr>de_version := v + 1, de_current_pair := Some ?i\<rparr>"
  have checkpointed: "accepted_run ?s1 (DerWorker (PairCheckpointed c) # cmds)
      \<and> run_commands ?s1 (DerWorker (PairCheckpointed c) # cmds) = final"
  proof (rule accepted_runI [OF _ _ _ _ final])
    let ?to = "if length cs = 1 then DerValidating else DerEncoding"
    let ?e = "EfCommitPairCheckpoint (v + 1) c ?to"
    show "der_decide ?s1 (DerWorker (PairCheckpointed c)) = DerAccepted [?e, EfDispatch]"
      using l(2) c len by (simp add: sample_planned_def sample_derivation_def next_checkpoint_def
          pair_count_def)
    show "persistent [?e, EfDispatch] = [?e]" by (simp add: persistent_def)
    show "apply_committed_effect ?s1 ?e = Inr (sample_planned\<lparr>de_checkpoints := cs @ [c],
        de_version := v + 2, de_state := ?to\<rparr>)"
      using l(2) c v fresh insert
      by (simp add: sample_planned_def sample_derivation_def apply_committed_Inr next_checkpoint_def
          ensure_def)
    show "live_step ?s1 ?e (sample_planned\<lparr>de_checkpoints := cs @ [c], de_version := v + 2, de_state := ?to\<rparr>)"
      using cs v by (simp add: live_step_def sample_planned_def sample_derivation_def)
  qed
  show ?thesis
  proof (rule accepted_runI [OF _ _ _ _ checkpointed])
    let ?e = "EfSetCurrentPair v ?i"
    show "der_decide ?s (DerWorker (PairStarted ?i)) = DerAccepted [?e]"
      using c(3) cs(3) i by (auto simp: sample_planned_def sample_derivation_def pair_started_index_def)
    show "persistent [?e] = [?e]" by (simp add: persistent_def)
    show "apply_committed_effect ?s ?e = Inr ?s1"
      using l(2) c(3) v fresh cs(3)
      by (auto simp: sample_planned_def sample_derivation_def apply_committed_Inr next_planned_def ensure_def)
    show "live_step ?s ?e ?s1"
      using cs v by (simp add: live_step_def sample_planned_def sample_derivation_def)
  qed
qed

lemma sample_accepted:
  "accepted_run sample_derivation sample_reports
   \<and> run_commands sample_derivation sample_reports = sample_validating\<lparr>de_version := 8\<rparr>"
proof -
  let ?c0 = "sample_checkpoint 0" and ?c1 = "sample_checkpoint 1"
  have ix: "cp_segment_index ?c0 = 0" "cp_segment_index ?c1 = 1"
    using sample_checkpoint_facts(1) by simp_all
  have good: "checkpoint_consistent ?c0" "checkpoint_consistent ?c1"
    by (simp_all add: sample_checkpoint_consistent)
  have ledger: "contiguous_ledger [?c0]" "contiguous_ledger [?c0, ?c1]"
    using ix by (simp_all add: contiguous_ledger_def upt_rec)
  have final: "sample_planned\<lparr>de_checkpoints := [?c0, ?c1], de_version := 8, de_state := DerValidating\<rparr>
      = sample_validating\<lparr>de_version := 8\<rparr>"
    by (simp add: sample_planned_def sample_validating_def sample_derivation_def sample_checkpoint_def
        sample_plan_def)
  have second: "accepted_run (sample_planned\<lparr>de_checkpoints := [?c0], de_version := 6\<rparr>)
        [DerWorker (PairStarted (cp_segment_index ?c1)), DerWorker (PairCheckpointed ?c1)]
      \<and> run_commands (sample_planned\<lparr>de_checkpoints := [?c0], de_version := 6\<rparr>)
        [DerWorker (PairStarted (cp_segment_index ?c1)), DerWorker (PairCheckpointed ?c1)]
        = sample_validating\<lparr>de_version := 8\<rparr>"
  proof (rule sample_pair_run)
    show "cp_profile_revision ?c1 = dj_profile_revision sample_derivation_spec"
      "cp_encoder_build_fingerprint ?c1 = dj_fingerprint sample_derivation_spec"
      by (rule sample_checkpoint_facts(2,3); simp)+
  qed (use ledger good sample_segment_pair(2) final in \<open>simp_all add: ix run_commands_def del: One_nat_def\<close>)
  have first: "accepted_run (sample_planned\<lparr>de_checkpoints := [], de_version := 4\<rparr>)
        (DerWorker (PairStarted (cp_segment_index ?c0)) # DerWorker (PairCheckpointed ?c0)
          # [DerWorker (PairStarted (cp_segment_index ?c1)), DerWorker (PairCheckpointed ?c1)])
      \<and> run_commands (sample_planned\<lparr>de_checkpoints := [], de_version := 4\<rparr>)
        (DerWorker (PairStarted (cp_segment_index ?c0)) # DerWorker (PairCheckpointed ?c0)
          # [DerWorker (PairStarted (cp_segment_index ?c1)), DerWorker (PairCheckpointed ?c1)])
        = sample_validating\<lparr>de_version := 8\<rparr>"
  proof (rule sample_pair_run)
    show "cp_profile_revision ?c0 = dj_profile_revision sample_derivation_spec"
      "cp_encoder_build_fingerprint ?c0 = dj_fingerprint sample_derivation_spec"
      by (rule sample_checkpoint_facts(2,3); simp)+
    have "sample_planned\<lparr>de_checkpoints := [] @ [?c0], de_version := 4 + 2,
        de_state := if length ([] :: checkpoint_map) = 1 then DerValidating else DerEncoding\<rparr>
      = sample_planned\<lparr>de_checkpoints := [?c0], de_version := 6\<rparr>"
      by (simp add: sample_planned_def sample_derivation_def)
    with second show "accepted_run (sample_planned\<lparr>de_checkpoints := [] @ [?c0], de_version := 4 + 2,
        de_state := if length ([] :: checkpoint_map) = 1 then DerValidating else DerEncoding\<rparr>)
        [DerWorker (PairStarted (cp_segment_index ?c1)), DerWorker (PairCheckpointed ?c1)]
      \<and> run_commands (sample_planned\<lparr>de_checkpoints := [] @ [?c0], de_version := 4 + 2,
        de_state := if length ([] :: checkpoint_map) = 1 then DerValidating else DerEncoding\<rparr>)
        [DerWorker (PairStarted (cp_segment_index ?c1)), DerWorker (PairCheckpointed ?c1)]
        = sample_validating\<lparr>de_version := 8\<rparr>"
      by (simp only:)
  qed (use ledger good sample_segment_pair(1) in \<open>simp_all add: ix\<close>)
  have "sample_planned\<lparr>de_checkpoints := [], de_version := 4\<rparr> = sample_planned"
    by (simp add: sample_planned_def sample_derivation_def)
  note this = first [unfolded this ix]
  from sample_planned_run [OF this] show ?thesis by (simp only: sample_reports_def)
qed

lemma sample_env_works: "env_works sample_nz_env"
  by (simp add: env_works_def sample_nz_env_def)

lemma sample_world_room: "md_revision (nw_db sample_world) = 1"
  by (simp add: sample_world_def sample_created_db_def)

lemma sample_validating_reached:
  "\<exists>w row. nz_reaches sample_nz_env idle_world w \<and> find_row (nw_db w) ''d1'' = Some row
    \<and> dr_snapshot row = sample_validating\<lparr>de_version := 8\<rparr>"
proof -
  have run: "accepted_run (dr_snapshot (new_derivation_row sample_store_env sample_derivation ''t0'')) sample_reports"
    "der_ready (dr_snapshot (new_derivation_row sample_store_env sample_derivation ''t0''))"
    using sample_accepted sample_derivation_ready by (simp_all add: sample_world_row)
  have room: "unat (md_revision (nw_db sample_world)) + length sample_reports < 2 ^ 63"
    by (simp add: sample_world_room sample_reports_def)
  from run_carried_out [OF sample_world_reached sample_world_row(1) sample_env_works run(2,1) room]
  obtain w row where "nz_reaches sample_nz_env sample_world w" "find_row (nw_db w) ''d1'' = Some row"
    "dr_snapshot row = sample_validating\<lparr>de_version := 8\<rparr>"
    using sample_accepted by (auto simp: sample_world_row)
  with nz_reaches_trans [OF _ sample_world_reached] show ?thesis by blast
qed


theorem failure_and_cancel_never_recorded_witness:
  "\<exists>w' err. reduce_locked sample_nz_env ''d1'' (DerWorker (StageFailed DfInternal True)) None sample_world
      = (w', Inl err) \<and> nw_db w' = nw_db sample_world"
proof -
  obtain w' res where "reduce_locked sample_nz_env ''d1'' (DerWorker (StageFailed DfInternal True)) None
      sample_world = (w', res)" by force
  from this failure_and_cancel_never_recorded [OF sample_world_reached this] show ?thesis by auto
qed

text \<open>A pause of the sample job, which is still queued.\<close>

lemma sample_pause:
  obtains w' run where
    "reduce_locked sample_nz_env ''d1'' DerPause None sample_world = (w', Inr (LockedRun run))"
proof -
  let ?row = "new_derivation_row sample_store_env sample_derivation ''t0''"
  let ?paused = "sample_derivation\<lparr>de_desired := DerPaused, de_version := 2\<rparr>"
  have d: "der_decide (dr_snapshot ?row) DerPause = DerAccepted [EfSetDesiredState 1 DerPaused]"
    "persistent [EfSetDesiredState 1 DerPaused] = [EfSetDesiredState 1 DerPaused]"
    "apply_committed_effect (dr_snapshot ?row) (EfSetDesiredState 1 DerPaused) = Inr ?paused"
    "de_state (dr_snapshot ?row) = DerQueued" "de_state ?paused = DerQueued"
    "de_version (dr_snapshot ?row) = 1" "de_checkpoints ?paused = []"
    unfolding sample_world_row(2)
    by (simp_all add: sample_derivation_def der_handlers persistent_def apply_committed_Inr
        checked_add_def)
  have wf: "der_wf ?paused"
    using sample_derivation_ready
    by (simp add: der_ready_def der_wf_def sample_derivation_def completion_ok_def)
  from reduce_locked_succeeds [OF sample_env_works reachable_ok(1) [OF sample_world_reached]
      sample_world_row(1) d(1,2) _ d(3) _ _ wf, of None] d(4-7) sample_world_room that
  show thesis by fastforce
qed

theorem reduction_all_or_nothing_witness:
  "\<exists>w' run row'. reduce_locked sample_nz_env ''d1'' DerPause None sample_world = (w', Inr (LockedRun run))
     \<and> find_row (nw_db w') ''d1'' = Some row' \<and> de_desired (dr_snapshot row') = DerPaused"
proof -
  obtain w' run where r: "reduce_locked sample_nz_env ''d1'' DerPause None sample_world
      = (w', Inr (LockedRun run))" by (rule sample_pause)
  from reduction_all_or_nothing [OF sample_world_reached _ r] obtain row effs row' where
    "der_decide (dr_snapshot (row :: derivation_row)) DerPause = DerAccepted effs"
    "find_row (nw_db w') ''d1'' = Some row'"
    "apply_effects (dr_snapshot row) effs = Inr (dr_snapshot row')" by auto
  with r pause_applied(1) show ?thesis by blast
qed

theorem pause_is_durable_witness:
  "\<exists>w' result row'. nz_reduce sample_nz_env (\<lambda>w. (w, True)) ''d1'' DerPause True None sample_world
      = (w', Inr result)
    \<and> find_row (nw_db w') ''d1'' = Some row' \<and> de_desired (dr_snapshot row') = DerPaused"
proof -
  let ?row = "new_derivation_row sample_store_env sample_derivation ''t0''"
  note ok = reachable_ok(1) [OF sample_world_reached]
  obtain w1 run where r: "reduce_locked sample_nz_env ''d1'' DerPause None sample_world
      = (w1, Inr (LockedRun run))" by (rule sample_pause)
  have d: "der_decide (dr_snapshot ?row) DerPause = DerAccepted [EfSetDesiredState 1 DerPaused]"
    "de_desired (dr_snapshot ?row) = DerRun"
    unfolding sample_world_row(2) by (simp_all add: sample_derivation_def der_handlers)
  obtain row1 where row1: "find_row (nw_db w1) ''d1'' = Some row1" "md_ok (nz_store sample_nz_env) (nw_db w1)"
    by (rule reduce_locked_Inr [OF ok r])
  note f = reduce_locked_flags(1,2) [OF ok sample_world_row(1) d(1) _ r]
  have done': "nz_reduce sample_nz_env (\<lambda>w. (w, True)) ''d1'' DerPause True None sample_world
      = (w1, Inr (Some (dr_snapshot row1)))"
    using r f finish_quiet [OF row1(2,1)] by (simp add: nz_reduce_def)
  from pause_is_durable [OF sample_world_reached sample_world_row(1) d(2) _ done'] done'
  show ?thesis by (auto simp: sample_world_def idle_world_def)
qed

text \<open>
  In a world where nothing fails the executor carries out what the pure reducer decides: a
  run of commands each of which the reducer accepts with one step of a live job is carried out
  by as many reductions, and the stored job is then the one the reducer alone would have
  reached, up to the last checkpoint before the commit.
\<close>

theorem executor_follows_reducer:
  assumes "nz_reaches env idle_world w" and "find_row (nw_db w) j = Some row"
    and "env_works env" and "der_ready (dr_snapshot row)" and "accepted_run (dr_snapshot row) cmds"
    and "unat (md_revision (nw_db w)) + length cmds < 2 ^ 63"
  shows "\<exists>w' row'. nz_reaches env w w' \<and> find_row (nw_db w') j = Some row'
    \<and> dr_snapshot row' = run_commands (dr_snapshot row) cmds"
  by (rule run_carried_out [OF assms])

theorem executor_follows_reducer_witness:
  "\<exists>w' row'. nz_reaches sample_nz_env sample_world w' \<and> find_row (nw_db w') ''d1'' = Some row'
     \<and> dr_snapshot row' = sample_validating\<lparr>de_version := 8\<rparr>"
proof -
  have run: "accepted_run (dr_snapshot (new_derivation_row sample_store_env sample_derivation ''t0'')) sample_reports"
    "der_ready (dr_snapshot (new_derivation_row sample_store_env sample_derivation ''t0''))"
    using sample_accepted sample_derivation_ready by (simp_all add: sample_world_row)
  have "unat (md_revision (nw_db sample_world)) + length sample_reports < 2 ^ 63"
    by (simp add: sample_world_room sample_reports_def)
  from executor_follows_reducer [OF sample_world_reached sample_world_row(1) sample_env_works run(2,1) this]
  show ?thesis using sample_accepted by (simp add: sample_world_row)
qed

end
