(* ===== verification/Library_Leases.thy ===== *)
theory Library_Leases
  imports Normalizer
begin

text \<open>
  The durable leases of immutable library trees (\<open>media_store/leases.rs\<close>,
  \<open>media_library/lease.rs\<close>) and the two clients that hold them: the shared lease of a
  normalizer (\<open>media_normalizer/store.rs\<close>) and the exclusive lease of a publishing ingestor
  (\<open>recording_ingestor/store.rs\<close>). The two tables keep their columns as SQLite does: kinds
  and modes are text, tokens and instants are signed integers. An insertion checks the
  constraints of the schema and fails like SQLite when one is violated. Clocks are arguments:
  nothing is assumed about the order of the instants that different operations see.
\<close>

section \<open>Kinds, modes, leases\<close>

datatype revision_kind = KindSource | KindDerived

fun kind_as_db_str :: "revision_kind \<Rightarrow> string" where
  "kind_as_db_str KindSource = ''source''"
| "kind_as_db_str KindDerived = ''derived''"

definition kind_from_db_str :: "string \<Rightarrow> revision_kind option" where
  "kind_from_db_str s =
     (if s = ''source'' then Some KindSource
      else if s = ''derived'' then Some KindDerived else None)"

datatype lease_mode = LeaseShared | LeaseExclusive

fun mode_as_db_str :: "lease_mode \<Rightarrow> string" where
  "mode_as_db_str LeaseShared = ''shared''"
| "mode_as_db_str LeaseExclusive = ''exclusive''"

definition mode_from_db_str :: "string \<Rightarrow> lease_mode option" where
  "mode_from_db_str s =
     (if s = ''shared'' then Some LeaseShared
      else if s = ''exclusive'' then Some LeaseExclusive else None)"

interpretation kind_codec: text_codec kind_as_db_str kind_from_db_str "\<lambda>_. True"
  by unfold_locales (case_tac x; simp add: kind_from_db_str_def)

interpretation mode_codec: text_codec mode_as_db_str mode_from_db_str "\<lambda>_. True"
  by unfold_locales (case_tac x; simp add: mode_from_db_str_def)

lemma kind_text [simp]:
  "kind_from_db_str (kind_as_db_str k) = Some k"
  "kind_as_db_str k = kind_as_db_str k' \<longleftrightarrow> k = k'"
  by (auto simp: kind_codec.dec_enc kind_codec.enc_inj)

lemma mode_text [simp]:
  "mode_from_db_str (mode_as_db_str m) = Some m"
  "mode_as_db_str m = mode_as_db_str m' \<longleftrightarrow> m = m'"
  by (auto simp: mode_codec.dec_enc mode_codec.enc_inj)

record library_lease =
  ll_lease_id :: string
  ll_kind :: revision_kind
  ll_revision :: string
  ll_owner :: string
  ll_mode :: lease_mode
  ll_token :: u64
  ll_acquired_at :: string
  ll_updated_at :: string
  ll_expires :: u64

record acquire_request =
  aq_lease_id :: string
  aq_kind :: revision_kind
  aq_revision :: string
  aq_owner :: string
  aq_mode :: lease_mode
  aq_now :: string
  aq_now_ms :: u64
  aq_expires :: u64

datatype acquire_outcome =
    LeaseAcquired library_lease
  | LeaseExisting library_lease
  | LeaseConflict "library_lease list"

datatype release_outcome = LeaseReleased | LeaseAlreadyReleased | LeaseOwnershipLost

section \<open>The tables\<close>

record lease_row =
  lr_lease_id :: string
  lr_kind :: string
  lr_revision :: string
  lr_owner :: string
  lr_mode :: string
  lr_token :: int
  lr_acquired_at :: string
  lr_updated_at :: string
  lr_expires :: int

record lease_db =
  ls_rows :: "lease_row list"
  ls_epochs :: "string \<times> string \<Rightarrow> int option"

definition empty_lease_db :: lease_db where
  "empty_lease_db = \<lparr>ls_rows = [], ls_epochs = (\<lambda>_. None)\<rparr>"

text \<open>Rust's conversion of a column to \<open>u64\<close>, which refuses negative values.\<close>

definition u64_column :: "int \<Rightarrow> media_store_error + u64" where
  "u64_column i =
     and_then (ensure (0 \<le> i) (MsCorrupt ''media_library_revision_leases'')) (\<lambda>_.
     Inr (word_of_int i))"

definition i64_value :: "u64 \<Rightarrow> int" where
  "i64_value w = uint w"

definition read_lease_row :: "lease_row \<Rightarrow> media_store_error + library_lease" where
  "read_lease_row r =
     (let corrupt = MsCorrupt ''media_library_revision_leases'' in
      and_then (option_ok corrupt (kind_from_db_str (lr_kind r))) (\<lambda>kind.
      and_then (option_ok corrupt (mode_from_db_str (lr_mode r))) (\<lambda>mode.
      and_then (u64_column (lr_token r)) (\<lambda>token.
      and_then (u64_column (lr_expires r)) (\<lambda>expires.
      Inr \<lparr>ll_lease_id = lr_lease_id r, ll_kind = kind, ll_revision = lr_revision r,
           ll_owner = lr_owner r, ll_mode = mode, ll_token = token,
           ll_acquired_at = lr_acquired_at r, ll_updated_at = lr_updated_at r,
           ll_expires = expires\<rparr>)))))"

definition find_lease_row :: "lease_db \<Rightarrow> string \<Rightarrow> lease_row option" where
  "find_lease_row db lid = find (\<lambda>r. lr_lease_id r = lid) (ls_rows db)"

definition read_lease :: "lease_db \<Rightarrow> string \<Rightarrow> media_store_error + library_lease option" where
  "read_lease db lid =
     (case find_lease_row db lid of
        None \<Rightarrow> Inr None
      | Some r \<Rightarrow> and_then (read_lease_row r) (\<lambda>l. Inr (Some l)))"

text \<open>The rows of one revision.\<close>

definition of_revision :: "revision_kind \<Rightarrow> string \<Rightarrow> lease_row \<Rightarrow> bool" where
  "of_revision kind revision r \<longleftrightarrow> lr_kind r = kind_as_db_str kind \<and> lr_revision r = revision"

fun read_rows :: "lease_row list \<Rightarrow> media_store_error + library_lease list" where
  "read_rows [] = Inr []"
| "read_rows (r # rs) =
     and_then (read_lease_row r) (\<lambda>l. and_then (read_rows rs) (\<lambda>ls. Inr (l # ls)))"

definition read_active_leases ::
    "lease_db \<Rightarrow> revision_kind \<Rightarrow> string \<Rightarrow> u64 \<Rightarrow> media_store_error + library_lease list" where
  "read_active_leases db kind revision now =
     and_then (ms_checked_i64 now ''now_ms'') (\<lambda>_.
     read_rows (sort_key (\<lambda>r. (lr_token r, lr_lease_id r))
       (filter (\<lambda>r. of_revision kind revision r \<and> i64_value now < lr_expires r) (ls_rows db))))"

definition active_conflicts ::
    "lease_db \<Rightarrow> revision_kind \<Rightarrow> string \<Rightarrow> lease_mode \<Rightarrow> u64 \<Rightarrow>
     media_store_error + library_lease list" where
  "active_conflicts db kind revision requested now =
     and_then (read_active_leases db kind revision now) (\<lambda>active.
     Inr (filter (\<lambda>l. requested = LeaseExclusive \<or> ll_mode l = LeaseExclusive) active))"

definition delete_expired_for_revision ::
    "lease_db \<Rightarrow> revision_kind \<Rightarrow> string \<Rightarrow> u64 \<Rightarrow> media_store_error + lease_db" where
  "delete_expired_for_revision db kind revision now =
     and_then (ms_checked_i64 now ''now_ms'') (\<lambda>_.
     Inr (db\<lparr>ls_rows := filter (\<lambda>r. \<not> (of_revision kind revision r \<and> lr_expires r \<le> i64_value now))
                              (ls_rows db)\<rparr>))"

section \<open>Operations\<close>

definition validate_lease_request :: "acquire_request \<Rightarrow> media_store_error + unit" where
  "validate_lease_request rq =
     and_then (ms_non_empty (aq_lease_id rq) ''lease_id'') (\<lambda>_.
     and_then (ms_non_empty (aq_revision rq) ''revision_id'') (\<lambda>_.
     and_then (ms_non_empty (aq_owner rq) ''owner_id'') (\<lambda>_.
     and_then (ms_non_empty (aq_now rq) ''now'') (\<lambda>_.
     ensure (aq_now_ms rq < aq_expires rq) (MsConflict ''lease expiry must be after now'')))))"

text \<open>
  The allocation of a fencing token: insert the epoch row unless it exists, add one unless it is
  the largest \<open>i64\<close>, read it back.
\<close>

definition allocate_token ::
    "lease_db \<Rightarrow> revision_kind \<Rightarrow> string \<Rightarrow> media_store_error + (lease_db \<times> u64)" where
  "allocate_token db kind revision =
     (let key = (kind_as_db_str kind, revision);
          last = (case ls_epochs db key of None \<Rightarrow> 0 | Some t \<Rightarrow> t) in
      and_then (ensure (last < 9223372036854775807) (MsConflict ''fencing token range exhausted'')) (\<lambda>_.
      and_then (u64_column (last + 1)) (\<lambda>token.
      Inr (db\<lparr>ls_epochs := (ls_epochs db)(key \<mapsto> last + 1)\<rparr>, token))))"

text \<open>The constraints of \<open>media_library_revision_leases\<close> (\<open>media_store/schema.rs\<close>).\<close>

definition insert_lease_row :: "lease_db \<Rightarrow> lease_row \<Rightarrow> media_store_error + lease_db" where
  "insert_lease_row db r =
     (if lr_lease_id r = [] \<or> lr_revision r = [] \<or> lr_owner r = []
         \<or> kind_from_db_str (lr_kind r) = None \<or> mode_from_db_str (lr_mode r) = None
         \<or> lr_token r < 1 \<or> lr_expires r < 0
         \<or> list_ex (\<lambda>q. lr_lease_id q = lr_lease_id r) (ls_rows db)
         \<or> list_ex (\<lambda>q. lr_kind q = lr_kind r \<and> lr_revision q = lr_revision r
                        \<and> lr_token q = lr_token r) (ls_rows db)
         \<or> ls_epochs db (lr_kind r, lr_revision r) = None
      then Inl (MsSqlite ''constraint failed'')
      else Inr (db\<lparr>ls_rows := ls_rows db @ [r]\<rparr>))"

definition same_request :: "library_lease \<Rightarrow> acquire_request \<Rightarrow> bool" where
  "same_request l rq \<longleftrightarrow>
     ll_kind l = aq_kind rq \<and> ll_revision l = aq_revision rq \<and> ll_owner l = aq_owner rq
     \<and> ll_mode l = aq_mode rq \<and> ll_expires l = aq_expires rq"

definition new_lease_row :: "acquire_request \<Rightarrow> u64 \<Rightarrow> lease_row" where
  "new_lease_row rq token =
     \<lparr>lr_lease_id = aq_lease_id rq, lr_kind = kind_as_db_str (aq_kind rq),
      lr_revision = aq_revision rq, lr_owner = aq_owner rq,
      lr_mode = mode_as_db_str (aq_mode rq), lr_token = i64_value token,
      lr_acquired_at = aq_now rq, lr_updated_at = aq_now rq,
      lr_expires = i64_value (aq_expires rq)\<rparr>"

text \<open>\<open>acquire_library_revision_lease\<close>: one immediate transaction; an error rolls back.\<close>

definition acquire_lease ::
    "lease_db \<Rightarrow> acquire_request \<Rightarrow> media_store_error + (lease_db \<times> acquire_outcome)" where
  "acquire_lease db rq =
     and_then (validate_lease_request rq) (\<lambda>_.
     and_then (delete_expired_for_revision db (aq_kind rq) (aq_revision rq) (aq_now_ms rq)) (\<lambda>db1.
     and_then (read_lease db1 (aq_lease_id rq)) (\<lambda>existing.
     case existing of
       Some l \<Rightarrow>
         and_then (ensure (same_request l rq) (MsConflict (aq_lease_id rq))) (\<lambda>_.
         Inr (db1, LeaseExisting l))
     | None \<Rightarrow>
         and_then (active_conflicts db1 (aq_kind rq) (aq_revision rq) (aq_mode rq) (aq_now_ms rq))
           (\<lambda>conflicts.
         if conflicts \<noteq> [] then Inr (db1, LeaseConflict conflicts)
         else
           and_then (allocate_token db1 (aq_kind rq) (aq_revision rq)) (\<lambda>(db2, token).
           and_then (ms_checked_i64 token ''fencing_token'') (\<lambda>_.
           and_then (ms_checked_i64 (aq_expires rq) ''expires_at_ms'') (\<lambda>_.
           and_then (insert_lease_row db2 (new_lease_row rq token)) (\<lambda>db3.
           and_then (read_lease db3 (aq_lease_id rq)) (\<lambda>read_back.
           and_then (option_ok (MsNotFound (aq_lease_id rq)) read_back) (\<lambda>l.
           Inr (db3, LeaseAcquired l))))))))))) "

definition owned_row :: "string \<Rightarrow> string \<Rightarrow> u64 \<Rightarrow> lease_row \<Rightarrow> bool" where
  "owned_row lid owner token r \<longleftrightarrow>
     lr_lease_id r = lid \<and> lr_owner r = owner \<and> lr_token r = i64_value token"

text \<open>
  \<open>renew_library_revision_lease\<close> is an update and a read outside a transaction: the update
  stands even when the read fails.
\<close>

definition renew_checks ::
    "string \<Rightarrow> string \<Rightarrow> u64 \<Rightarrow> string \<Rightarrow> u64 \<Rightarrow> u64 \<Rightarrow> media_store_error + unit" where
  "renew_checks lid owner token now now_ms expires =
     and_then (ms_non_empty lid ''lease_id'') (\<lambda>_.
     and_then (ms_non_empty owner ''owner_id'') (\<lambda>_.
     and_then (ms_non_empty now ''now'') (\<lambda>_.
     and_then (ensure (now_ms < expires) (MsConflict ''renewed lease expiry must be after now'')) (\<lambda>_.
     and_then (ms_checked_i64 token ''fencing_token'') (\<lambda>_.
     and_then (ms_checked_i64 expires ''expires_at_ms'') (\<lambda>_.
     ms_checked_i64 now_ms ''now_ms''))))))"

definition renewable :: "string \<Rightarrow> string \<Rightarrow> u64 \<Rightarrow> u64 \<Rightarrow> lease_row \<Rightarrow> bool" where
  "renewable lid owner token now_ms r \<longleftrightarrow>
     owned_row lid owner token r \<and> i64_value now_ms < lr_expires r"

definition retimed :: "(lease_row \<Rightarrow> bool) \<Rightarrow> string \<Rightarrow> u64 \<Rightarrow> lease_row \<Rightarrow> lease_row" where
  "retimed hit now expires r =
     (if hit r then r\<lparr>lr_updated_at := now, lr_expires := i64_value expires\<rparr> else r)"

definition renew_lease ::
    "lease_db \<Rightarrow> string \<Rightarrow> string \<Rightarrow> u64 \<Rightarrow> string \<Rightarrow> u64 \<Rightarrow> u64 \<Rightarrow>
     lease_db \<times> (media_store_error + library_lease)" where
  "renew_lease db lid owner token now now_ms expires =
     (case renew_checks lid owner token now now_ms expires of
        Inl e \<Rightarrow> (db, Inl e)
      | Inr _ \<Rightarrow>
         (let hit = renewable lid owner token now_ms;
              db' = db\<lparr>ls_rows := map (retimed hit now expires) (ls_rows db)\<rparr> in
          (db', and_then (ensure (length (filter hit (ls_rows db)) = 1) (MsConflict lid)) (\<lambda>_.
                and_then (read_lease db' lid) (\<lambda>l. option_ok (MsNotFound lid) l)))))"

definition release_lease ::
    "lease_db \<Rightarrow> string \<Rightarrow> string \<Rightarrow> u64 \<Rightarrow> lease_db \<times> (media_store_error + release_outcome)" where
  "release_lease db lid owner token =
     (case and_then (ms_non_empty lid ''lease_id'') (\<lambda>_.
           and_then (ms_non_empty owner ''owner_id'') (\<lambda>_.
           ms_checked_i64 token ''fencing_token'')) of
        Inl e \<Rightarrow> (db, Inl e)
      | Inr _ \<Rightarrow>
          (let hit = owned_row lid owner token;
               changed = length (filter hit (ls_rows db));
               db' = db\<lparr>ls_rows := filter (\<lambda>r. \<not> hit r) (ls_rows db)\<rparr>
           in (db',
               if changed = 1 then Inr LeaseReleased
               else and_then (read_lease db' lid) (\<lambda>l.
                    Inr (if l \<noteq> None then LeaseOwnershipLost else LeaseAlreadyReleased)))))"

definition assert_lease ::
    "lease_db \<Rightarrow> string \<Rightarrow> string \<Rightarrow> u64 \<Rightarrow> lease_mode \<Rightarrow> u64 \<Rightarrow>
     media_store_error + library_lease" where
  "assert_lease db lid owner token required now =
     and_then (read_lease db lid) (\<lambda>read.
     and_then (option_ok (MsConflict lid) read) (\<lambda>l.
     and_then (ensure (ll_owner l = owner \<and> ll_token l = token \<and> ll_mode l = required
                       \<and> now < ll_expires l) (MsConflict lid)) (\<lambda>_.
     Inr l)))"

definition purge_expired :: "lease_db \<Rightarrow> u64 \<Rightarrow> lease_db \<times> (media_store_error + u64)" where
  "purge_expired db now =
     (case ms_checked_i64 now ''now_ms'' of
        Inl e \<Rightarrow> (db, Inl e)
      | Inr _ \<Rightarrow>
          (let gone = length (filter (\<lambda>r. lr_expires r \<le> i64_value now) (ls_rows db)) in
           (db\<lparr>ls_rows := filter (\<lambda>r. \<not> lr_expires r \<le> i64_value now) (ls_rows db)\<rparr>,
            and_then (ensure (gone < 2 ^ 64) (MsCorrupt ''media_library_revision_leases'')) (\<lambda>_.
            Inr (of_nat gone)))))"

text \<open>\<open>consume_revision_lease\<close> of \<open>media_library/lease.rs\<close>.\<close>

definition consume_lease ::
    "lease_db \<Rightarrow> string \<Rightarrow> string \<Rightarrow> u64 \<Rightarrow> revision_kind \<Rightarrow> string \<Rightarrow> lease_mode \<Rightarrow> u64 \<Rightarrow>
     media_store_error + library_lease" where
  "consume_lease db lid owner token kind revision required now =
     and_then (assert_lease db lid owner token required now) (\<lambda>l.
     and_then (ensure (ll_kind l = kind \<and> ll_revision l = revision) (MsConflict lid)) (\<lambda>_.
     Inr l))"

section \<open>Clients\<close>

record lease_handle =
  lh_lease_id :: string
  lh_owner :: string
  lh_token :: u64
  lh_expires :: u64
  lh_ttl :: u64

definition handle_of :: "library_lease \<Rightarrow> u64 \<Rightarrow> lease_handle" where
  "handle_of l ttl =
     \<lparr>lh_lease_id = ll_lease_id l, lh_owner = ll_owner l, lh_token = ll_token l,
      lh_expires = ll_expires l, lh_ttl = ttl\<rparr>"

text \<open>The request of a client; \<open>uuid\<close> is the fresh identifier it draws.\<close>

definition client_request ::
    "string \<Rightarrow> lease_mode \<Rightarrow> u64 \<Rightarrow> u64 \<Rightarrow> string \<Rightarrow> string \<Rightarrow> string \<Rightarrow> acquire_request" where
  "client_request prefix mode ttl now_ms uuid revision job =
     \<lparr>aq_lease_id = prefix @ job @ ''-'' @ uuid, aq_kind = KindSource, aq_revision = revision,
      aq_owner = job, aq_mode = mode, aq_now = decimal (unat now_ms), aq_now_ms = now_ms,
      aq_expires = saturating_add now_ms ttl\<rparr>"

definition acquire_client ::
    "lease_db \<Rightarrow> acquire_request \<Rightarrow> u64 \<Rightarrow> string \<Rightarrow> lease_db \<times> (port_error + lease_handle)" where
  "acquire_client db rq ttl busy =
     (case acquire_lease db rq of
        Inl e \<Rightarrow> (db, Inl (store_error e))
      | Inr (db', LeaseAcquired l) \<Rightarrow> (db', Inr (handle_of l ttl))
      | Inr (db', LeaseExisting l) \<Rightarrow> (db', Inr (handle_of l ttl))
      | Inr (db', LeaseConflict _) \<Rightarrow> (db', Inl (PortError busy)))"

text \<open>\<open>MediaStoreSourceReadLeases\<close> and \<open>MediaStoreSourcePublishLeases\<close>.\<close>

definition acquire_shared ::
    "lease_db \<Rightarrow> u64 \<Rightarrow> u64 \<Rightarrow> string \<Rightarrow> string \<Rightarrow> string \<Rightarrow> lease_db \<times> (port_error + lease_handle)" where
  "acquire_shared db ttl now_ms uuid revision job =
     acquire_client db
       (client_request ''normalizer-source-'' LeaseShared ttl now_ms uuid revision job)
       ttl ''source_lease_busy''"

definition acquire_exclusive ::
    "lease_db \<Rightarrow> u64 \<Rightarrow> u64 \<Rightarrow> string \<Rightarrow> string \<Rightarrow> string \<Rightarrow> lease_db \<times> (port_error + lease_handle)" where
  "acquire_exclusive db ttl now_ms uuid revision job =
     acquire_client db
       (client_request ''recording-ingest-source-'' LeaseExclusive ttl now_ms uuid revision job)
       ttl ''source_publish_lease_busy''"

definition with_ttl_ms :: "u64 \<Rightarrow> u64" where
  "with_ttl_ms ttl = max ttl 1"

text \<open>\<open>assert_current\<close>: renew when a third of the time to live is left, otherwise check.\<close>

definition assert_current ::
    "lease_mode \<Rightarrow> lease_db \<Rightarrow> lease_handle \<Rightarrow> u64 \<Rightarrow>
     lease_db \<times> lease_handle \<times> (port_error + unit)" where
  "assert_current mode db h now_ms =
     (if lh_expires h \<le> saturating_add now_ms (lh_ttl h div 3)
      then (case renew_lease db (lh_lease_id h) (lh_owner h) (lh_token h) (decimal (unat now_ms))
                   now_ms (saturating_add now_ms (lh_ttl h)) of
              (db', Inl e) \<Rightarrow> (db', h, Inl (store_error e))
            | (db', Inr renewed) \<Rightarrow> (db', h\<lparr>lh_expires := ll_expires renewed\<rparr>, Inr ()))
      else (case assert_lease db (lh_lease_id h) (lh_owner h) (lh_token h) mode now_ms of
              Inl e \<Rightarrow> (db, h, Inl (store_error e))
            | Inr _ \<Rightarrow> (db, h, Inr ())))"

definition drop_lease :: "lease_db \<Rightarrow> lease_handle \<Rightarrow> lease_db" where
  "drop_lease db h = fst (release_lease db (lh_lease_id h) (lh_owner h) (lh_token h))"

section \<open>The invariant\<close>

text \<open>
  Rows decode; tokens are positive and at most the epoch of their revision; identifiers and
  tokens are unique; an exclusive lease stands alone in its revision, expired or not.
\<close>

definition lease_row_ok :: "lease_row \<Rightarrow> bool" where
  "lease_row_ok r \<longleftrightarrow>
     kind_from_db_str (lr_kind r) \<noteq> None \<and> mode_from_db_str (lr_mode r) \<noteq> None
     \<and> 1 \<le> lr_token r \<and> lr_token r < 2 ^ 63 \<and> 0 \<le> lr_expires r \<and> lr_expires r < 2 ^ 63"

definition row_key :: "lease_row \<Rightarrow> string \<times> string" where
  "row_key r = (lr_kind r, lr_revision r)"

definition compatible_rows :: "lease_row \<Rightarrow> lease_row \<Rightarrow> bool" where
  "compatible_rows r q \<longleftrightarrow>
     (row_key r = row_key q \<longrightarrow> lr_mode r = ''shared'' \<and> lr_mode q = ''shared'' \<and> lr_token r \<noteq> lr_token q)
     \<and> lr_lease_id r \<noteq> lr_lease_id q"

definition epoch_covers :: "(string \<times> string \<Rightarrow> int option) \<Rightarrow> lease_row \<Rightarrow> bool" where
  "epoch_covers epochs r \<longleftrightarrow> (\<exists>t. epochs (row_key r) = Some t \<and> lr_token r \<le> t)"

definition lease_db_ok :: "lease_db \<Rightarrow> bool" where
  "lease_db_ok db \<longleftrightarrow>
     (\<forall>r \<in> set (ls_rows db). lease_row_ok r \<and> epoch_covers (ls_epochs db) r)
     \<and> sorted_wrt compatible_rows (ls_rows db)
     \<and> (\<forall>key t. ls_epochs db key = Some t \<longrightarrow> 0 \<le> t \<and> t < 2 ^ 63)"

text \<open>One operation of any process, with any clock.\<close>

inductive lease_step :: "lease_db \<Rightarrow> lease_db \<Rightarrow> bool" where
  step_acquire: "acquire_lease db rq = Inr (db', oc) \<Longrightarrow> lease_step db db'"
| step_renew: "lease_step db (fst (renew_lease db lid owner token now now_ms expires))"
| step_release: "lease_step db (fst (release_lease db lid owner token))"
| step_purge: "lease_step db (fst (purge_expired db now))"

definition leases_reach :: "lease_db \<Rightarrow> lease_db \<Rightarrow> bool" where
  "leases_reach = lease_step\<^sup>*\<^sup>*"

section \<open>Reading rows\<close>

lemma passed_checks [simp]: "ensure True e = Inr ()" "option_ok e (Some x) = Inr x"
  by (simp_all add: ensure_def option_ok_def)

lemma kind_text_back: "kind_from_db_str s = Some k \<Longrightarrow> s = kind_as_db_str k"
  by (auto simp: kind_from_db_str_def split: if_splits)

lemma mode_text_back: "mode_from_db_str s = Some m \<Longrightarrow> s = mode_as_db_str m"
  by (auto simp: mode_from_db_str_def split: if_splits)

lemma shared_text: "mode_as_db_str m = ''shared'' \<longleftrightarrow> m = LeaseShared"
  by (cases m) auto

lemma u64_column_ok:
  "0 \<le> i \<Longrightarrow> i < 2 ^ 63 \<Longrightarrow> u64_column i = Inr (word_of_int i)"
  by (simp add: u64_column_def ensure_def)

lemma uint_u64_column:
  "0 \<le> i \<Longrightarrow> i < 2 ^ 63 \<Longrightarrow> uint (word_of_int i :: u64) = i"
  by (simp add: unsigned_of_int take_bit_int_eq_self)

definition lease_of :: "lease_row \<Rightarrow> library_lease" where
  "lease_of r =
     \<lparr>ll_lease_id = lr_lease_id r, ll_kind = the (kind_from_db_str (lr_kind r)),
      ll_revision = lr_revision r, ll_owner = lr_owner r,
      ll_mode = the (mode_from_db_str (lr_mode r)), ll_token = word_of_int (lr_token r),
      ll_acquired_at = lr_acquired_at r, ll_updated_at = lr_updated_at r,
      ll_expires = word_of_int (lr_expires r)\<rparr>"

lemma row_reads:
  assumes "lease_row_ok r"
  shows "read_lease_row r = Inr (lease_of r)"
  using assms
  by (auto simp: lease_row_ok_def read_lease_row_def lease_of_def u64_column_ok Let_def
      simp del: and_then_Inr)

lemma lease_of_columns:
  assumes "lease_row_ok r"
  shows "kind_as_db_str (ll_kind (lease_of r)) = lr_kind r"
    and "mode_as_db_str (ll_mode (lease_of r)) = lr_mode r"
    and "uint (ll_token (lease_of r)) = lr_token r"
    and "uint (ll_expires (lease_of r)) = lr_expires r"
    and "ll_lease_id (lease_of r) = lr_lease_id r"
    and "ll_revision (lease_of r) = lr_revision r"
    and "ll_owner (lease_of r) = lr_owner r"
  using assms
  by (auto simp: lease_row_ok_def lease_of_def uint_u64_column
      dest!: kind_text_back mode_text_back)

lemma rows_read:
  "\<forall>r \<in> set rs. lease_row_ok r \<Longrightarrow> read_rows rs = Inr (map lease_of rs)"
  by (induction rs) (auto simp: row_reads simp del: and_then_Inr)

lemma find_lease_rowD:
  "find_lease_row db lid = Some r \<Longrightarrow> r \<in> set (ls_rows db) \<and> lr_lease_id r = lid"
  by (auto simp: find_lease_row_def find_Some_iff)

lemma find_lease_row_None:
  "find_lease_row db lid = None \<longleftrightarrow> (\<forall>r \<in> set (ls_rows db). lr_lease_id r \<noteq> lid)"
  by (auto simp: find_lease_row_def find_None_iff)

lemma compatible_sym: "compatible_rows r q \<Longrightarrow> compatible_rows q r"
  by (auto simp: compatible_rows_def)

lemma sorted_wrt_in:
  "sorted_wrt compatible_rows rs \<Longrightarrow> r \<in> set rs \<Longrightarrow> q \<in> set rs \<Longrightarrow> r = q \<or> compatible_rows r q"
  by (induction rs) (auto intro: compatible_sym)

lemma lease_rows_compatible:
  assumes "lease_db_ok db" "r \<in> set (ls_rows db)" "q \<in> set (ls_rows db)" "r \<noteq> q"
  shows "compatible_rows r q"
  using assms sorted_wrt_in by (auto simp: lease_db_ok_def)

lemma lease_row_unique:
  assumes "lease_db_ok db" "r \<in> set (ls_rows db)" "q \<in> set (ls_rows db)"
    and "lr_lease_id r = lr_lease_id q"
  shows "r = q"
  using lease_rows_compatible [OF assms(1-3)] assms(4) by (auto simp: compatible_rows_def)

lemma find_lease_row_member:
  assumes "lease_db_ok db" "r \<in> set (ls_rows db)"
  shows "find_lease_row db (lr_lease_id r) = Some r"
proof (cases "find_lease_row db (lr_lease_id r)")
  case None
  then show ?thesis using assms(2) by (auto simp: find_lease_row_None)
next
  case (Some q)
  then show ?thesis using assms lease_row_unique find_lease_rowD by metis
qed

text \<open>In a sound store a read never finds a corrupt row.\<close>

lemma read_lease_sound:
  assumes "lease_db_ok db"
  shows "read_lease db lid = Inr (map_option lease_of (find_lease_row db lid))"
proof (cases "find_lease_row db lid")
  case (Some r)
  then have "lease_row_ok r" using assms find_lease_rowD by (auto simp: lease_db_ok_def)
  then show ?thesis using Some by (simp add: read_lease_def row_reads del: and_then_Inr)
qed (simp add: read_lease_def)

lemma active_leases_sound:
  assumes "lease_db_ok db" "fits_i64 now"
  shows "read_active_leases db kind revision now =
    Inr (map lease_of (sort_key (\<lambda>r. (lr_token r, lr_lease_id r))
      (filter (\<lambda>r. of_revision kind revision r \<and> i64_value now < lr_expires r) (ls_rows db))))"
  using assms
  by (simp add: read_active_leases_def ms_checked_i64_def ensure_def rows_read lease_db_ok_def
      del: and_then_Inr)

section \<open>Every operation keeps the invariant\<close>

lemma lease_db_ok_filter:
  "lease_db_ok db \<Longrightarrow> lease_db_ok (db\<lparr>ls_rows := filter P (ls_rows db)\<rparr>)"
  by (auto simp: lease_db_ok_def sorted_wrt_filter)

lemma release_keeps: "lease_db_ok db \<Longrightarrow> lease_db_ok (fst (release_lease db lid owner token))"
  by (auto simp: release_lease_def Let_def lease_db_ok_filter split: sum.split)

lemma purge_keeps: "lease_db_ok db \<Longrightarrow> lease_db_ok (fst (purge_expired db now))"
  by (auto simp: purge_expired_def Let_def lease_db_ok_filter split: sum.split)

lemma sorted_wrt_map_same:
  "(\<And>r q. P r q \<Longrightarrow> P (f r) (f q)) \<Longrightarrow> sorted_wrt P rs \<Longrightarrow> sorted_wrt P (map f rs)"
  by (induction rs) auto

lemma retimed_columns [simp]:
  "lr_lease_id (retimed hit now e r) = lr_lease_id r" "lr_kind (retimed hit now e r) = lr_kind r"
  "lr_revision (retimed hit now e r) = lr_revision r" "lr_owner (retimed hit now e r) = lr_owner r"
  "lr_mode (retimed hit now e r) = lr_mode r" "lr_token (retimed hit now e r) = lr_token r"
  "row_key (retimed hit now e r) = row_key r"
  by (auto simp: retimed_def row_key_def)

lemma i64_value_bounds: "fits_i64 w \<Longrightarrow> 0 \<le> i64_value w \<and> i64_value w < 2 ^ 63"
proof -
  assume "fits_i64 w"
  then have "int (unat w) < int (2 ^ 63)" by (simp only: of_nat_less_iff fits_i64_def)
  then show ?thesis by (simp add: i64_value_def)
qed

lemma retimed_ok:
  "lease_row_ok r \<Longrightarrow> fits_i64 e \<Longrightarrow> lease_row_ok (retimed hit now e r)"
  using i64_value_bounds [of e] by (auto simp: lease_row_ok_def retimed_def)

lemma renew_checks_ok:
  "renew_checks lid owner token now now_ms expires = Inr u \<Longrightarrow>
     fits_i64 token \<and> fits_i64 expires \<and> fits_i64 now_ms \<and> now_ms < expires"
  by (auto simp: renew_checks_def ms_checked_i64_def)

lemma renew_keeps:
  assumes "lease_db_ok db"
  shows "lease_db_ok (fst (renew_lease db lid owner token now now_ms expires))"
proof (cases "renew_checks lid owner token now now_ms expires")
  case (Inr u)
  have "sorted_wrt compatible_rows (map (retimed hit now expires) (ls_rows db))" for hit
    using assms by (intro sorted_wrt_map_same) (auto simp: compatible_rows_def lease_db_ok_def)
  then show ?thesis
    using assms renew_checks_ok [OF Inr]
    by (simp add: renew_lease_def Inr Let_def lease_db_ok_def retimed_ok epoch_covers_def)
qed (use assms in \<open>simp add: renew_lease_def\<close>)

text \<open>What a successful acquisition did.\<close>

definition unexpired :: "acquire_request \<Rightarrow> lease_row \<Rightarrow> bool" where
  "unexpired rq r \<longleftrightarrow>
     \<not> (of_revision (aq_kind rq) (aq_revision rq) r \<and> lr_expires r \<le> i64_value (aq_now_ms rq))"

abbreviation request_key :: "acquire_request \<Rightarrow> string \<times> string" where
  "request_key rq \<equiv> (kind_as_db_str (aq_kind rq), aq_revision rq)"

definition last_token :: "lease_db \<Rightarrow> string \<times> string \<Rightarrow> int" where
  "last_token db key = (case ls_epochs db key of None \<Rightarrow> 0 | Some t \<Rightarrow> t)"

lemma delete_expired_eq:
  "delete_expired_for_revision db (aq_kind rq) (aq_revision rq) (aq_now_ms rq) = Inr db1 \<longleftrightarrow>
     fits_i64 (aq_now_ms rq) \<and> db1 = db\<lparr>ls_rows := filter (unexpired rq) (ls_rows db)\<rparr>"
  by (auto simp: delete_expired_for_revision_def ms_checked_i64_def unexpired_def [abs_def])

lemma no_conflicts_shared:
  assumes ok: "lease_db_ok db1" and fits: "fits_i64 (aq_now_ms rq)"
    and none: "active_conflicts db1 (aq_kind rq) (aq_revision rq) (aq_mode rq) (aq_now_ms rq) = Inr []"
    and r: "r \<in> set (ls_rows db1)" "unexpired rq r" "row_key r = request_key rq"
  shows "lr_mode r = ''shared'' \<and> aq_mode rq = LeaseShared"
proof -
  have row: "lease_row_ok r" using ok r(1) by (auto simp: lease_db_ok_def)
  have "of_revision (aq_kind rq) (aq_revision rq) r" "i64_value (aq_now_ms rq) < lr_expires r"
    using r(2,3) by (auto simp: unexpired_def of_revision_def row_key_def)
  then have "aq_mode rq \<noteq> LeaseExclusive \<and> ll_mode (lease_of r) \<noteq> LeaseExclusive"
    using none r(1) active_leases_sound [OF ok fits]
    by (auto simp: active_conflicts_def filter_empty_conv)
  then show ?thesis
    using lease_of_columns(2) [OF row]
    by (cases "aq_mode rq"; cases "ll_mode (lease_of r)") (auto simp: lease_of_def)
qed

lemma allocate_token_eq:
  "allocate_token db kind revision = Inr (db2, token) \<longleftrightarrow>
     (let key = (kind_as_db_str kind, revision) in
      last_token db key < 2 ^ 63 - 1 \<and> u64_column (last_token db key + 1) = Inr token
      \<and> db2 = db\<lparr>ls_epochs := (ls_epochs db)(key \<mapsto> last_token db key + 1)\<rparr>)"
  by (auto simp: allocate_token_def Let_def last_token_def)

lemma acquire_leaseE:
  assumes "acquire_lease db rq = Inr (db', oc)"
  obtains (kept) l where "fits_i64 (aq_now_ms rq)"
      "db' = db\<lparr>ls_rows := filter (unexpired rq) (ls_rows db)\<rparr>"
      "oc = LeaseExisting l" "same_request l rq" "read_lease db' (aq_lease_id rq) = Inr (Some l)"
  | (busy) ls where "fits_i64 (aq_now_ms rq)"
      "db' = db\<lparr>ls_rows := filter (unexpired rq) (ls_rows db)\<rparr>"
      "oc = LeaseConflict ls" "ls \<noteq> []"
      "active_conflicts db' (aq_kind rq) (aq_revision rq) (aq_mode rq) (aq_now_ms rq) = Inr ls"
  | (taken) db1 db2 token l where "fits_i64 (aq_now_ms rq)" "fits_i64 (aq_expires rq)"
      "aq_now_ms rq < aq_expires rq"
      "db1 = db\<lparr>ls_rows := filter (unexpired rq) (ls_rows db)\<rparr>"
      "read_lease db1 (aq_lease_id rq) = Inr None"
      "active_conflicts db1 (aq_kind rq) (aq_revision rq) (aq_mode rq) (aq_now_ms rq) = Inr []"
      "allocate_token db1 (aq_kind rq) (aq_revision rq) = Inr (db2, token)"
      "insert_lease_row db2 (new_lease_row rq token) = Inr db'"
      "read_lease db' (aq_lease_id rq) = Inr (Some l)" "oc = LeaseAcquired l"
  using assms unfolding acquire_lease_def
  by (auto simp: delete_expired_eq ms_checked_i64_def validate_lease_request_def
      split: option.splits if_splits prod.splits)

lemma last_token_bounds:
  "lease_db_ok db \<Longrightarrow> 0 \<le> last_token db key \<and> last_token db key < 2 ^ 63"
  by (cases key) (auto simp: last_token_def lease_db_ok_def split: option.splits)

lemma insert_lease_rowD:
  "insert_lease_row db r = Inr db' \<Longrightarrow> db' = db\<lparr>ls_rows := ls_rows db @ [r]\<rparr>"
  by (auto simp: insert_lease_row_def split: if_splits)

lemma lease_token_below:
  "lease_db_ok db \<Longrightarrow> r \<in> set (ls_rows db) \<Longrightarrow> lr_token r \<le> last_token db (row_key r)"
  by (auto simp: lease_db_ok_def epoch_covers_def last_token_def split: option.splits)

lemma allocated:
  assumes "lease_db_ok db" "allocate_token db kind revision = Inr (db2, token)"
  shows "i64_value token = last_token db (kind_as_db_str kind, revision) + 1"
    and "fits_i64 token"
    and "db2 = db\<lparr>ls_epochs := (ls_epochs db)((kind_as_db_str kind, revision) \<mapsto>
                  last_token db (kind_as_db_str kind, revision) + 1)\<rparr>"
proof -
  let ?last = "last_token db (kind_as_db_str kind, revision)"
  have b: "0 \<le> ?last + 1" "?last + 1 < 2 ^ 63" and c: "u64_column (?last + 1) = Inr token"
    using assms last_token_bounds [OF assms(1), of "(kind_as_db_str kind, revision)"]
    by (auto simp: allocate_token_eq Let_def)
  then have "token = word_of_int (?last + 1)" by (simp add: u64_column_ok)
  then show v: "i64_value token = ?last + 1" using b 
    by (simp only: i64_value_def uint_u64_column)
  have "int (unat token) < int (2 ^ 63)" using v b by (simp add: i64_value_def)
  then show "fits_i64 token" by (simp only: fits_i64_def of_nat_less_iff)
  show "db2 = db\<lparr>ls_epochs := (ls_epochs db)((kind_as_db_str kind, revision) \<mapsto> ?last + 1)\<rparr>"
    using assms(2) by (auto simp: allocate_token_eq Let_def)
qed

lemma new_lease_row_ok:
  assumes "i64_value token = t" "1 \<le> t" "fits_i64 token" "fits_i64 (aq_expires rq)"
  shows "lease_row_ok (new_lease_row rq token)"
  using assms i64_value_bounds [OF assms(3)] i64_value_bounds [OF assms(4)]
  by (simp add: lease_row_ok_def new_lease_row_def)

lemma find_snoc: "find P xs = None \<Longrightarrow> find P (xs @ [y]) = (if P y then Some y else None)"
  by (induction xs) (auto split: if_splits)

text \<open>The row an acquisition adds, in a store that was sound before.\<close>

lemma acquired_row:
  assumes ok: "lease_db_ok db" and acq: "acquire_lease db rq = Inr (db', LeaseAcquired l)"
  obtains r where "r = new_lease_row rq (ll_token l)" "l = lease_of r" "lease_row_ok r"
    and "row_key r = request_key rq" "lr_token r = last_token db (request_key rq) + 1"
    and "ls_rows db' = filter (unexpired rq) (ls_rows db) @ [r]"
    and "ls_epochs db' = (ls_epochs db)(request_key rq \<mapsto> lr_token r)"
    and "\<forall>q \<in> set (filter (unexpired rq) (ls_rows db)). compatible_rows q r"
proof (rule acquire_leaseE [OF acq])
  fix db1 db2 token k
  assume fits: "fits_i64 (aq_now_ms rq)" "fits_i64 (aq_expires rq)"
    and db1: "db1 = db\<lparr>ls_rows := filter (unexpired rq) (ls_rows db)\<rparr>"
    and fresh: "read_lease db1 (aq_lease_id rq) = Inr None"
    and none: "active_conflicts db1 (aq_kind rq) (aq_revision rq) (aq_mode rq) (aq_now_ms rq) = Inr []"
    and alloc: "allocate_token db1 (aq_kind rq) (aq_revision rq) = Inr (db2, token)"
    and ins: "insert_lease_row db2 (new_lease_row rq token) = Inr db'"
    and reads: "read_lease db' (aq_lease_id rq) = Inr (Some k)"
    and oc: "LeaseAcquired l = LeaseAcquired k"
  let ?r = "new_lease_row rq token"
  have ok1: "lease_db_ok db1" using ok by (simp add: db1 lease_db_ok_filter)
  have last: "last_token db1 key = last_token db key" for key by (simp add: db1 last_token_def)
  note al = allocated [OF ok1 alloc]
  have row: "lease_row_ok ?r"
    using al(1,2) fits(2) last_token_bounds [OF ok, of "request_key rq"]
    by (intro new_lease_row_ok [OF al(1)]) (auto simp: last)
  have new: "find_lease_row db1 (aq_lease_id rq) = None"
    using fresh read_lease_sound [OF ok1] by simp
  have rows: "ls_rows db' = ls_rows db1 @ [?r]" and epochs: "ls_epochs db' = ls_epochs db2"
    using insert_lease_rowD [OF ins] al(3) by auto
  have "find_lease_row db' (aq_lease_id rq) = Some ?r"
    using new by (simp add: find_lease_row_def rows find_snoc new_lease_row_def)
  then have "k = lease_of ?r" using reads row by (simp add: read_lease_def row_reads)
  moreover then have "ll_token k = token"
    by (simp add: new_lease_row_def i64_value_def lease_of_def)
  ultimately have l: "l = lease_of ?r" "ll_token l = token" using oc by auto
  have key: "row_key ?r = request_key rq" by (simp add: row_key_def new_lease_row_def)
  have tok: "lr_token ?r = last_token db (request_key rq) + 1"
    using al(1) by (simp add: new_lease_row_def last)
  have "compatible_rows q ?r" if q: "q \<in> set (ls_rows db1)" for q
  proof -
    have "lr_lease_id q \<noteq> lr_lease_id ?r"
      using new q by (auto simp: find_lease_row_None new_lease_row_def)
    moreover have "lr_mode q = ''shared'' \<and> lr_mode ?r = ''shared'' \<and> lr_token q \<noteq> lr_token ?r"
      if same: "row_key q = row_key ?r"
    proof -
      have "unexpired rq q" using q by (simp add: db1)
      then show ?thesis
        using no_conflicts_shared [OF ok1 fits(1) none q] same key lease_token_below [OF ok1 q]
        by (simp add: new_lease_row_def last al(1))
    qed
    ultimately show ?thesis by (auto simp: compatible_rows_def)
  qed
  then show thesis
    using that [of ?r] l row key tok rows epochs al(1,3) by (simp add: db1 last new_lease_row_def)
qed (auto)

lemma acquire_keeps:
  assumes ok: "lease_db_ok db" and acq: "acquire_lease db rq = Inr (db', oc)"
  shows "lease_db_ok db'"
proof (cases oc)
  case (LeaseAcquired l)
  obtain r where r: "lease_row_ok r" "row_key r = request_key rq"
      "lr_token r = last_token db (request_key rq) + 1"
    and rows: "ls_rows db' = filter (unexpired rq) (ls_rows db) @ [r]"
    and epochs: "ls_epochs db' = (ls_epochs db)(request_key rq \<mapsto> lr_token r)"
    and compat: "\<forall>q \<in> set (filter (unexpired rq) (ls_rows db)). compatible_rows q r"
    using acquired_row [OF ok acq [unfolded LeaseAcquired]] by metis
  have "epoch_covers (ls_epochs db') q" if "q \<in> set (ls_rows db)" for q
    using lease_token_below [OF ok that] that ok r(3)
    by (cases "row_key q = request_key rq")
      (auto simp: epochs epoch_covers_def lease_db_ok_def)
  moreover have "epoch_covers (ls_epochs db') r"
    using r(2) by (simp add: epochs epoch_covers_def)
  ultimately show ?thesis
    using ok r(1) compat
    by (auto simp: lease_db_ok_def rows epochs sorted_wrt_append sorted_wrt_filter lease_row_ok_def
        split: if_splits)
qed (use acq in \<open>rule acquire_leaseE; auto intro: lease_db_ok_filter ok\<close>)+

lemma step_keeps: "lease_step db db' \<Longrightarrow> lease_db_ok db \<Longrightarrow> lease_db_ok db'"
  by (induction rule: lease_step.induct) (auto intro: acquire_keeps renew_keeps release_keeps purge_keeps)

lemma reach_keeps: "leases_reach db db' \<Longrightarrow> lease_db_ok db \<Longrightarrow> lease_db_ok db'"
  unfolding leases_reach_def by (induction rule: rtranclp_induct) (auto intro: step_keeps)

lemma empty_leases_ok: "lease_db_ok empty_lease_db"
  by (simp add: lease_db_ok_def empty_lease_db_def)

section \<open>Fencing\<close>

text \<open>
  What a client of a fenced registry may rely on: epochs of a key never go back, a token that is
  held is at most the epoch, and a step introduces only tokens above the epoch.
\<close>

locale fencing =
  fixes steps :: "'s \<Rightarrow> 's \<Rightarrow> bool" and sound :: "'s \<Rightarrow> bool"
    and epoch :: "'s \<Rightarrow> 'k \<Rightarrow> int" and holds :: "'s \<Rightarrow> 'k \<Rightarrow> int \<Rightarrow> 'm \<Rightarrow> bool"
  assumes sound_step: "steps s s' \<Longrightarrow> sound s \<Longrightarrow> sound s'"
    and epoch_step: "steps s s' \<Longrightarrow> sound s \<Longrightarrow> epoch s k \<le> epoch s' k"
    and holds_epoch: "sound s \<Longrightarrow> holds s k t m \<Longrightarrow> t \<le> epoch s k"
    and holds_step: "steps s s' \<Longrightarrow> sound s \<Longrightarrow> holds s' k t m \<Longrightarrow> holds s k t m \<or> epoch s k < t"
begin

lemma reach_sound: "steps\<^sup>*\<^sup>* s s' \<Longrightarrow> sound s \<Longrightarrow> sound s'"
  by (induction rule: rtranclp_induct) (auto intro: sound_step)

lemma reach_epoch: "steps\<^sup>*\<^sup>* s s' \<Longrightarrow> sound s \<Longrightarrow> epoch s k \<le> epoch s' k"
  by (induction rule: rtranclp_induct) (auto intro: order_trans epoch_step reach_sound)

lemma reach_holds:
  "steps\<^sup>*\<^sup>* s s' \<Longrightarrow> sound s \<Longrightarrow> holds s' k t m \<Longrightarrow> holds s k t m \<or> epoch s k < t"
proof (induction rule: rtranclp_induct)
  case (step s1 s2)
  then show ?case
    using holds_step [of s1 s2 k t m] reach_sound [of s s1] reach_epoch [of s s1 k] by fastforce
qed simp

lemma never_resurrected:
  assumes "steps\<^sup>*\<^sup>* s s'" "sound s" "t \<le> epoch s k" "\<not> holds s k t m"
  shows "\<not> holds s' k t m"
  using reach_holds [OF assms(1,2)] assms(3,4) by fastforce

end

definition row_holds :: "lease_db \<Rightarrow> string \<times> string \<Rightarrow> int \<Rightarrow> string \<Rightarrow> bool" where
  "row_holds db key t m \<longleftrightarrow> (\<exists>r \<in> set (ls_rows db). row_key r = key \<and> lr_token r = t \<and> lr_mode r = m)"

lemma acquire_frame:
  assumes ok: "lease_db_ok db" and acq: "acquire_lease db rq = Inr (db', oc)"
  shows "last_token db key \<le> last_token db' key"
    and "row_holds db' key t m \<Longrightarrow> row_holds db key t m \<or> last_token db key < t"
proof -
  have "last_token db key \<le> last_token db' key
      \<and> (row_holds db' key t m \<longrightarrow> row_holds db key t m \<or> last_token db key < t)"
  proof (cases oc)
    case (LeaseAcquired l)
    obtain r where "row_key r = request_key rq" "lr_token r = last_token db (request_key rq) + 1"
      and "ls_rows db' = filter (unexpired rq) (ls_rows db) @ [r]"
      and "ls_epochs db' = (ls_epochs db)(request_key rq \<mapsto> lr_token r)"
      using acquired_row [OF ok acq [unfolded LeaseAcquired]] by metis
    then show ?thesis by (auto simp: last_token_def row_holds_def)
  qed (use acq in \<open>rule acquire_leaseE; auto simp: last_token_def row_holds_def\<close>)+
  then show "last_token db key \<le> last_token db' key"
    and "row_holds db' key t m \<Longrightarrow> row_holds db key t m \<or> last_token db key < t" by blast+
qed

lemma other_frame:
  "ls_epochs (fst (renew_lease db lid owner token now now_ms expires)) = ls_epochs db"
  "row_holds (fst (renew_lease db lid owner token now now_ms expires)) key t m \<Longrightarrow> row_holds db key t m"
  "ls_epochs (fst (release_lease db lid owner token)) = ls_epochs db"
  "row_holds (fst (release_lease db lid owner token)) key t m \<Longrightarrow> row_holds db key t m"
  "ls_epochs (fst (purge_expired db now_ms)) = ls_epochs db"
  "row_holds (fst (purge_expired db now_ms)) key t m \<Longrightarrow> row_holds db key t m"
  by (auto simp: renew_lease_def release_lease_def purge_expired_def Let_def row_holds_def
      split: sum.splits)

lemma step_epoch:
  "lease_step db db' \<Longrightarrow> lease_db_ok db \<Longrightarrow> last_token db key \<le> last_token db' key"
proof (induction rule: lease_step.induct)
  case (step_acquire db rq db' oc)
  then show ?case by (rule acquire_frame(1) [rotated])
qed (simp_all add: last_token_def other_frame)

lemma step_holds:
  "lease_step db db' \<Longrightarrow> lease_db_ok db \<Longrightarrow> row_holds db' key t m \<Longrightarrow>
     row_holds db key t m \<or> last_token db key < t"
proof (induction rule: lease_step.induct)
  case (step_acquire db rq db' oc)
  then show ?case using acquire_frame(2) [of db rq db' oc key t m] by blast
qed (use other_frame(2,4,6) in \<open>metis (no_types)\<close>)+

interpretation lease_fence: fencing lease_step lease_db_ok last_token row_holds
proof
  show "lease_db_ok db \<Longrightarrow> row_holds db key t m \<Longrightarrow> t \<le> last_token db key" for db key t m
    using lease_token_below by (auto simp: row_holds_def)
qed (use step_keeps step_epoch step_holds in auto)

text \<open>A successful check names a row of the revision with the token.\<close>

lemma consumed_row:
  assumes ok: "lease_db_ok db"
    and c: "consume_lease db lid owner token kind revision mode now = Inr l"
  obtains r where "r \<in> set (ls_rows db)" "l = lease_of r" "lease_row_ok r" "lr_lease_id r = lid"
    and "lr_owner r = owner" "lr_token r = uint token" "lr_mode r = mode_as_db_str mode"
    and "row_key r = (kind_as_db_str kind, revision)" "uint now < lr_expires r"
proof -
  obtain r where r: "find_lease_row db lid = Some r" "l = lease_of r"
    and l: "ll_owner l = owner" "ll_token l = token" "ll_mode l = mode" "now < ll_expires l"
      "ll_kind l = kind" "ll_revision l = revision"
    using c by (auto simp: consume_lease_def assert_lease_def read_lease_sound [OF ok])
  have row: "lease_row_ok r" "r \<in> set (ls_rows db)" "lr_lease_id r = lid"
    using ok find_lease_rowD [OF r(1)] by (auto simp: lease_db_ok_def)
  show thesis
    using that [OF row(2) r(2) row(1,3)] l lease_of_columns [OF row(1)]
    by (auto simp: r(2) [symmetric] row_key_def word_less_def)
qed

text \<open>
  C26. A consumer that finds its exclusive lease of a revision valid immediately before it
  publishes or deletes is alone: whatever operations, by whatever processes and with whatever
  clocks, led to the tables, no other lease of the revision passes the check at any instant.
\<close>

theorem leases_exclusive:
  assumes "leases_reach empty_lease_db db"
    and "consume_lease db lid owner token kind revision LeaseExclusive now = Inr l"
    and "consume_lease db lid' owner' token' kind revision mode now' = Inr l'"
  shows "lid' = lid \<and> owner' = owner \<and> token' = token \<and> mode = LeaseExclusive"
proof -
  have ok: "lease_db_ok db" using reach_keeps [OF assms(1) empty_leases_ok] .
  obtain r where r: "r \<in> set (ls_rows db)" "lr_lease_id r = lid" "lr_owner r = owner"
    "lr_token r = uint token" "lr_mode r = mode_as_db_str LeaseExclusive"
    "row_key r = (kind_as_db_str kind, revision)"
    by (rule consumed_row [OF ok assms(2)])
  obtain q where q: "q \<in> set (ls_rows db)" "lr_lease_id q = lid'" "lr_owner q = owner'"
    "lr_token q = uint token'" "lr_mode q = mode_as_db_str mode"
    "row_key q = (kind_as_db_str kind, revision)"
    by (rule consumed_row [OF ok assms(3)])
  have "r = q"
    using lease_rows_compatible [OF ok r(1) q(1)] r(5,6) q(6) by (auto simp: compatible_rows_def)
  moreover have "token' = token"
    using r(4) q(4) \<open>r = q\<close> by (metis word_of_int_uint)
  ultimately show ?thesis using r q by (cases mode) auto
qed

definition sample_lease_request :: "string \<Rightarrow> lease_mode \<Rightarrow> u64 \<Rightarrow> acquire_request" where
  "sample_lease_request lid mode now =
     \<lparr>aq_lease_id = lid, aq_kind = KindSource, aq_revision = ''rev'', aq_owner = ''job'',
      aq_mode = mode, aq_now = ''t'', aq_now_ms = now, aq_expires = now + 10\<rparr>"

definition sample_leased :: "lease_mode \<Rightarrow> lease_db" where
  "sample_leased mode =
     (case acquire_lease empty_lease_db (sample_lease_request ''a'' mode 0) of
        Inr (db, _) \<Rightarrow> db | Inl _ \<Rightarrow> empty_lease_db)"

lemma sample_leased_eq:
  "acquire_lease empty_lease_db (sample_lease_request ''a'' mode 0) =
     Inr (sample_leased mode, LeaseAcquired (lease_of (new_lease_row (sample_lease_request ''a'' mode 0) 1)))"
  "sample_leased mode =
     \<lparr>ls_rows = [new_lease_row (sample_lease_request ''a'' mode 0) 1],
      ls_epochs = [(''source'', ''rev'') \<mapsto> 1]\<rparr>"
proof -
  have "acquire_lease empty_lease_db (sample_lease_request ''a'' mode 0) =
     Inr (\<lparr>ls_rows = [new_lease_row (sample_lease_request ''a'' mode 0) 1],
           ls_epochs = [(''source'', ''rev'') \<mapsto> 1]\<rparr>,
          LeaseAcquired (lease_of (new_lease_row (sample_lease_request ''a'' mode 0) 1)))"
    by (cases mode) (simp_all add: acquire_lease_def sample_lease_request_def validate_lease_request_def
        ms_non_empty_def ms_checked_i64_def fits_i64_def delete_expired_for_revision_def
        empty_lease_db_def read_lease_def find_lease_row_def active_conflicts_def
        read_active_leases_def allocate_token_def u64_column_def insert_lease_row_def
        new_lease_row_def i64_value_def kind_from_db_str_def mode_from_db_str_def read_lease_row_def
        Let_def lease_of_def del: and_then_Inr)
  then show "acquire_lease empty_lease_db (sample_lease_request ''a'' mode 0) =
     Inr (sample_leased mode, LeaseAcquired (lease_of (new_lease_row (sample_lease_request ''a'' mode 0) 1)))"
    and "sample_leased mode =
     \<lparr>ls_rows = [new_lease_row (sample_lease_request ''a'' mode 0) 1],
      ls_epochs = [(''source'', ''rev'') \<mapsto> 1]\<rparr>"
    by (simp_all add: sample_leased_def)
qed

lemma sample_leased_reached: "leases_reach empty_lease_db (sample_leased mode)"
  unfolding leases_reach_def using sample_leased_eq(1) step_acquire by blast

lemma sample_consumed:
  "consume_lease (sample_leased mode) ''a'' ''job'' 1 KindSource ''rev'' mode 5 =
     Inr (lease_of (new_lease_row (sample_lease_request ''a'' mode 0) 1))"
  by (cases mode) (simp_all add: sample_leased_eq(2) consume_lease_def assert_lease_def read_lease_def
      find_lease_row_def new_lease_row_def sample_lease_request_def read_lease_row_def Let_def
      kind_from_db_str_def mode_from_db_str_def u64_column_def i64_value_def lease_of_def
      del: and_then_Inr)

theorem leases_exclusive_witness:
  "''a'' = ''a'' \<and> ''job'' = ''job'' \<and> (1 :: u64) = 1 \<and> LeaseExclusive = LeaseExclusive"
  by (rule leases_exclusive [OF sample_leased_reached sample_consumed sample_consumed])

lemma acquired_issued:
  assumes "lease_db_ok db" "acquire_lease db rq = Inr (db', LeaseAcquired l)"
  obtains r where "r \<in> set (ls_rows db')" "row_key r = request_key rq" "lr_token r = uint (ll_token l)"
    "lr_mode r = mode_as_db_str (aq_mode rq)" "last_token db (request_key rq) < uint (ll_token l)"
    "uint (ll_token l) \<le> last_token db' (request_key rq)"
proof -
  obtain r where r: "r = new_lease_row rq (ll_token l)" "row_key r = request_key rq"
    "lr_token r = last_token db (request_key rq) + 1"
    "ls_rows db' = filter (unexpired rq) (ls_rows db) @ [r]"
    "ls_epochs db' = (ls_epochs db)(request_key rq \<mapsto> lr_token r)"
    using acquired_row [OF assms] by metis
  then show thesis
    using that [of r] by (simp add: new_lease_row_def i64_value_def last_token_def)
qed

text \<open>
  C27. Fencing: once a conflicting lease of a revision has been granted to somebody else, the
  earlier holder's check fails for ever, in every later state and at every clock reading, even
  under the identifier and the owner it was granted to.
\<close>

theorem newer_lease_fences_older:
  assumes "leases_reach empty_lease_db db0"
    and "acquire_lease db0 rq = Inr (db1, LeaseAcquired l)"
    and "leases_reach db1 db2"
    and "acquire_lease db2 rq' = Inr (db3, LeaseAcquired l')"
    and "aq_kind rq' = aq_kind rq" "aq_revision rq' = aq_revision rq"
    and "aq_mode rq = LeaseExclusive \<or> aq_mode rq' = LeaseExclusive"
    and "leases_reach db3 db4"
  shows "ll_token l < ll_token l'
    \<and> (\<exists>e. consume_lease db4 lid owner (ll_token l) (aq_kind rq) (aq_revision rq) mode now = Inl e)"
proof -
  let ?key = "request_key rq" and ?t = "uint (ll_token l)"
  have ok0: "lease_db_ok db0" using reach_keeps [OF assms(1) empty_leases_ok] .
  have ok1: "lease_db_ok db1" using acquire_keeps [OF ok0 assms(2)] .
  have ok2: "lease_db_ok db2" using reach_keeps [OF assms(3) ok1] .
  have ok3: "lease_db_ok db3" using acquire_keeps [OF ok2 assms(4)] .
  obtain r where r: "r \<in> set (ls_rows db1)" "row_key r = ?key" "lr_token r = ?t"
    "lr_mode r = mode_as_db_str (aq_mode rq)" "?t \<le> last_token db1 ?key"
    by (rule acquired_issued [OF ok0 assms(2)])
  obtain r' where r': "r' \<in> set (ls_rows db3)" "row_key r' = ?key" "lr_token r' = uint (ll_token l')"
    "lr_mode r' = mode_as_db_str (aq_mode rq')" "last_token db2 ?key < uint (ll_token l')"
    using acquired_issued [OF ok2 assms(4)] assms(5,6) by metis
  have le2: "?t \<le> last_token db2 ?key"
    using lease_fence.reach_epoch [OF assms(3) [unfolded leases_reach_def] ok1] r(5) by (rule order_trans [rotated])
  have less: "?t < uint (ll_token l')" using le2 r'(5) by simp
  have gone: "\<not> row_holds db3 ?key ?t m" for m
  proof
    assume "row_holds db3 ?key ?t m"
    then obtain q where q: "q \<in> set (ls_rows db3)" "row_key q = ?key" "lr_token q = ?t" "lr_mode q = m"
      by (auto simp: row_holds_def)
    have "row_holds db2 ?key ?t m"
      using acquire_frame(2) [OF ok2 assms(4), of ?key ?t m] q le2 by (auto simp: row_holds_def)
    then have "row_holds db1 ?key ?t m"
      using lease_fence.reach_holds [OF assms(3) [unfolded leases_reach_def] ok1, of ?key ?t m] r(5)
      by auto
    then obtain p where "p \<in> set (ls_rows db1)" "row_key p = ?key" "lr_token p = ?t" "lr_mode p = m"
      by (auto simp: row_holds_def)
    then have "m = mode_as_db_str (aq_mode rq)"
      using lease_rows_compatible [OF ok1 r(1), of p] r(2-4)
      by (cases "r = p") (auto simp: compatible_rows_def)
    moreover have "q \<noteq> r'" using q(3) r'(3) less by auto
    ultimately show False
      using lease_rows_compatible [OF ok3 q(1) r'(1)] q r' assms(7)
      by (auto simp: compatible_rows_def shared_text)
  qed
  have "?t \<le> last_token db3 ?key"
    using acquire_frame(1) [OF ok2 assms(4), of ?key] le2 by simp
  then have "\<not> row_holds db4 ?key ?t m" for m
    using lease_fence.never_resurrected [OF assms(8) [unfolded leases_reach_def] ok3] gone by blast
  then have "consume_lease db4 lid owner (ll_token l) (aq_kind rq) (aq_revision rq) mode now \<noteq> Inr k" for k
    using consumed_row [OF reach_keeps [OF assms(8) ok3]] by (metis row_holds_def)
  then show ?thesis
    using less by (metis sum.exhaust word_less_def)
qed

definition sample_takeover :: lease_db where
  "sample_takeover =
     \<lparr>ls_rows = [new_lease_row (sample_lease_request ''b'' LeaseExclusive 20) 2],
      ls_epochs = [(''source'', ''rev'') \<mapsto> 2]\<rparr>"

lemma sample_takeover_eq:
  "acquire_lease (sample_leased LeaseShared) (sample_lease_request ''b'' LeaseExclusive 20) =
     Inr (sample_takeover,
       LeaseAcquired (lease_of (new_lease_row (sample_lease_request ''b'' LeaseExclusive 20) 2)))"
  by (simp add: acquire_lease_def sample_lease_request_def validate_lease_request_def
        ms_non_empty_def ms_checked_i64_def fits_i64_def delete_expired_for_revision_def
        sample_leased_eq(2) sample_takeover_def read_lease_def find_lease_row_def active_conflicts_def
        read_active_leases_def allocate_token_def u64_column_def insert_lease_row_def of_revision_def
        new_lease_row_def i64_value_def kind_from_db_str_def mode_from_db_str_def read_lease_row_def
        Let_def lease_of_def fun_upd_twist del: and_then_Inr)

lemma leases_reach_refl: "leases_reach db db"
  by (simp add: leases_reach_def)

theorem newer_lease_fences_older_witness:
  "(1 :: u64) < 2 \<and> (\<exists>e. consume_lease sample_takeover ''a'' ''job'' 1 KindSource ''rev'' LeaseShared 5 = Inl e)"
  using newer_lease_fences_older
    [OF leases_reach_refl sample_leased_eq(1) [of LeaseShared] leases_reach_refl sample_takeover_eq
      _ _ _ leases_reach_refl, of "''a''" "''job''" LeaseShared 5]
  by (simp add: sample_lease_request_def lease_of_def new_lease_row_def i64_value_def)

section \<open>Holders\<close>

text \<open>The row of a handle is the one its last successful check saw.\<close>

definition handle_current :: "lease_mode \<Rightarrow> lease_db \<Rightarrow> lease_handle \<Rightarrow> bool" where
  "handle_current mode db h \<longleftrightarrow>
     (case find_lease_row db (lh_lease_id h) of
        None \<Rightarrow> False
      | Some r \<Rightarrow> lr_owner r = lh_owner h \<and> lr_token r = i64_value (lh_token h)
                  \<and> lr_mode r = mode_as_db_str mode \<and> lr_expires r = i64_value (lh_expires h))"

lemma find_retimed:
  "find (\<lambda>r. lr_lease_id r = lid) (map (retimed hit now e) rs) =
     map_option (retimed hit now e) (find (\<lambda>r. lr_lease_id r = lid) rs)"
  by (induction rs) auto

lemma compatible_distinct: "sorted_wrt compatible_rows rs \<Longrightarrow> distinct rs"
  by (induction rs) (auto simp: compatible_rows_def)

lemma decimal_not_empty: "decimal n \<noteq> []"
  by (subst decimal.simps) simp

lemma one_hit:
  assumes ok: "lease_db_ok db" and r: "find_lease_row db lid = Some r" and hit: "P r"
    and only: "\<And>q. P q \<Longrightarrow> lr_lease_id q = lid"
  shows "length (filter P (ls_rows db)) = 1"
proof -
  have d: "distinct (ls_rows db)" using ok compatible_distinct by (simp add: lease_db_ok_def)
  have "set (filter P (ls_rows db)) = {r}"
    using r hit only lease_row_unique [OF ok] find_lease_rowD [OF r] by auto
  then show ?thesis using d distinct_filter distinct_card
    by (metis card.empty card_insert_disjoint finite.emptyI empty_iff One_nat_def)
qed

text \<open>
  A holder that checks in time keeps its lease: when the row is the one its handle names, the
  lease has not expired and the instants fit SQLite's integers, \<open>assert_current\<close> succeeds, the
  row still is the one the handle names, and it has not expired.
\<close>

theorem timely_holder_keeps_lease:
  assumes "lease_db_ok db" and "handle_current mode db h"
    and "now < lh_expires h" and "0 < lh_ttl h"
    and "lh_lease_id h \<noteq> []" "lh_owner h \<noteq> []"
    and "fits_i64 (lh_token h)" "fits_i64 (saturating_add now (lh_ttl h))"
    and "assert_current mode db h now = (db', h', r)"
  shows "r = Inr () \<and> handle_current mode db' h' \<and> lease_db_ok db' \<and> now < lh_expires h'
    \<and> lh_token h' = lh_token h"
proof -
  obtain row where f: "find_lease_row db (lh_lease_id h) = Some row"
    and row: "lr_owner row = lh_owner h" "lr_token row = i64_value (lh_token h)"
      "lr_mode row = mode_as_db_str mode" "lr_expires row = i64_value (lh_expires h)"
    using assms(2) by (auto simp: handle_current_def split: option.splits)
  have in_db: "row \<in> set (ls_rows db)" "lr_lease_id row = lh_lease_id h" and rok: "lease_row_ok row"
    using find_lease_rowD [OF f] assms(1) by (auto simp: lease_db_ok_def)
  show ?thesis
  proof (cases "lh_expires h \<le> saturating_add now (lh_ttl h div 3)")
    case False
    have "now < ll_expires (lease_of row)" "ll_mode (lease_of row) = mode"
      "ll_token (lease_of row) = lh_token h"
      using row assms(3) by (simp_all add: lease_of_def i64_value_def)
    then have "assert_lease db (lh_lease_id h) (lh_owner h) (lh_token h) mode now = Inr (lease_of row)"
      using row by (simp add: assert_lease_def read_lease_sound [OF assms(1)] f lease_of_def
          del: and_then_Inr)
    then show ?thesis using False assms by (simp add: assert_current_def)
  next
    case True
    let ?e = "saturating_add now (lh_ttl h)"
    let ?hit = "renewable (lh_lease_id h) (lh_owner h) (lh_token h) now"
    let ?db = "db\<lparr>ls_rows := map (retimed ?hit (decimal (unat now)) ?e) (ls_rows db)\<rparr>"
    have fe: "unat ?e < 2 ^ 63" using assms(8) by (simp add: fits_i64_def)
    then have ue: "unat ?e = unat now + unat (lh_ttl h)" by (simp add: unat_saturating_add)
    have less: "now < ?e" using ue assms(4) by (simp add: word_less_nat_alt)
    have fits: "fits_i64 now" "fits_i64 ?e" using fe ue by (simp_all add: fits_i64_def)
    have hit: "?hit row"
      using row in_db assms(3) by (simp add: renewable_def owned_row_def i64_value_def word_less_def)
    have one: "length (filter ?hit (ls_rows db)) = 1"
      using one_hit [OF assms(1) f, of ?hit] hit by (simp add: renewable_def owned_row_def)
    have f': "find_lease_row ?db (lh_lease_id h) = Some (retimed ?hit (decimal (unat now)) ?e row)"
      using f by (simp add: find_lease_row_def find_retimed)
    have "renew_checks (lh_lease_id h) (lh_owner h) (lh_token h) (decimal (unat now)) now ?e = Inr ()"
      using assms(5-8) fits less by (simp add: renew_checks_def ms_non_empty_def ms_checked_i64_def
          decimal_not_empty del: and_then_Inr)
    then have ren: "renew_lease db (lh_lease_id h) (lh_owner h) (lh_token h) (decimal (unat now)) now ?e =
      (?db, and_then (read_lease ?db (lh_lease_id h)) (\<lambda>l. option_ok (MsNotFound (lh_lease_id h)) l))"
      using one by (simp add: renew_lease_def Let_def del: and_then_Inr)
    then have ok': "lease_db_ok ?db"
      using renew_keeps [OF assms(1), of "lh_lease_id h" "lh_owner h" "lh_token h" "decimal (unat now)" now ?e]
      by simp
    have "renew_lease db (lh_lease_id h) (lh_owner h) (lh_token h) (decimal (unat now)) now ?e =
      (?db, Inr (lease_of (retimed ?hit (decimal (unat now)) ?e row)))"
      by (simp add: ren read_lease_sound [OF ok'] f' del: and_then_Inr)
    then show ?thesis
      using True assms(9) f' ok' less row hit
      by (auto simp: assert_current_def handle_current_def retimed_def lease_of_def i64_value_def)
  qed
qed

theorem timely_holder_keeps_lease_witness:
  "assert_current LeaseShared (sample_leased LeaseShared)
       \<lparr>lh_lease_id = ''a'', lh_owner = ''job'', lh_token = 1, lh_expires = 10, lh_ttl = 9\<rparr> 7
     = (\<lparr>ls_rows = [(new_lease_row (sample_lease_request ''a'' LeaseShared 0) 1)
                     \<lparr>lr_updated_at := decimal 7, lr_expires := 16\<rparr>],
         ls_epochs = [(''source'', ''rev'') \<mapsto> 1]\<rparr>,
        \<lparr>lh_lease_id = ''a'', lh_owner = ''job'', lh_token = 1, lh_expires = 16, lh_ttl = 9\<rparr>, Inr ())
   \<and> lease_db_ok \<lparr>ls_rows = [(new_lease_row (sample_lease_request ''a'' LeaseShared 0) 1)
                     \<lparr>lr_updated_at := decimal 7, lr_expires := 16\<rparr>],
         ls_epochs = [(''source'', ''rev'') \<mapsto> 1]\<rparr>"
proof -
  have run: "assert_current LeaseShared (sample_leased LeaseShared)
       \<lparr>lh_lease_id = ''a'', lh_owner = ''job'', lh_token = 1, lh_expires = 10, lh_ttl = 9\<rparr> 7
     = (\<lparr>ls_rows = [(new_lease_row (sample_lease_request ''a'' LeaseShared 0) 1)
                     \<lparr>lr_updated_at := decimal 7, lr_expires := 16\<rparr>],
         ls_epochs = [(''source'', ''rev'') \<mapsto> 1]\<rparr>,
        \<lparr>lh_lease_id = ''a'', lh_owner = ''job'', lh_token = 1, lh_expires = 16, lh_ttl = 9\<rparr>, Inr ())"
    by (simp add: assert_current_def sample_leased_eq(2) saturating_add_def renew_lease_def
        renew_checks_def ms_non_empty_def ms_checked_i64_def fits_i64_def renewable_def owned_row_def
        new_lease_row_def sample_lease_request_def i64_value_def retimed_def read_lease_def
        find_lease_row_def read_lease_row_def kind_from_db_str_def mode_from_db_str_def
        u64_column_def Let_def decimal_not_empty del: and_then_Inr)
  show ?thesis
    using run timely_holder_keeps_lease
      [OF reach_keeps [OF sample_leased_reached empty_leases_ok] _ _ _ _ _ _ _ run]
    by (simp add: handle_current_def sample_leased_eq(2) find_lease_row_def new_lease_row_def
        sample_lease_request_def i64_value_def fits_i64_def saturating_add_def)
qed

section \<open>What can fail\<close>

lemma new_row_inserted:
  assumes ok: "lease_db_ok db" and val: "validate_lease_request rq = Inr ()"
    and fits: "fits_i64 (aq_expires rq)"
    and fresh: "find_lease_row db (aq_lease_id rq) = None"
    and alloc: "allocate_token db (aq_kind rq) (aq_revision rq) = Inr (db2, token)"
  shows "insert_lease_row db2 (new_lease_row rq token) =
    Inr (db2\<lparr>ls_rows := ls_rows db @ [new_lease_row rq token]\<rparr>)"
proof -
  let ?r = "new_lease_row rq token"
  note al = allocated [OF ok alloc]
  have row: "lease_row_ok ?r"
    using last_token_bounds [OF ok, of "request_key rq"] al(2) fits
    by (intro new_lease_row_ok [OF al(1)]) auto
  have id: "\<not> list_ex (\<lambda>q. lr_lease_id q = lr_lease_id ?r) (ls_rows db)"
    using fresh by (simp add: list_ex_iff find_lease_row_None new_lease_row_def)
  have tok: "\<not> list_ex (\<lambda>q. lr_kind q = lr_kind ?r \<and> lr_revision q = lr_revision ?r
      \<and> lr_token q = lr_token ?r) (ls_rows db)"
    using lease_token_below [OF ok] al(1)
    by (fastforce simp: list_ex_iff new_lease_row_def row_key_def)
  have names: "lr_lease_id ?r \<noteq> [] \<and> lr_revision ?r \<noteq> [] \<and> lr_owner ?r \<noteq> []"
    using val by (simp add: validate_lease_request_def ms_non_empty_def new_lease_row_def)
  have "ls_rows db2 = ls_rows db" "ls_epochs db2 (lr_kind ?r, lr_revision ?r) \<noteq> None"
    by (simp_all add: al(3) new_lease_row_def)
  then show ?thesis
    using row id tok names by (auto simp: insert_lease_row_def lease_row_ok_def)
qed

lemma acquire_error:
  assumes ok: "lease_db_ok db" and err: "acquire_lease db rq = Inl e"
  shows "\<exists>d. e = MsConflict d"
proof (rule ccontr)
  assume other: "\<nexists>d. e = MsConflict d"
  have val: "validate_lease_request rq = Inr ()"
    using err other by (cases "validate_lease_request rq")
      (auto simp: acquire_lease_def validate_lease_request_def ms_non_empty_def ensure_def split: if_splits)
  have fits: "fits_i64 (aq_now_ms rq)"
    using err other by (auto simp: acquire_lease_def val delete_expired_for_revision_def
        ms_checked_i64_def ensure_def split: if_splits)
  define db1 where "db1 = db\<lparr>ls_rows := filter (unexpired rq) (ls_rows db)\<rparr>"
  have del: "delete_expired_for_revision db (aq_kind rq) (aq_revision rq) (aq_now_ms rq) = Inr db1"
    by (simp add: delete_expired_eq fits db1_def)
  have ok1: "lease_db_ok db1" using ok by (simp add: db1_def lease_db_ok_filter)
  obtain cs where cs:
    "active_conflicts db1 (aq_kind rq) (aq_revision rq) (aq_mode rq) (aq_now_ms rq) = Inr cs"
    by (simp add: active_conflicts_def active_leases_sound [OF ok1 fits] del: and_then_Inr)
  have fresh: "find_lease_row db1 (aq_lease_id rq) = None" and none: "cs = []"
    using err other by (auto simp: acquire_lease_def val del read_lease_sound [OF ok1] cs ensure_def
        simp del: and_then_Inr split: option.splits if_splits)
  obtain db2 token where alloc: "allocate_token db1 (aq_kind rq) (aq_revision rq) = Inr (db2, token)"
    using err other last_token_bounds [OF ok1, of "request_key rq"]
    by (cases "allocate_token db1 (aq_kind rq) (aq_revision rq)")
      (auto simp: acquire_lease_def val del read_lease_sound [OF ok1] cs fresh none
        allocate_token_def Let_def ensure_def u64_column_def last_token_def
        simp del: and_then_Inr split: option.splits if_splits)
  have fe: "fits_i64 (aq_expires rq)"
    using err other allocated(2) [OF ok1 alloc]
    by (auto simp: acquire_lease_def val del read_lease_sound [OF ok1] cs fresh none alloc
        ms_checked_i64_def ensure_def simp del: and_then_Inr split: if_splits)
  let ?db3 = "db2\<lparr>ls_rows := ls_rows db1 @ [new_lease_row rq token]\<rparr>"
  have "lease_row_ok (new_lease_row rq token)"
    using last_token_bounds [OF ok1, of "request_key rq"] allocated [OF ok1 alloc] fe
    by (intro new_lease_row_ok) auto
  then have "read_lease ?db3 (aq_lease_id rq) = Inr (Some (lease_of (new_lease_row rq token)))"
    using fresh by (simp add: read_lease_def find_lease_row_def find_snoc new_lease_row_def row_reads
        del: and_then_Inr)
  then show False
    using err allocated(2) [OF ok1 alloc] fe new_row_inserted [OF ok1 val fe fresh alloc]
    by (simp add: acquire_lease_def val del read_lease_sound [OF ok1] cs fresh none alloc
        ms_checked_i64_def del: and_then_Inr)
qed

lemma renew_error:
  assumes ok: "lease_db_ok db" and err: "snd (renew_lease db lid owner token now now_ms expires) = Inl e"
  shows "\<exists>d. e = MsConflict d"
proof (cases "renew_checks lid owner token now now_ms expires")
  case (Inl d)
  then show ?thesis using err
    by (auto simp: renew_lease_def renew_checks_def ms_non_empty_def ms_checked_i64_def ensure_def
        split: if_splits)
next
  case (Inr u)
  let ?hit = "renewable lid owner token now_ms"
  let ?db = "db\<lparr>ls_rows := map (retimed ?hit now expires) (ls_rows db)\<rparr>"
  have ok': "lease_db_ok ?db"
    using renew_keeps [OF ok, of lid owner token now now_ms expires] by (simp add: renew_lease_def Inr Let_def)
  show ?thesis
  proof (cases "length (filter ?hit (ls_rows db)) = 1")
    case False
    then show ?thesis using err by (auto simp: renew_lease_def Inr Let_def ensure_def)
  next
    case True
    then obtain r where "r \<in> set (ls_rows db)" "?hit r"
      by (metis filter_empty_conv length_0_conv zero_neq_one)
    then have "find_lease_row ?db lid \<noteq> None"
      by (auto simp: find_lease_row_None renewable_def owned_row_def)
    then show ?thesis using err True
      by (auto simp: renew_lease_def Inr Let_def read_lease_sound [OF ok'] simp del: and_then_Inr)
  qed
qed

text \<open>
  The tables never contradict their readers: from the empty tables on, no operation finds a
  corrupt or a vanished row, and no insertion breaks a constraint of the schema. What can fail is a
  check: an empty name, an instant or a token beyond SQLite's integers, another owner's lease.
\<close>

theorem lease_tables_never_corrupt:
  assumes "leases_reach empty_lease_db db"
  shows "(acquire_lease db rq = Inl e \<or> snd (renew_lease db lid owner token now now_ms expires) = Inl e
      \<or> consume_lease db lid owner token kind revision mode now_ms = Inl e) \<longrightarrow> (\<exists>d. e = MsConflict d)"
proof -
  have ok: "lease_db_ok db" using reach_keeps [OF assms empty_leases_ok] .
  have "\<exists>d. e = MsConflict d" if "consume_lease db lid owner token kind revision mode now_ms = Inl e"
    using that by (cases "find_lease_row db lid")
      (auto simp: consume_lease_def assert_lease_def read_lease_sound [OF ok] ensure_def option_ok_def
        simp del: and_then_Inr split: if_splits)
  then show ?thesis using acquire_error [OF ok] renew_error [OF ok] by blast
qed

theorem lease_tables_never_corrupt_witness:
  "\<exists>e. consume_lease (sample_leased LeaseShared) ''zz'' ''job'' 1 KindSource ''rev'' LeaseShared 5 = Inl e
     \<and> (\<exists>d. e = MsConflict d)"
proof -
  have "consume_lease (sample_leased LeaseShared) ''zz'' ''job'' 1 KindSource ''rev'' LeaseShared 5 = Inl (MsConflict ''zz'')"
    by (simp add: consume_lease_def assert_lease_def sample_leased_eq(2) read_lease_def find_lease_row_def
        new_lease_row_def sample_lease_request_def option_ok_def del: and_then_Inr)
  then show ?thesis using lease_tables_never_corrupt [OF sample_leased_reached] by blast
qed

end
