(* ===== verification/Strict_Json.thy ===== *)
theory Strict_Json
  imports Rational_Time
begin

text \<open>
  The lexical half of publication trust (\<open>publication.rs\<close>): the audit that refuses JSON a map
  would silently repair (duplicate keys, isolated surrogates, numbers beyond \<open>f64\<close>), and the
  canonical form whose bytes are signed. The audit works on what is left of the input, where the
  code keeps an offset into it; its recursion is written as the code has it, as a function that
  might not return, and that it always returns is proved. Decoding a JSON string literal and
  building the value are \<open>serde_json\<close>'s: the first is a parameter, the second is left to the
  caller.
\<close>

section \<open>Bytes\<close>

datatype publication_trust_error = Rejected string

definition byte :: "char \<Rightarrow> nat" where
  "byte c = of_char c"

definition is_ascii_whitespace :: "char \<Rightarrow> bool" where
  "is_ascii_whitespace c \<longleftrightarrow> byte c \<in> {32, 9, 10, 12, 13}"

text \<open>\<open>ws\<close> and \<open>take\<close> of the audit.\<close>

definition skip_ws :: "string \<Rightarrow> string" where
  "skip_ws s = dropWhile is_ascii_whitespace s"

fun take_byte :: "char \<Rightarrow> string \<Rightarrow> string option" where
  "take_byte b [] = None"
| "take_byte b (c # r) = (if c = b then Some r else None)"

text \<open>What \<open>u16::from_str_radix(_, 16)\<close> reads: an optional plus sign and hexadecimal digits.\<close>

definition radix_digit :: "char \<Rightarrow> nat" where
  "radix_digit c =
     (if is_ascii_digit c then byte c - 48
      else if is_lower_hex_letter c then byte c - 87 else byte c - 55)"

fun hex_number :: "nat \<Rightarrow> string \<Rightarrow> nat" where
  "hex_number a [] = a"
| "hex_number a (c # cs) = hex_number (16 * a + radix_digit c) cs"

definition from_hex_radix :: "string \<Rightarrow> nat option" where
  "from_hex_radix s =
     (let digits = (case take_byte CHR ''+'' s of Some r \<Rightarrow> r | None \<Rightarrow> s) in
      if digits \<noteq> [] \<and> list_all is_ascii_hexdigit digits \<and> hex_number 0 digits < 65536
      then Some (hex_number 0 digits) else None)"

section \<open>Surrogate escapes\<close>

definition hex_unit :: "string \<Rightarrow> nat option" where
  "hex_unit s = (if length s < 4 then None else from_hex_radix (take 4 s))"

definition high_surrogate :: "nat \<Rightarrow> bool" where
  "high_surrogate u \<longleftrightarrow> 55296 \<le> u \<and> u \<le> 56319"

definition low_surrogate :: "nat \<Rightarrow> bool" where
  "low_surrogate u \<longleftrightarrow> 56320 \<le> u \<and> u \<le> 57343"

definition bad_escape :: publication_trust_error where
  "bad_escape = Rejected ''invalid strict JSON unicode escape''"

definition isolated_surrogate :: publication_trust_error where
  "isolated_surrogate = Rejected ''invalid strict JSON: isolated Unicode surrogate''"

text \<open>The loop of \<open>validate_surrogate_escapes\<close>, which runs while six bytes are left.\<close>

function validate_surrogate_escapes :: "string \<Rightarrow> publication_trust_error + unit" where
  "validate_surrogate_escapes s =
     (if length s < 6 then Inr ()
      else if s ! 0 \<noteq> CHR 0x5C \<or> s ! 1 \<noteq> CHR ''u'' then validate_surrogate_escapes (drop 1 s)
      else
        (case hex_unit (drop 2 s) of
           None \<Rightarrow> Inl bad_escape
         | Some unit \<Rightarrow>
             if high_surrogate unit
             then (if take 2 (drop 6 s) = [CHR 0x5C, CHR ''u'']
                   then (case hex_unit (drop 8 s) of
                           None \<Rightarrow> Inl isolated_surrogate
                         | Some low \<Rightarrow>
                             if low_surrogate low then validate_surrogate_escapes (drop 12 s)
                             else Inl isolated_surrogate)
                   else Inl isolated_surrogate)
             else if low_surrogate unit then Inl isolated_surrogate
             else validate_surrogate_escapes (drop 6 s)))"
  by pat_completeness auto
termination
  by (relation "measure length") auto

declare validate_surrogate_escapes.simps [simp del]

section \<open>Numbers\<close>

text \<open>
  Whether the decimal number is finite as an \<open>f64\<close>: rounding to nearest gives infinity exactly
  from \<open>2 ^ 1024 - 2 ^ 970\<close> on.
\<close>

definition f64_limit :: nat where
  "f64_limit = 2 ^ 1024 - 2 ^ 970"

definition digits_of :: "string \<Rightarrow> string" where
  "digits_of s = takeWhile is_ascii_digit s"

definition after_digits :: "string \<Rightarrow> string" where
  "after_digits s = dropWhile is_ascii_digit s"

definition f64_is_finite :: "string \<Rightarrow> bool" where
  "f64_is_finite raw =
     (let s1 = (case take_byte CHR ''-'' raw of Some r \<Rightarrow> r | None \<Rightarrow> raw);
          whole = digits_of s1;
          s2 = after_digits s1;
          fraction = (case take_byte CHR ''.'' s2 of Some r \<Rightarrow> digits_of r | None \<Rightarrow> []);
          s3 = (case take_byte CHR ''.'' s2 of Some r \<Rightarrow> after_digits r | None \<Rightarrow> s2);
          s4 = drop 1 s3;
          negative = (s3 \<noteq> [] \<and> s4 \<noteq> [] \<and> hd s4 = CHR ''-'');
          places = decimal_value 0 (digits_of (dropWhile (\<lambda>c. c = CHR ''+'' \<or> c = CHR ''-'') s4));
          ten = (if s3 = [] then 0 else if negative then - int places else int places)
                - int (length fraction);
          mantissa = decimal_value 0 (whole @ fraction)
      in if 0 \<le> ten then mantissa * 10 ^ nat ten < f64_limit
         else mantissa < f64_limit * 10 ^ nat (- ten))"

definition bad_number :: publication_trust_error where
  "bad_number = Rejected ''invalid strict JSON number''"

definition number_whole :: "string \<Rightarrow> publication_trust_error + string" where
  "number_whole s =
     (case take_byte CHR ''0'' s of
        Some r \<Rightarrow> Inr r
      | None \<Rightarrow>
          (case s of
             [] \<Rightarrow> Inl bad_number
           | c # _ \<Rightarrow> if is_ascii_digit c \<and> c \<noteq> CHR ''0'' then Inr (after_digits s) else Inl bad_number))"

definition some_digits :: "string \<Rightarrow> publication_trust_error + string" where
  "some_digits s = and_then (ensure (digits_of s \<noteq> []) bad_number) (\<lambda>_. Inr (after_digits s))"

definition number_fraction :: "string \<Rightarrow> publication_trust_error + string" where
  "number_fraction s = (case take_byte CHR ''.'' s of None \<Rightarrow> Inr s | Some r \<Rightarrow> some_digits r)"

definition skip_sign :: "string \<Rightarrow> string" where
  "skip_sign s =
     (case s of [] \<Rightarrow> s | d # t \<Rightarrow> if d = CHR ''+'' \<or> d = CHR ''-'' then t else s)"

definition number_exponent :: "string \<Rightarrow> publication_trust_error + string" where
  "number_exponent s =
     (case s of
        [] \<Rightarrow> Inr s
      | c # r \<Rightarrow>
          if c = CHR ''e'' \<or> c = CHR ''E''
          then some_digits (skip_sign r)
          else Inr s)"

definition audit_number :: "string \<Rightarrow> publication_trust_error + string" where
  "audit_number s =
     and_then (number_whole (case take_byte CHR ''-'' s of Some r \<Rightarrow> r | None \<Rightarrow> s)) (\<lambda>s2.
     and_then (number_fraction s2) (\<lambda>s3.
     and_then (number_exponent s3) (\<lambda>s4.
     and_then (ensure (f64_is_finite (take (length s - length s4) s))
       (Rejected ''invalid strict JSON non-finite number'')) (\<lambda>_.
     Inr s4))))"

section \<open>Strings\<close>

text \<open>
  The scan of a literal after its opening quote; it returns what follows the closing quote.
\<close>

fun scan_string :: "bool \<Rightarrow> string \<Rightarrow> publication_trust_error + string" where
  "scan_string escaped [] = Inl (Rejected ''invalid strict JSON unterminated string'')"
| "scan_string True (b # r) =
     (if b = CHR ''u''
      then (if 4 \<le> length r \<and> list_all is_ascii_hexdigit (take 4 r)
            then scan_string False (drop 4 r) else Inl bad_escape)
      else if byte b \<in> {34, 92, 47, 98, 102, 110, 114, 116} then scan_string False r
      else Inl (Rejected ''invalid strict JSON escape''))"
| "scan_string False (b # r) =
     (if byte b = 92 then scan_string True r
      else if byte b = 34 then Inr r
      else if byte b < 32 then Inl (Rejected ''invalid strict JSON control character'')
      else scan_string False r)"

text \<open>
  \<open>decode\<close> is \<open>serde_json\<close>'s reading of one string literal, the decoded string as its scalar
  values.
\<close>

type_synonym literal_decoder = "string \<Rightarrow> nat list option"

definition audit_string ::
    "literal_decoder \<Rightarrow> string \<Rightarrow> publication_trust_error + (nat list \<times> string)" where
  "audit_string decode s =
     and_then (option_ok (Rejected ''invalid strict JSON string'') (take_byte CHR 0x22 s)) (\<lambda>r0.
     and_then (scan_string False r0) (\<lambda>r.
     and_then (option_ok (Rejected ''invalid strict JSON string'')
       (decode (take (length s - length r) s))) (\<lambda>decoded.
     and_then (ensure (\<not> list_ex (\<lambda>c. 55296 \<le> c \<and> c \<le> 57343) decoded) isolated_surrogate) (\<lambda>_.
     Inr (decoded, r)))))"

definition audit_literal :: "string \<Rightarrow> string \<Rightarrow> publication_trust_error + string" where
  "audit_literal expected s =
     (if take (length expected) s = expected then Inr (drop (length expected) s)
      else Inl (Rejected ''invalid strict JSON literal''))"

section \<open>The audit\<close>

text \<open>
  The three mutually recursive methods: a value, the members of an object after its brace (with
  the keys seen so far), the elements of an array after its bracket.
\<close>

datatype audit_call =
    CallValue string
  | CallMembers "nat list list" string
  | CallElements string

definition bad_object :: publication_trust_error where
  "bad_object = Rejected ''invalid strict JSON object''"

definition bad_array :: publication_trust_error where
  "bad_array = Rejected ''invalid strict JSON array''"

definition duplicate_key :: publication_trust_error where
  "duplicate_key = Rejected ''invalid strict JSON: duplicate JSON object key''"

text \<open>A member up to its value: the key, the colon.\<close>

definition member_head ::
    "literal_decoder \<Rightarrow> nat list list \<Rightarrow> string \<Rightarrow> publication_trust_error + (nat list \<times> string)" where
  "member_head decode keys s =
     and_then (audit_string decode (skip_ws s)) (\<lambda>(key, r).
     and_then (ensure (key \<notin> set keys) duplicate_key) (\<lambda>_.
     and_then (option_ok bad_object (take_byte CHR '':'' (skip_ws r))) (\<lambda>v.
     Inr (key, v))))"

text \<open>The calls that start a value.\<close>

datatype value_start = StartDone "publication_trust_error + string" | StartCall audit_call

definition start_value :: "literal_decoder \<Rightarrow> string \<Rightarrow> value_start" where
  "start_value decode s0 =
     (let s = skip_ws s0 in
      case s of
        [] \<Rightarrow> StartDone (Inl (Rejected ''invalid strict JSON value''))
      | b # r \<Rightarrow>
          if b = CHR ''{'' then
            (case take_byte CHR ''}'' (skip_ws r) of
               Some rest \<Rightarrow> StartDone (Inr rest) | None \<Rightarrow> StartCall (CallMembers [] (skip_ws r)))
          else if b = CHR ''['' then
            (case take_byte CHR '']'' (skip_ws r) of
               Some rest \<Rightarrow> StartDone (Inr rest) | None \<Rightarrow> StartCall (CallElements (skip_ws r)))
          else if byte b = 34 then
            StartDone (and_then (audit_string decode s) (\<lambda>(_, rest). Inr rest))
          else if b = CHR ''t'' then StartDone (audit_literal ''true'' s)
          else if b = CHR ''f'' then StartDone (audit_literal ''false'' s)
          else if b = CHR ''n'' then StartDone (audit_literal ''null'' s)
          else if b = CHR ''-'' \<or> is_ascii_digit b then StartDone (audit_number s)
          else StartDone (Inl (Rejected ''invalid strict JSON value'')))"

partial_function (option) audit ::
    "literal_decoder \<Rightarrow> audit_call \<Rightarrow> (publication_trust_error + string) option" where
  "audit decode call =
     (case call of
        CallValue s \<Rightarrow>
          (case start_value decode s of StartDone r \<Rightarrow> Some r | StartCall c \<Rightarrow> audit decode c)
      | CallMembers keys s \<Rightarrow>
          (case member_head decode keys s of
             Inl e \<Rightarrow> Some (Inl e)
           | Inr (key, v) \<Rightarrow>
               Option.bind (audit decode (CallValue v)) (\<lambda>result.
               case result of
                 Inl e \<Rightarrow> Some (Inl e)
               | Inr r \<Rightarrow>
                   (case take_byte CHR ''}'' (skip_ws r) of
                      Some rest \<Rightarrow> Some (Inr rest)
                    | None \<Rightarrow>
                        (case take_byte CHR '','' (skip_ws r) of
                           None \<Rightarrow> Some (Inl bad_object)
                         | Some further \<Rightarrow> audit decode (CallMembers (key # keys) further)))))
      | CallElements s \<Rightarrow>
          Option.bind (audit decode (CallValue s)) (\<lambda>result.
          case result of
            Inl e \<Rightarrow> Some (Inl e)
          | Inr r \<Rightarrow>
              (case take_byte CHR '']'' (skip_ws r) of
                 Some rest \<Rightarrow> Some (Inr rest)
               | None \<Rightarrow>
                   (case take_byte CHR '','' (skip_ws r) of
                      None \<Rightarrow> Some (Inl bad_array)
                    | Some further \<Rightarrow> audit decode (CallElements further)))))"

text \<open>The whole input: one value and white space.\<close>

definition audit_text ::
    "literal_decoder \<Rightarrow> string \<Rightarrow> (publication_trust_error + unit) option" where
  "audit_text decode s =
     Option.bind (audit decode (CallValue (skip_ws s))) (\<lambda>result.
     Some (and_then result (\<lambda>r.
     ensure (skip_ws r = []) (Rejected ''invalid strict JSON trailing data''))))"

section \<open>The grammar\<close>

text \<open>
  The language the audit is meant to accept, written as productions: JSON whose numbers are
  finite, whose literals decode, and whose objects have pairwise different decoded keys at every
  depth. White space is the one of \<open>is_ascii_whitespace\<close>.
\<close>

definition blank :: "string \<Rightarrow> bool" where
  "blank w \<longleftrightarrow> list_all is_ascii_whitespace w"

definition digits :: "string \<Rightarrow> bool" where
  "digits d \<longleftrightarrow> d \<noteq> [] \<and> list_all is_ascii_digit d"

definition json_whole :: "string \<Rightarrow> bool" where
  "json_whole w \<longleftrightarrow> w = ''0'' \<or> digits w \<and> hd w \<noteq> CHR ''0''"

definition json_fraction :: "string \<Rightarrow> bool" where
  "json_fraction f \<longleftrightarrow> f = [] \<or> (\<exists>d. f = CHR ''.'' # d \<and> digits d)"

definition json_exponent :: "string \<Rightarrow> bool" where
  "json_exponent e \<longleftrightarrow>
     e = [] \<or> (\<exists>c sg d. e = c # sg @ d \<and> c \<in> {CHR ''e'', CHR ''E''} \<and> sg \<in> {[], ''+'', ''-''} \<and> digits d)"

definition json_number :: "string \<Rightarrow> bool" where
  "json_number n \<longleftrightarrow>
     f64_is_finite n
     \<and> (\<exists>sg w f e. n = sg @ w @ f @ e \<and> sg \<in> {[], ''-''} \<and> json_whole w \<and> json_fraction f \<and> json_exponent e)"

definition json_string :: "literal_decoder \<Rightarrow> string \<Rightarrow> nat list \<Rightarrow> bool" where
  "json_string decode p key \<longleftrightarrow>
     (\<exists>q. p = CHR 0x22 # q \<and> scan_string False q = Inr [])
     \<and> decode p = Some key \<and> \<not> list_ex (\<lambda>c. 55296 \<le> c \<and> c \<le> 57343) key"

inductive json_value :: "literal_decoder \<Rightarrow> string \<Rightarrow> bool"
  and json_members :: "literal_decoder \<Rightarrow> nat list list \<Rightarrow> string \<Rightarrow> bool"
  and json_elements :: "literal_decoder \<Rightarrow> string \<Rightarrow> bool"
  for decode where
  jv_literal: "v \<in> {''true'', ''false'', ''null''} \<Longrightarrow> json_value decode v"
| jv_number: "json_number v \<Longrightarrow> json_value decode v"
| jv_string: "json_string decode v key \<Longrightarrow> json_value decode v"
| jv_object_empty: "blank w \<Longrightarrow> json_value decode (''{'' @ w @ ''}'')"
| jv_object: "json_members decode keys m \<Longrightarrow> distinct keys \<Longrightarrow> json_value decode (''{'' @ m @ ''}'')"
| jv_array_empty: "blank w \<Longrightarrow> json_value decode (''['' @ w @ '']'')"
| jv_array: "json_elements decode m \<Longrightarrow> json_value decode (''['' @ m @ '']'')"
| jm_last: "blank w1 \<Longrightarrow> json_string decode s key \<Longrightarrow> blank w2 \<Longrightarrow> blank w3 \<Longrightarrow> json_value decode v
    \<Longrightarrow> blank w4 \<Longrightarrow> json_members decode [key] (w1 @ s @ w2 @ '':'' @ w3 @ v @ w4)"
| jm_more: "blank w1 \<Longrightarrow> json_string decode s key \<Longrightarrow> blank w2 \<Longrightarrow> blank w3 \<Longrightarrow> json_value decode v
    \<Longrightarrow> blank w4 \<Longrightarrow> json_members decode keys m
    \<Longrightarrow> json_members decode (key # keys) (w1 @ s @ w2 @ '':'' @ w3 @ v @ w4 @ '','' @ m)"
| je_last: "blank w1 \<Longrightarrow> json_value decode v \<Longrightarrow> blank w2 \<Longrightarrow> json_elements decode (w1 @ v @ w2)"
| je_more: "blank w1 \<Longrightarrow> json_value decode v \<Longrightarrow> blank w2 \<Longrightarrow> json_elements decode m
    \<Longrightarrow> json_elements decode (w1 @ v @ w2 @ '','' @ m)"

section \<open>What the pieces consume\<close>

lemma checks_pass [simp]: "ensure True e = Inr ()" "option_ok e (Some x) = Inr x"
  by (simp_all add: ensure_def option_ok_def)

lemma take_byte_Some [simp]: "take_byte b s = Some r \<longleftrightarrow> s = b # r"
  by (cases s) auto

lemma take_byte_None: "take_byte b s = None \<longleftrightarrow> (case s of [] \<Rightarrow> True | c # _ \<Rightarrow> c \<noteq> b)"
  by (cases s) auto

lemma skip_ws_split: obtains w where "s = w @ skip_ws s" "blank w"
proof
  show "s = takeWhile is_ascii_whitespace s @ skip_ws s" by (simp add: skip_ws_def)
  show "blank (takeWhile is_ascii_whitespace s)"
    by (auto simp: blank_def list_all_iff dest: set_takeWhileD)
qed

lemma skip_ws_blank [simp]: "blank w \<Longrightarrow> skip_ws (w @ s) = skip_ws s"
  by (simp add: blank_def skip_ws_def list_all_iff dropWhile_append2)

lemma skip_ws_start: "s \<noteq> [] \<Longrightarrow> \<not> is_ascii_whitespace (hd s) \<Longrightarrow> skip_ws s = s"
  by (cases s) (auto simp: skip_ws_def)

lemma skip_ws_idem [simp]: "skip_ws (skip_ws s) = skip_ws s"
  by (simp add: skip_ws_def)

lemma length_skip_ws: "length (skip_ws s) \<le> length s"
  by (simp add: skip_ws_def length_dropWhile_le)

lemma scan_string_split:
  "scan_string e s = Inr r \<Longrightarrow> \<exists>p. s = p @ r \<and> p \<noteq> [] \<and> scan_string e p = Inr []"
proof (induction e s rule: scan_string.induct)
  case (2 b s)
  show ?case
  proof (cases "b = CHR ''u''")
    case True
    then obtain p where p: "drop 4 s = p @ r" "scan_string False p = Inr []"
      "4 \<le> length s" "list_all is_ascii_hexdigit (take 4 s)"
      using 2 by (auto split: if_splits)
    then have "b # s = (b # take 4 s @ p) @ r" by (metis append_Cons append_assoc append_take_drop_id)
    then show ?thesis using True p by (intro exI [of _ "b # take 4 s @ p"]) simp
  next
    case False
    then have "\<exists>p. s = p @ r \<and> p \<noteq> [] \<and> scan_string False p = Inr []"
      using 2 by (auto split: if_splits)
    then show ?thesis using False 2(3) by (auto intro!: exI [of _ "b # _"] split: if_splits)
  qed
next
  case (3 b s)
  show ?case
  proof (cases "byte b = 34")
    case True
    then show ?thesis using 3(3) by (intro exI [of _ "[b]"]) auto
  next
    case False
    then have "\<exists>p. s = p @ r \<and> p \<noteq> [] \<and> scan_string (byte b = 92) p = Inr []"
      using 3 by (auto split: if_splits)
    then show ?thesis using False 3(3) by (auto intro!: exI [of _ "b # _"] split: if_splits)
  qed
qed simp

lemma scan_string_append: "scan_string e p = Inr [] \<Longrightarrow> scan_string e (p @ r) = Inr r"
  by (induction e p rule: scan_string.induct) (auto split: if_splits)

lemma audit_string_sound:
  assumes "audit_string decode s = Inr (key, r)"
  obtains p where "s = p @ r" "json_string decode p key"
proof -
  obtain r0 where s: "s = CHR 0x22 # r0" and scan: "scan_string False r0 = Inr r"
    and dec: "decode (take (length s - length r) s) = Some key"
    and ok: "\<not> list_ex (\<lambda>c. 55296 \<le> c \<and> c \<le> 57343) key"
    using assms by (auto simp: audit_string_def)
  obtain q where q: "r0 = q @ r" "scan_string False q = Inr []"
    using scan_string_split [OF scan] by blast
  then have "take (length s - length r) s = CHR 0x22 # q" by (simp add: s)
  then show thesis using that [of "CHR 0x22 # q"] s q dec ok by (simp add: json_string_def)
qed

lemma audit_string_complete:
  assumes "json_string decode p key"
  shows "audit_string decode (p @ r) = Inr (key, r)"
proof -
  obtain q where q: "p = CHR 0x22 # q" "scan_string False q = Inr []"
    using assms by (auto simp: json_string_def)
  then have "take (length (p @ r) - length r) (p @ r) = p" by simp
  then show ?thesis
    using assms q scan_string_append [OF q(2), of r] by (auto simp: audit_string_def json_string_def)
qed

lemma digits_split: "s = digits_of s @ after_digits s" "list_all is_ascii_digit (digits_of s)"
  by (auto simp: digits_of_def after_digits_def list_all_iff dest: set_takeWhileD)

lemma digits_append:
  assumes "list_all is_ascii_digit d" and "r = [] \<or> \<not> is_ascii_digit (hd r)"
  shows "digits_of (d @ r) = d" and "after_digits (d @ r) = r"
  using assms
  by (cases r; simp add: digits_of_def after_digits_def list_all_iff takeWhile_append2 dropWhile_append2)+

lemma some_digits_sound:
  "some_digits s = Inr r \<Longrightarrow> \<exists>d. s = d @ r \<and> digits d"
  using digits_split [of s] by (auto simp: some_digits_def digits_def)

lemma some_digits_complete:
  "digits d \<Longrightarrow> r = [] \<or> \<not> is_ascii_digit (hd r) \<Longrightarrow> some_digits (d @ r) = Inr r"
  by (simp add: some_digits_def digits_def digits_append)

lemma digit_bytes: "is_ascii_digit c \<longleftrightarrow> 48 \<le> byte c \<and> byte c \<le> 57"
  by (auto simp: is_ascii_digit_def byte_def)

lemma number_whole_sound:
  assumes "number_whole s = Inr r"
  shows "\<exists>w. s = w @ r \<and> json_whole w"
proof (cases s)
  case Nil
  then show ?thesis using assms by (simp add: number_whole_def)
next
  case (Cons c t)
  show ?thesis
  proof (cases "c = CHR ''0''")
    case True
    then show ?thesis using assms Cons by (auto simp: number_whole_def json_whole_def)
  next
    case False
    then have c: "is_ascii_digit c" and r: "r = after_digits s"
      using assms Cons by (auto simp: number_whole_def split: if_splits)
    have "digits_of s = c # digits_of t" using c Cons by (simp add: digits_of_def)
    then show ?thesis
      using digits_split [of s] False r
      by (intro exI [of _ "digits_of s"]) (simp add: json_whole_def digits_def)
  qed
qed

lemma number_fraction_sound:
  "number_fraction s = Inr r \<Longrightarrow> \<exists>f. s = f @ r \<and> json_fraction f"
  by (auto simp: number_fraction_def json_fraction_def dest!: some_digits_sound split: option.splits)

lemma skip_sign_split: "\<exists>sg. s = sg @ skip_sign s \<and> sg \<in> {[], ''+'', ''-''}"
proof (cases s)
  case (Cons d t)
  then show ?thesis
    by (intro exI [of _ "if d = CHR ''+'' \<or> d = CHR ''-'' then [d] else []"]) (auto simp: skip_sign_def)
qed (simp add: skip_sign_def)

lemma number_exponent_sound:
  assumes "number_exponent s = Inr r"
  shows "\<exists>e. s = e @ r \<and> json_exponent e"
proof (cases s)
  case (Cons c t)
  show ?thesis
  proof (cases "c = CHR ''e'' \<or> c = CHR ''E''")
    case True
    obtain sg u where t: "t = sg @ u" "sg \<in> {[], ''+'', ''-''}" "some_digits u = Inr r"
      using assms Cons True skip_sign_split [of t] by (auto simp: number_exponent_def)
    then obtain d where "u = d @ r" "digits d" using some_digits_sound by blast
    then show ?thesis using Cons True t
      by (intro exI [of _ "c # sg @ d"]) (auto simp: json_exponent_def)
  next
    case False
    then show ?thesis using assms Cons by (auto simp: number_exponent_def json_exponent_def)
  qed
qed (use assms in \<open>simp add: number_exponent_def json_exponent_def\<close>)

lemma audit_number_sound:
  assumes "audit_number s = Inr r"
  shows "\<exists>n. s = n @ r \<and> json_number n"
proof -
  define s1 where "s1 = (case take_byte CHR ''-'' s of Some r \<Rightarrow> r | None \<Rightarrow> s)"
  obtain sg where sg: "s = sg @ s1" "sg \<in> {[], ''-''}"
  proof (cases "take_byte CHR ''-'' s")
    case None
    then show ?thesis using that [of "[]"] by (simp add: s1_def)
  next
    case (Some t)
    then show ?thesis using that [of "''-''"] by (simp add: s1_def)
  qed
  obtain s2 s3 where "number_whole s1 = Inr s2" "number_fraction s2 = Inr s3"
    "number_exponent s3 = Inr r" and fin: "f64_is_finite (take (length s - length r) s)"
    using assms by (auto simp: audit_number_def s1_def)
  then obtain w f e where "s1 = w @ f @ e @ r" "json_whole w" "json_fraction f" "json_exponent e"
    using number_whole_sound number_fraction_sound number_exponent_sound by metis
  then show ?thesis using sg fin
    by (intro exI [of _ "sg @ w @ f @ e"]) (auto simp: json_number_def)
qed

text \<open>What may follow a number without extending it.\<close>

definition stops :: "string \<Rightarrow> bool" where
  "stops r \<longleftrightarrow> r = [] \<or> is_ascii_whitespace (hd r) \<or> hd r \<in> {CHR '','', CHR ''}'', CHR '']''}"

lemma stops_hd:
  assumes "stops r" "r \<noteq> []"
  shows "\<not> is_ascii_digit (hd r)" "hd r \<noteq> CHR ''.''" "hd r \<noteq> CHR ''e''" "hd r \<noteq> CHR ''E''"
  using assms by (auto simp: stops_def is_ascii_whitespace_def digit_bytes byte_def)

lemma number_exponent_complete:
  assumes "json_exponent e" "stops r"
  shows "number_exponent (e @ r) = Inr r"
proof (cases "e = []")
  case True
  then show ?thesis using stops_hd [OF assms(2)] by (cases r) (auto simp: number_exponent_def)
next
  case False
  then obtain c sg d where e: "e = c # sg @ d" "c \<in> {CHR ''e'', CHR ''E''}"
    "sg \<in> {[], ''+'', ''-''}" and d: "digits d"
    using assms(1) by (auto simp: json_exponent_def)
  obtain x d' where x: "d = x # d'" "is_ascii_digit x" using d by (cases d) (auto simp: digits_def)
  then have "x \<noteq> CHR ''+''" "x \<noteq> CHR ''-''" by (auto simp: digit_bytes byte_def)
  then have "number_exponent (e @ r) = some_digits (d @ r)"
    using e x by (auto simp: number_exponent_def skip_sign_def)
  then show ?thesis
    using some_digits_complete [OF d, of r] stops_hd(1) [OF assms(2)] by (cases "r = []") auto
qed

lemma fraction_first:
  assumes "json_exponent e" "stops r" "e @ r \<noteq> []"
  shows "\<not> is_ascii_digit (hd (e @ r)) \<and> hd (e @ r) \<noteq> CHR ''.''"
  using assms stops_hd [of r]
  by (cases e) (auto simp: json_exponent_def digit_bytes byte_def)

lemma number_fraction_complete:
  assumes "json_fraction f" "json_exponent e" "stops r"
  shows "number_fraction (f @ e @ r) = Inr (e @ r)"
proof (cases "f = []")
  case True
  then show ?thesis using fraction_first [OF assms(2,3)]
    by (cases "e @ r") (auto simp: number_fraction_def)
next
  case False
  then obtain d where "f = CHR ''.'' # d" "digits d" using assms(1) by (auto simp: json_fraction_def)
  then show ?thesis
    using some_digits_complete [of d "e @ r"] fraction_first [OF assms(2,3)]
    by (cases "e @ r = []") (auto simp: number_fraction_def)
qed

lemma number_whole_complete:
  assumes w: "json_whole w" and t: "t = [] \<or> \<not> is_ascii_digit (hd t)"
  shows "number_whole (w @ t) = Inr t"
proof (cases "w = ''0''")
  case False
  then obtain c d where c: "w = c # d" "is_ascii_digit c" "c \<noteq> CHR ''0''" and d: "list_all is_ascii_digit w"
    using w by (cases w) (auto simp: json_whole_def digits_def)
  have "after_digits (w @ t) = t" by (rule digits_append(2) [OF d t])
  then show ?thesis using c by (simp add: number_whole_def)
qed (simp add: number_whole_def)

lemma whole_first: "json_whole w \<Longrightarrow> w \<noteq> [] \<and> is_ascii_digit (hd w)"
  by (cases w) (auto simp: json_whole_def digits_def digit_bytes byte_def)

lemma audit_number_complete:
  assumes "json_number n" "stops r"
  shows "audit_number (n @ r) = Inr r"
proof -
  obtain sg w f e where n: "n = sg @ w @ f @ e" "sg \<in> {[], ''-''}" "json_whole w"
    "json_fraction f" "json_exponent e" and fin: "f64_is_finite n"
    using assms(1) by (auto simp: json_number_def)
  let ?s = "n @ r" and ?t = "f @ e @ r"
  have "take_byte CHR ''-'' (w @ ?t) = None"
    using whole_first [OF n(3)] by (cases w) (auto simp: digit_bytes byte_def)
  then have minus: "(case take_byte CHR ''-'' ?s of Some r \<Rightarrow> r | None \<Rightarrow> ?s) = w @ ?t"
    using n(1,2) by auto
  have "?t = [] \<or> \<not> is_ascii_digit (hd ?t)"
    using n(4) fraction_first [OF n(5) assms(2)]
    by (cases f) (auto simp: json_fraction_def digit_bytes byte_def)
  then have "number_whole (w @ ?t) = Inr ?t" by (rule number_whole_complete [OF n(3)])
  then show ?thesis
    using number_fraction_complete [OF n(4,5) assms(2)] number_exponent_complete [OF n(5) assms(2)] fin
    by (simp add: audit_number_def minus)
qed

lemma number_first: "json_number n \<Longrightarrow> n \<noteq> [] \<and> (hd n = CHR ''-'' \<or> is_ascii_digit (hd n))"
  using whole_first by (auto simp: json_number_def hd_append)

text \<open>The value without its leading white space.\<close>

lemma start_value_skip: "blank w \<Longrightarrow> start_value decode (w @ s) = start_value decode s"
  by (simp add: start_value_def)

lemma audit_literal_sound: "audit_literal e s = Inr r \<Longrightarrow> s = e @ r"
  by (auto simp: audit_literal_def split: if_splits) (metis append_take_drop_id)

lemma start_value_sound:
  assumes "start_value decode s = StartDone (Inr r)"
  shows "\<exists>w p. s = w @ p @ r \<and> blank w \<and> json_value decode p"
proof -
  obtain w where w: "s = w @ skip_ws s" "blank w" by (rule skip_ws_split)
  have "\<exists>p. skip_ws s = p @ r \<and> json_value decode p"
  proof (cases "skip_ws s")
    case Nil
    then show ?thesis using assms by (simp add: start_value_def)
  next
    case (Cons b t)
    obtain v where v: "t = v @ skip_ws t" "blank v" by (rule skip_ws_split)
    consider (obj) "b = CHR ''{''" "skip_ws t = CHR ''}'' # r"
      | (arr) "b = CHR ''[''" "skip_ws t = CHR '']'' # r"
      | (str) key where "audit_string decode (skip_ws s) = Inr (key, r)"
      | (lit) l where "l \<in> {''true'', ''false'', ''null''}" "audit_literal l (skip_ws s) = Inr r"
      | (num) "audit_number (skip_ws s) = Inr r"
      using assms Cons unfolding start_value_def Let_def
      by (auto split: option.splits if_splits)
    then show ?thesis
    proof cases
      case obj
      then show ?thesis using Cons v jv_object_empty [OF v(2)] by (metis append_Cons append_Nil append_assoc)
    next
      case arr
      then show ?thesis using Cons v jv_array_empty [OF v(2)] by (metis append_Cons append_Nil append_assoc)
    next
      case str
      then show ?thesis using audit_string_sound jv_string by metis
    next
      case lit
      then show ?thesis using audit_literal_sound jv_literal by metis
    next
      case num
      then show ?thesis using audit_number_sound jv_number by metis
    qed
  qed
  then show ?thesis using w by metis
qed

lemma start_value_call:
  assumes "start_value decode s = StartCall c"
  obtains (obj) t where "skip_ws s = CHR ''{'' # t" "c = CallMembers [] (skip_ws t)"
    | (arr) t where "skip_ws s = CHR ''['' # t" "c = CallElements (skip_ws t)"
  using assms unfolding start_value_def Let_def
  by (auto split: list.splits option.splits if_splits)

section \<open>The audit accepts exactly the grammar\<close>

fun consumed_ok :: "literal_decoder \<Rightarrow> audit_call \<Rightarrow> string \<Rightarrow> bool" where
  "consumed_ok decode (CallValue s) r \<longleftrightarrow> (\<exists>w p. s = w @ p @ r \<and> blank w \<and> json_value decode p)"
| "consumed_ok decode (CallMembers keys s) r \<longleftrightarrow>
     (\<exists>ks m. s = m @ ''}'' @ r \<and> json_members decode ks m \<and> distinct ks \<and> set ks \<inter> set keys = {})"
| "consumed_ok decode (CallElements s) r \<longleftrightarrow> (\<exists>m. s = m @ '']'' @ r \<and> json_elements decode m)"

lemma member_head_sound:
  assumes "member_head decode keys s = Inr (key, v)"
  obtains w1 p w2 where "s = w1 @ p @ w2 @ '':'' @ v" "blank w1" "blank w2" "json_string decode p key"
    "key \<notin> set keys"
proof -
  obtain r where r: "audit_string decode (skip_ws s) = Inr (key, r)" "skip_ws r = CHR '':'' # v"
    and new: "key \<notin> set keys"
    using assms by (auto simp: member_head_def)
  obtain w1 where w1: "s = w1 @ skip_ws s" "blank w1" by (rule skip_ws_split)
  obtain w2 where w2: "r = w2 @ skip_ws r" "blank w2" by (rule skip_ws_split)
  obtain p where "skip_ws s = p @ r" "json_string decode p key" by (rule audit_string_sound [OF r(1)])
  then show thesis using that [of w1 p w2] w1 w2 r(2) new by simp
qed

lemma member_consumed:
  assumes head: "member_head decode keys s = Inr (key, v)" and val: "consumed_ok decode (CallValue v) r"
    and after: "skip_ws r = CHR ''}'' # rest
      \<or> (\<exists>more. skip_ws r = CHR '','' # more \<and> consumed_ok decode (CallMembers (key # keys) more) rest)"
  shows "consumed_ok decode (CallMembers keys s) rest"
proof -
  obtain w1 p w2 where s: "s = w1 @ p @ w2 @ '':'' @ v" "blank w1" "blank w2" "json_string decode p key"
    and new: "key \<notin> set keys" by (rule member_head_sound [OF head])
  obtain w3 q where v: "v = w3 @ q @ r" "blank w3" "json_value decode q" using val by auto
  obtain w4 where w4: "r = w4 @ skip_ws r" "blank w4" by (rule skip_ws_split)
  from after show ?thesis
  proof
    assume "skip_ws r = CHR ''}'' # rest"
    moreover have "json_members decode [key] (w1 @ p @ w2 @ '':'' @ w3 @ q @ w4)"
      using s v w4 by (intro jm_last) auto
    ultimately show ?thesis using s v w4 new
      by (simp, intro exI [of _ "[key]"] exI [of _ "w1 @ p @ w2 @ '':'' @ w3 @ q @ w4"]) simp
  next
    assume "\<exists>more. skip_ws r = CHR '','' # more \<and> consumed_ok decode (CallMembers (key # keys) more) rest"
    then obtain more ks m where m: "skip_ws r = CHR '','' # more" "more = m @ ''}'' @ rest"
      "json_members decode ks m" "distinct ks" "set ks \<inter> set (key # keys) = {}" by auto
    have "json_members decode (key # ks) (w1 @ p @ w2 @ '':'' @ w3 @ q @ w4 @ '','' @ m)"
      using s v w4 m by (intro jm_more) auto
    then show ?thesis using s v w4 new m
      by (simp, intro exI [of _ "key # ks"] exI [of _ "w1 @ p @ w2 @ '':'' @ w3 @ q @ w4 @ '','' @ m"]) auto
  qed
qed

lemma element_consumed:
  assumes val: "consumed_ok decode (CallValue s) r"
    and after: "skip_ws r = CHR '']'' # rest
      \<or> (\<exists>more. skip_ws r = CHR '','' # more \<and> consumed_ok decode (CallElements more) rest)"
  shows "consumed_ok decode (CallElements s) rest"
proof -
  obtain w p where s: "s = w @ p @ r" "blank w" "json_value decode p" using val by auto
  obtain w2 where w2: "r = w2 @ skip_ws r" "blank w2" by (rule skip_ws_split)
  from after show ?thesis
  proof
    assume "skip_ws r = CHR '']'' # rest"
    then have "s = (w @ p @ w2) @ '']'' @ rest" using s(1) w2(1) by simp
    then show ?thesis using je_last [OF s(2,3) w2(2)] unfolding consumed_ok.simps by blast
  next
    assume "\<exists>more. skip_ws r = CHR '','' # more \<and> consumed_ok decode (CallElements more) rest"
    then obtain m where "skip_ws r = CHR '','' # m @ '']'' @ rest" "json_elements decode m" by auto
    moreover then have "s = (w @ p @ w2 @ '','' @ m) @ '']'' @ rest" using s(1) w2(1) by simp
    ultimately show ?thesis using je_more [OF s(2,3) w2(2)] unfolding consumed_ok.simps by blast
  qed
qed

lemma call_consumed:
  assumes "start_value decode s = StartCall c" and "consumed_ok decode c r"
  shows "consumed_ok decode (CallValue s) r"
proof -
  obtain w where w: "s = w @ skip_ws s" "blank w" by (rule skip_ws_split)
  have "\<exists>p. skip_ws s = p @ r \<and> json_value decode p"
    using assms(1)
  proof (cases rule: start_value_call)
    case (obj t)
    obtain v where v: "t = v @ skip_ws t" "blank v" by (rule skip_ws_split)
    obtain ks m where m: "skip_ws t = m @ ''}'' @ r" "json_members decode ks m" "distinct ks"
      using assms(2) obj(2) by auto
    have "json_members decode ks (v @ m)"
      using m(2) v(2)
    proof (cases rule: json_members.cases)
      case (jm_last w1 s' key w2 w3 x w4)
      then show ?thesis using v(2) json_value_json_members_json_elements.jm_last [of "v @ w1"]
        by (simp add: blank_def)
    next
      case (jm_more w1 s' key w2 w3 x w4 keys m')
      then show ?thesis using v(2) json_value_json_members_json_elements.jm_more [of "v @ w1"]
        by (simp add: blank_def)
    qed
    then have "json_value decode (''{'' @ (v @ m) @ ''}'')" using jv_object m(3) by blast
    then show ?thesis using obj(1) v(1) m(1)
      by (intro exI [of _ "''{'' @ (v @ m) @ ''}''"]) (metis append_Cons append_Nil append_assoc)
  next
    case (arr t)
    obtain v where v: "t = v @ skip_ws t" "blank v" by (rule skip_ws_split)
    obtain m where m: "skip_ws t = m @ '']'' @ r" "json_elements decode m" using assms(2) arr(2) by auto
    have "json_elements decode (v @ m)"
      using m(2) v(2)
    proof (cases rule: json_elements.cases)
      case (je_last w1 x w2)
      then show ?thesis using v(2) json_value_json_members_json_elements.je_last [of "v @ w1"]
        by (simp add: blank_def)
    next
      case (je_more w1 x w2 m')
      then show ?thesis using v(2) json_value_json_members_json_elements.je_more [of "v @ w1"]
        by (simp add: blank_def)
    qed
    then have "json_value decode (''['' @ (v @ m) @ '']'')" using jv_array by blast
    then show ?thesis using arr(1) v(1) m(1)
      by (intro exI [of _ "''['' @ (v @ m) @ '']''"]) (metis append_Cons append_Nil append_assoc)
  qed
  then obtain p where "s = w @ p @ r" "json_value decode p" using w(1) by metis
  then show ?thesis using w(2) unfolding consumed_ok.simps by blast
qed

lemma bind_result_Inr:
  assumes "Option.bind x (\<lambda>result. case result of Inl e \<Rightarrow> Some (Inl e) | Inr r \<Rightarrow> f r) = Some (Inr y)"
  shows "\<exists>r. x = Some (Inr r) \<and> f r = Some (Inr y)"
proof (cases x)
  case (Some result)
  then show ?thesis using assms by (cases result) auto
qed (use assms in simp)

lemma audit_consumes:
  assumes "audit decode call = Some (Inr r)"
  shows "consumed_ok decode call r"
proof (rule audit.raw_induct
    [where P = "\<lambda>d c result. \<forall>r. result = Inr r \<longrightarrow> consumed_ok d c r", rule_format, OF _ assms refl])
  fix audit' decode call result r
  assume IH': "\<And>d c y r. audit' d c = Some y \<Longrightarrow> y = Inr r \<Longrightarrow> consumed_ok d c r"
    and body: "(case call of
        CallValue s \<Rightarrow>
          (case start_value decode s of StartDone r \<Rightarrow> Some r | StartCall c \<Rightarrow> audit' decode c)
      | CallMembers keys s \<Rightarrow>
          (case member_head decode keys s of
             Inl e \<Rightarrow> Some (Inl e)
           | Inr (key, v) \<Rightarrow>
               Option.bind (audit' decode (CallValue v)) (\<lambda>result.
               case result of
                 Inl e \<Rightarrow> Some (Inl e)
               | Inr r \<Rightarrow>
                   (case take_byte CHR ''}'' (skip_ws r) of
                      Some rest \<Rightarrow> Some (Inr rest)
                    | None \<Rightarrow>
                        (case take_byte CHR '','' (skip_ws r) of
                           None \<Rightarrow> Some (Inl bad_object)
                         | Some further \<Rightarrow> audit' decode (CallMembers (key # keys) further)))))
      | CallElements s \<Rightarrow>
          Option.bind (audit' decode (CallValue s)) (\<lambda>result.
          case result of
            Inl e \<Rightarrow> Some (Inl e)
          | Inr r \<Rightarrow>
              (case take_byte CHR '']'' (skip_ws r) of
                 Some rest \<Rightarrow> Some (Inr rest)
               | None \<Rightarrow>
                   (case take_byte CHR '','' (skip_ws r) of
                      None \<Rightarrow> Some (Inl bad_array)
                    | Some further \<Rightarrow> audit' decode (CallElements further))))) = Some result"
    and res: "result = Inr r"
  note IH = IH' [OF _ refl] and run = body [unfolded res]
  show "consumed_ok decode call r"
  proof (cases call)
    case (CallValue s)
    show ?thesis
    proof (cases "start_value decode s")
      case (StartDone x)
      then have "start_value decode s = StartDone (Inr r)" using run CallValue by simp
      then show ?thesis unfolding CallValue consumed_ok.simps by (rule start_value_sound)
    next
      case (StartCall c)
      then have "audit' decode c = Some (Inr r)" using run CallValue by simp
      then show ?thesis unfolding CallValue by (rule call_consumed [OF StartCall IH])
    qed
  next
    case (CallMembers keys s)
    then obtain key v where head: "member_head decode keys s = Inr (key, v)"
      using run by (cases "member_head decode keys s") auto
    then obtain r1 where r1: "audit' decode (CallValue v) = Some (Inr r1)"
      and after: "(case take_byte CHR ''}'' (skip_ws r1) of
          Some rest \<Rightarrow> Some (Inr rest)
        | None \<Rightarrow> (case take_byte CHR '','' (skip_ws r1) of
             None \<Rightarrow> Some (Inl bad_object)
           | Some further \<Rightarrow> audit' decode (CallMembers (key # keys) further))) = Some (Inr r)"
      using run CallMembers by (auto dest!: bind_result_Inr)
    have "skip_ws r1 = CHR ''}'' # r
      \<or> (\<exists>more. skip_ws r1 = CHR '','' # more \<and> consumed_ok decode (CallMembers (key # keys) more) r)"
      using after by (auto intro: IH simp del: consumed_ok.simps split: option.splits)
    then show ?thesis using member_consumed [OF head IH [OF r1]] CallMembers by blast
  next
    case (CallElements s)
    then obtain r1 where r1: "audit' decode (CallValue s) = Some (Inr r1)"
      and after: "(case take_byte CHR '']'' (skip_ws r1) of
          Some rest \<Rightarrow> Some (Inr rest)
        | None \<Rightarrow> (case take_byte CHR '','' (skip_ws r1) of
             None \<Rightarrow> Some (Inl bad_array)
           | Some further \<Rightarrow> audit' decode (CallElements further))) = Some (Inr r)"
      using run by (auto dest!: bind_result_Inr)
    have "skip_ws r1 = CHR '']'' # r
      \<or> (\<exists>more. skip_ws r1 = CHR '','' # more \<and> consumed_ok decode (CallElements more) r)"
      using after by (auto intro: IH simp del: consumed_ok.simps split: option.splits)
    then show ?thesis using element_consumed [OF IH [OF r1]] CallElements by blast
  qed
qed

text \<open>The measure of a call: what is left of the input, a value before the list that holds it.\<close>

fun call_measure :: "audit_call \<Rightarrow> nat" where
  "call_measure (CallValue s) = 2 * length s"
| "call_measure (CallMembers keys s) = 2 * length s + 1"
| "call_measure (CallElements s) = 2 * length s + 1"

lemma consumed_shorter:
  "consumed_ok decode (CallValue s) r \<Longrightarrow> length (skip_ws r) \<le> length s"
  using length_skip_ws [of r] by auto

lemma member_head_shorter: "member_head decode keys s = Inr (key, v) \<Longrightarrow> length v < length s"
  by (rule member_head_sound) auto

lemma start_call_smaller:
  assumes "start_value decode s = StartCall c"
  shows "call_measure c < call_measure (CallValue s)"
  using assms
proof (cases rule: start_value_call)
  case (obj t)
  then show ?thesis using length_skip_ws [of s] length_skip_ws [of t] by simp
next
  case (arr t)
  then show ?thesis using length_skip_ws [of s] length_skip_ws [of t] by simp
qed

lemma audit_returns: "\<exists>result. audit decode call = Some result"
proof (induction "call_measure call" arbitrary: call rule: less_induct)
  case less
  have IH: "\<And>c. call_measure c < call_measure call \<Longrightarrow> \<exists>result. audit decode c = Some result"
    using less by blast
  show ?case
  proof (cases call)
    case (CallValue s)
    then show ?thesis using IH start_call_smaller
      by (cases "start_value decode s") (simp_all add: audit.simps)
  next
    case (CallMembers keys s)
    show ?thesis
    proof (cases "member_head decode keys s")
      case (Inl e)
      then show ?thesis by (simp add: audit.simps CallMembers)
    next
      case (Inr kv)
      obtain key v where head: "member_head decode keys s = Inr (key, v)" using Inr by (cases kv) auto
      obtain result where val: "audit decode (CallValue v) = Some result"
        using IH [of "CallValue v"] member_head_shorter [OF head] CallMembers by auto
      have "\<exists>x. audit decode (CallMembers (key # keys) further) = Some x"
        if "result = Inr r" "skip_ws r = CHR '','' # further" for r further
        using IH [of "CallMembers (key # keys) further"] member_head_shorter [OF head]
          consumed_shorter [OF audit_consumes [OF val [unfolded that(1)]]] that(2) CallMembers by simp
      then show ?thesis using head val CallMembers
        by (subst audit.simps) (auto split: sum.splits option.splits)
    qed
  next
    case (CallElements s)
    obtain result where val: "audit decode (CallValue s) = Some result"
      using IH [of "CallValue s"] CallElements by auto
    have "\<exists>x. audit decode (CallElements further) = Some x"
      if "result = Inr r" "skip_ws r = CHR '','' # further" for r further
      using IH [of "CallElements further"]
        consumed_shorter [OF audit_consumes [OF val [unfolded that(1)]]] that(2) CallElements by simp
    then show ?thesis using val CallElements
      by (subst audit.simps) (auto split: sum.splits option.splits)
  qed
qed

lemma value_first:
  assumes "json_value decode v"
  shows "v \<noteq> [] \<and> \<not> is_ascii_whitespace (hd v) \<and> hd v \<noteq> CHR '']'' \<and> hd v \<noteq> CHR ''}''"
  using assms
proof (cases rule: json_value.cases)
  case jv_number
  then show ?thesis using number_first [of v]
    by (auto simp: is_ascii_whitespace_def digit_bytes byte_def)
qed (auto simp: json_string_def is_ascii_whitespace_def byte_def)

lemma value_not_blank: "json_value decode v \<Longrightarrow> skip_ws (v @ r) = v @ r"
  using value_first [of decode v] by (intro skip_ws_start) auto

lemma string_not_blank: "json_string decode p key \<Longrightarrow> skip_ws (p @ r) = p @ r"
  by (auto simp: json_string_def intro!: skip_ws_start simp: is_ascii_whitespace_def byte_def)

lemma members_first:
  assumes "json_members decode ks m"
  shows "take_byte CHR ''}'' (skip_ws (m @ r)) = None"
  using assms
proof (cases rule: json_members.cases)
  case (jm_last w1 s key w2 w3 v w4)
  then show ?thesis using string_not_blank [OF jm_last(4)] by (auto simp: json_string_def)
next
  case (jm_more w1 s key w2 w3 v w4 keys m')
  then show ?thesis using string_not_blank [OF jm_more(4)] by (auto simp: json_string_def)
qed

lemma elements_first:
  assumes "json_elements decode m"
  shows "take_byte CHR '']'' (skip_ws (m @ r)) = None"
  using assms
proof (cases rule: json_elements.cases)
  case (je_last w1 v w2)
  then show ?thesis using value_first [of decode v] value_not_blank [of decode v]
    by (cases v) auto
next
  case (je_more w1 v w2 m)
  then show ?thesis using value_first [of decode v] value_not_blank [of decode v]
    by (cases v) auto
qed

lemma audit_members_skip: "audit decode (CallMembers keys (skip_ws s)) = audit decode (CallMembers keys s)"
  by (simp add: audit.simps [of decode "CallMembers keys (skip_ws s)"]
      audit.simps [of decode "CallMembers keys s"] member_head_def)

lemma audit_value_skip: "audit decode (CallValue (skip_ws s)) = audit decode (CallValue s)"
  by (simp add: audit.simps [of decode "CallValue (skip_ws s)"]
      audit.simps [of decode "CallValue s"] start_value_def)

lemma audit_elements_skip: "audit decode (CallElements (skip_ws s)) = audit decode (CallElements s)"
  by (simp add: audit.simps [of decode "CallElements (skip_ws s)"]
      audit.simps [of decode "CallElements s"] audit_value_skip)

lemma audit_value_object:
  assumes "take_byte CHR ''}'' (skip_ws t) = None"
  shows "audit decode (CallValue (CHR ''{'' # t)) = audit decode (CallMembers [] t)"
proof -
  have "skip_ws (CHR ''{'' # t) = CHR ''{'' # t"
    by (rule skip_ws_start) (auto simp: is_ascii_whitespace_def byte_def)
  then have "start_value decode (CHR ''{'' # t) = StartCall (CallMembers [] (skip_ws t))"
    using assms by (simp add: start_value_def)
  then show ?thesis by (simp add: audit.simps [of decode "CallValue _"] audit_members_skip)
qed

lemma audit_value_array:
  assumes "take_byte CHR '']'' (skip_ws t) = None"
  shows "audit decode (CallValue (CHR ''['' # t)) = audit decode (CallElements t)"
proof -
  have "skip_ws (CHR ''['' # t) = CHR ''['' # t"
    by (rule skip_ws_start) (auto simp: is_ascii_whitespace_def byte_def)
  then have "start_value decode (CHR ''['' # t) = StartCall (CallElements (skip_ws t))"
    using assms by (simp add: start_value_def)
  then show ?thesis by (simp add: audit.simps [of decode "CallValue _"] audit_elements_skip)
qed

lemma start_value_simple:
  assumes "json_value decode v" "stops r"
    and "v \<in> {''true'', ''false'', ''null''} \<or> json_number v \<or> json_string decode v key
      \<or> (\<exists>w. blank w \<and> (v = ''{'' @ w @ ''}'' \<or> v = ''['' @ w @ '']''))"
  shows "start_value decode (v @ r) = StartDone (Inr r)"
proof -
  note skip = value_not_blank [OF assms(1), of r]
  have brackets: "skip_ws (CHR ''}'' # r) = CHR ''}'' # r" "skip_ws (CHR '']'' # r) = CHR '']'' # r"
    by (rule skip_ws_start; simp add: is_ascii_whitespace_def byte_def)+
  from assms(3) consider (lit) "v \<in> {''true'', ''false'', ''null''}" | (num) "json_number v"
    | (str) "json_string decode v key" | (obj) w where "blank w" "v = ''{'' @ w @ ''}''"
    | (arr) w where "blank w" "v = ''['' @ w @ '']''" by blast
  then show ?thesis
  proof cases
    case lit
    then show ?thesis using skip by (auto simp: start_value_def audit_literal_def byte_def)
  next
    case num
    obtain c t where c: "v = c # t" "c = CHR ''-'' \<or> is_ascii_digit c"
      using number_first [OF num] by (cases v) auto
    then have "c \<notin> {CHR ''{'', CHR ''['', CHR ''t'', CHR ''f'', CHR ''n''}" "byte c \<noteq> 34"
      by (auto simp: digit_bytes byte_def)
    then show ?thesis using c skip audit_number_complete [OF num assms(2)]
      by (auto simp: start_value_def)
  next
    case str
    then obtain q where "v = CHR 0x22 # q" by (auto simp: json_string_def)
    then show ?thesis using skip audit_string_complete [OF str, of r]
      by (simp add: start_value_def byte_def)
  next
    case obj
    then show ?thesis using skip brackets by (simp add: start_value_def)
  next
    case arr
    then show ?thesis using skip brackets by (simp add: start_value_def)
  qed
qed

lemma skip_stop [simp]:
  "skip_ws (CHR '','' # r) = CHR '','' # r" "skip_ws (CHR '':'' # r) = CHR '':'' # r"
  "skip_ws (CHR ''}'' # r) = CHR ''}'' # r" "skip_ws (CHR '']'' # r) = CHR '']'' # r"
  by (rule skip_ws_start; simp add: is_ascii_whitespace_def byte_def)+

lemma stops_blank:
  "blank w \<Longrightarrow> c \<in> {CHR '','', CHR ''}'', CHR '']''} \<Longrightarrow> stops (w @ c # r)"
  by (cases w) (auto simp: stops_def blank_def)

lemma member_head_complete:
  assumes "blank w1" "json_string decode s key" "blank w2" "key \<notin> set keys"
  shows "member_head decode keys (w1 @ s @ w2 @ CHR '':'' # v) = Inr (key, v)"
  using assms audit_string_complete [OF assms(2), of "w2 @ CHR '':'' # v"]
    string_not_blank [OF assms(2), of "w2 @ CHR '':'' # v"]
  by (simp add: member_head_def)

lemma audit_simple:
  "start_value decode s = StartDone r \<Longrightarrow> audit decode (CallValue s) = Some r"
  by (simp add: audit.simps)

lemma audit_members_step:
  assumes "member_head decode keys s = Inr (key, v)" "audit decode (CallValue v) = Some (Inr r)"
  shows "skip_ws r = CHR ''}'' # rest \<Longrightarrow> audit decode (CallMembers keys s) = Some (Inr rest)"
    and "skip_ws r = CHR '','' # rest \<Longrightarrow>
      audit decode (CallMembers keys s) = audit decode (CallMembers (key # keys) rest)"
  using assms by (simp_all add: audit.simps [of decode "CallMembers keys s"])

lemma audit_elements_step:
  assumes "audit decode (CallValue s) = Some (Inr r)"
  shows "skip_ws r = CHR '']'' # rest \<Longrightarrow> audit decode (CallElements s) = Some (Inr rest)"
    and "skip_ws r = CHR '','' # rest \<Longrightarrow>
      audit decode (CallElements s) = audit decode (CallElements rest)"
  using assms by (simp_all add: audit.simps [of decode "CallElements s"])

lemma audit_blank: "blank w \<Longrightarrow> audit decode (CallValue (w @ s)) = audit decode (CallValue s)"
  by (metis audit_value_skip skip_ws_blank)

lemma audit_complete:
  "json_value decode v \<Longrightarrow> (\<forall>r. stops r \<longrightarrow> audit decode (CallValue (v @ r)) = Some (Inr r))"
  "json_members decode ks m \<Longrightarrow> (\<forall>keys r. distinct ks \<and> set ks \<inter> set keys = {} \<longrightarrow>
     audit decode (CallMembers keys (m @ CHR ''}'' # r)) = Some (Inr r))"
  "json_elements decode m \<Longrightarrow> (\<forall>r. audit decode (CallElements (m @ CHR '']'' # r)) = Some (Inr r))"
proof (induction rule: json_value_json_members_json_elements.inducts)
  case (jv_literal v)
  then show ?case using start_value_simple [OF json_value_json_members_json_elements.jv_literal]
      audit_simple by blast
next
  case (jv_number v)
  then show ?case using start_value_simple [OF json_value_json_members_json_elements.jv_number]
      audit_simple by blast
next
  case (jv_string v key)
  then show ?case using start_value_simple [OF json_value_json_members_json_elements.jv_string]
      audit_simple by blast
next
  case (jv_object_empty w)
  then show ?case using start_value_simple [OF json_value_json_members_json_elements.jv_object_empty]
      audit_simple by blast
next
  case (jv_object ks m)
  show ?case
    using audit_value_object [OF members_first [OF jv_object(1)]] jv_object(2,3) by simp
next
  case (jv_array_empty w)
  then show ?case using start_value_simple [OF json_value_json_members_json_elements.jv_array_empty]
      audit_simple by blast
next
  case (jv_array m)
  show ?case using audit_value_array [OF elements_first [OF jv_array(1)]] jv_array(2) by simp
next
  case (jm_last w1 s key w2 w3 v w4)
  show ?case
  proof (intro allI impI)
    fix keys r
    assume "distinct [key] \<and> set [key] \<inter> set keys = {}"
    then have head: "member_head decode keys (w1 @ s @ w2 @ CHR '':'' # w3 @ v @ w4 @ CHR ''}'' # r) =
      Inr (key, w3 @ v @ w4 @ CHR ''}'' # r)" using jm_last by (intro member_head_complete) auto
    have "audit decode (CallValue (w3 @ v @ w4 @ CHR ''}'' # r)) = Some (Inr (w4 @ CHR ''}'' # r))"
      using \<open>\<forall>r. stops r \<longrightarrow> audit decode (CallValue (v @ r)) = Some (Inr r)\<close>
        stops_blank [OF \<open>blank w4\<close>] by (simp add: audit_blank [OF \<open>blank w3\<close>])
    then have "audit decode (CallMembers keys (w1 @ s @ w2 @ CHR '':'' # w3 @ v @ w4 @ CHR ''}'' # r))
      = Some (Inr r)"
      by (rule audit_members_step(1) [OF head]) (simp add: \<open>blank w4\<close>)
    then show "audit decode (CallMembers keys ((w1 @ s @ w2 @ '':'' @ w3 @ v @ w4) @ CHR ''}'' # r)) =
      Some (Inr r)" by simp
  qed
next
  case (jm_more w1 s key w2 w3 v w4 ks m)
  show ?case
  proof (intro allI impI)
    fix keys r
    assume new: "distinct (key # ks) \<and> set (key # ks) \<inter> set keys = {}"
    let ?m = "m @ CHR ''}'' # r"
    have head: "member_head decode keys (w1 @ s @ w2 @ CHR '':'' # w3 @ v @ w4 @ CHR '','' # ?m) =
      Inr (key, w3 @ v @ w4 @ CHR '','' # ?m)" using jm_more new by (intro member_head_complete) auto
    have val: "audit decode (CallValue (w3 @ v @ w4 @ CHR '','' # ?m)) = Some (Inr (w4 @ CHR '','' # ?m))"
      using \<open>\<forall>r. stops r \<longrightarrow> audit decode (CallValue (v @ r)) = Some (Inr r)\<close>
        stops_blank [OF \<open>blank w4\<close>] by (simp add: audit_blank [OF \<open>blank w3\<close>])
    have "audit decode (CallMembers keys (w1 @ s @ w2 @ CHR '':'' # w3 @ v @ w4 @ CHR '','' # ?m))
      = audit decode (CallMembers (key # keys) ?m)"
      by (rule audit_members_step(2) [OF head val]) (simp add: \<open>blank w4\<close>)
    then show "audit decode (CallMembers keys
        ((w1 @ s @ w2 @ '':'' @ w3 @ v @ w4 @ '','' @ m) @ CHR ''}'' # r)) = Some (Inr r)"
      using \<open>\<forall>keys r. distinct ks \<and> set ks \<inter> set keys = {} \<longrightarrow>
        audit decode (CallMembers keys (m @ CHR ''}'' # r)) = Some (Inr r)\<close>
      new by auto
  qed
next
  case (je_last w1 v w2)
  have val: "audit decode (CallValue (w1 @ v @ w2 @ CHR '']'' # r)) = Some (Inr (w2 @ CHR '']'' # r))" for r
    using \<open>\<forall>r. stops r \<longrightarrow> audit decode (CallValue (v @ r)) = Some (Inr r)\<close>
        stops_blank [OF \<open>blank w2\<close>] by (simp add: audit_blank [OF \<open>blank w1\<close>])
  show ?case
    using audit_elements_step(1) [OF val] by (simp add: \<open>blank w2\<close>)
next
  case (je_more w1 v w2 m)
  have val: "audit decode (CallValue (w1 @ v @ w2 @ CHR '','' # r)) = Some (Inr (w2 @ CHR '','' # r))" for r
    using \<open>\<forall>r. stops r \<longrightarrow> audit decode (CallValue (v @ r)) = Some (Inr r)\<close>
        stops_blank [OF \<open>blank w2\<close>] by (simp add: audit_blank [OF \<open>blank w1\<close>])
  show ?case
    using audit_elements_step(2) [OF val]
      \<open>\<forall>r. audit decode (CallElements (m @ CHR '']'' # r)) = Some (Inr r)\<close> by (simp add: \<open>blank w2\<close>)
qed

lemma audit_text_some: "\<exists>answer. audit_text decode s = Some answer"
  using audit_returns [of decode "CallValue (skip_ws s)"] by (auto simp: audit_text_def)



section \<open>Escaped backslashes\<close>

definition plain :: "char \<Rightarrow> bool" where
  "plain c \<longleftrightarrow> byte c \<noteq> 92 \<and> byte c \<noteq> 34 \<and> 32 \<le> byte c"

lemma scan_plain: "list_all plain w \<Longrightarrow> scan_string False (w @ [CHR 0x22]) = Inr []"
  by (induction w) (auto simp: plain_def byte_def)

text \<open>
  The scan for surrogate escapes refuses valid strings: it takes the second backslash of an
  escaped backslash for the start of an escape, so a literal that spells a backslash followed by
  \<open>u\<close> and no four hexadecimal digits (a Windows path such as \<open>C:\users\<close>) is refused, although it
  is a JSON string and the audit's own scan of literals accepts it.
\<close>

theorem escaped_backslash_refused:
  assumes "list_all plain w" "3 \<le> length w" "\<not> is_ascii_hexdigit (hd w)" "hd w \<noteq> CHR ''+''"
  shows "scan_string False (CHR 0x5C # CHR 0x5C # CHR ''u'' # w @ [CHR 0x22]) = Inr []
    \<and> validate_surrogate_escapes (CHR 0x22 # CHR 0x5C # CHR 0x5C # CHR ''u'' # w @ [CHR 0x22])
      = Inl bad_escape"
proof
  show "scan_string False (CHR 0x5C # CHR 0x5C # CHR ''u'' # w @ [CHR 0x22]) = Inr []"
    using scan_plain [OF assms(1)] by (simp add: byte_def)
  obtain c t where w: "w = c # t" using assms(2) by (cases w) auto
  have "hex_unit (w @ [CHR 0x22]) = None"
    using assms(2-4) w by (auto simp: hex_unit_def from_hex_radix_def take_byte_None split: option.splits)
  then have "validate_surrogate_escapes (CHR 0x5C # CHR ''u'' # w @ [CHR 0x22]) = Inl bad_escape"
    using assms(2) w by (subst validate_surrogate_escapes.simps) auto
  then have "validate_surrogate_escapes (CHR 0x5C # CHR 0x5C # CHR ''u'' # w @ [CHR 0x22]) = Inl bad_escape"
    using assms(2) w by (subst validate_surrogate_escapes.simps) auto
  then show "validate_surrogate_escapes (CHR 0x22 # CHR 0x5C # CHR 0x5C # CHR ''u'' # w @ [CHR 0x22])
      = Inl bad_escape"
    using assms(2) w by (subst validate_surrogate_escapes.simps) auto
qed

theorem escaped_backslash_refused_witness:
  "scan_string False (CHR 0x5C # CHR 0x5C # CHR ''u'' # ''sers'' @ [CHR 0x22]) = Inr []
    \<and> validate_surrogate_escapes (CHR 0x22 # CHR 0x5C # CHR 0x5C # CHR ''u'' # ''sers'' @ [CHR 0x22])
      = Inl bad_escape"
  by (rule escaped_backslash_refused)
    (simp_all add: plain_def byte_def is_ascii_hexdigit_def is_ascii_digit_def is_lower_hex_letter_def
      is_upper_hex_letter_def)

end
