(* ===== verification/Canonical_Json.thy ===== *)
theory Canonical_Json
  imports Strict_Json Job_Spec
begin

text \<open>
  JSON values and their canonical form (\<open>canonicalize_rp_manifest\<close>, \<open>write_canonical_json\<close> and
  \<open>write_ascii_json_string\<close> of \<open>publication.rs\<close>): compact ASCII with \<open>\u\<close> escapes, the bytes
  that are signed and hashed. A string is the list of its Unicode scalar values, a number the text
  \<open>serde_json\<close> prints for it, an object the list of its members in the order of the map (sorted by
  key). The bytes determine the value.
\<close>

section \<open>Values\<close>

datatype json =
    JNull
  | JBool bool
  | JNumber string
  | JString "nat list"
  | JArray "json list"
  | JObject "(nat list \<times> json) list"

section \<open>Strings\<close>

text \<open>Rust's format \<open>{:04x}\<close> of a number below 65536, after a backslash and \<open>u\<close>.\<close>

definition unicode_escape :: "nat \<Rightarrow> string" where
  "unicode_escape u =
     [CHR 0x5C, CHR ''u'', hex_digit (u div 4096 mod 16), hex_digit (u div 256 mod 16),
      hex_digit (u div 16 mod 16), hex_digit (u mod 16)]"

definition write_scalar :: "nat \<Rightarrow> string" where
  "write_scalar c =
     (if c = 34 then [CHR 0x5C, CHR 0x22]
      else if c = 92 then [CHR 0x5C, CHR 0x5C]
      else if c = 8 then [CHR 0x5C, CHR ''b'']
      else if c = 12 then [CHR 0x5C, CHR ''f'']
      else if c = 10 then [CHR 0x5C, CHR ''n'']
      else if c = 13 then [CHR 0x5C, CHR ''r'']
      else if c = 9 then [CHR 0x5C, CHR ''t'']
      else if c \<le> 31 then unicode_escape c
      else if c < 128 then [char_of c]
      else if c \<le> 65535 then unicode_escape c
      else unicode_escape (55296 + (c - 65536) div 1024)
           @ unicode_escape (56320 + (c - 65536) mod 1024))"

definition write_ascii_json_string :: "nat list \<Rightarrow> string" where
  "write_ascii_json_string s = CHR 0x22 # concat (map write_scalar s) @ [CHR 0x22]"

section \<open>Values in canonical form\<close>

text \<open>The elements of an array or the members of an object, already written, between commas.\<close>

fun with_commas :: "string list \<Rightarrow> string" where
  "with_commas [] = []"
| "with_commas [x] = x"
| "with_commas (x # y # xs) = x @ CHR '','' # with_commas (y # xs)"

fun write_canonical_json :: "json \<Rightarrow> string" where
  "write_canonical_json JNull = ''null''"
| "write_canonical_json (JBool b) = (if b then ''true'' else ''false'')"
| "write_canonical_json (JNumber n) = n"
| "write_canonical_json (JString s) = write_ascii_json_string s"
| "write_canonical_json (JArray vs) = ''['' @ with_commas (map write_canonical_json vs) @ '']''"
| "write_canonical_json (JObject ms) =
     ''{'' @ with_commas (map (\<lambda>(k, v). write_ascii_json_string k @ '':'' @ write_canonical_json v) ms) @ ''}''"

definition as_object :: "json \<Rightarrow> (nat list \<times> json) list option" where
  "as_object v = (case v of JObject ms \<Rightarrow> Some ms | _ \<Rightarrow> None)"

text \<open>A Rust string literal of ASCII characters as scalar values.\<close>

definition scalars :: "string \<Rightarrow> nat list" where
  "scalars s = map of_char s"

definition canonicalize_rp_manifest :: "json \<Rightarrow> publication_trust_error + string" where
  "canonicalize_rp_manifest manifest =
     and_then (option_ok (Rejected ''publication manifest must be a JSON object'') (as_object manifest)) (\<lambda>ms.
     and_then (ensure (map_of ms (scalars ''publication_signature'') \<noteq> None)
       (Rejected ''publication manifest is missing publication_signature'')) (\<lambda>_.
     Inr (write_canonical_json
       (JObject (filter (\<lambda>(k, _). k \<noteq> scalars ''publication_signature'') ms)))))"

section \<open>Reading a string back\<close>

definition scalar_value :: "nat \<Rightarrow> bool" where
  "scalar_value c \<longleftrightarrow> c < 1114112 \<and> \<not> (55296 \<le> c \<and> c \<le> 57343)"

definition unit_at :: "string \<Rightarrow> nat" where
  "unit_at s = hex_number 0 (take 4 s)"

text \<open>The inverse of \<open>write_scalar\<close> on the text that follows, for the proofs only.\<close>

definition read_scalar :: "string \<Rightarrow> (nat \<times> string) option" where
  "read_scalar s =
     (case s of
        [] \<Rightarrow> None
      | c # r \<Rightarrow>
          if byte c \<noteq> 92 then (if byte c = 34 then None else Some (byte c, r))
          else
            (case r of
               [] \<Rightarrow> None
             | e # t \<Rightarrow>
                 if e = CHR ''u'' then
                   (if high_surrogate (unit_at t)
                    then Some (65536 + (unit_at t - 55296) * 1024 + (unit_at (drop 6 t) - 56320), drop 10 t)
                    else Some (unit_at t, drop 4 t))
                 else Some (if e = CHR ''b'' then 8 else if e = CHR ''f'' then 12
                            else if e = CHR ''n'' then 10 else if e = CHR ''r'' then 13
                            else if e = CHR ''t'' then 9 else byte e, t)))"

lemma radix_digit_hex: "n < 16 \<Longrightarrow> radix_digit (hex_digit n) = n"
  by (simp add: radix_digit_def hex_digit_def is_ascii_digit_def is_lower_hex_letter_def byte_def)

lemma hex_split:
  fixes u :: nat
  shows "4096 * (u div 4096) + 256 * (u div 256 mod 16) + 16 * (u div 16 mod 16) + u mod 16 = u"
proof -
  have "u div 256 = u div 16 div 16" "u div 4096 = u div 256 div 16"
    by (simp_all flip: div_mult2_eq)
  then show ?thesis
    using div_mult_mod_eq [of u 16] div_mult_mod_eq [of "u div 16" 16] div_mult_mod_eq [of "u div 256" 16]
    by linarith
qed

lemma unit_at_escape:
  "u < 65536 \<Longrightarrow> unit_at (drop 2 (unicode_escape u @ r)) = u"
  "drop 6 (unicode_escape u @ r) = r"
  "unicode_escape u @ r = CHR 0x5C # CHR ''u'' # drop 2 (unicode_escape u @ r)"
  using hex_split [of u] by (simp_all add: unit_at_def unicode_escape_def radix_digit_hex)

lemma read_write_scalar:
  assumes "scalar_value c"
  shows "read_scalar (write_scalar c @ r) = Some (c, r)"
proof -
  have esc: "read_scalar (unicode_escape c @ r) = Some (c, r)" if "c < 65536"
  proof -
    have "\<not> high_surrogate c" using assms by (auto simp: scalar_value_def high_surrogate_def)
    moreover have "drop 4 (drop 2 (unicode_escape c @ r)) = r" by (simp add: unicode_escape_def)
    ultimately show ?thesis
      using unit_at_escape(1) [OF that, of r] unit_at_escape(3) [of c r]
      by (simp add: read_scalar_def byte_def)
  qed
  show ?thesis
  proof (cases "c \<le> 65535")
    case True
    then show ?thesis using esc by (auto simp: write_scalar_def read_scalar_def byte_def)
  next
    case False
    let ?d = "c - 65536"
    let ?h = "55296 + ?d div 1024" and ?l = "56320 + ?d mod 1024"
    have "?d < 1048576" using assms False by (auto simp: scalar_value_def)
    then have h: "high_surrogate ?h" "?h < 65536" "?l < 65536"
      by (auto simp: high_surrogate_def)
    obtain t where t: "unicode_escape ?h @ unicode_escape ?l @ r = CHR 0x5C # CHR ''u'' # t"
      "unit_at t = ?h" "unit_at (drop 6 t) = ?l" "drop 10 t = r"
    proof
      let ?t = "drop 2 (unicode_escape ?h @ unicode_escape ?l @ r)"
      show "unicode_escape ?h @ unicode_escape ?l @ r = CHR 0x5C # CHR ''u'' # ?t"
        by (rule unit_at_escape(3))
      show "unit_at ?t = ?h" by (rule unit_at_escape(1) [OF h(2)])
      have "drop 6 ?t = drop 2 (unicode_escape ?l @ r)" by (simp add: unicode_escape_def)
      then show "unit_at (drop 6 ?t) = ?l" by (simp only: unit_at_escape(1) [OF h(3)])
      show "drop 10 ?t = r" by (simp add: unicode_escape_def)
    qed
    have c: "c = 65536 + (?h - 55296) * 1024 + (?l - 56320)" using False by simp
    have w: "write_scalar c @ r = unicode_escape ?h @ unicode_escape ?l @ r"
      using False by (simp add: write_scalar_def)
    show ?thesis using h(1) t(2-4) c by (simp add: w t(1) read_scalar_def byte_def)
  qed
qed

section \<open>The bytes determine the value\<close>

lemma write_scalar_not_empty: "write_scalar c \<noteq> []"
  by (simp add: write_scalar_def unicode_escape_def)

lemma read_quote: "read_scalar (CHR 0x22 # r) = None"
  by (simp add: read_scalar_def byte_def)

lemma scalars_injective:
  assumes "list_all scalar_value s" "list_all scalar_value t"
    and "concat (map write_scalar s) @ CHR 0x22 # r = concat (map write_scalar t) @ CHR 0x22 # r'"
  shows "s = t \<and> r = r'"
  using assms
proof (induction s arbitrary: t)
  case Nil
  then show ?case
  proof (cases t)
    case (Cons d t')
    then have "read_scalar (CHR 0x22 # r) = Some (d, concat (map write_scalar t') @ CHR 0x22 # r')"
      using Nil read_write_scalar by simp
    then show ?thesis by (simp add: read_quote)
  qed simp
next
  case (Cons c s)
  have c: "read_scalar (concat (map write_scalar (c # s)) @ CHR 0x22 # r) =
      Some (c, concat (map write_scalar s) @ CHR 0x22 # r)"
    using Cons.prems(1) read_write_scalar by simp
  show ?case
  proof (cases t)
    case Nil
    then show ?thesis using c Cons.prems(3) by (simp add: read_quote)
  next
    case t: (Cons d t')
    have "read_scalar (concat (map write_scalar t) @ CHR 0x22 # r') =
        Some (d, concat (map write_scalar t') @ CHR 0x22 # r')"
      using Cons.prems(2) t read_write_scalar by simp
    then show ?thesis using c Cons t by auto
  qed
qed

lemma string_injective:
  assumes "list_all scalar_value s" "list_all scalar_value t"
    and "write_ascii_json_string s @ r = write_ascii_json_string t @ r'"
  shows "s = t \<and> r = r'"
  using scalars_injective [OF assms(1,2), of r r'] assms(3) by (simp add: write_ascii_json_string_def)

text \<open>Values as \<open>serde_json\<close> builds them: strings of scalar values, numbers in JSON's notation.\<close>

fun json_ok :: "json \<Rightarrow> bool" where
  "json_ok (JNumber n) \<longleftrightarrow> json_number n"
| "json_ok (JString s) \<longleftrightarrow> list_all scalar_value s"
| "json_ok (JArray vs) \<longleftrightarrow> (\<forall>v \<in> set vs. json_ok v)"
| "json_ok (JObject ms) \<longleftrightarrow> (\<forall>m \<in> set ms. list_all scalar_value (fst m) \<and> json_ok (snd m))"
| "json_ok _ \<longleftrightarrow> True"

definition number_char :: "char \<Rightarrow> bool" where
  "number_char c \<longleftrightarrow> is_ascii_digit c \<or> c \<in> {CHR ''-'', CHR ''+'', CHR ''.'', CHR ''e'', CHR ''E''}"

lemma digits_number_chars: "list_all is_ascii_digit d \<Longrightarrow> list_all number_char d"
  by (auto simp: number_char_def list_all_iff)

lemma number_chars:
  assumes "json_number n"
  shows "list_all number_char n"
proof -
  obtain sg w f e where n: "n = sg @ w @ f @ e" "sg \<in> {[], ''-''}" "json_whole w"
    "json_fraction f" "json_exponent e"
    using assms by (auto simp: json_number_def)
  have "list_all number_char sg" using n(2) by (auto simp: number_char_def)
  moreover have "list_all number_char w"
    using n(3) digits_number_chars by (auto simp: json_whole_def digits_def number_char_def is_ascii_digit_def)
  moreover have "list_all number_char f"
    using n(4) digits_number_chars by (auto simp: json_fraction_def digits_def number_char_def)
  moreover have "list_all number_char e"
    using n(5) digits_number_chars by (auto simp: json_exponent_def digits_def) (auto simp: number_char_def)
  ultimately show ?thesis by (simp add: n(1))
qed

lemma number_injective:
  assumes "json_number n" "json_number n'" "stops r" "stops r'" "n @ r = n' @ r'"
  shows "n = n' \<and> r = r'"
proof -
  have "takeWhile number_char (m @ t) = m" if "list_all number_char m" "stops t" for m t
    using that by (cases t)
      (auto simp: list_all_iff takeWhile_append2 stops_def number_char_def is_ascii_whitespace_def
        digit_bytes byte_def)
  then have "n = n'" using assms number_chars by metis
  then show ?thesis using assms(5) by simp
qed

lemma write_first:
  assumes "json_ok v"
  shows "write_canonical_json v \<noteq> [] \<and> hd (write_canonical_json v) \<notin> {CHR '','', CHR '']'', CHR ''}''}"
proof (cases v)
  case (JNumber n)
  then show ?thesis using number_first [of n] assms by (auto simp: digit_bytes byte_def)
qed (simp_all add: write_ascii_json_string_def)

definition reads_uniquely :: "('a \<Rightarrow> bool) \<Rightarrow> ('a \<Rightarrow> string) \<Rightarrow> 'a \<Rightarrow> bool" where
  "reads_uniquely ok f x \<longleftrightarrow>
     (\<forall>y r r'. ok y \<longrightarrow> stops r \<longrightarrow> stops r' \<longrightarrow> f x @ r = f y @ r' \<longrightarrow> x = y \<and> r = r')"

lemma reads_uniquelyD:
  "reads_uniquely ok f x \<Longrightarrow> ok y \<Longrightarrow> stops r \<Longrightarrow> stops r' \<Longrightarrow> f x @ r = f y @ r' \<Longrightarrow> x = y \<and> r = r'"
  by (simp add: reads_uniquely_def)

lemma commas_injective:
  assumes uniq: "\<forall>x \<in> set xs. reads_uniquely ok f x"
    and ok: "\<forall>y \<in> set ys. ok y" "\<forall>x \<in> set xs. ok x"
    and first: "\<And>y. ok y \<Longrightarrow> f y \<noteq> [] \<and> hd (f y) \<noteq> c"
    and c: "c \<in> {CHR '']'', CHR ''}''}"
    and eq: "with_commas (map f xs) @ c # r = with_commas (map f ys) @ c # r'"
  shows "xs = ys \<and> r = r'"
  using uniq ok eq
proof (induction xs arbitrary: ys rule: induct_list012)
  case 1
  show ?case
  proof (cases ys)
    case (Cons y zs)
    then have "hd (with_commas (map f ys) @ c # r') = hd (f y)"
      using first [of y] 1(2) by (cases zs) auto
    then show ?thesis using first [of y] 1 Cons by (metis append_Nil list.sel(1) list.set_intros(1) list.simps(8) with_commas.simps(1))
  qed (use 1 in simp)
next
  case (2 x)
  have stop: "stops (c # t)" "stops (CHR '','' # t)" for t using c by (auto simp: stops_def)
  show ?case
  proof (cases ys)
    case Nil
    then show ?thesis using first [of x] 2(3,4) by (cases "f x") auto
  next
    case (Cons y zs)
    obtain t where t: "with_commas (map f ys) @ c # r' = f y @ t" "stops t"
      "zs = [] \<longrightarrow> t = c # r'" "zs \<noteq> [] \<longrightarrow> hd t = CHR '',''"
      using Cons stop by (cases zs) auto
    have "f x @ c # r = f y @ t" using 2(4) t(1) by simp
    moreover have "reads_uniquely ok f x" "ok y" using 2(1,2) Cons by simp_all
    ultimately have "x = y \<and> c # r = t" by (metis reads_uniquelyD stop(1) t(2))
    then show ?thesis using t(3,4) c Cons by (cases zs) auto
  qed
next
  case (3 x x' xs)
  have stop: "stops (c # t)" "stops (CHR '','' # t)" for t using c by (auto simp: stops_def)
  show ?case
  proof (cases ys)
    case Nil
    then show ?thesis using first [of x] 3(5,6) by (cases "f x") auto
  next
    case (Cons y zs)
    obtain t where t: "with_commas (map f ys) @ c # r' = f y @ t" "stops t"
      "zs = [] \<longrightarrow> t = c # r'" "zs \<noteq> [] \<longrightarrow> t = CHR '','' # with_commas (map f zs) @ c # r'"
      using Cons stop by (cases zs) auto
    have "f x @ CHR '','' # with_commas (map f (x' # xs)) @ c # r = f y @ t" using 3(6) t(1) by simp
    moreover have "reads_uniquely ok f x" "ok y" using 3(3,4) Cons by simp_all
    ultimately have "x = y \<and> CHR '','' # with_commas (map f (x' # xs)) @ c # r = t"
      by (metis reads_uniquelyD stop(2) t(2))
    then show ?thesis using t(3,4) c Cons 3(2) [of zs] 3(3-5) by (cases zs) auto
  qed
qed

lemma number_head:
  assumes "json_number n"
  shows "\<exists>c t. n = c # t \<and> c \<notin> {CHR ''n'', CHR ''t'', CHR ''f'', CHR 0x22, CHR ''['', CHR ''{''}"
  using number_first [OF assms] by (cases n) (auto simp: digit_bytes byte_def)

definition member_text :: "nat list \<times> json \<Rightarrow> string" where
  "member_text m = write_ascii_json_string (fst m) @ '':'' @ write_canonical_json (snd m)"

definition member_ok :: "nat list \<times> json \<Rightarrow> bool" where
  "member_ok m \<longleftrightarrow> list_all scalar_value (fst m) \<and> json_ok (snd m)"

lemma write_object:
  "write_canonical_json (JObject ms) = ''{'' @ with_commas (map member_text ms) @ ''}''"
  by (simp add: member_text_def case_prod_unfold cong: map_cong)

lemma member_unique:
  assumes "reads_uniquely json_ok write_canonical_json v" "list_all scalar_value k"
  shows "reads_uniquely member_ok member_text (k, v)"
  unfolding reads_uniquely_def
proof (intro allI impI)
  fix y r r'
  assume y: "member_ok y" and stop: "stops r" "stops r'"
    and eq: "member_text (k, v) @ r = member_text y @ r'"
  obtain k' v' where kv: "y = (k', v')" by (cases y)
  have "k = k' \<and> '':'' @ write_canonical_json v @ r = '':'' @ write_canonical_json v' @ r'"
    using string_injective [OF assms(2), of k' "'':'' @ write_canonical_json v @ r"
        "'':'' @ write_canonical_json v' @ r'"] y eq
    by (simp add: kv member_text_def member_ok_def)
  then show "(k, v) = y \<and> r = r'"
    using reads_uniquelyD [OF assms(1) _ stop, of v'] y by (simp add: kv member_ok_def)
qed

lemma json_ok_object: "json_ok (JObject ms) \<longleftrightarrow> (\<forall>m \<in> set ms. member_ok m)"
  by (simp add: member_ok_def)

lemma member_first: "member_text m \<noteq> [] \<and> hd (member_text m) \<noteq> CHR ''}''"
  by (simp add: member_text_def write_ascii_json_string_def)

lemma canonical_unique: "json_ok v \<Longrightarrow> reads_uniquely json_ok write_canonical_json v"
proof (induction v)
  case JNull
  show ?case unfolding reads_uniquely_def
  proof (intro allI impI)
    fix w r r'
    assume "json_ok w" "write_canonical_json JNull @ r = write_canonical_json w @ r'"
    then show "JNull = w \<and> r = r'"
      by (cases w) (auto simp: write_ascii_json_string_def dest!: number_head split: if_splits)
  qed
next
  case (JBool b)
  show ?case unfolding reads_uniquely_def
  proof (intro allI impI)
    fix w r r'
    assume "json_ok w" "write_canonical_json (JBool b) @ r = write_canonical_json w @ r'"
    then show "JBool b = w \<and> r = r'"
      by (cases w; cases b)
        (auto simp: write_ascii_json_string_def dest!: number_head split: if_splits)
  qed
next
  case (JNumber n)
  show ?case unfolding reads_uniquely_def
  proof (intro allI impI)
    fix w r r'
    assume a: "json_ok w" "stops r" "stops r'" "write_canonical_json (JNumber n) @ r = write_canonical_json w @ r'"
    obtain c t where n: "n = c # t"
        "c \<notin> {CHR ''n'', CHR ''t'', CHR ''f'', CHR 0x22, CHR ''['', CHR ''{''}"
      using number_head [of n] JNumber by auto
    show "JNumber n = w \<and> r = r'"
    proof (cases w)
      case w: (JNumber m)
      then show ?thesis using number_injective [of n m r r'] a JNumber by simp
    qed (use a n in \<open>auto simp: write_ascii_json_string_def split: if_splits\<close>)
  qed
next
  case (JString s)
  show ?case unfolding reads_uniquely_def
  proof (intro allI impI)
    fix w r r'
    assume a: "json_ok w" "write_canonical_json (JString s) @ r = write_canonical_json w @ r'"
    show "JString s = w \<and> r = r'"
    proof (cases w)
      case (JString t)
      then show ?thesis using string_injective [of s t r r'] a \<open>json_ok (JString s)\<close> by simp
    next
      case (JNumber n)
      then show ?thesis using a by (auto simp: write_ascii_json_string_def dest!: number_head)
    qed (use a in \<open>auto simp: write_ascii_json_string_def split: if_splits\<close>)
  qed
next
  case (JArray vs)
  show ?case unfolding reads_uniquely_def
  proof (intro allI impI)
    fix w r r'
    assume a: "json_ok w" "stops r" "stops r'" "write_canonical_json (JArray vs) @ r = write_canonical_json w @ r'"
    show "JArray vs = w \<and> r = r'"
    proof (cases w)
      case (JArray ws)
      have "vs = ws \<and> r = r'"
      proof (rule commas_injective [where f = write_canonical_json and ok = json_ok and c = "CHR '']''"])
        show "\<forall>x \<in> set vs. reads_uniquely json_ok write_canonical_json x" using JArray.IH JArray.prems by simp
      qed (use a JArray JArray.prems write_first in auto)
      then show ?thesis using JArray by simp
    next
      case (JNumber n)
      then show ?thesis using a by (auto dest!: number_head)
    qed (use a in \<open>auto simp: write_ascii_json_string_def split: if_splits\<close>)
  qed
next
  case (JObject ms)
  show ?case unfolding reads_uniquely_def
  proof (intro allI impI)
    fix w r r'
    assume a: "json_ok w" "stops r" "stops r'" "write_canonical_json (JObject ms) @ r = write_canonical_json w @ r'"
    show "JObject ms = w \<and> r = r'"
    proof (cases w)
      case w: (JObject ns)
      have "ms = ns \<and> r = r'"
      proof (rule commas_injective [where f = member_text and ok = member_ok and c = "CHR ''}''"])
        show "\<forall>m \<in> set ms. reads_uniquely member_ok member_text m"
        proof
          fix m assume m: "m \<in> set ms"
          then have "json_ok (snd m)" "list_all scalar_value (fst m)" using JObject.prems by simp_all
          moreover have "reads_uniquely json_ok write_canonical_json (snd m)"
            using JObject.IH [OF m] \<open>json_ok (snd m)\<close> by (cases m) simp
          ultimately show "reads_uniquely member_ok member_text m"
            using member_unique [of "snd m" "fst m"] by simp
        qed
        show "\<forall>y \<in> set ns. member_ok y" "\<forall>x \<in> set ms. member_ok x"
          using a(1) w JObject.prems json_ok_object by blast+
        show "with_commas (map member_text ms) @ CHR ''}'' # r = with_commas (map member_text ns) @ CHR ''}'' # r'"
          using a(4) unfolding w write_object by simp
      qed (use member_first in auto)
      then show ?thesis using w by simp
    next
      case (JNumber n)
      then show ?thesis using a by (auto dest!: number_head)
    qed (use a in \<open>auto simp: write_ascii_json_string_def split: if_splits\<close>)
  qed
qed



section \<open>The canonical form passes the audit\<close>

text \<open>Maps have every key once.\<close>

fun keys_once :: "json \<Rightarrow> bool" where
  "keys_once (JArray vs) \<longleftrightarrow> (\<forall>v \<in> set vs. keys_once v)"
| "keys_once (JObject ms) \<longleftrightarrow> distinct (map fst ms) \<and> (\<forall>m \<in> set ms. keys_once (snd m))"
| "keys_once _ \<longleftrightarrow> True"

definition decodes_own_literals :: "literal_decoder \<Rightarrow> bool" where
  "decodes_own_literals decode \<longleftrightarrow>
     (\<forall>s. list_all scalar_value s \<longrightarrow> decode (write_ascii_json_string s) = Some s)"

lemma hex_digit_is_hex: "n < 16 \<Longrightarrow> is_ascii_hexdigit (hex_digit n)"
  by (simp add: is_ascii_hexdigit_def hex_digit_def is_ascii_digit_def is_lower_hex_letter_def)

lemma scan_escape: "scan_string False (unicode_escape u @ x) = scan_string False x"
  by (simp add: unicode_escape_def hex_digit_is_hex byte_def)

lemma scan_scalar: "scan_string False (write_scalar c @ x) = scan_string False x"
  by (auto simp: write_scalar_def scan_escape byte_def)

lemma scan_scalars: "scan_string False (concat (map write_scalar s) @ [CHR 0x22]) = Inr []"
  by (induction s) (simp_all add: scan_scalar byte_def)

lemma literal_in_grammar:
  assumes "decodes_own_literals decode" "list_all scalar_value s"
  shows "json_string decode (write_ascii_json_string s) s"
  using assms scan_scalars [of s]
  by (auto simp: json_string_def write_ascii_json_string_def decodes_own_literals_def list_ex_iff
      list_all_iff scalar_value_def)

lemma blank_empty [simp]: "blank []"
  by (simp add: blank_def)

lemma elements_in_grammar:
  "xs \<noteq> [] \<Longrightarrow> \<forall>x \<in> set xs. json_value decode x \<Longrightarrow> json_elements decode (with_commas xs)"
proof (induction xs rule: with_commas.induct)
  case (2 x)
  then show ?case using je_last [of "[]" decode x "[]"] by simp
next
  case (3 x y xs)
  then show ?case using je_more [of "[]" decode x "[]" "with_commas (y # xs)"] by simp
qed simp

lemma members_in_grammar:
  "ms \<noteq> [] \<Longrightarrow> \<forall>m \<in> set ms. json_string decode (write_ascii_json_string (fst m)) (fst m)
      \<and> json_value decode (write_canonical_json (snd m))
    \<Longrightarrow> json_members decode (map fst ms) (with_commas (map member_text ms))"
proof (induction ms rule: induct_list012)
  case (2 m)
  then show ?case
    using jm_last [of "[]" decode "write_ascii_json_string (fst m)" "fst m" "[]" "[]"
        "write_canonical_json (snd m)" "[]"] by (simp add: member_text_def)
next
  case (3 m m' ms)
  then show ?case
    using jm_more [of "[]" decode "write_ascii_json_string (fst m)" "fst m" "[]" "[]"
        "write_canonical_json (snd m)" "[]"] by (simp add: member_text_def)
qed simp

lemma canonical_in_grammar:
  assumes "decodes_own_literals decode"
  shows "json_ok v \<Longrightarrow> keys_once v \<Longrightarrow> json_value decode (write_canonical_json v)"
proof (induction v)
  case JNull
  show ?case by (simp add: jv_literal)
next
  case (JBool b)
  show ?case by (simp add: jv_literal)
next
  case (JNumber n)
  then show ?case by (simp add: jv_number)
next
  case (JString s)
  then show ?case using jv_string [OF literal_in_grammar [OF assms, of s]] by simp
next
  case (JArray vs)
  show ?case
  proof (cases "vs = []")
    case True
    then show ?thesis using jv_array_empty [of "[]"] by simp
  next
    case False
    have "json_elements decode (with_commas (map write_canonical_json vs))"
      using JArray False by (intro elements_in_grammar) auto
    then show ?thesis using jv_array by simp
  qed
next
  case (JObject ms)
  show ?case
  proof (cases "ms = []")
    case True
    then show ?thesis using jv_object_empty [of "[]"] by simp
  next
    case False
    have "json_value decode (write_canonical_json (snd m))" if "m \<in> set ms" for m
      using JObject.IH [OF that, of "snd m"] JObject.prems that by (cases m) force
    then have "json_members decode (map fst ms) (with_commas (map member_text ms))"
      using JObject.prems literal_in_grammar [OF assms] False by (intro members_in_grammar) auto
    then show ?thesis using jv_object JObject.prems(2) unfolding write_object by simp
  qed
qed

text \<open>
  The canonical form of a value passes the audit it will meet on the way back, whenever string
  literals are decoded by their JSON meaning.
\<close>

theorem canonical_form_passes_audit:
  assumes "decodes_own_literals decode" "json_ok v" "keys_once v"
  shows "audit_text decode (write_canonical_json v) = Some (Inr ())"
proof -
  obtain r where r: "audit decode (CallValue (write_canonical_json v)) = Some (Inr r)" "r = []"
    using audit_complete(1) [OF canonical_in_grammar [OF assms], rule_format, of "[]"]
    by (simp add: stops_def)
  then show ?thesis unfolding audit_text_def audit_value_skip by (simp add: skip_ws_def)
qed

text \<open>A decoder of that kind.\<close>

fun read_scalars :: "nat \<Rightarrow> string \<Rightarrow> nat list option" where
  "read_scalars 0 s = None"
| "read_scalars (Suc n) s =
     (if s = [CHR 0x22] then Some []
      else (case read_scalar s of
              None \<Rightarrow> None
            | Some (c, r) \<Rightarrow> map_option (\<lambda>cs. c # cs) (read_scalars n r)))"

definition sample_decoder :: literal_decoder where
  "sample_decoder p = read_scalars (length p) (drop 1 p)"

lemma read_scalars_written:
  "list_all scalar_value s \<Longrightarrow> length s < n \<Longrightarrow>
     read_scalars n (concat (map write_scalar s) @ [CHR 0x22]) = Some s"
proof (induction s arbitrary: n)
  case Nil
  then show ?case by (cases n) auto
next
  case (Cons c s)
  have "write_scalar c @ concat (map write_scalar s) @ [CHR 0x22] \<noteq> [CHR 0x22]"
    using write_scalar_not_empty [of c] by (cases "write_scalar c") auto
  then show ?case using Cons read_write_scalar [of c] by (cases n) auto
qed

lemma sample_decodes: "decodes_own_literals sample_decoder"
proof -
  have "length s \<le> length (concat (map write_scalar s))" for s
  proof (induction s)
    case (Cons c s)
    then show ?case using write_scalar_not_empty [of c] by (cases "write_scalar c") auto
  qed simp
  then have "read_scalars (length (write_ascii_json_string s)) (drop 1 (write_ascii_json_string s)) = Some s"
    if "list_all scalar_value s" for s
    using that unfolding write_ascii_json_string_def drop_Suc_Cons drop0 One_nat_def
    by (intro read_scalars_written) (simp_all add: le_imp_less_Suc le_SucI)
  then show ?thesis unfolding decodes_own_literals_def sample_decoder_def by blast
qed

theorem canonical_form_passes_audit_witness:
  "audit_text sample_decoder
     (write_canonical_json (JObject [(scalars ''a'', JArray [JNull, JBool True]), (scalars ''b'', JString [233, 128512])]))
   = Some (Inr ())"
  by (rule canonical_form_passes_audit [OF sample_decodes])
    (simp_all add: scalars_def scalar_value_def)

end
