(* ===== verification/Civil_Time.thy ===== *)
theory Civil_Time
  imports Framing Rational_Time
begin

text \<open>
  RFC 3339 instants and civil dates (\<open>parse_rfc3339_inner\<close>, \<open>days_from_civil\<close> and their helpers in
  \<open>publication.rs\<close>): which texts are read as an instant, and that the closed formula for the day
  number counts days. \<open>i64\<close> is \<open>int\<close> here: years have four digits, so nothing comes near its bounds.
\<close>

section \<open>Civil dates\<close>

definition is_leap_year :: "int \<Rightarrow> bool" where
  "is_leap_year year \<longleftrightarrow> year mod 4 = 0 \<and> year mod 100 \<noteq> 0 \<or> year mod 400 = 0"

definition days_in_month :: "int \<Rightarrow> int \<Rightarrow> int" where
  "days_in_month year month =
     (if month \<in> {1, 3, 5, 7, 8, 10, 12} then 31
      else if month \<in> {4, 6, 9, 11} then 30
      else if month = 2 \<and> is_leap_year year then 29
      else if month = 2 then 28 else 0)"

text \<open>
  The divisions of the source truncate towards zero; all operands are non-negative for the years
  the parser produces except \<open>year - 399\<close> of the year before year zero, where the quotient of the
  truncating division is written out.
\<close>

definition truncated_div :: "int \<Rightarrow> int \<Rightarrow> int" where
  "truncated_div a b = (if 0 \<le> a then a div b else - ((- a) div b))"

definition days_from_civil :: "int \<Rightarrow> int \<Rightarrow> int \<Rightarrow> int" where
  "days_from_civil year0 month day =
     (let year = (if month \<le> 2 then year0 - 1 else year0);
          era = truncated_div (if 0 \<le> year then year else year - 399) 400;
          year_of_era = year - era * 400;
          day_of_year = truncated_div (153 * (month + (if 2 < month then - 3 else 9)) + 2) 5 + day - 1;
          day_of_era = year_of_era * 365 + truncated_div year_of_era 4
                       - truncated_div year_of_era 100 + day_of_year
      in era * 146097 + day_of_era - 719468)"

section \<open>Instants\<close>

definition ascii_text :: "string \<Rightarrow> bool" where
  "ascii_text s \<longleftrightarrow> list_all (\<lambda>c. of_char c < (128 :: nat)) s"

text \<open>The closure \<open>digits\<close>: a range of ASCII digits as a number.\<close>

definition digit_field :: "string \<Rightarrow> nat \<Rightarrow> nat \<Rightarrow> int option" where
  "digit_field s from to =
     (let slice = take (to - from) (drop from s) in
      if length s < to then None
      else if list_all is_ascii_digit slice then Some (int (decimal_value 0 slice)) else None)"

text \<open>\<open>str::parse::<i64>\<close>: an optional sign and at least one digit, within the range.\<close>

definition parse_i64 :: "string \<Rightarrow> int option" where
  "parse_i64 s =
     (let negative = (s \<noteq> [] \<and> hd s = CHR ''-'');
          digits = (if s \<noteq> [] \<and> (hd s = CHR ''-'' \<or> hd s = CHR ''+'') then tl s else s);
          n = (if negative then - int (decimal_value 0 digits) else int (decimal_value 0 digits))
      in if digits \<noteq> [] \<and> list_all is_ascii_digit digits \<and> - (2 ^ 63) \<le> n \<and> n < 2 ^ 63
         then Some n else None)"

definition parse_offset :: "string \<Rightarrow> int option" where
  "parse_offset rest =
     (if rest = ''Z'' \<or> rest = ''z'' then Some 0
      else if length rest = 6 \<and> (hd rest = CHR ''+'' \<or> hd rest = CHR ''-'')
      then (if rest ! 3 \<noteq> CHR '':'' then None
            else (case parse_i64 (take 2 (drop 1 rest)) of
                    None \<Rightarrow> None
                  | Some offset_hour \<Rightarrow>
                      (case parse_i64 (take 2 (drop 4 rest)) of
                         None \<Rightarrow> None
                       | Some offset_minute \<Rightarrow>
                           if 23 < offset_hour \<or> 59 < offset_minute then None
                           else
                             (let magnitude = offset_hour * 3600 + offset_minute * 60 in
                              Some (if hd rest = CHR ''-'' then - magnitude else magnitude)))))
      else None)"

definition strip_fraction :: "string \<Rightarrow> string option" where
  "strip_fraction rest =
     (case rest of
        c # stripped \<Rightarrow>
          if c = CHR ''.''
          then (if takeWhile is_ascii_digit stripped = [] then None
                else Some (dropWhile is_ascii_digit stripped))
          else Some rest
      | [] \<Rightarrow> Some rest)"

definition parse_rfc3339_inner :: "string \<Rightarrow> int option" where
  "parse_rfc3339_inner s =
     (if length s < 20 \<or> \<not> ascii_text s then None
      else if s ! 4 \<noteq> CHR ''-'' \<or> s ! 7 \<noteq> CHR ''-'' then None
      else if s ! 10 \<notin> {CHR ''T'', CHR ''t'', CHR '' ''} then None
      else if s ! 13 \<noteq> CHR '':'' \<or> s ! 16 \<noteq> CHR '':'' then None
      else
        Option.bind (digit_field s 0 4) (\<lambda>year.
        Option.bind (digit_field s 5 7) (\<lambda>month.
        Option.bind (digit_field s 8 10) (\<lambda>day.
        Option.bind (digit_field s 11 13) (\<lambda>hour.
        Option.bind (digit_field s 14 16) (\<lambda>minute.
        Option.bind (digit_field s 17 19) (\<lambda>second.
        if \<not> (1 \<le> month \<and> month \<le> 12) \<or> \<not> (1 \<le> day \<and> day \<le> 31) \<or> days_in_month year month < day
        then None
        else if 23 < hour \<or> 59 < minute \<or> 60 < second then None
        else
          Option.bind (strip_fraction (drop 19 s)) (\<lambda>rest.
          Option.bind (parse_offset rest) (\<lambda>offset_seconds.
          Some (days_from_civil year month day * 86400 + hour * 3600 + minute * 60 + second
                - offset_seconds))))))))))"

section \<open>The day number counts days\<close>

text \<open>
  The reference: the days of the years since year zero, of the months before, and of the day itself,
  less the day number of 1970-01-01.
\<close>

definition year_length :: "nat \<Rightarrow> int" where
  "year_length y = (if is_leap_year (int y) then 366 else 365)"

definition counted_days :: "nat \<Rightarrow> nat \<Rightarrow> nat \<Rightarrow> int" where
  "counted_days y m d =
     sum_list (map year_length [0..<y])
     + sum_list (map (\<lambda>k. days_in_month (int y) (int k)) [1..<m])
     + int d - 1 - 719528"

lemma next_quotient:
  fixes y n m :: int
  assumes "0 < n" and m: "m = n - 1"
  shows "(y + n) div n = (y + m) div n + (if y mod n = 0 then 1 else 0)"
proof -
  define q r where "q = y div n" and "r = y mod n"
  have y: "y = r + q * n" by (simp add: q_def r_def)
  have r: "0 \<le> r" "r < n" using assms by (simp_all add: r_def)
  have next_q: "(y + n) div n = q + 1" using assms div_add_self2 [of n y] by (simp add: q_def)
  have rest: "(r + n - 1) div n = (if r = 0 then 0 else 1)"
  proof (cases "r = 0")
    case False
    have "(r + n - 1) div n = (r - 1 + n) div n" by (simp add: algebra_simps)
    also have "\<dots> = (r - 1) div n + 1" using assms by (intro div_add_self2) simp
    finally show ?thesis using r False by (simp add: div_pos_pos_trivial)
  qed (use assms in simp)
  have "(y + m) div n = (r + n - 1 + q * n) div n" by (simp add: y m algebra_simps)
  also have "\<dots> = q + (r + n - 1) div n" using assms by (simp only: div_mult_self1)
  finally have "(y + m) div n = q + (if r = 0 then 0 else 1)" by (simp only: rest)
  then show ?thesis unfolding next_q r_def [symmetric] by simp
qed

lemma leap_multiples:
  fixes y :: int
  shows "y mod 100 = 0 \<Longrightarrow> y mod 4 = 0" and "y mod 400 = 0 \<Longrightarrow> y mod 100 = 0"
  using mod_mod_cancel [of 4 100 y] mod_mod_cancel [of 100 400 y] by simp_all

lemma leap_cases:
  "(b \<Longrightarrow> a) \<Longrightarrow> (c \<Longrightarrow> b) \<Longrightarrow> (if a \<and> \<not> b \<or> c then 366 else 365 :: int) =
     365 + (if a then 1 else 0) - (if b then 1 else 0) + (if c then 1 else 0)"
  by (cases a; cases b; cases c) auto

lemma counted_years:
  "sum_list (map year_length [0..<y]) =
     365 * int y + (int y + 3) div 4 - (int y + 99) div 100 + (int y + 399) div 400"
proof (induction y)
  case (Suc y)
  have shift: "int (Suc y) + 3 = int y + 4" "int (Suc y) + 99 = int y + 100"
    "int (Suc y) + 399 = int y + 400" by simp_all
  have quotients: "(int y + 4) div 4 = (int y + 3) div 4 + (if int y mod 4 = 0 then 1 else 0)"
    "(int y + 100) div 100 = (int y + 99) div 100 + (if int y mod 100 = 0 then 1 else 0)"
    "(int y + 400) div 400 = (int y + 399) div 400 + (if int y mod 400 = 0 then 1 else 0)"
    by (rule next_quotient; simp)+
  have "year_length y = 365 + (if int y mod 4 = 0 then 1 else 0) - (if int y mod 100 = 0 then 1 else 0)
      + (if int y mod 400 = 0 then 1 else 0)"
    unfolding year_length_def is_leap_year_def by (rule leap_cases [OF leap_multiples])
  then show ?case unfolding shift quotients using Suc by simp
qed simp

text \<open>The March-based year of the formula.\<close>

lemma era_days:
  fixes z :: int
  assumes "0 \<le> z"
  shows "z div 400 * 146097 + ((z - z div 400 * 400) * 365 + (z - z div 400 * 400) div 4
      - (z - z div 400 * 400) div 100) = 365 * z + z div 4 - z div 100 + z div 400"
proof -
  define q where "q = z div 400"
  define e where "e = z - q * 400"
  have z: "z = e + 400 * q" by (simp add: e_def)
  have "z div 4 = e div 4 + 100 * q" "z div 100 = e div 100 + 4 * q"
    using div_mult_self1 [of 4 e "100 * q"] div_mult_self1 [of 100 e "4 * q"]
    by (simp_all add: z algebra_simps)
  then show ?thesis unfolding q_def [symmetric] e_def [symmetric] by (simp add: z)
qed

lemma days_from_civil_march:
  assumes "- 1 \<le> z" "z = (if month \<le> 2 then year - 1 else year)" "1 \<le> month"
  shows "days_from_civil year month day =
    365 * z + z div 4 - z div 100 + z div 400
    + (153 * (month + (if 2 < month then - 3 else 9)) + 2) div 5 + day - 1 - 719468"
proof -
  have m: "0 \<le> 153 * (month + (if 2 < month then - 3 else 9)) + 2" using assms(3) by simp
  show ?thesis
  proof (cases "z = - 1")
    case True
    then show ?thesis
      using m unfolding days_from_civil_def Let_def assms(2) [symmetric] truncated_div_def by simp
  next
    case False
    then have z: "0 \<le> z" using assms(1) by simp
    have e: "0 \<le> z - z div 400 * 400" using minus_div_mult_eq_mod [of z 400] by simp
    show ?thesis
      using era_days [OF z] z e m
      unfolding days_from_civil_def Let_def assms(2) [symmetric] truncated_div_def by simp
  qed
qed

lemma month_days:
  assumes "1 \<le> m" "m \<le> 12"
  shows "sum_list (map (\<lambda>k. days_in_month y (int k)) [1..<m]) =
    (153 * (int m + (if 2 < m then - 3 else 9)) + 2) div 5
    + (if 2 < m then (if is_leap_year y then 60 else 59) else - 306)"
proof -
  have "m = 1 \<or> m = 2 \<or> m = 3 \<or> m = 4 \<or> m = 5 \<or> m = 6 \<or> m = 7 \<or> m = 8 \<or> m = 9
      \<or> m = 10 \<or> m = 11 \<or> m = 12" using assms by presburger
  then show ?thesis
    by (elim disjE; hypsubst; simp add: upt_conv_Cons; simp add: days_in_month_def)
qed

lemma combine_quotients:
  fixes a b c :: int
  shows "a + 1 = a' + p \<Longrightarrow> b + 1 = b' + q \<Longrightarrow> c + 1 = c' + r \<Longrightarrow> l = p - q + r \<Longrightarrow>
     a - b + c = a' - b' + c' - 1 + l"
  by simp

lemma quotient_step:
  fixes y n m :: int
  assumes "0 < n" "m = n - 1"
  shows "y div n + 1 = (y + m) div n + (if y mod n = 0 then 1 else 0)"
  unfolding next_quotient [OF assms, of y, symmetric] using assms(1) by (intro div_add_self2 [symmetric]) simp

lemma earlier_step:
  fixes y n m :: int
  assumes "0 < n" "m = n - 1"
  shows "(y - 1) div n + 1 = (y + m) div n + 0"
proof -
  have "(y - 1) div n + 1 = (y - 1 + n) div n" using assms(1) by (intro div_add_self2 [symmetric]) simp
  then show ?thesis by (simp add: assms(2) algebra_simps)
qed

lemma year_quotients:
  "int y div 4 - int y div 100 + int y div 400 =
     (int y + 3) div 4 - (int y + 99) div 100 + (int y + 399) div 400 - 1
     + (if is_leap_year (int y) then 1 else 0)"
proof (rule combine_quotients)
  show "(if is_leap_year (int y) then 1 else 0 :: int) = (if int y mod 4 = 0 then 1 else 0)
      - (if int y mod 100 = 0 then 1 else 0) + (if int y mod 400 = 0 then 1 else 0)"
    using leap_cases [OF leap_multiples, of "int y"] unfolding is_leap_year_def by auto
qed (rule quotient_step; simp)+

lemma earlier_quotients:
  "(int y - 1) div 4 - (int y - 1) div 100 + (int y - 1) div 400 =
     (int y + 3) div 4 - (int y + 99) div 100 + (int y + 399) div 400 - 1 + 0"
  by (rule combine_quotients; (rule earlier_step)?; simp)

text \<open>
  C31. The closed formula for the day number is the count of days: of all years since year zero, of
  the months before and of the days, for every year and every month of the proleptic Gregorian
  calendar.
\<close>

theorem days_from_civil_counts_days:
  assumes "1 \<le> m" "m \<le> 12"
  shows "days_from_civil (int y) (int m) (int d) = counted_days y m d"
proof (cases "2 < m")
  case True
  have month: "(if int m \<le> 2 then int y - 1 else int y) = int y" "(if 2 < int m then - 3 else 9 :: int) = - 3"
    "(if 2 < m then - 3 else 9 :: int) = - 3" using True by simp_all
  have "days_from_civil (int y) (int m) (int d) = 365 * int y + (int y div 4 - int y div 100 + int y div 400)
    + (153 * (int m + - 3) + 2) div 5 + int d - 1 - 719468"
    using days_from_civil_march [of "int y" "int m" "int y" "int d", unfolded month] assms by simp
  then show ?thesis
    unfolding counted_days_def counted_years month_days [OF assms] month year_quotients
    using True by (simp only: if_True) simp
next
  case False
  have month: "(if int m \<le> 2 then int y - 1 else int y) = int y - 1" "(if 2 < int m then - 3 else 9 :: int) = 9"
    "(if 2 < m then - 3 else 9 :: int) = 9" using False by simp_all
  have "days_from_civil (int y) (int m) (int d) = 365 * (int y - 1)
    + ((int y - 1) div 4 - (int y - 1) div 100 + (int y - 1) div 400)
    + (153 * (int m + 9) + 2) div 5 + int d - 1 - 719468"
    using days_from_civil_march [of "int y - 1" "int m" "int y" "int d", unfolded month] assms by simp
  then show ?thesis
    unfolding counted_days_def counted_years month_days [OF assms] month earlier_quotients
    using False by (simp only: if_False) simp
qed

theorem days_from_civil_counts_days_witness:
  "days_from_civil (int 2024) (int 3) (int 1) = counted_days 2024 3 1"
  by (rule days_from_civil_counts_days) simp_all

section \<open>What is read as an instant\<close>

lemma digit_field_prefix:
  "b \<le> length base \<Longrightarrow> digit_field (base @ r) a b = digit_field base a b"
  by (simp add: digit_field_def take_drop)

text \<open>The date and the time of day are the first nineteen bytes.\<close>

definition civil_seconds :: "string \<Rightarrow> int option" where
  "civil_seconds s =
     (if s ! 4 \<noteq> CHR ''-'' \<or> s ! 7 \<noteq> CHR ''-'' then None
      else if s ! 10 \<notin> {CHR ''T'', CHR ''t'', CHR '' ''} then None
      else if s ! 13 \<noteq> CHR '':'' \<or> s ! 16 \<noteq> CHR '':'' then None
      else
        Option.bind (digit_field s 0 4) (\<lambda>year.
        Option.bind (digit_field s 5 7) (\<lambda>month.
        Option.bind (digit_field s 8 10) (\<lambda>day.
        Option.bind (digit_field s 11 13) (\<lambda>hour.
        Option.bind (digit_field s 14 16) (\<lambda>minute.
        Option.bind (digit_field s 17 19) (\<lambda>second.
        if \<not> (1 \<le> month \<and> month \<le> 12) \<or> \<not> (1 \<le> day \<and> day \<le> 31) \<or> days_in_month year month < day
        then None
        else if 23 < hour \<or> 59 < minute \<or> 60 < second then None
        else Some (days_from_civil year month day * 86400 + hour * 3600 + minute * 60 + second))))))))"

lemma parse_rfc3339_split:
  assumes "length base = 19" "r \<noteq> []"
  shows "parse_rfc3339_inner (base @ r) =
    (if ascii_text base \<and> ascii_text r
     then Option.bind (civil_seconds base) (\<lambda>t.
          Option.bind (strip_fraction r) (\<lambda>rest.
          Option.bind (parse_offset rest) (\<lambda>off. Some (t - off))))
     else None)"
proof -
  have len: "\<not> length (base @ r) < 20" using assms by (cases r) auto
  have idx: "(base @ r) ! i = base ! i" if "i < 19" for i using that assms(1) by (simp add: nth_append)
  have fields: "digit_field (base @ r) a b = digit_field base a b" if "b \<le> 19" for a b
    using that assms(1) by (simp add: digit_field_prefix)
  have rest: "drop 19 (base @ r) = r" using assms(1) by simp
  have "ascii_text (base @ r) \<longleftrightarrow> ascii_text base \<and> ascii_text r" by (simp add: ascii_text_def)
  then show ?thesis
    unfolding parse_rfc3339_inner_def civil_seconds_def rest
    using len by (auto simp: idx fields bind_eq_None_conv split: bind_splits)
qed

text \<open>
  Not every accepted text is an RFC 3339 instant: the hours and the minutes of an offset are
  read by \<open>str::parse\<close>, which takes a sign of its own, so an offset such as \<open>+-5:00\<close> is accepted
  after every valid date and time, and read as an instant five hours away.
\<close>

theorem signed_offset_accepted:
  assumes "length base = 19" "parse_rfc3339_inner (base @ ''Z'') = Some t"
  shows "parse_rfc3339_inner (base @ ''+-5:00'') = Some (t + 18000)
    \<and> parse_rfc3339_inner (base @ ''-+5:+7'') = Some (t + 18420)"
proof -
  have t: "ascii_text base" "civil_seconds base = Some t"
    using assms(2) unfolding parse_rfc3339_split [OF assms(1) list.distinct(2)]
    by (auto simp: strip_fraction_def parse_offset_def bind_eq_Some_conv split: if_splits)
  have digits: "is_ascii_digit CHR ''5''" "is_ascii_digit CHR ''0''" "is_ascii_digit CHR ''7''"
    "\<not> is_ascii_digit CHR ''-''" "\<not> is_ascii_digit CHR ''+''"
    by (simp_all add: is_ascii_digit_def)
  have "parse_offset ''+-5:00'' = Some (- 18000)" "parse_offset ''-+5:+7'' = Some (- 18420)"
    by (simp_all add: parse_offset_def parse_i64_def digits)
  moreover have "strip_fraction ''+-5:00'' = Some ''+-5:00''" "strip_fraction ''-+5:+7'' = Some ''-+5:+7''"
    by (simp_all add: strip_fraction_def)
  ultimately show ?thesis
    unfolding parse_rfc3339_split [OF assms(1) list.distinct(2)] using t
    by (simp add: ascii_text_def)
qed

lemma sample_instant: "parse_rfc3339_inner (''2024-01-01T00:00:00'' @ ''Z'') = Some 1704067200"
  by (simp add: parse_rfc3339_inner_def ascii_text_def digit_field_def is_ascii_digit_def
      days_in_month_def strip_fraction_def parse_offset_def days_from_civil_def truncated_div_def)

theorem signed_offset_accepted_witness:
  "parse_rfc3339_inner (''2024-01-01T00:00:00'' @ ''+-5:00'') = Some (1704067200 + 18000)
    \<and> parse_rfc3339_inner (''2024-01-01T00:00:00'' @ ''-+5:+7'') = Some (1704067200 + 18420)"
  by (rule signed_offset_accepted [OF _ sample_instant]) simp

end
