(* ===== verification/Publication.thy ===== *)
theory Publication
  imports Canonical_Json Civil_Time Complex_Main "HOL-Library.List_Lexorder"
begin

text \<open>
  The one verifier of signed publications (\<open>publication.rs\<close>): the untrusted envelope, the checks in
  the order of \<open>PublicationTrust::verify\<close>, the verified publication, the download plans made from
  it and the job specification a plan becomes. Ed25519, SHA-256 and \<open>serde_json\<close> (the value of a
  text, and the struct of a value) are parameters; UTF-8, hexadecimal and the comparisons of \<open>f64\<close>
  are written out.
\<close>

section \<open>UTF-8\<close>

definition continuation :: "char \<Rightarrow> bool" where
  "continuation b \<longleftrightarrow> 128 \<le> byte b \<and> byte b \<le> 191"

definition utf8_multibyte :: "char \<Rightarrow> string \<Rightarrow> (nat \<times> nat) option" where
  "utf8_multibyte a s =
     (let b = byte (s ! 0) - 128; c = byte (s ! 1) - 128; d = byte (s ! 2) - 128 in
      if 192 \<le> byte a \<and> byte a \<le> 223 then
        (let u = (byte a - 192) * 64 + b in
         if 1 \<le> length s \<and> list_all continuation (take 1 s) \<and> 128 \<le> u then Some (u, 1) else None)
      else if 224 \<le> byte a \<and> byte a \<le> 239 then
        (let u = (byte a - 224) * 4096 + b * 64 + c in
         if 2 \<le> length s \<and> list_all continuation (take 2 s) \<and> 2048 \<le> u \<and> scalar_value u
         then Some (u, 2) else None)
      else if 240 \<le> byte a \<and> byte a \<le> 247 then
        (let u = (byte a - 240) * 262144 + b * 4096 + c * 64 + d in
         if 3 \<le> length s \<and> list_all continuation (take 3 s) \<and> 65536 \<le> u \<and> scalar_value u
         then Some (u, 3) else None)
      else None)"

text \<open>The scalar values of a byte string, when it is valid UTF-8.\<close>

fun utf8_decode :: "string \<Rightarrow> nat list option" where
  "utf8_decode [] = Some []"
| "utf8_decode (a # s) =
     (if byte a < 128 then map_option (\<lambda>cs. byte a # cs) (utf8_decode s)
      else (case utf8_multibyte a s of
              None \<Rightarrow> None
            | Some (u, n) \<Rightarrow> map_option (\<lambda>cs. u # cs) (utf8_decode (drop n s))))"

section \<open>Numbers of the payload\<close>

datatype rust_f64 = F64Finite rat | F64Infinite bool | F64Nan

text \<open>\<open>==\<close> and \<open>< 0.0\<close> on \<open>f64\<close>.\<close>

fun f64_eq :: "rust_f64 \<Rightarrow> rust_f64 \<Rightarrow> bool" where
  "f64_eq (F64Finite x) (F64Finite y) \<longleftrightarrow> x = y"
| "f64_eq (F64Infinite s) (F64Infinite t) \<longleftrightarrow> s = t"
| "f64_eq _ _ \<longleftrightarrow> False"

fun finite_non_negative :: "rust_f64 \<Rightarrow> bool" where
  "finite_non_negative (F64Finite x) \<longleftrightarrow> 0 \<le> x"
| "finite_non_negative _ \<longleftrightarrow> False"

section \<open>Untrusted input\<close>

record publication_file_claim =
  pf_id :: string
  pf_display_path :: string
  pf_role :: string
  pf_size_bytes :: u64
  pf_sha256 :: string
  pf_media_type :: string

record publication_envelope =
  pe_session_id :: string
  pe_revision :: string
  pe_captured_at :: string
  pe_published_at :: string
  pe_duration :: rust_f64
  pe_total_bytes :: u64
  pe_video_bytes :: u64
  pe_file_count :: u64
  pe_files :: "publication_file_claim list"
  pe_payload :: string
  pe_signature_hex :: string
  pe_public_key_hex :: string
  pe_key_fingerprint :: string

text \<open>The authenticated session detail an envelope is filled from (\<open>device/mod.rs\<close>), bytes as strings.\<close>

record session_detail_view =
  sv_session_id :: string
  sv_revision :: string
  sv_captured_at :: string
  sv_published_at :: string
  sv_duration :: rust_f64
  sv_total_bytes :: u64
  sv_video_bytes :: u64
  sv_file_count :: u64
  sv_files :: "publication_file_claim list"
  sv_payload :: string
  sv_signature :: string
  sv_public_key :: string
  sv_key_fingerprint :: string

text \<open>\<open>encode_lower_hex\<close> is \<^const>\<open>digest_to_hex\<close>.\<close>

definition from_session_detail ::
    "session_detail_view \<Rightarrow> publication_trust_error + publication_envelope" where
  "from_session_detail v =
     and_then (ensure (utf8_decode (sv_payload v) \<noteq> None)
       (Rejected ''publication payload is not valid UTF-8'')) (\<lambda>_.
     Inr \<lparr>pe_session_id = sv_session_id v, pe_revision = sv_revision v,
          pe_captured_at = sv_captured_at v, pe_published_at = sv_published_at v,
          pe_duration = sv_duration v, pe_total_bytes = sv_total_bytes v,
          pe_video_bytes = sv_video_bytes v, pe_file_count = sv_file_count v,
          pe_files = sv_files v, pe_payload = sv_payload v,
          pe_signature_hex = digest_to_hex (sv_signature v),
          pe_public_key_hex = digest_to_hex (sv_public_key v),
          pe_key_fingerprint = sv_key_fingerprint v\<rparr>)"

section \<open>Verified output\<close>

record verified_file =
  vf_file_id :: file_id
  vf_display_path :: string
  vf_role :: string
  vf_size_bytes :: u64
  vf_sha256 :: string
  vf_media_type :: string

record verified_publication =
  vp_session_id :: session_id
  vp_revision :: string
  vp_captured_at :: string
  vp_published_at :: string
  vp_duration :: rust_f64
  vp_total_bytes :: u64
  vp_video_bytes :: u64
  vp_key_fingerprint :: string
  vp_payload :: string
  vp_signature :: string
  vp_public_key :: string
  vp_files :: "verified_file list"

text \<open>The signed payload as its own schema reads it.\<close>

record signed_payload =
  sp_schema_version :: u32
  sp_session_id :: string
  sp_revision :: string
  sp_captured_at :: string
  sp_published_at :: string
  sp_duration :: rust_f64
  sp_total_bytes :: u64
  sp_video_bytes :: u64
  sp_integrity_ok :: bool
  sp_files :: "publication_file_claim list"

text \<open>
  The seams: SHA-256, the signature check (payload, signature, key), \<open>serde_json\<close>'s reading of a
  literal, of a text as a value and of a value as the payload struct.
\<close>

record publication_env =
  pv_sha256 :: "string \<Rightarrow> string"
  pv_verify :: "string \<Rightarrow> string \<Rightarrow> string \<Rightarrow> publication_trust_error + unit"
  pv_decode :: literal_decoder
  pv_from_str :: "string \<Rightarrow> json option"
  pv_from_value :: "json \<Rightarrow> signed_payload option"

section \<open>Validators\<close>

definition is_lower_hex :: "string \<Rightarrow> bool" where
  "is_lower_hex s \<longleftrightarrow> list_all is_lower_hex_char s"

definition decode_lower_hex_exact :: "string \<Rightarrow> nat \<Rightarrow> publication_trust_error + string" where
  "decode_lower_hex_exact s expected =
     (if length s \<noteq> expected * 2 \<or> \<not> is_lower_hex s
      then Inl (Rejected ''must be exactly lowercase hex characters'')
      else Inr (hex_pairs s))"

definition sha256_prefixed :: "string \<Rightarrow> bool" where
  "sha256_prefixed s \<longleftrightarrow>
     (case strip_prefix ''sha256:'' s of
        None \<Rightarrow> False | Some hex \<Rightarrow> length hex = 64 \<and> is_lower_hex hex)"

definition validate_publication_key_fingerprint :: "string \<Rightarrow> publication_trust_error + unit" where
  "validate_publication_key_fingerprint s =
     (case strip_prefix ''sha256:'' s of
        None \<Rightarrow> Inl (Rejected ''publication key fingerprint must start with sha256:'')
      | Some hex \<Rightarrow>
          ensure (length hex = 64 \<and> is_lower_hex hex)
            (Rejected ''publication key fingerprint must contain 64 lowercase hex characters''))"

definition ensure_publication_key_identity_matches ::
    "string \<Rightarrow> string \<Rightarrow> publication_trust_error + unit" where
  "ensure_publication_key_identity_matches expected observed =
     and_then (validate_publication_key_fingerprint expected) (\<lambda>_.
     and_then (validate_publication_key_fingerprint observed) (\<lambda>_.
     ensure (expected = observed) (Rejected ''session publication key fingerprint does not match'')))"

definition validate_revision :: "string \<Rightarrow> publication_trust_error + unit" where
  "validate_revision s =
     (case strip_prefix ''sha256:'' s of
        None \<Rightarrow> Inl (Rejected ''publication revision must start with sha256:'')
      | Some hex \<Rightarrow>
          ensure (length hex = 64 \<and> is_lower_hex hex)
            (Rejected ''publication revision must contain 64 lowercase hex characters''))"

definition ascii_alphanumeric :: "char \<Rightarrow> bool" where
  "ascii_alphanumeric c \<longleftrightarrow>
     is_ascii_digit c \<or> (65 \<le> byte c \<and> byte c \<le> 90) \<or> (97 \<le> byte c \<and> byte c \<le> 122)"

definition validate_opaque_id :: "string \<Rightarrow> publication_trust_error + unit" where
  "validate_opaque_id s =
     ensure (s \<noteq> [] \<and> length s \<le> 128
         \<and> list_all (\<lambda>c. ascii_alphanumeric c \<or> c = CHR ''_'' \<or> c = CHR ''-'') s)
       (Rejected ''must match [A-Za-z0-9_-]{1,128}'')"

text \<open>\<open>windows(2)\<close> with two dots.\<close>

fun has_dot_dot :: "string \<Rightarrow> bool" where
  "has_dot_dot (a # b # s) \<longleftrightarrow> a = CHR ''.'' \<and> b = CHR ''.'' \<or> has_dot_dot (b # s)"
| "has_dot_dot _ \<longleftrightarrow> False"

definition validate_display_path :: "string \<Rightarrow> publication_trust_error + unit" where
  "validate_display_path s =
     ensure (length s \<le> 4096
         \<and> (case s of [] \<Rightarrow> False | c # _ \<Rightarrow> ascii_alphanumeric c \<or> c = CHR ''_'')
         \<and> list_all (\<lambda>c. ascii_alphanumeric c \<or> c \<in> {CHR ''_'', CHR ''.'', CHR ''/'', CHR ''-''}) (drop 1 s)
         \<and> \<not> has_dot_dot s)
       (Rejected ''signed file display_path does not satisfy the schema v1 relative-path constraints'')"

text \<open>Rust counts the characters of a string that is UTF-8 by its type.\<close>

definition validate_media_type :: "string \<Rightarrow> publication_trust_error + unit" where
  "validate_media_type s =
     ensure (s \<noteq> [] \<and> (case utf8_decode s of None \<Rightarrow> True | Some cs \<Rightarrow> length cs \<le> 255))
       (Rejected ''signed file media_type must contain between 1 and 255 characters'')"

definition parse_rfc3339_seconds :: "string \<Rightarrow> publication_trust_error + int" where
  "parse_rfc3339_seconds s = option_ok (Rejected ''must be a valid RFC3339 timestamp'') (parse_rfc3339_inner s)"

definition is_video_role :: "string \<Rightarrow> bool" where
  "is_video_role role \<longleftrightarrow> role \<in> {''video_left'', ''video_right'', ''video_mono'', ''video_stereo''}"

definition is_known_v1_role :: "string \<Rightarrow> bool" where
  "is_known_v1_role role \<longleftrightarrow>
     role \<in> {''video_left'', ''video_right'', ''video_mono'', ''video_stereo'', ''imu'', ''metadata'', ''other''}"

definition file_entry_matches :: "publication_file_claim \<Rightarrow> publication_file_claim \<Rightarrow> bool" where
  "file_entry_matches entry wire \<longleftrightarrow>
     pf_id entry = pf_id wire \<and> pf_display_path entry = pf_display_path wire
     \<and> pf_role entry = pf_role wire \<and> pf_size_bytes entry = pf_size_bytes wire
     \<and> pf_sha256 entry = pf_sha256 wire \<and> pf_media_type entry = pf_media_type wire"

section \<open>The revision of a manifest\<close>

text \<open>Insertion into a \<open>serde_json\<close> map, which is kept sorted by key.\<close>

fun map_insert :: "nat list \<Rightarrow> json \<Rightarrow> (nat list \<times> json) list \<Rightarrow> (nat list \<times> json) list" where
  "map_insert k v [] = [(k, v)]"
| "map_insert k v ((k', v') # ms) =
     (if k = k' then (k, v) # ms
      else if k < k' then (k, v) # (k', v') # ms
      else (k', v') # map_insert k v ms)"

definition revision_fields :: "string list" where
  "revision_fields =
     [''schema_version'', ''session_id'', ''captured_at'', ''duration_seconds'', ''total_bytes'',
      ''video_bytes'', ''integrity_ok'', ''files'']"

fun collect_fields ::
    "(nat list \<times> json) list \<Rightarrow> string list \<Rightarrow> (nat list \<times> json) list \<Rightarrow>
     publication_trust_error + (nat list \<times> json) list" where
  "collect_fields ms [] content = Inr content"
| "collect_fields ms (name # names) content =
     and_then (option_ok (Rejected ''publication payload is missing RP revision content field'')
       (map_of ms (scalars name))) (\<lambda>v.
     collect_fields ms names (map_insert (scalars name) v content))"

definition payload_object_for_revision :: "json \<Rightarrow> publication_trust_error + json" where
  "payload_object_for_revision v =
     and_then (option_ok (Rejected ''publication payload must be a JSON object'') (as_object v)) (\<lambda>ms.
     and_then (collect_fields ms revision_fields []) (\<lambda>content.
     Inr (JObject content)))"

definition sha256_identity :: "publication_env \<Rightarrow> string \<Rightarrow> string" where
  "sha256_identity env bytes = ''sha256:'' @ digest_to_hex (pv_sha256 env bytes)"

section \<open>Parsing\<close>

definition parse_strict_json :: "publication_env \<Rightarrow> string \<Rightarrow> publication_trust_error + json" where
  "parse_strict_json env raw =
     and_then (ensure (utf8_decode raw \<noteq> None)
       (Rejected ''publication manifest is not valid UTF-8'')) (\<lambda>_.
     and_then (validate_surrogate_escapes raw) (\<lambda>_.
     and_then (the (audit_text (pv_decode env) raw)) (\<lambda>_.
     option_ok (Rejected ''publication manifest is not valid JSON'') (pv_from_str env raw))))"

section \<open>Verification\<close>

definition reject_unless :: "bool \<Rightarrow> string \<Rightarrow> publication_trust_error + unit" where
  "reject_unless b message = ensure b (Rejected message)"

text \<open>Step 3: the key material and the fingerprint it hashes to.\<close>

definition verify_key_material ::
    "publication_env \<Rightarrow> publication_envelope \<Rightarrow> publication_trust_error + (string \<times> string)" where
  "verify_key_material env e =
     and_then (decode_lower_hex_exact (pe_public_key_hex e) 32) (\<lambda>public_key.
     and_then (decode_lower_hex_exact (pe_signature_hex e) 64) (\<lambda>signature.
     and_then (reject_unless (sha256_identity env public_key = pe_key_fingerprint e)
       ''publication public key hash does not match its fingerprint'') (\<lambda>_.
     Inr (public_key, signature))))"

text \<open>Step 5: the schema and the revision.\<close>

definition verify_schema :: "publication_env \<Rightarrow> string \<Rightarrow> publication_trust_error + signed_payload" where
  "verify_schema env payload_bytes =
     and_then (parse_strict_json env payload_bytes) (\<lambda>v.
     and_then (option_ok (Rejected ''publication payload must be a JSON object'') (as_object v)) (\<lambda>ms.
     and_then (reject_unless (map_of ms (scalars ''publication_signature'') = None)
       ''publication payload must exclude publication_signature'') (\<lambda>_.
     and_then (option_ok (Rejected ''publication payload schema is invalid'') (pv_from_value env v)) (\<lambda>p.
     and_then (reject_unless (sp_schema_version p = 1) ''unsupported publication schema_version'') (\<lambda>_.
     and_then (payload_object_for_revision v) (\<lambda>content.
     and_then (reject_unless (sp_revision p = sha256_identity env (write_canonical_json content))
       ''publication revision does not match RP canonical content fields'') (\<lambda>_.
     and_then (reject_unless (sp_integrity_ok p) ''publication payload reports integrity_ok=false'') (\<lambda>_.
     Inr p))))))))"

text \<open>Steps 6 and 7: the signed scalars, and the unsigned echo of scalars and inventory.\<close>

definition verify_scalars ::
    "publication_envelope \<Rightarrow> signed_payload \<Rightarrow> publication_trust_error + unit" where
  "verify_scalars e p =
     and_then (validate_opaque_id (sp_session_id p)) (\<lambda>_.
     and_then (validate_revision (sp_revision p)) (\<lambda>_.
     and_then (parse_rfc3339_seconds (sp_captured_at p)) (\<lambda>captured_at.
     and_then (parse_rfc3339_seconds (sp_published_at p)) (\<lambda>published_at.
     and_then (reject_unless (\<not> published_at < captured_at)
       ''signed published_at must not be earlier than signed captured_at'') (\<lambda>_.
     and_then (reject_unless (finite_non_negative (sp_duration p))
       ''signed duration_seconds must be a finite non-negative number'') (\<lambda>_.
     reject_unless
       (sp_session_id p = pe_session_id e \<and> sp_revision p = pe_revision e
        \<and> sp_captured_at p = pe_captured_at e \<and> sp_published_at p = pe_published_at e
        \<and> f64_eq (sp_duration p) (pe_duration e) \<and> sp_total_bytes p = pe_total_bytes e
        \<and> sp_video_bytes p = pe_video_bytes e)
       ''session detail scalar fields do not match the signed publication payload''))))))"

definition verify_inventory ::
    "publication_envelope \<Rightarrow> signed_payload \<Rightarrow> publication_trust_error + unit" where
  "verify_inventory e p =
     reject_unless
       (of_nat (length (sp_files p)) = pe_file_count e \<and> sp_files p \<noteq> []
        \<and> of_nat (length (pe_files e)) = pe_file_count e
        \<and> length (sp_files p) = length (pe_files e)
        \<and> list_all (\<lambda>(entry, wire). file_entry_matches entry wire) (zip (sp_files p) (pe_files e)))
       ''session detail file inventory does not match the signed publication payload''"

text \<open>Step 8: the loop over the files, with its accumulators.\<close>

record file_totals =
  ft_ids :: "string list"
  ft_paths :: "string list"
  ft_total :: u64
  ft_video :: u64
  ft_files :: "verified_file list"

definition verified_of :: "publication_file_claim \<Rightarrow> verified_file" where
  "verified_of f =
     \<lparr>vf_file_id = pf_id f, vf_display_path = pf_display_path f, vf_role = pf_role f,
      vf_size_bytes = pf_size_bytes f, vf_sha256 = pf_sha256 f, vf_media_type = pf_media_type f\<rparr>"

definition verify_file ::
    "file_totals \<Rightarrow> publication_file_claim \<Rightarrow> publication_trust_error + file_totals" where
  "verify_file acc f =
     and_then (validate_opaque_id (pf_id f)) (\<lambda>_.
     and_then (validate_display_path (pf_display_path f)) (\<lambda>_.
     and_then (validate_media_type (pf_media_type f)) (\<lambda>_.
     and_then (reject_unless (pf_id f \<notin> set (ft_ids acc))
       ''signed publication payload contains duplicate file ids'') (\<lambda>_.
     and_then (reject_unless (pf_display_path f \<notin> set (ft_paths acc))
       ''signed publication payload contains duplicate file display_paths'') (\<lambda>_.
     and_then (reject_unless (length (pf_sha256 f) = 64 \<and> is_lower_hex (pf_sha256 f))
       ''signed file sha256 must contain 64 lowercase hex characters'') (\<lambda>_.
     and_then (reject_unless (is_known_v1_role (pf_role f))
       ''signed file role is not supported by schema v1'') (\<lambda>_.
     and_then (option_ok (Rejected ''signed file sizes overflow total_bytes'')
       (checked_add (ft_total acc) (pf_size_bytes f))) (\<lambda>total_bytes.
     and_then (if is_video_role (pf_role f)
               then option_ok (Rejected ''signed video sizes overflow video_bytes'')
                 (checked_add (ft_video acc) (pf_size_bytes f))
               else Inr (ft_video acc)) (\<lambda>video_bytes.
     Inr \<lparr>ft_ids = pf_id f # ft_ids acc, ft_paths = pf_display_path f # ft_paths acc,
          ft_total = total_bytes, ft_video = video_bytes, ft_files = ft_files acc @ [verified_of f]\<rparr>)))))))))"

fun verify_files ::
    "file_totals \<Rightarrow> publication_file_claim list \<Rightarrow> publication_trust_error + file_totals" where
  "verify_files acc [] = Inr acc"
| "verify_files acc (f # fs) = and_then (verify_file acc f) (\<lambda>acc'. verify_files acc' fs)"

definition no_files :: file_totals where
  "no_files = \<lparr>ft_ids = [], ft_paths = [], ft_total = 0, ft_video = 0, ft_files = []\<rparr>"

definition verify_publication ::
    "publication_env \<Rightarrow> publication_envelope \<Rightarrow> string \<Rightarrow> string \<Rightarrow>
     publication_trust_error + verified_publication" where
  "verify_publication env e requested_session expected_fingerprint =
     and_then (ensure_publication_key_identity_matches expected_fingerprint (pe_key_fingerprint e)) (\<lambda>_.
     and_then (validate_opaque_id requested_session) (\<lambda>_.
     and_then (reject_unless (pe_session_id e = requested_session)
       ''session detail response does not match the requested session_id'') (\<lambda>_.
     and_then (verify_key_material env e) (\<lambda>(public_key, signature).
     and_then (pv_verify env (pe_payload e) signature public_key) (\<lambda>_.
     and_then (verify_schema env (pe_payload e)) (\<lambda>p.
     and_then (verify_scalars e p) (\<lambda>_.
     and_then (verify_inventory e p) (\<lambda>_.
     and_then (verify_files no_files (sp_files p)) (\<lambda>totals.
     and_then (reject_unless (ft_total totals = sp_total_bytes p \<and> ft_video totals = sp_video_bytes p)
       ''signed aggregate byte counts do not match the signed file inventory'') (\<lambda>_.
     Inr \<lparr>vp_session_id = sp_session_id p, vp_revision = sp_revision p,
          vp_captured_at = sp_captured_at p, vp_published_at = sp_published_at p,
          vp_duration = sp_duration p, vp_total_bytes = sp_total_bytes p,
          vp_video_bytes = sp_video_bytes p, vp_key_fingerprint = sha256_identity env public_key,
          vp_payload = pe_payload e, vp_signature = signature, vp_public_key = public_key,
          vp_files = ft_files totals\<rparr>))))))))))"

section \<open>Plans\<close>

record verified_transfer_plan =
  tp_publication :: verified_publication
  tp_requested :: "nat list"
  tp_full_session :: bool

definition full_download_plan :: "verified_publication \<Rightarrow> verified_transfer_plan" where
  "full_download_plan p =
     \<lparr>tp_publication = p, tp_requested = [0..<length (vp_files p)], tp_full_session = True\<rparr>"

fun plan_indices ::
    "verified_file list \<Rightarrow> nat list \<Rightarrow> file_id list \<Rightarrow> publication_trust_error + nat list" where
  "plan_indices files indices [] = Inr indices"
| "plan_indices files indices (fid # ids) =
     (case position (\<lambda>f. vf_file_id f = fid) files of
        None \<Rightarrow> Inl (Rejected ''requested file is not part of the signed session inventory'')
      | Some k \<Rightarrow>
          if k \<in> set indices
          then Inl (Rejected ''requested file appears more than once in the download plan'')
          else plan_indices files (indices @ [k]) ids)"

definition subset_download_plan ::
    "verified_publication \<Rightarrow> file_id list \<Rightarrow> publication_trust_error + verified_transfer_plan" where
  "subset_download_plan p requested =
     and_then (reject_unless (requested \<noteq> []) ''a download plan must request at least one file'') (\<lambda>_.
     and_then (plan_indices (vp_files p) [] requested) (\<lambda>indices.
     Inr \<lparr>tp_publication = p, tp_requested = indices,
          tp_full_session = (length indices = length (vp_files p))\<rparr>))"

definition plan_files :: "verified_transfer_plan \<Rightarrow> verified_file list" where
  "plan_files plan = map (\<lambda>i. vp_files (tp_publication plan) ! i) (tp_requested plan)"

fun job_files :: "verified_file list \<Rightarrow> job_spec_error + job_file_spec list" where
  "job_files [] = Inr []"
| "job_files (f # fs) =
     and_then (new_job_file_spec (vf_file_id f) (vf_display_path f) (vf_size_bytes f) (vf_sha256 f)) (\<lambda>j.
     and_then (job_files fs) (\<lambda>js. Inr (j # js)))"

definition into_job_spec ::
    "verified_transfer_plan \<Rightarrow> device_id \<Rightarrow> string \<Rightarrow> job_spec_error + job_spec" where
  "into_job_spec plan device date_label =
     (let p = tp_publication plan in
      and_then (new_job_identity device (vp_session_id p) (vp_revision p)) (\<lambda>identity.
      and_then (new_publication_material (vp_revision p) (vp_payload p) (vp_signature p) (vp_public_key p))
        (\<lambda>material.
      and_then (job_files (vp_files p)) (\<lambda>session_files.
      new_job_spec identity material session_files
        (map (\<lambda>i. vf_file_id (vp_files p ! i)) (tp_requested plan))
        (tp_full_session plan) date_label))))"

section \<open>What the checks establish\<close>

lemma reject_unless_Inr [simp]: "reject_unless b m = Inr u \<longleftrightarrow> b"
  by (simp add: reject_unless_def)

lemma has_dot_dot_iff: "has_dot_dot s \<longleftrightarrow> (\<exists>a b. s = a @ ''..'' @ b)"
proof (induction s rule: has_dot_dot.induct)
  case (1 a b s)
  show ?case
  proof
    assume "has_dot_dot (a # b # s)"
    then consider "a = CHR ''.''" "b = CHR ''.''" | x y where "b # s = x @ ''..'' @ y"
      using 1 by auto
    then show "\<exists>x y. a # b # s = x @ ''..'' @ y"
    proof cases
      case 1
      then show ?thesis by (intro exI [of _ "[]"] exI [of _ s]) simp
    next
      case (2 x y)
      then show ?thesis by (intro exI [of _ "a # x"] exI [of _ y]) simp
    qed
  next
    assume "\<exists>x y. a # b # s = x @ ''..'' @ y"
    then obtain x y where xy: "a # b # s = x @ ''..'' @ y" by blast
    show "has_dot_dot (a # b # s)"
    proof (cases x)
      case Nil
      then show ?thesis using xy by simp
    next
      case (Cons c x')
      then have "b # s = x' @ ''..'' @ y" using xy by simp
      then have "has_dot_dot (b # s)" using 1 by blast
      then show ?thesis by simp
    qed
  qed
qed (auto simp: Cons_eq_append_conv)

text \<open>A verified entry, in terms of the path and not of its bytes.\<close>

definition safe_display_path :: "string \<Rightarrow> bool" where
  "safe_display_path path \<longleftrightarrow>
     path \<noteq> [] \<and> hd path \<noteq> CHR ''/'' \<and> \<not> (\<exists>a b. path = a @ ''..'' @ b) \<and> CHR 0x5C \<notin> set path
     \<and> length path \<le> 4096"

definition entry_ok :: "publication_file_claim \<Rightarrow> bool" where
  "entry_ok f \<longleftrightarrow>
     validate_opaque_id (pf_id f) = Inr () \<and> validate_display_path (pf_display_path f) = Inr ()
     \<and> safe_display_path (pf_display_path f) \<and> is_sha256_hex (pf_sha256 f) \<and> is_known_v1_role (pf_role f)"

lemma display_path_safe:
  assumes "validate_display_path s = Inr u"
  shows "safe_display_path s"
proof -
  obtain c r where s: "s = c # r" "ascii_alphanumeric c \<or> c = CHR ''_''" "length s \<le> 4096"
    "list_all (\<lambda>c. ascii_alphanumeric c \<or> c \<in> {CHR ''_'', CHR ''.'', CHR ''/'', CHR ''-''}) r"
    "\<not> has_dot_dot s"
    using assms by (auto simp: validate_display_path_def split: list.splits)
  have other: "\<not> ascii_alphanumeric CHR 0x5C" "\<not> ascii_alphanumeric CHR ''/''"
    by (simp_all add: ascii_alphanumeric_def is_ascii_digit_def byte_def)
  have "CHR 0x5C \<notin> set s" using s(1,2,4) other by (auto simp: list_all_iff)
  then show ?thesis using s other by (auto simp: safe_display_path_def has_dot_dot_iff)
qed

definition sizes_of :: "publication_file_claim list \<Rightarrow> nat" where
  "sizes_of fs = sum_list (map (\<lambda>f. unat (pf_size_bytes f)) fs)"

lemma verify_file_Inr:
  assumes "verify_file acc f = Inr acc'"
  shows "entry_ok f" and "pf_id f \<notin> set (ft_ids acc)" and "pf_display_path f \<notin> set (ft_paths acc)"
    and "ft_ids acc' = pf_id f # ft_ids acc" and "ft_paths acc' = pf_display_path f # ft_paths acc"
    and "unat (ft_total acc') = unat (ft_total acc) + unat (pf_size_bytes f)"
    and "unat (ft_video acc') = unat (ft_video acc)
      + (if is_video_role (pf_role f) then unat (pf_size_bytes f) else 0)"
    and "ft_files acc' = ft_files acc @ [verified_of f]"
  using assms
  by (auto simp: verify_file_def entry_ok_def is_sha256_hex_def is_lower_hex_def
      intro: display_path_safe dest: checked_add_SomeD(1) split: if_splits)

lemma verify_files_Inr:
  assumes "verify_files acc fs = Inr acc'"
  shows "list_all entry_ok fs
    \<and> distinct (map pf_id fs) \<and> set (map pf_id fs) \<inter> set (ft_ids acc) = {}
    \<and> distinct (map pf_display_path fs) \<and> set (map pf_display_path fs) \<inter> set (ft_paths acc) = {}
    \<and> unat (ft_total acc') = unat (ft_total acc) + sizes_of fs
    \<and> unat (ft_video acc') = unat (ft_video acc) + sizes_of (filter (\<lambda>f. is_video_role (pf_role f)) fs)
    \<and> ft_files acc' = ft_files acc @ map verified_of fs"
  using assms
proof (induction fs arbitrary: acc)
  case Nil
  then show ?case by (simp add: sizes_of_def)
next
  case (Cons f fs)
  obtain mid where mid: "verify_file acc f = Inr mid" "verify_files mid fs = Inr acc'"
    using Cons.prems by auto
  show ?case using Cons.IH [OF mid(2)] verify_file_Inr [OF mid(1)] by (auto simp: sizes_of_def)
qed

lemma verify_publicationE:
  assumes "verify_publication env e sid fp = Inr p"
  obtains pk sg q totals where
    "ensure_publication_key_identity_matches fp (pe_key_fingerprint e) = Inr ()"
    "pe_session_id e = sid" "verify_key_material env e = Inr (pk, sg)"
    "pv_verify env (pe_payload e) sg pk = Inr ()" "verify_schema env (pe_payload e) = Inr q"
    "verify_scalars e q = Inr ()" "verify_inventory e q = Inr ()"
    "verify_files no_files (sp_files q) = Inr totals"
    "ft_total totals = sp_total_bytes q" "ft_video totals = sp_video_bytes q"
    "p = \<lparr>vp_session_id = sp_session_id q, vp_revision = sp_revision q,
          vp_captured_at = sp_captured_at q, vp_published_at = sp_published_at q,
          vp_duration = sp_duration q, vp_total_bytes = sp_total_bytes q,
          vp_video_bytes = sp_video_bytes q, vp_key_fingerprint = sha256_identity env pk,
          vp_payload = pe_payload e, vp_signature = sg, vp_public_key = pk,
          vp_files = ft_files totals\<rparr>"
  using assms unfolding verify_publication_def by (auto split: prod.splits)

lemma inventory_echo:
  assumes "verify_inventory e q = Inr ()"
  shows "sp_files q = pe_files e" and "sp_files q \<noteq> []"
proof -
  have len: "length (sp_files q) = length (pe_files e)"
    and m: "list_all (\<lambda>(a, b). file_entry_matches a b) (zip (sp_files q) (pe_files e))"
    and ne: "sp_files q \<noteq> []"
    using assms by (auto simp: verify_inventory_def)
  have "a = b" if "file_entry_matches a b" for a b
    using that by (cases a; cases b) (simp add: file_entry_matches_def)
  then show "sp_files q = pe_files e"
    using len m by (intro nth_equalityI) (auto simp: list_all_length)
  show "sp_files q \<noteq> []" by (rule ne)
qed

lemma schema_Inr:
  assumes "verify_schema env raw = Inr q"
  obtains v content where "pv_from_str env raw = Some v" "audit_text (pv_decode env) raw = Some (Inr ())"
    "payload_object_for_revision v = Inr content"
    "sp_revision q = sha256_identity env (write_canonical_json content)"
    "pv_from_value env v = Some q" "sp_schema_version q = 1" "sp_integrity_ok q"
proof -
  obtain a where a: "audit_text (pv_decode env) raw = Some a" using audit_text_some
    by blast
  show thesis using assms that a by (auto simp: verify_schema_def parse_strict_json_def)
qed


section \<open>Plans become job specifications\<close>

lemma not_blank_ascii:
  assumes "s \<noteq> []" "32 < byte (hd s)" "byte (hd s) < 127"
  shows "\<not> is_blank s"
proof (cases s rule: is_blank.cases)
  case (4 c d e cs)
  then show ?thesis using assms by (auto simp: white1_def white2_def white3_def byte_def)
qed (use assms in \<open>auto simp: white1_def white2_def byte_def\<close>)

lemma word_char_range:
  "ascii_alphanumeric c \<or> c = CHR ''_'' \<or> c = CHR ''-'' \<Longrightarrow> 32 < byte c \<and> byte c < 127"
  by (auto simp: ascii_alphanumeric_def is_ascii_digit_def byte_def)

lemma word_char_not_blank:
  assumes "ascii_alphanumeric c \<or> c = CHR ''_'' \<or> c = CHR ''-''"
  shows "\<not> is_blank (c # r)"
  using word_char_range [OF assms] by (intro not_blank_ascii) simp_all

lemma opaque_id_not_blank:
  assumes "validate_opaque_id s = Inr u"
  shows "\<not> is_blank s"
proof -
  obtain c r where "s = c # r" "ascii_alphanumeric c \<or> c = CHR ''_'' \<or> c = CHR ''-''"
    using assms by (cases s) (auto simp: validate_opaque_id_def)
  then show ?thesis using word_char_not_blank by simp
qed

lemma display_path_not_blank:
  assumes "validate_display_path s = Inr u"
  shows "\<not> is_blank s"
proof -
  obtain c r where "s = c # r" "ascii_alphanumeric c \<or> c = CHR ''_''"
    using assms by (cases s) (auto simp: validate_display_path_def)
  then show ?thesis using word_char_not_blank by blast
qed

lemma verified_of_ids:
  "map (vf_file_id \<circ> verified_of) fs = map pf_id fs"
  "map (vf_display_path \<circ> verified_of) fs = map pf_display_path fs"
  by (simp_all add: verified_of_def)

lemma revision_not_blank:
  assumes "validate_revision s = Inr u"
  shows "\<not> is_blank s"
proof -
  obtain hex where "strip_prefix ''sha256:'' s = Some hex"
    using assms by (auto simp: validate_revision_def split: option.splits)
  then have "s = ''sha256:'' @ hex" by (rule strip_prefix_SomeD)
  then show ?thesis by (intro not_blank_ascii) (simp_all add: byte_def)
qed

lemma decode_hex_length: "decode_lower_hex_exact s n = Inr b \<Longrightarrow> length b = n"
  by (auto simp: decode_lower_hex_exact_def length_hex_pairs split: if_splits)

lemma audited_not_empty: "audit_text decode s = Some (Inr ()) \<Longrightarrow> s \<noteq> []"
  by (auto simp: audit_text_def audit_value_skip bind_eq_Some_conv dest!: audit_consumes value_first)

text \<open>What the constructors of a job specification ask of a verified publication.\<close>

definition publishable :: "verified_publication \<Rightarrow> bool" where
  "publishable p \<longleftrightarrow>
     \<not> is_blank (vp_session_id p) \<and> \<not> is_blank (vp_revision p) \<and> vp_payload p \<noteq> []
     \<and> length (vp_signature p) = 64 \<and> length (vp_public_key p) = 32
     \<and> list_all (\<lambda>f. \<not> is_blank (vf_file_id f) \<and> \<not> is_blank (vf_display_path f)
                     \<and> is_sha256_hex (vf_sha256 f)) (vp_files p)
     \<and> vp_files p \<noteq> [] \<and> distinct (map vf_file_id (vp_files p))"

lemma verified_publishable:
  assumes "verify_publication env e sid fp = Inr p"
  shows "publishable p"
  using assms
proof (rule verify_publicationE)
  fix pk sg q totals
  assume mat: "verify_key_material env e = Inr (pk, sg)"
    and schema: "verify_schema env (pe_payload e) = Inr q"
    and scal: "verify_scalars e q = Inr ()" and inv: "verify_inventory e q = Inr ()"
    and fs: "verify_files no_files (sp_files q) = Inr totals"
    and p: "p = \<lparr>vp_session_id = sp_session_id q, vp_revision = sp_revision q,
          vp_captured_at = sp_captured_at q, vp_published_at = sp_published_at q,
          vp_duration = sp_duration q, vp_total_bytes = sp_total_bytes q,
          vp_video_bytes = sp_video_bytes q, vp_key_fingerprint = sha256_identity env pk,
          vp_payload = pe_payload e, vp_signature = sg, vp_public_key = pk,
          vp_files = ft_files totals\<rparr>"
  have "length pk = 32" "length sg = 64"
    using mat by (auto simp: verify_key_material_def dest: decode_hex_length)
  moreover have "\<not> is_blank (sp_session_id q)" "\<not> is_blank (sp_revision q)"
    using scal by (auto simp: verify_scalars_def dest: opaque_id_not_blank revision_not_blank)
  moreover have "pe_payload e \<noteq> []"
    by (rule schema_Inr [OF schema]) (rule audited_not_empty)
  moreover have "list_all entry_ok (sp_files q)" "distinct (map pf_id (sp_files q))"
    "ft_files totals = map verified_of (sp_files q)"
    using verify_files_Inr [OF fs] by (simp_all add: no_files_def)
  ultimately show ?thesis
    using inventory_echo(2) [OF inv]
    by (auto simp: publishable_def p list_all_iff entry_ok_def verified_of_ids)
      (auto simp: verified_of_def dest: opaque_id_not_blank display_path_not_blank)
qed

definition job_file_of :: "verified_file \<Rightarrow> job_file_spec" where
  "job_file_of f = \<lparr>jf_file_id = vf_file_id f, jf_display_path = vf_display_path f,
     jf_size_bytes = vf_size_bytes f, jf_sha256 = vf_sha256 f\<rparr>"

lemma job_files_Inr:
  "list_all (\<lambda>f. \<not> is_blank (vf_file_id f) \<and> \<not> is_blank (vf_display_path f) \<and> is_sha256_hex (vf_sha256 f)) fs
     \<Longrightarrow> job_files fs = Inr (map job_file_of fs)"
  by (induction fs) (auto simp: new_job_file_spec_def require_non_empty_def require_sha256_hex_def
      job_file_of_def simp del: and_then_Inr)

text \<open>Plans the two constructors make.\<close>

definition plan_ok :: "verified_transfer_plan \<Rightarrow> bool" where
  "plan_ok plan \<longleftrightarrow>
     tp_requested plan \<noteq> [] \<and> distinct (tp_requested plan)
     \<and> list_all (\<lambda>i. i < length (vp_files (tp_publication plan))) (tp_requested plan)
     \<and> tp_full_session plan = (length (tp_requested plan) = length (vp_files (tp_publication plan)))"

lemma into_job_spec_Inr:
  assumes pub: "publishable (tp_publication plan)" and ok: "plan_ok plan" and dev: "\<not> is_blank device"
  shows "\<exists>spec. into_job_spec plan device label = Inr spec
    \<and> requested_files spec = map job_file_of (plan_files plan)
    \<and> js_session_files spec = map job_file_of (vp_files (tp_publication plan))
    \<and> js_full_session spec = tp_full_session plan
    \<and> pm_payload (js_publication spec) = vp_payload (tp_publication plan)
    \<and> pm_signature (js_publication spec) = vp_signature (tp_publication plan)"
proof -
  let ?p = "tp_publication plan"
  define identity where "identity = \<lparr>ji_device_id = device, ji_session_id = vp_session_id ?p,
    ji_revision = vp_revision ?p\<rparr>"
  define material where "material = \<lparr>pm_revision = vp_revision ?p, pm_payload = vp_payload ?p,
    pm_signature = vp_signature ?p, pm_public_key = vp_public_key ?p\<rparr>"
  let ?files = "map job_file_of (vp_files ?p)"
  define spec where "spec = \<lparr>js_identity = identity, js_publication = material,
    js_session_files = ?files, js_requested = tp_requested plan,
    js_full_session = tp_full_session plan, js_date_label = label\<rparr>"
  have i: "new_job_identity device (vp_session_id ?p) (vp_revision ?p) = Inr identity"
    using pub dev by (simp add: new_job_identity_def require_non_empty_def publishable_def identity_def
        del: and_then_Inr)
  have m: "new_publication_material (vp_revision ?p) (vp_payload ?p) (vp_signature ?p) (vp_public_key ?p)
      = Inr material"
    using pub by (simp add: new_publication_material_def require_non_empty_def require_len_def
        publishable_def material_def del: and_then_Inr)
  have f: "job_files (vp_files ?p) = Inr ?files"
    using pub by (intro job_files_Inr) (simp add: publishable_def)
  have idx: "\<forall>i \<in> set (tp_requested plan). i < length (vp_files ?p)"
    using ok by (simp add: plan_ok_def list_all_iff)
  have ids: "map jf_file_id ?files = map vf_file_id (vp_files ?p)" by (simp add: job_file_of_def)
  have req: "requested_files spec = map job_file_of (plan_files plan)"
    using idx by (auto simp: requested_files_def spec_def plan_files_def)
  have "job_spec_ok spec"
    using pub ok unfolding job_spec_ok_def spec_def
    by (auto simp: publishable_def plan_ok_def identity_def material_def job_file_of_def comp_def)
  moreover have "map jf_file_id (requested_files spec) = map (\<lambda>i. vf_file_id (vp_files ?p ! i)) (tp_requested plan)"
    by (simp add: req plan_files_def job_file_of_def)
  ultimately have "new_job_spec identity material ?files
      (map (\<lambda>i. vf_file_id (vp_files ?p ! i)) (tp_requested plan)) (tp_full_session plan) label = Inr spec"
    unfolding new_job_spec_Inr by (simp add: spec_def)
  then have "into_job_spec plan device label = Inr spec"
    by (simp add: into_job_spec_def Let_def i m f del: and_then_Inr)
  then show ?thesis using req by (intro exI [of _ spec]) (simp add: spec_def material_def)
qed

lemma full_plan_ok: "vp_files p \<noteq> [] \<Longrightarrow> plan_ok (full_download_plan p)"
  by (simp add: plan_ok_def full_download_plan_def list_all_iff)

lemma plan_indices_Inr:
  assumes "distinct (map vf_file_id files)"
  shows "plan_indices files acc wanted = Inr indices \<longleftrightarrow>
     (\<exists>new. indices = acc @ new \<and> map (\<lambda>i. vf_file_id (files ! i)) new = wanted
        \<and> (\<forall>i \<in> set new. i < length files) \<and> distinct new \<and> set acc \<inter> set new = {})"
proof (induction wanted arbitrary: acc)
  case Nil
  show ?case by auto
next
  case (Cons fid wanted)
  show ?case
  proof (cases "position (\<lambda>f. vf_file_id f = fid) files")
    case None
    then have "\<forall>x \<in> set files. vf_file_id x \<noteq> fid" by (simp add: position_None)
    then show ?thesis using None by (auto simp: map_eq_Cons_conv)
  next
    case (Some k)
    then have k: "k < length files" "vf_file_id (files ! k) = fid" by (auto simp: position_Some)
    have only: "i < length files \<Longrightarrow> vf_file_id (files ! i) = fid \<longleftrightarrow> i = k" for i
      using distinct_map_nth [OF assms] k by auto
    have "(\<exists>new. indices = acc @ new \<and> map (\<lambda>i. vf_file_id (files ! i)) new = fid # wanted
        \<and> (\<forall>i \<in> set new. i < length files) \<and> distinct new \<and> set acc \<inter> set new = {}) \<longleftrightarrow>
      k \<notin> set acc \<and> (\<exists>new. indices = (acc @ [k]) @ new \<and> map (\<lambda>i. vf_file_id (files ! i)) new = wanted
        \<and> (\<forall>i \<in> set new. i < length files) \<and> distinct new \<and> set (acc @ [k]) \<inter> set new = {})"
      (is "?R \<longleftrightarrow> ?S")
    proof
      assume ?R
      then obtain z zs where new: "indices = acc @ z # zs" "vf_file_id (files ! z) = fid"
        "map (\<lambda>i. vf_file_id (files ! i)) zs = wanted" "\<forall>i \<in> set (z # zs). i < length files"
        "distinct (z # zs)" "set acc \<inter> set (z # zs) = {}"
        by (auto simp only: map_eq_Cons_conv)
      then have "z = k" using only [of z] by simp
      with new show ?S by auto
    next
      assume ?S
      then obtain zs where "k \<notin> set acc" "indices = acc @ k # zs"
        "map (\<lambda>i. vf_file_id (files ! i)) zs = wanted" "\<forall>i \<in> set zs. i < length files" "distinct zs"
        "set (acc @ [k]) \<inter> set zs = {}" by auto
      then show ?R using k by (intro exI [of _ "k # zs"]) auto
    qed
    then show ?thesis by (simp add: Some Cons.IH)
  qed
qed

lemma subset_plan_Inr:
  assumes "distinct (map vf_file_id (vp_files p))" "subset_download_plan p ids = Inr plan"
  shows "plan_ok plan" and "map vf_file_id (plan_files plan) = ids" and "tp_publication plan = p"
proof -
  obtain indices where i: "plan_indices (vp_files p) [] ids = Inr indices" "ids \<noteq> []"
    "plan = \<lparr>tp_publication = p, tp_requested = indices,
       tp_full_session = (length indices = length (vp_files p))\<rparr>"
    using assms(2) by (auto simp: subset_download_plan_def)
  have new: "map (\<lambda>i. vf_file_id (vp_files p ! i)) indices = ids"
    "\<forall>i \<in> set indices. i < length (vp_files p)" "distinct indices"
    using i(1) plan_indices_Inr [OF assms(1), of "[]" ids indices] by auto
  then show "plan_ok plan" using i(2,3) by (auto simp: plan_ok_def list_all_iff)
  show "map vf_file_id (plan_files plan) = ids" using new i(3) by (simp add: plan_files_def comp_def)
  show "tp_publication plan = p" using i(3) by simp
qed

text \<open>
  C33. A verified publication always becomes a job: the full plan, and every subset plan that was
  accepted, make a job specification for every device with a name. It carries the signed bytes and
  signature, the whole signed inventory, and asks for exactly the files of the plan with the signed
  sizes and digests; the full plan asks for all of them.
\<close>

theorem verified_plans_become_jobs:
  assumes "verify_publication env e sid fp = Inr p" and "\<not> is_blank device"
    and "plan = full_download_plan p \<or> subset_download_plan p ids = Inr plan"
  shows "\<exists>spec. into_job_spec plan device label = Inr spec
    \<and> requested_files spec = map job_file_of (plan_files plan)
    \<and> js_session_files spec = map job_file_of (vp_files p)
    \<and> (plan = full_download_plan p \<longrightarrow> plan_files plan = vp_files p \<and> js_full_session spec)
    \<and> (plan \<noteq> full_download_plan p \<longrightarrow> map jf_file_id (requested_files spec) = ids)
    \<and> pm_payload (js_publication spec) = pe_payload e"
proof -
  have pub: "publishable p" by (rule verified_publishable [OF assms(1)])
  then have ids: "vp_files p \<noteq> []" "distinct (map vf_file_id (vp_files p))"
    by (simp_all add: publishable_def)
  have payload: "vp_payload p = pe_payload e" using assms(1) by (rule verify_publicationE) simp
  have ok: "plan_ok plan" "tp_publication plan = p"
    using assms(3) full_plan_ok [OF ids(1)] subset_plan_Inr [OF ids(2)]
    by (auto simp: full_download_plan_def)
  obtain spec where spec: "into_job_spec plan device label = Inr spec"
    "requested_files spec = map job_file_of (plan_files plan)"
    "js_session_files spec = map job_file_of (vp_files p)"
    "js_full_session spec = tp_full_session plan" "pm_payload (js_publication spec) = vp_payload p"
    using into_job_spec_Inr [OF _ ok(1) assms(2)] pub ok(2) by blast
  have full: "plan_files plan = vp_files p \<and> tp_full_session plan" if "plan = full_download_plan p"
    by (simp add: that plan_files_def full_download_plan_def map_nth)
  have subset: "map jf_file_id (requested_files spec) = ids" if "plan \<noteq> full_download_plan p"
    using that assms(3) subset_plan_Inr(2) [OF ids(2)] by (auto simp: spec(2) job_file_of_def comp_def)
  show ?thesis using spec payload full subset by (intro exI [of _ spec]) simp
qed

lemma map_insert_ok:
  "\<forall>m \<in> set ms. member_ok m \<Longrightarrow> member_ok (k, v) \<Longrightarrow> \<forall>m \<in> set (map_insert k v ms). member_ok m"
  by (induction k v ms rule: map_insert.induct) auto

lemma scalars_ok: "list_all (\<lambda>c. byte c < 128) s \<Longrightarrow> list_all scalar_value (scalars s)"
  by (induction s) (auto simp: scalars_def scalar_value_def byte_def)

lemma collect_fields_ok:
  "collect_fields ms names acc = Inr content \<Longrightarrow> \<forall>m \<in> set ms. member_ok m \<Longrightarrow>
     \<forall>m \<in> set acc. member_ok m \<Longrightarrow> list_all (\<lambda>s. list_all (\<lambda>c. byte c < 128) s) names \<Longrightarrow>
     \<forall>m \<in> set content. member_ok m"
proof (induction ms names acc rule: collect_fields.induct)
  case (2 ms name names acc)
  obtain v where v: "map_of ms (scalars name) = Some v"
    "collect_fields ms names (map_insert (scalars name) v acc) = Inr content"
    using 2(2) by auto
  have "member_ok (scalars name, v)"
    using map_of_SomeD [OF v(1)] 2(3,5) scalars_ok [of name] by (auto simp: member_ok_def)
  then have "\<forall>m \<in> set (map_insert (scalars name) v acc). member_ok m" by (rule map_insert_ok [OF 2(4)])
  then show ?case by (rule 2(1) [OF v(2) 2(3)]) (use 2(5) in simp)
qed simp

lemma content_ok:
  assumes "json_ok v" "payload_object_for_revision v = Inr content"
  shows "json_ok content"
proof -
  obtain ms ms' where "v = JObject ms" "collect_fields ms revision_fields [] = Inr ms'" "content = JObject ms'"
    using assms(2) by (cases v) (auto simp: payload_object_for_revision_def as_object_def)
  moreover then have "\<forall>m \<in> set ms'. member_ok m"
    using assms(1) collect_fields_ok [of ms revision_fields "[]" ms'] json_ok_object [of ms]
    by (simp add: revision_fields_def byte_def)
  ultimately show ?thesis using json_ok_object by simp
qed

lemma sha256_identity_eq: "sha256_identity env a = sha256_identity env b \<longleftrightarrow> pv_sha256 env a = pv_sha256 env b"
  using hex_pairs_to_hex by (auto simp: sha256_identity_def) metis

lemma verified_content:
  assumes "verify_publication env e sid fp = Inr p"
  obtains v content where "pv_from_str env (pe_payload e) = Some v"
    "payload_object_for_revision v = Inr content"
    "vp_revision p = sha256_identity env (write_canonical_json content)"
  using assms by (rule verify_publicationE) (auto elim!: schema_Inr intro: that)

text \<open>
  A revision names one content: unless the digests of the two canonical contents collide, two
  verified publications with the same revision have the same content value (session, capture time,
  totals and files), whatever else differs in their signed bytes.
\<close>

theorem revision_names_one_content:
  assumes "verify_publication env e sid fp = Inr p" "verify_publication env e' sid' fp' = Inr p'"
    and "vp_revision p = vp_revision p'"
    and sound_values: "\<And>raw v. pv_from_str env raw = Some v \<Longrightarrow> json_ok v"
    and no_collision: "\<And>v v' c c'. pv_from_str env (pe_payload e) = Some v \<Longrightarrow>
          pv_from_str env (pe_payload e') = Some v' \<Longrightarrow> payload_object_for_revision v = Inr c \<Longrightarrow>
          payload_object_for_revision v' = Inr c' \<Longrightarrow>
          pv_sha256 env (write_canonical_json c) = pv_sha256 env (write_canonical_json c') \<Longrightarrow>
          write_canonical_json c = write_canonical_json c'"
  shows "\<exists>v v' content. pv_from_str env (pe_payload e) = Some v \<and> pv_from_str env (pe_payload e') = Some v'
    \<and> payload_object_for_revision v = Inr content \<and> payload_object_for_revision v' = Inr content"
proof -
  obtain v c where v: "pv_from_str env (pe_payload e) = Some v" "payload_object_for_revision v = Inr c"
    "vp_revision p = sha256_identity env (write_canonical_json c)" by (rule verified_content [OF assms(1)])
  obtain v' c' where v': "pv_from_str env (pe_payload e') = Some v'" "payload_object_for_revision v' = Inr c'"
    "vp_revision p' = sha256_identity env (write_canonical_json c')" by (rule verified_content [OF assms(2)])
  have "pv_sha256 env (write_canonical_json c) = pv_sha256 env (write_canonical_json c')"
    using v(3) v'(3) assms(3) sha256_identity_eq by metis
  then have "write_canonical_json c = write_canonical_json c'"
    by (rule no_collision [OF v(1) v'(1) v(2) v'(2)])
  then have "c = c'"
    using reads_uniquelyD [OF canonical_unique [OF content_ok [OF sound_values [OF v(1)] v(2)]]
        content_ok [OF sound_values [OF v'(1)] v'(2)], of "[]" "[]"]
    by (simp add: stops_def)
  then show ?thesis using v v' by blast
qed

section \<open>A publication that is accepted\<close>

definition sample_claim :: publication_file_claim where
  "sample_claim = \<lparr>pf_id = ''imu0'', pf_display_path = ''a/imu.csv'', pf_role = ''imu'', pf_size_bytes = 5,
     pf_sha256 = replicate 64 CHR ''0'', pf_media_type = ''text/csv''\<rparr>"

definition sample_digest :: string where
  "sample_digest = ''sha256:'' @ replicate 64 CHR ''0''"

definition sample_payload :: signed_payload where
  "sample_payload = \<lparr>sp_schema_version = 1, sp_session_id = ''s1'', sp_revision = sample_digest,
     sp_captured_at = ''2024-01-01T00:00:00Z'', sp_published_at = ''2024-01-01T00:00:00Z'',
     sp_duration = F64Finite 2, sp_total_bytes = 5, sp_video_bytes = 0, sp_integrity_ok = True,
     sp_files = [sample_claim]\<rparr>"

definition sample_value :: json where
  "sample_value = JObject (map (\<lambda>n. (scalars n, JNull)) revision_fields)"

definition sample_pub_env :: publication_env where
  "sample_pub_env = \<lparr>pv_sha256 = (\<lambda>_. replicate 32 CHR 0x00), pv_verify = (\<lambda>_ _ _. Inr ()),
     pv_decode = sample_decoder, pv_from_str = (\<lambda>_. Some sample_value),
     pv_from_value = (\<lambda>_. Some sample_payload)\<rparr>"

definition sample_envelope :: publication_envelope where
  "sample_envelope = \<lparr>pe_session_id = ''s1'', pe_revision = sample_digest,
     pe_captured_at = ''2024-01-01T00:00:00Z'', pe_published_at = ''2024-01-01T00:00:00Z'',
     pe_duration = F64Finite 2, pe_total_bytes = 5, pe_video_bytes = 0, pe_file_count = 1,
     pe_files = [sample_claim], pe_payload = ''{}'', pe_signature_hex = replicate 128 CHR ''0'',
     pe_public_key_hex = replicate 64 CHR ''0'', pe_key_fingerprint = sample_digest\<rparr>"

lemma replicate_hex: "digest_to_hex (replicate n CHR 0x00) = replicate (2 * n) CHR ''0''"
proof -
  have "hex_digit 0 = CHR ''0''" by (simp add: hex_digit_def char_of_eq_iff take_bit_eq_mod)
  then show ?thesis by (induction n) (simp_all add: digest_to_hex_def)
qed

lemma zeros_hex: "list_all is_lower_hex_char (replicate n CHR ''0'')"
  by (induction n) (simp_all add: is_lower_hex_char_def is_ascii_digit_def)

lemma zeros_pairs: "hex_pairs (replicate (2 * n) CHR ''0'') = replicate n CHR 0x00"
  by (induction n) (simp_all add: hex_value_def is_ascii_digit_def char_of_def)

lemma sample_identity: "sha256_identity sample_pub_env x = sample_digest"
  using replicate_hex [of 32] by (simp add: sha256_identity_def sample_pub_env_def sample_digest_def)

lemma sample_fingerprint:
  "validate_publication_key_fingerprint sample_digest = Inr ()" "validate_revision sample_digest = Inr ()"
  by (simp_all only: validate_publication_key_fingerprint_def validate_revision_def sample_digest_def
      strip_prefix_append option.case is_lower_hex_def zeros_hex length_replicate checks_pass simp_thms)

lemma sample_audit: "audit_text decode ''{}'' = Some (Inr ())"
proof -
  have "json_value decode ''{}''" using jv_object_empty [of "[]"] by simp
  then have "audit decode (CallValue ''{}'') = Some (Inr [])"
    using audit_complete(1) [of decode "''{}''"] by (auto simp: stops_def)
  then show ?thesis unfolding audit_text_def audit_value_skip by (simp add: skip_ws_def)
qed

lemma sample_keys:
  "verify_key_material sample_pub_env sample_envelope = Inr (replicate 32 CHR 0x00, replicate 64 CHR 0x00)"
  using zeros_pairs [of 32] zeros_pairs [of 64]
  by (simp add: verify_key_material_def decode_lower_hex_exact_def sample_envelope_def is_lower_hex_def
      zeros_hex sample_identity reject_unless_def del: and_then_Inr)

lemma sample_content: "\<exists>c. payload_object_for_revision sample_value = Inr c"
  by (simp add: payload_object_for_revision_def sample_value_def as_object_def revision_fields_def
      scalars_def)

lemma sample_schema: "verify_schema sample_pub_env ''{}'' = Inr sample_payload"
proof -
  obtain c where c: "payload_object_for_revision sample_value = Inr c" using sample_content by blast
  have "map_of (map (\<lambda>n. (scalars n, JNull)) revision_fields) (scalars ''publication_signature'') = None"
    by (simp add: revision_fields_def scalars_def)
  then have "as_object sample_value = Some (map (\<lambda>n. (scalars n, JNull)) revision_fields)"
    "reject_unless (map_of (map (\<lambda>n. (scalars n, JNull)) revision_fields) (scalars ''publication_signature'')
       = None) m = Inr ()" for m
    by (simp_all add: sample_value_def as_object_def)
  moreover have "parse_strict_json sample_pub_env ''{}'' = Inr sample_value"
    by (simp add: parse_strict_json_def byte_def sample_audit validate_surrogate_escapes.simps
        sample_pub_env_def del: and_then_Inr)
  moreover have "pv_from_value sample_pub_env sample_value = Some sample_payload"
    by (simp add: sample_pub_env_def)
  moreover have "sp_schema_version sample_payload = 1" "sp_revision sample_payload = sample_digest"
    "sp_integrity_ok sample_payload" by (simp_all add: sample_payload_def)
  ultimately show ?thesis
    by (simp add: verify_schema_def c sample_identity reject_unless_def del: and_then_Inr)
qed

lemma sample_scalars: "verify_scalars sample_envelope sample_payload = Inr ()"
proof -
  have "parse_rfc3339_inner ''2024-01-01T00:00:00Z'' = Some 1704067200" using sample_instant by simp
  then show ?thesis
    by (simp add: verify_scalars_def sample_payload_def sample_envelope_def sample_fingerprint
        validate_opaque_id_def ascii_alphanumeric_def is_ascii_digit_def byte_def
        parse_rfc3339_seconds_def reject_unless_def del: and_then_Inr)
qed

lemma sample_inventory: "verify_inventory sample_envelope sample_payload = Inr ()"
  by (simp add: verify_inventory_def reject_unless_def sample_payload_def sample_envelope_def
      file_entry_matches_def)

lemma sample_files: "\<exists>totals. verify_files no_files (sp_files sample_payload) = Inr totals
    \<and> ft_total totals = 5 \<and> ft_video totals = 0"
  by (simp add: sample_payload_def sample_claim_def verify_file_def no_files_def validate_opaque_id_def
      validate_display_path_def validate_media_type_def ascii_alphanumeric_def is_ascii_digit_def byte_def
      zeros_hex is_lower_hex_def is_known_v1_role_def is_video_role_def checked_add_def)

lemma sample_verified: "\<exists>p. verify_publication sample_pub_env sample_envelope ''s1'' sample_digest = Inr p"
proof -
  obtain totals where t: "verify_files no_files (sp_files sample_payload) = Inr totals"
    "ft_total totals = 5" "ft_video totals = 0" using sample_files by blast
  have "ensure_publication_key_identity_matches sample_digest (pe_key_fingerprint sample_envelope) = Inr ()"
    by (simp add: ensure_publication_key_identity_matches_def sample_fingerprint sample_envelope_def
        del: and_then_Inr)
  moreover have "validate_opaque_id ''s1'' = Inr ()"
    by (simp add: validate_opaque_id_def ascii_alphanumeric_def is_ascii_digit_def byte_def)
  moreover have "pe_session_id sample_envelope = ''s1''" "pe_payload sample_envelope = ''{}''"
    "pv_verify sample_pub_env x y z = Inr ()" "sp_total_bytes sample_payload = 5"
    "sp_video_bytes sample_payload = 0" for x y z
    by (simp_all add: sample_envelope_def sample_pub_env_def sample_payload_def)
  ultimately show ?thesis
    by (simp add: verify_publication_def sample_keys sample_schema sample_scalars sample_inventory t
        reject_unless_def del: and_then_Inr)
qed

definition sample_publication :: verified_publication where
  "sample_publication =
     (case verify_publication sample_pub_env sample_envelope ''s1'' sample_digest of
        Inr p \<Rightarrow> p | Inl _ \<Rightarrow> undefined)"

lemma sample_verifies:
  "verify_publication sample_pub_env sample_envelope ''s1'' sample_digest = Inr sample_publication"
  using sample_verified by (auto simp: sample_publication_def)

lemma sample_value_ok: "pv_from_str sample_pub_env raw = Some v \<Longrightarrow> json_ok v"
  by (auto simp: sample_pub_env_def sample_value_def revision_fields_def scalars_def scalar_value_def)


theorem verified_plans_become_jobs_witness:
  "\<exists>spec. into_job_spec (full_download_plan sample_publication) ''pi'' ''today'' = Inr spec
    \<and> js_full_session spec"
  using verified_plans_become_jobs [OF sample_verifies, of "''pi''" "full_download_plan sample_publication"]
  by (auto simp: white1_def white2_def)

theorem revision_names_one_content_witness:
  "\<exists>v content. pv_from_str sample_pub_env ''{}'' = Some v \<and> payload_object_for_revision v = Inr content"
proof -
  have e: "pe_payload sample_envelope = ''{}''" by (simp add: sample_envelope_def)
  have same: "write_canonical_json c = write_canonical_json c'"
    if "pv_from_str sample_pub_env r = Some v" "pv_from_str sample_pub_env r' = Some v'"
      "payload_object_for_revision v = Inr c" "payload_object_for_revision v' = Inr c'" for r r' v v' c c'
    using that by (simp add: sample_pub_env_def)
  have "\<exists>v v' content. pv_from_str sample_pub_env (pe_payload sample_envelope) = Some v
      \<and> pv_from_str sample_pub_env (pe_payload sample_envelope) = Some v'
      \<and> payload_object_for_revision v = Inr content \<and> payload_object_for_revision v' = Inr content"
    by (rule revision_names_one_content [OF sample_verifies sample_verifies refl])
      (erule sample_value_ok, erule same)
  then show ?thesis unfolding e by blast
qed

end
