(* ===== verification/Target_Path.thy ===== *)
theory Target_Path
  imports Safe_Path
begin

text \<open>
  Where a downloaded file lives (\<open>library/download.rs\<close>, section 1): the checks on the opaque
  identifiers and on the signed display path, the target path made of them, and the names of the
  partial file and of its journal next to the target. A path is the list of its component names.
\<close>

section \<open>Identifier segments\<close>

datatype target_path_error =
    TargetEmpty
  | TargetNulByte
  | TargetDotDot
  | TargetReservedInternalName string
  | TargetPathSeparator
  | TargetDriveOrColon
  | TargetForbiddenWindowsCharacter
  | TargetReservedDeviceName string
  | TargetTrailingDotOrSpace
  | TargetEscapesRoot

definition staging_dir_name :: string where
  "staging_dir_name = ''.ylx-staging''"

definition revision_marker_name :: string where
  "revision_marker_name = ''.ylx-revision''"

definition selected_marker_name :: string where
  "selected_marker_name = ''.ylx-selected''"

definition eq_ignore_ascii_case :: "string \<Rightarrow> string \<Rightarrow> bool" where
  "eq_ignore_ascii_case a b \<longleftrightarrow> map to_ascii_lower a = map to_ascii_lower b"

definition internal_name :: "string \<Rightarrow> bool" where
  "internal_name s \<longleftrightarrow>
     eq_ignore_ascii_case s staging_dir_name \<or> eq_ignore_ascii_case s revision_marker_name
     \<or> eq_ignore_ascii_case s selected_marker_name"

definition forbidden_on_windows :: "char \<Rightarrow> bool" where
  "forbidden_on_windows c \<longleftrightarrow> of_char c < (32::nat) \<or> forbidden_char c"

definition validate_id_segment :: "string \<Rightarrow> target_path_error + unit" where
  "validate_id_segment segment =
     and_then (ensure (segment \<noteq> []) TargetEmpty) (\<lambda>_.
     and_then (ensure (CHR 0x00 \<notin> set segment) TargetNulByte) (\<lambda>_.
     and_then (ensure (segment \<notin> {''.'', ''..''}) TargetDotDot) (\<lambda>_.
     and_then (ensure (\<not> internal_name segment) (TargetReservedInternalName segment)) (\<lambda>_.
     and_then (ensure (CHR ''/'' \<notin> set segment \<and> CHR 0x5C \<notin> set segment) TargetPathSeparator) (\<lambda>_.
     and_then (ensure (CHR '':'' \<notin> set segment) TargetDriveOrColon) (\<lambda>_.
     and_then (ensure (\<not> list_ex forbidden_on_windows segment) TargetForbiddenWindowsCharacter) (\<lambda>_.
     (let upper = map to_ascii_upper segment;
          base = hd (split_at_char (CHR ''.'') upper)
      in and_then (ensure (base \<notin> set windows_reserved_names) (TargetReservedDeviceName segment)) (\<lambda>_.
         ensure (\<not> (ends_with (CHR ''.'') segment \<or> ends_with (CHR '' '') segment))
           TargetTrailingDotOrSpace)))))))))"

fun validate_id_segments :: "string list \<Rightarrow> target_path_error + unit" where
  "validate_id_segments [] = Inr ()"
| "validate_id_segments (s # ss) = and_then (validate_id_segment s) (\<lambda>_. validate_id_segments ss)"

definition validate_display_relative_path :: "string \<Rightarrow> target_path_error + unit" where
  "validate_display_relative_path relative_path =
     and_then (ensure (relative_path \<noteq> []) TargetEmpty) (\<lambda>_.
     and_then (ensure (CHR 0x5C \<notin> set relative_path) TargetPathSeparator) (\<lambda>_.
     validate_id_segments (split_at_char (CHR ''/'') relative_path)))"

section \<open>Target paths\<close>

definition normal_component :: "string \<Rightarrow> bool" where
  "normal_component c \<longleftrightarrow> c \<notin> {[], ''.'', ''..''}"

definition derive_target_path_for_file ::
    "string list \<Rightarrow> string \<Rightarrow> string \<Rightarrow> string \<Rightarrow> string option \<Rightarrow>
     target_path_error + string list" where
  "derive_target_path_for_file root device session file_id relative =
     and_then (validate_id_segment device) (\<lambda>_.
     and_then (validate_id_segment session) (\<lambda>_.
     and_then (validate_id_segment file_id) (\<lambda>_.
     (let session_root = root @ [device, session]
      in and_then
           (case relative of
              Some path \<Rightarrow>
                and_then (validate_display_relative_path path) (\<lambda>_.
                Inr (session_root @ split_at_char (CHR ''/'') path))
            | None \<Rightarrow> Inr (session_root @ [file_id])) (\<lambda>candidate.
         and_then (ensure (list_all normal_component (drop (length root) candidate)) TargetEscapesRoot) (\<lambda>_.
         Inr candidate))))))"

definition derive_target_path ::
    "string list \<Rightarrow> string \<Rightarrow> string \<Rightarrow> string \<Rightarrow> target_path_error + string list" where
  "derive_target_path root device session file_id =
     derive_target_path_for_file root device session file_id None"

text \<open>The partial file and its journal: a suffix on the last component.\<close>

definition with_suffix :: "string \<Rightarrow> string list \<Rightarrow> string list" where
  "with_suffix suffix path = butlast path @ [last path @ suffix]"

definition part_path :: "string list \<Rightarrow> string list" where
  "part_path target = with_suffix ''.part'' target"

definition journal_path :: "string list \<Rightarrow> string list" where
  "journal_path target = with_suffix ''.journal'' (part_path target)"

section \<open>Accepted segments\<close>

text \<open>A name that one entry of a directory can have on every supported system, and that is not one
  of the names the library keeps for itself.\<close>

definition portable_segment :: "string \<Rightarrow> bool" where
  "portable_segment s \<longleftrightarrow>
     normal_component s \<and> \<not> internal_name s
     \<and> CHR 0x00 \<notin> set s \<and> CHR ''/'' \<notin> set s \<and> CHR 0x5C \<notin> set s \<and> CHR '':'' \<notin> set s
     \<and> \<not> list_ex forbidden_on_windows s
     \<and> last s \<noteq> CHR ''.'' \<and> last s \<noteq> CHR '' ''
     \<and> hd (split_at_char (CHR ''.'') (map to_ascii_upper s)) \<notin> set windows_reserved_names"

lemma validate_id_segment_iff [simp]: "validate_id_segment s = Inr () \<longleftrightarrow> portable_segment s"
  unfolding validate_id_segment_def portable_segment_def normal_component_def Let_def ends_with_def
  by (simp only: and_then_Inr ensure_Inr) blast

lemma validate_id_segments_iff [simp]:
  "validate_id_segments ss = Inr () \<longleftrightarrow> (\<forall>s \<in> set ss. portable_segment s)"
  by (induction ss) simp_all

lemma split_member: "c \<in> set q \<Longrightarrow> c \<noteq> d \<Longrightarrow> \<exists>s \<in> set (split_at_char d q). c \<in> set s"
  by (induction q) (auto split: list.split)

lemma portable_normal: "portable_segment s \<Longrightarrow> normal_component s"
  by (simp add: portable_segment_def)

lemma portable_not_Nil: "\<not> portable_segment []"
  by (simp add: portable_segment_def normal_component_def)

lemma portable_no_backslash: "portable_segment s \<Longrightarrow> CHR 0x5C \<notin> set s"
  by (simp add: portable_segment_def)

lemma validate_display_relative_path_iff [simp]:
  "validate_display_relative_path p = Inr () \<longleftrightarrow> (\<forall>s \<in> set (split_at_char (CHR ''/'') p). portable_segment s)"
    (is "_ \<longleftrightarrow> ?portable")
proof -
  have "p \<noteq> []" if ?portable
    using that portable_not_Nil by (cases p) simp_all
  moreover have "CHR 0x5C \<notin> set p" if ?portable
    using that portable_no_backslash split_member [of "CHR 0x5C" p "CHR ''/''"] by blast
  ultimately show ?thesis
    by (simp add: validate_display_relative_path_def) blast
qed

lemma derive_target_Inr:
  "derive_target_path_for_file root device session file_id relative = Inr target \<longleftrightarrow>
     (let names = (case relative of Some p \<Rightarrow> split_at_char (CHR ''/'') p | None \<Rightarrow> [file_id])
      in portable_segment device \<and> portable_segment session \<and> portable_segment file_id
         \<and> target = root @ device # session # names \<and> (\<forall>s \<in> set names. portable_segment s))"
proof (cases relative)
  case None
  then show ?thesis
    by (simp add: derive_target_path_for_file_def Let_def) (use portable_normal in blast)
next
  case (Some p)
  then show ?thesis
    by (simp add: derive_target_path_for_file_def Let_def list_all_iff) (use portable_normal in blast)
qed

section \<open>Targets and their neighbours\<close>

lemma plain_names_resolve:
  "\<forall>s \<in> set names. normal_component s \<Longrightarrow> resolve_path dir names = dir @ names"
proof (induction names arbitrary: dir)
  case (Cons s names)
  then have "resolve_name dir s = dir @ [s]" by (simp add: normal_component_def)
  with Cons show ?case by (simp add: resolve_path_def)
qed (simp add: resolve_path_def)

text \<open>
  C38. A target path stays in its session: what is derived from accepted identifiers and an accepted
  display path resolves, name by name, below the directory of the device and session in the library,
  all its names are portable, none is a name the library keeps for itself, and two display paths
  have the same target only when they are equal.
\<close>

theorem target_stays_in_session:
  assumes "derive_target_path_for_file root device session file_id (Some path) = Inr target"
  shows "(\<exists>names. target = root @ device # session # names \<and> names \<noteq> []
      \<and> resolve_path root (device # session # names) = target
      \<and> (\<forall>s \<in> set (device # session # names). portable_segment s))
    \<and> (\<forall>file_id' path'. derive_target_path_for_file root device session file_id' (Some path') = Inr target
         \<longrightarrow> path' = path)"
proof (intro conjI allI impI)
  let ?names = "split_at_char (CHR ''/'') path"
  have p: "\<forall>s \<in> set (device # session # ?names). portable_segment s"
    and t: "target = root @ device # session # ?names"
    using assms by (simp_all add: derive_target_Inr Let_def)
  have "resolve_path root (device # session # ?names) = target"
    unfolding t by (rule plain_names_resolve) (use p portable_normal in blast)
  then show "\<exists>names. target = root @ device # session # names \<and> names \<noteq> []
      \<and> resolve_path root (device # session # names) = target
      \<and> (\<forall>s \<in> set (device # session # names). portable_segment s)"
    using t p split_at_char_not_Nil by blast
  fix file_id' path'
  assume "derive_target_path_for_file root device session file_id' (Some path') = Inr target"
  then have "split_at_char (CHR ''/'') path' = ?names" using t by (simp add: derive_target_Inr Let_def)
  then show "path' = path" using join_split by metis
qed

lemma split_suffix:
  "d \<notin> set q \<Longrightarrow> split_at_char d (p @ q) = butlast (split_at_char d p) @ [last (split_at_char d p) @ q]"
proof (induction p)
  case (Cons c p)
  then show ?case
    using split_at_char_not_Nil [of d p] by (cases "split_at_char d p") (auto split: list.split)
qed (simp add: split_at_char_no_sep)

lemma hd_split: "hd (split_at_char d (p @ d # q)) = hd (split_at_char d p)"
proof (induction p)
  case (Cons c p)
  then show ?case
    using split_at_char_not_Nil [of d p] split_at_char_not_Nil [of d "p @ d # q"]
    by (cases "split_at_char d p"; cases "split_at_char d (p @ d # q)") auto
qed simp

lemma part_suffix_letters:
  "map to_ascii_upper ''.part'' = ''.PART''" "map to_ascii_lower ''.part'' = ''.part''"
  by (simp_all add: to_ascii_upper_def to_ascii_lower_def char_of_eq_iff take_bit_eq_mod)

lemma no_internal_part: "\<not> internal_name (s @ ''.part'')"
proof -
  have "last (map to_ascii_lower (s @ ''.part'')) = CHR ''t''"
    using part_suffix_letters(2) by simp
  moreover have "last (map to_ascii_lower n) \<noteq> CHR ''t''"
    if "n \<in> {staging_dir_name, revision_marker_name, selected_marker_name}" for n
    using that by (auto simp: staging_dir_name_def revision_marker_name_def selected_marker_name_def
        to_ascii_lower_def char_of_eq_iff take_bit_eq_mod)
  ultimately show ?thesis
    unfolding internal_name_def eq_ignore_ascii_case_def by (metis insertCI)
qed

lemma portable_part: "portable_segment s \<Longrightarrow> portable_segment (s @ ''.part'')"
proof -
  assume s: "portable_segment s"
  have "hd (split_at_char (CHR ''.'') (map to_ascii_upper (s @ ''.part'')))
      = hd (split_at_char (CHR ''.'') (map to_ascii_upper s))"
    using hd_split [of "CHR ''.''" "map to_ascii_upper s" "''PART''"] part_suffix_letters(1) by simp
  moreover have "\<not> list_ex forbidden_on_windows ''.part''"
    by (simp add: forbidden_on_windows_def forbidden_char_def)
  ultimately show ?thesis
    using s no_internal_part [of s] by (auto simp: portable_segment_def normal_component_def)
qed

text \<open>
  The partial file of one display path is the target of another: whenever a display path is
  accepted, the path with the suffix \<open>.part\<close> is accepted too, and its target is exactly the place
  where the bytes of the first one land while it is downloaded.
\<close>

theorem part_is_target_of_sibling:
  assumes "derive_target_path_for_file root device session file_id (Some path) = Inr target"
  shows "derive_target_path_for_file root device session file_id (Some (path @ ''.part'')) = Inr (part_path target)"
proof -
  define names where "names = split_at_char (CHR ''/'') path"
  have n: "names \<noteq> []" by (simp add: names_def)
  have t: "target = root @ device # session # names" and ids: "portable_segment device"
    "portable_segment session" "portable_segment file_id" and p: "\<forall>s \<in> set names. portable_segment s"
    using assms by (simp_all add: derive_target_Inr Let_def names_def)
  have split: "split_at_char (CHR ''/'') (path @ ''.part'') = butlast names @ [last names @ ''.part'']"
    by (simp add: names_def split_suffix)
  have "\<forall>s \<in> set (butlast names @ [last names @ ''.part'']). portable_segment s"
    using p n portable_part [of "last names"] by (auto dest: in_set_butlastD)
  then show ?thesis
    using ids n by (simp add: derive_target_Inr Let_def split part_path_def with_suffix_def t butlast_append)
qed

section \<open>A derived target\<close>

lemma sample_segments:
  "portable_segment ''pi-1''" "portable_segment ''s1''" "portable_segment ''f1''"
  "portable_segment ''video''" "portable_segment ''left.mp4''"
  by (simp_all add: portable_segment_def normal_component_def internal_name_def eq_ignore_ascii_case_def
      staging_dir_name_def revision_marker_name_def selected_marker_name_def to_ascii_lower_def
      to_ascii_upper_def forbidden_on_windows_def forbidden_char_def windows_reserved_names_def
      char_of_eq_iff take_bit_eq_mod)

lemma sample_target:
  "derive_target_path_for_file [''lib''] ''pi-1'' ''s1'' ''f1'' (Some ''video/left.mp4'')
     = Inr [''lib'', ''pi-1'', ''s1'', ''video'', ''left.mp4'']"
  by (simp add: derive_target_Inr Let_def sample_segments)

theorem target_stays_in_session_witness:
  "\<exists>names. resolve_path [''lib''] (''pi-1'' # ''s1'' # names) = [''lib'', ''pi-1'', ''s1'', ''video'', ''left.mp4'']"
  using target_stays_in_session [OF sample_target] by blast

theorem part_is_target_of_sibling_witness:
  "derive_target_path_for_file [''lib''] ''pi-1'' ''s1'' ''f1'' (Some ''video/left.mp4.part'')
     = Inr [''lib'', ''pi-1'', ''s1'', ''video'', ''left.mp4.part'']"
  using part_is_target_of_sibling [OF sample_target] by (simp add: part_path_def with_suffix_def)

end
