(* ===== verification/Download_Journal.thy ===== *)
theory Download_Journal
  imports Target_Path Job_Spec
begin

text \<open>
  The files of one download on disk (\<open>library/download.rs\<close>, sections 2 and 3;
  \<open>library/artifact.rs\<close>): the committed target, the partial file and its journal, the checkpoint
  operations on them, crash recovery, and the inspector that judges what is already there. Every
  call of the file system may fail; a run that fails at some call also is a run in which the
  process stopped there, since the code returns at once.
\<close>

section \<open>The disk\<close>

text \<open>
  Byte counts are natural numbers: they count bytes of files, so the additions of the sources
  cannot wrap. A target is a regular file, a symbolic link or something else. A journal file holds a
  record (what \<open>serde_json\<close> writes it reads back), text that is no record, or bytes that are not
  UTF-8. \<open>dk_synced\<close> counts the bytes of the partial file that have
  been flushed, \<open>dk_clock\<close> the calls of the file system.
\<close>

datatype target_node = TargetFile string | TargetLink | TargetDirectory

record download_journal =
  dj_confirmed_offset :: nat
  dj_expected_size :: nat
  dj_expected_sha256_hex :: string
  dj_etag :: "string option"

datatype journal_file = JournalRecord download_journal | JournalUnparsable | JournalNotUtf8

record disk =
  dk_target :: "target_node option"
  dk_part :: "string option"
  dk_synced :: nat
  dk_journal :: "journal_file option"
  dk_clock :: nat

datatype checkpoint_error =
    NonMonotonic nat nat
  | ExceedsDurableBytes nat nat
  | ImmutableField string

datatype download_error =
    DlPathSafety target_path_error
  | DlUnsafeDirectory
  | DlIo
  | DlSourceIo string
  | DlSource string
  | DlInvalidPlan
  | DlMalformedContentRange string
  | DlRangeMismatch nat nat
  | DlRangeNotSatisfiable
  | DlUnexpectedStatus nat
  | DlTooManyRestarts
  | DlShortBody nat nat
  | DlUnexpectedExtraBytes
  | DlSizeMismatch nat nat
  | DlHashMismatch string string
  | DlCheckpoint checkpoint_error

text \<open>
  The environment: which call of the file system fails, how many bytes a failing write leaves
  behind, what the checks of the directories (\<open>prepare_target_parent\<close>,
  \<open>check_case_insensitive_collision\<close>, \<open>reject_symlink\<close> of the partial file) answer, and SHA-256.
\<close>

record io_env =
  ie_fails :: "nat \<Rightarrow> bool"
  ie_torn :: "nat \<Rightarrow> nat"
  ie_directories :: "string list \<Rightarrow> download_error + unit"
  ie_sha256 :: "string \<Rightarrow> string"

section \<open>Operations that may fail\<close>

type_synonym 'a disk_op = "disk \<Rightarrow> disk \<times> (download_error + 'a)"

definition op_return :: "'a \<Rightarrow> 'a disk_op" where
  "op_return x d = (d, Inr x)"

definition op_fail :: "download_error \<Rightarrow> 'a disk_op" where
  "op_fail e d = (d, Inl e)"

definition op_result :: "download_error + 'a \<Rightarrow> 'a disk_op" where
  "op_result r d = (d, r)"

definition op_then :: "'a disk_op \<Rightarrow> ('a \<Rightarrow> 'b disk_op) \<Rightarrow> 'b disk_op" where
  "op_then m f d = (case m d of (d', Inl e) \<Rightarrow> (d', Inl e) | (d', Inr x) \<Rightarrow> f x d')"

definition tick :: "disk \<Rightarrow> disk" where
  "tick d = d\<lparr>dk_clock := Suc (dk_clock d)\<rparr>"

text \<open>One call of the file system: it fails without an effect, or does its work.\<close>

definition io :: "io_env \<Rightarrow> 'a disk_op \<Rightarrow> 'a disk_op" where
  "io env f d = (if ie_fails env (dk_clock d) then (tick d, Inl DlIo) else f (tick d))"

text \<open>The result of an operation instead of its failure: Rust's \<open>.ok()\<close> and \<open>let _ =\<close>.\<close>

definition op_catch :: "'a disk_op \<Rightarrow> (download_error + 'a) disk_op" where
  "op_catch m d = (case m d of (d', r) \<Rightarrow> (d', Inr r))"

text \<open>
  The weakest precondition of an operation for a postcondition of its result and one of its
  failures.
\<close>

definition wp :: "'a disk_op \<Rightarrow> ('a \<Rightarrow> disk \<Rightarrow> bool) \<Rightarrow> (disk \<Rightarrow> bool) \<Rightarrow> disk \<Rightarrow> bool" where
  "wp m Q E d = (case m d of (d', Inl e) \<Rightarrow> E d' | (d', Inr x) \<Rightarrow> Q x d')"

named_theorems wp_simps

lemma wp_return [wp_simps]: "wp (op_return x) Q E = Q x"
  by (simp add: fun_eq_iff wp_def op_return_def)

lemma wp_fail [wp_simps]: "wp (op_fail e) Q E = E"
  by (simp add: fun_eq_iff wp_def op_fail_def)

lemma wp_result [wp_simps]: "wp (op_result r) Q E = (case r of Inl e \<Rightarrow> E | Inr x \<Rightarrow> Q x)"
  by (simp add: fun_eq_iff wp_def op_result_def split: sum.split)

lemma wp_then [wp_simps]: "wp (op_then m f) Q E = wp m (\<lambda>x. wp (f x) Q E) E"
  by (simp add: fun_eq_iff wp_def op_then_def split: prod.split sum.split)

lemma wp_io [wp_simps]:
  "wp (io env f) Q E d = (if ie_fails env (dk_clock d) then E (tick d) else wp f Q E (tick d))"
  by (simp add: wp_def io_def)

lemma wp_fun [wp_simps]: "wp (\<lambda>d. (g d, r d)) Q E d = (case r d of Inl e \<Rightarrow> E (g d) | Inr x \<Rightarrow> Q x (g d))"
  by (simp add: wp_def)

lemma wp_if [wp_simps]: "wp (if b then m else m') Q E = (if b then wp m Q E else wp m' Q E)"
  by simp

lemma wp_catch_io [wp_simps]:
  "wp (op_catch (io env (\<lambda>d. (g d, r d)))) Q E d =
     (if ie_fails env (dk_clock d) then Q (Inl DlIo) (tick d) else Q (r (tick d)) (g (tick d)))"
  by (simp add: wp_def op_catch_def io_def)

lemma wp_mono:
  "wp m Q E d \<Longrightarrow> (\<And>x d'. Q x d' \<Longrightarrow> Q' x d') \<Longrightarrow> (\<And>d'. E d' \<Longrightarrow> E' d') \<Longrightarrow> wp m Q' E' d"
  by (auto simp: wp_def split: prod.splits sum.splits)

lemma wp_runD: "wp m Q E d \<Longrightarrow> m d = (d', Inr x) \<Longrightarrow> Q x d'"
  by (simp add: wp_def)

lemma wp_failD: "wp m Q E d \<Longrightarrow> m d = (d', Inl e) \<Longrightarrow> E d'"
  by (simp add: wp_def)

lemma wp_catchI: "wp m (\<lambda>x. Q (Inr x)) (\<lambda>d'. \<forall>e. Q (Inl e) d') d \<Longrightarrow> wp (op_catch m) Q E d"
  by (auto simp: wp_def op_catch_def split: prod.splits sum.splits)

section \<open>The partial file and its journal\<close>

definition part_bytes :: "disk \<Rightarrow> string" where
  "part_bytes d = (case dk_part d of None \<Rightarrow> [] | Some p \<Rightarrow> p)"

text \<open>\<open>fs::metadata(part)\<close>, a missing file counting as empty.\<close>

definition part_length :: "io_env \<Rightarrow> nat disk_op" where
  "part_length env = io env (\<lambda>d. (d, Inr (length (part_bytes d))))"

definition read_journal :: "io_env \<Rightarrow> download_journal option disk_op" where
  "read_journal env =
     io env (\<lambda>d. (d, case dk_journal d of
                       None \<Rightarrow> Inr None
                     | Some (JournalRecord j) \<Rightarrow> Inr (Some j)
                     | Some JournalUnparsable \<Rightarrow> Inr None
                     | Some JournalNotUtf8 \<Rightarrow> Inl DlIo))"

text \<open>
  \<open>read_to_string\<close> fails on bytes that are not UTF-8; text that does not parse is no journal.
\<close>

lemma wp_read_journal [wp_simps]:
  "wp (read_journal env) Q E d =
     (if ie_fails env (dk_clock d) \<or> dk_journal d = Some JournalNotUtf8 then E (tick d)
      else Q (case dk_journal d of Some (JournalRecord j) \<Rightarrow> Some j | _ \<Rightarrow> None) (tick d))"
  by (auto simp: read_journal_def wp_simps tick_def split: option.split journal_file.split)

lemma wp_part_length [wp_simps]:
  "wp (part_length env) Q E d =
     (if ie_fails env (dk_clock d) then E (tick d) else Q (length (part_bytes d)) (tick d))"
  by (simp add: part_length_def wp_simps tick_def part_bytes_def)

text \<open>
  \<open>write_file_durably\<close>: nothing is visible before the rename; when only the flush of the directory
  fails the new journal is there.
\<close>

definition write_journal :: "io_env \<Rightarrow> download_journal \<Rightarrow> unit disk_op" where
  "write_journal env j =
     op_then (io env (\<lambda>d. (d\<lparr>dk_journal := Some (JournalRecord j)\<rparr>, Inr ()))) (\<lambda>_.
     io env (op_return ()))"

definition check_advance :: "nat \<Rightarrow> download_journal option \<Rightarrow> download_journal \<Rightarrow> checkpoint_error + unit" where
  "check_advance durable recorded proposed =
     and_then (ensure (dj_confirmed_offset proposed \<le> durable)
       (ExceedsDurableBytes (dj_confirmed_offset proposed) durable)) (\<lambda>_.
     (case recorded of
        None \<Rightarrow> Inr ()
      | Some j \<Rightarrow>
          and_then (ensure (dj_confirmed_offset j \<le> dj_confirmed_offset proposed)
            (NonMonotonic (dj_confirmed_offset j) (dj_confirmed_offset proposed))) (\<lambda>_.
          and_then (ensure (dj_expected_size j = dj_expected_size proposed)
            (ImmutableField ''expected_size'')) (\<lambda>_.
          and_then (ensure (dj_expected_sha256_hex j = dj_expected_sha256_hex proposed)
            (ImmutableField ''expected_sha256_hex'')) (\<lambda>_.
          ensure (dj_etag j = None \<or> dj_etag proposed = dj_etag j) (ImmutableField ''etag''))))))"

definition lift_checkpoint :: "checkpoint_error + 'a \<Rightarrow> download_error + 'a" where
  "lift_checkpoint r = (case r of Inl e \<Rightarrow> Inl (DlCheckpoint e) | Inr x \<Rightarrow> Inr x)"

definition advance :: "io_env \<Rightarrow> download_journal \<Rightarrow> unit disk_op" where
  "advance env proposed =
     op_then (part_length env) (\<lambda>durable.
     op_then (op_result (lift_checkpoint (check_advance durable None proposed))) (\<lambda>_.
     op_then (read_journal env) (\<lambda>recorded.
     op_then (op_result (lift_checkpoint (check_advance durable recorded proposed))) (\<lambda>_.
     write_journal env proposed))))"

definition reset_to :: "io_env \<Rightarrow> download_journal \<Rightarrow> nat \<Rightarrow> download_journal disk_op" where
  "reset_to env j durable_offset =
     (if dj_confirmed_offset j < durable_offset
      then op_fail (DlCheckpoint (NonMonotonic (dj_confirmed_offset j) durable_offset))
      else let corrected = j\<lparr>dj_confirmed_offset := durable_offset\<rparr>
           in op_then (write_journal env corrected) (\<lambda>_. op_return corrected))"

definition discard_partial :: "io_env \<Rightarrow> unit disk_op" where
  "discard_partial env =
     op_then (io env (\<lambda>d. (d\<lparr>dk_part := None, dk_synced := 0\<rparr>, Inr ()))) (\<lambda>_.
     io env (\<lambda>d. (d\<lparr>dk_journal := None\<rparr>, Inr ())))"

text \<open>\<open>set_len\<close> to a shorter length, and \<open>sync_all\<close>.\<close>

definition truncate_part :: "nat \<Rightarrow> disk \<Rightarrow> disk" where
  "truncate_part n d = d\<lparr>dk_part := Some (take n (part_bytes d)), dk_synced := min (dk_synced d) n\<rparr>"

definition sync_part :: "io_env \<Rightarrow> unit disk_op" where
  "sync_part env = io env (\<lambda>d. (d\<lparr>dk_synced := length (part_bytes d)\<rparr>, Inr ()))"

definition recover_resume_offset :: "io_env \<Rightarrow> download_journal option \<Rightarrow> nat disk_op" where
  "recover_resume_offset env journal =
     op_then (part_length env) (\<lambda>actual_len.
     (let claimed = (case journal of None \<Rightarrow> 0 | Some j \<Rightarrow> dj_confirmed_offset j);
          safe_offset = min actual_len claimed
      in if safe_offset < actual_len
         then op_then (io env (op_return ())) (\<lambda>_.
              op_then (io env (\<lambda>d. (truncate_part safe_offset d, Inr ()))) (\<lambda>_.
              op_then (sync_part env) (\<lambda>_.
              op_return safe_offset)))
         else op_return safe_offset))"

section \<open>Inspection of what is already there\<close>

record expected_artifact =
  xa_file_id :: string
  xa_target_relative_path :: "string option"
  xa_expected_size :: nat
  xa_expected_sha256_hex :: "string option"

datatype invalid_reason =
    ArtSizeMismatch nat nat
  | ArtDigestMismatch string string
  | ArtNotARegularFile
  | ArtUnsafeTargetPath target_path_error
  | ArtUnreadable

datatype artifact_status =
    ArtMissing
  | ArtPartial nat
  | ArtVerified
  | ArtInvalid invalid_reason

record artifact_evidence =
  ae_file_id :: string
  ae_expected_size :: nat
  ae_target :: "string list option"
  ae_status :: artifact_status

definition durable_bytes :: "artifact_evidence \<Rightarrow> nat" where
  "durable_bytes e =
     (case ae_status e of
        ArtVerified \<Rightarrow> ae_expected_size e
      | ArtPartial durable_offset \<Rightarrow> min durable_offset (ae_expected_size e)
      | _ \<Rightarrow> 0)"

definition is_verified :: "artifact_evidence \<Rightarrow> bool" where
  "is_verified e \<longleftrightarrow> ae_status e = ArtVerified"

text \<open>\<open>sha256_of_file\<close> of bytes that could be read.\<close>

definition sha256_hex :: "io_env \<Rightarrow> string \<Rightarrow> string" where
  "sha256_hex env bytes = digest_to_hex (ie_sha256 env bytes)"

definition target_bytes :: "disk \<Rightarrow> string" where
  "target_bytes d = (case dk_target d of Some (TargetFile c) \<Rightarrow> c | _ \<Rightarrow> [])"

definition committed_verdict :: "io_env \<Rightarrow> nat \<Rightarrow> expected_artifact \<Rightarrow> artifact_status disk_op" where
  "committed_verdict env actual_size x =
     (if actual_size \<noteq> xa_expected_size x
      then op_return (ArtInvalid (ArtSizeMismatch (xa_expected_size x) actual_size))
      else (case xa_expected_sha256_hex x of
              None \<Rightarrow> op_return ArtVerified
            | Some hex \<Rightarrow>
                op_then (op_catch (io env (\<lambda>d. (d, Inr (sha256_hex env (target_bytes d)))))) (\<lambda>r.
                (case r of
                   Inl _ \<Rightarrow> op_return (ArtInvalid ArtUnreadable)
                 | Inr actual \<Rightarrow>
                     if actual = map to_ascii_lower hex then op_return ArtVerified
                     else op_return (ArtInvalid (ArtDigestMismatch (map to_ascii_lower hex) actual))))))"

definition partial_verdict :: "io_env \<Rightarrow> expected_artifact \<Rightarrow> artifact_status disk_op" where
  "partial_verdict env x =
     op_then (op_catch (part_length env)) (\<lambda>len.
     op_then (op_catch (read_journal env)) (\<lambda>journal.
     (let part_len = (case len of Inr n \<Rightarrow> n | Inl _ \<Rightarrow> 0);
          confirmed = (case journal of Inr (Some j) \<Rightarrow> dj_confirmed_offset j | _ \<Rightarrow> 0);
          durable_offset = min (min part_len confirmed) (xa_expected_size x)
      in op_return (if durable_offset = 0 then ArtMissing else ArtPartial durable_offset))))"

definition judge :: "io_env \<Rightarrow> expected_artifact \<Rightarrow> artifact_status disk_op" where
  "judge env x =
     op_then (op_catch (io env (\<lambda>d. (d, Inr (dk_target d))))) (\<lambda>r.
     (case r of
        Inl _ \<Rightarrow> op_return (ArtInvalid ArtUnreadable)
      | Inr None \<Rightarrow> partial_verdict env x
      | Inr (Some (TargetFile c)) \<Rightarrow> committed_verdict env (length c) x
      | Inr (Some _) \<Rightarrow> op_return (ArtInvalid ArtNotARegularFile)))"

definition inspect ::
    "io_env \<Rightarrow> string list \<Rightarrow> string \<Rightarrow> string \<Rightarrow> expected_artifact \<Rightarrow> artifact_evidence disk_op" where
  "inspect env root device session x =
     (let evidence = \<lambda>target status.
            \<lparr>ae_file_id = xa_file_id x, ae_expected_size = xa_expected_size x, ae_target = target,
             ae_status = status\<rparr>
      in case derive_target_path_for_file root device session (xa_file_id x) (xa_target_relative_path x) of
           Inl e \<Rightarrow> op_return (evidence None (ArtInvalid (ArtUnsafeTargetPath e)))
         | Inr target \<Rightarrow> op_then (judge env x) (\<lambda>status. op_return (evidence (Some target) status)))"

text \<open>The inspector changes nothing and always answers.\<close>

lemma tick_frame [simp]:
  "dk_target (tick d) = dk_target d" "dk_part (tick d) = dk_part d" "dk_synced (tick d) = dk_synced d"
  "dk_journal (tick d) = dk_journal d" "part_bytes (tick d) = part_bytes d"
  "target_bytes (tick d) = target_bytes d"
  by (simp_all add: tick_def part_bytes_def target_bytes_def)

lemma part_bytes_cong: "dk_part d' = dk_part d \<Longrightarrow> part_bytes d' = part_bytes d"
  by (simp add: part_bytes_def)

definition same_files :: "disk \<Rightarrow> disk \<Rightarrow> bool" where
  "same_files d d' \<longleftrightarrow> dk_target d' = dk_target d \<and> dk_part d' = dk_part d \<and> dk_synced d' = dk_synced d
     \<and> dk_journal d' = dk_journal d"

lemma same_files_tick [simp]: "same_files d (tick d') \<longleftrightarrow> same_files d d'"
  by (simp add: same_files_def)

lemma same_files_refl [simp]: "same_files d d"
  by (simp add: same_files_def)

lemma committed_verdict_reads:
  "same_files d0 d \<Longrightarrow> wp (committed_verdict env n x) (\<lambda>status d'. same_files d0 d'
     \<and> (status = ArtVerified \<longrightarrow> n = xa_expected_size x
         \<and> (\<forall>hex. xa_expected_sha256_hex x = Some hex \<longrightarrow>
              sha256_hex env (target_bytes d) = map to_ascii_lower hex))) E d"
  by (auto simp: committed_verdict_def wp_simps split: option.split)

lemma partial_verdict_reads:
  "same_files d0 d \<Longrightarrow> wp (partial_verdict env x) (\<lambda>status d'. same_files d0 d' \<and> status \<noteq> ArtVerified
     \<and> (\<forall>n. status = ArtPartial n \<longrightarrow> n \<le> length (part_bytes d))) E d"
  by (auto simp: partial_verdict_def part_length_def read_journal_def wp_simps Let_def split: option.split)

lemma judge_reads:
  "wp (judge env x) (\<lambda>status d'. same_files d d'
     \<and> (status = ArtVerified \<longrightarrow> (\<exists>c. dk_target d = Some (TargetFile c) \<and> length c = xa_expected_size x
         \<and> (\<forall>hex. xa_expected_sha256_hex x = Some hex \<longrightarrow> sha256_hex env c = map to_ascii_lower hex)))) E d"
proof -
  have partial: "wp (partial_verdict env x) (\<lambda>status d'. same_files d d' \<and> status \<noteq> ArtVerified) E (tick d)"
    by (rule wp_mono [OF partial_verdict_reads [of d]]) auto
  have committed: "wp (committed_verdict env (length c) x) (\<lambda>status d'. same_files d d'
     \<and> (status = ArtVerified \<longrightarrow> length c = xa_expected_size x
         \<and> (\<forall>hex. xa_expected_sha256_hex x = Some hex \<longrightarrow> sha256_hex env c = map to_ascii_lower hex))) E (tick d)"
    if "dk_target d = Some (TargetFile c)" for c
    by (rule wp_mono [OF committed_verdict_reads [of d]]) (auto simp: that target_bytes_def)
  show ?thesis
    using partial committed
    by (auto simp: judge_def wp_simps split: option.split target_node.split elim: wp_mono)
qed

section \<open>Checkpoints are backed by flushed bytes\<close>

text \<open>
  What the checkpoint operations keep: the flushed bytes are bytes of the partial file, and while
  there is a partial file the journal claims no more than has been flushed.
\<close>

definition journal_claim :: "disk \<Rightarrow> nat" where
  "journal_claim d = (case dk_journal d of Some (JournalRecord j) \<Rightarrow> dj_confirmed_offset j | _ \<Rightarrow> 0)"

definition disk_ok :: "disk \<Rightarrow> bool" where
  "disk_ok d \<longleftrightarrow> dk_synced d \<le> length (part_bytes d)
     \<and> (dk_part d \<noteq> None \<longrightarrow> journal_claim d \<le> dk_synced d)"

text \<open>
  \<open>guarded b t\<close>: the committed name still holds \<open>t\<close> and, when \<open>b\<close> is set, the disk satisfies the
  invariant. The flag lets one set of lemmas serve disks that were tampered with.
\<close>

definition guarded :: "bool \<Rightarrow> target_node option \<Rightarrow> disk \<Rightarrow> bool" where
  "guarded b t d \<longleftrightarrow> dk_target d = t \<and> (b \<longrightarrow> disk_ok d)"

lemma journal_claim_tick [simp]: "journal_claim (tick d) = journal_claim d"
  by (simp add: journal_claim_def)

lemma guarded_tick [simp]: "guarded b t (tick d) \<longleftrightarrow> guarded b t d"
  by (simp add: guarded_def disk_ok_def)

lemma guarded_journal:
  "guarded b t d \<Longrightarrow> (b \<Longrightarrow> dk_part d \<noteq> None \<Longrightarrow> dj_confirmed_offset j \<le> dk_synced d) \<Longrightarrow>
     guarded b t (d\<lparr>dk_journal := Some (JournalRecord j)\<rparr>)"
  by (auto simp: guarded_def disk_ok_def journal_claim_def part_bytes_def)

lemma write_journal_guarded:
  assumes "guarded b t d" "b \<Longrightarrow> dk_part d \<noteq> None \<Longrightarrow> dj_confirmed_offset j \<le> dk_synced d"
  shows "wp (write_journal env j) (\<lambda>_ d'. guarded b t d' \<and> dk_part d' = dk_part d \<and> dk_synced d' = dk_synced d
    \<and> dk_journal d' = Some (JournalRecord j)) (guarded b t) d"
  using guarded_journal [of b t "tick d" j] assms by (simp add: write_journal_def wp_simps)

lemma check_advance_durable:
  "check_advance n recorded j = Inr () \<Longrightarrow> dj_confirmed_offset j \<le> n"
  by (auto simp: check_advance_def elim!: and_then_InrE)

lemma advance_guarded:
  assumes "guarded b t d" "b \<Longrightarrow> dk_synced d = length (part_bytes d)"
  shows "wp (advance env j) (\<lambda>_ d'. guarded b t d' \<and> dk_part d' = dk_part d \<and> dk_synced d' = dk_synced d)
    (guarded b t) d"
proof -
  have "wp (write_journal env j) (\<lambda>_ d'. guarded b t d' \<and> dk_part d' = dk_part d \<and> dk_synced d' = dk_synced d)
      (guarded b t) d'"
    if "same_files d d'" "check_advance (length (part_bytes d)) recorded j = Inr ()" for d' recorded
  proof (rule wp_mono [OF write_journal_guarded])
    show "guarded b t d'"
      using that(1) assms(1)
      by (simp add: same_files_def guarded_def disk_ok_def part_bytes_def journal_claim_def)
    show "dj_confirmed_offset j \<le> dk_synced d'" if b
      using check_advance_durable [OF \<open>check_advance _ _ _ = _\<close>] assms(2) \<open>same_files d d'\<close> that
      by (simp add: same_files_def)
  qed (use that in \<open>simp_all add: same_files_def\<close>)
  then show ?thesis
    using assms(1) by (auto simp: advance_def wp_simps lift_checkpoint_def split: sum.split)
qed

lemma reset_guarded:
  assumes "guarded b t d" "b \<Longrightarrow> dk_part d \<noteq> None \<Longrightarrow> n \<le> dk_synced d"
  shows "wp (reset_to env j n) (\<lambda>_ d'. guarded b t d' \<and> dk_part d' = dk_part d \<and> journal_claim d' = n)
    (guarded b t) d"
  using write_journal_guarded [of b t d "j\<lparr>dj_confirmed_offset := n\<rparr>" env] assms
  by (auto simp: reset_to_def wp_simps Let_def journal_claim_def elim!: wp_mono)

lemma discard_guarded:
  assumes "guarded b t d"
  shows "wp (discard_partial env) (\<lambda>_ d'. guarded b t d' \<and> dk_part d' = None \<and> dk_journal d' = None)
    (guarded b t) d"
  using assms
  by (auto simp: discard_partial_def wp_simps guarded_def disk_ok_def part_bytes_def journal_claim_def tick_def)

lemma sync_guarded:
  assumes "guarded b t d"
  shows "wp (sync_part env) (\<lambda>_ d'. guarded b t d' \<and> dk_part d' = dk_part d \<and> dk_journal d' = dk_journal d
    \<and> dk_synced d' = length (part_bytes d)) (guarded b t) d"
  using assms
  by (auto simp: sync_part_def wp_simps guarded_def disk_ok_def part_bytes_def journal_claim_def tick_def
      split: option.splits)

text \<open>Recovery: the partial file ends at the offset it returns, which the journal does not exceed once
  it has been corrected.\<close>

lemma recover_guarded:
  assumes "guarded b t d" "journal = (case dk_journal d of Some (JournalRecord j) \<Rightarrow> Some j | _ \<Rightarrow> None)"
  shows "wp (recover_resume_offset env journal) (\<lambda>n d'. guarded b t d' \<and> dk_journal d' = dk_journal d
    \<and> length (part_bytes d') = n \<and> n \<le> journal_claim d \<and> (b \<longrightarrow> dk_part d' \<noteq> None \<longrightarrow> n \<le> dk_synced d'))
    (guarded b t) d"
proof -
  define n where "n = min (length (part_bytes d)) (journal_claim d)"
  have claim: "(case journal of None \<Rightarrow> 0 | Some j \<Rightarrow> dj_confirmed_offset j) = journal_claim d"
    by (auto simp: assms(2) journal_claim_def split: option.split journal_file.split)
  have kept: "length (part_bytes d) = n \<and> n \<le> journal_claim d \<and> (b \<longrightarrow> dk_part d \<noteq> None \<longrightarrow> n \<le> dk_synced d)"
    if "\<not> n < length (part_bytes d)"
    using that assms(1) by (auto simp: n_def guarded_def disk_ok_def)
  have cut: "guarded b t (truncate_part n d')" if "same_files d d'" "n < length (part_bytes d)" for d'
  proof -
    have "dk_part d \<noteq> None" using that(2) by (cases "dk_part d") (auto simp: part_bytes_def)
    then show ?thesis
      using that assms(1)
      by (auto simp: guarded_def disk_ok_def truncate_part_def n_def same_files_def part_bytes_def
          journal_claim_def)
  qed
  have "wp (sync_part env) (\<lambda>_ d'. guarded b t d' \<and> dk_journal d' = dk_journal d
      \<and> length (part_bytes d') = n \<and> n \<le> journal_claim d \<and> (b \<longrightarrow> dk_part d' \<noteq> None \<longrightarrow> n \<le> dk_synced d'))
      (guarded b t) (truncate_part n d')" if "same_files d d'" "n < length (part_bytes d)" for d'
    using that
    by (intro wp_mono [OF sync_guarded [OF cut [OF that]]])
      (auto simp: truncate_part_def part_bytes_def same_files_def n_def)
  then show ?thesis
    using assms(1) kept
    by (auto simp: recover_resume_offset_def wp_simps Let_def claim n_def [symmetric])
qed

end
