(* ===== verification/File_Download.thy ===== *)
theory File_Download
  imports Download_Journal Rational_Time
begin

text \<open>
  The download of one file (\<open>library/download.rs\<close>, sections 4 and 6): what an HTTP response means,
  the loop that fetches, resumes and restarts, the checkpoints while the body is written, and the
  verification before the partial file takes the committed name. The source of the bytes and the
  failures of the file system are parameters.
\<close>

section \<open>Range responses\<close>

record requested_range =
  rr_start :: nat
  rr_if_match_etag :: "string option"

text \<open>What one call of \<open>read\<close> on a body gives; an empty read is the end.\<close>

datatype body_read = ReadBytes string | ReadFailed string

record source_response =
  sr_status :: nat
  sr_etag :: "string option"
  sr_content_range :: "string option"
  sr_content_length :: "nat option"
  sr_body :: "body_read list"

text \<open>A source answers the \<open>n\<close>-th request of a download.\<close>

type_synonym download_source = "nat \<Rightarrow> requested_range \<Rightarrow> download_error + source_response"

datatype range_outcome =
    RangePartial nat nat nat
  | FullFromZero "nat option"
  | NotSatisfiable "nat option"
  | PreconditionFailed

text \<open>\<open>split_once\<close> of a string, and \<open>str::parse::<u64>\<close>, which accepts a leading plus sign.\<close>

fun split_once :: "char \<Rightarrow> string \<Rightarrow> (string \<times> string) option" where
  "split_once c [] = None"
| "split_once c (x # xs) =
     (if x = c then Some ([], xs)
      else (case split_once c xs of None \<Rightarrow> None | Some (a, b) \<Rightarrow> Some (x # a, b)))"

definition parse_u64 :: "string \<Rightarrow> nat option" where
  "parse_u64 s =
     (let digits = (if s \<noteq> [] \<and> hd s = CHR ''+'' then tl s else s) in
      if digits \<noteq> [] \<and> list_all is_ascii_digit digits \<and> decimal_value 0 digits < 2 ^ 64
      then Some (decimal_value 0 digits) else None)"

definition parse_content_range_header :: "string \<Rightarrow> download_error + (nat \<times> nat \<times> nat)" where
  "parse_content_range_header header =
     (let malformed = DlMalformedContentRange header in
      and_then (option_ok malformed (strip_prefix ''bytes '' header)) (\<lambda>rest.
      and_then (option_ok malformed (split_once (CHR ''/'') rest)) (\<lambda>(range_part, total_part).
      and_then (ensure (total_part \<noteq> ''*'') malformed) (\<lambda>_.
      and_then (option_ok malformed (parse_u64 total_part)) (\<lambda>whole.
      and_then (option_ok malformed (split_once (CHR ''-'') range_part)) (\<lambda>(start_s, end_s).
      and_then (option_ok malformed (parse_u64 start_s)) (\<lambda>start.
      and_then (option_ok malformed (parse_u64 end_s)) (\<lambda>last_byte.
      and_then (ensure (start \<le> last_byte \<and> last_byte < whole) malformed) (\<lambda>_.
      Inr (start, last_byte, whole))))))))))"

definition parse_unsatisfiable_total :: "string \<Rightarrow> nat option" where
  "parse_unsatisfiable_total header = Option.bind (strip_prefix ''bytes */'' header) parse_u64"

definition interpret_range_response ::
    "nat \<Rightarrow> string option \<Rightarrow> nat option \<Rightarrow> nat \<Rightarrow> download_error + range_outcome" where
  "interpret_range_response status content_range content_length requested_start =
     (if status = 206 then
        and_then (option_ok (DlMalformedContentRange ''206 response is missing a Content-Range header'')
          content_range) (\<lambda>header.
        and_then (parse_content_range_header header) (\<lambda>(start, last_byte, whole).
        and_then (ensure (start = requested_start) (DlRangeMismatch requested_start start)) (\<lambda>_.
        Inr (RangePartial start last_byte whole))))
      else if status = 200 then Inr (FullFromZero content_length)
      else if status = 416 then Inr (NotSatisfiable (Option.bind content_range parse_unsatisfiable_total))
      else if status = 412 then Inr PreconditionFailed
      else Inl (DlUnexpectedStatus status))"

section \<open>Plans\<close>

record file_plan =
  fp_device_id :: string
  fp_session_id :: string
  fp_file_id :: string
  fp_target_relative_path :: "string option"
  fp_expected_size :: nat
  fp_expected_sha256_hex :: string

record downloaded_file =
  df_device_id :: string
  df_session_id :: string
  df_file_id :: string
  df_path :: "string list"
  df_size_bytes :: nat
  df_sha256_hex :: string
  df_etag :: "string option"

definition validate_plan :: "file_plan \<Rightarrow> download_error + unit" where
  "validate_plan plan =
     ensure (length (fp_expected_sha256_hex plan) = 64
       \<and> list_all is_ascii_hexdigit (fp_expected_sha256_hex plan)) DlInvalidPlan"

definition expected_of_plan :: "file_plan \<Rightarrow> expected_artifact" where
  "expected_of_plan plan =
     \<lparr>xa_file_id = fp_file_id plan, xa_target_relative_path = fp_target_relative_path plan,
      xa_expected_size = fp_expected_size plan, xa_expected_sha256_hex = Some (fp_expected_sha256_hex plan)\<rparr>"

definition expected_etag_for_resume :: "nat \<Rightarrow> download_journal option \<Rightarrow> string option" where
  "expected_etag_for_resume resume_offset journal =
     (if resume_offset = 0 then None else Option.bind journal dj_etag)"

definition checkpoint_at :: "file_plan \<Rightarrow> nat \<Rightarrow> string option \<Rightarrow> download_journal" where
  "checkpoint_at plan confirmed_offset etag =
     \<lparr>dj_confirmed_offset = confirmed_offset, dj_expected_size = fp_expected_size plan,
      dj_expected_sha256_hex = fp_expected_sha256_hex plan, dj_etag = etag\<rparr>"

section \<open>Writing a body\<close>

definition journal_checkpoint_interval :: nat where
  "journal_checkpoint_interval = 262144"

text \<open>Bytes put at an offset of a file; a gap before it reads as zeros.\<close>

definition overlay :: "nat \<Rightarrow> string \<Rightarrow> string \<Rightarrow> string" where
  "overlay pos bytes file =
     take pos file @ replicate (pos - length file) CHR 0x00 @ bytes @ drop (pos + length bytes) file"

definition put_bytes :: "nat \<Rightarrow> string \<Rightarrow> disk \<Rightarrow> disk" where
  "put_bytes pos bytes d =
     d\<lparr>dk_part := Some (overlay pos bytes (part_bytes d)), dk_synced := min (dk_synced d) pos\<rparr>"

text \<open>\<open>write_all\<close>: a failing write may leave a part of the bytes.\<close>

definition write_part :: "io_env \<Rightarrow> nat \<Rightarrow> string \<Rightarrow> unit disk_op" where
  "write_part env pos bytes d =
     (if ie_fails env (dk_clock d)
      then (put_bytes pos (take (ie_torn env (dk_clock d)) bytes) (tick d), Inl DlIo)
      else (put_bytes pos bytes (tick d), Inr ()))"

definition open_part :: "io_env \<Rightarrow> bool \<Rightarrow> unit disk_op" where
  "open_part env fresh =
     io env (\<lambda>d. (if fresh then d\<lparr>dk_part := Some [], dk_synced := 0\<rparr>
                  else d\<lparr>dk_part := Some (part_bytes d)\<rparr>, Inr ()))"

fun write_loop ::
    "io_env \<Rightarrow> file_plan \<Rightarrow> nat \<Rightarrow> nat option \<Rightarrow> string option \<Rightarrow> nat \<Rightarrow> nat \<Rightarrow> body_read list \<Rightarrow>
     nat disk_op" where
  "write_loop env plan start limit etag written since [] = op_return written"
| "write_loop env plan start limit etag written since (ReadFailed m # reads) = op_fail (DlSourceIo m)"
| "write_loop env plan start limit etag written since (ReadBytes bytes # reads) =
     (if bytes = [] then op_return written
      else op_then (write_part env (start + written) bytes) (\<lambda>_.
        (let written' = written + length bytes; since' = since + length bytes in
         if limit \<noteq> None \<and> the limit < written' then op_fail DlUnexpectedExtraBytes
         else if journal_checkpoint_interval \<le> since' then
           op_then (sync_part env) (\<lambda>_.
           op_then (advance env (checkpoint_at plan (start + written') etag)) (\<lambda>_.
           write_loop env plan start limit etag written' 0 reads))
         else write_loop env plan start limit etag written' since' reads)))"

definition write_response_body ::
    "io_env \<Rightarrow> file_plan \<Rightarrow> nat \<Rightarrow> body_read list \<Rightarrow> nat option \<Rightarrow> string option \<Rightarrow> nat disk_op" where
  "write_response_body env plan start body expected_len etag =
     op_then (open_part env (start = 0)) (\<lambda>_.
     op_then (if 0 < start then io env (op_return ()) else op_return ()) (\<lambda>_.
     op_then (write_loop env plan start expected_len etag 0 0 body) (\<lambda>written.
     op_then (op_result (ensure (expected_len = None \<or> written = the expected_len)
       (DlShortBody (the expected_len) written))) (\<lambda>_.
     op_then (sync_part env) (\<lambda>_.
     op_return written)))))"

section \<open>Fetching\<close>

definition max_etag_restart_attempts :: nat where
  "max_etag_restart_attempts = 3"

text \<open>
  The loop over the attempts; the first argument counts the attempts that are left, and the result
  is the final ETag.
\<close>

fun fetch_loop ::
    "nat \<Rightarrow> io_env \<Rightarrow> download_source \<Rightarrow> file_plan \<Rightarrow> download_journal option \<Rightarrow> nat \<Rightarrow>
     string option disk_op" where
  "fetch_loop 0 env source plan journal resume_offset = op_fail DlTooManyRestarts"
| "fetch_loop (Suc n) env source plan journal resume_offset =
     (let if_match = expected_etag_for_resume resume_offset journal;
          restart = op_then (discard_partial env) (\<lambda>_. fetch_loop n env source plan None 0)
      in op_then (op_result (source (max_etag_restart_attempts - Suc n)
           \<lparr>rr_start = resume_offset, rr_if_match_etag = if_match\<rparr>)) (\<lambda>response.
         op_then (op_result (interpret_range_response (sr_status response) (sr_content_range response)
           (sr_content_length response) resume_offset)) (\<lambda>range.
         (case range of
            PreconditionFailed \<Rightarrow> restart
          | NotSatisfiable _ \<Rightarrow>
              if resume_offset = 0 then op_fail DlRangeNotSatisfiable
              else op_then (part_length env) (\<lambda>actual_len.
                if actual_len \<noteq> fp_expected_size plan
                then op_then (discard_partial env) (\<lambda>_. op_fail DlRangeNotSatisfiable)
                else op_return (Option.bind journal dj_etag))
          | FullFromZero len \<Rightarrow>
              op_then (discard_partial env) (\<lambda>_.
              op_then (write_response_body env plan 0 (sr_body response) len (sr_etag response)) (\<lambda>written.
              op_then (advance env (checkpoint_at plan written (sr_etag response))) (\<lambda>_.
              op_return (sr_etag response))))
          | RangePartial start last_byte _ \<Rightarrow>
              if if_match \<noteq> None \<and> sr_etag response \<noteq> if_match then restart
              else op_then (write_response_body env plan start (sr_body response)
                     (Some (last_byte - start + 1)) (sr_etag response)) (\<lambda>written.
                   op_then (advance env (checkpoint_at plan (start + written) (sr_etag response))) (\<lambda>_.
                   op_return (sr_etag response)))))))"

section \<open>Verification and commit\<close>

definition rename_part :: "io_env \<Rightarrow> unit disk_op" where
  "rename_part env =
     io env (\<lambda>d. (if dk_part d = None \<or> dk_target d = Some TargetDirectory then d
                  else d\<lparr>dk_target := Some (TargetFile (part_bytes d)), dk_part := None, dk_synced := 0\<rparr>,
                  if dk_part d = None \<or> dk_target d = Some TargetDirectory then Inl DlIo else Inr ()))"

definition existing_part :: "io_env \<Rightarrow> string disk_op" where
  "existing_part env = io env (\<lambda>d. (d, case dk_part d of None \<Rightarrow> Inl DlIo | Some p \<Rightarrow> Inr p))"

definition verify_and_commit ::
    "io_env \<Rightarrow> file_plan \<Rightarrow> string list \<Rightarrow> string option \<Rightarrow> downloaded_file disk_op" where
  "verify_and_commit env plan target etag =
     op_then (existing_part env) (\<lambda>meta.
     op_then (if length meta \<noteq> fp_expected_size plan
              then op_then (discard_partial env) (\<lambda>_.
                   op_fail (DlSizeMismatch (fp_expected_size plan) (length meta)))
              else op_return ()) (\<lambda>_.
     op_then (existing_part env) (\<lambda>bytes.
     (let actual_hash = sha256_hex env bytes;
          expected_hash = map to_ascii_lower (fp_expected_sha256_hex plan)
      in op_then (if actual_hash \<noteq> expected_hash
                  then op_then (discard_partial env) (\<lambda>_.
                       op_fail (DlHashMismatch expected_hash actual_hash))
                  else op_return ()) (\<lambda>_.
         op_then (existing_part env) (\<lambda>_.
         op_then (sync_part env) (\<lambda>_.
         op_then (rename_part env) (\<lambda>_.
         op_then (io env (op_return ())) (\<lambda>_.
         op_then (op_catch (io env (\<lambda>d. (d\<lparr>dk_journal := None\<rparr>, Inr ())))) (\<lambda>_.
         op_return
           \<lparr>df_device_id = fp_device_id plan, df_session_id = fp_session_id plan,
            df_file_id = fp_file_id plan, df_path = target, df_size_bytes = length meta,
            df_sha256_hex = actual_hash, df_etag = etag\<rparr>))))))))))"

definition resume_and_fetch ::
    "io_env \<Rightarrow> download_source \<Rightarrow> file_plan \<Rightarrow> string list \<Rightarrow> downloaded_file disk_op" where
  "resume_and_fetch env source plan target =
     op_then (read_journal env) (\<lambda>journal.
     op_then (recover_resume_offset env journal) (\<lambda>resume_offset.
     op_then
       (case journal of
          Some j \<Rightarrow>
            if resume_offset < dj_confirmed_offset j
            then op_then (reset_to env j resume_offset) (\<lambda>corrected. op_return (Some corrected))
            else op_return journal
        | None \<Rightarrow> op_return journal) (\<lambda>journal'.
     op_then (fetch_loop max_etag_restart_attempts env source plan journal' resume_offset) (\<lambda>etag.
     verify_and_commit env plan target etag))))"

text \<open>A committed file that is wrong is removed, unless it is a link or a directory.\<close>

definition remove_target :: "io_env \<Rightarrow> unit disk_op" where
  "remove_target env =
     op_then (io env (\<lambda>d. (d, if dk_target d = Some TargetLink then Inl DlUnsafeDirectory else Inr ()))) (\<lambda>_.
     io env (\<lambda>d. (if dk_target d = Some TargetDirectory then d else d\<lparr>dk_target := None\<rparr>,
                  if dk_target d = Some TargetDirectory then Inl DlIo else Inr ())))"

definition path_result :: "target_path_error + 'a \<Rightarrow> download_error + 'a" where
  "path_result r = (case r of Inl e \<Rightarrow> Inl (DlPathSafety e) | Inr x \<Rightarrow> Inr x)"

definition download_file ::
    "io_env \<Rightarrow> download_source \<Rightarrow> file_plan \<Rightarrow> string list \<Rightarrow> downloaded_file disk_op" where
  "download_file env source plan root =
     op_then (op_result (validate_plan plan)) (\<lambda>_.
     op_then (op_result (path_result (derive_target_path_for_file root (fp_device_id plan)
       (fp_session_id plan) (fp_file_id plan) (fp_target_relative_path plan)))) (\<lambda>target.
     op_then (op_result (ie_directories env target)) (\<lambda>_.
     op_then (inspect env root (fp_device_id plan) (fp_session_id plan) (expected_of_plan plan)) (\<lambda>evidence.
     (case ae_status evidence of
        ArtVerified \<Rightarrow>
          op_then (op_catch (discard_partial env)) (\<lambda>_.
          op_return
            \<lparr>df_device_id = fp_device_id plan, df_session_id = fp_session_id plan,
             df_file_id = fp_file_id plan, df_path = target, df_size_bytes = fp_expected_size plan,
             df_sha256_hex = map to_ascii_lower (fp_expected_sha256_hex plan), df_etag = None\<rparr>)
      | ArtInvalid _ \<Rightarrow> op_then (remove_target env) (\<lambda>_. resume_and_fetch env source plan target)
      | _ \<Rightarrow> resume_and_fetch env source plan target)))))"

section \<open>What every step keeps\<close>

text \<open>The state of the loop: the partial file ends at the offset, and the journal claims no more.\<close>

definition resumable :: "bool \<Rightarrow> target_node option \<Rightarrow> nat \<Rightarrow> disk \<Rightarrow> bool" where
  "resumable b t n d \<longleftrightarrow> guarded b t d \<and> length (part_bytes d) = n \<and> (b \<longrightarrow> journal_claim d \<le> n)"

lemma length_overlay: "length (overlay pos bytes file) = max (length file) (pos + length bytes)"
  by (simp add: overlay_def)

lemma guarded_put:
  assumes "guarded b t d" "length (part_bytes d) = pos" "dk_part d \<noteq> None"
  shows "guarded b t (put_bytes pos bytes d)"
  using assms
  by (auto simp: guarded_def disk_ok_def put_bytes_def part_bytes_def journal_claim_def length_overlay)

lemma write_part_guarded:
  assumes "guarded b t d" "length (part_bytes d) = pos" "dk_part d \<noteq> None"
  shows "wp (write_part env pos bytes) (\<lambda>_ d'. guarded b t d' \<and> length (part_bytes d') = pos + length bytes
    \<and> dk_part d' \<noteq> None) (guarded b t) d"
proof -
  have "guarded b t (put_bytes pos bs (tick d))" for bs
    by (rule guarded_put) (use assms in simp_all)
  moreover have "length (part_bytes (put_bytes pos bytes (tick d))) = pos + length bytes"
    "dk_part (put_bytes pos bytes (tick d)) \<noteq> None"
    using assms(2) by (simp_all add: put_bytes_def part_bytes_def length_overlay)
  ultimately show ?thesis
    by (simp add: wp_def write_part_def)
qed

lemma write_loop_guarded:
  assumes "guarded b t d" "length (part_bytes d) = start + written" "dk_part d \<noteq> None"
  shows "wp (write_loop env plan start limit etag written since reads)
    (\<lambda>n d'. guarded b t d' \<and> length (part_bytes d') = start + n \<and> dk_part d' \<noteq> None) (guarded b t) d"
  using assms
proof (induction env plan start limit etag written since reads arbitrary: d rule: write_loop.induct)
  case (3 env plan start limit etag written since bytes reads)
  let ?w = "written + length bytes" and ?s = "since + length bytes"
  let ?Q = "\<lambda>n d'. guarded b t d' \<and> length (part_bytes d') = start + n \<and> dk_part d' \<noteq> None"
  have cont: "wp (write_loop env plan start limit etag ?w since' reads) ?Q (guarded b t) d'"
    if "bytes \<noteq> []" "\<not> (limit \<noteq> None \<and> the limit < ?w)"
      "since' = (if journal_checkpoint_interval \<le> ?s then 0 else ?s)"
      "guarded b t d'" "length (part_bytes d') = start + ?w" "dk_part d' \<noteq> None" for d' since'
    using 3(1) [OF that(1) refl refl that(2)] 3(2) [OF that(1) refl refl that(2)] that(3-) by (auto split: if_splits)
  have check: "wp (op_then (sync_part env) (\<lambda>_. op_then (advance env j) (\<lambda>_.
      write_loop env plan start limit etag ?w 0 reads))) ?Q (guarded b t) d'"
    if "bytes \<noteq> []" "\<not> (limit \<noteq> None \<and> the limit < ?w)" "journal_checkpoint_interval \<le> ?s"
      "guarded b t d'" "length (part_bytes d') = start + ?w" "dk_part d' \<noteq> None" for d' j
    unfolding wp_then
  proof (rule wp_mono [OF sync_guarded [OF that(4)]])
    fix d2 assume d2: "guarded b t d2 \<and> dk_part d2 = dk_part d' \<and> dk_journal d2 = dk_journal d'
      \<and> dk_synced d2 = length (part_bytes d')"
    then have "wp (advance env j) (\<lambda>_ d3. guarded b t d3 \<and> dk_part d3 = dk_part d2 \<and> dk_synced d3 = dk_synced d2)
        (guarded b t) d2"
      by (intro advance_guarded) (auto simp: part_bytes_def)
    then show "wp (advance env j) (\<lambda>_. wp (write_loop env plan start limit etag ?w 0 reads) ?Q (guarded b t))
        (guarded b t) d2"
    proof (rule wp_mono)
      fix d3 assume d3: "guarded b t d3 \<and> dk_part d3 = dk_part d2 \<and> dk_synced d3 = dk_synced d2"
      then have same: "dk_part d3 = dk_part d'" using d2 by simp
      show "wp (write_loop env plan start limit etag ?w 0 reads) ?Q (guarded b t) d3"
        using that(3,5,6) d3 same part_bytes_cong [OF same] by (intro cont [OF that(1,2)]) simp_all
    qed
  qed
  show ?case
    using write_part_guarded [OF 3(3-5), of env bytes] cont check 3(3-5)
    by (auto simp: wp_simps Let_def add.assoc elim!: wp_mono)
qed (simp_all add: wp_simps)

lemma open_guarded:
  assumes "resumable b t n d"
  shows "wp (open_part env (n = 0)) (\<lambda>_ d'. guarded b t d' \<and> length (part_bytes d') = n \<and> dk_part d' \<noteq> None)
    (guarded b t) d"
  using assms
  by (auto simp: open_part_def wp_simps resumable_def guarded_def disk_ok_def part_bytes_def
      journal_claim_def tick_def split: option.splits)

lemma write_response_body_guarded:
  assumes "resumable b t start d"
  shows "wp (write_response_body env plan start body len etag)
    (\<lambda>_ d'. guarded b t d' \<and> dk_synced d' = length (part_bytes d')) (guarded b t) d"
proof -
  have synced: "wp (sync_part env) (\<lambda>_ d'. guarded b t d' \<and> dk_synced d' = length (part_bytes d')) (guarded b t) d'"
    if "guarded b t d'" for d'
    by (rule wp_mono [OF sync_guarded [OF that]]) (auto simp: part_bytes_def)
  have body: "wp (op_then (write_loop env plan start len etag 0 0 body) (\<lambda>written.
      op_then (op_result (ensure (len = None \<or> written = the len) (DlShortBody (the len) written))) (\<lambda>_.
      op_then (sync_part env) (\<lambda>_. op_return written))))
      (\<lambda>_ d'. guarded b t d' \<and> dk_synced d' = length (part_bytes d')) (guarded b t) d'"
    if "guarded b t d'" "length (part_bytes d') = start" "dk_part d' \<noteq> None" for d'
    using write_loop_guarded [of b t d' start 0 env plan len etag 0 body] that synced
    by (auto simp: wp_simps ensure_def elim!: wp_mono)
  show ?thesis
    unfolding write_response_body_def wp_then
  proof (rule wp_mono [OF open_guarded [OF assms]])
    fix d' assume d': "guarded b t d' \<and> length (part_bytes d') = start \<and> dk_part d' \<noteq> None"
    have "wp (op_then (if 0 < start then io env (op_return ()) else op_return ()) (\<lambda>_.
        op_then (write_loop env plan start len etag 0 0 body) (\<lambda>written.
        op_then (op_result (ensure (len = None \<or> written = the len) (DlShortBody (the len) written))) (\<lambda>_.
        op_then (sync_part env) (\<lambda>_. op_return written)))))
        (\<lambda>_ d'. guarded b t d' \<and> dk_synced d' = length (part_bytes d')) (guarded b t) d'"
      using body [of d'] body [of "tick d'"] d'
      by (subst wp_then, subst wp_if, cases "0 < start") (simp_all add: wp_io wp_return)
    then show "wp (if 0 < start then io env (op_return ()) else op_return ()) (\<lambda>_.
        wp (write_loop env plan start len etag 0 0 body) (\<lambda>written.
        wp (op_result (ensure (len = None \<or> written = the len) (DlShortBody (the len) written))) (\<lambda>_.
        wp (sync_part env) (\<lambda>_. wp (op_return written)
          (\<lambda>_ d'. guarded b t d' \<and> dk_synced d' = length (part_bytes d')) (guarded b t)) (guarded b t))
          (guarded b t)) (guarded b t)) (guarded b t) d'"
      by (simp only: wp_then)
  qed
qed

lemma resumable_tick [simp]: "resumable b t n (tick d) \<longleftrightarrow> resumable b t n d"
  by (simp add: resumable_def)

lemma resumable_guarded: "resumable b t n d \<Longrightarrow> guarded b t d"
  by (simp add: resumable_def)

lemma discard_resumable:
  assumes "guarded b t d"
  shows "wp (discard_partial env) (\<lambda>_. resumable b t 0) (guarded b t) d"
  by (rule wp_mono [OF discard_guarded [OF assms]])
    (auto simp: resumable_def part_bytes_def journal_claim_def)

lemma body_and_checkpoint:
  assumes "resumable b t start d"
  shows "wp (op_then (write_response_body env plan start body len etag) (\<lambda>written.
      op_then (advance env (j written)) (\<lambda>_. op_return etag))) (\<lambda>_. guarded b t) (guarded b t) d"
  unfolding wp_then
proof (rule wp_mono [OF write_response_body_guarded [OF assms]])
  fix written d' assume "guarded b t d' \<and> dk_synced d' = length (part_bytes d')"
  then show "wp (advance env (j written)) (\<lambda>_. wp (op_return etag) (\<lambda>_. guarded b t) (guarded b t))
      (guarded b t) d'"
    by (intro wp_mono [OF advance_guarded]) (simp_all add: wp_return)
qed

lemma interpret_partial:
  "interpret_range_response st cr cl n = Inr (RangePartial start l w) \<Longrightarrow> start = n \<and> n \<le> l \<and> l < w"
  by (auto simp: interpret_range_response_def parse_content_range_header_def Let_def
      split: if_splits prod.splits)

lemma fetch_loop_guarded:
  assumes "resumable b t offset d"
  shows "wp (fetch_loop n env source plan journal offset) (\<lambda>_. guarded b t) (guarded b t) d"
  using assms
proof (induction n arbitrary: journal offset d)
  case 0
  then show ?case by (simp add: wp_fail resumable_guarded)
next
  case (Suc n)
  let ?Q = "\<lambda>_. guarded b t"
  let ?m = "expected_etag_for_resume offset journal"
  let ?restart = "op_then (discard_partial env) (\<lambda>_. fetch_loop n env source plan None 0)"
  have restart: "wp ?restart ?Q (guarded b t) d"
    unfolding wp_then
    by (rule wp_mono [OF discard_resumable [OF resumable_guarded [OF Suc(2)]]]) (use Suc(1) in auto)
  have drop: "wp (op_then (discard_partial env) (\<lambda>_. op_fail e)) ?Q (guarded b t) d'"
    if "guarded b t d'" for e d'
    unfolding wp_then by (rule wp_mono [OF discard_guarded [OF that]]) (auto simp: wp_fail)
  have full: "wp (op_then (discard_partial env) (\<lambda>_.
      op_then (write_response_body env plan 0 body len etag) (\<lambda>written.
      op_then (advance env (checkpoint_at plan written etag)) (\<lambda>_. op_return etag)))) ?Q (guarded b t) d"
    for body len etag
    unfolding wp_then [of "discard_partial env"]
    by (rule wp_mono [OF discard_resumable [OF resumable_guarded [OF Suc(2)]]])
      (simp_all only: body_and_checkpoint)
  show ?case
  proof (cases "source (max_etag_restart_attempts - Suc n) \<lparr>rr_start = offset, rr_if_match_etag = ?m\<rparr>")
    case (Inl e)
    then show ?thesis using Suc(2) by (simp add: Let_def wp_then wp_result resumable_guarded)
  next
    case (Inr response)
    let ?i = "interpret_range_response (sr_status response) (sr_content_range response)
      (sr_content_length response) offset"
    show ?thesis
    proof (cases ?i)
      case (Inl e)
      then show ?thesis using \<open>source _ _ = _\<close> Suc(2) by (simp add: Let_def wp_then wp_result resumable_guarded)
    next
      case i: (Inr range)
      show ?thesis
      proof (cases range)
        case (RangePartial start l w)
        then have "start = offset" using interpret_partial i by blast
        then show ?thesis
          using \<open>source _ _ = _\<close> i RangePartial restart [unfolded wp_then]
            body_and_checkpoint [OF Suc(2), unfolded wp_then]
          by (simp add: Let_def wp_then wp_result wp_if)
      next
        case (FullFromZero len)
        then show ?thesis
          using \<open>source _ _ = _\<close> i full [unfolded wp_then] by (simp add: Let_def wp_then wp_result)
      next
        case (NotSatisfiable whole)
        then show ?thesis
          using \<open>source _ _ = _\<close> i drop [of "tick d", unfolded wp_then] Suc(2)
          by (simp add: Let_def wp_then wp_result wp_if wp_fail wp_part_length wp_return resumable_guarded)
      next
        case PreconditionFailed
        then show ?thesis
          using \<open>source _ _ = _\<close> i restart [unfolded wp_then] by (simp add: Let_def wp_then wp_result)
      qed
    qed
  qed
qed

text \<open>Bytes that may stand under the committed name.\<close>

definition verified_bytes :: "io_env \<Rightarrow> file_plan \<Rightarrow> string \<Rightarrow> bool" where
  "verified_bytes env plan c \<longleftrightarrow> length c = fp_expected_size plan
     \<and> sha256_hex env c = map to_ascii_lower (fp_expected_sha256_hex plan)"

definition target_verified :: "io_env \<Rightarrow> file_plan \<Rightarrow> disk \<Rightarrow> bool" where
  "target_verified env plan d \<longleftrightarrow> (\<exists>c. dk_target d = Some (TargetFile c) \<and> verified_bytes env plan c)"

text \<open>What holds wherever a download stops: the committed name is untouched, free, or verified.\<close>

definition download_safe :: "bool \<Rightarrow> io_env \<Rightarrow> file_plan \<Rightarrow> target_node option \<Rightarrow> disk \<Rightarrow> bool" where
  "download_safe b env plan t d \<longleftrightarrow>
     (dk_target d \<in> {t, None} \<or> target_verified env plan d) \<and> (b \<longrightarrow> disk_ok d)"

lemma download_safe_tick [simp]: "download_safe b env plan t (tick d) \<longleftrightarrow> download_safe b env plan t d"
  by (simp add: download_safe_def target_verified_def disk_ok_def)

lemma guarded_safe: "guarded b t d \<Longrightarrow> download_safe b env plan t d"
  by (simp add: guarded_def download_safe_def)

lemma guarded_None_safe: "guarded b None d \<Longrightarrow> download_safe b env plan t d"
  by (simp add: guarded_def download_safe_def)

definition reports :: "io_env \<Rightarrow> file_plan \<Rightarrow> string list \<Rightarrow> downloaded_file \<Rightarrow> bool" where
  "reports env plan target f \<longleftrightarrow> df_file_id f = fp_file_id plan \<and> df_path f = target
     \<and> df_size_bytes f = fp_expected_size plan
     \<and> df_sha256_hex f = map to_ascii_lower (fp_expected_sha256_hex plan)"

lemma wp_existing_part [wp_simps]:
  "wp (existing_part env) Q E d =
     (if ie_fails env (dk_clock d) \<or> dk_part d = None then E (tick d) else Q (part_bytes d) (tick d))"
  by (auto simp: existing_part_def wp_simps part_bytes_def split: option.split)

lemma verify_and_commit_safe:
  assumes "guarded b t d"
  shows "wp (verify_and_commit env plan target etag)
    (\<lambda>f d'. download_safe b env plan t d' \<and> target_verified env plan d' \<and> reports env plan target f)
    (download_safe b env plan t) d"
proof (cases "dk_part d")
  case None
  then show ?thesis
    using assms by (auto simp: verify_and_commit_def wp_then wp_existing_part guarded_safe)
next
  case (Some p)
  let ?S = "download_safe b env plan t"
  let ?Q = "\<lambda>f d'. ?S d' \<and> target_verified env plan d' \<and> reports env plan target f"
  have g: "guarded b t (tick d)" and ps: "part_bytes d = p" using assms Some by (simp_all add: part_bytes_def)
  have drop: "wp (discard_partial env) (\<lambda>_. ?S) ?S d'" if "guarded b t d'" for d'
    by (rule wp_mono [OF discard_guarded [OF that]]) (auto simp: guarded_safe)
  have commit: "wp (rename_part env) (\<lambda>_ d'. ?S d' \<and> target_verified env plan d') ?S d'"
    if "guarded b t d'" "dk_part d' = Some p" "verified_bytes env plan p" for d'
    using that
    by (auto simp: rename_part_def wp_simps guarded_def download_safe_def target_verified_def disk_ok_def
        part_bytes_def)
  have flush: "wp (sync_part env) (\<lambda>_ d'. guarded b t d' \<and> dk_part d' = Some p) ?S d'"
    if "guarded b t d'" "dk_part d' = Some p" for d'
    by (rule wp_mono [OF sync_guarded [OF that(1)]]) (auto simp: that(2) guarded_safe)
  have last: "wp (op_catch (io env (\<lambda>d. (d\<lparr>dk_journal := None\<rparr>, Inr ()))))
      (\<lambda>_ d'. ?S d' \<and> target_verified env plan d') ?S d'"
    if "?S d'" "target_verified env plan d'" for d'
    using that by (auto simp: wp_catch_io download_safe_def target_verified_def disk_ok_def
        journal_claim_def part_bytes_def)
  have rest: "wp (op_then (sync_part env) (\<lambda>_. op_then (rename_part env) (\<lambda>_.
      op_then (io env (op_return ())) (\<lambda>_.
      op_then (op_catch (io env (\<lambda>d. (d\<lparr>dk_journal := None\<rparr>, Inr ())))) (\<lambda>_. op_return f))))) ?Q ?S d'"
    if "guarded b t d'" "dk_part d' = Some p" "verified_bytes env plan p" "reports env plan target f" for d' f
    unfolding wp_then wp_return
  proof (rule wp_mono [OF flush [OF that(1,2)]])
    fix d2 assume "guarded b t d2 \<and> dk_part d2 = Some p"
    then show "wp (rename_part env) (\<lambda>_. wp (io env (op_return ())) (\<lambda>_.
        wp (op_catch (io env (\<lambda>d. (d\<lparr>dk_journal := None\<rparr>, Inr ())))) (\<lambda>_. ?Q f) ?S) ?S) ?S d2"
      using that(3,4)
      by (intro wp_mono [OF commit]) (auto simp: wp_io wp_return target_verified_def intro!: wp_mono [OF last])
  qed assumption
  have ok: "verified_bytes env plan p" "reports env plan target
      \<lparr>df_device_id = fp_device_id plan, df_session_id = fp_session_id plan, df_file_id = fp_file_id plan,
       df_path = target, df_size_bytes = length p, df_sha256_hex = sha256_hex env p, df_etag = etag\<rparr>"
    if "length p = fp_expected_size plan"
      "sha256_hex env p = map to_ascii_lower (fp_expected_sha256_hex plan)"
    using that by (simp_all add: verified_bytes_def reports_def)
  show ?thesis
    using g ps Some rest [OF _ _ ok, unfolded wp_then] drop
    by (auto simp: verify_and_commit_def wp_then wp_existing_part wp_if wp_fail wp_return Let_def guarded_safe)
qed

lemma resume_and_fetch_safe:
  assumes "guarded b t d"
  shows "wp (resume_and_fetch env source plan target)
    (\<lambda>f d'. download_safe b env plan t d' \<and> target_verified env plan d' \<and> reports env plan target f)
    (download_safe b env plan t) d"
proof -
  let ?S = "download_safe b env plan t"
  let ?Q = "\<lambda>f d'. ?S d' \<and> target_verified env plan d' \<and> reports env plan target f"
  define journal where
    "journal = (case dk_journal d of Some (JournalRecord j) \<Rightarrow> Some j | _ \<Rightarrow> None)"
  have g: "guarded b t (tick d)" using assms by simp
  have fetch: "wp (op_then (fetch_loop max_etag_restart_attempts env source plan j n) (\<lambda>etag.
      verify_and_commit env plan target etag)) ?Q ?S d'" if "resumable b t n d'" for j n d'
    unfolding wp_then
    by (rule wp_mono [OF fetch_loop_guarded [OF that]])
      (use verify_and_commit_safe in \<open>auto intro: guarded_safe\<close>)
  have reset: "wp (op_then (op_then (reset_to env j n) (\<lambda>corrected. op_return (Some corrected))) (\<lambda>journal'.
      op_then (fetch_loop max_etag_restart_attempts env source plan journal' n) (\<lambda>etag.
      verify_and_commit env plan target etag))) ?Q ?S d'"
    if d': "guarded b t d'" "length (part_bytes d') = n" "b \<Longrightarrow> dk_part d' \<noteq> None \<Longrightarrow> n \<le> dk_synced d'" for j n d'
    unfolding wp_then [of "op_then _ _"] wp_then [of "reset_to env j n"] wp_return
  proof (rule wp_mono [OF reset_guarded [OF d'(1,3)]])
    fix x d2 assume d2: "guarded b t d2 \<and> dk_part d2 = dk_part d' \<and> journal_claim d2 = n"
    then have "resumable b t n d2"
      using d'(2) part_bytes_cong [of d2 d'] by (simp add: resumable_def)
    then show "wp (op_then (fetch_loop max_etag_restart_attempts env source plan (Some x) n)
        (verify_and_commit env plan target)) ?Q ?S d2" by (rule fetch)
  qed (auto intro: guarded_safe)
  have main: "wp (op_then (recover_resume_offset env journal) (\<lambda>resume_offset.
      op_then
       (case journal of
          Some j \<Rightarrow>
            if resume_offset < dj_confirmed_offset j
            then op_then (reset_to env j resume_offset) (\<lambda>corrected. op_return (Some corrected))
            else op_return journal
        | None \<Rightarrow> op_return journal) (\<lambda>journal'.
      op_then (fetch_loop max_etag_restart_attempts env source plan journal' resume_offset) (\<lambda>etag.
      verify_and_commit env plan target etag)))) ?Q ?S (tick d)"
    unfolding wp_then [of "recover_resume_offset _ _"]
  proof (rule wp_mono [OF recover_guarded [OF g]])
    show "journal = (case dk_journal (tick d) of Some (JournalRecord j) \<Rightarrow> Some j | _ \<Rightarrow> None)"
      by (simp add: journal_def)
  next
    fix n d' assume d': "guarded b t d' \<and> dk_journal d' = dk_journal (tick d) \<and> length (part_bytes d') = n
      \<and> n \<le> journal_claim (tick d) \<and> (b \<longrightarrow> dk_part d' \<noteq> None \<longrightarrow> n \<le> dk_synced d')"
    have claim: "journal_claim d' = (case journal of None \<Rightarrow> 0 | Some j \<Rightarrow> dj_confirmed_offset j)"
      using d' by (auto simp: journal_claim_def journal_def split: option.split journal_file.split)
    have keep: "resumable b t n d'" if "\<not> n < journal_claim d'"
      using that d' by (simp add: resumable_def)
    show "wp (op_then
       (case journal of
          Some j \<Rightarrow>
            if n < dj_confirmed_offset j
            then op_then (reset_to env j n) (\<lambda>corrected. op_return (Some corrected))
            else op_return journal
        | None \<Rightarrow> op_return journal) (\<lambda>journal'.
      op_then (fetch_loop max_etag_restart_attempts env source plan journal' n) (\<lambda>etag.
      verify_and_commit env plan target etag))) ?Q ?S d'"
    proof (cases journal)
      case None
      then show ?thesis
        using fetch [OF keep] claim by (simp add: wp_then [of "op_return _"] wp_return)
    next
      case (Some j)
      show ?thesis
      proof (cases "n < dj_confirmed_offset j")
        case True
        then show ?thesis using Some reset [of d' n j] d' by simp
      next
        case False
        then show ?thesis
          using Some fetch [OF keep] claim by (simp add: wp_then [of "op_return _"] wp_return)
      qed
    qed
  qed (rule guarded_safe)
  show ?thesis
    unfolding resume_and_fetch_def wp_then [of "read_journal env"] wp_read_journal
    using main guarded_safe [OF g] by (simp only: journal_def tick_frame if_cancel split: if_split)
qed

lemma remove_target_safe:
  assumes "guarded b t d"
  shows "wp (remove_target env) (\<lambda>_. guarded b None) (guarded b t) d"
  using assms by (auto simp: remove_target_def wp_simps guarded_def disk_ok_def journal_claim_def part_bytes_def)

lemma verified_evidence:
  "wp (inspect env root device session x) (\<lambda>evidence d'. same_files d d'
     \<and> (ae_status evidence = ArtVerified \<longrightarrow> (\<exists>c. dk_target d = Some (TargetFile c)
         \<and> length c = xa_expected_size x
         \<and> (\<forall>hex. xa_expected_sha256_hex x = Some hex \<longrightarrow> sha256_hex env c = map to_ascii_lower hex)))) E d"
  using judge_reads [of env x d E]
  by (auto simp: inspect_def Let_def wp_return wp_then elim!: wp_mono split: sum.split)

lemma same_files_guarded: "same_files d d' \<Longrightarrow> guarded b t d \<Longrightarrow> guarded b t d'"
  by (simp add: same_files_def guarded_def disk_ok_def journal_claim_def part_bytes_def)

lemma download_file_safe:
  assumes "guarded b t d"
  shows "wp (download_file env source plan root)
    (\<lambda>f d'. download_safe b env plan t d' \<and> target_verified env plan d'
       \<and> (\<exists>target. derive_target_path_for_file root (fp_device_id plan) (fp_session_id plan)
             (fp_file_id plan) (fp_target_relative_path plan) = Inr target \<and> reports env plan target f))
    (download_safe b env plan t) d"
proof -
  let ?S = "download_safe b env plan t"
  have fetch: "wp (resume_and_fetch env source plan target)
      (\<lambda>f d'. ?S d' \<and> target_verified env plan d' \<and> reports env plan target f) ?S d'"
    if "guarded b t d' \<or> guarded b None d'" for target d'
    using that
  proof
    assume "guarded b None d'"
    then show ?thesis
      by (rule wp_mono [OF resume_and_fetch_safe]) (auto simp: download_safe_def)
  qed (rule resume_and_fetch_safe)
  have remove: "wp (op_then (remove_target env) (\<lambda>_. resume_and_fetch env source plan target))
      (\<lambda>f d'. ?S d' \<and> target_verified env plan d' \<and> reports env plan target f) ?S d'"
    if "guarded b t d'" for target d'
    unfolding wp_then
    by (rule wp_mono [OF remove_target_safe [OF that]]) (use fetch in \<open>auto intro: guarded_safe\<close>)
  have verified: "wp (op_catch (discard_partial env)) (\<lambda>_ d'. ?S d' \<and> target_verified env plan d') ?S d'"
    if "guarded b t d'" "target_verified env plan d'" for d'
  proof -
    have "\<exists>d2 r. discard_partial env d' = (d2, r) \<and> guarded b t d2"
      using discard_guarded [OF that(1), of env]
      by (auto simp: wp_def split: prod.splits sum.splits)
    then show ?thesis
      using that
      by (auto simp: wp_def op_catch_def guarded_safe) (simp add: target_verified_def guarded_def)
  qed
  have inspected: "wp (inspect env root (fp_device_id plan) (fp_session_id plan) (expected_of_plan plan))
      (\<lambda>evidence d'. guarded b t d' \<and> (ae_status evidence = ArtVerified \<longrightarrow> target_verified env plan d')) ?S d"
    by (rule wp_mono [OF verified_evidence])
      (use assms same_files_guarded in \<open>auto simp: target_verified_def verified_bytes_def expected_of_plan_def
        same_files_def\<close>)
  show ?thesis
  proof (cases "derive_target_path_for_file root (fp_device_id plan) (fp_session_id plan) (fp_file_id plan)
      (fp_target_relative_path plan)")
    case (Inl e)
    then show ?thesis
      using guarded_safe [OF assms]
      by (auto simp: download_file_def wp_then wp_result path_result_def split: sum.split)
  next
    case (Inr target)
    have after: "wp (case ae_status evidence of
        ArtVerified \<Rightarrow> op_then (op_catch (discard_partial env)) (\<lambda>_. op_return f)
      | ArtInvalid _ \<Rightarrow> op_then (remove_target env) (\<lambda>_. resume_and_fetch env source plan target)
      | _ \<Rightarrow> resume_and_fetch env source plan target)
      (\<lambda>f d'. ?S d' \<and> target_verified env plan d' \<and> reports env plan target f) ?S d'"
      if "guarded b t d'" "ae_status evidence = ArtVerified \<longrightarrow> target_verified env plan d'"
        "reports env plan target f" for evidence d' f
      using that fetch remove verified
      by (auto split: artifact_status.split simp: wp_then wp_return elim!: wp_mono)
    have "reports env plan target
        \<lparr>df_device_id = fp_device_id plan, df_session_id = fp_session_id plan,
         df_file_id = fp_file_id plan, df_path = target, df_size_bytes = fp_expected_size plan,
         df_sha256_hex = map to_ascii_lower (fp_expected_sha256_hex plan), df_etag = None\<rparr>"
      by (simp add: reports_def)
    then show ?thesis
      using guarded_safe [OF assms] Inr
      by (auto simp: download_file_def wp_then wp_result path_result_def
          split: sum.split intro!: wp_mono [OF inspected] after)
  qed
qed

section \<open>Properties of a download\<close>

text \<open>
  C34. Only verified bytes take the committed name: whatever the source sends, whatever the partial
  file and the journal held, and whichever call of the file system fails, a download leaves the
  committed name as it was, free, or holding a file of exactly the expected size and digest; and
  when it reports success the verified file is there.
\<close>

theorem download_commits_only_verified:
  assumes "download_file env source plan root d = (d', r)"
  shows "(dk_target d' \<in> {dk_target d, None} \<or> target_verified env plan d')
    \<and> (\<forall>f. r = Inr f \<longrightarrow> target_verified env plan d' \<and> df_size_bytes f = fp_expected_size plan
         \<and> df_sha256_hex f = map to_ascii_lower (fp_expected_sha256_hex plan))"
proof -
  have "guarded False (dk_target d) d" by (simp add: guarded_def)
  from download_file_safe [OF this, of env source plan root] assms show ?thesis
    by (cases r) (auto simp: wp_def download_safe_def reports_def)
qed

text \<open>A power failure loses bytes that were not flushed.\<close>

definition power_loss :: "nat \<Rightarrow> disk \<Rightarrow> disk" where
  "power_loss n d = d\<lparr>dk_part := map_option (take (max n (dk_synced d))) (dk_part d)\<rparr>"


text \<open>
  A journal that is not UTF-8 blocks its file: unparsable text counts as no journal, but bytes
  that are not UTF-8 make every download of a missing file fail, whatever the source offers, and the
  journal stays where it is.
\<close>

theorem undecodable_journal_blocks_download:
  assumes "dk_journal d = Some JournalNotUtf8" "dk_target d = None"
    "download_file env source plan root d = (d', r)"
  shows "(\<exists>e. r = Inl e) \<and> dk_journal d' = Some JournalNotUtf8 \<and> dk_target d' = None"
proof -
  let ?E = "\<lambda>d'. dk_journal d' = Some JournalNotUtf8 \<and> dk_target d' = None"
  have blocked: "wp (resume_and_fetch env source plan target) (\<lambda>_ _. False) ?E d2" if "?E d2" for target d2
    using that by (simp add: resume_and_fetch_def wp_then wp_read_journal)
  have removed: "wp (op_then (remove_target env) (\<lambda>_. resume_and_fetch env source plan target))
      (\<lambda>_ _. False) ?E d2" if "?E d2" for target d2
    using that blocked by (auto simp: remove_target_def wp_then wp_io wp_fun tick_def)
  have "wp (inspect env root (fp_device_id plan) (fp_session_id plan) (expected_of_plan plan))
      (\<lambda>evidence d'. ae_status evidence \<noteq> ArtVerified \<and> ?E d') ?E d"
    by (rule wp_mono [OF verified_evidence]) (use assms in \<open>auto simp: same_files_def\<close>)
  then have "wp (download_file env source plan root) (\<lambda>_ _. False) ?E d"
    using assms(1,2) blocked removed
    by (auto simp: download_file_def wp_then wp_result path_result_def elim!: wp_mono
        split: sum.split artifact_status.split)
  with assms(3) show ?thesis by (cases r) (auto simp: wp_def)
qed

text \<open>
  C37. A read error deletes a good file: when the committed file is there with the right size and
  digest but the one read of it that hashes it fails, the download removes it, and if the source is
  then not available the file is gone.
\<close>

theorem unreadable_file_is_deleted:
  assumes "validate_plan plan = Inr ()" "ie_directories env target = Inr ()"
    and "derive_target_path_for_file root (fp_device_id plan) (fp_session_id plan) (fp_file_id plan)
       (fp_target_relative_path plan) = Inr target"
    and "dk_target d = Some (TargetFile c)" "verified_bytes env plan c"
    and "dk_part d = None" "dk_journal d = None"
    and "\<And>k. ie_fails env k \<longleftrightarrow> k = Suc (dk_clock d)" "\<And>k request. source k request = Inl e"
  shows "\<exists>d'. download_file env source plan root d = (d', Inl e) \<and> dk_target d' = None"
  using assms
  by (simp add: download_file_def op_then_def op_result_def op_return_def path_result_def inspect_def
      expected_of_plan_def judge_def committed_verdict_def op_catch_def io_def tick_def verified_bytes_def
      remove_target_def resume_and_fetch_def read_journal_def recover_resume_offset_def part_length_def
      part_bytes_def Let_def max_etag_restart_attempts_def numeral_3_eq_3)

section \<open>A download that completes\<close>

text \<open>The bytes a body delivers before its end; none when a read fails.\<close>

fun body_bytes :: "body_read list \<Rightarrow> string option" where
  "body_bytes [] = Some []"
| "body_bytes (ReadFailed m # reads) = None"
| "body_bytes (ReadBytes bytes # reads) =
     (if bytes = [] then Some [] else map_option (\<lambda>rest. bytes @ rest) (body_bytes reads))"

text \<open>
  A source that serves \<open>c\<close> under one ETag, as RFC 9110 says: \<open>412\<close> for another ETag, the whole
  content for a request from the start, the rest for a request inside, \<open>416\<close> beyond the end.
\<close>

definition answers :: "string \<Rightarrow> string \<Rightarrow> requested_range \<Rightarrow> source_response \<Rightarrow> bool" where
  "answers c etag request response \<longleftrightarrow>
     sr_etag response = Some etag
     \<and> (if rr_if_match_etag request \<notin> {None, Some etag} then sr_status response = 412
        else if rr_start request = 0 then
          sr_status response = 200 \<and> sr_content_length response = Some (length c)
          \<and> body_bytes (sr_body response) = Some c
        else if rr_start request < length c then
          sr_status response = 206
          \<and> (\<exists>header. sr_content_range response = Some header
               \<and> parse_content_range_header header = Inr (rr_start request, length c - 1, length c))
          \<and> body_bytes (sr_body response) = Some (drop (rr_start request) c)
        else sr_status response = 416)"

definition serves :: "download_source \<Rightarrow> string \<Rightarrow> string \<Rightarrow> bool" where
  "serves source c etag \<longleftrightarrow>
     (\<forall>k request. \<exists>response. source k request = Inr response \<and> answers c etag request response)"

text \<open>A journal the checkpoints of this download may follow.\<close>

definition compatible :: "file_plan \<Rightarrow> string \<Rightarrow> nat \<Rightarrow> disk \<Rightarrow> bool" where
  "compatible plan etag n d \<longleftrightarrow> dk_journal d \<noteq> Some JournalNotUtf8
     \<and> (\<forall>j. dk_journal d = Some (JournalRecord j) \<longrightarrow> dj_confirmed_offset j \<le> n
         \<and> dj_expected_size j = fp_expected_size plan
         \<and> dj_expected_sha256_hex j = fp_expected_sha256_hex plan \<and> dj_etag j \<in> {None, Some etag})"

lemma compatible_tick [simp]: "compatible plan etag n (tick d) \<longleftrightarrow> compatible plan etag n d"
  by (simp add: compatible_def)

lemma advance_completes:
  assumes ok: "\<And>k. \<not> ie_fails env k" and "compatible plan etag n d" "n \<le> length (part_bytes d)"
  shows "wp (advance env (checkpoint_at plan n (Some etag))) (\<lambda>_ d'. dk_target d' = dk_target d
    \<and> dk_part d' = dk_part d \<and> compatible plan etag n d') (\<lambda>_. False) d"
proof -
  let ?j = "case dk_journal d of Some (JournalRecord j) \<Rightarrow> Some j | _ \<Rightarrow> None"
  have "check_advance (length (part_bytes d)) ?j (checkpoint_at plan n (Some etag)) = Inr ()"
    "check_advance (length (part_bytes d)) None (checkpoint_at plan n (Some etag)) = Inr ()"
    using assms(2,3)
    by (auto simp: check_advance_def checkpoint_at_def compatible_def ensure_def
        split: option.split journal_file.split)
  then show ?thesis
    using assms(2)
    by (auto simp: advance_def wp_simps ok lift_checkpoint_def write_journal_def compatible_def
        checkpoint_at_def)
qed

lemma write_loop_completes:
  assumes ok: "\<And>k. \<not> ie_fails env k"
    and "body_bytes reads = Some rest" "part_bytes d = before" "length before = start + written"
    and "limit = Some (written + length rest)" "compatible plan etag (start + written) d" "dk_part d \<noteq> None"
  shows "wp (write_loop env plan start limit (Some etag) written since reads) (\<lambda>n d'.
      n = written + length rest \<and> dk_part d' = Some (before @ rest) \<and> dk_target d' = dk_target d
      \<and> compatible plan etag (start + n) d') (\<lambda>_. False) d"
  using assms(2-)
proof (induction reads arbitrary: rest d before written since)
  case Nil
  then show ?case by (auto simp: wp_return part_bytes_def)
next
  case (Cons r reads)
  then obtain bytes where r: "r = ReadBytes bytes" by (cases r) auto
  show ?case
  proof (cases "bytes = []")
    case True
    then show ?thesis using Cons.prems r by (auto simp: wp_return part_bytes_def)
  next
    case False
    obtain rest' where rest: "body_bytes reads = Some rest'" "rest = bytes @ rest'"
      using Cons.prems(1) r False by auto
    let ?w = "written + length bytes"
    let ?Q = "\<lambda>n d'. n = written + length rest \<and> dk_part d' = Some (before @ rest)
      \<and> dk_target d' = dk_target d \<and> compatible plan etag (start + n) d'"
    have limit: "limit = Some (?w + length rest')" using Cons.prems(4) rest(2) by simp
    have cont: "wp (write_loop env plan start limit (Some etag) ?w since' reads) ?Q (\<lambda>_. False) d'"
      if "dk_part d' = Some (before @ bytes)" "dk_target d' = dk_target d"
        "compatible plan etag (start + ?w) d'" for d' since'
    proof (rule wp_mono [OF Cons.IH [OF rest(1) _ _ limit that(3)]])
      show "part_bytes d' = before @ bytes" using that by (simp add: part_bytes_def)
    qed (use that rest(2) Cons.prems(3) in \<open>auto simp: algebra_simps\<close>)
    let ?d = "put_bytes (start + written) bytes (tick d)"
    have put: "dk_part ?d = Some (before @ bytes)" "dk_target ?d = dk_target d"
      "compatible plan etag (start + ?w) ?d"
      using Cons.prems(2,3,5) by (auto simp: put_bytes_def overlay_def compatible_def)
    have check: "wp (sync_part env) (\<lambda>_. wp (advance env (checkpoint_at plan (start + ?w) (Some etag)))
        (\<lambda>_. wp (write_loop env plan start limit (Some etag) ?w 0 reads) ?Q (\<lambda>_. False)) (\<lambda>_. False)) (\<lambda>_. False) ?d"
    proof -
      let ?d' = "(tick ?d)\<lparr>dk_synced := length (part_bytes ?d)\<rparr>"
      have "compatible plan etag (start + ?w) ?d'" using put(3) by (simp add: compatible_def)
      moreover have "start + ?w \<le> length (part_bytes ?d')"
        using put(1) Cons.prems(3) by (simp add: part_bytes_def)
      ultimately have "wp (advance env (checkpoint_at plan (start + ?w) (Some etag)))
          (\<lambda>_. wp (write_loop env plan start limit (Some etag) ?w 0 reads) ?Q (\<lambda>_. False)) (\<lambda>_. False) ?d'"
        by (intro wp_mono [OF advance_completes [OF ok]] cont) (use put in auto)
      then show ?thesis by (simp add: sync_part_def wp_io wp_fun ok)
    qed
    show ?thesis
      using False r limit check [folded wp_then] cont [OF put]
      by (simp add: wp_then wp_if Let_def wp_def [of "write_part _ _ _"] write_part_def ok)
  qed
qed

lemma compatible_cong:
  "dk_journal d' = dk_journal d \<Longrightarrow> compatible plan etag n d' \<longleftrightarrow> compatible plan etag n d"
  by (simp add: compatible_def)

lemma body_completes:
  assumes ok: "\<And>k. \<not> ie_fails env k"
    and body: "body_bytes body = Some rest" and before: "start = length before" "part_bytes d = before"
    and compat: "compatible plan etag start d"
  shows "wp (op_then (write_response_body env plan start body (Some (length rest)) (Some etag)) (\<lambda>written.
      op_then (advance env (checkpoint_at plan (start + written) (Some etag))) (\<lambda>_. op_return (Some etag))))
    (\<lambda>_ d'. dk_part d' = Some (before @ rest) \<and> dk_target d' = dk_target d) (\<lambda>_. False) d"
proof -
  let ?Q = "\<lambda>_ d'. dk_part d' = Some (before @ rest) \<and> dk_target d' = dk_target d"
  have finish: "wp (advance env (checkpoint_at plan (start + length rest) (Some etag))) ?Q (\<lambda>_. False)
      ((tick d')\<lparr>dk_synced := length (part_bytes d')\<rparr>)"
    if "dk_part d' = Some (before @ rest)" "dk_target d' = dk_target d"
      "compatible plan etag (start + length rest) d'" for d'
  proof (rule wp_mono [OF advance_completes [OF ok]])
    show "compatible plan etag (start + length rest) ((tick d')\<lparr>dk_synced := length (part_bytes d')\<rparr>)"
      using that(3) by (simp add: compatible_def)
  qed (use that before in \<open>auto simp: part_bytes_def\<close>)
  have main: "wp (write_loop env plan start (Some (length rest)) (Some etag) 0 0 body) (\<lambda>n d'.
      n = length rest \<and> dk_part d' = Some (before @ rest) \<and> dk_target d' = dk_target d
      \<and> compatible plan etag (start + n) d') (\<lambda>_. False) d'"
    if "dk_part d' = Some before" "dk_target d' = dk_target d" "dk_journal d' = dk_journal d" for d'
    by (rule wp_mono [OF write_loop_completes [OF ok body]])
      (use that before compat compatible_cong [OF that(3)] in \<open>auto simp: part_bytes_def\<close>)
  have written: "wp (op_then (write_loop env plan start (Some (length rest)) (Some etag) 0 0 body) (\<lambda>written.
      op_then (op_result (ensure (Some (length rest) = None \<or> written = the (Some (length rest)))
        (DlShortBody (the (Some (length rest))) written))) (\<lambda>_.
      op_then (sync_part env) (\<lambda>_. op_then (op_return written) (\<lambda>written.
      op_then (advance env (checkpoint_at plan (start + written) (Some etag))) (\<lambda>_. op_return (Some etag)))))))
      ?Q (\<lambda>_. False) d'"
    if "dk_part d' = Some before" "dk_target d' = dk_target d" "dk_journal d' = dk_journal d" for d'
    unfolding wp_then
    by (rule wp_mono [OF main [OF that]])
      (use finish in \<open>auto simp: wp_simps ensure_def sync_part_def ok\<close>)
  have "start = 0 \<Longrightarrow> before = []" using before by simp
  moreover have "start \<noteq> 0 \<Longrightarrow> dk_part d = Some before"
    using before by (cases "dk_part d") (auto simp: part_bytes_def)
  ultimately show ?thesis
    using written [unfolded wp_then] before
    by (cases "start = 0") (simp_all add: write_response_body_def open_part_def wp_then wp_io wp_fun wp_return ok)
qed

text \<open>From the start of the content: one attempt is enough.\<close>

lemma fetch_from_start:
  assumes ok: "\<And>k. \<not> ie_fails env k" and serves: "serves source c etag"
  shows "wp (fetch_loop (Suc n) env source plan journal 0)
    (\<lambda>_ d'. dk_part d' = Some c \<and> dk_target d' = dk_target d) (\<lambda>_. False) d"
proof -
  let ?r = "\<lparr>rr_start = 0, rr_if_match_etag = None\<rparr>"
  obtain response where response: "source (max_etag_restart_attempts - Suc n) ?r = Inr response"
    "answers c etag ?r response" using serves unfolding serves_def by blast
  then have a: "sr_status response = 200" "sr_content_length response = Some (length c)"
    "body_bytes (sr_body response) = Some c" "sr_etag response = Some etag"
    by (simp_all add: answers_def)
  let ?d = "(tick ((tick d)\<lparr>dk_part := None, dk_synced := 0\<rparr>))\<lparr>dk_journal := None\<rparr>"
  have "wp (op_then (write_response_body env plan 0 (sr_body response) (Some (length c)) (Some etag)) (\<lambda>written.
      op_then (advance env (checkpoint_at plan (0 + written) (Some etag))) (\<lambda>_. op_return (Some etag))))
      (\<lambda>_ d'. dk_part d' = Some ([] @ c) \<and> dk_target d' = dk_target ?d) (\<lambda>_. False) ?d"
    by (rule body_completes [OF ok a(3)]) (simp_all add: part_bytes_def compatible_def)
  then show ?thesis
    using response(1) a
    by (simp add: Let_def expected_etag_for_resume_def wp_then wp_result interpret_range_response_def
        discard_partial_def wp_io wp_fun ok)
qed

text \<open>From inside the content: the rest is fetched, or, when another ETag was recorded, the partial
  file is discarded and the next attempt starts over.\<close>

lemma fetch_resumes:
  assumes ok: "\<And>k. \<not> ie_fails env k" and serves: "serves source c etag"
    and c: "length c = fp_expected_size plan"
    and offset: "0 < offset" "length (part_bytes d) = offset"
    and j: "dk_journal d = Some (JournalRecord j)" "dj_confirmed_offset j \<le> offset"
    and same: "dj_etag j \<in> {None, Some etag} \<Longrightarrow> dj_expected_size j = fp_expected_size plan
      \<and> dj_expected_sha256_hex j = fp_expected_sha256_hex plan \<and> part_bytes d = take offset c"
  shows "wp (fetch_loop (Suc (Suc n)) env source plan (Some j) offset)
    (\<lambda>_ d'. dk_part d' = Some c \<and> dk_target d' = dk_target d) (\<lambda>_. False) d"
proof -
  let ?Q = "\<lambda>_ d'. dk_part d' = Some c \<and> dk_target d' = dk_target d"
  let ?r = "\<lparr>rr_start = offset, rr_if_match_etag = dj_etag j\<rparr>"
  have m: "expected_etag_for_resume offset (Some j) = dj_etag j"
    using offset by (simp add: expected_etag_for_resume_def)
  obtain response where response: "source (max_etag_restart_attempts - Suc (Suc n)) ?r = Inr response"
    "answers c etag ?r response" using serves unfolding serves_def by blast
  have e: "sr_etag response = Some etag" using response(2) by (simp add: answers_def)
  show ?thesis
  proof (cases "dj_etag j \<in> {None, Some etag}")
    case False
    then have "sr_status response = 412" using response(2) by (simp add: answers_def)
    moreover have "wp (op_then (discard_partial env) (\<lambda>_. fetch_loop (Suc n) env source plan None 0)) ?Q
        (\<lambda>_. False) d"
      using fetch_from_start [OF ok serves, where n = n and plan = plan and journal = None
          and d = "(tick ((tick d)\<lparr>dk_part := None, dk_synced := 0\<rparr>))\<lparr>dk_journal := None\<rparr>"]
      by (simp del: fetch_loop.simps add: wp_then discard_partial_def wp_io wp_fun ok)
    ultimately show ?thesis
      using response(1)
      by (simp (no_asm_simp) only: fetch_loop.simps(2) [of "Suc n"] Let_def m wp_then wp_result
          interpret_range_response_def) (simp del: fetch_loop.simps add: wp_then)
  next
    case True
    note same = same [OF True]
    have len: "offset \<le> length c" using same offset by (metis length_take min.cobounded1)
    have compat: "compatible plan etag offset d"
      using j same True by (simp add: compatible_def)
    show ?thesis
    proof (cases "offset < length c")
      case inside: True
      obtain header where h: "sr_status response = 206" "sr_content_range response = Some header"
        "parse_content_range_header header = Inr (offset, length c - 1, length c)"
        "body_bytes (sr_body response) = Some (drop offset c)"
        using response(2) True inside offset by (auto simp: answers_def)
      have "wp (op_then (write_response_body env plan offset (sr_body response)
          (Some (length (drop offset c))) (Some etag)) (\<lambda>written.
          op_then (advance env (checkpoint_at plan (offset + written) (Some etag))) (\<lambda>_. op_return (Some etag))))
          (\<lambda>_ d'. dk_part d' = Some (take offset c @ drop offset c) \<and> dk_target d' = dk_target d) (\<lambda>_. False) d"
        by (rule body_completes [OF ok h(4) _ _ compat]) (use same len in simp_all)
      moreover have "length c - 1 - offset + 1 = length (drop offset c)" using inside by simp
      moreover have "interpret_range_response (sr_status response) (sr_content_range response)
          (sr_content_length response) offset = Inr (RangePartial offset (length c - 1) (length c))"
        by (simp add: interpret_range_response_def h option_ok_def ensure_def)
      moreover have "\<not> (dj_etag j \<noteq> None \<and> sr_etag response \<noteq> dj_etag j)" using True e by auto
      ultimately show ?thesis
        unfolding fetch_loop.simps(2) [of "Suc n"] Let_def m wp_then wp_result
        by (auto simp del: fetch_loop.simps simp add: response(1) e wp_then)
    next
      case False
      then have full: "offset = length c" "part_bytes d = c" using len same by simp_all
      then have "dk_part d = Some c" using offset by (cases "dk_part d") (auto simp: part_bytes_def)
      moreover have "length (part_bytes d) = fp_expected_size plan" using full(2) c by simp
      moreover have "interpret_range_response (sr_status response) (sr_content_range response)
          (sr_content_length response) offset
          = Inr (NotSatisfiable (Option.bind (sr_content_range response) parse_unsatisfiable_total))"
        using response(2) True False offset by (simp add: answers_def interpret_range_response_def)
      ultimately show ?thesis
        unfolding fetch_loop.simps(2) [of "Suc n"] Let_def m wp_then wp_result
        using full(2) offset(1)
        by (simp del: fetch_loop.simps add: response(1) wp_then wp_part_length ok wp_if wp_return)
    qed
  qed
qed

lemma commit_completes:
  assumes ok: "\<And>k. \<not> ie_fails env k" and "verified_bytes env plan c" "dk_part d = Some c"
    "dk_target d \<noteq> Some TargetDirectory"
  shows "wp (verify_and_commit env plan target etag) (\<lambda>_ d'. dk_target d' = Some (TargetFile c)) (\<lambda>_. False) d"
  using assms(2-)
  by (simp add: verify_and_commit_def wp_simps ok verified_bytes_def Let_def sync_part_def rename_part_def
      part_bytes_def tick_def)

lemma recover_completes:
  assumes ok: "\<And>k. \<not> ie_fails env k"
  shows "wp (recover_resume_offset env journal) (\<lambda>n d'.
      n = min (length (part_bytes d)) (case journal of None \<Rightarrow> 0 | Some j \<Rightarrow> dj_confirmed_offset j)
      \<and> part_bytes d' = take n (part_bytes d) \<and> dk_target d' = dk_target d \<and> dk_journal d' = dk_journal d)
      (\<lambda>_. False) d"
proof -
  have "part_bytes (d'\<lparr>dk_synced := k\<rparr>) = part_bytes d'" "part_bytes (d'\<lparr>dk_part := Some p\<rparr>) = p"
    for d' k p by (simp_all add: part_bytes_def)
  then show ?thesis
    by (auto simp: recover_resume_offset_def Let_def wp_simps ok sync_part_def truncate_part_def)
qed

text \<open>The confirmed bytes of a partial file that was recorded under the same ETag are a prefix of the
  content, recorded for the same expectations.\<close>

definition partial_of :: "file_plan \<Rightarrow> string \<Rightarrow> string \<Rightarrow> disk \<Rightarrow> bool" where
  "partial_of plan c etag d \<longleftrightarrow> dk_journal d \<noteq> Some JournalNotUtf8
     \<and> (\<forall>j. dk_journal d = Some (JournalRecord j) \<longrightarrow> dj_etag j \<in> {None, Some etag} \<longrightarrow>
          dj_expected_size j = fp_expected_size plan
          \<and> dj_expected_sha256_hex j = fp_expected_sha256_hex plan
          \<and> (let n = min (length (part_bytes d)) (dj_confirmed_offset j) in take n (part_bytes d) = take n c))"

lemma resume_completes:
  assumes ok: "\<And>k. \<not> ie_fails env k" and serves: "serves source c etag"
    and c: "verified_bytes env plan c" and "dk_target d = None" and part: "partial_of plan c etag d"
  shows "wp (resume_and_fetch env source plan target) (\<lambda>_ d'. dk_target d' = Some (TargetFile c)) (\<lambda>_. False) d"
proof -
  let ?Q = "\<lambda>_ d'. dk_target d' = Some (TargetFile c)"
  let ?journal = "case dk_journal d of Some (JournalRecord j) \<Rightarrow> Some j | _ \<Rightarrow> None"
  have len: "length c = fp_expected_size plan" using c by (simp add: verified_bytes_def)
  have fetched: "wp (op_then (fetch_loop max_etag_restart_attempts env source plan journal n) (\<lambda>etag.
      verify_and_commit env plan target etag)) ?Q (\<lambda>_. False) d'"
    if "dk_target d' = None"
      "wp (fetch_loop max_etag_restart_attempts env source plan journal n)
         (\<lambda>_ d2. dk_part d2 = Some c \<and> dk_target d2 = dk_target d') (\<lambda>_. False) d'" for journal n d'
    unfolding wp_then
    by (rule wp_mono [OF that(2)]) (use that(1) commit_completes [OF ok c] in auto)
  have start: "wp (op_then (fetch_loop max_etag_restart_attempts env source plan journal 0) (\<lambda>etag.
      verify_and_commit env plan target etag)) ?Q (\<lambda>_. False) d'" if "dk_target d' = None" for journal d'
    by (rule fetched [OF that]) (simp only: max_etag_restart_attempts_def numeral_3_eq_3 fetch_from_start [OF ok serves])
  have inside: "wp (op_then (fetch_loop max_etag_restart_attempts env source plan (Some j) n) (\<lambda>etag.
      verify_and_commit env plan target etag)) ?Q (\<lambda>_. False) d'"
    if "dk_target d' = None" "0 < n" "length (part_bytes d') = n" "dk_journal d' = Some (JournalRecord j)"
      "dj_confirmed_offset j \<le> n"
      "dj_etag j \<in> {None, Some etag} \<Longrightarrow> dj_expected_size j = fp_expected_size plan
        \<and> dj_expected_sha256_hex j = fp_expected_sha256_hex plan \<and> part_bytes d' = take n c" for j n d'
  proof (rule fetched [OF that(1)])
    show "wp (fetch_loop max_etag_restart_attempts env source plan (Some j) n)
         (\<lambda>_ d2. dk_part d2 = Some c \<and> dk_target d2 = dk_target d') (\<lambda>_. False) d'"
      unfolding max_etag_restart_attempts_def numeral_3_eq_3
      by (rule fetch_resumes [OF ok serves len that(2,3,4,5)]) (use that(6) in blast)
  qed
  have fetch: "wp (op_then (fetch_loop max_etag_restart_attempts env source plan (Some j) n) (\<lambda>etag.
      verify_and_commit env plan target etag)) ?Q (\<lambda>_. False) d'"
    if "dk_target d' = None" "length (part_bytes d') = n" "dk_journal d' = Some (JournalRecord j)"
      "dj_confirmed_offset j \<le> n"
      "dj_etag j \<in> {None, Some etag} \<Longrightarrow> dj_expected_size j = fp_expected_size plan
        \<and> dj_expected_sha256_hex j = fp_expected_sha256_hex plan \<and> part_bytes d' = take n c" for j n d'
    using inside [OF that(1) _ that(2-5)] start [OF that(1)] by (cases n) auto
  have "wp (op_then (recover_resume_offset env ?journal) (\<lambda>resume_offset.
      op_then
       (case ?journal of
          Some j \<Rightarrow>
            if resume_offset < dj_confirmed_offset j
            then op_then (reset_to env j resume_offset) (\<lambda>corrected. op_return (Some corrected))
            else op_return ?journal
        | None \<Rightarrow> op_return ?journal) (\<lambda>journal'.
      op_then (fetch_loop max_etag_restart_attempts env source plan journal' resume_offset) (\<lambda>etag.
      verify_and_commit env plan target etag)))) ?Q (\<lambda>_. False) (tick d)"
    unfolding wp_then [of "recover_resume_offset _ _"]
  proof (rule wp_mono [OF recover_completes [OF ok]])
    fix n d' assume d': "n = min (length (part_bytes (tick d)))
        (case ?journal of None \<Rightarrow> 0 | Some j \<Rightarrow> dj_confirmed_offset j)
      \<and> part_bytes d' = take n (part_bytes (tick d)) \<and> dk_target d' = dk_target (tick d)
      \<and> dk_journal d' = dk_journal (tick d)"
    then have t: "dk_target d' = None" and n: "length (part_bytes d') = n" using assms(4) by auto
    show "wp (op_then
       (case ?journal of
          Some j \<Rightarrow>
            if n < dj_confirmed_offset j
            then op_then (reset_to env j n) (\<lambda>corrected. op_return (Some corrected))
            else op_return ?journal
        | None \<Rightarrow> op_return ?journal) (\<lambda>journal'.
      op_then (fetch_loop max_etag_restart_attempts env source plan journal' n) (\<lambda>etag.
      verify_and_commit env plan target etag))) ?Q (\<lambda>_. False) d'"
    proof (cases ?journal)
      case None
      then have "n = 0" using d' by simp
      then show ?thesis using None start [OF t] by (simp add: wp_then [of "op_return _"] wp_return)
    next
      case (Some j)
      then have j: "dk_journal d = Some (JournalRecord j)"
        by (auto split: option.splits journal_file.splits)
      have same: "dj_expected_size j = fp_expected_size plan
          \<and> dj_expected_sha256_hex j = fp_expected_sha256_hex plan \<and> part_bytes d' = take n c"
        if "dj_etag j \<in> {None, Some etag}"
        using part that j d' Some by (auto simp: partial_of_def Let_def)
      show ?thesis
      proof (cases "n < dj_confirmed_offset j")
        case True
        let ?c = "j\<lparr>dj_confirmed_offset := n\<rparr>" and ?d = "tick ((tick d')\<lparr>dk_journal := Some (JournalRecord (j\<lparr>dj_confirmed_offset := n\<rparr>))\<rparr>)"
        have "wp (op_then (fetch_loop max_etag_restart_attempts env source plan (Some ?c) n) (\<lambda>etag.
            verify_and_commit env plan target etag)) ?Q (\<lambda>_. False) ?d"
        proof (rule fetch)
          have p: "part_bytes ?d = part_bytes d'" by (simp add: part_bytes_def)
          show "length (part_bytes ?d) = n" using n p by simp
          show "dj_expected_size ?c = fp_expected_size plan \<and> dj_expected_sha256_hex ?c = fp_expected_sha256_hex plan
              \<and> part_bytes ?d = take n c" if "dj_etag ?c \<in> {None, Some etag}"
            using same that p by simp
        qed (use t in simp_all)
        then show ?thesis
          using Some True
          by (simp add: wp_then [of "op_then _ _"] wp_then [of "reset_to _ _ _"] wp_return reset_to_def Let_def
              write_journal_def wp_then [of "io _ _"] wp_io wp_fun ok)
      next
        case False
        then show ?thesis
          using Some fetch [OF t n] j same d' by (simp add: wp_then [of "op_return _"] wp_return)
      qed
    qed
  qed
  then show ?thesis
    using part
    unfolding resume_and_fetch_def wp_then [of "read_journal env"] wp_read_journal
    by (simp add: ok partial_of_def)
qed

lemma download_completes:
  assumes ok: "\<And>k. \<not> ie_fails env k" and serves: "serves source c etag"
    and c: "verified_bytes env plan c" and part: "partial_of plan c etag d"
    and "validate_plan plan = Inr ()" "ie_directories env target = Inr ()"
    and "derive_target_path_for_file root (fp_device_id plan) (fp_session_id plan) (fp_file_id plan)
       (fp_target_relative_path plan) = Inr target"
    and t: "dk_target d \<notin> {Some TargetLink, Some TargetDirectory}"
  shows "wp (download_file env source plan root) (\<lambda>_. target_verified env plan) (\<lambda>_. False) d"
proof -
  let ?Q = "\<lambda>_. target_verified env plan"
  have fetch: "wp (resume_and_fetch env source plan target) ?Q (\<lambda>_. False) d'"
    if "dk_target d' = None" "partial_of plan c etag d'" for d'
    by (rule wp_mono [OF resume_completes [OF ok serves c that]]) (use c in \<open>auto simp: target_verified_def\<close>)
  have partial: "partial_of plan c etag d'" if "dk_part d' = dk_part d" "dk_journal d' = dk_journal d" for d'
    using part that by (simp add: partial_of_def part_bytes_def)
  have remove: "wp (op_then (remove_target env) (\<lambda>_. resume_and_fetch env source plan target)) ?Q (\<lambda>_. False) d'"
    if "same_files d d'" for d'
  proof -
    let ?d = "tick (tick d')\<lparr>dk_target := None\<rparr>"
    have "dk_part ?d = dk_part d" "dk_journal ?d = dk_journal d" "dk_target ?d = None"
      using that by (simp_all add: same_files_def tick_def)
    then have "wp (resume_and_fetch env source plan target) ?Q (\<lambda>_. False) ?d" using fetch partial by blast
    then show ?thesis
      using that t by (simp add: remove_target_def wp_then wp_io wp_fun ok same_files_def tick_def)
  qed
  have verified: "wp (op_catch (discard_partial env)) ?Q (\<lambda>_. False) d'" if "target_verified env plan d'" for d'
    using that by (simp add: wp_def op_catch_def discard_partial_def op_then_def io_def ok tick_def target_verified_def)
  have "wp (inspect env root (fp_device_id plan) (fp_session_id plan) (expected_of_plan plan))
      (\<lambda>evidence d'. same_files d d' \<and> (ae_status evidence = ArtVerified \<longrightarrow> target_verified env plan d')
        \<and> ((\<forall>reason. ae_status evidence \<noteq> ArtInvalid reason) \<longrightarrow> ae_status evidence = ArtVerified
              \<or> dk_target d' = None)) (\<lambda>_. False) d"
  proof -
    have "wp (judge env (expected_of_plan plan)) (\<lambda>status d'. same_files d d'
        \<and> (status = ArtVerified \<longrightarrow> target_verified env plan d')
        \<and> ((\<forall>reason. status \<noteq> ArtInvalid reason) \<longrightarrow> status = ArtVerified \<or> dk_target d' = None)) (\<lambda>_. False) d"
      using t
      by (auto simp: judge_def wp_simps ok committed_verdict_def partial_verdict_def part_length_def
          read_journal_def expected_of_plan_def target_bytes_def target_verified_def verified_bytes_def Let_def
          split: option.split target_node.split)
    then show ?thesis
      using assms(7)
      by (auto simp: inspect_def Let_def wp_then wp_return expected_of_plan_def elim!: wp_mono)
  qed
  then have "wp (inspect env root (fp_device_id plan) (fp_session_id plan) (expected_of_plan plan))
      (\<lambda>evidence. wp (case ae_status evidence of
        ArtVerified \<Rightarrow> op_then (op_catch (discard_partial env)) (\<lambda>_. op_return
            \<lparr>df_device_id = fp_device_id plan, df_session_id = fp_session_id plan,
             df_file_id = fp_file_id plan, df_path = target, df_size_bytes = fp_expected_size plan,
             df_sha256_hex = map to_ascii_lower (fp_expected_sha256_hex plan), df_etag = None\<rparr>)
      | ArtInvalid _ \<Rightarrow> op_then (remove_target env) (\<lambda>_. resume_and_fetch env source plan target)
      | _ \<Rightarrow> resume_and_fetch env source plan target) ?Q (\<lambda>_. False)) (\<lambda>_. False) d"
    by (rule wp_mono)
      (use fetch remove verified partial in \<open>auto simp: wp_then wp_return same_files_def
        split: artifact_status.split\<close>)
  then show ?thesis
    using assms(5-7) by (simp add: download_file_def wp_then wp_result path_result_def)
qed

text \<open>
  C36. An interrupted download completes: when no call of the file system fails any more and the
  source serves the expected content under one ETag, a download returns success with the verified
  file under the committed name, whether it starts from nothing, from a confirmed prefix of the
  content, from a partial file of another version (another ETag), or from a wrong committed file.
\<close>

theorem interrupted_download_completes:
  assumes "\<And>k. \<not> ie_fails env k" and "serves source c etag"
    and "verified_bytes env plan c" and "partial_of plan c etag d"
    and "validate_plan plan = Inr ()" "ie_directories env target = Inr ()"
    and "derive_target_path_for_file root (fp_device_id plan) (fp_session_id plan) (fp_file_id plan)
       (fp_target_relative_path plan) = Inr target"
    and "dk_target d \<notin> {Some TargetLink, Some TargetDirectory}"
  shows "\<exists>d' f. download_file env source plan root d = (d', Inr f) \<and> target_verified env plan d'"
proof (cases "download_file env source plan root d")
  case (Pair d' r)
  then show ?thesis using download_completes [OF assms] by (cases r) (auto simp: wp_def)
qed

section \<open>Downloads of four bytes\<close>

definition sample_file_plan :: file_plan where
  "sample_file_plan = \<lparr>fp_device_id = ''pi-1'', fp_session_id = ''s1'', fp_file_id = ''f1'',
     fp_target_relative_path = Some ''video/left.mp4'', fp_expected_size = 4,
     fp_expected_sha256_hex = replicate 64 (CHR ''0'')\<rparr>"

text \<open>An environment whose calls fail as given, and the disk after an interruption at two bytes.\<close>

definition sample_io :: "(nat \<Rightarrow> bool) \<Rightarrow> io_env" where
  "sample_io fails = \<lparr>ie_fails = fails, ie_torn = (\<lambda>_. 0), ie_directories = (\<lambda>_. Inr ()),
     ie_sha256 = (\<lambda>_. replicate 32 CHR 0x00)\<rparr>"

definition sample_disk :: "target_node option \<Rightarrow> string option \<Rightarrow> journal_file option \<Rightarrow> disk" where
  "sample_disk t p j = \<lparr>dk_target = t, dk_part = p, dk_synced = (case p of None \<Rightarrow> 0 | Some b \<Rightarrow> 2),
     dk_journal = j, dk_clock = 0\<rparr>"

definition interrupted_disk :: disk where
  "interrupted_disk = sample_disk None (Some ''abXX'') (Some (JournalRecord (checkpoint_at sample_file_plan 2 (Some ''e1''))))"

definition sample_range :: "nat \<Rightarrow> string" where
  "sample_range start = (if start = 1 then ''bytes 1-3/4'' else if start = 2 then ''bytes 2-3/4'' else ''bytes 3-3/4'')"

definition sample_server :: download_source where
  "sample_server k request =
     (let response = \<lambda>status. \<lparr>sr_status = status, sr_etag = Some ''e1'', sr_content_range = Some (sample_range (rr_start request)),
            sr_content_length = Some 4, sr_body = [ReadBytes (drop (rr_start request) ''abcd'')]\<rparr>
      in Inr (if rr_if_match_etag request \<notin> {None, Some ''e1''} then response 412
              else if rr_start request = 0 then response 200
              else if rr_start request < 4 then response 206 else response 416))"

lemma zero_digest: "digest_to_hex (replicate n CHR 0x00) = replicate (2 * n) (CHR ''0'')"
proof -
  have "hex_digit 0 = CHR ''0''" by (simp add: hex_digit_def char_of_eq_iff take_bit_eq_mod)
  then show ?thesis by (induction n) (simp_all add: digest_to_hex_def)
qed

lemma sample_hex: "sha256_hex (sample_io fails) c = replicate 64 (CHR ''0'')"
  using zero_digest [of 32] by (simp add: sha256_hex_def sample_io_def)

lemma lower_zero: "to_ascii_lower (CHR ''0'') = CHR ''0''"
  by (simp add: to_ascii_lower_def)

lemma sample_plan_valid: "validate_plan sample_file_plan = Inr ()"
proof -
  have "is_ascii_hexdigit (CHR ''0'')" by (simp add: is_ascii_hexdigit_def is_ascii_digit_def)
  then show ?thesis by (simp add: validate_plan_def sample_file_plan_def list_all_iff)
qed

lemma sample_plan_target:
  "derive_target_path_for_file [''lib''] (fp_device_id sample_file_plan) (fp_session_id sample_file_plan)
     (fp_file_id sample_file_plan) (fp_target_relative_path sample_file_plan)
   = Inr [''lib'', ''pi-1'', ''s1'', ''video'', ''left.mp4'']"
  using sample_target by (simp add: sample_file_plan_def)

lemma sample_verified_bytes: "verified_bytes (sample_io fails) sample_file_plan ''abcd''"
  by (simp add: verified_bytes_def sample_hex lower_zero sample_file_plan_def)

lemma sample_ranges:
  "parse_content_range_header ''bytes 1-3/4'' = Inr (1, 3, 4)"
  "parse_content_range_header ''bytes 2-3/4'' = Inr (2, 3, 4)"
  "parse_content_range_header ''bytes 3-3/4'' = Inr (3, 3, 4)"
  by (simp_all add: parse_content_range_header_def option_ok_def parse_u64_def is_ascii_digit_def ensure_def)

lemma sample_serves: "serves sample_server ''abcd'' ''e1''"
  unfolding serves_def
proof (intro allI)
  fix k and request :: requested_range
  have "rr_start request = 0 \<or> rr_start request = 1 \<or> rr_start request = 2 \<or> rr_start request = 3
      \<or> \<not> rr_start request < 4" by linarith
  then show "\<exists>response. sample_server k request = Inr response \<and> answers ''abcd'' ''e1'' request response"
    using sample_ranges
    by (elim disjE) (auto simp: sample_server_def answers_def Let_def sample_range_def)
qed

theorem interrupted_download_completes_witness:
  "\<exists>d' f. download_file (sample_io (\<lambda>_. False)) sample_server sample_file_plan [''lib''] interrupted_disk = (d', Inr f)
     \<and> target_verified (sample_io (\<lambda>_. False)) sample_file_plan d'"
proof (rule interrupted_download_completes [OF _ sample_serves sample_verified_bytes _ sample_plan_valid _ sample_plan_target])
  show "partial_of sample_file_plan ''abcd'' ''e1'' interrupted_disk"
    by (simp add: partial_of_def interrupted_disk_def sample_disk_def checkpoint_at_def part_bytes_def)
qed (simp_all add: sample_io_def interrupted_disk_def sample_disk_def)

theorem download_commits_only_verified_witness:
  "\<exists>d' r. download_file (sample_io (\<lambda>k. k = 7)) sample_server sample_file_plan [''lib''] interrupted_disk = (d', r)
     \<and> (dk_target d' = None \<or> target_verified (sample_io (\<lambda>k. k = 7)) sample_file_plan d')"
proof (cases "download_file (sample_io (\<lambda>k. k = 7)) sample_server sample_file_plan [''lib''] interrupted_disk")
  case (Pair d' r)
  then show ?thesis
    using download_commits_only_verified [OF Pair] by (auto simp: interrupted_disk_def sample_disk_def)
qed


theorem undecodable_journal_blocks_download_witness:
  "\<exists>d' e. download_file (sample_io (\<lambda>_. False)) sample_server sample_file_plan [''lib'']
       (sample_disk None None (Some JournalNotUtf8)) = (d', Inl e)"
proof (cases "download_file (sample_io (\<lambda>_. False)) sample_server sample_file_plan [''lib'']
       (sample_disk None None (Some JournalNotUtf8))")
  case (Pair d' r)
  then show ?thesis
    using undecodable_journal_blocks_download [OF _ _ Pair] by (auto simp: sample_disk_def)
qed

theorem unreadable_file_is_deleted_witness:
  "\<exists>d'. download_file (sample_io (\<lambda>k. k = 1)) (\<lambda>_ _. Inl (DlSource ''offline'')) sample_file_plan [''lib'']
       (sample_disk (Some (TargetFile ''abcd'')) None None) = (d', Inl (DlSource ''offline'')) \<and> dk_target d' = None"
  by (rule unreadable_file_is_deleted [OF sample_plan_valid _ sample_plan_target _ sample_verified_bytes])
    (simp_all add: sample_io_def sample_disk_def)

end
