(* ===== verification/Transfer_Progress.thy ===== *)
theory Transfer_Progress
  imports Download_Journal
begin

text \<open>
  Byte progress of a transfer (\<open>transfer/progress.rs\<close>) and the recovery plan it starts from
  (\<open>library/artifact.rs\<close>): the baseline folded from the evidence on disk, the tracker the worker
  updates, and its snapshots, taken between operations or between the loads and stores of the
  atomics. Numbers are natural numbers with the bounds of \<open>u64\<close> and \<open>u32\<close> written out.
\<close>

section \<open>Evidence and baseline\<close>

definition sat_add :: "nat \<Rightarrow> nat \<Rightarrow> nat" where
  "sat_add a b = min (a + b) (2 ^ 64 - 1)"

definition wrap_add :: "nat \<Rightarrow> nat \<Rightarrow> nat \<Rightarrow> nat" where
  "wrap_add w a b = (a + b) mod 2 ^ w"

text \<open>\<open>RecoveryPlan\<close>: the evidence of all files of a job.\<close>

definition needs_download :: "artifact_evidence \<Rightarrow> bool" where
  "needs_download e \<longleftrightarrow> \<not> is_verified e"

definition plan_reuse :: "artifact_evidence list \<Rightarrow> artifact_evidence list" where
  "plan_reuse es = filter is_verified es"

definition plan_redownload :: "artifact_evidence list \<Rightarrow> artifact_evidence list" where
  "plan_redownload es = filter needs_download es"

definition plan_durable_bytes :: "artifact_evidence list \<Rightarrow> nat" where
  "plan_durable_bytes es = fold (\<lambda>e acc. sat_add acc (durable_bytes e)) es 0"

definition plan_verified_files :: "artifact_evidence list \<Rightarrow> nat" where
  "plan_verified_files es = length (filter is_verified es) mod 2 ^ 32"

definition plan_total_bytes :: "artifact_evidence list \<Rightarrow> nat" where
  "plan_total_bytes es = fold (\<lambda>e acc. sat_add acc (ae_expected_size e)) es 0"

record disk_baseline =
  db_completed_bytes :: nat
  db_files_done :: nat
  db_partial_bytes :: nat

definition baseline_add :: "artifact_evidence \<Rightarrow> disk_baseline \<Rightarrow> disk_baseline" where
  "baseline_add e b =
     (case ae_status e of
        ArtVerified \<Rightarrow> b\<lparr>db_completed_bytes := sat_add (db_completed_bytes b) (durable_bytes e),
                        db_files_done := wrap_add 32 (db_files_done b) 1\<rparr>
      | ArtPartial _ \<Rightarrow> b\<lparr>db_partial_bytes := sat_add (db_partial_bytes b) (durable_bytes e)\<rparr>
      | _ \<Rightarrow> b)"

definition from_evidence :: "artifact_evidence list \<Rightarrow> disk_baseline" where
  "from_evidence es =
     fold baseline_add es \<lparr>db_completed_bytes = 0, db_files_done = 0, db_partial_bytes = 0\<rparr>"

definition baseline_durable_bytes :: "disk_baseline \<Rightarrow> nat" where
  "baseline_durable_bytes b = sat_add (db_completed_bytes b) (db_partial_bytes b)"

section \<open>The tracker\<close>

record tracker =
  tr_total_bytes :: nat
  tr_files_total :: nat
  tr_completed_bytes :: nat
  tr_files_done :: nat
  tr_current_file_bytes :: nat
  tr_peak_transferred :: nat

record job_progress =
  jp_total_bytes :: nat
  jp_transferred_bytes :: nat
  jp_files_total :: nat
  jp_files_done :: nat

definition new_tracker :: "nat \<Rightarrow> nat \<Rightarrow> tracker" where
  "new_tracker total_bytes files_total =
     \<lparr>tr_total_bytes = total_bytes, tr_files_total = files_total, tr_completed_bytes = 0,
      tr_files_done = 0, tr_current_file_bytes = 0, tr_peak_transferred = 0\<rparr>"

definition with_baseline :: "nat \<Rightarrow> nat \<Rightarrow> disk_baseline \<Rightarrow> tracker" where
  "with_baseline total_bytes files_total b =
     (new_tracker total_bytes files_total)
       \<lparr>tr_completed_bytes := db_completed_bytes b, tr_files_done := db_files_done b,
        tr_peak_transferred :=
          min (wrap_add 64 (db_completed_bytes b) (db_partial_bytes b)) total_bytes\<rparr>"

definition from_evidence_source :: "artifact_evidence list \<Rightarrow> tracker" where
  "from_evidence_source es =
     with_baseline (plan_total_bytes es) (length es mod 2 ^ 32) (from_evidence es)"

definition raw_transferred :: "tracker \<Rightarrow> nat" where
  "raw_transferred t = min (sat_add (tr_completed_bytes t) (tr_current_file_bytes t)) (tr_total_bytes t)"

definition bump_peak :: "tracker \<Rightarrow> tracker" where
  "bump_peak t = t\<lparr>tr_peak_transferred := max (tr_peak_transferred t) (raw_transferred t)\<rparr>"

definition set_current_file_offset :: "nat \<Rightarrow> tracker \<Rightarrow> tracker" where
  "set_current_file_offset offset t = bump_peak (t\<lparr>tr_current_file_bytes := offset\<rparr>)"

definition file_completed :: "nat \<Rightarrow> tracker \<Rightarrow> tracker" where
  "file_completed expected_size t =
     bump_peak (t\<lparr>tr_current_file_bytes := 0,
                  tr_completed_bytes := wrap_add 64 (tr_completed_bytes t) expected_size,
                  tr_files_done := wrap_add 32 (tr_files_done t) 1\<rparr>)"

definition snapshot :: "tracker \<Rightarrow> job_progress" where
  "snapshot t =
     \<lparr>jp_total_bytes = tr_total_bytes t,
      jp_transferred_bytes = max (tr_peak_transferred t) (raw_transferred t),
      jp_files_total = tr_files_total t, jp_files_done = min (tr_files_done t) (tr_files_total t)\<rparr>"

section \<open>Interleaved snapshots\<close>

text \<open>
  The atomic steps of the worker's operations. The loads of \<open>bump_peak\<close> read what only the worker
  writes, so with its \<open>fetch_max\<close> they are one step.
\<close>

datatype writer_step = StoreCurrent nat | AddCompleted nat | IncrementDone | BumpPeak

fun run_writer_step :: "writer_step \<Rightarrow> tracker \<Rightarrow> tracker" where
  "run_writer_step (StoreCurrent offset) t = t\<lparr>tr_current_file_bytes := offset\<rparr>"
| "run_writer_step (AddCompleted n) t = t\<lparr>tr_completed_bytes := wrap_add 64 (tr_completed_bytes t) n\<rparr>"
| "run_writer_step IncrementDone t = t\<lparr>tr_files_done := wrap_add 32 (tr_files_done t) 1\<rparr>"
| "run_writer_step BumpPeak t = bump_peak t"

definition set_current_file_offset_steps :: "nat \<Rightarrow> writer_step list" where
  "set_current_file_offset_steps offset = [StoreCurrent offset, BumpPeak]"

definition file_completed_steps :: "nat \<Rightarrow> writer_step list" where
  "file_completed_steps n = [StoreCurrent 0, AddCompleted n, IncrementDone, BumpPeak]"

text \<open>A snapshot loads the high-water mark, then the completed bytes, then the current offset.\<close>

datatype reader = ReaderIdle | LoadedPeak nat | LoadedCompleted nat nat

record progress_run =
  pr_tracker :: tracker
  pr_writer :: "writer_step list"
  pr_reader :: reader
  pr_observed :: "(nat \<times> nat) list"

text \<open>The observations come with what an undisturbed snapshot would have shown at their end.\<close>

inductive progress_step :: "progress_run \<Rightarrow> progress_run \<Rightarrow> bool" where
  writes: "pr_writer s = w # ws \<Longrightarrow>
    progress_step s (s\<lparr>pr_tracker := run_writer_step w (pr_tracker s), pr_writer := ws\<rparr>)"
| loads_peak: "pr_reader s = ReaderIdle \<Longrightarrow>
    progress_step s (s\<lparr>pr_reader := LoadedPeak (tr_peak_transferred (pr_tracker s))\<rparr>)"
| loads_completed: "pr_reader s = LoadedPeak p \<Longrightarrow>
    progress_step s (s\<lparr>pr_reader := LoadedCompleted p (tr_completed_bytes (pr_tracker s))\<rparr>)"
| observes: "pr_reader s = LoadedCompleted p c \<Longrightarrow> t = pr_tracker s \<Longrightarrow>
    progress_step s (s\<lparr>pr_reader := ReaderIdle, pr_observed := pr_observed s @
      [(max p (min (sat_add c (tr_current_file_bytes t)) (tr_total_bytes t)),
        jp_transferred_bytes (snapshot t))]\<rparr>)"

inductive progress_run_to :: "progress_run \<Rightarrow> progress_run \<Rightarrow> bool" for s0 where
  starts: "progress_run_to s0 s0"
| continues: "progress_run_to s0 s \<Longrightarrow> progress_step s s' \<Longrightarrow> progress_run_to s0 s'"

inductive_cases progress_stepE: "progress_step s s'"

definition start_run :: "tracker \<Rightarrow> writer_step list \<Rightarrow> progress_run" where
  "start_run t ws = \<lparr>pr_tracker = t, pr_writer = ws, pr_reader = ReaderIdle, pr_observed = []\<rparr>"

lemma steps_are_operations:
  "fold run_writer_step (set_current_file_offset_steps offset) t = set_current_file_offset offset t"
  "fold run_writer_step (file_completed_steps n) t = file_completed n t"
  by (simp_all add: set_current_file_offset_steps_def file_completed_steps_def set_current_file_offset_def
      file_completed_def)

section \<open>Progress between operations\<close>

datatype tracker_op = OffsetReached nat | FileCompleted nat

fun run_op :: "tracker_op \<Rightarrow> tracker \<Rightarrow> tracker" where
  "run_op (OffsetReached offset) t = set_current_file_offset offset t"
| "run_op (FileCompleted n) t = file_completed n t"

fun completions :: "tracker_op list \<Rightarrow> nat list" where
  "completions [] = []"
| "completions (OffsetReached offset # ops) = completions ops"
| "completions (FileCompleted n # ops) = n # completions ops"

abbreviation transferred :: "tracker \<Rightarrow> nat" where
  "transferred t \<equiv> jp_transferred_bytes (snapshot t)"

lemma raw_le_total: "raw_transferred t \<le> tr_total_bytes t"
  by (simp add: raw_transferred_def)

lemma bump_peak_frame [simp]:
  "tr_total_bytes (bump_peak t) = tr_total_bytes t" "tr_completed_bytes (bump_peak t) = tr_completed_bytes t"
  "tr_files_done (bump_peak t) = tr_files_done t" "tr_files_total (bump_peak t) = tr_files_total t"
  "tr_current_file_bytes (bump_peak t) = tr_current_file_bytes t"
  "raw_transferred (bump_peak t) = raw_transferred t"
  "tr_peak_transferred (bump_peak t) = max (tr_peak_transferred t) (raw_transferred t)"
  by (simp_all add: bump_peak_def raw_transferred_def)

text \<open>After an operation the high-water mark covers what is counted.\<close>

definition settled :: "tracker \<Rightarrow> bool" where
  "settled t \<longleftrightarrow> raw_transferred t \<le> tr_peak_transferred t \<and> tr_peak_transferred t \<le> tr_total_bytes t"

lemma bump_settled: "tr_peak_transferred t \<le> tr_total_bytes t \<Longrightarrow> settled (bump_peak t)"
  using raw_le_total [of t] by (simp add: settled_def)

lemma run_op_settled:
  assumes "settled t"
  shows "settled (run_op x t) \<and> tr_peak_transferred t \<le> tr_peak_transferred (run_op x t)
    \<and> tr_total_bytes (run_op x t) = tr_total_bytes t \<and> tr_files_total (run_op x t) = tr_files_total t"
proof -
  have le: "tr_peak_transferred t \<le> tr_total_bytes t" using assms by (simp add: settled_def)
  have bump: "settled (bump_peak t') \<and> tr_peak_transferred t \<le> tr_peak_transferred (bump_peak t')
      \<and> tr_total_bytes (bump_peak t') = tr_total_bytes t \<and> tr_files_total (bump_peak t') = tr_files_total t"
    if "tr_peak_transferred t' = tr_peak_transferred t" "tr_total_bytes t' = tr_total_bytes t"
      "tr_files_total t' = tr_files_total t" for t'
    using bump_settled [of t'] le that by simp
  show ?thesis
  proof (cases x)
    case (OffsetReached n)
    show ?thesis
      unfolding OffsetReached run_op.simps set_current_file_offset_def by (rule bump) simp_all
  next
    case (FileCompleted n)
    show ?thesis
      unfolding FileCompleted run_op.simps file_completed_def by (rule bump) simp_all
  qed
qed

lemma run_ops_settled:
  assumes "settled t"
  shows "settled (fold run_op ops t) \<and> tr_peak_transferred t \<le> tr_peak_transferred (fold run_op ops t)
    \<and> tr_total_bytes (fold run_op ops t) = tr_total_bytes t \<and> tr_files_total (fold run_op ops t) = tr_files_total t"
  using assms
proof (induction ops arbitrary: t)
  case (Cons x ops)
  note step = run_op_settled [OF Cons.prems, of x]
  note rest = Cons.IH [OF conjunct1 [OF step]]
  have "tr_peak_transferred t \<le> tr_peak_transferred (fold run_op (x # ops) t)"
    using step rest by (simp del: run_op.simps)
  then show ?case using step rest by (simp del: run_op.simps)
qed simp

lemma settled_transferred: "settled t \<Longrightarrow> transferred t = tr_peak_transferred t"
  by (simp add: settled_def snapshot_def)

lemma sum_of_evidence:
  "plan_total_bytes es = min (sum_list (map ae_expected_size es)) (2 ^ 64 - 1)"
  "plan_durable_bytes es = min (sum_list (map durable_bytes es)) (2 ^ 64 - 1)"
proof -
  have "fold (\<lambda>e acc. sat_add acc (f e)) es a = min (a + sum_list (map f es)) (2 ^ 64 - 1)"
    if "a \<le> 2 ^ 64 - 1" for f :: "artifact_evidence \<Rightarrow> nat" and a
    using that by (induction es arbitrary: a) (simp_all add: sat_add_def)
  from this [of 0] show "plan_total_bytes es = min (sum_list (map ae_expected_size es)) (2 ^ 64 - 1)"
    "plan_durable_bytes es = min (sum_list (map durable_bytes es)) (2 ^ 64 - 1)"
    by (simp_all add: plan_total_bytes_def plan_durable_bytes_def)
qed

definition verified_bytes_of :: "artifact_evidence list \<Rightarrow> nat" where
  "verified_bytes_of es = sum_list (map ae_expected_size (filter is_verified es))"

definition partial_bytes_of :: "artifact_evidence list \<Rightarrow> nat" where
  "partial_bytes_of es = sum_list (map durable_bytes (filter needs_download es))"

lemma sizes_split:
  "sum_list (map ae_expected_size es)
     = verified_bytes_of es + sum_list (map ae_expected_size (plan_redownload es))"
  "sum_list (map durable_bytes es) = verified_bytes_of es + partial_bytes_of es"
  by (induction es)
    (simp_all add: verified_bytes_of_def partial_bytes_of_def plan_redownload_def needs_download_def
      is_verified_def durable_bytes_def)

lemma partial_le: "partial_bytes_of es \<le> sum_list (map ae_expected_size (plan_redownload es))"
  by (induction es)
    (auto simp: partial_bytes_of_def plan_redownload_def needs_download_def is_verified_def durable_bytes_def
      split: artifact_status.split)

lemma baseline_of_evidence:
  assumes "sum_list (map ae_expected_size es) < 2 ^ 64" "length es < 2 ^ 32"
  shows "from_evidence es = \<lparr>db_completed_bytes = verified_bytes_of es,
     db_files_done = length (filter is_verified es), db_partial_bytes = partial_bytes_of es\<rparr>"
proof -
  have folded: "fold baseline_add es b = \<lparr>db_completed_bytes = db_completed_bytes b + verified_bytes_of es,
      db_files_done = db_files_done b + length (filter is_verified es),
      db_partial_bytes = db_partial_bytes b + partial_bytes_of es\<rparr>"
    if "db_completed_bytes b + sum_list (map ae_expected_size es) < 2 ^ 64"
      "db_partial_bytes b + sum_list (map ae_expected_size es) < 2 ^ 64"
      "db_files_done b + length es < 2 ^ 32" for b
    using that
  proof (induction es arbitrary: b)
    case (Cons e es)
    have "durable_bytes e \<le> ae_expected_size e"
      by (auto simp: durable_bytes_def split: artifact_status.split)
    then show ?case
      using Cons.prems
      by (subst fold_simps, subst Cons.IH)
        (auto simp: baseline_add_def verified_bytes_of_def partial_bytes_of_def needs_download_def
          is_verified_def durable_bytes_def sat_add_def wrap_add_def split: artifact_status.splits)
  qed (simp add: verified_bytes_of_def partial_bytes_of_def)
  then show ?thesis
    using assms unfolding from_evidence_def by (subst folded) simp_all
qed

lemma run_ops_counts:
  assumes "tr_completed_bytes t + sum_list (completions ops) < 2 ^ 64"
    "tr_files_done t + length (completions ops) < 2 ^ 32"
  shows "tr_completed_bytes (fold run_op ops t) = tr_completed_bytes t + sum_list (completions ops)
    \<and> tr_files_done (fold run_op ops t) = tr_files_done t + length (completions ops)"
  using assms
proof (induction ops arbitrary: t rule: completions.induct)
  case (2 n ops)
  then show ?case using 2(1) [of "run_op (OffsetReached n) t"] by (simp add: set_current_file_offset_def)
next
  case (3 n ops)
  have "tr_completed_bytes (run_op (FileCompleted n) t) = tr_completed_bytes t + n"
    "tr_files_done (run_op (FileCompleted n) t) = tr_files_done t + 1"
    using 3(2,3) by (simp_all add: file_completed_def wrap_add_def)
  then show ?case using 3(1) [of "run_op (FileCompleted n) t"] 3(2,3) by (simp del: run_op.simps)
qed simp

lemma length_redownload: "length es = length (filter is_verified es) + length (plan_redownload es)"
  by (induction es) (simp_all add: plan_redownload_def needs_download_def)

lemma start_of_evidence:
  assumes "sum_list (map ae_expected_size es) < 2 ^ 64" "length es < 2 ^ 32"
  shows "settled (from_evidence_source es)"
    and "tr_total_bytes (from_evidence_source es) = sum_list (map ae_expected_size es)"
    and "tr_files_total (from_evidence_source es) = length es"
    and "tr_completed_bytes (from_evidence_source es) = verified_bytes_of es"
    and "tr_files_done (from_evidence_source es) = length (filter is_verified es)"
    and "tr_peak_transferred (from_evidence_source es) = sum_list (map durable_bytes es)"
proof -
  let ?t = "from_evidence_source es"
  have whole: "plan_total_bytes es = sum_list (map ae_expected_size es)"
    using assms(1) sum_of_evidence(1) [of es] by simp
  have bound: "verified_bytes_of es + partial_bytes_of es \<le> sum_list (map ae_expected_size es)"
    using sizes_split(1) [of es] partial_le [of es] by simp
  then have wrap: "wrap_add 64 (verified_bytes_of es) (partial_bytes_of es) = sum_list (map durable_bytes es)"
    using assms(1) sizes_split(2) [of es] by (simp add: wrap_add_def)
  show "tr_total_bytes ?t = sum_list (map ae_expected_size es)" "tr_files_total ?t = length es"
    "tr_completed_bytes ?t = verified_bytes_of es" "tr_files_done ?t = length (filter is_verified es)"
    and p: "tr_peak_transferred ?t = sum_list (map durable_bytes es)"
    using baseline_of_evidence [OF assms] whole wrap assms(2) bound sizes_split(2) [of es]
    by (simp_all add: from_evidence_source_def with_baseline_def new_tracker_def)
  have "raw_transferred ?t \<le> verified_bytes_of es"
    using baseline_of_evidence [OF assms]
    by (simp add: raw_transferred_def from_evidence_source_def with_baseline_def new_tracker_def sat_add_def)
  then show "settled ?t"
    using p bound sizes_split(2) [of es] whole
    by (simp add: settled_def from_evidence_source_def with_baseline_def new_tracker_def)
qed


section \<open>Progress between atomic steps\<close>

lemma decreasing_run:
  "\<exists>s. progress_run_to
       (start_run (new_tracker 300 3) (set_current_file_offset_steps 100 @ file_completed_steps 100)) s
     \<and> map fst (pr_observed s) = [100, 0]"
proof -
  let ?ws = "set_current_file_offset_steps 100 @ file_completed_steps 100"
  let ?s0 = "start_run (new_tracker 300 3) ?ws"
  have ws: "?ws = [StoreCurrent 100, BumpPeak, StoreCurrent 0, AddCompleted 100, IncrementDone, BumpPeak]"
    by (simp add: set_current_file_offset_steps_def file_completed_steps_def)
  let ?t1 = "run_writer_step (StoreCurrent 100) (new_tracker 300 3)"
  let ?t2 = "run_writer_step BumpPeak ?t1"
  let ?t3 = "run_writer_step (StoreCurrent 0) ?t2"
  let ?run = "\<lambda>t ws r obs. \<lparr>pr_tracker = t, pr_writer = ws, pr_reader = r, pr_observed = obs\<rparr>"
  let ?w1 = "[BumpPeak, StoreCurrent 0, AddCompleted 100, IncrementDone, BumpPeak]"
  have "progress_run_to ?s0 (?run ?t1 ?w1 ReaderIdle [])"
    using continues [OF starts writes [of ?s0 "StoreCurrent 100" ?w1]] ws by (simp add: start_run_def)
  then have "progress_run_to ?s0 (?run ?t1 ?w1 (LoadedPeak 0) [])"
    by (rule continues) (use loads_peak [of "?run ?t1 ?w1 ReaderIdle []"] in \<open>simp add: new_tracker_def\<close>)
  then have "progress_run_to ?s0 (?run ?t1 ?w1 (LoadedCompleted 0 0) [])"
    by (rule continues) (use loads_completed [of "?run ?t1 ?w1 (LoadedPeak 0) []"] in \<open>simp add: new_tracker_def\<close>)
  then have "progress_run_to ?s0 (?run ?t1 ?w1 ReaderIdle [(100, 100)])"
    by (rule continues)
      (use observes [of "?run ?t1 ?w1 (LoadedCompleted 0 0) []"] in \<open>simp add: new_tracker_def sat_add_def
        snapshot_def raw_transferred_def\<close>)
  then have "progress_run_to ?s0 (?run ?t1 ?w1 (LoadedPeak 0) [(100, 100)])"
    by (rule continues) (use loads_peak [of "?run ?t1 ?w1 ReaderIdle [(100, 100)]"] in \<open>simp add: new_tracker_def\<close>)
  then have "progress_run_to ?s0 (?run ?t2 (tl ?w1) (LoadedPeak 0) [(100, 100)])"
    by (rule continues) (use writes [of "?run ?t1 ?w1 (LoadedPeak 0) [(100, 100)]"] in simp)
  then have "progress_run_to ?s0 (?run ?t3 (tl (tl ?w1)) (LoadedPeak 0) [(100, 100)])"
    by (rule continues) (use writes [of "?run ?t2 (tl ?w1) (LoadedPeak 0) [(100, 100)]"] in simp)
  then have "progress_run_to ?s0 (?run ?t3 (tl (tl ?w1)) (LoadedCompleted 0 0) [(100, 100)])"
    by (rule continues)
      (use loads_completed [of "?run ?t3 (tl (tl ?w1)) (LoadedPeak 0) [(100, 100)]"] in
        \<open>simp add: new_tracker_def bump_peak_def\<close>)
  then have "progress_run_to ?s0 (?run ?t3 (tl (tl ?w1)) ReaderIdle
      [(100, 100), (0, jp_transferred_bytes (snapshot ?t3))])"
    by (rule continues)
      (use observes [of "?run ?t3 (tl (tl ?w1)) (LoadedCompleted 0 0) [(100, 100)]" 0 0 ?t3] in
        \<open>simp add: sat_add_def\<close>)
  then show ?thesis by fastforce
qed

text \<open>
  A snapshot taken while the worker moves can go back: the snapshot loads the high-water mark
  before the counters, so an offset that is stored but not yet in the high-water mark can be shown
  once and be gone in the next snapshot, after the file it belongs to is finished and before its
  size is added.
\<close>

theorem concurrent_snapshot_can_decrease:
  "\<exists>s. progress_run_to
       (start_run (new_tracker 300 3) (set_current_file_offset_steps 100 @ file_completed_steps 100)) s
     \<and> map fst (pr_observed s) = [100, 0]"
  by (rule decreasing_run)

text \<open>What the reader holds is never ahead of the tracker, whose counters only grow.\<close>

fun pending_bytes :: "writer_step list \<Rightarrow> nat" where
  "pending_bytes [] = 0"
| "pending_bytes (AddCompleted n # ws) = n + pending_bytes ws"
| "pending_bytes (w # ws) = pending_bytes ws"

definition reader_behind :: "progress_run \<Rightarrow> bool" where
  "reader_behind s \<longleftrightarrow>
     tr_completed_bytes (pr_tracker s) + pending_bytes (pr_writer s) < 2 ^ 64
     \<and> (case pr_reader s of
          ReaderIdle \<Rightarrow> True
        | LoadedPeak p \<Rightarrow> p \<le> tr_peak_transferred (pr_tracker s)
        | LoadedCompleted p c \<Rightarrow> p \<le> tr_peak_transferred (pr_tracker s)
            \<and> c \<le> tr_completed_bytes (pr_tracker s))
     \<and> list_all (\<lambda>(v, undisturbed). v \<le> undisturbed) (pr_observed s)"

lemma writer_step_grows:
  assumes "tr_completed_bytes t + pending_bytes (w # ws) < 2 ^ 64"
  shows "tr_peak_transferred t \<le> tr_peak_transferred (run_writer_step w t)
    \<and> tr_completed_bytes t \<le> tr_completed_bytes (run_writer_step w t)
    \<and> tr_completed_bytes (run_writer_step w t) + pending_bytes ws < 2 ^ 64"
  using assms by (cases w) (simp_all add: wrap_add_def)

lemma progress_step_behind: "progress_step s s' \<Longrightarrow> reader_behind s \<Longrightarrow> reader_behind s'"
proof (induction rule: progress_step.induct)
  case (writes s w ws)
  note grows = writer_step_grows [of "pr_tracker s" w ws]
  show ?case
    using writes grows by (cases "pr_reader s") (simp_all add: reader_behind_def)
next
  case (observes s p c t)
  have "max p (min (sat_add c (tr_current_file_bytes t)) (tr_total_bytes t)) \<le> transferred t"
    if "p \<le> tr_peak_transferred t" "c \<le> tr_completed_bytes t"
    using that by (auto simp: snapshot_def raw_transferred_def sat_add_def min_def max_def)
  then show ?case using observes by (simp add: reader_behind_def)
qed (simp_all add: reader_behind_def)

text \<open>
  C40. A concurrent snapshot never shows too much: however its loads interleave with the worker, it
  shows at most what an undisturbed snapshot at its end would show.
\<close>

theorem concurrent_snapshot_never_over_reports:
  assumes "progress_run_to (start_run t ws) s" "tr_completed_bytes t + pending_bytes ws < 2 ^ 64"
  shows "list_all (\<lambda>(v, undisturbed). v \<le> undisturbed) (pr_observed s)"
proof -
  have "reader_behind (start_run t ws)" using assms(2) by (simp add: reader_behind_def start_run_def)
  with assms(1) have "reader_behind s" by induction (auto intro: progress_step_behind)
  then show ?thesis by (simp add: reader_behind_def)
qed

section \<open>A job of two files\<close>

definition sample_evidence :: "artifact_evidence list" where
  "sample_evidence =
     [\<lparr>ae_file_id = ''a'', ae_expected_size = 5, ae_target = None, ae_status = ArtVerified\<rparr>,
      \<lparr>ae_file_id = ''b'', ae_expected_size = 7, ae_target = None, ae_status = ArtPartial 3\<rparr>]"


theorem concurrent_snapshot_never_over_reports_witness:
  "\<exists>s :: progress_run. map fst (pr_observed s) = [100, 0] \<and> list_all (\<lambda>(v, undisturbed). v \<le> undisturbed) (pr_observed s)"
proof -
  let ?ws = "set_current_file_offset_steps 100 @ file_completed_steps 100"
  obtain s where s: "progress_run_to (start_run (new_tracker 300 3) ?ws) s \<and> map fst (pr_observed s) = [100, 0]"
    using decreasing_run by (rule exE)
  have "tr_completed_bytes (new_tracker 300 3) + pending_bytes ?ws < 2 ^ 64"
    by (simp add: new_tracker_def set_current_file_offset_steps_def file_completed_steps_def)
  show ?thesis
    by (rule exI [of _ s], rule conjI [OF conjunct2 [OF s]])
      (rule concurrent_snapshot_never_over_reports [OF conjunct1 [OF s] \<open>_ < 2 ^ 64\<close>])
qed

end
